(* ===== verification/PyPrelude.thy ===== *)
theory PyPrelude
  imports Complex_Main "HOL-Library.Sublist" "HOL-Library.AList"
begin

text \<open>
  Shared prelude: the part of Python that the modelled code uses.

  \<^item> A Python \<open>str\<close> is a \<open>string\<close>; the operations below are those of \<open>str\<close>
    (\<open>startswith\<close>, \<open>in\<close>, \<open>strip\<close>, \<open>split\<close>, \<open>join\<close>, \<open>lower\<close>, \<open>upper\<close>, \<open>replace\<close>,
    \<open>splitlines\<close>).  Case conversion acts on the ASCII letters and is the identity on
    every other character.
  \<^item> A value as \<open>json.loads\<close> delivers it is a \<open>pyval\<close>.  A float is kept as its \<open>repr\<close>
    text, which determines it and is all that the code reads of it.
  \<^item> A dict keeps insertion order: it is an association list, updated in place by
    \<open>AList.update\<close>.
  \<^item> A time stamp (\<open>time()\<close>, a POSIX time in seconds) is a rational number.

  The named theorem collections \<open>py_defs\<close> (operations of \<open>str\<close> and of dicts, unfolded
  when a concrete text is evaluated) and \<open>step_inv\<close> (invariant preservation lemmas of the
  components' operations) are filled by the theories that import this one.
\<close>

named_theorems py_defs "definitions to unfold when evaluating concrete texts"
named_theorems step_inv "preservation of component invariants by their operations"

section \<open>Texts\<close>

type_synonym timestamp = rat

definition startswith :: "string \<Rightarrow> string \<Rightarrow> bool" where
  [py_defs]: "startswith s p \<longleftrightarrow> prefix p s"

definition endswith :: "string \<Rightarrow> string \<Rightarrow> bool" where
  [py_defs]: "endswith s p \<longleftrightarrow> suffix p s"

text \<open>\<open>p in s\<close> on texts.\<close>

definition contains :: "string \<Rightarrow> string \<Rightarrow> bool" where
  [py_defs]: "contains s p \<longleftrightarrow> sublist p s"

definition char_code :: "char \<Rightarrow> nat" where
  [py_defs]: "char_code c = of_char c"

definition is_space :: "char \<Rightarrow> bool" where
  [py_defs]: "is_space c \<longleftrightarrow> of_char c \<in> {9, 10, 11, 12, 13, 28, 29, 30, 31, 32, 133, 160 :: nat}"

definition is_digit :: "char \<Rightarrow> bool" where
  [py_defs]: "is_digit c \<longleftrightarrow> 48 \<le> (of_char c :: nat) \<and> (of_char c :: nat) \<le> 57"

definition is_upper :: "char \<Rightarrow> bool" where
  [py_defs]: "is_upper c \<longleftrightarrow> 65 \<le> (of_char c :: nat) \<and> (of_char c :: nat) \<le> 90"

definition is_lower :: "char \<Rightarrow> bool" where
  [py_defs]: "is_lower c \<longleftrightarrow> 97 \<le> (of_char c :: nat) \<and> (of_char c :: nat) \<le> 122"

definition is_ascii_word :: "char \<Rightarrow> bool" where
  [py_defs]: "is_ascii_word c \<longleftrightarrow> is_digit c \<or> is_upper c \<or> is_lower c \<or> c = CHR ''_''"

text \<open>The class \<open>\w\<close> of \<open>re\<close>, with the alphanumeric characters above 127.\<close>

definition is_word :: "char \<Rightarrow> bool" where
  [py_defs]: "is_word c \<longleftrightarrow> is_ascii_word c \<or>
     (let n = (of_char c :: nat) in
      n \<in> {170, 178, 179, 181, 185, 186, 188, 189, 190} \<or> 192 \<le> n \<and> n \<noteq> 215 \<and> n \<noteq> 247)"

definition lower_char :: "char \<Rightarrow> char" where
  [py_defs]: "lower_char c = (if is_upper c then char_of ((of_char c :: nat) + 32) else c)"

definition upper_char :: "char \<Rightarrow> char" where
  [py_defs]: "upper_char c = (if is_lower c then char_of ((of_char c :: nat) - 32) else c)"

definition lower :: "string \<Rightarrow> string" where
  [py_defs]: "lower s = map lower_char s"

definition upper :: "string \<Rightarrow> string" where
  [py_defs]: "upper s = map upper_char s"

definition rdropWhile :: "('a \<Rightarrow> bool) \<Rightarrow> 'a list \<Rightarrow> 'a list" where
  [py_defs]: "rdropWhile P xs = rev (dropWhile P (rev xs))"

definition strip :: "string \<Rightarrow> string" where
  [py_defs]: "strip s = rdropWhile is_space (dropWhile is_space s)"

text \<open>\<open>s.rstrip(chars)\<close>.\<close>

definition rstrip_chars :: "string \<Rightarrow> string \<Rightarrow> string" where
  [py_defs]: "rstrip_chars cs s = rdropWhile (\<lambda>c. c \<in> set cs) s"

text \<open>\<open>sep.join(parts)\<close>.\<close>

fun join :: "string \<Rightarrow> string list \<Rightarrow> string" where
  "join sep [] = []"
| "join sep [x] = x"
| "join sep (x # y # zs) = x @ sep @ join sep (y # zs)"

text \<open>\<open>s.split(c)\<close> for a one-character separator: always at least one part.\<close>

fun split_on :: "char \<Rightarrow> string \<Rightarrow> string list" where
  "split_on c [] = [[]]"
| "split_on c (x # xs) =
     (if x = c then [] # split_on c xs
      else (case split_on c xs of [] \<Rightarrow> [[x]] | p # ps \<Rightarrow> (x # p) # ps))"

text \<open>\<open>s.split()\<close>: the maximal runs of non-space characters.\<close>

fun split_ws_acc :: "string \<Rightarrow> string \<Rightarrow> string list" where
  "split_ws_acc acc [] = (if acc = [] then [] else [rev acc])"
| "split_ws_acc acc (x # xs) =
     (if is_space x then (if acc = [] then split_ws_acc [] xs else rev acc # split_ws_acc [] xs)
      else split_ws_acc (x # acc) xs)"

definition split_ws :: "string \<Rightarrow> string list" where
  "split_ws s = split_ws_acc [] s"

text \<open>\<open>s.splitlines()\<close> (line boundaries: LF, VT, FF, CR, CR LF, FS, GS, RS, NEL).\<close>

definition is_line_sep :: "char \<Rightarrow> bool" where
  "is_line_sep c \<longleftrightarrow> of_char c \<in> {10, 11, 12, 13, 28, 29, 30, 133 :: nat}"

fun splitlines_acc :: "string \<Rightarrow> string \<Rightarrow> string list" where
  "splitlines_acc acc [] = (if acc = [] then [] else [rev acc])"
| "splitlines_acc acc (x # xs) =
     (if of_char x = (13::nat) then
        (case xs of y # ys \<Rightarrow> if of_char y = (10::nat) then rev acc # splitlines_acc [] ys
                              else rev acc # splitlines_acc [] xs
         | [] \<Rightarrow> [rev acc])
      else if is_line_sep x then rev acc # splitlines_acc [] xs
      else splitlines_acc (x # acc) xs)"

definition splitlines :: "string \<Rightarrow> string list" where
  "splitlines s = splitlines_acc [] s"

text \<open>\<open>s[:n]\<close> for a non-negative \<open>n\<close> is \<open>take n s\<close>.  Decimal texts of numbers:\<close>

definition digit_char :: "nat \<Rightarrow> char" where
  "digit_char d = char_of (48 + d)"

fun str_of_nat :: "nat \<Rightarrow> string" where
  "str_of_nat n = (if n < 10 then [digit_char n] else str_of_nat (n div 10) @ [digit_char (n mod 10)])"

declare str_of_nat.simps [simp del]

definition str_of_int :: "int \<Rightarrow> string" where
  "str_of_int i = (if i < 0 then CHR ''-'' # str_of_nat (nat (- i)) else str_of_nat (nat i))"

section \<open>Values\<close>

datatype pyval =
    PNone
  | PBool bool
  | PInt int
  | PFloat string
  | PStr string
  | PList "pyval list"
  | PDict "(string \<times> pyval) list"

type_synonym pydict = "(string \<times> pyval) list"

text \<open>\<open>bool(v)\<close>.\<close>

fun truthy :: "pyval \<Rightarrow> bool" where
  "truthy PNone = False"
| "truthy (PBool b) = b"
| "truthy (PInt i) = (i \<noteq> 0)"
| "truthy (PFloat r) = (r \<noteq> ''0.0'' \<and> r \<noteq> ''-0.0'')"
| "truthy (PStr s) = (s \<noteq> [])"
| "truthy (PList xs) = (xs \<noteq> [])"
| "truthy (PDict kvs) = (kvs \<noteq> [])"

text \<open>\<open>repr\<close> of a text and \<open>str\<close> of a value.\<close>

definition hex_digit :: "nat \<Rightarrow> char" where
  "hex_digit d = (if d < 10 then char_of (48 + d) else char_of (87 + d))"

definition repr_char :: "char \<Rightarrow> char \<Rightarrow> string" where
  "repr_char q c =
     (let n = (of_char c :: nat) in
      if c = q \<or> n = 92 then [char_of (92::nat), c]
      else if n = 10 then [char_of (92::nat), CHR ''n'']
      else if n = 13 then [char_of (92::nat), CHR ''r'']
      else if n = 9 then [char_of (92::nat), CHR ''t'']
      else if n < 32 \<or> (127 \<le> n \<and> n \<le> 160) \<or> n = 173
        then [char_of (92::nat), CHR ''x'', hex_digit (n div 16), hex_digit (n mod 16)]
      else [c])"

definition repr_str :: "string \<Rightarrow> string" where
  "repr_str s =
     (let sq = char_of (39::nat); dq = char_of (34::nat);
          q = (if sq \<in> set s \<and> dq \<notin> set s then dq else sq)
      in q # concat (map (repr_char q) s) @ [q])"

fun py_repr :: "pyval \<Rightarrow> string" where
  "py_repr PNone = ''None''"
| "py_repr (PBool b) = (if b then ''True'' else ''False'')"
| "py_repr (PInt i) = str_of_int i"
| "py_repr (PFloat r) = r"
| "py_repr (PStr s) = repr_str s"
| "py_repr (PList xs) = ''['' @ join '', '' (map py_repr xs) @ '']''"
| "py_repr (PDict kvs) =
     ''{'' @ join '', '' (map (\<lambda>kv. repr_str (fst kv) @ '': '' @ py_repr (snd kv)) kvs) @ ''}''"

definition py_str :: "pyval \<Rightarrow> string" where
  "py_str v = (case v of PStr s \<Rightarrow> s | _ \<Rightarrow> py_repr v)"

text \<open>\<open>d.get(k, default)\<close> and \<open>d.get(k)\<close>.\<close>

definition dget_or :: "pydict \<Rightarrow> string \<Rightarrow> pyval \<Rightarrow> pyval" where
  [py_defs]: "dget_or d k v = (case map_of d k of None \<Rightarrow> v | Some x \<Rightarrow> x)"

abbreviation dget :: "pydict \<Rightarrow> string \<Rightarrow> pyval" where
  "dget d k \<equiv> dget_or d k PNone"

section \<open>Lemmas on texts\<close>

lemma of_char_less: "(of_char c :: nat) < 256"
  using of_char_of [of "of_char c :: nat"] by (metis char_of_char mod_less_divisor zero_less_numeral)

lemma of_char_inj: "(of_char a :: nat) = of_char b \<Longrightarrow> a = b"
  by (metis char_of_char)

lemma startswith_append [simp]: "startswith (p @ s) p"
  by (simp add: startswith_def)

lemma startswith_Nil [simp]: "startswith s []"
  by (simp add: startswith_def)

lemma contains_appendI [intro]: "contains s p \<Longrightarrow> contains (a @ s @ b) p"
  unfolding contains_def by (auto simp: sublist_def) (metis append.assoc)

lemma contains_refl [simp]: "contains s s"
  by (simp add: contains_def)

lemma contains_Nil [simp]: "contains s []"
  by (simp add: contains_def)

lemma startswith_contains: "startswith s p \<Longrightarrow> contains s p"
  by (simp add: startswith_def contains_def)

lemma set_rdropWhile: "set (rdropWhile P xs) \<subseteq> set xs"
  unfolding rdropWhile_def by (metis set_dropWhileD set_rev subsetI)

lemma length_rdropWhile [simp]: "length (rdropWhile P xs) \<le> length xs"
  unfolding rdropWhile_def by (metis length_dropWhile_le length_rev)

lemma rdropWhile_append_last: "\<not> P x \<Longrightarrow> rdropWhile P (xs @ [x]) = xs @ [x]"
  by (simp add: rdropWhile_def)

lemma rdropWhile_snoc: "rdropWhile P (xs @ [x]) = (if P x then rdropWhile P xs else xs @ [x])"
  by (simp add: rdropWhile_def)

lemma split_on_not_Nil [simp]: "split_on c s \<noteq> []"
  by (induction s) (auto split: list.splits)

text \<open>\<open>c.join(s.split(c)) == s\<close>.\<close>

lemma join_Cons_ne: "xs \<noteq> [] \<Longrightarrow> join sep (x # xs) = x @ sep @ join sep xs"
  by (cases xs) auto

lemma join_split_on: "join [c] (split_on c s) = s"
proof (induction s)
  case Nil
  then show ?case by simp
next
  case (Cons x xs)
  obtain p ps where sp: "split_on c xs = p # ps"
    by (cases "split_on c xs") auto
  show ?case
  proof (cases "x = c")
    case True
    with Cons sp show ?thesis by (simp add: join_Cons_ne)
  next
    case False
    with Cons sp show ?thesis by (cases ps) auto
  qed
qed

lemma split_on_no_sep: "p \<in> set (split_on c s) \<Longrightarrow> c \<notin> set p"
  by (induction s arbitrary: p) (auto split: list.splits if_splits)

lemma str_of_nat_not_Nil [simp]: "str_of_nat n \<noteq> []"
  by (subst str_of_nat.simps) simp

section \<open>Lemmas on dicts\<close>

abbreviation wf_dict :: "('k \<times> 'v) list \<Rightarrow> bool" where
  "wf_dict d \<equiv> distinct (map fst d)"

lemma wf_dict_update [simp, intro]: "wf_dict d \<Longrightarrow> wf_dict (AList.update k v d)"
  by (rule distinct_update)

lemma map_of_update [simp]: "map_of (AList.update k v d) = (map_of d)(k \<mapsto> v)"
  by (rule update_conv')

lemma wf_dict_filter [simp, intro]: "wf_dict d \<Longrightarrow> wf_dict (filter P d)"
  by (simp add: distinct_map_filter)

lemma map_of_filter_wf:
  "wf_dict d \<Longrightarrow>
     map_of (filter P d) k = (case map_of d k of None \<Rightarrow> None | Some v \<Rightarrow> if P (k, v) then Some v else None)"
  by (induction d) (auto simp: map_of_eq_None_iff image_iff split: option.splits)

lemma wf_dict_map_snd [simp]: "wf_dict (map (\<lambda>(k, v). (k, f k v)) d) = wf_dict d"
  by (simp add: comp_def case_prod_unfold)

lemma map_of_map_snd:
  "map_of (map (\<lambda>(k, v). (k, f k v)) d) k = map_option (f k) (map_of d k)"
  by (induction d) auto

lemma strip_strip [simp]: "strip (strip s) = strip s"
proof (cases "dropWhile is_space s")
  case Nil
  then show ?thesis unfolding strip_def rdropWhile_def by (simp del: dropWhile_eq_Nil_conv)
next
  case (Cons c cs)
  then have c: "\<not> is_space c" by (metis hd_dropWhile list.discI list.sel(1))
  obtain X where X: "dropWhile is_space (rev cs @ [c]) = X @ [c]"
    using c by (simp add: dropWhile_append3)
  then have "strip s = c # rev X" using Cons by (simp add: strip_def rdropWhile_def)
  moreover have "dropWhile is_space (X @ [c]) = X @ [c]" using X by (metis dropWhile_idem)
  ultimately show ?thesis using c by (simp add: strip_def rdropWhile_def)
qed

end
