(* ===== verification/Regex.thy ===== *)
theory Regex
  imports PyPrelude
begin

text \<open>
  Python's \<open>re\<close>, as far as the modelled code uses it: a pattern is a term of type
  \<open>'c rx\<close> over characters \<open>'c\<close>, \<open>rmatch\<close> gives the end positions of its matches in the
  order in which the backtracking matcher tries them (alternatives from left to right,
  repetitions greedily), \<open>search\<close> is \<open>pattern.search(text) is not None\<close>, \<open>match_here\<close> is
  \<open>pattern.match(text) is not None\<close> and \<open>findall\<close> lists the matched texts of a pattern that
  never matches the empty text.

  A position is the text before it, reversed, and the text after it, so that \<open>\b\<close> and \<open>^\<close>
  can look back.  The iterations of \<open>Star\<close> are bounded by the length of the remaining text:
  an iteration that consumes nothing is dropped, as \<open>re\<close> does, so this is enough
  (\<open>star_iter_enough\<close>).
\<close>

section \<open>Patterns and the matcher\<close>

datatype 'c rx =
    Eps
  | Cls "'c \<Rightarrow> bool"
  | Seq "'c rx" "'c rx"
  | Alt "'c rx" "'c rx"
  | Star "'c rx"
  | Bnd "'c \<Rightarrow> bool"
  | Bol
  | Eol "'c \<Rightarrow> bool"
  | Look "'c list \<times> 'c list \<Rightarrow> bool"

type_synonym 'c pos = "'c list \<times> 'c list"

fun star_iter :: "nat \<Rightarrow> ('c pos \<Rightarrow> 'c pos list) \<Rightarrow> 'c pos \<Rightarrow> 'c pos list" where
  "star_iter 0 f p = [p]"
| "star_iter (Suc n) f p =
     concat (map (star_iter n f) (filter (\<lambda>q. length (snd q) < length (snd p)) (f p))) @ [p]"

primrec rmatch :: "'c rx \<Rightarrow> 'c pos \<Rightarrow> 'c pos list" where
  "rmatch Eps p = [p]"
| "rmatch (Cls C) p =
     (case snd p of [] \<Rightarrow> [] | c # cs \<Rightarrow> if C c then [(c # fst p, cs)] else [])"
| "rmatch (Seq r s) p = concat (map (rmatch s) (rmatch r p))"
| "rmatch (Alt r s) p = rmatch r p @ rmatch s p"
| "rmatch (Star r) p = star_iter (length (snd p)) (rmatch r) p"
| "rmatch (Bnd W) p =
     (let a = (case fst p of [] \<Rightarrow> False | c # _ \<Rightarrow> W c);
          b = (case snd p of [] \<Rightarrow> False | c # _ \<Rightarrow> W c)
      in if a \<noteq> b then [p] else [])"
| "rmatch Bol p = (if fst p = [] then [p] else [])"
| "rmatch (Eol N) p =
     (case snd p of [] \<Rightarrow> [p] | [c] \<Rightarrow> if N c then [p] else [] | _ \<Rightarrow> [])"
| "rmatch (Look P) p = (if P p then [p] else [])"

fun search_from :: "'c rx \<Rightarrow> 'c list \<Rightarrow> 'c list \<Rightarrow> bool" where
  "search_from r pre [] = (rmatch r (pre, []) \<noteq> [])"
| "search_from r pre (c # cs) = (rmatch r (pre, c # cs) \<noteq> [] \<or> search_from r (c # pre) cs)"

definition search :: "'c rx \<Rightarrow> 'c list \<Rightarrow> bool" where
  "search r s = search_from r [] s"

definition match_here :: "'c rx \<Rightarrow> 'c list \<Rightarrow> bool" where
  "match_here r s \<longleftrightarrow> rmatch r ([], s) \<noteq> []"

function findall_from :: "'c rx \<Rightarrow> 'c list \<Rightarrow> 'c list \<Rightarrow> 'c list list" where
  "findall_from r pre rest =
     (case rmatch r (pre, rest) of
        (pre', rest') # _ \<Rightarrow>
          if length rest' < length rest
          then take (length rest - length rest') rest # findall_from r pre' rest'
          else (case rest of [] \<Rightarrow> [[]] | c # cs \<Rightarrow> [] # findall_from r (c # pre) cs)
      | [] \<Rightarrow> (case rest of [] \<Rightarrow> [] | c # cs \<Rightarrow> findall_from r (c # pre) cs))"
  by pat_completeness auto
termination
  by (relation "measure (\<lambda>(r, pre, rest). length rest)") auto

declare findall_from.simps [simp del]

definition findall :: "'c rx \<Rightarrow> 'c list \<Rightarrow> 'c list list" where
  "findall r s = findall_from r [] s"

text \<open>\<open>pattern.sub(f, text)\<close>.\<close>

function sub_from :: "'c rx \<Rightarrow> ('c list \<Rightarrow> 'c list) \<Rightarrow> 'c list \<Rightarrow> 'c list \<Rightarrow> 'c list" where
  "sub_from r f pre rest =
     (case rmatch r (pre, rest) of
        (pre', rest') # _ \<Rightarrow>
          if length rest' < length rest
          then f (take (length rest - length rest') rest) @ sub_from r f pre' rest'
          else (case rest of [] \<Rightarrow> f [] | c # cs \<Rightarrow> f [] @ c # sub_from r f (c # pre) cs)
      | [] \<Rightarrow> (case rest of [] \<Rightarrow> [] | c # cs \<Rightarrow> c # sub_from r f (c # pre) cs))"
  by pat_completeness auto
termination
  by (relation "measure (\<lambda>(r, f, pre, rest). length rest)") auto

declare sub_from.simps [simp del]

definition rsub :: "'c rx \<Rightarrow> ('c list \<Rightarrow> 'c list) \<Rightarrow> 'c list \<Rightarrow> 'c list" where
  "rsub r f s = sub_from r f [] s"

text \<open>
  Groups: a pattern given as its consecutive parts, those that are groups marked.  \<open>groups_at\<close> lists
  the texts of the groups for every way to match, in the order of the matcher, \<open>search_groups\<close> is
  \<open>pattern.search(text)\<close> with \<open>groups()\<close>, \<open>match_groups\<close> is \<open>pattern.match(text)\<close>.
\<close>

fun groups_at :: "('c rx \<times> bool) list \<Rightarrow> 'c pos \<Rightarrow> 'c list list list" where
  "groups_at [] p = [[]]"
| "groups_at ((r, grp) # parts) p =
     concat (map (\<lambda>q. map (\<lambda>gs. if grp then take (length (snd p) - length (snd q)) (snd p) # gs else gs)
                         (groups_at parts q)) (rmatch r p))"

definition match_groups :: "('c rx \<times> bool) list \<Rightarrow> 'c list \<Rightarrow> 'c list list option" where
  "match_groups parts s = (case groups_at parts ([], s) of gs # _ \<Rightarrow> Some gs | [] \<Rightarrow> None)"

fun search_groups_from :: "('c rx \<times> bool) list \<Rightarrow> 'c list \<Rightarrow> 'c list \<Rightarrow> 'c list list option" where
  "search_groups_from parts pre [] = (case groups_at parts (pre, []) of gs # _ \<Rightarrow> Some gs | [] \<Rightarrow> None)"
| "search_groups_from parts pre (c # cs) =
     (case groups_at parts (pre, c # cs) of gs # _ \<Rightarrow> Some gs | [] \<Rightarrow> search_groups_from parts (c # pre) cs)"

definition search_groups :: "('c rx \<times> bool) list \<Rightarrow> 'c list \<Rightarrow> 'c list list option" where
  "search_groups parts s = search_groups_from parts [] s"

section \<open>Pattern builders\<close>

text \<open>Literal texts, with and without \<open>re.IGNORECASE\<close>, and the character classes.\<close>

fun lit :: "'c list \<Rightarrow> 'c rx" where
  "lit [] = Eps"
| "lit (c # cs) = Seq (Cls (\<lambda>x. x = c)) (lit cs)"

fun lit_i :: "string \<Rightarrow> char rx" where
  "lit_i [] = Eps"
| "lit_i (c # cs) = Seq (Cls (\<lambda>x. lower_char x = lower_char c)) (lit_i cs)"

fun seqs :: "'c rx list \<Rightarrow> 'c rx" where
  "seqs [] = Eps"
| "seqs [r] = r"
| "seqs (r # rs) = Seq r (seqs rs)"

fun alts :: "'c rx list \<Rightarrow> 'c rx" where
  "alts [] = Cls (\<lambda>_. False)"
| "alts [r] = r"
| "alts (r # rs) = Alt r (alts rs)"

definition plus :: "'c rx \<Rightarrow> 'c rx" where
  "plus r = Seq r (Star r)"

definition opt :: "'c rx \<Rightarrow> 'c rx" where
  "opt r = Alt r Eps"

definition newline :: char where
  "newline = CHR 0x0A"

definition any :: "char rx" where
  "any = Cls (\<lambda>c. c \<noteq> newline)"

definition eol :: "char rx" where
  "eol = Eol (\<lambda>c. c = newline)"

text \<open>The anchors of \<open>re.MULTILINE\<close>.\<close>

definition bol_m :: "char rx" where
  "bol_m = Look (\<lambda>(pre, post). pre = [] \<or> hd pre = newline)"

definition eol_m :: "char rx" where
  "eol_m = Look (\<lambda>(pre, post). post = [] \<or> hd post = newline)"

text \<open>Repetition \<open>r{n}\<close>.\<close>

fun rep :: "nat \<Rightarrow> 'c rx \<Rightarrow> 'c rx" where
  "rep 0 r = Eps"
| "rep (Suc n) r = Seq r (rep n r)"

definition wb :: "char rx" where
  "wb = Bnd is_word"

definition sp :: "char rx" where
  "sp = Cls is_space"

definition nsp :: "char rx" where
  "nsp = Cls (\<lambda>c. \<not> is_space c)"

definition wd :: "char rx" where
  "wd = Cls is_word"

lemmas rx_defs = plus_def opt_def newline_def any_def eol_def wb_def sp_def nsp_def wd_def

section \<open>Lemmas\<close>

text \<open>A match consumes a prefix of the text after the position.\<close>

definition consumes :: "('c pos \<Rightarrow> 'c pos list) \<Rightarrow> bool" where
  "consumes f \<longleftrightarrow> (\<forall>p q. q \<in> set (f p) \<longrightarrow> (\<exists>w. snd p = w @ snd q \<and> fst q = rev w @ fst p))"

lemma consumesD:
  "consumes f \<Longrightarrow> q \<in> set (f p) \<Longrightarrow> \<exists>w. snd p = w @ snd q \<and> fst q = rev w @ fst p"
  by (auto simp: consumes_def)

lemma star_iter_consumes: "consumes f \<Longrightarrow> consumes (star_iter n f)"
proof (induction n)
  case 0
  then show ?case by (auto simp: consumes_def)
next
  case (Suc n)
  have "\<exists>w. snd p = w @ snd q \<and> fst q = rev w @ fst p"
    if "q \<in> set (star_iter (Suc n) f p)" for p q :: "'a pos"
  proof (cases "q = p")
    case False
    with that obtain m where m: "m \<in> set (f p)" "q \<in> set (star_iter n f m)" by auto
    from consumesD [OF Suc.prems m(1)] obtain u where "snd p = u @ snd m" "fst m = rev u @ fst p"
      by blast
    moreover from consumesD [OF Suc.IH [OF Suc.prems] m(2)]
    obtain w where "snd m = w @ snd q" "fst q = rev w @ fst m" by blast
    ultimately have "snd p = (u @ w) @ snd q \<and> fst q = rev (u @ w) @ fst p" by simp
    then show ?thesis by blast
  qed simp
  then show ?case by (auto simp: consumes_def)
qed

lemma rmatch_consumes: "consumes (rmatch r)"
proof (induction r)
  case (Seq r s)
  have "\<exists>w. snd p = w @ snd q \<and> fst q = rev w @ fst p" if "q \<in> set (rmatch (Seq r s) p)" for p q
  proof -
    from that obtain m where m: "m \<in> set (rmatch r p)" "q \<in> set (rmatch s m)" by auto
    from consumesD [OF Seq(1) m(1)] consumesD [OF Seq(2) m(2)]
    obtain u w where "snd p = (u @ w) @ snd q \<and> fst q = rev (u @ w) @ fst p" by auto
    then show ?thesis by blast
  qed
  then show ?case by (auto simp: consumes_def)
next
  case (Star r)
  then show ?case
    unfolding consumes_def rmatch.simps using star_iter_consumes [OF Star] by (auto simp: consumes_def)
qed (auto simp: consumes_def Let_def split: list.splits if_splits)

text \<open>More iterations than characters left change nothing: the bound of \<open>Star\<close> is enough.\<close>

lemma star_iter_enough:
  "length (snd p) \<le> n \<Longrightarrow> star_iter n f p = star_iter (length (snd p)) f p"
proof (induction n arbitrary: p rule: less_induct)
  case (less n)
  show ?case
  proof (cases "n = length (snd p)")
    case False
    with less.prems obtain m where m: "n = Suc m" "length (snd p) \<le> m" by (cases n) auto
    have eq: "star_iter m f q = star_iter k f q"
      if "length (snd q) \<le> k" "k \<le> m" for q k
      using less.IH [of m q] less.IH [of k q] m that by auto
    show ?thesis
    proof (cases "length (snd p)")
      case 0
      then show ?thesis by (simp add: m)
    next
      case (Suc k)
      then have "map (star_iter m f) (filter (\<lambda>q. length (snd q) < Suc k) (f p)) =
                 map (star_iter k f) (filter (\<lambda>q. length (snd q) < Suc k) (f p))"
        using m by (auto intro!: eq)
      then show ?thesis by (simp only: m(1) Suc star_iter.simps)
    qed
  qed simp
qed

text \<open>\<open>search\<close> looks at every position.\<close>

lemma search_from_iff:
  "search_from r pre s \<longleftrightarrow> (\<exists>u v. s = u @ v \<and> rmatch r (rev u @ pre, v) \<noteq> [])"
proof (induction s arbitrary: pre)
  case Nil
  then show ?case by simp
next
  case (Cons c cs)
  show ?case (is "?L = ?R")
  proof
    assume ?L
    then consider "rmatch r (pre, c # cs) \<noteq> []" | "search_from r (c # pre) cs" by auto
    then show ?R
    proof cases
      case 1
      then show ?thesis by (intro exI [of _ "[]"] exI [of _ "c # cs"]) simp
    next
      case 2
      then obtain u v where "cs = u @ v" "rmatch r (rev (c # u) @ pre, v) \<noteq> []"
        using Cons.IH by auto
      then show ?thesis by (intro exI [of _ "c # u"] exI [of _ v]) simp
    qed
  next
    assume ?R
    then obtain u v where uv: "c # cs = u @ v" "rmatch r (rev u @ pre, v) \<noteq> []" by blast
    show ?L
    proof (cases u)
      case Nil
      with uv(1) have "v = c # cs" by simp
      with uv(2) Nil show ?thesis by simp
    next
      case (Cons d w)
      with uv have "cs = w @ v" "rmatch r (rev w @ c # pre, v) \<noteq> []" by auto
      then have "search_from r (c # pre) cs" using Cons.IH by blast
      then show ?thesis by simp
    qed
  qed
qed

lemma search_iff: "search r s \<longleftrightarrow> (\<exists>u v. s = u @ v \<and> rmatch r (rev u, v) \<noteq> [])"
  by (simp add: search_def search_from_iff)

lemma searchI: "rmatch r (rev u, v) \<noteq> [] \<Longrightarrow> search r (u @ v)"
  by (auto simp: search_iff)

lemma search_Alt: "search (Alt r s) t \<longleftrightarrow> search r t \<or> search s t"
  by (auto simp: search_iff)

text \<open>A literal pattern is the substring test.\<close>

lemma rmatch_lit:
  "rmatch (lit p) (pre, s) = (if prefix p s then [(rev p @ pre, drop (length p) s)] else [])"
proof (induction p arbitrary: pre s)
  case Nil
  then show ?case by simp
next
  case (Cons c cs)
  then show ?case by (cases s) auto
qed

lemma search_lit: "search (lit p) s \<longleftrightarrow> sublist p s"
  by (auto simp: search_iff rmatch_lit sublist_def prefix_def)

lemma findall_from_sublist: "m \<in> set (findall_from r pre s) \<Longrightarrow> sublist m s"
proof (induction r pre s rule: findall_from.induct)
  case (1 r pre rest)
  have tl: "sublist m (c # cs)" if "sublist m cs" for c cs
    using that by (metis append_Cons append_Nil sublist_appendI sublist_def)
  show ?case
  proof (cases "rmatch r (pre, rest)")
    case Nil
    have "findall_from r pre rest = (case rest of [] \<Rightarrow> [] | c # cs \<Rightarrow> findall_from r (c # pre) cs)"
      by (subst findall_from.simps) (use Nil in simp)
    with 1 Nil show ?thesis
      by (auto split: list.splits intro: tl)
  next
    case (Cons q qs)
    obtain pre' rest' where q: "q = (pre', rest')" by (cases q)
    have "\<exists>w. rest = w @ rest'"
      using rmatch_consumes [of r, THEN consumesD, of q "(pre, rest)"] Cons q by auto
    then obtain w where w: "rest = w @ rest'" by blast
    have sub: "sublist m rest" if "sublist m rest'"
      using that w by (metis append.assoc sublist_def)
    show ?thesis
    proof (cases "length rest' < length rest")
      case True
      have "findall_from r pre rest = w # findall_from r pre' rest'"
        by (subst findall_from.simps) (use Cons q True w in simp)
      with 1(4) have "m = w \<or> m \<in> set (findall_from r pre' rest')" by simp
      then show ?thesis using 1(2) [OF Cons] q True sub w by auto
    next
      case False
      have "findall_from r pre rest =
              (case rest of [] \<Rightarrow> [[]] | c # cs \<Rightarrow> [] # findall_from r (c # pre) cs)"
        by (subst findall_from.simps) (use Cons q False in simp)
      with 1(4) have "m = [] \<or> (\<exists>c cs. rest = c # cs \<and> m \<in> set (findall_from r (c # pre) cs))"
        by (auto split: list.splits)
      then show ?thesis using 1(3) Cons q False tl by auto
    qed
  qed
qed

section \<open>The language of a pattern without anchors\<close>

text \<open>
  For a pattern without \<open>\b\<close>, \<open>^\<close> and \<open>$\<close> the backtracking matcher finds exactly the words of
  its language, whatever surrounds them (\<open>rmatch_lang\<close>).
\<close>

fun anchor_free :: "'c rx \<Rightarrow> bool" where
  "anchor_free (Seq r s) = (anchor_free r \<and> anchor_free s)"
| "anchor_free (Alt r s) = (anchor_free r \<and> anchor_free s)"
| "anchor_free (Star r) = anchor_free r"
| "anchor_free (Bnd W) = False"
| "anchor_free Bol = False"
| "anchor_free (Eol N) = False"
| "anchor_free (Look P) = False"
| "anchor_free _ = True"

inductive_set kleene :: "'c list set \<Rightarrow> 'c list set" for L where
  kleene_Nil: "[] \<in> kleene L"
| kleene_step: "u \<in> L \<Longrightarrow> v \<in> kleene L \<Longrightarrow> u @ v \<in> kleene L"

primrec lang :: "'c rx \<Rightarrow> 'c list set" where
  "lang Eps = {[]}"
| "lang (Cls C) = {[c] | c. C c}"
| "lang (Seq r s) = {u @ v | u v. u \<in> lang r \<and> v \<in> lang s}"
| "lang (Alt r s) = lang r \<union> lang s"
| "lang (Star r) = kleene (lang r)"
| "lang (Bnd W) = {}"
| "lang Bol = {}"
| "lang (Eol N) = {}"
| "lang (Look P) = {}"

definition matches_lang :: "('c pos \<Rightarrow> 'c pos list) \<Rightarrow> 'c list set \<Rightarrow> bool" where
  "matches_lang f L \<longleftrightarrow>
     (\<forall>pre s q. q \<in> set (f (pre, s)) \<longleftrightarrow> (\<exists>w. w \<in> L \<and> s = w @ snd q \<and> fst q = rev w @ pre))"

lemma matches_langD:
  "matches_lang f L \<Longrightarrow> q \<in> set (f p) \<Longrightarrow> \<exists>w. w \<in> L \<and> snd p = w @ snd q \<and> fst q = rev w @ fst p"
  by (cases p, cases q) (auto simp: matches_lang_def)

lemma matches_langI: "matches_lang f L \<Longrightarrow> w \<in> L \<Longrightarrow> (rev w @ pre, s) \<in> set (f (pre, w @ s))"
  by (auto simp: matches_lang_def)

lemma star_iter_sound:
  assumes f: "matches_lang f L"
  shows "q \<in> set (star_iter n f p) \<Longrightarrow> \<exists>w. w \<in> kleene L \<and> snd p = w @ snd q \<and> fst q = rev w @ fst p"
proof (induction n arbitrary: p)
  case 0
  then show ?case by (auto intro: kleene_Nil)
next
  case (Suc n)
  show ?case
  proof (cases "q = p")
    case True
    then show ?thesis by (auto intro: kleene_Nil)
  next
    case False
    with Suc.prems obtain m where m: "m \<in> set (f p)" "q \<in> set (star_iter n f m)" by auto
    from matches_langD [OF f m(1)] Suc.IH [OF m(2)] obtain u w where
      "u \<in> L" "w \<in> kleene L" "snd p = (u @ w) @ snd q" "fst q = rev (u @ w) @ fst p" by auto
    then show ?thesis by (blast intro: kleene_step)
  qed
qed

lemma star_iter_complete:
  assumes f: "matches_lang f L"
  shows "w \<in> kleene L \<Longrightarrow> length w \<le> n \<Longrightarrow> (rev w @ pre, s) \<in> set (star_iter n f (pre, w @ s))"
proof (induction w arbitrary: n pre rule: kleene.induct)
  case kleene_Nil
  then show ?case by (cases n) auto
next
  case (kleene_step u v)
  show ?case
  proof (cases "u = []")
    case True
    with kleene_step show ?thesis by simp
  next
    case False
    with kleene_step.prems obtain k where n: "n = Suc k" and k: "length v \<le> k"
      by (cases n) (auto simp: Suc_le_eq neq_Nil_conv)
    have "(rev u @ pre, v @ s) \<in> set (f (pre, u @ v @ s))"
      using matches_langI [OF f kleene_step.hyps(1)] by simp
    moreover have "(rev v @ (rev u @ pre), s) \<in> set (star_iter k f (rev u @ pre, v @ s))"
      by (rule kleene_step.IH [OF k])
    ultimately show ?thesis using False n by force
  qed
qed

lemma rmatch_lang: "anchor_free r \<Longrightarrow> matches_lang (rmatch r) (lang r)"
proof (induction r)
  case (Seq r s)
  then have r: "matches_lang (rmatch r) (lang r)" and s: "matches_lang (rmatch s) (lang s)" by auto
  have "q \<in> set (rmatch (Seq r s) (pre, t)) \<longleftrightarrow>
        (\<exists>w. w \<in> lang (Seq r s) \<and> t = w @ snd q \<and> fst q = rev w @ pre)" for q pre t
  proof
    assume "q \<in> set (rmatch (Seq r s) (pre, t))"
    then obtain m where m: "m \<in> set (rmatch r (pre, t))" "q \<in> set (rmatch s m)" by auto
    from matches_langD [OF r m(1)] matches_langD [OF s m(2)] obtain u v where
      "u \<in> lang r" "v \<in> lang s" "t = (u @ v) @ snd q" "fst q = rev (u @ v) @ pre" by auto
    then show "\<exists>w. w \<in> lang (Seq r s) \<and> t = w @ snd q \<and> fst q = rev w @ pre"
      by (intro exI [of _ "u @ v"]) auto
  next
    assume "\<exists>w. w \<in> lang (Seq r s) \<and> t = w @ snd q \<and> fst q = rev w @ pre"
    then obtain u v where uv: "u \<in> lang r" "v \<in> lang s" "t = u @ v @ snd q" "fst q = rev v @ rev u @ pre"
      by auto
    then have "(rev u @ pre, v @ snd q) \<in> set (rmatch r (pre, t))"
      using matches_langI [OF r uv(1)] by simp
    moreover have "q \<in> set (rmatch s (rev u @ pre, v @ snd q))"
      using matches_langI [OF s uv(2), of "rev u @ pre" "snd q"] uv(4) by (cases q) simp
    ultimately show "q \<in> set (rmatch (Seq r s) (pre, t))" by auto
  qed
  then show ?case unfolding matches_lang_def by blast
next
  case (Alt r s)
  then show ?case unfolding matches_lang_def by fastforce
next
  case (Star r)
  then have r: "matches_lang (rmatch r) (lang r)" by simp
  have "q \<in> set (rmatch (Star r) (pre, t)) \<longleftrightarrow>
        (\<exists>w. w \<in> kleene (lang r) \<and> t = w @ snd q \<and> fst q = rev w @ pre)" for q pre t
    using star_iter_sound [OF r, of q "length t" "(pre, t)"]
      star_iter_complete [OF r, of _ "length t" pre "snd q"]
    by (cases q) fastforce
  then show ?case unfolding matches_lang_def by simp
qed (auto simp: matches_lang_def split: list.splits)

text \<open>So text before and after a match cannot hide it.\<close>

lemma search_lang: "anchor_free r \<Longrightarrow> search r s \<longleftrightarrow> (\<exists>u w v. s = u @ w @ v \<and> w \<in> lang r)"
proof
  assume r: "anchor_free r" and "search r s"
  then obtain u t where ut: "s = u @ t" and "rmatch r (rev u, t) \<noteq> []"
    by (auto simp: search_iff)
  then obtain q where "q \<in> set (rmatch r (rev u, t))"
    by (cases "rmatch r (rev u, t)") auto
  from matches_langD [OF rmatch_lang [OF r] this] ut
  show "\<exists>u w v. s = u @ w @ v \<and> w \<in> lang r" by auto
next
  assume r: "anchor_free r" and "\<exists>u w v. s = u @ w @ v \<and> w \<in> lang r"
  then obtain u w v where "s = u @ w @ v" "w \<in> lang r" by blast
  with matches_langI [OF rmatch_lang [OF r], of w "rev u" v] show "search r s"
    by (auto intro!: searchI)
qed

lemma search_padded: "anchor_free r \<Longrightarrow> search r s \<Longrightarrow> search r (a @ s @ b)"
  unfolding search_lang by (metis append.assoc)

lemma anchor_free_lit [simp]: "anchor_free (lit p)"
  by (induction p) auto

lemma anchor_free_seqs [simp]: "(\<forall>r \<in> set rs. anchor_free r) \<Longrightarrow> anchor_free (seqs rs)"
  by (induction rs rule: seqs.induct) auto

lemma anchor_free_alts [simp]: "(\<forall>r \<in> set rs. anchor_free r) \<Longrightarrow> anchor_free (alts rs)"
  by (induction rs rule: alts.induct) auto

text \<open>A greedy run of a character class takes the longest prefix first.\<close>

lemma star_Cls_first:
  "length s \<le> n \<Longrightarrow> \<exists>qs. star_iter n (rmatch (Cls P)) (pre, s) = (rev (takeWhile P s) @ pre, dropWhile P s) # qs"
proof (induction s arbitrary: n pre)
  case Nil
  then show ?case by (cases n) auto
next
  case (Cons c cs)
  then obtain m where m: "n = Suc m" "length cs \<le> m" by (cases n) auto
  from Cons.IH [OF m(2), of "c # pre"]
  obtain qs where "star_iter m (rmatch (Cls P)) (c # pre, cs) = (rev (takeWhile P cs) @ c # pre, dropWhile P cs) # qs" ..
  moreover have "rmatch (Cls P) (pre, c # cs) = (if P c then [(c # pre, cs)] else [])" by simp
  ultimately show ?case by (simp add: m del: rmatch.simps)
qed

end
