(* ===== verification/Safety.thy ===== *)
theory Safety
  imports Regex
begin

text \<open>
  The safety rule engine: \<open>agent/shared/types.py\<close> (enumerations), \<open>agent/agent_router/router.py\<close>
  (mode gate), \<open>agent/safety/policy.py\<close> (the policy record) and \<open>agent/safety/rule_engine.py\<close>.

  \<open>checkToolCallWithReason\<close> takes the policy's pattern compiler \<open>rc\<close> as an argument: it is
  \<open>re.compile(_, re.IGNORECASE)\<close>, \<open>None\<close> where \<open>re.error\<close> is raised, and every theorem holds for
  all of them.  The explanations the code writes in Chinese are constructors of \<open>rule_reason\<close>
  and tags of the built-in patterns.
\<close>

section \<open>Enumerations\<close>

datatype ToolRiskLevel = RL_READ_ONLY | RL_WRITE | RL_DANGEROUS

datatype SafetyVerdict = ALLOW | REQUIRE_CONFIRM | BLOCK

datatype AgentMode = M_READ_ONLY | M_PLAN | M_AGENT | M_BREAK_GLASS | M_EXECUTING

fun risk_value :: "ToolRiskLevel \<Rightarrow> string" where
  "risk_value RL_READ_ONLY = ''read_only''"
| "risk_value RL_WRITE = ''write''"
| "risk_value RL_DANGEROUS = ''dangerous''"

fun verdict_value :: "SafetyVerdict \<Rightarrow> string" where
  "verdict_value ALLOW = ''allow''"
| "verdict_value REQUIRE_CONFIRM = ''require_confirm''"
| "verdict_value BLOCK = ''block''"

fun mode_value :: "AgentMode \<Rightarrow> string" where
  "mode_value M_READ_ONLY = ''read_only''"
| "mode_value M_PLAN = ''plan''"
| "mode_value M_AGENT = ''agent''"
| "mode_value M_BREAK_GLASS = ''break_glass''"
| "mode_value M_EXECUTING = ''executing''"

text \<open>\<open>AgentMode(s)\<close>, \<open>None\<close> for its \<open>ValueError\<close>.\<close>

definition AgentMode_of :: "string \<Rightarrow> AgentMode option" where
  "AgentMode_of s = find (\<lambda>m. mode_value m = s) [M_READ_ONLY, M_PLAN, M_AGENT, M_BREAK_GLASS, M_EXECUTING]"

text \<open>Verdicts ordered by severity.\<close>

fun severity :: "SafetyVerdict \<Rightarrow> nat" where
  "severity ALLOW = 0"
| "severity REQUIRE_CONFIRM = 1"
| "severity BLOCK = 2"

lemma severity_inj: "severity a = severity b \<Longrightarrow> a = b"
  by (cases a; cases b) auto

instantiation SafetyVerdict :: linorder
begin
definition less_eq_SafetyVerdict :: "SafetyVerdict \<Rightarrow> SafetyVerdict \<Rightarrow> bool" where
  "less_eq_SafetyVerdict a b \<longleftrightarrow> severity a \<le> severity b"
definition less_SafetyVerdict :: "SafetyVerdict \<Rightarrow> SafetyVerdict \<Rightarrow> bool" where
  "less_SafetyVerdict a b \<longleftrightarrow> severity a < severity b"
instance
  by standard (auto simp: less_eq_SafetyVerdict_def less_SafetyVerdict_def intro: severity_inj)
end

section \<open>Mode gate\<close>

definition getAllowedRiskLevels :: "AgentMode \<Rightarrow> ToolRiskLevel set" where
  "getAllowedRiskLevels mode =
     (if mode \<in> {M_READ_ONLY, M_PLAN} then {RL_READ_ONLY}
      else {RL_READ_ONLY, RL_WRITE, RL_DANGEROUS})"

definition filterToolsByMode ::
  "AgentMode \<Rightarrow> 's list \<Rightarrow> (string \<Rightarrow> ToolRiskLevel) \<Rightarrow> 's list" where
  "filterToolsByMode mode toolSchemas getRiskLevel = toolSchemas"

text \<open>\<open>getModePrompt\<close> of a mode given as text: an unknown mode has the prompt of \<open>agent\<close>.
  The prompt texts are files of \<open>conf/prompts\<close>, the argument \<open>prompts\<close>.\<close>

definition getModePrompt :: "(AgentMode \<Rightarrow> string) \<Rightarrow> string \<Rightarrow> string" where
  "getModePrompt prompts mode =
     (case AgentMode_of mode of Some m \<Rightarrow> prompts m | None \<Rightarrow> prompts M_AGENT)"

section \<open>Rule engine\<close>

record SafetyPolicy =
  pol_name :: string
  block_patterns :: "string list"
  protected_paths :: "string list"
  require_approval :: "string list"
  max_output_chars :: int

abbreviation disk_dev :: "(string \<Rightarrow> char rx) \<Rightarrow> char rx" where
  "disk_dev l \<equiv> seqs [l ''/dev/'', alts (map l [''sd'', ''nvme'', ''vd'', ''hd''])]"

definition DANGEROUS_PATTERNS :: "(char rx \<times> string) list" where
  "DANGEROUS_PATTERNS = [
    (seqs [Alt Bol (Cls (\<lambda>c. c = CHR ''/'' \<or> c = CHR 0x5C)), lit ''..'', Star sp, eol], ''dot_dot''),
    (seqs [Bol, lit ''/'', eol], ''root_dir''),
    (seqs [Bol, lit ''/'',
           alts (map lit [''etc'', ''boot'', ''usr'', ''lib'', ''sbin'', ''bin'', ''proc'', ''sys'']), wb],
     ''system_dir''),
    (seqs [Bol, lit ''/home'', eol], ''home_root''),
    (seqs [lit ''/etc/'', alts (map lit [''shadow'', ''passwd'', ''sudoers'', ''gshadow'']), wb], ''auth_file''),
    (seqs [opt (lit ''~''), lit ''/.ssh'', wb], ''ssh_dir''),
    (seqs [wb, lit ''777'', wb], ''chmod_777''),
    (seqs [wb, lit ''000'', wb], ''chmod_000''),
    (seqs [wb, lit_i ''chmod'', plus sp, lit_i ''-R'', sp], ''chmod_recursive''),
    (seqs [wb, lit_i ''chown'', plus sp, opt (seqs [lit_i ''-R'', plus sp]), lit_i ''root'', wb], ''chown_root''),
    (seqs [wb, alts [lit ''SIGKILL'', lit ''9''], wb], ''sigkill''),
    (seqs [wb, lit ''rm'', plus sp,
           plus (seqs [lit ''-'', Star wd, Cls (\<lambda>c. c \<in> set ''rRfF''), Star wd, plus sp]),
           lit ''/'', alts [sp, eol, lit ''*'']], ''rm_rf_root''),
    (seqs [wb, lit ''mkfs.'', plus wd], ''mkfs''),
    (seqs [wb, lit_i ''dd'', plus sp, lit_i ''if='', Star nsp, plus sp, lit_i ''of='', disk_dev lit_i],
     ''dd_disk''),
    (seqs [lit ''>'', Star sp, disk_dev lit, Star wd], ''redirect_disk''),
    (seqs [wb, lit ''wipefs'', wb], ''wipefs''),
    (seqs [wb, alts (map lit_i [''curl'', ''wget'']), wb, plus any, lit ''|'', Star sp,
           opt (alts (map lit_i [''ba'', ''z'', ''k''])), lit_i ''sh'', wb], ''pipe_to_shell''),
    (seqs [wb, lit_i ''iptables'', plus sp, lit_i ''-F'', wb], ''iptables_flush''),
    (seqs [wb, lit_i ''nc'', wb, plus any, lit_i ''-e'', wb], ''netcat_exec''),
    (seqs [wb, lit_i ''sudo'', plus sp, lit_i ''su'', wb], ''sudo_su''),
    (seqs [wb, lit_i ''su'', plus sp, lit ''-'', Star sp, lit_i ''root'', wb], ''su_root''),
    (seqs [lit '':()'', Star sp, lit ''{'', Star sp, lit '':'', Star sp, lit ''|'', Star sp, lit '':'', Star sp,
           lit ''&'', Star sp, lit ''}'', Star sp, lit '';'', Star sp, lit '':''], ''fork_bomb''),
    (seqs [wb, alts (map lit_i [''python'', ''perl'', ''ruby'', ''php'']), opt (Cls is_digit), plus sp,
           lit_i ''-c'', wb], ''interpreter_c''),
    (seqs [wb, lit_i ''eval'', wb], ''eval''),
    (seqs [wb, alts (map lit_i [''shutdown'', ''reboot'', ''halt'', ''poweroff'']), wb], ''power''),
    (seqs [wb, lit_i ''systemctl'', plus sp, alts (map lit_i [''stop'', ''disable'', ''mask'']), wb],
     ''systemctl_stop'')
  ]"

datatype rule_reason =
    ModeForbids AgentMode ToolRiskLevel
  | BreakGlass
  | ProtectedPath string
  | DangerousPattern string
  | PolicyPattern string
  | ReadOnlyTool
  | AllWriteApproval
  | DangerousTool string
  | Passed

text \<open>\<open>_flattenValues\<close>: every text in a value, keys of dicts included.\<close>

fun flattenValues :: "pyval \<Rightarrow> string list" where
  "flattenValues (PStr s) = [s]"
| "flattenValues (PBool b) = [py_str (PBool b)]"
| "flattenValues (PInt i) = [py_str (PInt i)]"
| "flattenValues (PFloat r) = [py_str (PFloat r)]"
| "flattenValues (PDict kvs) = concat (map (\<lambda>kv. fst kv # flattenValues (snd kv)) kvs)"
| "flattenValues (PList xs) = concat (map flattenValues xs)"
| "flattenValues PNone = []"

type_synonym re_compiler = "string \<Rightarrow> char rx option"

definition compilePattern :: "re_compiler \<Rightarrow> string \<Rightarrow> char rx \<times> string" where
  "compilePattern rc pattern =
     (case rc pattern of Some r \<Rightarrow> (r, pattern) | None \<Rightarrow> (lit_i pattern, pattern))"

definition policyPatterns :: "re_compiler \<Rightarrow> SafetyPolicy \<Rightarrow> (char rx \<times> string) list" where
  "policyPatterns rc pol =
     map (compilePattern rc)
       (filter (\<lambda>p. p \<noteq> [] \<and> p \<noteq> ''all_write'') (block_patterns pol @ require_approval pol))"

definition protected_hits :: "SafetyPolicy \<Rightarrow> string list \<Rightarrow> string list" where
  "protected_hits pol values =
     concat (map (\<lambda>v. filter (\<lambda>p. p \<noteq> [] \<and> contains v p) (protected_paths pol)) values)"

definition pattern_hits :: "(char rx \<times> string) list \<Rightarrow> string list \<Rightarrow> string list" where
  "pattern_hits pats values =
     concat (map (\<lambda>v. map snd (filter (\<lambda>p. search (fst p) v) pats)) values)"

definition checkToolCallWithReason ::
  "re_compiler \<Rightarrow> SafetyPolicy \<Rightarrow> string \<Rightarrow> ToolRiskLevel \<Rightarrow> pydict \<Rightarrow> AgentMode
    \<Rightarrow> SafetyVerdict \<times> rule_reason" where
  "checkToolCallWithReason rc pol toolName riskLevel arguments mode =
    (if riskLevel \<notin> getAllowedRiskLevels mode then (BLOCK, ModeForbids mode riskLevel)
     else if mode = M_BREAK_GLASS then (ALLOW, BreakGlass)
     else let values = flattenValues (PDict arguments) in
       case protected_hits pol values of
         p # _ \<Rightarrow> (REQUIRE_CONFIRM, ProtectedPath p)
       | [] \<Rightarrow>
      (case pattern_hits DANGEROUS_PATTERNS values of
         r # _ \<Rightarrow> (REQUIRE_CONFIRM, DangerousPattern r)
       | [] \<Rightarrow>
      (case pattern_hits (policyPatterns rc pol) values of
         r # _ \<Rightarrow> (REQUIRE_CONFIRM, PolicyPattern r)
       | [] \<Rightarrow>
         if riskLevel = RL_READ_ONLY then (ALLOW, ReadOnlyTool)
         else if ''all_write'' \<in> set (require_approval pol) \<and> riskLevel \<in> {RL_WRITE, RL_DANGEROUS}
           then (REQUIRE_CONFIRM, AllWriteApproval)
         else if riskLevel = RL_DANGEROUS then (REQUIRE_CONFIRM, DangerousTool toolName)
         else (ALLOW, Passed))))"

definition checkToolCall ::
  "re_compiler \<Rightarrow> SafetyPolicy \<Rightarrow> string \<Rightarrow> ToolRiskLevel \<Rightarrow> pydict \<Rightarrow> AgentMode \<Rightarrow> SafetyVerdict" where
  "checkToolCall rc pol toolName riskLevel arguments mode =
     fst (checkToolCallWithReason rc pol toolName riskLevel arguments mode)"

section \<open>Lemmas\<close>

text \<open>A hit is a pair of a value and an entry of the rule table.\<close>

lemma protected_hits_Nil_iff:
  "protected_hits pol values = [] \<longleftrightarrow>
     (\<forall>v \<in> set values. \<forall>p \<in> set (protected_paths pol). p \<noteq> [] \<longrightarrow> \<not> contains v p)"
  by (auto simp: protected_hits_def filter_empty_conv)

lemma pattern_hits_Nil_iff:
  "pattern_hits pats values = [] \<longleftrightarrow> (\<forall>v \<in> set values. \<forall>p \<in> set pats. \<not> search (fst p) v)"
  by (auto simp: pattern_hits_def filter_empty_conv)

text \<open>The argument checks of the rule engine, as one predicate on the texts of a call.\<close>

definition clean_values :: "re_compiler \<Rightarrow> SafetyPolicy \<Rightarrow> string list \<Rightarrow> bool" where
  "clean_values rc pol values \<longleftrightarrow>
     protected_hits pol values = [] \<and> pattern_hits DANGEROUS_PATTERNS values = [] \<and>
     pattern_hits (policyPatterns rc pol) values = []"

lemma clean_values_mono:
  "clean_values rc pol vs' \<Longrightarrow> set vs \<subseteq> set vs' \<Longrightarrow> clean_values rc pol vs"
  unfolding clean_values_def protected_hits_Nil_iff pattern_hits_Nil_iff by blast

lemma check_verdict:
  "checkToolCall rc pol tool risk args mode =
    (if mode \<in> {M_READ_ONLY, M_PLAN} \<and> risk \<noteq> RL_READ_ONLY then BLOCK
     else if mode = M_BREAK_GLASS then ALLOW
     else if \<not> clean_values rc pol (flattenValues (PDict args)) then REQUIRE_CONFIRM
     else if risk = RL_READ_ONLY then ALLOW
     else if ''all_write'' \<in> set (require_approval pol) \<or> risk = RL_DANGEROUS then REQUIRE_CONFIRM
     else ALLOW)"
  by (cases risk; cases mode)
     (auto simp: checkToolCall_def checkToolCallWithReason_def getAllowedRiskLevels_def clean_values_def
        Let_def split: list.splits)

section \<open>Properties\<close>

text \<open>
  The rule engine blocks a call exactly when the mode is \<open>read_only\<close> or \<open>plan\<close> and the tool
  is not a read-only tool.  In these modes nothing else can make a write or dangerous tool run,
  and in every other mode no policy, not even its \<open>block_patterns\<close>, blocks a call.
\<close>

theorem check_block_iff:
  "checkToolCall rc pol tool risk args mode = BLOCK \<longleftrightarrow>
     mode \<in> {M_READ_ONLY, M_PLAN} \<and> risk \<noteq> RL_READ_ONLY"
  by (auto simp: check_verdict)

text \<open>
  The exact condition under which a call runs without confirmation: break-glass mode, or a
  call whose texts hit no protected path, no built-in pattern and no policy pattern, of a
  read-only tool, or of a write tool outside the read-only modes under a policy that does not
  ask for approval of all writes.
\<close>

theorem check_allow_iff:
  "checkToolCall rc pol tool risk args mode = ALLOW \<longleftrightarrow>
     mode = M_BREAK_GLASS \<or>
     (clean_values rc pol (flattenValues (PDict args)) \<and>
      (risk = RL_READ_ONLY \<or>
       (risk = RL_WRITE \<and> mode \<in> {M_AGENT, M_EXECUTING} \<and> ''all_write'' \<notin> set (require_approval pol))))"
  by (cases risk; cases mode) (auto simp: check_verdict)

text \<open>
  Adding arguments never lowers the verdict: if every text of one call also occurs in
  another call of the same tool and mode, the verdict of the second is at least as severe.
\<close>

theorem check_monotone:
  assumes "set (flattenValues (PDict args)) \<subseteq> set (flattenValues (PDict args'))"
  shows "checkToolCall rc pol tool risk args mode \<le> checkToolCall rc pol tool risk args' mode"
  using clean_values_mono [OF _ assms, of rc pol]
  by (auto simp: check_verdict less_eq_SafetyVerdict_def)

definition example_policy :: SafetyPolicy where
  "example_policy = \<lparr>pol_name = ''default'', block_patterns = [''sudo su''],
     protected_paths = [''/boot''], require_approval = [''kill''], max_output_chars = 4000\<rparr>"

theorem check_monotone_witness:
  "checkToolCall Map.empty example_policy ''writeFile'' RL_WRITE [(''path'', PStr ''/srv/a'')] M_AGENT \<le>
   checkToolCall Map.empty example_policy ''writeFile'' RL_WRITE
     [(''path'', PStr ''/srv/a''), (''mode'', PStr ''777'')] M_AGENT"
  by (rule check_monotone) simp

text \<open>The system directories of the built-in pattern.\<close>

definition system_dirs :: "string list" where
  "system_dirs = [''etc'', ''boot'', ''usr'', ''lib'', ''sbin'', ''bin'', ''proc'', ''sys'']"

lemma rmatch_alts_lit:
  "p \<in> set ps \<Longrightarrow> prefix p s \<Longrightarrow>
     (rev p @ pre, drop (length p) s) \<in> set (rmatch (alts (map lit ps)) (pre, s))"
proof (induction ps)
  case (Cons q qs)
  show ?case
  proof (cases qs)
    case Nil
    with Cons.prems show ?thesis by (simp add: rmatch_lit)
  next
    case (Cons q' qs')
    then have eq: "alts (map lit (q # qs)) = Alt (lit q) (alts (map lit qs))" by simp
    from Cons.prems consider "p = q" | "p \<in> set qs" by auto
    then show ?thesis
    proof cases
      case 1
      with Cons.prems show ?thesis unfolding eq by (simp add: rmatch_lit)
    next
      case 2
      with Cons.IH Cons.prems show ?thesis unfolding eq by simp
    qed
  qed
qed simp

lemma system_dir_found:
  assumes "d \<in> set system_dirs"
  shows "search (seqs [Bol, lit ''/'', alts (map lit system_dirs), wb]) (''/'' @ d @ ''/'' @ rest)"
proof -
  let ?s = "d @ ''/'' @ rest"
  have w: "d \<noteq> [] \<and> is_word (last d)" using assms by (auto simp: system_dirs_def py_defs)
  have m: "(rev d @ ''/'', ''/'' @ rest) \<in> set (rmatch (alts (map lit system_dirs)) (''/'', ?s))"
    using rmatch_alts_lit [of d system_dirs ?s "''/''"] assms by simp
  obtain c cs where rd: "rev d = c # cs" and "is_word c"
    using w by (cases "rev d") (auto simp: last_rev [symmetric] hd_rev)
  then have b: "rmatch wb (rev d @ ''/'', ''/'' @ rest) \<noteq> []"
    by (simp add: wb_def Let_def py_defs)
  have "rmatch (seqs [Bol, lit ''/'', alts (map lit system_dirs), wb]) (rev [], ''/'' @ ?s) \<noteq> []"
    using m b by (auto simp: rmatch_lit)
  from searchI [OF this] show ?thesis by simp
qed

text \<open>
  In agent mode no call with an argument text below a system directory (\<open>/etc/...\<close>,
  \<open>/boot/...\<close>, \<open>/usr/...\<close>, \<open>/lib/...\<close>, \<open>/sbin/...\<close>, \<open>/bin/...\<close>, \<open>/proc/...\<close>, \<open>/sys/...\<close>) runs
  without confirmation, whatever the tool, its risk level and the policy.
\<close>

theorem system_path_needs_confirm:
  assumes "d \<in> set system_dirs"
    and "(''/'' @ d @ ''/'' @ rest) \<in> set (flattenValues (PDict args))"
  shows "checkToolCall rc pol tool risk args M_AGENT = REQUIRE_CONFIRM"
proof -
  have "(seqs [Bol, lit ''/'', alts (map lit system_dirs), wb], ''system_dir'') \<in> set DANGEROUS_PATTERNS"
    by (simp add: DANGEROUS_PATTERNS_def system_dirs_def)
  with system_dir_found [OF assms(1)] assms(2)
  have "\<not> clean_values rc pol (flattenValues (PDict args))"
    unfolding clean_values_def pattern_hits_Nil_iff by force
  then show ?thesis by (simp add: check_verdict)
qed

theorem system_path_needs_confirm_witness:
  "checkToolCall Map.empty example_policy ''readFile'' RL_READ_ONLY
     [(''path'', PStr ''/etc/hosts'')] M_AGENT = REQUIRE_CONFIRM"
  by (rule system_path_needs_confirm [of "''etc''" "''hosts''"]) (simp_all add: system_dirs_def)

end
