(* ===== verification/RiskScorer.thy ===== *)
theory RiskScorer
  imports Safety
begin

text \<open>
  The multi-dimensional risk scorer, \<open>agent/safety/risk_scorer.py\<close>: a profile of six
  dimensions derived from a tool call by keyword patterns, its weighted sum, and the level
  and verdict of a score.  Scores are exact rationals.  \<open>round2\<close> is \<open>round(x, 2)\<close> (ties to
  even); the scores of profiles that \<open>profileFromToolCall\<close> builds have at most two decimals.
\<close>

section \<open>Model\<close>

record RiskProfile =
  intent_risk :: rat
  command_risk :: rat
  path_risk :: rat
  privilege_risk :: rat
  exfiltration_risk :: rat
  injection_risk :: rat

definition round_half_even :: "rat \<Rightarrow> int" where
  "round_half_even x =
     (let f = \<lfloor>x\<rfloor>; d = x - of_int f in
      if d < 1 / 2 then f else if d > 1 / 2 then f + 1 else if even f then f else f + 1)"

definition round2 :: "rat \<Rightarrow> rat" where
  "round2 x = of_int (round_half_even (x * 100)) / 100"

definition calculateRiskScore :: "RiskProfile \<Rightarrow> rat" where
  "calculateRiskScore p =
    (let score = 30 / 100 * command_risk p + 20 / 100 * path_risk p + 15 / 100 * privilege_risk p
               + 15 / 100 * intent_risk p + 10 / 100 * exfiltration_risk p + 10 / 100 * injection_risk p
     in round2 (min 100 (max 0 score)))"

datatype RiskLevel = Safe | Low | Medium | High | Critical

definition THRESHOLDS :: "(rat \<times> RiskLevel \<times> SafetyVerdict) list" where
  "THRESHOLDS = [(20, Safe, ALLOW), (40, Low, ALLOW), (60, Medium, REQUIRE_CONFIRM),
                 (80, High, REQUIRE_CONFIRM), (10001 / 100, Critical, BLOCK)]"

definition classifyRisk :: "rat \<Rightarrow> RiskLevel \<times> SafetyVerdict" where
  "classifyRisk score =
     (case find (\<lambda>t. score < fst t) THRESHOLDS of Some t \<Rightarrow> snd t | None \<Rightarrow> (Critical, BLOCK))"

definition HIGH_RISK_PRIVILEGE :: "char rx" where
  "HIGH_RISK_PRIVILEGE =
     seqs [wb, alts (map lit_i [''sudo'', ''su'', ''chmod'', ''chown'', ''setcap'', ''visudo'']), wb]"

definition EXFIL :: "char rx" where
  "EXFIL = seqs [wb, alts (map lit_i [''curl'', ''wget'', ''scp'', ''nc'', ''ncat'', ''ftp'', ''rsync'']), wb]"

definition DESTRUCTIVE :: "char rx" where
  "DESTRUCTIVE =
     seqs [wb, alts (map lit_i [''rm'', ''mkfs'', ''dd'', ''wipefs'', ''shred'', ''truncate'', ''fdisk'', ''parted'']), wb]"

definition SENSITIVE_PATH :: "char rx" where
  "SENSITIVE_PATH =
     seqs [alts [seqs [lit ''/etc/'', alts (map lit [''shadow'', ''passwd'', ''sudoers''])],
                 lit ''/boot'',
                 seqs [lit ''/dev/'', alts (map lit [''sd'', ''nvme'', ''vd''])],
                 seqs [opt (lit ''~''), lit ''/.ssh''],
                 lit ''/root''], wb]"

definition SYSTEM_PATH :: "char rx" where
  "SYSTEM_PATH =
     seqs [Bol, lit ''/'',
           alts (map lit [''etc'', ''usr'', ''lib'', ''sbin'', ''bin'', ''proc'', ''sys'', ''boot'']), wb]"

text \<open>The texts of the scalar arguments, joined by blanks.\<close>

fun is_scalar :: "pyval \<Rightarrow> bool" where
  "is_scalar (PStr s) = True"
| "is_scalar (PBool b) = True"
| "is_scalar (PInt i) = True"
| "is_scalar (PFloat r) = True"
| "is_scalar _ = False"

definition argument_blob :: "pydict \<Rightarrow> string" where
  "argument_blob arguments = join '' '' (map py_str (filter is_scalar (map snd arguments)))"

definition profileFromToolCall ::
  "string \<Rightarrow> ToolRiskLevel \<Rightarrow> pydict \<Rightarrow> bool \<Rightarrow> RiskProfile" where
  "profileFromToolCall toolName riskLevel arguments injectionDetected =
    (let blob = argument_blob arguments in
     \<lparr>intent_risk = (if riskLevel = RL_DANGEROUS then 80 else if riskLevel = RL_WRITE then 40 else 5),
      command_risk = (if search DESTRUCTIVE blob then 85 else if riskLevel = RL_DANGEROUS then 60
                      else if riskLevel = RL_WRITE then 35 else 5),
      path_risk = (if search SENSITIVE_PATH blob then 90 else if search SYSTEM_PATH blob then 65
                   else if contains blob ''..'' then 50 else 10),
      privilege_risk = (if search HIGH_RISK_PRIVILEGE blob then 75 else 10),
      exfiltration_risk = (if search EXFIL blob then (if contains blob ''|'' then 70 else 45) else 5),
      injection_risk = (if injectionDetected then 100 else 0)\<rparr>)"

definition scoreToolCall ::
  "string \<Rightarrow> ToolRiskLevel \<Rightarrow> pydict \<Rightarrow> bool \<Rightarrow> rat \<times> RiskLevel \<times> SafetyVerdict" where
  "scoreToolCall toolName riskLevel arguments injectionDetected =
    (let profile = profileFromToolCall toolName riskLevel arguments injectionDetected;
         score = calculateRiskScore profile
     in (score, classifyRisk score))"

section \<open>Lemmas\<close>

lemma round_half_even_of_int [simp]: "round_half_even (of_int i) = i"
  by (simp add: round_half_even_def Let_def)

lemma round_half_even_bounds:
  assumes "of_int a \<le> x" "x \<le> of_int b"
  shows "a \<le> round_half_even x" "round_half_even x \<le> b"
proof -
  have f: "a \<le> \<lfloor>x\<rfloor>" using assms(1) by (simp add: le_floor_iff)
  then show "a \<le> round_half_even x" by (simp add: round_half_even_def Let_def)
  show "round_half_even x \<le> b"
  proof (cases "x = of_int \<lfloor>x\<rfloor>")
    case True
    then have "round_half_even x = \<lfloor>x\<rfloor>" by (metis round_half_even_of_int)
    moreover have "\<lfloor>x\<rfloor> \<le> b" using assms(2) by (simp add: floor_le_iff)
    ultimately show ?thesis by simp
  next
    case False
    then have "of_int \<lfloor>x\<rfloor> < x" using of_int_floor_le [of x] by linarith
    with assms(2) have "\<lfloor>x\<rfloor> < b" by (metis less_le_trans of_int_less_iff)
    then show ?thesis by (simp add: round_half_even_def Let_def)
  qed
qed

lemma round2_eq: "x * 100 = of_int i \<Longrightarrow> round2 x = of_int i / 100"
  by (simp add: round2_def)

text \<open>A profile of whole numbers has the exact weighted sum as its score.\<close>

lemma calculateRiskScore_int:
  assumes "command_risk p = of_int c" "path_risk p = of_int pa" "privilege_risk p = of_int pr"
    "intent_risk p = of_int i" "exfiltration_risk p = of_int e" "injection_risk p = of_int j"
    and k: "k = 30 * c + 20 * pa + 15 * pr + 15 * i + 10 * e + 10 * j" "0 \<le> k" "k \<le> 10000"
  shows "calculateRiskScore p = of_int k / 100"
proof -
  let ?w = "30 / 100 * command_risk p + 20 / 100 * path_risk p + 15 / 100 * privilege_risk p
            + 15 / 100 * intent_risk p + 10 / 100 * exfiltration_risk p + 10 / 100 * injection_risk p"
  have w: "?w = of_int k / 100" unfolding assms(1-7) by (simp add: field_simps)
  have "(of_int 0 :: rat) \<le> of_int k" "of_int k \<le> (of_int 10000 :: rat)"
    using k(2,3) by (simp_all only: of_int_le_iff)
  then have "min 100 (max 0 ?w) = of_int k / 100" unfolding w by simp
  then show ?thesis unfolding calculateRiskScore_def Let_def by (simp add: round2_eq)
qed

text \<open>The verdict of a score is monotone, and the thresholds leave no gap.\<close>

lemma classifyRisk_cases:
  "classifyRisk s =
     (if s < 20 then (Safe, ALLOW) else if s < 40 then (Low, ALLOW)
      else if s < 60 then (Medium, REQUIRE_CONFIRM) else if s < 80 then (High, REQUIRE_CONFIRM)
      else (Critical, BLOCK))"
  by (auto simp: classifyRisk_def THRESHOLDS_def)

lemma classifyRisk_mono: "s \<le> t \<Longrightarrow> snd (classifyRisk s) \<le> snd (classifyRisk t)"
  by (simp add: classifyRisk_cases less_eq_SafetyVerdict_def)

lemma calculateRiskScore_range: "0 \<le> calculateRiskScore p \<and> calculateRiskScore p \<le> 100"
proof -
  have "0 \<le> round2 y \<and> round2 y \<le> 100" if "0 \<le> y" "y \<le> 100" for y :: rat
  proof -
    have "of_int 0 \<le> y * 100" "y * 100 \<le> of_int 10000" using that by auto
    from round_half_even_bounds [OF this]
    have "(of_int 0 :: rat) \<le> of_int (round_half_even (y * 100))"
      "of_int (round_half_even (y * 100)) \<le> (of_int 10000 :: rat)" unfolding of_int_le_iff .
    then show ?thesis by (simp add: round2_def)
  qed
  then show ?thesis by (simp add: calculateRiskScore_def Let_def)
qed

section \<open>Properties\<close>

text \<open>
  The score of every profile is between 0 and 100, and the verdict never becomes less
  severe when the score grows.
\<close>

lemma risk_score_range:
  "0 \<le> calculateRiskScore p \<and> calculateRiskScore p \<le> 100 \<and>
   (calculateRiskScore p \<le> calculateRiskScore q \<longrightarrow>
      snd (classifyRisk (calculateRiskScore p)) \<le> snd (classifyRisk (calculateRiskScore q)))"
  by (simp add: calculateRiskScore_range classifyRisk_mono)

definition example_profile :: RiskProfile where
  "example_profile = \<lparr>intent_risk = 40, command_risk = 35, path_risk = 65, privilege_risk = 10,
     exfiltration_risk = 5, injection_risk = 0\<rparr>"

theorem risk_score_range_witness:
  "snd (classifyRisk (calculateRiskScore example_profile)) \<le>
   snd (classifyRisk (calculateRiskScore (example_profile\<lparr>command_risk := 85\<rparr>)))"
proof -
  have "calculateRiskScore example_profile \<le> calculateRiskScore (example_profile\<lparr>command_risk := 85\<rparr>)"
    by (simp add: example_profile_def
        calculateRiskScore_int [where c = 35 and pa = 65 and pr = 10 and i = 40 and e = 5 and j = 0]
        calculateRiskScore_int [where c = 85 and pa = 65 and pr = 10 and i = 40 and e = 5 and j = 0])
  with risk_score_range [of example_profile "example_profile\<lparr>command_risk := 85\<rparr>"]
  show ?thesis by blast
qed

text \<open>
  The scorer blocks a tool call exactly when all six dimensions are at their worst: a
  dangerous tool, a destructive keyword, a sensitive path, a privilege keyword, an exfiltration
  keyword and a detected injection.  In particular no call without a detected injection is
  blocked by its score.
\<close>

theorem score_blocks_iff:
  "snd (snd (scoreToolCall tool risk args injected)) = BLOCK \<longleftrightarrow>
     risk = RL_DANGEROUS \<and> injected \<and> search DESTRUCTIVE (argument_blob args) \<and>
     search SENSITIVE_PATH (argument_blob args) \<and> search HIGH_RISK_PRIVILEGE (argument_blob args) \<and>
     search EXFIL (argument_blob args)"
proof -
  define B where "B = argument_blob args"
  define c pa pr i e j :: int where
    "c = (if search DESTRUCTIVE B then 85 else if risk = RL_DANGEROUS then 60 else if risk = RL_WRITE then 35 else 5)"
    and "pa = (if search SENSITIVE_PATH B then 90 else if search SYSTEM_PATH B then 65
               else if contains B ''..'' then 50 else 10)"
    and "pr = (if search HIGH_RISK_PRIVILEGE B then 75 else 10)"
    and "i = (if risk = RL_DANGEROUS then 80 else if risk = RL_WRITE then 40 else 5)"
    and "e = (if search EXFIL B then (if contains B ''|'' then 70 else 45) else 5)"
    and "j = (if injected then 100 else 0)"
  note dims = c_def pa_def pr_def i_def e_def j_def
  let ?k = "30 * c + 20 * pa + 15 * pr + 15 * i + 10 * e + 10 * j"
  have "calculateRiskScore (profileFromToolCall tool risk args injected) = of_int ?k / 100"
    by (rule calculateRiskScore_int [where c = c and pa = pa and pr = pr and i = i and e = e and j = j])
       (simp_all add: profileFromToolCall_def Let_def B_def dims)
  then have "snd (snd (scoreToolCall tool risk args injected)) = BLOCK \<longleftrightarrow> 8000 \<le> ?k"
    by (simp add: scoreToolCall_def Let_def classifyRisk_cases)
  also have "\<dots> \<longleftrightarrow> risk = RL_DANGEROUS \<and> injected \<and> search DESTRUCTIVE B \<and> search SENSITIVE_PATH B \<and>
      search HIGH_RISK_PRIVILEGE B \<and> search EXFIL B"
    by (simp add: dims)
  finally show ?thesis unfolding B_def .
qed

text \<open>
  The sensitive-path pattern misses the disk devices it lists: its word boundary comes
  right after \<open>sd\<close>, so \<open>/dev/sda\<close> does not match, and a call on it gets the lowest path risk.
\<close>

lemma disk_device_not_sensitive:
  "\<not> search SENSITIVE_PATH ''/dev/sda'' \<and>
   path_risk (profileFromToolCall tool risk [(''device'', PStr ''/dev/sda'')] injected) = 10"
proof -
  have s: "\<not> search SENSITIVE_PATH ''/dev/sda''" by code_simp
  have "\<not> search SYSTEM_PATH ''/dev/sda''" "\<not> contains ''/dev/sda'' ''..''" by code_simp+
  with s show ?thesis by (simp add: profileFromToolCall_def argument_blob_def py_str_def Let_def)
qed

end
