(* ===== verification/Json.thy ===== *)
theory Json
  imports Regex "HOL-Library.Char_ord" "HOL-Library.List_Lexorder"
begin

text \<open>
  Python's \<open>json\<close> module on the values of \<open>PyPrelude\<close>: \<open>dumps\<close> with its separators and
  \<open>ensure_ascii\<close>, \<open>sort_keys\<close> as the value transformation \<open>sort_val\<close>, and \<open>loads\<close>.  The parser
  takes a float literal to the text \<open>frepr\<close> gives for it (\<open>repr(float(_))\<close>).  Texts hold the
  code points below 256, so an escape of a larger code point is outside the domain of \<open>loads\<close>.

  \<open>loads_dumps\<close> is the round trip, \<open>canonical_inj\<close> the injectivity of the canonical text that is
  signed and hashed.
\<close>

section \<open>Writing\<close>

abbreviation dquote :: char where "dquote \<equiv> CHR 0x22"
abbreviation bslash :: char where "bslash \<equiv> CHR 0x5C"

definition u_escape :: "nat \<Rightarrow> string" where
  "u_escape n = [bslash, CHR ''u'', CHR ''0'', CHR ''0'', hex_digit (n div 16), hex_digit (n mod 16)]"

definition esc_char :: "bool \<Rightarrow> char \<Rightarrow> string" where
  "esc_char ensure_ascii c =
     (let n = (of_char c :: nat) in
      if n = 34 \<or> n = 92 then [bslash, c]
      else if n = 10 then [bslash, CHR ''n'']
      else if n = 13 then [bslash, CHR ''r'']
      else if n = 9 then [bslash, CHR ''t'']
      else if n = 12 then [bslash, CHR ''f'']
      else if n = 8 then [bslash, CHR ''b'']
      else if n < 32 \<or> (ensure_ascii \<and> 127 \<le> n) then u_escape n
      else [c])"

definition dumps_str :: "bool \<Rightarrow> string \<Rightarrow> string" where
  "dumps_str ea s = dquote # concat (map (esc_char ea) s) @ [dquote]"

definition dumps_float :: "string \<Rightarrow> string" where
  "dumps_float r = (if r = ''nan'' then ''NaN'' else if r = ''inf'' then ''Infinity''
                    else if r = ''-inf'' then ''-Infinity'' else r)"

text \<open>Arguments: \<open>ensure_ascii\<close>, the item separator and the key separator.\<close>

fun dumps :: "bool \<Rightarrow> string \<Rightarrow> string \<Rightarrow> pyval \<Rightarrow> string" where
  "dumps ea isep ksep PNone = ''null''"
| "dumps ea isep ksep (PBool b) = (if b then ''true'' else ''false'')"
| "dumps ea isep ksep (PInt i) = str_of_int i"
| "dumps ea isep ksep (PFloat r) = dumps_float r"
| "dumps ea isep ksep (PStr s) = dumps_str ea s"
| "dumps ea isep ksep (PList xs) = ''['' @ join isep (map (dumps ea isep ksep) xs) @ '']''"
| "dumps ea isep ksep (PDict kvs) =
     ''{'' @ join isep (map (\<lambda>kv. dumps_str ea (fst kv) @ ksep @ dumps ea isep ksep (snd kv)) kvs) @ ''}''"

text \<open>\<open>json.dumps(v, ensure_ascii=ea, indent=2)\<close>, at a level of nesting.\<close>

definition line_start :: "nat \<Rightarrow> string" where
  "line_start level = CHR 0x0A # replicate (2 * level) (CHR '' '')"

fun dumps_indent :: "bool \<Rightarrow> nat \<Rightarrow> pyval \<Rightarrow> string" where
  "dumps_indent ea level (PList xs) =
     (if xs = [] then ''[]''
      else ''['' @ line_start (Suc level) @ join ('','' @ line_start (Suc level)) (map (dumps_indent ea (Suc level)) xs) @
           line_start level @ '']'')"
| "dumps_indent ea level (PDict kvs) =
     (if kvs = [] then ''{}''
      else ''{'' @ line_start (Suc level) @
           join ('','' @ line_start (Suc level)) (map (\<lambda>kv. dumps_str ea (fst kv) @ '': '' @ dumps_indent ea (Suc level) (snd kv)) kvs) @
           line_start level @ ''}'')"
| "dumps_indent ea level v = dumps ea '', '' '': '' v"

text \<open>\<open>sort_keys=True\<close>.\<close>

fun sort_val :: "pyval \<Rightarrow> pyval" where
  "sort_val (PList xs) = PList (map sort_val xs)"
| "sort_val (PDict kvs) = PDict (sort_key fst (map (\<lambda>kv. (fst kv, sort_val (snd kv))) kvs))"
| "sort_val v = v"

text \<open>\<open>json.dumps(v, sort_keys=True, separators=(",", ":"))\<close>.\<close>

definition canonical :: "pyval \<Rightarrow> string" where
  "canonical v = dumps True '','' '':'' (sort_val v)"

section \<open>Reading\<close>

definition is_ws :: "char \<Rightarrow> bool" where
  "is_ws c \<longleftrightarrow> of_char c \<in> {9, 10, 13, 32 :: nat}"

abbreviation skip :: "string \<Rightarrow> string" where
  "skip s \<equiv> dropWhile is_ws s"

definition hex_val :: "char \<Rightarrow> nat option" where
  "hex_val c =
     (let n = (of_char c :: nat) in
      if 48 \<le> n \<and> n \<le> 57 then Some (n - 48)
      else if 97 \<le> n \<and> n \<le> 102 then Some (n - 87)
      else if 65 \<le> n \<and> n \<le> 70 then Some (n - 55) else None)"

definition u_unescape :: "char \<Rightarrow> char \<Rightarrow> char \<Rightarrow> char \<Rightarrow> char option" where
  "u_unescape a b c d =
     (case (hex_val a, hex_val b, hex_val c, hex_val d) of
        (Some w, Some x, Some y, Some z) \<Rightarrow>
          (let n = 4096 * w + 256 * x + 16 * y + z in if n < 256 then Some (char_of n) else None)
      | _ \<Rightarrow> None)"

definition simple_unescape :: "char \<Rightarrow> char option" where
  "simple_unescape c = map_of
     [(dquote, dquote), (bslash, bslash), (CHR ''/'', CHR ''/''), (CHR ''b'', CHR 0x08),
      (CHR ''f'', CHR 0x0C), (CHR ''n'', CHR 0x0A), (CHR ''r'', CHR 0x0D),
      (CHR ''t'', CHR 0x09)] c"

text \<open>The text of a string literal after its opening quote, and what follows it.\<close>

fun scanstring :: "string \<Rightarrow> (string \<times> string) option" where
  "scanstring [] = None"
| "scanstring (c # cs) =
     (if c = dquote then Some ([], cs)
      else if c = bslash then
        (case cs of
           [] \<Rightarrow> None
         | e # es \<Rightarrow>
             if e = CHR ''u'' then
               (case es of
                  h1 # h2 # h3 # h4 # rest \<Rightarrow>
                    (case u_unescape h1 h2 h3 h4 of
                       None \<Rightarrow> None
                     | Some x \<Rightarrow> map_option (\<lambda>(t, r). (x # t, r)) (scanstring rest))
                | _ \<Rightarrow> None)
             else (case simple_unescape e of
                     None \<Rightarrow> None
                   | Some x \<Rightarrow> map_option (\<lambda>(t, r). (x # t, r)) (scanstring es)))
      else if of_char c < (32::nat) then None
      else map_option (\<lambda>(t, r). (c # t, r)) (scanstring cs))"

definition digit_val :: "char \<Rightarrow> nat" where
  "digit_val c = of_char c - 48"

definition nat_of_text :: "string \<Rightarrow> nat" where
  "nat_of_text s = foldl (\<lambda>a c. 10 * a + digit_val c) 0 s"

definition is_nat_text :: "string \<Rightarrow> bool" where
  "is_nat_text s \<longleftrightarrow> s \<noteq> [] \<and> list_all is_digit s \<and> (length s = 1 \<or> hd s \<noteq> CHR ''0'')"

definition int_of_text :: "string \<Rightarrow> int option" where
  "int_of_text s =
     (if startswith s ''-'' then (if is_nat_text (tl s) then Some (- int (nat_of_text (tl s))) else None)
      else if is_nat_text s then Some (int (nat_of_text s)) else None)"

text \<open>\<open>int(s)\<close> of a decimal text, \<open>None\<close> for its \<open>ValueError\<close>.\<close>

definition py_int :: "string \<Rightarrow> int option" where
  "py_int s =
     (let t = strip s; neg = startswith t ''-''; body = (if neg \<or> startswith t ''+'' then tl t else t)
      in if body \<noteq> [] \<and> list_all is_digit body
         then Some (if neg then - int (nat_of_text body) else int (nat_of_text body)) else None)"

text \<open>The number a float text denotes; none for the infinities and NaN.\<close>

definition pow10 :: "int \<Rightarrow> rat" where
  "pow10 k = (if 0 \<le> k then 10 ^ nat k else 1 / 10 ^ nat (- k))"

definition exponent_of :: "string \<Rightarrow> int" where
  "exponent_of s =
     (case s of [] \<Rightarrow> 0
      | c # cs \<Rightarrow> if c = CHR ''-'' then - int (nat_of_text cs)
                 else if c = CHR ''+'' then int (nat_of_text cs) else int (nat_of_text s))"

definition float_value :: "string \<Rightarrow> rat option" where
  "float_value r =
     (if r \<in> {''nan'', ''inf'', ''-inf''} then None
      else
        (let neg = startswith r ''-''; body = (if neg then tl r else r);
             is_e = (\<lambda>c. c = CHR ''e'' \<or> c = CHR ''E'');
             mant = takeWhile (\<lambda>c. \<not> is_e c) body; ex = drop 1 (dropWhile (\<lambda>c. \<not> is_e c) body);
             ip = takeWhile (\<lambda>c. c \<noteq> CHR ''.'') mant; fp = drop 1 (dropWhile (\<lambda>c. c \<noteq> CHR ''.'') mant);
             v = of_nat (nat_of_text (ip @ fp)) * pow10 (exponent_of ex - int (length fp))
         in Some (if neg then - v else v)))"

definition digits_rx :: "char rx" where
  "digits_rx = plus (Cls is_digit)"

definition float_rx :: "char rx" where
  "float_rx = seqs [opt (lit ''-''), Alt (lit ''0'') (Seq (Cls (\<lambda>c. is_digit c \<and> c \<noteq> CHR ''0'')) (Star (Cls is_digit))),
     opt (seqs [lit ''.'', digits_rx]),
     opt (seqs [Alt (lit ''e'') (lit ''E''), opt (Alt (lit ''-'') (lit ''+'')), digits_rx])]"

definition fullmatch :: "'c rx \<Rightarrow> 'c list \<Rightarrow> bool" where
  "fullmatch r s \<longleftrightarrow> (\<exists>q \<in> set (rmatch r ([], s)). snd q = [])"

text \<open>
  A number token is the maximal run of the characters a number can have.  The scanner of \<open>json\<close>
  stops at the end of the longest number instead, but then only a delimiter may follow, so the
  two accept the same texts.
\<close>

definition num_char :: "char \<Rightarrow> bool" where
  "num_char c \<longleftrightarrow> is_digit c \<or> c \<in> set ''+-.eE''"

definition scan_number :: "(string \<Rightarrow> string) \<Rightarrow> string \<Rightarrow> (pyval \<times> string) option" where
  "scan_number frepr s =
     (let t = takeWhile num_char s; r = dropWhile num_char s in
      case int_of_text t of
        Some i \<Rightarrow> Some (PInt i, r)
      | None \<Rightarrow> if fullmatch float_rx t then Some (PFloat (frepr t), r) else None)"

definition keyword :: "string \<Rightarrow> (pyval \<times> string) option" where
  "keyword s =
     map_option (\<lambda>(k, v). (v, drop (length k) s))
       (find (\<lambda>(k, v). prefix k s)
          [(''null'', PNone), (''true'', PBool True), (''false'', PBool False), (''NaN'', PFloat ''nan''),
           (''Infinity'', PFloat ''inf''), (''-Infinity'', PFloat ''-inf'')])"

text \<open>
  The recursive descent.  The first argument bounds the calls; every call but those that skip
  white space consumes a character, so the length of the text is enough.
\<close>

fun parse_val :: "(string \<Rightarrow> string) \<Rightarrow> nat \<Rightarrow> string \<Rightarrow> (pyval \<times> string) option"
  and parse_arr :: "(string \<Rightarrow> string) \<Rightarrow> nat \<Rightarrow> pyval list \<Rightarrow> string \<Rightarrow> (pyval \<times> string) option"
  and parse_obj :: "(string \<Rightarrow> string) \<Rightarrow> nat \<Rightarrow> pydict \<Rightarrow> string \<Rightarrow> (pyval \<times> string) option" where
  "parse_val fr 0 s = None"
| "parse_val fr (Suc n) s =
     (case s of
        [] \<Rightarrow> None
      | c # cs \<Rightarrow>
          if c = dquote then map_option (\<lambda>(t, r). (PStr t, r)) (scanstring cs)
          else if c = CHR ''{'' then
            (case skip cs of
               [] \<Rightarrow> None
             | d # ds \<Rightarrow> if d = CHR ''}'' then Some (PDict [], ds) else parse_obj fr n [] (d # ds))
          else if c = CHR ''['' then
            (case skip cs of
               [] \<Rightarrow> None
             | d # ds \<Rightarrow> if d = CHR '']'' then Some (PList [], ds) else parse_arr fr n [] (d # ds))
          else (case keyword s of Some p \<Rightarrow> Some p | None \<Rightarrow> scan_number fr s))"
| "parse_arr fr 0 acc s = None"
| "parse_arr fr (Suc n) acc s =
     (case parse_val fr n s of
        None \<Rightarrow> None
      | Some (v, r) \<Rightarrow>
          (case skip r of
             [] \<Rightarrow> None
           | d # ds \<Rightarrow> if d = CHR '']'' then Some (PList (rev (v # acc)), ds)
                      else if d = CHR '','' then parse_arr fr n (v # acc) (skip ds) else None))"
| "parse_obj fr 0 acc s = None"
| "parse_obj fr (Suc n) acc s =
     (case s of
        [] \<Rightarrow> None
      | q # cs \<Rightarrow>
          if q \<noteq> dquote then None
          else (case scanstring cs of
                  None \<Rightarrow> None
                | Some (k, r) \<Rightarrow>
                    (case skip r of
                       [] \<Rightarrow> None
                     | d # ds \<Rightarrow>
                         if d \<noteq> CHR '':'' then None
                         else (case parse_val fr n (skip ds) of
                                 None \<Rightarrow> None
                               | Some (v, r') \<Rightarrow>
                                   (case skip r' of
                                      [] \<Rightarrow> None
                                    | e # es \<Rightarrow>
                                        if e = CHR ''}'' then Some (PDict (AList.update k v acc), es)
                                        else if e = CHR '','' then
                                          parse_obj fr n (AList.update k v acc) (skip es)
                                        else None)))))"

text \<open>\<open>json.loads(s)\<close>, \<open>None\<close> for its \<open>JSONDecodeError\<close>.\<close>

definition loads :: "(string \<Rightarrow> string) \<Rightarrow> string \<Rightarrow> pyval option" where
  "loads frepr s =
     (case parse_val frepr (Suc (length s)) (skip s) of
        Some (v, r) \<Rightarrow> if skip r = [] then Some v else None
      | None \<Rightarrow> None)"

section \<open>Lemmas: strings and numbers\<close>

lemma of_char_hex_digit:
  "d < 16 \<Longrightarrow> (of_char (hex_digit d) :: nat) = (if d < 10 then 48 + d else 87 + d)"
  by (simp add: hex_digit_def of_char_of)

lemma hex_val_hex_digit [simp]: "d < 16 \<Longrightarrow> hex_val (hex_digit d) = Some d"
  by (auto simp: hex_val_def of_char_hex_digit Let_def)

lemma hex_val_zero: "hex_val CHR ''0'' = Some 0"
  by (simp add: hex_val_def)

lemma u_unescape_escape:
  "n < 256 \<Longrightarrow> u_unescape CHR ''0'' CHR ''0'' (hex_digit (n div 16)) (hex_digit (n mod 16)) = Some (char_of n)"
  by (simp add: u_unescape_def hex_val_zero Let_def)

lemma scanstring_esc_char:
  "scanstring (esc_char ea c @ s) = map_option (\<lambda>(t, r). (c # t, r)) (scanstring s)"
proof -
  let ?n = "of_char c :: nat"
  have simple: "?n = 34 \<Longrightarrow> c = dquote" "?n = 92 \<Longrightarrow> c = bslash" "?n = 10 \<Longrightarrow> c = CHR 0x0A"
    "?n = 13 \<Longrightarrow> c = CHR 0x0D" "?n = 9 \<Longrightarrow> c = CHR 0x09" "?n = 12 \<Longrightarrow> c = CHR 0x0C" "?n = 8 \<Longrightarrow> c = CHR 0x08"
    by (rule of_char_inj, simp)+
  have un: "u_unescape CHR ''0'' CHR ''0'' (hex_digit (?n div 16)) (hex_digit (?n mod 16)) = Some c"
    using u_unescape_escape [OF of_char_less [of c]] by simp
  consider "?n = 34" | "?n = 92" | "?n = 10" | "?n = 13" | "?n = 9" | "?n = 12" | "?n = 8"
    | "?n \<notin> {34, 92, 10, 13, 9, 12, 8}" by auto
  then show ?thesis
  proof cases
    case 8
    then have "c \<noteq> dquote" "c \<noteq> bslash" by auto
    then show ?thesis using 8 un by (auto simp: esc_char_def u_escape_def Let_def)
  qed (drule simple, simp add: esc_char_def simple_unescape_def Let_def)+
qed

lemma scanstring_dumps:
  "scanstring (concat (map (esc_char ea) s) @ dquote # rest) = Some (s, rest)"
  by (induction s) (simp_all add: scanstring_esc_char)

lemma digit_char_props:
  assumes "d < 10"
  shows "is_digit (digit_char d)" "digit_val (digit_char d) = d"
    "digit_char d = CHR ''0'' \<longleftrightarrow> d = 0" "digit_char d \<noteq> CHR ''-''"
proof -
  have o: "(of_char (digit_char d) :: nat) = 48 + d" using assms by (simp add: digit_char_def of_char_of)
  then show "is_digit (digit_char d)" "digit_val (digit_char d) = d"
    using assms by (simp_all add: is_digit_def digit_val_def)
  have "(of_char CHR ''0'' :: nat) = 48" by simp
  with o show "digit_char d = CHR ''0'' \<longleftrightarrow> d = 0" by (metis add_cancel_right_right of_char_inj)
  show "digit_char d \<noteq> CHR ''-''" using o by auto
qed

lemma nat_of_text_snoc: "nat_of_text (s @ [c]) = 10 * nat_of_text s + digit_val c"
  by (simp add: nat_of_text_def)

lemma str_of_nat_props:
  "nat_of_text (str_of_nat n) = n \<and> list_all is_digit (str_of_nat n) \<and>
   (hd (str_of_nat n) = CHR ''0'' \<longleftrightarrow> n = 0) \<and> (n < 10 \<longrightarrow> length (str_of_nat n) = 1)"
proof (induction n rule: less_induct)
  case (less n)
  show ?case
  proof (cases "n < 10")
    case True
    then have "str_of_nat n = [digit_char n]" by (simp add: str_of_nat.simps)
    then show ?thesis using True by (simp add: digit_char_props nat_of_text_def)
  next
    case False
    then have e: "str_of_nat n = str_of_nat (n div 10) @ [digit_char (n mod 10)]"
      by (simp add: str_of_nat.simps)
    have "n div 10 \<noteq> 0" using False by auto
    with less [of "n div 10"] False show ?thesis
      by (simp add: e nat_of_text_snoc digit_char_props hd_append)
  qed
qed

lemma is_nat_text_str_of_nat: "is_nat_text (str_of_nat n)"
  using str_of_nat_props [of n] by (cases "n = 0") (auto simp: is_nat_text_def)

lemma str_of_nat_hd: "hd (str_of_nat n) \<noteq> CHR ''-''"
proof -
  have "hd (str_of_nat n) \<in> set (str_of_nat n)" by simp
  then have "is_digit (hd (str_of_nat n))" using str_of_nat_props [of n] by (auto simp: list_all_iff)
  then show ?thesis by (auto simp: is_digit_def)
qed

lemma int_of_text_str_of_int [simp]: "int_of_text (str_of_int i) = Some i"
proof (cases "i < 0")
  case True
  then show ?thesis
    using str_of_nat_props [of "nat (- i)"]
    by (simp add: int_of_text_def str_of_int_def startswith_def is_nat_text_str_of_nat)
next
  case False
  then have "\<not> startswith (str_of_nat (nat i)) ''-''"
    using str_of_nat_hd [of "nat i"] by (cases "str_of_nat (nat i)") (auto simp: startswith_def)
  then show ?thesis
    using False str_of_nat_props [of "nat i"]
    by (simp add: int_of_text_def str_of_int_def is_nat_text_str_of_nat)
qed

lemma str_of_int_num_char: "list_all num_char (str_of_int i)"
  using str_of_nat_props by (auto simp: str_of_int_def num_char_def list_all_iff)

lemma str_of_int_not_Nil [simp]: "str_of_int i \<noteq> []"
  by (simp add: str_of_int_def)

lemma str_of_nat_inj: "str_of_nat m = str_of_nat n \<Longrightarrow> m = n"
  using str_of_nat_props by metis

lemma str_of_int_inj: "str_of_int i = str_of_int j \<Longrightarrow> i = j"
  by (metis int_of_text_str_of_int option.inject)

section \<open>Lemmas: the round trip\<close>

text \<open>Values that \<open>json.loads\<close> can deliver: distinct keys, and floats given by their \<open>repr\<close>.\<close>

definition float_text :: "(string \<Rightarrow> string) \<Rightarrow> string \<Rightarrow> bool" where
  "float_text frepr r \<longleftrightarrow> r \<in> {''nan'', ''inf'', ''-inf''} \<or>
     list_all num_char r \<and> int_of_text r = None \<and> fullmatch float_rx r \<and> frepr r = r"

fun wf_json :: "(string \<Rightarrow> string) \<Rightarrow> pyval \<Rightarrow> bool" where
  "wf_json fr (PFloat r) = float_text fr r"
| "wf_json fr (PList xs) = list_all (wf_json fr) xs"
| "wf_json fr (PDict kvs) = (wf_dict kvs \<and> list_all (\<lambda>kv. wf_json fr (snd kv)) kvs)"
| "wf_json fr v = True"

definition seps :: "string \<Rightarrow> string \<Rightarrow> bool" where
  "seps isep ksep \<longleftrightarrow> (\<exists>w1 w2. isep = CHR '','' # w1 \<and> ksep = CHR '':'' # w2 \<and> list_all is_ws w1 \<and> list_all is_ws w2)"

lemma seps_compact [simp]: "seps '','' '':''"
  by (simp add: seps_def)

lemma seps_default [simp]: "seps '', '' '': ''"
  by (simp add: seps_def is_ws_def)

definition delim :: "string \<Rightarrow> bool" where
  "delim s \<longleftrightarrow> s = [] \<or> \<not> num_char (hd s)"

lemma skip_ws_append: "list_all is_ws w \<Longrightarrow> skip (w @ s) = skip s"
  by (induction w) auto

lemma num_char_not_ws: "num_char c \<Longrightarrow> \<not> is_ws c"
  by (auto simp: num_char_def is_ws_def is_digit_def)

definition opener :: "char \<Rightarrow> bool" where
  "opener c \<longleftrightarrow> \<not> is_ws c \<and> c \<noteq> CHR '']'' \<and> c \<noteq> CHR ''}''"

lemma num_char_opener: "num_char c \<Longrightarrow> opener c"
  by (auto simp: opener_def num_char_not_ws) (auto simp: num_char_def is_digit_def)

lemma num_text_opener: "list_all num_char s \<Longrightarrow> s \<noteq> [] \<Longrightarrow> opener (hd s)"
  by (cases s) (auto simp: num_char_opener)

lemma fullmatch_float_Nil: "\<not> fullmatch float_rx []"
  by (simp add: fullmatch_def float_rx_def digits_rx_def rx_defs)

lemma dumps_hd:
  "wf_json fr v \<Longrightarrow> dumps ea isep ksep v \<noteq> [] \<and> opener (hd (dumps ea isep ksep v))"
proof (cases v)
  case (PFloat r)
  assume "wf_json fr v"
  with PFloat show ?thesis
    using num_text_opener [of r] fullmatch_float_Nil
    by (auto simp: float_text_def dumps_float_def opener_def is_ws_def)
qed (use num_text_opener [OF str_of_int_num_char] in
      \<open>auto simp: opener_def is_ws_def dumps_str_def\<close>)

lemma takeWhile_num: "list_all num_char s \<Longrightarrow> delim r \<Longrightarrow>
    takeWhile num_char (s @ r) = s \<and> dropWhile num_char (s @ r) = r"
  by (induction s) (use delim_def in \<open>auto split: list.splits simp: takeWhile_eq_Nil_iff dropWhile_eq_self_iff\<close>)

lemma keyword_num:
  assumes s: "list_all num_char s" "s \<noteq> []" "s \<noteq> ''-''"
  shows "keyword (s @ r) = None"
proof -
  obtain c cs where c: "s = c # cs" "num_char c" "list_all num_char cs" using s by (cases s) auto
  have nk: "\<not> num_char CHR ''n''" "\<not> num_char CHR ''t''" "\<not> num_char CHR ''f''" "\<not> num_char CHR ''N''"
    "\<not> num_char CHR ''I''" by (simp_all add: num_char_def is_digit_def)
  have "\<not> prefix ''Infinity'' (cs @ r)" if "c = CHR ''-''"
    using c s(3) that nk(5) by (cases cs) auto
  moreover have "c \<noteq> CHR ''n''" "c \<noteq> CHR ''t''" "c \<noteq> CHR ''f''" "c \<noteq> CHR ''N''" "c \<noteq> CHR ''I''"
    using c(2) nk by metis+
  ultimately show ?thesis using c(1) by (auto simp: keyword_def)
qed

lemma parse_num:
  assumes "list_all num_char s" "s \<noteq> []" "s \<noteq> ''-''" "delim r"
  shows "parse_val fr (Suc n) (s @ r) = scan_number fr (s @ r)"
proof -
  obtain c cs where c: "s = c # cs" "num_char c" using assms by (cases s) auto
  then have "c \<noteq> dquote" "c \<noteq> CHR ''{''" "c \<noteq> CHR ''[''" by (auto simp: num_char_def is_digit_def)
  with keyword_num [OF assms(1-3), of r] c show ?thesis by simp
qed

lemma not_minus:
  "int_of_text ''-'' = None" "\<not> fullmatch float_rx ''-''"
  by (simp_all add: int_of_text_def startswith_def is_nat_text_def fullmatch_def float_rx_def digits_rx_def
      rx_defs is_digit_def)

lemma parse_atom:
  assumes "wf_json fr v" "delim r" "0 < n" "\<And>xs. v \<noteq> PList xs" "\<And>kvs. v \<noteq> PDict kvs"
  shows "parse_val fr n (dumps ea isep ksep v @ r) = Some (v, r)"
proof -
  obtain m where n: "n = Suc m" using assms(3) by (cases n) auto
  show ?thesis
  proof (cases v)
    case (PInt i)
    have "str_of_int i \<noteq> ''-''" using not_minus(1) int_of_text_str_of_int [of i] by (metis option.distinct(1))
    then show ?thesis
      using PInt takeWhile_num [OF str_of_int_num_char assms(2)]
      by (simp add: n parse_num [OF str_of_int_num_char] assms(2) scan_number_def Let_def del: parse_val.simps)
  next
    case (PFloat t)
    consider "t \<in> {''nan'', ''inf'', ''-inf''}"
      | "t \<notin> {''nan'', ''inf'', ''-inf''}" "list_all num_char t" "int_of_text t = None" "fullmatch float_rx t" "fr t = t"
      using assms(1) PFloat by (auto simp: float_text_def)
    then show ?thesis
    proof cases
      case 2
      then have "t \<noteq> []" "t \<noteq> ''-''" using fullmatch_float_Nil not_minus by auto
      then show ?thesis
        using 2 PFloat takeWhile_num [OF 2(2) assms(2)]
        by (simp add: n dumps_float_def parse_num assms(2) scan_number_def Let_def del: parse_val.simps)
    qed (use PFloat in \<open>auto simp: n dumps_float_def keyword_def\<close>)
  qed (use assms in \<open>auto simp: n keyword_def dumps_str_def scanstring_dumps\<close>)
qed

lemma delim_closers [simp]:
  "delim (CHR '','' # s)" "delim (CHR '']'' # s)" "delim (CHR ''}'' # s)" "delim []"
  by (simp_all add: delim_def num_char_def is_digit_def)

lemma skip_opener: "s \<noteq> [] \<Longrightarrow> opener (hd s) \<Longrightarrow> skip (s @ r) = s @ r"
  by (cases s) (auto simp: opener_def)

lemma skip_join: "xs \<noteq> [] \<Longrightarrow> hd xs \<noteq> [] \<Longrightarrow> opener (hd (hd xs)) \<Longrightarrow> skip (join sep xs @ r) = join sep xs @ r"
  by (cases xs; cases "tl xs") (auto simp: skip_opener)

text \<open>The parser is right on the text of \<open>v\<close>, with enough calls left.\<close>

definition parses :: "(string \<Rightarrow> string) \<Rightarrow> (pyval \<Rightarrow> string) \<Rightarrow> pyval \<Rightarrow> bool" where
  "parses fr D v \<longleftrightarrow>
     D v \<noteq> [] \<and> opener (hd (D v)) \<and>
     (\<forall>n r. length (D v) \<le> n \<longrightarrow> delim r \<longrightarrow> parse_val fr n (D v @ r) = Some (v, r))"

lemma ws_before:
  assumes "list_all is_ws e" "\<not> is_ws c" "\<not> num_char c"
  shows "delim (e @ c # r)" "skip (e @ c # r) = c # r"
proof -
  have "is_ws x \<Longrightarrow> \<not> num_char x" for x using num_char_not_ws by blast
  with assms show "delim (e @ c # r)" by (cases e) (auto simp: delim_def)
  show "skip (e @ c # r) = c # r" using assms by (simp add: skip_ws_append)
qed

lemma closers [simp]: "\<not> is_ws CHR '']''" "\<not> is_ws CHR ''}''" "\<not> num_char CHR '']''" "\<not> num_char CHR ''}''"
  by (simp_all add: is_ws_def num_char_def is_digit_def)

lemma parse_arr_dumps:
  assumes sep: "isep = CHR '','' # w" "list_all is_ws w" and e: "list_all is_ws e"
  shows "\<lbrakk>xs \<noteq> []; \<forall>x \<in> set xs. parses fr D x; length (join isep (map D xs)) < n\<rbrakk> \<Longrightarrow>
    parse_arr fr n acc (join isep (map D xs) @ e @ CHR '']'' # r) = Some (PList (rev acc @ xs), r)"
proof (induction xs arbitrary: n acc)
  case (Cons x xs)
  then obtain m where n: "n = Suc m" by (cases n) auto
  from Cons.prems have x: "parses fr D x" by simp
  show ?case
  proof (cases xs)
    case Nil
    then show ?thesis using x Cons.prems(3) by (simp add: n parses_def ws_before e)
  next
    case (Cons y ys)
    let ?j = "join isep (map D xs)"
    have j: "join isep (map D (x # xs)) = D x @ CHR '','' # w @ ?j" using Cons sep by simp
    have len: "length (D x) \<le> m" "length ?j < m" using Cons.prems(3) unfolding j n by simp_all
    have s: "skip (w @ ?j @ e @ CHR '']'' # r) = ?j @ e @ CHR '']'' # r"
      using Cons.prems(2) Cons skip_join [of "map D xs"] by (simp add: skip_ws_append sep parses_def)
    have "parse_val fr m (D x @ CHR '','' # w @ ?j @ e @ CHR '']'' # r) = Some (x, CHR '','' # w @ ?j @ e @ CHR '']'' # r)"
      using x len by (simp add: parses_def)
    moreover have "parse_arr fr m (x # acc) (?j @ e @ CHR '']'' # r) = Some (PList (rev (x # acc) @ xs), r)"
      using Cons.IH [of m "x # acc"] Cons.prems(2) Cons len(2) by simp
    ultimately show ?thesis unfolding j by (simp add: n s is_ws_def)
  qed
qed simp

abbreviation item :: "bool \<Rightarrow> string \<Rightarrow> (pyval \<Rightarrow> string) \<Rightarrow> string \<times> pyval \<Rightarrow> string" where
  "item ea ksep D kv \<equiv> dumps_str ea (fst kv) @ ksep @ D (snd kv)"

lemma update_new: "k \<notin> fst ` set acc \<Longrightarrow> AList.update k v acc = acc @ [(k, v)]"
  by (induction acc) auto

lemma opener_dquote [simp]: "opener dquote"
  by (simp add: opener_def is_ws_def)

lemma parse_obj_dumps:
  assumes sep: "isep = CHR '','' # w" "list_all is_ws w" "ksep = CHR '':'' # u" "list_all is_ws u" and e: "list_all is_ws e"
  shows "\<lbrakk>kvs \<noteq> []; \<forall>kv \<in> set kvs. parses fr D (snd kv); wf_dict (acc @ kvs);
      length (join isep (map (item ea ksep D) kvs)) < n\<rbrakk> \<Longrightarrow>
    parse_obj fr n acc (join isep (map (item ea ksep D) kvs) @ e @ CHR ''}'' # r) = Some (PDict (acc @ kvs), r)"
proof (induction kvs arbitrary: n acc)
  case (Cons kv kvs)
  obtain k x where kv: "kv = (k, x)" by (cases kv)
  from Cons.prems obtain m where n: "n = Suc m" by (cases n) auto
  from Cons.prems have x: "parses fr D x" by (simp add: kv)
  have upd: "AList.update k x acc = acc @ [(k, x)]"
    using Cons.prems(3) by (auto simp: kv intro!: update_new)
  have sc: "scanstring (concat (map (esc_char ea) k) @ dquote # CHR '':'' # u @ t) = Some (k, CHR '':'' # u @ t)" for t
    by (rule scanstring_dumps)
  have su: "skip (u @ D x @ t) = D x @ t" for t
    using x by (simp add: skip_ws_append sep skip_opener parses_def)
  show ?case
  proof (cases kvs)
    case Nil
    have "parse_val fr m (D x @ e @ CHR ''}'' # r) = Some (x, e @ CHR ''}'' # r)"
      using x Cons.prems(4) Nil by (simp add: parses_def n kv ws_before e)
    then show ?thesis
      using Nil by (simp add: n kv sep dumps_str_def sc su upd is_ws_def [of "CHR '':''"] ws_before e)
  next
    case (Cons y ys)
    define J where "J = join isep (map (item ea ksep D) kvs)"
    have j: "join isep (map (item ea ksep D) (kv # kvs)) = item ea ksep D (k, x) @ CHR '','' # w @ J"
      using Cons sep by (simp add: kv J_def)
    have len: "length (D x) \<le> m" "length J < m" using Cons.prems(4) unfolding j n by simp_all
    have s: "skip (w @ J @ e @ CHR ''}'' # r) = J @ e @ CHR ''}'' # r"
      using Cons skip_join [of "map (item ea ksep D) kvs"]
      by (simp add: J_def skip_ws_append sep(2) dumps_str_def del: join.simps)
    have "parse_val fr m (D x @ CHR '','' # w @ J @ e @ CHR ''}'' # r) = Some (x, CHR '','' # w @ J @ e @ CHR ''}'' # r)"
      using x len by (simp add: parses_def)
    moreover have "parse_obj fr m (acc @ [(k, x)]) (J @ e @ CHR ''}'' # r) = Some (PDict ((acc @ [(k, x)]) @ kvs), r)"
      using Cons.IH [of "acc @ [(k, x)]" m] Cons.prems(2,3) Cons len(2) by (simp add: kv J_def)
    ultimately show ?thesis
      unfolding j by (simp add: n kv sep(3) dumps_str_def sc su upd is_ws_def s del: join.simps)
  qed
qed simp

lemma parses_atom:
  assumes "wf_json fr v" "\<And>xs. v \<noteq> PList xs" "\<And>kvs. v \<noteq> PDict kvs"
  shows "parses fr (dumps ea isep ksep) v"
proof -
  note h = dumps_hd [OF assms(1), of ea isep ksep]
  have "0 < n" if "length (dumps ea isep ksep v) \<le> n" for n using h that by (cases n) auto
  with h show ?thesis using parse_atom [OF assms(1) _ _ assms(2,3)] by (auto simp: parses_def)
qed

lemma parses_brackets:
  assumes D: "D (PList xs) = ''['' @ b @ join isep (map E xs) @ e @ '']''" and ws: "list_all is_ws b" "list_all is_ws e"
    and sep: "isep = CHR '','' # w" "list_all is_ws w" and xs: "xs \<noteq> []" "\<forall>x \<in> set xs. parses fr E x"
  shows "parses fr D (PList xs)"
proof -
  let ?j = "join isep (map E xs)"
  have "parse_val fr n (D (PList xs) @ r) = Some (PList xs, r)" if n: "length (D (PList xs)) \<le> n" for n r
  proof -
    have sk: "skip (b @ ?j @ e @ CHR '']'' # r) = ?j @ e @ CHR '']'' # r"
      using skip_join [of "map E xs"] xs ws by (cases xs) (auto simp: parses_def skip_ws_append simp del: join.simps)
    have "?j \<noteq> [] \<and> hd ?j \<noteq> CHR '']''"
      using xs by (cases xs; cases "tl xs") (auto simp: parses_def opener_def)
    then obtain d ds where d: "?j = d # ds" "d \<noteq> CHR '']''" by (cases ?j) auto
    obtain m where m: "n = Suc m" using n D by (cases n) auto
    have "parse_arr fr m [] (?j @ e @ CHR '']'' # r) = Some (PList xs, r)"
      using parse_arr_dumps [OF sep ws(2) xs, of m "[]" r] n m D by simp
    then show ?thesis using sk d by (simp add: m D)
  qed
  then show ?thesis by (simp add: parses_def D opener_def is_ws_def)
qed

lemma parses_braces:
  assumes D: "D (PDict kvs) = ''{'' @ b @ join isep (map (item ea ksep E) kvs) @ e @ ''}''"
    and ws: "list_all is_ws b" "list_all is_ws e"
    and sep: "isep = CHR '','' # w" "list_all is_ws w" "ksep = CHR '':'' # u" "list_all is_ws u"
    and kvs: "kvs \<noteq> []" "\<forall>kv \<in> set kvs. parses fr E (snd kv)" "wf_dict kvs"
  shows "parses fr D (PDict kvs)"
proof -
  let ?j = "join isep (map (item ea ksep E) kvs)"
  have "parse_val fr n (D (PDict kvs) @ r) = Some (PDict kvs, r)" if n: "length (D (PDict kvs)) \<le> n" for n r
  proof -
    have sk: "skip (b @ ?j @ e @ CHR ''}'' # r) = ?j @ e @ CHR ''}'' # r"
      using skip_join [of "map (item ea ksep E) kvs"] kvs(1) ws
      by (cases kvs) (auto simp: dumps_str_def skip_ws_append simp del: join.simps)
    have "?j \<noteq> [] \<and> hd ?j = dquote"
      using kvs(1) by (cases kvs rule: list.exhaust; cases "tl kvs") (auto simp: dumps_str_def)
    then obtain ds where d: "?j = dquote # ds" by (cases ?j) auto
    obtain m where m: "n = Suc m" using n D by (cases n) auto
    have "parse_obj fr m [] (?j @ e @ CHR ''}'' # r) = Some (PDict kvs, r)"
      using parse_obj_dumps [OF sep ws(2) kvs(1,2), of "[]" ea m r] n m D kvs(3) by simp
    then show ?thesis using sk d by (simp add: m D)
  qed
  then show ?thesis by (simp add: parses_def D opener_def is_ws_def)
qed

lemma parses_empty:
  "D (PList []) = ''[]'' \<Longrightarrow> parses fr D (PList [])" "D (PDict []) = ''{}'' \<Longrightarrow> parses fr D (PDict [])"
proof -
  show "D (PList []) = ''[]'' \<Longrightarrow> parses fr D (PList [])"
    by (auto simp: parses_def opener_def is_ws_def) (case_tac n; simp add: is_ws_def)
  show "D (PDict []) = ''{}'' \<Longrightarrow> parses fr D (PDict [])"
    by (auto simp: parses_def opener_def is_ws_def) (case_tac n; simp add: is_ws_def)
qed

lemma parses_dumps:
  assumes "seps isep ksep"
  shows "wf_json fr v \<Longrightarrow> parses fr (dumps ea isep ksep) v"
proof (induction v)
  case (PList xs)
  obtain w where w: "isep = CHR '','' # w" "list_all is_ws w" using assms by (auto simp: seps_def)
  show ?case
  proof (cases "xs = []")
    case False
    show ?thesis
      by (rule parses_brackets [where b = "[]" and e = "[]" and E = "dumps ea isep ksep", OF _ _ _ w False])
        (use PList in \<open>auto simp: list_all_iff\<close>)
  qed (simp add: parses_empty)
next
  case (PDict kvs)
  obtain w u where w: "isep = CHR '','' # w" "list_all is_ws w" "ksep = CHR '':'' # u" "list_all is_ws u"
    using assms by (auto simp: seps_def)
  show ?case
  proof (cases "kvs = []")
    case False
    show ?thesis
      by (rule parses_braces [where b = "[]" and e = "[]" and E = "dumps ea isep ksep", OF _ _ _ w False])
        (use PDict in \<open>auto simp: list_all_iff snds.simps\<close>)
  qed (simp add: parses_empty)
qed (rule parses_atom; simp)+

lemma line_start_ws: "list_all is_ws (line_start k)"
  by (simp add: line_start_def is_ws_def list_all_iff)

lemma parses_dumps_indent: "wf_json fr v \<Longrightarrow> parses fr (dumps_indent ea level) v"
proof (induction v arbitrary: level)
  case (PList xs)
  show ?case
  proof (cases "xs = []")
    case False
    show ?thesis
      by (rule parses_brackets [where b = "line_start (Suc level)" and e = "line_start level" and
            E = "dumps_indent ea (Suc level)" and isep = "'','' @ line_start (Suc level)" and w = "line_start (Suc level)"])
        (use PList False in \<open>auto simp: list_all_iff line_start_ws [unfolded list_all_iff]\<close>)
  qed (simp add: parses_empty)
next
  case (PDict kvs)
  show ?case
  proof (cases "kvs = []")
    case False
    show ?thesis
      by (rule parses_braces [where b = "line_start (Suc level)" and e = "line_start level" and ksep = "'': ''" and u = "'' ''" and
            E = "dumps_indent ea (Suc level)" and isep = "'','' @ line_start (Suc level)" and w = "line_start (Suc level)"])
        (use PDict False in \<open>auto simp: list_all_iff line_start_ws [unfolded list_all_iff] snds.simps is_ws_def [of "CHR '' ''"]\<close>)
  qed (simp add: parses_empty)
next
  case PNone
  then show ?case using parses_atom [of fr PNone ea "'', ''" "'': ''"] by (simp add: parses_def)
next
  case (PBool x)
  then show ?case using parses_atom [of fr "PBool x" ea "'', ''" "'': ''"] by (simp add: parses_def)
next
  case (PInt x)
  then show ?case using parses_atom [of fr "PInt x" ea "'', ''" "'': ''"] by (simp add: parses_def)
next
  case (PFloat x)
  then show ?case using parses_atom [of fr "PFloat x" ea "'', ''" "'': ''"] by (simp add: parses_def)
next
  case (PStr x)
  then show ?case using parses_atom [of fr "PStr x" ea "'', ''" "'': ''"] by (simp add: parses_def)
qed

lemma loads_parses:
  assumes p: "parses fr D v" and w: "list_all is_ws w"
  shows "loads fr (D v @ w) = Some v"
proof -
  have sk: "skip (D v @ w) = D v @ w" using p skip_opener [of "D v" w] by (simp add: parses_def)
  have "delim w" using w num_char_not_ws by (cases w) (auto simp: delim_def)
  then have "parse_val fr (Suc (length (D v @ w))) (D v @ w) = Some (v, w)"
    using p by (simp add: parses_def del: parse_val.simps)
  moreover have "skip w = []" using w by (simp add: list_all_iff)
  ultimately show ?thesis by (simp add: loads_def sk del: parse_val.simps)
qed

lemma loads_dumps_indent: "wf_json fr v \<Longrightarrow> loads fr (dumps_indent ea level v) = Some v"
  using loads_parses [OF parses_dumps_indent, of fr v "[]"] by simp

lemma loads_dumps_ws:
  assumes "wf_json frepr v" "seps isep ksep" "list_all is_ws w"
  shows "loads frepr (dumps ea isep ksep v @ w) = Some v"
  using loads_parses [OF parses_dumps [OF assms(2,1)] assms(3)] .

lemma loads_dumps:
  assumes "wf_json frepr v" "seps isep ksep"
  shows "loads frepr (dumps ea isep ksep v) = Some v"
  using loads_dumps_ws [OF assms, of "[]" ea] by simp

lemma wf_json_sort_val: "wf_json fr v \<Longrightarrow> wf_json fr (sort_val v)"
proof (induction v)
  case (PDict kvs)
  have "wf_dict (sort_key fst (map (\<lambda>kv. (fst kv, sort_val (snd kv))) kvs))"
    using PDict.prems by (simp add: distinct_map inj_on_def) (metis snd_conv surj_pair)
  then show ?case using PDict by (auto simp: list_all_iff snds.simps)
qed (auto simp: list_all_iff)

text \<open>Two values with the same canonical text are equal up to the order of dict keys.\<close>

lemma canonical_inj:
  assumes "wf_json fr u" "wf_json fr v" "canonical u = canonical v"
  shows "sort_val u = sort_val v"
  using loads_dumps [OF wf_json_sort_val [OF assms(1)] seps_compact]
    loads_dumps [OF wf_json_sort_val [OF assms(2)] seps_compact] assms(3)
  unfolding canonical_def by (metis option.inject)

end
