(* ===== verification/UText.thy ===== *)
theory UText
  imports PyPrelude
begin

text \<open>
  Unicode texts and bytes, for the tools that read and write files.  A Python \<open>str\<close> is here a list
  of code points (\<open>utext\<close>), \<open>bytes\<close> is a list of numbers below 256.  Modelled are the UTF-8 codec
  (\<open>encode\<close>, which refuses lone surrogates, and \<open>decode\<close> with \<open>errors="replace"\<close>), the universal
  newlines of text-mode reading, \<open>splitlines(keepends=True)\<close> and the searching operations
  \<open>find\<close>, \<open>count\<close> and \<open>replace\<close> of \<open>str\<close>.
\<close>

type_synonym utext = "nat list"
type_synonym bytes = "nat list"

text \<open>A literal of the source.\<close>

definition uni :: "string \<Rightarrow> utext" where
  "uni s = map of_char s"

lemma uni_simps [simp]: "uni [] = []" "uni (s @ t) = uni s @ uni t" "length (uni s) = length s"
  by (simp_all add: uni_def)

lemma uni_Cons: "uni (c # s) = of_char c # uni s"
  by (simp add: uni_def)

definition uspace :: "nat \<Rightarrow> bool" where
  "uspace n \<longleftrightarrow> (9 \<le> n \<and> n \<le> 13) \<or> (28 \<le> n \<and> n \<le> 32) \<or> (0x2000 \<le> n \<and> n \<le> 0x200A) \<or>
     n \<in> {0x85, 0xA0, 0x1680, 0x2028, 0x2029, 0x202F, 0x205F, 0x3000}"

definition ustrip :: "utext \<Rightarrow> utext" where
  "ustrip s = rdropWhile uspace (dropWhile uspace s)"

section \<open>UTF-8\<close>

definition valid_cp :: "nat \<Rightarrow> bool" where
  "valid_cp c \<longleftrightarrow> c < 1114112 \<and> \<not> (55296 \<le> c \<and> c \<le> 57343)"

definition cp_bytes :: "nat \<Rightarrow> bytes" where
  "cp_bytes c =
     (if c < 128 then [c]
      else if c < 2048 then [192 + c div 64, 128 + c mod 64]
      else if c < 65536 then [224 + c div 4096, 128 + c div 64 mod 64, 128 + c mod 64]
      else [240 + c div 262144, 128 + c div 4096 mod 64, 128 + c div 64 mod 64, 128 + c mod 64])"

text \<open>\<open>s.encode("utf-8")\<close>; \<open>None\<close> is the \<open>UnicodeEncodeError\<close> of a lone surrogate.\<close>

definition encodeText :: "utext \<Rightarrow> bytes option" where
  "encodeText s = (if list_all valid_cp s then Some (concat (map cp_bytes s)) else None)"

definition replacement_cp :: nat where
  "replacement_cp = 65533"

definition is_cont :: "nat \<Rightarrow> bool" where
  "is_cont b \<longleftrightarrow> 128 \<le> b \<and> b < 192"

text \<open>The second bytes allowed after a lead byte of three or four bytes.\<close>

definition second_ok :: "nat \<Rightarrow> nat \<Rightarrow> bool" where
  "second_ok b c \<longleftrightarrow> is_cont c \<and> (b = 224 \<longrightarrow> 160 \<le> c) \<and> (b = 237 \<longrightarrow> c < 160) \<and>
     (b = 240 \<longrightarrow> 144 \<le> c) \<and> (b = 244 \<longrightarrow> c < 144)"

text \<open>
  The code point at the head of the bytes and the number of continuation bytes it takes.  An
  invalid sequence is replaced as far as it could have been the start of a valid one.
\<close>

definition decode_head :: "nat \<Rightarrow> bytes \<Rightarrow> nat \<times> nat" where
  "decode_head b bs =
     (if b < 128 then (b, 0)
      else if 194 \<le> b \<and> b \<le> 223 then
        (case bs of c # _ \<Rightarrow> if is_cont c then ((b - 192) * 64 + (c - 128), 1) else (replacement_cp, 0)
         | [] \<Rightarrow> (replacement_cp, 0))
      else if 224 \<le> b \<and> b \<le> 239 then
        (case bs of
           c # cs \<Rightarrow>
             if second_ok b c then
               (case cs of
                  d # _ \<Rightarrow> if is_cont d then ((b - 224) * 4096 + (c - 128) * 64 + (d - 128), 2)
                            else (replacement_cp, 1)
                | [] \<Rightarrow> (replacement_cp, 1))
             else (replacement_cp, 0)
         | [] \<Rightarrow> (replacement_cp, 0))
      else if 240 \<le> b \<and> b \<le> 244 then
        (case bs of
           c # cs \<Rightarrow>
             if second_ok b c then
               (case cs of
                  d # ds \<Rightarrow>
                    if is_cont d then
                      (case ds of
                         e # _ \<Rightarrow> if is_cont e
                                   then ((b - 240) * 262144 + (c - 128) * 4096 + (d - 128) * 64 + (e - 128), 3)
                                   else (replacement_cp, 2)
                       | [] \<Rightarrow> (replacement_cp, 2))
                    else (replacement_cp, 1)
                | [] \<Rightarrow> (replacement_cp, 1))
             else (replacement_cp, 0)
         | [] \<Rightarrow> (replacement_cp, 0))
      else (replacement_cp, 0))"

text \<open>\<open>data.decode("utf-8", errors="replace")\<close>.\<close>

function decodeReplace :: "bytes \<Rightarrow> utext" where
  "decodeReplace [] = []"
| "decodeReplace (b # bs) = fst (decode_head b bs) # decodeReplace (drop (snd (decode_head b bs)) bs)"
  by pat_completeness auto
termination by (relation "measure length") auto

lemma base64_2: "(c::nat) = c div 4096 * 4096 + c div 64 mod 64 * 64 + c mod 64"
proof -
  have "c div 4096 = c div 64 div 64" by (simp add: div_mult2_eq [symmetric])
  then show ?thesis using div_mult_mod_eq [of c 64] div_mult_mod_eq [of "c div 64" 64] by linarith
qed

lemma base64_3: "(c::nat) = c div 262144 * 262144 + c div 4096 mod 64 * 4096 + c div 64 mod 64 * 64 + c mod 64"
proof -
  have "c div 262144 = c div 4096 div 64" by (simp add: div_mult2_eq [symmetric])
  then show ?thesis using div_mult_mod_eq [of "c div 4096" 64] base64_2 [of c] by linarith
qed

lemma decode_head_bytes:
  assumes "valid_cp c"
  shows "decode_head (hd (cp_bytes c)) (tl (cp_bytes c) @ bs) = (c, length (cp_bytes c) - 1)"
proof -
  consider "c < 128" | "128 \<le> c" "c < 2048" | "2048 \<le> c" "c < 65536" | "65536 \<le> c" by linarith
  then show ?thesis
  proof cases
    case 1 then show ?thesis by (simp add: cp_bytes_def decode_head_def)
  next
    case 2
    then have "2 \<le> c div 64" "c div 64 < 32" by auto
    then show ?thesis using 2 by (simp add: cp_bytes_def decode_head_def is_cont_def)
  next
    case 3
    define x y z where "x = c div 4096" and "y = c div 64 mod 64" and "z = c mod 64"
    have c: "c = x * 4096 + y * 64 + z" unfolding x_def y_def z_def by (rule base64_2)
    have b: "x < 16" "y < 64" "z < 64" using 3 by (auto simp: x_def y_def z_def)
    have "x = 0 \<longrightarrow> 32 \<le> y" using c 3 b by linarith
    moreover have "x = 13 \<longrightarrow> y < 32" using c b assms by (auto simp: valid_cp_def)
    ultimately show ?thesis using 3 b
      by (simp add: cp_bytes_def decode_head_def is_cont_def second_ok_def flip: x_def y_def z_def) (use c in linarith)
  next
    case 4
    define w x y z where "w = c div 262144" and "x = c div 4096 mod 64" and "y = c div 64 mod 64" and "z = c mod 64"
    have c: "c = w * 262144 + x * 4096 + y * 64 + z" unfolding w_def x_def y_def z_def by (rule base64_3)
    have cl: "c < 1114112" using assms by (simp add: valid_cp_def)
    have b: "x < 64" "y < 64" "z < 64" by (auto simp: x_def y_def z_def)
    have w: "w \<le> 4" using c cl by linarith
    have "w = 0 \<longrightarrow> 16 \<le> x" using c b 4 by linarith
    moreover have "w = 4 \<longrightarrow> x < 16" using c cl by linarith
    ultimately show ?thesis using 4 b w
      by (simp add: cp_bytes_def decode_head_def is_cont_def second_ok_def flip: w_def x_def y_def z_def) (use c in linarith)
  qed
qed

lemma cp_bytes_Cons: "cp_bytes c = hd (cp_bytes c) # tl (cp_bytes c)"
  by (simp add: cp_bytes_def)

lemma decodeReplace_cp:
  assumes "valid_cp c"
  shows "decodeReplace (cp_bytes c @ bs) = c # decodeReplace bs"
proof -
  obtain b cs where b: "cp_bytes c = b # cs" using cp_bytes_Cons [of c] by metis
  then show ?thesis using decode_head_bytes [OF assms, of bs] by simp
qed

lemma decodeReplace_encode:
  assumes "encodeText s = Some bs"
  shows "decodeReplace (bs @ rest) = s @ decodeReplace rest"
proof -
  have v: "list_all valid_cp s" and bs: "bs = concat (map cp_bytes s)"
    using assms by (auto simp: encodeText_def split: if_splits)
  show ?thesis unfolding bs using v by (induction s) (simp_all add: decodeReplace_cp)
qed

lemma utf8_decode_encode:
  assumes "encodeText s = Some bs"
  shows "decodeReplace bs = s"
  using decodeReplace_encode [OF assms, of "[]"] by simp

lemma encodeText_append:
  "encodeText (s @ t) = (case (encodeText s, encodeText t) of (Some a, Some b) \<Rightarrow> Some (a @ b) | _ \<Rightarrow> None)"
  by (simp add: encodeText_def)

text \<open>A decoded text has no surrogates, so it can be encoded again.\<close>

lemma is_cont_obtain:
  assumes "is_cont c" obtains k where "c = 128 + k" "k < 64"
  using assms that [of "c - 128"] by (auto simp: is_cont_def)

lemma decode_head_cases:
  "decode_head b bs = (b, 0) \<and> b < 128 \<or> fst (decode_head b bs) = replacement_cp \<or>
   (\<exists>c cs. bs = c # cs \<and> is_cont c \<and> 194 \<le> b \<and> b \<le> 223 \<and> decode_head b bs = ((b - 192) * 64 + (c - 128), 1)) \<or>
   (\<exists>c d cs. bs = c # d # cs \<and> second_ok b c \<and> is_cont d \<and> 224 \<le> b \<and> b \<le> 239 \<and>
      decode_head b bs = ((b - 224) * 4096 + (c - 128) * 64 + (d - 128), 2)) \<or>
   (\<exists>c d e cs. bs = c # d # e # cs \<and> second_ok b c \<and> is_cont d \<and> is_cont e \<and> 240 \<le> b \<and> b \<le> 244 \<and>
      decode_head b bs = ((b - 240) * 262144 + (c - 128) * 4096 + (d - 128) * 64 + (e - 128), 3))"
  unfolding decode_head_def by (simp split: list.splits)

lemma decode_head_valid: "valid_cp (fst (decode_head b bs))"
  using decode_head_cases [of b bs]
proof (elim disjE exE conjE)
  fix c cs
  assume a: "is_cont c" "194 \<le> b" "b \<le> 223" "decode_head b bs = ((b - 192) * 64 + (c - 128), 1)"
  then have "(b - 192) * 64 + (c - 128) < 2048" by (auto simp: is_cont_def)
  then show ?thesis using a by (simp add: valid_cp_def)
next
  fix c d cs
  assume a: "second_ok b c" "is_cont d" "224 \<le> b" "b \<le> 239"
    "decode_head b bs = ((b - 224) * 4096 + (c - 128) * 64 + (d - 128), 2)"
  define x where "x = b - 224"
  have x: "b = 224 + x" "x < 16" using a(3,4) by (auto simp: x_def)
  obtain y where y: "c = 128 + y" "y < 64" using a(1) is_cont_obtain by (auto simp: second_ok_def)
  obtain z where z: "d = 128 + z" "z < 64" using a(2) is_cont_obtain by auto
  have "x = 13 \<longrightarrow> y < 32" using a(1) x y by (auto simp: second_ok_def)
  moreover have "x < 13 \<or> x = 13 \<or> 13 < x" by linarith
  ultimately have "x * 4096 + y * 64 + z < 65536 \<and> \<not> (55296 \<le> x * 4096 + y * 64 + z \<and> x * 4096 + y * 64 + z \<le> 57343)"
    using x y z by (elim disjE) auto
  then show ?thesis using a(5) x y z by (simp add: valid_cp_def)
next
  fix c d e cs
  assume a: "second_ok b c" "is_cont d" "is_cont e" "240 \<le> b" "b \<le> 244"
    "decode_head b bs = ((b - 240) * 262144 + (c - 128) * 4096 + (d - 128) * 64 + (e - 128), 3)"
  define w where "w = b - 240"
  have w: "b = 240 + w" "w \<le> 4" using a(4,5) by (auto simp: w_def)
  obtain x where x: "c = 128 + x" "x < 64" using a(1) is_cont_obtain by (auto simp: second_ok_def)
  obtain y where y: "d = 128 + y" "y < 64" using a(2) is_cont_obtain by auto
  obtain z where z: "e = 128 + z" "z < 64" using a(3) is_cont_obtain by auto
  have "w = 0 \<longrightarrow> 16 \<le> x" "w = 4 \<longrightarrow> x < 16" using a(1) w x by (auto simp: second_ok_def)
  then have "65536 \<le> w * 262144 + x * 4096 + y * 64 + z \<and> w * 262144 + x * 4096 + y * 64 + z < 1114112"
    using w x y z by linarith
  then show ?thesis using a(6) w x y z by (simp add: valid_cp_def)
qed (simp_all add: valid_cp_def replacement_cp_def)

lemma decodeReplace_valid: "list_all valid_cp (decodeReplace bs)"
  by (induction bs rule: decodeReplace.induct) (simp_all add: decode_head_valid)

section \<open>Lines\<close>

text \<open>Text-mode reading: \<open>CR LF\<close> and \<open>CR\<close> become \<open>LF\<close>.\<close>

fun newlines_from :: "bool \<Rightarrow> utext \<Rightarrow> utext" where
  "newlines_from cr [] = []"
| "newlines_from cr (x # xs) =
     (if x = 13 then 10 # newlines_from True xs
      else if x = 10 \<and> cr then newlines_from False xs
      else x # newlines_from False xs)"

definition universal_newlines :: "utext \<Rightarrow> utext" where
  "universal_newlines s = newlines_from False s"

definition is_usep :: "nat \<Rightarrow> bool" where
  "is_usep c \<longleftrightarrow> c \<in> {10, 11, 12, 13, 28, 29, 30, 133, 8232, 8233}"

fun keeplines_acc :: "utext \<Rightarrow> utext \<Rightarrow> utext list" where
  "keeplines_acc acc [] = (if acc = [] then [] else [rev acc])"
| "keeplines_acc acc (x # xs) =
     (if x = 13 then
        (case xs of
           y # ys \<Rightarrow> if y = 10 then rev (y # x # acc) # keeplines_acc [] ys
                      else rev (x # acc) # keeplines_acc [] xs
         | [] \<Rightarrow> [rev (x # acc)])
      else if is_usep x then rev (x # acc) # keeplines_acc [] xs
      else keeplines_acc (x # acc) xs)"

text \<open>\<open>s.splitlines(keepends=True)\<close>.\<close>

definition keeplines :: "utext \<Rightarrow> utext list" where
  "keeplines s = keeplines_acc [] s"

lemma concat_keeplines_acc: "concat (keeplines_acc acc s) = rev acc @ s"
  by (induction acc s rule: keeplines_acc.induct) (auto split: list.splits)

lemma concat_keeplines [simp]: "concat (keeplines s) = s"
  by (simp add: keeplines_def concat_keeplines_acc)

lemma keeplines_Nil [simp]: "keeplines [] = []"
  by (simp add: keeplines_def)

lemma universal_newlines_id: "13 \<notin> set s \<Longrightarrow> universal_newlines s = s"
  unfolding universal_newlines_def by (induction s) auto

lemma newlines_from_no_cr: "13 \<notin> set (newlines_from cr s)"
  by (induction cr s rule: newlines_from.induct) auto

lemma newlines_from_set: "set (newlines_from cr s) \<subseteq> insert 10 (set s)"
  by (induction cr s rule: newlines_from.induct) auto

lemma universal_newlines_no_cr: "13 \<notin> set (universal_newlines s)"
  unfolding universal_newlines_def by (rule newlines_from_no_cr)

lemma universal_newlines_valid: "list_all valid_cp s \<Longrightarrow> list_all valid_cp (universal_newlines s)"
  using newlines_from_set [of False s] by (auto simp: universal_newlines_def list_all_iff valid_cp_def)

section \<open>Searching\<close>

text \<open>\<open>s.find(p)\<close>.\<close>

fun find_sub :: "'a list \<Rightarrow> 'a list \<Rightarrow> nat option" where
  "find_sub p [] = (if p = [] then Some 0 else None)"
| "find_sub p (x # xs) = (if prefix p (x # xs) then Some 0 else map_option Suc (find_sub p xs))"

lemma find_sub_SomeD:
  "find_sub p s = Some i \<Longrightarrow> s = take i s @ p @ drop (i + length p) s \<and> i + length p \<le> length s"
proof (induction p s arbitrary: i rule: find_sub.induct)
  case (2 p x xs)
  then show ?case
  proof (cases "prefix p (x # xs)")
    case True
    then have "i = 0" using 2 by simp
    moreover obtain zs where "x # xs = p @ zs" using True by (auto simp: prefix_def)
    moreover have "length p \<le> length (x # xs)" using True by (rule prefix_length_le)
    ultimately show ?thesis by simp
  next
    case False
    then obtain j where "i = Suc j" "find_sub p xs = Some j" using 2 by auto
    then show ?thesis using 2 False by simp
  qed
qed (auto split: if_splits)

lemma find_sub_None: "find_sub p s = None \<longleftrightarrow> \<not> sublist p s"
  by (induction s) (simp_all add: sublist_Cons_right)

lemma find_sub_least:
  "find_sub p s = Some i \<Longrightarrow> prefix p (drop j s) \<Longrightarrow> i \<le> j"
proof (induction p s arbitrary: i j rule: find_sub.induct)
  case (2 p x xs)
  then show ?case by (cases j) (auto split: if_splits)
qed (auto split: if_splits)

lemma find_sub_shorter:
  "find_sub p s = Some i \<Longrightarrow> p \<noteq> [] \<Longrightarrow> length (drop (i + length p) s) < length s"
  using find_sub_SomeD [of p s i] by (cases p; cases s) auto

text \<open>\<open>s.split(p)\<close> for a non-empty \<open>p\<close>: the texts between the successive matches.\<close>

function split_sub :: "'a list \<Rightarrow> 'a list \<Rightarrow> 'a list list" where
  "split_sub p s =
     (if p = [] then [s]
      else case find_sub p s of None \<Rightarrow> [s]
           | Some i \<Rightarrow> take i s # split_sub p (drop (i + length p) s))"
  by pat_completeness auto
termination
  by (relation "measure (\<lambda>(p, s). length s)") (auto dest: find_sub_shorter simp: )

text \<open>\<open>s.count(p)\<close>: the matches found from left to right, without overlap.\<close>

function count_sub :: "'a list \<Rightarrow> 'a list \<Rightarrow> nat" where
  "count_sub p s =
     (if p = [] then Suc (length s)
      else case find_sub p s of None \<Rightarrow> 0 | Some i \<Rightarrow> Suc (count_sub p (drop (i + length p) s)))"
  by pat_completeness auto
termination
  by (relation "measure (\<lambda>(p, s). length s)") (auto dest: find_sub_shorter)

text \<open>\<open>s.replace(p, q, n)\<close> for a non-empty \<open>p\<close>; \<open>None\<close> is the count -1 (no limit).\<close>

function replace_sub :: "'a list \<Rightarrow> 'a list \<Rightarrow> nat option \<Rightarrow> 'a list \<Rightarrow> 'a list" where
  "replace_sub p q n s =
     (if p = [] \<or> n = Some 0 then s
      else case find_sub p s of None \<Rightarrow> s
           | Some i \<Rightarrow> take i s @ q @ replace_sub p q (map_option (\<lambda>k. k - 1) n) (drop (i + length p) s))"
  by pat_completeness auto
termination
  by (relation "measure (\<lambda>(p, q, n, s). length s)") (auto dest: find_sub_shorter)

declare split_sub.simps [simp del] count_sub.simps [simp del] replace_sub.simps [simp del]

fun intercalate :: "'a list \<Rightarrow> 'a list list \<Rightarrow> 'a list" where
  "intercalate q [] = []"
| "intercalate q [x] = x"
| "intercalate q (x # y # zs) = x @ q @ intercalate q (y # zs)"

lemma split_sub_nonempty [simp]: "split_sub p s \<noteq> []"
  by (subst split_sub.simps) (simp split: option.splits)

lemma intercalate_Cons [simp]: "xs \<noteq> [] \<Longrightarrow> intercalate q (x # xs) = x @ q @ intercalate q xs"
  by (cases xs) auto

text \<open>Splitting, counting and replacing agree: the matches are replaced, everything between them stays.\<close>

lemma intercalate_split: "intercalate p (split_sub p s) = s"
proof (induction p s rule: split_sub.induct)
  case (1 p s)
  show ?case
  proof (cases "find_sub p s")
    case None then show ?thesis by (subst split_sub.simps) simp
  next
    case (Some i)
    then show ?thesis
      using 1 find_sub_SomeD [OF Some] by (subst split_sub.simps) auto
  qed
qed

lemma replace_all_split: "p \<noteq> [] \<Longrightarrow> replace_sub p q None s = intercalate q (split_sub p s)"
proof (induction p s rule: split_sub.induct)
  case (1 p s)
  show ?case
    by (subst split_sub.simps, subst replace_sub.simps) (use 1 in \<open>auto split: option.splits\<close>)
qed

lemma length_split_sub: "p \<noteq> [] \<Longrightarrow> length (split_sub p s) = Suc (count_sub p s)"
proof (induction p s rule: split_sub.induct)
  case (1 p s)
  show ?case
    by (subst split_sub.simps, subst count_sub.simps) (use 1 in \<open>auto split: option.splits\<close>)
qed

lemma count_zero: "p \<noteq> [] \<Longrightarrow> count_sub p s = 0 \<longleftrightarrow> \<not> sublist p s"
  by (subst count_sub.simps) (auto simp: find_sub_None [symmetric] split: option.splits)

lemma replace_one:
  assumes "p \<noteq> []" "find_sub p s = Some i"
  shows "replace_sub p q (Some 1) s = take i s @ q @ drop (i + length p) s"
  using assms by (subst replace_sub.simps, subst replace_sub.simps) simp

lemma count_one:
  assumes "p \<noteq> []" "count_sub p s = 1"
  obtains i where "find_sub p s = Some i" "\<not> sublist p (drop (i + length p) s)"
proof (cases "find_sub p s")
  case None
  then show ?thesis using assms by (subst (asm) (1) count_sub.simps) (simp add: count_sub.simps)
next
  case (Some i)
  then have "count_sub p (drop (i + length p) s) = 0"
    using assms by (subst (asm) count_sub.simps) simp
  then show ?thesis using that Some assms(1) count_zero by blast
qed

section \<open>Case\<close>

text \<open>Lower case of the ASCII letters.\<close>

definition ulower :: "utext \<Rightarrow> utext" where
  "ulower s = map (\<lambda>c. if 65 \<le> c \<and> c \<le> 90 then c + 32 else c) s"

end
