(* ===== verification/Injection.thy ===== *)
theory Injection
  imports Json UText
begin

text \<open>
  Prompt-injection defences: \<open>agent/safety/injection_detector.py\<close> (regular expressions over the
  user's text) and \<open>agent/safety/canary.py\<close> (the canary token).

  The detector's patterns hold Chinese text, so here a text is a list of code points.  Random numbers
  and the file the canary is kept in are arguments.
\<close>

section \<open>Pattern detector\<close>

text \<open>A lower-case ASCII letter under \<open>re.IGNORECASE\<close>, with the code points that fold to it.\<close>

definition icase :: "nat \<Rightarrow> nat \<Rightarrow> bool" where
  "icase n x \<longleftrightarrow> x = n \<or> (97 \<le> n \<and> n \<le> 122 \<and> x = n - 32) \<or>
     (n = 105 \<and> x \<in> {0x130, 0x131}) \<or> (n = 107 \<and> x = 0x212A) \<or> (n = 115 \<and> x = 0x17F)"

fun ilit :: "string \<Rightarrow> nat rx" where
  "ilit [] = Eps"
| "ilit (c # cs) = Seq (Cls (icase (of_char c))) (ilit cs)"

definition usp :: "nat rx" where
  "usp = plus (Cls uspace)"

definition usps :: "nat rx" where
  "usps = Star (Cls uspace)"

definition uany04 :: "nat rx" where
  "uany04 = (let a = Cls (\<lambda>n. n \<noteq> 10) in opt (Seq a (opt (Seq a (opt (Seq a (opt a)))))))"

definition ENGLISH_PATTERNS :: "nat rx list" where
  "ENGLISH_PATTERNS = [
    seqs [ilit ''ignore'', usp, opt (seqs [ilit ''all'', usp]), ilit ''previous'', usp, ilit ''instructions''],
    seqs [ilit ''disregard'', usp, opt (seqs [ilit ''all'', usp]), ilit ''previous''],
    seqs [ilit ''you'', usp, ilit ''are'', usp, ilit ''now'', usp, ilit ''a''],
    seqs [ilit ''new'', usp, ilit ''instruction'', opt (ilit ''s''), usps, ilit '':''],
    seqs [ilit ''system'', usps, ilit '':'', usps, ilit ''you'', usp, ilit ''are''],
    seqs [ilit ''forget'', usp, ilit ''everything'']]"

definition CHINESE_PATTERNS :: "nat rx list" where
  "CHINESE_PATTERNS = [
    seqs [lit [0x5ffd, 0x7565], alts (map lit [[0x4e4b, 0x524d], [0x4e0a, 0x9762], [0x4ee5, 0x4e0a]]), uany04,
          alts (map lit [[0x6307, 0x4ee4], [0x89c4, 0x5219], [0x63d0, 0x793a], [0x7ea6, 0x675f]])],
    seqs [lit [0x4f60, 0x73b0, 0x5728, 0x662f], Cls (\<lambda>n. n = 0x4e00 \<or> n = 0x4e2a)],
    seqs [lit [0x65b0, 0x7684, 0x6307, 0x4ee4], usps, Cls (\<lambda>n. n = 0xff1a \<or> n = 58)],
    seqs [lit [0x5173, 0x95ed, 0x5b89, 0x5168],
          alts (map lit [[0x68c0, 0x67e5], [0x6821, 0x9a8c], [0x62a4, 0x680f]])],
    seqs [lit [0x4e0d, 0x8981], alts (map lit [[0x8bb0, 0x5f55], [0x5199]]), lit [0x65e5, 0x5fd7]],
    lit [0x5047, 0x88c5, 0x4f60, 0x662f],
    seqs [lit [0x4f5c, 0x4e3a], usps, lit (map of_char ''root'')]]"

definition INJECTION_PATTERNS :: "nat rx list" where
  "INJECTION_PATTERNS = ENGLISH_PATTERNS @ CHINESE_PATTERNS"

definition checkPromptInjection :: "nat list \<Rightarrow> bool" where
  "checkPromptInjection text \<longleftrightarrow> list_ex (\<lambda>pat. search pat text) INJECTION_PATTERNS"

section \<open>Canary token\<close>

text \<open>
  The state file: what \<open>json.load\<close> reads from it (\<open>None\<close> when it cannot be opened or parsed), its
  permission bits, and whether this process may write it and change its mode.
\<close>

record CanaryFile =
  cf_json :: "pyval option"
  cf_mode :: nat
  cf_writable :: bool
  cf_chmod_ok :: bool

record CanaryManager =
  cm_enabled :: bool
  cm_token :: "string option"

definition TOKEN_PREFIX :: string where
  "TOKEN_PREFIX = ''NDLM-CANARY''"

definition canary_init :: "bool \<Rightarrow> CanaryManager" where
  "canary_init enabled = \<lparr>cm_enabled = enabled, cm_token = None\<rparr>"

text \<open>\<open>_generate\<close>, with the value of \<open>secrets.token_hex(16)\<close>.\<close>

definition canary_generate :: "string \<Rightarrow> string" where
  "canary_generate hex = TOKEN_PREFIX @ ''-'' @ hex"

definition canary_chmod :: "CanaryFile \<Rightarrow> CanaryFile" where
  "canary_chmod f = (if cf_chmod_ok f then f\<lparr>cf_mode := 384\<rparr> else f)"

text \<open>\<open>_load\<close>: \<open>Inl\<close> is the \<open>AttributeError\<close> of \<open>data.get\<close> when the file holds no object.\<close>

definition canary_load :: "CanaryFile \<Rightarrow> string + string option" where
  "canary_load f =
     (case cf_json f of
        None \<Rightarrow> Inr None
      | Some (PDict d) \<Rightarrow>
          (let tok = strip (py_str (dget_or d ''token'' (PStr [])))
           in Inr (if startswith tok TOKEN_PREFIX then Some tok else None))
      | Some _ \<Rightarrow> Inl ''AttributeError'')"

definition canary_persist :: "string \<Rightarrow> CanaryManager \<Rightarrow> CanaryFile \<Rightarrow> CanaryFile" where
  "canary_persist now m f =
     (if cf_writable f then
        canary_chmod (f\<lparr>cf_json := Some (PDict
          [(''token'', case cm_token m of Some t \<Rightarrow> PStr t | None \<Rightarrow> PNone), (''rotated_at'', PFloat now)])\<rparr>)
      else f)"

definition canary_token ::
  "string \<Rightarrow> string \<Rightarrow> CanaryManager \<Rightarrow> CanaryFile \<Rightarrow> (string + string option) \<times> CanaryManager \<times> CanaryFile" where
  "canary_token hex now m f =
     (if \<not> cm_enabled m then (Inr None, m, f)
      else case cm_token m of
        Some t \<Rightarrow> (Inr (Some t), m, f)
      | None \<Rightarrow>
          (case canary_load f of
             Inl e \<Rightarrow> (Inl e, m, f)
           | Inr (Some t) \<Rightarrow>
               if t = [] then (let m' = m\<lparr>cm_token := Some (canary_generate hex)\<rparr>
                               in (Inr (cm_token m'), m', canary_persist now m' f))
               else (Inr (Some t), m\<lparr>cm_token := Some t\<rparr>, canary_chmod f)
           | Inr None \<Rightarrow>
               (let m' = m\<lparr>cm_token := Some (canary_generate hex)\<rparr>
                in (Inr (cm_token m'), m', canary_persist now m' f))))"

definition canary_rotate ::
  "string \<Rightarrow> string \<Rightarrow> CanaryManager \<Rightarrow> CanaryFile \<Rightarrow> string option \<times> CanaryManager \<times> CanaryFile" where
  "canary_rotate hex now m f =
     (if \<not> cm_enabled m then (None, m, f)
      else (let m' = m\<lparr>cm_token := Some (canary_generate hex)\<rparr>
            in (cm_token m', m', canary_persist now m' f)))"

definition leakedIn ::
  "string \<Rightarrow> string \<Rightarrow> string \<Rightarrow> CanaryManager \<Rightarrow> CanaryFile \<Rightarrow> (string + bool) \<times> CanaryManager \<times> CanaryFile" where
  "leakedIn hex now text m f =
     (case canary_token hex now m f of
        (Inl e, s) \<Rightarrow> (Inl e, s)
      | (Inr None, s) \<Rightarrow> (Inr False, s)
      | (Inr (Some tok), s) \<Rightarrow> (Inr (tok \<noteq> [] \<and> contains text tok), s))"

section \<open>Lemmas and properties of the detector and the canary\<close>

lemma anchor_free_ilit [simp]: "anchor_free (ilit s)"
  by (induction s) auto

lemma injection_patterns_anchor_free: "pat \<in> set INJECTION_PATTERNS \<Longrightarrow> anchor_free pat"
  by (auto simp: INJECTION_PATTERNS_def ENGLISH_PATTERNS_def CHINESE_PATTERNS_def usp_def usps_def uany04_def
      rx_defs Let_def)

text \<open>
  The detector reports a text exactly when some part of it belongs to the language of one of
  the patterns: the backtracking search is complete, and no text before or after an injection
  phrase can hide it.
\<close>

lemma injection_detected_iff:
  "checkPromptInjection text \<longleftrightarrow>
     (\<exists>pat before phrase after. pat \<in> set INJECTION_PATTERNS \<and> phrase \<in> lang pat \<and>
        text = before @ phrase @ after)"
proof -
  have "search pat text \<longleftrightarrow> (\<exists>before phrase after. text = before @ phrase @ after \<and> phrase \<in> lang pat)"
    if "pat \<in> set INJECTION_PATTERNS" for pat
    by (rule search_lang [OF injection_patterns_anchor_free [OF that]])
  then show ?thesis unfolding checkPromptInjection_def list_ex_iff by blast
qed

lemma rdropWhile_id: "xs = [] \<or> \<not> P (last xs) \<Longrightarrow> rdropWhile P xs = xs"
  by (cases xs rule: rev_cases) (simp_all add: rdropWhile_def)

lemma strip_id: "s = [] \<or> \<not> is_space (hd s) \<and> \<not> is_space (last s) \<Longrightarrow> strip s = s"
  by (cases s) (auto simp: strip_def rdropWhile_id)

lemma strip_canary_generate:
  assumes "list_all (\<lambda>c. \<not> is_space c) hex"
  shows "strip (canary_generate hex) = canary_generate hex"
proof -
  have "\<not> is_space (last (canary_generate hex))"
    using assms by (cases "hex = []")
      (auto simp: canary_generate_def TOKEN_PREFIX_def is_space_def list_all_iff)
  moreover have "\<not> is_space (hd (canary_generate hex))"
    by (simp add: canary_generate_def TOKEN_PREFIX_def is_space_def)
  ultimately show ?thesis by (simp add: strip_id)
qed

lemma canary_load_persist:
  assumes "cf_writable f" "cm_token m = Some (canary_generate hex)" "list_all (\<lambda>c. \<not> is_space c) hex"
  shows "canary_load (canary_persist now m f) = Inr (Some (canary_generate hex))"
proof -
  have "startswith (canary_generate hex) TOKEN_PREFIX"
    by (simp add: canary_generate_def)
  then show ?thesis
    using assms by (simp add: canary_load_def canary_persist_def canary_chmod_def dget_or_def py_str_def
        strip_canary_generate)
qed

lemma canary_load_chmod [simp]: "canary_load (canary_chmod f) = canary_load f"
  by (simp add: canary_load_def canary_chmod_def)

lemma canary_load_nonempty: "canary_load f = Inr (Some t) \<Longrightarrow> t \<noteq> []"
  by (auto simp: canary_load_def Let_def TOKEN_PREFIX_def startswith_def split: option.splits pyval.splits if_splits)

lemma canary_restart:
  assumes "cf_writable f" "list_all (\<lambda>c. \<not> is_space c) hex"
    and "canary_token hex now (canary_init True) f = (Inr (Some t), m', f')"
  shows "cm_token m' = Some t \<and> cm_enabled m' \<and> t \<noteq> [] \<and> canary_load f' = Inr (Some t)"
  using assms(3) canary_load_persist [OF assms(1) _ assms(2)]
  by (auto simp: canary_token_def canary_init_def Let_def canary_generate_def TOKEN_PREFIX_def canary_load_nonempty
      split: sum.splits option.splits if_splits)

text \<open>
  Once a manager has a token and could save it, the running manager and every manager started
  later on the same file report a reply as leaking exactly when it contains that token, whatever
  random value they would have drawn.
\<close>

theorem canary_detects_leaks:
  assumes "cf_writable f" "list_all (\<lambda>c. \<not> is_space c) hex"
    and "canary_token hex now (canary_init True) f = (Inr (Some t), m', f')"
  shows "fst (leakedIn hex2 now2 text m' f') = Inr (contains text t) \<and>
         fst (leakedIn hex2 now2 text (canary_init True) f') = Inr (contains text t)"
  using canary_restart [OF assms]
  by (simp add: leakedIn_def canary_token_def canary_init_def)

definition empty_canary_file :: CanaryFile where
  "empty_canary_file = \<lparr>cf_json = None, cf_mode = 420, cf_writable = True, cf_chmod_ok = True\<rparr>"

theorem canary_detects_leaks_witness:
  "fst (leakedIn ''ff'' ''2.0'' ''the token is NDLM-CANARY-a1 ok'' (canary_init True)
     (snd (snd (canary_token ''a1'' ''1.0'' (canary_init True) empty_canary_file)))) = Inr True"
proof -
  let ?r = "canary_token ''a1'' ''1.0'' (canary_init True) empty_canary_file"
  have t: "fst ?r = Inr (Some ''NDLM-CANARY-a1'')"
    by (simp add: canary_token_def canary_init_def empty_canary_file_def canary_load_def canary_generate_def
        TOKEN_PREFIX_def Let_def)
  then have "?r = (Inr (Some ''NDLM-CANARY-a1''), fst (snd ?r), snd (snd ?r))" by (metis prod.collapse)
  from canary_detects_leaks [OF _ _ this, of "''ff''" "''2.0''" "''the token is NDLM-CANARY-a1 ok''"]
  have "fst (leakedIn ''ff'' ''2.0'' ''the token is NDLM-CANARY-a1 ok'' (canary_init True) (snd (snd ?r))) =
        Inr (contains ''the token is NDLM-CANARY-a1 ok'' ''NDLM-CANARY-a1'')"
    by (simp add: empty_canary_file_def is_space_def)
  moreover have "contains ''the token is NDLM-CANARY-a1 ok'' ''NDLM-CANARY-a1''" by code_simp
  ultimately show ?thesis by simp
qed

end
