(* ===== verification/History.thy ===== *)
theory History
  imports Injection
begin

text \<open>
  The conversation history of the agent, \<open>agent/context_mgmt/compressor.py\<close>: dropping assistant
  messages whose tool calls were never answered, and replacing old messages by a summary when the
  token budget is exceeded.

  Conversation texts hold Chinese, so they are lists of code points (\<open>utext\<close>); \<open>uni\<close> lifts a
  \<open>string\<close>.  A message has a role, a content (\<open>None\<close> for the JSON null), the tool calls of an
  assistant message (\<open>[]\<close> when absent) and the call a tool message answers (\<open>[]\<close> when absent).
\<close>

section \<open>Messages\<close>

text \<open>An entry of \<open>tool_calls\<close>: id, function name and the JSON text of the arguments.\<close>

record tool_block =
  tb_id :: string
  tb_name :: string
  tb_arguments :: string

record message =
  mg_role :: string
  mg_content :: "utext option"
  mg_tool_calls :: "tool_block list"
  mg_tool_call_id :: string

definition calls_tools :: "message \<Rightarrow> bool" where
  "calls_tools m \<longleftrightarrow> mg_role m = ''assistant'' \<and> mg_tool_calls m \<noteq> []"

text \<open>\<open>{tc.get("id", "") for tc in msg["tool_calls"] if tc.get("id")}\<close>.\<close>

definition call_ids :: "message \<Rightarrow> string set" where
  "call_ids m = set (filter (\<lambda>i. i \<noteq> []) (map tb_id (mg_tool_calls m)))"

section \<open>Orphaned tool calls\<close>

record orphan_state =
  os_result :: "message list"
  os_pending :: bool
  os_tc_ids :: "string set"
  os_responded :: "string set"
  os_index :: "nat option"

definition drop_chain :: "orphan_state \<Rightarrow> message list" where
  "drop_chain s = (case os_index s of Some i \<Rightarrow> take i (os_result s) | None \<Rightarrow> os_result s)"

text \<open>The body of the loop.  The last two branches of the source do the same work.\<close>

definition orphan_step :: "orphan_state \<Rightarrow> message \<Rightarrow> orphan_state" where
  "orphan_step s msg =
     (if calls_tools msg then
        s\<lparr>os_pending := True, os_result := os_result s @ [msg], os_index := Some (length (os_result s)),
          os_tc_ids := call_ids msg, os_responded := {}\<rparr>
      else if mg_role msg = ''tool'' \<and> os_pending s then
        (let responded = (if mg_tool_call_id msg \<noteq> [] then insert (mg_tool_call_id msg) (os_responded s)
                          else os_responded s);
             s' = s\<lparr>os_responded := responded, os_result := os_result s @ [msg]\<rparr>
         in if os_tc_ids s \<noteq> {} \<and> os_tc_ids s = responded then s'\<lparr>os_pending := False, os_index := None\<rparr> else s')
      else if os_pending s then
        s\<lparr>os_result := drop_chain s @ [msg], os_index := None, os_pending := False, os_tc_ids := {}, os_responded := {}\<rparr>
      else s\<lparr>os_result := os_result s @ [msg]\<rparr>)"

definition orphan_result :: "orphan_state \<Rightarrow> message list" where
  "orphan_result s = (if os_pending s then drop_chain s else os_result s)"

definition closeOrphanToolCalls :: "message list \<Rightarrow> message list" where
  "closeOrphanToolCalls messages =
     orphan_result (foldl orphan_step
       \<lparr>os_result = [], os_pending = False, os_tc_ids = {}, os_responded = {}, os_index = None\<rparr> messages)"

section \<open>Compression\<close>

text \<open>Messages in groups: an assistant message with tool calls and the tool messages after it, or one message.\<close>

lemma length_dropWhile_Suc [termination_simp]: "length (dropWhile P xs) < Suc (length xs)"
  using length_dropWhile_le [of P xs] by simp

fun groupMessages :: "message list \<Rightarrow> message list list" where
  "groupMessages [] = []"
| "groupMessages (current # rest) =
     (if calls_tools current
      then (current # takeWhile (\<lambda>m. mg_role m = ''tool'') rest) #
           groupMessages (dropWhile (\<lambda>m. mg_role m = ''tool'') rest)
      else [current] # groupMessages rest)"

text \<open>\<open>str(m.get("content", ""))\<close>.\<close>

definition content_text :: "message \<Rightarrow> utext" where
  "content_text m = (case mg_content m of Some t \<Rightarrow> t | None \<Rightarrow> uni ''None'')"

fun ujoin :: "utext \<Rightarrow> utext list \<Rightarrow> utext" where
  "ujoin sep [] = []"
| "ujoin sep [x] = x"
| "ujoin sep (x # y # zs) = x @ sep @ ujoin sep (y # zs)"

text \<open>
  The Chinese words of the summary: "conversation summary", "none", "used", "tools", "the user asked".
\<close>

definition SUMMARY_TAG :: utext where
  "SUMMARY_TAG = [91, 23545, 35805, 21382, 21490, 25688, 35201, 93, 32]"

definition buildSummary :: "message list \<Rightarrow> utext" where
  "buildSummary messages =
     (let topics = List.map_filter (\<lambda>m. let content = take 80 (content_text m) in
                     if mg_role m = ''user'' \<and> content \<noteq> [] then Some (take 50 content) else None) messages;
          toolNames = map mg_tool_call_id (filter (\<lambda>m. mg_role m = ''tool'') messages);
          topicStr = (if topics \<noteq> [] then ujoin (uni ''; '') (take 5 topics) else [26080]);
          toolStr = (if toolNames \<noteq> []
                     then [20351, 29992, 20102, 32] @ uni (str_of_nat (length toolNames)) @ [32, 20010, 24037, 20855]
                     else [])
      in ustrip ([29992, 25143, 20043, 21069, 35810, 38382, 20102, 58, 32] @ topicStr @ uni ''. '' @ toolStr @ uni ''.''))"

text \<open>\<open>int(x)\<close> of a float drops the fraction.\<close>

definition trunc_rat :: "rat \<Rightarrow> int" where
  "trunc_rat x = (if x < 0 then \<lceil>x\<rceil> else \<lfloor>x\<rfloor>)"

definition summary_message :: "message list \<Rightarrow> message" where
  "summary_message older =
     \<lparr>mg_role = ''system'', mg_content = Some (SUMMARY_TAG @ buildSummary older), mg_tool_calls = [], mg_tool_call_id = []\<rparr>"

text \<open>\<open>units[-maxRecent:]\<close> and \<open>units[:-maxRecent]\<close>: the place of the cut, from the front when \<open>maxRecent\<close> is not positive.\<close>

definition cut_at :: "int \<Rightarrow> nat \<Rightarrow> nat" where
  "cut_at maxRecent n = (if maxRecent \<le> 0 then nat (- maxRecent) else n - nat maxRecent)"

definition compressHistory :: "message list \<Rightarrow> int \<Rightarrow> int \<Rightarrow> rat \<Rightarrow> message list" where
  "compressHistory messages maxRecent maxTokens threshold =
     (let systemMsgs = filter (\<lambda>m. mg_role m = ''system'') messages;
          otherMsgs = filter (\<lambda>m. mg_role m \<noteq> ''system'') messages;
          units = groupMessages otherMsgs;
          totalChars = sum_list (map (\<lambda>m. length (content_text m)) otherMsgs);
          thresholdTokens = trunc_rat (of_int maxTokens * min (max threshold 0) 1)
      in if messages = [] \<or> int (totalChars div 2) \<le> thresholdTokens then messages
         else
           (let recent = concat (drop (cut_at maxRecent (length units)) units);
                older = concat (take (cut_at maxRecent (length units)) units)
            in if older \<noteq> [] then systemMsgs @ [summary_message older] @ recent else systemMsgs @ recent))"

text \<open>The call of the agent loop: six groups, 80 percent of the context window.\<close>

abbreviation compress_default :: "message list \<Rightarrow> int \<Rightarrow> message list" where
  "compress_default messages maxTokens \<equiv> compressHistory messages 6 maxTokens (8 / 10)"

section \<open>Lemmas: orphaned calls\<close>

text \<open>
  A group is answered when, at some point of its tool messages, the answered calls are exactly the
  calls of its assistant message.
\<close>

definition answer_ids :: "message list \<Rightarrow> string set" where
  "answer_ids ts = set (filter (\<lambda>i. i \<noteq> []) (map mg_tool_call_id ts))"

definition answered :: "message list \<Rightarrow> bool" where
  "answered u \<longleftrightarrow> call_ids (hd u) \<noteq> {} \<and>
     list_ex (\<lambda>k. answer_ids (take k (tl u)) = call_ids (hd u)) [1..<length u]"

text \<open>
  Reference: drop the groups that call tools and are not answered, unless the next group calls
  tools again.
\<close>

fun keepUnits :: "message list list \<Rightarrow> message list list" where
  "keepUnits [] = []"
| "keepUnits (u # us) =
     (if calls_tools (hd u) \<and> \<not> answered u \<and> (us = [] \<or> \<not> calls_tools (hd (hd us))) then keepUnits us
      else u # keepUnits us)"


lemma group_hd:
  "(groupMessages ms = [] \<or> \<not> calls_tools (hd (hd (groupMessages ms)))) \<longleftrightarrow> (ms = [] \<or> \<not> calls_tools (hd ms))"
  by (cases ms) auto

lemma concat_group [simp]: "concat (groupMessages ms) = ms"
  by (induction ms rule: groupMessages.induct) auto

lemma answer_ids_snoc [simp]:
  "answer_ids [] = {}"
  "answer_ids (ts @ [t]) = (if mg_tool_call_id t \<noteq> [] then insert (mg_tool_call_id t) (answer_ids ts) else answer_ids ts)"
  by (auto simp: answer_ids_def)

lemma tool_not_calls: "mg_role m = ''tool'' \<Longrightarrow> \<not> calls_tools m"
  by (simp add: calls_tools_def)

lemma tools_quiet:
  "list_all (\<lambda>m. mg_role m = ''tool'') ts \<Longrightarrow> \<not> os_pending s \<Longrightarrow>
     foldl orphan_step s ts = s\<lparr>os_result := os_result s @ ts\<rparr>"
  by (induction ts arbitrary: s) (simp_all add: orphan_step_def tool_not_calls)

text \<open>The tool messages after an assistant message \<open>a\<close>, of which \<open>don\<close> are done.\<close>

lemma tools_step:
  assumes "list_all (\<lambda>m. mg_role m = ''tool'') ts"
  shows "foldl orphan_step \<lparr>os_result = P @ a # don, os_pending = True, os_tc_ids = call_ids a,
            os_responded = answer_ids don, os_index = Some (length P)\<rparr> ts =
         (if call_ids a \<noteq> {} \<and> (\<exists>k. 0 < k \<and> k \<le> length ts \<and> answer_ids (don @ take k ts) = call_ids a)
          then \<lparr>os_result = P @ a # don @ ts, os_pending = False, os_tc_ids = call_ids a,
                os_responded = call_ids a, os_index = None\<rparr>
          else \<lparr>os_result = P @ a # don @ ts, os_pending = True, os_tc_ids = call_ids a,
                os_responded = answer_ids (don @ ts), os_index = Some (length P)\<rparr>)"
  using assms
proof (induction ts arbitrary: don)
  case (Cons t ts)
  have ex: "(\<exists>k. 0 < k \<and> k \<le> length (t # ts) \<and> answer_ids (don @ take k (t # ts)) = call_ids a) \<longleftrightarrow>
      answer_ids (don @ [t]) = call_ids a \<or>
      (\<exists>k. 0 < k \<and> k \<le> length ts \<and> answer_ids ((don @ [t]) @ take k ts) = call_ids a)" (is "?L \<longleftrightarrow> ?R")
  proof
    assume ?L
    then obtain k where k: "0 < k" "k \<le> Suc (length ts)" "answer_ids (don @ take k (t # ts)) = call_ids a" by auto
    then obtain j where "k = Suc j" by (cases k) auto
    with k show ?R by (cases j) auto
  next
    assume ?R
    then show ?L
    proof
      assume "answer_ids (don @ [t]) = call_ids a"
      then show ?L by (intro exI [of _ 1]) simp
    next
      assume "\<exists>k. 0 < k \<and> k \<le> length ts \<and> answer_ids ((don @ [t]) @ take k ts) = call_ids a"
      then obtain k where "0 < k" "k \<le> length ts" "answer_ids ((don @ [t]) @ take k ts) = call_ids a" by auto
      then show ?L by (intro exI [of _ "Suc k"]) simp
    qed
  qed
  let ?s = "\<lparr>os_result = P @ a # don, os_pending = True, os_tc_ids = call_ids a,
            os_responded = answer_ids don, os_index = Some (length P)\<rparr>"
  from Cons.prems have t: "mg_role t = ''tool''" and ts: "list_all (\<lambda>m. mg_role m = ''tool'') ts" by auto
  show ?case
  proof (cases "call_ids a \<noteq> {} \<and> answer_ids (don @ [t]) = call_ids a")
    case True
    then have "orphan_step ?s t = \<lparr>os_result = P @ a # don @ [t], os_pending = False, os_tc_ids = call_ids a,
        os_responded = call_ids a, os_index = None\<rparr>"
      using t by (simp add: orphan_step_def tool_not_calls Let_def split: if_splits)
    with True ex show ?thesis by (simp add: tools_quiet [OF ts])
  next
    case False
    then have "orphan_step ?s t = \<lparr>os_result = P @ a # don @ [t], os_pending = True, os_tc_ids = call_ids a,
        os_responded = answer_ids (don @ [t]), os_index = Some (length P)\<rparr>"
      using t by (auto simp: orphan_step_def tool_not_calls Let_def split: if_splits)
    with False ex Cons.IH [OF ts, of "don @ [t]"] show ?thesis by auto
  qed
qed simp

lemma answered_iff:
  "answered (a # ts) \<longleftrightarrow> call_ids a \<noteq> {} \<and> (\<exists>k. 0 < k \<and> k \<le> length ts \<and> answer_ids (take k ts) = call_ids a)"
  by (auto simp: answered_def list_ex_iff less_Suc_eq_le Suc_le_eq)

lemma pending_step:
  assumes "ms = [] \<or> mg_role (hd ms) \<noteq> ''tool''"
    and "\<And>R tc rs ix. orphan_result (foldl orphan_step \<lparr>os_result = R, os_pending = False, os_tc_ids = tc, os_responded = rs,
           os_index = ix\<rparr> ms) = R @ concat (keepUnits (groupMessages ms))"
  shows "orphan_result (foldl orphan_step \<lparr>os_result = P @ u, os_pending = True, os_tc_ids = tc, os_responded = rs,
           os_index = Some (length P)\<rparr> ms) =
         (if ms = [] \<or> \<not> calls_tools (hd ms) then P else P @ u) @ concat (keepUnits (groupMessages ms))"
proof (cases ms)
  case (Cons m rest)
  let ?s = "\<lparr>os_result = P @ u, os_pending = True, os_tc_ids = tc, os_responded = rs, os_index = Some (length P)\<rparr>"
  show ?thesis
  proof (cases "calls_tools m")
    case True
    let ?q = "\<lparr>os_result = P @ u, os_pending = False, os_tc_ids = tc, os_responded = rs, os_index = Some (length P)\<rparr>"
    have "orphan_step ?s m = orphan_step ?q m" using True by (simp add: orphan_step_def)
    then have e: "foldl orphan_step ?s ms = foldl orphan_step ?q ms" by (simp add: Cons)
    have "\<not> (ms = [] \<or> \<not> calls_tools (hd ms))" using True by (simp add: Cons)
    then show ?thesis unfolding e assms(2) by (simp only: if_False)
  next
    case False
    let ?q = "\<lparr>os_result = P, os_pending = False, os_tc_ids = {}, os_responded = {}, os_index = None\<rparr>"
    have "orphan_step ?s m = orphan_step ?q m"
      using False assms(1) by (simp add: orphan_step_def drop_chain_def Cons)
    then have e: "foldl orphan_step ?s ms = foldl orphan_step ?q ms" by (simp add: Cons)
    have "ms = [] \<or> \<not> calls_tools (hd ms)" using False by (simp add: Cons)
    then show ?thesis unfolding e assms(2) by (simp only: if_True)
  qed
qed (simp add: orphan_result_def drop_chain_def)

lemma orphan_run:
  "orphan_result (foldl orphan_step \<lparr>os_result = R, os_pending = False, os_tc_ids = tc, os_responded = rs, os_index = ix\<rparr> ms) =
     R @ concat (keepUnits (groupMessages ms))"
proof (induction ms arbitrary: R tc rs ix rule: groupMessages.induct)
  case (2 current rest)
  show ?case
  proof (cases "calls_tools current")
    case True
    let ?ts = "takeWhile (\<lambda>m. mg_role m = ''tool'') rest" and ?r = "dropWhile (\<lambda>m. mg_role m = ''tool'') rest"
    have ts: "list_all (\<lambda>m. mg_role m = ''tool'') ?ts" unfolding list_all_iff by (blast dest: set_takeWhileD)
    have r: "?r = [] \<or> mg_role (hd ?r) \<noteq> ''tool''" using hd_dropWhile by blast
    note us = group_hd [of ?r]
    have "orphan_step \<lparr>os_result = R, os_pending = False, os_tc_ids = tc, os_responded = rs, os_index = ix\<rparr> current =
        \<lparr>os_result = R @ [current], os_pending = True, os_tc_ids = call_ids current, os_responded = answer_ids [],
         os_index = Some (length R)\<rparr>"
      using True by (simp add: orphan_step_def)
    moreover have "rest = ?ts @ ?r" by simp
    ultimately have run: "foldl orphan_step \<lparr>os_result = R, os_pending = False, os_tc_ids = tc, os_responded = rs,
        os_index = ix\<rparr> (current # rest) =
      foldl orphan_step (foldl orphan_step \<lparr>os_result = R @ current # [], os_pending = True,
        os_tc_ids = call_ids current, os_responded = answer_ids [], os_index = Some (length R)\<rparr> ?ts) ?r"
      by (metis foldl_Cons foldl_append)
    show ?thesis
    proof (cases "answered (current # ?ts)")
      case yes: True
      then show ?thesis
        using True 2(1) [OF True] unfolding run tools_step [OF ts] by (simp add: answered_iff)
    next
      case no: False
      then have "\<not> (call_ids current \<noteq> {} \<and> (\<exists>k. 0 < k \<and> k \<le> length ?ts \<and> answer_ids ([] @ take k ?ts) = call_ids current))"
        by (simp add: answered_iff)
      then have st: "foldl orphan_step \<lparr>os_result = R @ current # [], os_pending = True,
          os_tc_ids = call_ids current, os_responded = answer_ids [], os_index = Some (length R)\<rparr> ?ts =
        \<lparr>os_result = R @ current # ?ts, os_pending = True, os_tc_ids = call_ids current,
         os_responded = answer_ids ?ts, os_index = Some (length R)\<rparr>"
        using tools_step [OF ts, of R current "[]"] by (simp only: if_False append_Nil)
      have "concat (keepUnits (groupMessages (current # rest))) =
          (if ?r = [] \<or> \<not> calls_tools (hd ?r) then [] else current # ?ts) @ concat (keepUnits (groupMessages ?r))"
        using True no us by (simp only: groupMessages.simps if_True keepUnits.simps list.sel) simp
      then show ?thesis
        unfolding run st pending_step [OF r 2(1) [OF True], of R "current # ?ts"] by (simp only: append_assoc) auto
    qed
  next
    case False
    with 2(2) [OF False] show ?thesis by (simp add: orphan_step_def)
  qed
qed (simp add: orphan_result_def)

text \<open>A calling message right before another one is never examined, so it stays without an answer.\<close>

lemma consecutive_orphan_kept:
  assumes "calls_tools a" "calls_tools b"
  shows "closeOrphanToolCalls (a # b # ms) = a # closeOrphanToolCalls (b # ms)"
proof -
  have "mg_role b \<noteq> ''tool''" using assms(2) tool_not_calls by blast
  then have "concat (keepUnits (groupMessages (a # b # ms))) = a # concat (keepUnits (groupMessages (b # ms)))"
    using assms by simp
  then show ?thesis unfolding closeOrphanToolCalls_def orphan_run by simp
qed

section \<open>Lemmas: compression\<close>

text \<open>Tool messages occur only in a run that starts with a calling message.\<close>

fun chained :: "bool \<Rightarrow> message list \<Rightarrow> bool" where
  "chained opened [] = True"
| "chained opened (m # ms) =
     (if mg_role m = ''tool'' then opened \<and> chained opened ms else chained (calls_tools m) ms)"

lemma chained_dropWhile: "chained opened ms \<Longrightarrow> chained False (dropWhile (\<lambda>m. mg_role m = ''tool'') ms)"
  by (induction ms arbitrary: opened) (auto split: if_splits)

lemma chained_drop: "chained False ms \<Longrightarrow> chained False (concat (drop k (groupMessages ms)))"
proof (induction ms arbitrary: k rule: groupMessages.induct)
  case (2 current rest)
  show ?case
  proof (cases "k = 0")
    case True
    then show ?thesis using 2(3) concat_group [of "current # rest"] by (simp only: drop_0)
  next
    case k: False
    show ?thesis
    proof (cases "calls_tools current")
      case True
      then have "chained True rest" using 2(3) tool_not_calls by (auto split: if_splits)
      then show ?thesis
        using 2(1) [OF True chained_dropWhile] True k by (cases k) simp_all
    next
      case False
      then have "chained False rest" using 2(3) by (simp split: if_splits)
      then show ?thesis using 2(2) [OF False] False k by (cases k) simp_all
    qed
  qed
qed simp

lemma group_drop: "groupMessages (concat (drop k (groupMessages ms))) = drop k (groupMessages ms)"
proof (induction ms arbitrary: k rule: groupMessages.induct)
  case (2 current rest)
  show ?case
  proof (cases k)
    case 0
    then show ?thesis using concat_group [of "current # rest"] by (simp only: drop_0)
  next
    case (Suc j)
    then show ?thesis using 2(1) [of j] 2(2) [of j] by simp
  qed
qed simp

lemma chained_appendD: "chained opened (xs @ ys) \<Longrightarrow> chained opened xs"
  by (induction xs arbitrary: opened) (auto split: if_splits)

lemma concat_take_drop_group: "concat (take k (groupMessages ms)) @ concat (drop k (groupMessages ms)) = ms"
  by (metis append_take_drop_id concat_append concat_group)

section \<open>Properties\<close>

text \<open>
  Closing orphaned tool calls is the removal of whole groups: the result consists of the groups
  of the history, in order, without those that call tools and were never answered completely.  The
  exception is a group right before another calling group, which stays although it has no answer.
\<close>

theorem close_orphans_spec: "closeOrphanToolCalls ms = concat (keepUnits (groupMessages ms))"
  unfolding closeOrphanToolCalls_def orphan_run by simp


section \<open>Witness\<close>

definition demo_msg :: "string \<Rightarrow> string \<Rightarrow> message" where
  "demo_msg role text = \<lparr>mg_role = role, mg_content = Some (uni text), mg_tool_calls = [], mg_tool_call_id = []\<rparr>"

definition demo_history :: "message list" where
  "demo_history =
     [demo_msg ''system'' ''rules'', demo_msg ''user'' ''status of nginx'',
      (demo_msg ''assistant'' [])\<lparr>mg_tool_calls := [\<lparr>tb_id = ''c1'', tb_name = ''listServices'', tb_arguments = ''{}''\<rparr>]\<rparr>,
      (demo_msg ''tool'' ''active'')\<lparr>mg_tool_call_id := ''c1''\<rparr>, demo_msg ''assistant'' ''it is active'']"


end
