(* ===== verification/Utf8.thy ===== *)
theory Utf8
  imports PyPrelude
begin

text \<open>
  \<open>str.encode("utf-8")\<close> and \<open>bytes.decode("utf-8")\<close> on the code points below 256: one byte below
  128, two bytes with lead byte C2 or C3 above.  \<open>utf8_decode\<close> is \<open>None\<close> for the
  \<open>UnicodeDecodeError\<close>; bytes of a larger code point are outside its domain.
\<close>

definition utf8_char :: "char \<Rightarrow> string" where
  "utf8_char c =
     (let n = (of_char c :: nat) in
      if n < 128 then [c] else [char_of (128 + (64 + n div 64)), char_of (128 + n mod 64)])"

definition utf8_encode :: "string \<Rightarrow> string" where
  "utf8_encode s = concat (map utf8_char s)"

fun utf8_decode :: "string \<Rightarrow> string option" where
  "utf8_decode [] = Some []"
| "utf8_decode (b # bs) =
     (let n = (of_char b :: nat) in
      if n < 128 then map_option (\<lambda>s. b # s) (utf8_decode bs)
      else if n = 194 \<or> n = 195 then
        (case bs of
           [] \<Rightarrow> None
         | b2 # rest \<Rightarrow>
             (let m = (of_char b2 :: nat) in
              if 128 \<le> m \<and> m < 192
              then map_option (\<lambda>s. char_of (64 * (n - 192) + (m - 128)) # s) (utf8_decode rest)
              else None))
      else None)"

lemma utf8_decode_char: "utf8_decode (utf8_char c @ s) = map_option (\<lambda>t. c # t) (utf8_decode s)"
proof (cases "(of_char c :: nat) < 128")
  case True
  then show ?thesis by (simp add: utf8_char_def)
next
  case False
  define n where "n = (of_char c :: nat)"
  have n: "128 \<le> n" "n < 256" using False of_char_less [of c] by (simp_all add: n_def)
  then have "n div 64 = 2 \<or> n div 64 = 3" by auto
  moreover have "64 * (n div 64) + n mod 64 = n" by simp
  moreover have "char_of n = c" unfolding n_def by (rule char_of_char)
  ultimately show ?thesis
    using n by (auto simp: utf8_char_def n_def [symmetric] Let_def of_char_of)
qed

lemma utf8_roundtrip [simp]: "utf8_decode (utf8_encode s) = Some s"
  by (induction s) (simp_all add: utf8_encode_def utf8_decode_char)

text \<open>A newline byte comes from a newline character only.\<close>

lemma utf8_char_ascii_byte:
  assumes "b \<in> set (utf8_char c)" "(of_char b :: nat) < 128"
  shows "b = c"
proof (cases "(of_char c :: nat) < 128")
  case True
  then show ?thesis using assms by (simp add: utf8_char_def)
next
  case False
  have "(of_char (char_of (128 + k)) :: nat) = 128 + k" if "k < 128" for k :: nat
    using that by (simp add: of_char_of)
  moreover have "(of_char c :: nat) div 64 < 4" by (rule less_mult_imp_div_less) (use of_char_less [of c] in simp)
  then have "64 + (of_char c :: nat) div 64 < 128" "(of_char c :: nat) mod 64 < 128" by auto
  ultimately have "(of_char x :: nat) \<ge> 128" if "x \<in> set (utf8_char c)" for x
    using that False by (force simp: utf8_char_def Let_def)
  with assms show ?thesis by fastforce
qed

end
