(* ===== verification/TraceLog.thy ===== *)
theory TraceLog
  imports Json Utf8 Regex
begin

text \<open>
  The audit log of the agent: the sanitizer (\<open>agent/trace_log/sanitizer.py\<close>), the hash chain
  (\<open>hash_chain.py\<close>), the recorder (\<open>recorder.py\<close>) and the table it writes
  (\<open>gateway/dao/AgentTraceDaoOrm.py\<close>).

  SHA-256 is the argument \<open>sha\<close>, from bytes to the hexadecimal digest, and \<open>frepr\<close> the reading of
  float texts.  A time stamp is the \<open>repr\<close> of the float.  Nothing deletes rows of the table, so the
  id of a new row is one more than their number.  Whether the database accepts a row is the argument \<open>committed\<close> of the operations.
\<close>

section \<open>Sanitizer\<close>

definition SENSITIVE_KEYS :: "string list" where
  "SENSITIVE_KEYS = [''api_key'', ''apikey'', ''secret'', ''token'', ''password'', ''passwd'']"

definition REDACTED :: string where
  "REDACTED = ''***REDACTED***''"

definition SENSITIVE_PATTERN :: "char rx" where
  "SENSITIVE_PATTERN =
     seqs [alts (map lit_i [''api_key'', ''apikey'', ''secret'', ''token'', ''password'', ''passwd'']),
           Star sp, Cls (\<lambda>c. c = CHR '':'' \<or> c = CHR ''=''), Star sp, plus nsp]"

text \<open>The replacement keeps what is before the first colon of the match.\<close>

definition redact_match :: "string \<Rightarrow> string" where
  "redact_match m = hd (split_on (CHR '':'') m) @ '': '' @ REDACTED"

definition redactString :: "string \<Rightarrow> string" where
  "redactString s = rsub SENSITIVE_PATTERN redact_match s"

fun sanitize_val :: "pyval \<Rightarrow> pyval" where
  "sanitize_val (PDict kvs) =
     PDict (map (\<lambda>kv. (fst kv, if lower (fst kv) \<in> set SENSITIVE_KEYS then PStr REDACTED
                               else sanitize_val (snd kv))) kvs)"
| "sanitize_val (PStr s) = PStr (redactString s)"
| "sanitize_val v = v"

definition sanitize :: "pydict \<Rightarrow> pydict" where
  "sanitize data = (case sanitize_val (PDict data) of PDict d \<Rightarrow> d | _ \<Rightarrow> [])"

section \<open>Hash chain\<close>

text \<open>The text of an entry after the hash \<open>prev\<close>; an empty hash counts as none.\<close>

definition chain_text :: "string option \<Rightarrow> pydict \<Rightarrow> string" where
  "chain_text prev entry =
     (let text = dumps False '', '' '': '' (sort_val (PDict entry)) in
      case prev of Some p \<Rightarrow> if p \<noteq> [] then p @ ''||'' @ text else text | None \<Rightarrow> text)"

definition chain_hash :: "(string \<Rightarrow> string) \<Rightarrow> string option \<Rightarrow> pydict \<Rightarrow> string" where
  "chain_hash sha prev entry = take 16 (sha (utf8_encode (chain_text prev entry)))"

section \<open>Table\<close>

record trace_row =
  tl_id :: int
  tl_traceId :: string
  tl_sessionId :: string
  tl_eventType :: string
  tl_timestamp :: string
  tl_data :: string
  tl_entryHash :: "string option"
  tl_prevHash :: "string option"

text \<open>\<open>None\<close>: the commit failed, the transaction is rolled back and the exception raised again.\<close>

definition trace_insert ::
  "bool \<Rightarrow> string \<Rightarrow> string \<Rightarrow> string \<Rightarrow> string \<Rightarrow> pydict \<Rightarrow> string option \<Rightarrow> string option \<Rightarrow> trace_row list \<Rightarrow> trace_row list option" where
  "trace_insert committed traceId sessionId eventType ts data entryHash prevHash rows =
     (if \<not> committed then None
      else Some (rows @ [\<lparr>tl_id = int (length rows) + 1, tl_traceId = traceId, tl_sessionId = sessionId, tl_eventType = eventType,
        tl_timestamp = ts, tl_data = dumps False '', '' '': '' (PDict data), tl_entryHash = entryHash,
        tl_prevHash = prevHash\<rparr>]))"

text \<open>\<open>_rowToDict\<close>: the stored data, parsed when it is JSON.\<close>

definition row_data :: "(string \<Rightarrow> string) \<Rightarrow> trace_row \<Rightarrow> pyval" where
  "row_data frepr r = (case loads frepr (tl_data r) of Some v \<Rightarrow> v | None \<Rightarrow> PStr (tl_data r))"

text \<open>
  The rows of a query: \<open>stamp\<close> is the time of a row.  Empty filters count as none.
\<close>

definition trace_query ::
  "(trace_row \<Rightarrow> rat) \<Rightarrow> string \<Rightarrow> string \<Rightarrow> string \<Rightarrow> nat \<Rightarrow> bool \<Rightarrow> trace_row list \<Rightarrow> trace_row list" where
  "trace_query stamp sessionId traceId eventType limit ascending rows =
     (let sel = filter (\<lambda>r. (sessionId = [] \<or> tl_sessionId r = sessionId) \<and> (traceId = [] \<or> tl_traceId r = traceId) \<and>
                            (eventType = [] \<or> tl_eventType r = eventType)) rows
      in take limit (if ascending then sort_key stamp sel else rev (sort_key tl_id sel)))"

definition trace_summary :: "(trace_row \<Rightarrow> rat) \<Rightarrow> string \<Rightarrow> trace_row list \<Rightarrow> pydict" where
  "trace_summary stamp sessionId rows =
     (let sel = trace_query stamp sessionId [] [] 10000 True rows;
          count = (\<lambda>e. int (length (filter (\<lambda>r. tl_eventType r = e) sel)))
      in [(''sessionId'', PStr sessionId), (''totalEvents'', PInt (int (length sel))), (''toolCalls'', PInt (count ''tool.result'')),
          (''approvalCount'', PInt (count ''approval.requested'' + count ''approval.resolved'')),
          (''hasInjection'', PBool (count ''injection.detected'' > 0)),
          (''traces'', PList (map PStr (sort (remdups (map tl_traceId sel)))))])"

section \<open>Recorder\<close>

record TraceRecorder =
  tr_chains :: "(string \<times> string option) list"
  tr_rows :: "trace_row list"

definition trace_entry :: "string \<Rightarrow> string \<Rightarrow> string \<Rightarrow> string \<Rightarrow> pyval \<Rightarrow> pydict" where
  "trace_entry traceId sessionId eventType ts data =
     [(''trace_id'', PStr traceId), (''session_id'', PStr sessionId), (''event_type'', PStr eventType),
      (''timestamp'', PFloat ts), (''data'', data)]"

text \<open>
  The hash of the event, \<open>None\<close> when the insert raised.  The chain of the session has moved on by then: \<open>HashChain.hash\<close> keeps
  the new hash before the row is inserted.
\<close>

definition trace_record ::
  "(string \<Rightarrow> string) \<Rightarrow> bool \<Rightarrow> string \<Rightarrow> string \<Rightarrow> string \<Rightarrow> string \<Rightarrow> pydict \<Rightarrow> TraceRecorder \<Rightarrow> string option \<times> TraceRecorder" where
  "trace_record sha committed ts traceId sessionId eventType data st =
     (let data = sanitize data;
          prevHash = (case map_of (tr_chains st) sessionId of Some h \<Rightarrow> h | None \<Rightarrow> None);
          entryHash = chain_hash sha prevHash (trace_entry traceId sessionId eventType ts (PDict data));
          st = st\<lparr>tr_chains := AList.update sessionId (Some entryHash) (tr_chains st)\<rparr>
      in case trace_insert committed traceId sessionId eventType ts data (Some entryHash) prevHash (tr_rows st) of
           None \<Rightarrow> (None, st)
         | Some rows \<Rightarrow> (Some entryHash, st\<lparr>tr_rows := rows\<rparr>))"

section \<open>Lemmas: sanitized values\<close>

lemma sanitize_PDict: "PDict (sanitize data) = sanitize_val (PDict data)"
  by (simp add: sanitize_def)

lemma wf_sanitize_val: "wf_json fr v \<Longrightarrow> wf_json fr (sanitize_val v)"
proof (induction v)
  case (PDict kvs)
  then have "wf_json fr (sanitize_val (snd kv))" if "kv \<in> set kvs" for kv
    using that by (cases kv) (auto simp: list_all_iff)
  with PDict.prems show ?case by (auto simp: list_all_iff comp_def)
qed simp_all

text \<open>No value below a sensitive key, at any depth of nested dicts, is left.\<close>

fun keys_redacted :: "pyval \<Rightarrow> bool" where
  "keys_redacted (PDict kvs) =
     list_all (\<lambda>kv. if lower (fst kv) \<in> set SENSITIVE_KEYS then snd kv = PStr REDACTED else keys_redacted (snd kv)) kvs"
| "keys_redacted v = True"

lemma keys_redacted_sanitize: "keys_redacted (sanitize_val v)"
proof (induction v)
  case (PDict kvs)
  then have "keys_redacted (sanitize_val (snd kv))" if "kv \<in> set kvs" for kv
    using that by (cases kv) auto
  then show ?case by (auto simp: list_all_iff)
qed simp_all

lemma rmatch_Seq_single: "rmatch r p = [q] \<Longrightarrow> rmatch (Seq r s) p = rmatch s q"
  by simp

lemma star_sp_stop: "s = [] \<or> \<not> is_space (hd s) \<Longrightarrow> star_iter n (rmatch sp) (pre, s) = [(pre, s)]"
  by (cases n; cases s) (auto simp: sp_def)

lemma rmatch_password:
  assumes "s \<noteq> []" "list_all (\<lambda>c. \<not> is_space c) s"
  shows "\<exists>qs. rmatch SENSITIVE_PATTERN ([], ''password='' @ s) = (rev (''password='' @ s), []) # qs"
proof -
  obtain c cs where s: "s = c # cs" using assms(1) by (cases s) auto
  have run: "takeWhile (\<lambda>c. \<not> is_space c) cs = cs" "dropWhile (\<lambda>c. \<not> is_space c) cs = []"
    using assms(2) by (simp_all add: s list_all_iff takeWhile_eq_all_conv)
  have st: "\<exists>qs. rmatch (plus nsp) (rev ''password='', s) = (rev (''password='' @ s), []) # qs"
    using star_Cls_first [of cs "length cs" "\<lambda>c. \<not> is_space c" "c # rev ''password=''"] assms(2) run
    by (auto simp: plus_def s nsp_def)
  have alt: "rmatch (alts (map lit_i [''api_key'', ''apikey'', ''secret'', ''token'', ''password'', ''passwd'']))
      ([], ''password='' @ s) = [(rev ''password'', ''='' @ s)]"
    by (simp add: lower_char_def is_upper_def)
  have sp1: "rmatch (Star sp) (rev ''password'', ''='' @ s) = [(rev ''password'', ''='' @ s)]"
    using star_sp_stop [of "''='' @ s" "Suc (length s)" "rev ''password''"] by (simp add: is_space_def del: star_iter.simps)
  have eq: "rmatch (Cls (\<lambda>c. c = CHR '':'' \<or> c = CHR ''='')) (rev ''password'', ''='' @ s) = [(rev ''password='', s)]"
    by simp
  have sp2: "rmatch (Star sp) (rev ''password='', s) = [(rev ''password='', s)]"
    using star_sp_stop [of s "length s" "rev ''password=''"] assms by (simp add: s del: star_iter.simps)
  show ?thesis
    unfolding SENSITIVE_PATTERN_def seqs.simps
      rmatch_Seq_single [OF alt] rmatch_Seq_single [OF sp1] rmatch_Seq_single [OF eq] rmatch_Seq_single [OF sp2]
    by (rule st)
qed

lemma split_on_none: "c \<notin> set s \<Longrightarrow> split_on c s = [s]"
  by (induction s) auto

text \<open>A secret after an equals sign is not removed.\<close>

lemma redact_equals_sign:
  assumes "s \<noteq> []" "list_all (\<lambda>c. \<not> is_space c \<and> c \<noteq> CHR '':'') s"
  shows "redactString (''password='' @ s) = ''password='' @ s @ '': '' @ REDACTED"
proof -
  have ns: "list_all (\<lambda>c. \<not> is_space c) s" and col: "CHR '':'' \<notin> set s"
    using assms(2) by (auto simp: list_all_iff)
  obtain qs where m: "rmatch SENSITIVE_PATTERN ([], ''password='' @ s) = (rev (''password='' @ s), []) # qs"
    using rmatch_password [OF assms(1) ns] by blast
  have e: "sub_from SENSITIVE_PATTERN redact_match pre [] = []" if "rmatch SENSITIVE_PATTERN (pre, []) = []" for pre
    using that by (subst sub_from.simps) simp
  have "rmatch SENSITIVE_PATTERN (pre, []) = []" for pre
    by (simp add: SENSITIVE_PATTERN_def)
  with e m have "redactString (''password='' @ s) = redact_match (''password='' @ s)"
    unfolding redactString_def rsub_def by (subst sub_from.simps) simp
  moreover have "split_on (CHR '':'') (''password='' @ s) = [''password='' @ s]"
    using col by (intro split_on_none) auto
  ultimately show ?thesis by (simp add: redact_match_def)
qed

section \<open>Lemmas: the chain\<close>

text \<open>What an auditor recomputes from the table.\<close>

definition row_entry :: "(string \<Rightarrow> string) \<Rightarrow> trace_row \<Rightarrow> pydict" where
  "row_entry frepr r = trace_entry (tl_traceId r) (tl_sessionId r) (tl_eventType r) (tl_timestamp r) (row_data frepr r)"

fun verify_rows :: "(string \<Rightarrow> string) \<Rightarrow> (string \<Rightarrow> string) \<Rightarrow> string option \<Rightarrow> trace_row list \<Rightarrow> bool" where
  "verify_rows sha frepr prev [] = True"
| "verify_rows sha frepr prev (r # rs) \<longleftrightarrow>
     tl_prevHash r = prev \<and> tl_entryHash r = Some (chain_hash sha prev (row_entry frepr r)) \<and>
     verify_rows sha frepr (tl_entryHash r) rs"

definition last_hash :: "string option \<Rightarrow> trace_row list \<Rightarrow> string option" where
  "last_hash prev rs = (if rs = [] then prev else tl_entryHash (last rs))"

lemma last_hash_simps [simp]:
  "last_hash prev [] = prev" "last_hash prev (r # rs) = last_hash (tl_entryHash r) rs"
  "last_hash prev (rs @ [r]) = tl_entryHash r"
  by (auto simp: last_hash_def)

lemma verify_rows_snoc:
  "verify_rows sha frepr prev (rs @ [r]) \<longleftrightarrow>
     verify_rows sha frepr prev rs \<and> tl_prevHash r = last_hash prev rs \<and>
     tl_entryHash r = Some (chain_hash sha (last_hash prev rs) (row_entry frepr r))"
  by (induction rs arbitrary: prev) auto

text \<open>The rows of a session among those a recorder has written.\<close>

abbreviation session_rows :: "string \<Rightarrow> trace_row list \<Rightarrow> trace_row list" where
  "session_rows s rows \<equiv> filter (\<lambda>r. tl_sessionId r = s) rows"

text \<open>A call of the recorder, and what an auditor finds in its row.\<close>

record trace_call =
  tc_committed :: bool
  tc_ts :: string
  tc_traceId :: string
  tc_sessionId :: string
  tc_eventType :: string
  tc_data :: pydict

definition row_tells :: "(string \<Rightarrow> string) \<Rightarrow> trace_call \<Rightarrow> trace_row \<Rightarrow> bool" where
  "row_tells frepr c r \<longleftrightarrow> tl_timestamp r = tc_ts c \<and> tl_traceId r = tc_traceId c \<and> tl_sessionId r = tc_sessionId c \<and>
     tl_eventType r = tc_eventType c \<and> row_data frepr r = PDict (sanitize (tc_data c))"

definition record_call :: "(string \<Rightarrow> string) \<Rightarrow> trace_call \<Rightarrow> TraceRecorder \<Rightarrow> TraceRecorder" where
  "record_call sha c st = snd (trace_record sha (tc_committed c) (tc_ts c) (tc_traceId c) (tc_sessionId c) (tc_eventType c) (tc_data c) st)"

definition record_all :: "(string \<Rightarrow> string) \<Rightarrow> trace_call list \<Rightarrow> TraceRecorder \<Rightarrow> TraceRecorder" where
  "record_all sha calls st = fold (record_call sha) calls st"

text \<open>The rows of the calls whose insert was committed.\<close>

definition committed_rows :: "trace_call list \<Rightarrow> trace_row list \<Rightarrow> trace_row list" where
  "committed_rows calls full = map snd (filter (\<lambda>(c, r). tc_committed c) (zip calls full))"

definition chain_of :: "(string \<Rightarrow> string) \<Rightarrow> (string \<Rightarrow> string) \<Rightarrow> trace_call list \<Rightarrow> string option \<Rightarrow> trace_row list \<Rightarrow> bool" where
  "chain_of sha frepr calls h rows \<longleftrightarrow>
     (\<exists>full. verify_rows sha frepr None full \<and> list_all2 (row_tells frepr) calls full \<and> h = last_hash None full \<and>
             rows = committed_rows calls full)"

abbreviation session_calls :: "string \<Rightarrow> trace_call list \<Rightarrow> trace_call list" where
  "session_calls s calls \<equiv> filter (\<lambda>c. tc_sessionId c = s) calls"

definition chain_inv :: "(string \<Rightarrow> string) \<Rightarrow> (string \<Rightarrow> string) \<Rightarrow> nat \<Rightarrow> trace_call list \<Rightarrow> TraceRecorder \<Rightarrow> bool" where
  "chain_inv sha frepr n calls st \<longleftrightarrow>
     (\<forall>s. chain_of sha frepr (session_calls s calls) (case map_of (tr_chains st) s of Some h \<Rightarrow> h | None \<Rightarrow> None)
            (session_rows s (drop n (tr_rows st)))) \<and> n \<le> length (tr_rows st)"

lemma chain_of_snoc:
  assumes "chain_of sha frepr calls h rows" "row_tells frepr c r" "tl_prevHash r = h"
    and "tl_entryHash r = Some (chain_hash sha h (row_entry frepr r))"
  shows "chain_of sha frepr (calls @ [c]) (tl_entryHash r) (rows @ (if tc_committed c then [r] else []))"
proof -
  obtain full where f: "verify_rows sha frepr None full" "list_all2 (row_tells frepr) calls full" "h = last_hash None full"
    "rows = committed_rows calls full" using assms(1) unfolding chain_of_def by blast
  have "length calls = length full" using f(2) by (rule list_all2_lengthD)
  then have "committed_rows (calls @ [c]) (full @ [r]) = rows @ (if tc_committed c then [r] else [])"
    by (simp add: committed_rows_def f(4))
  moreover have "verify_rows sha frepr None (full @ [r])" using assms(3,4) f(1,3) by (simp add: verify_rows_snoc)
  moreover have "list_all2 (row_tells frepr) (calls @ [c]) (full @ [r])" using f(2) assms(2) by (simp add: list_all2_appendI)
  ultimately show ?thesis unfolding chain_of_def by (metis last_hash_simps(3))
qed

lemma chain_inv_record [step_inv]:
  assumes inv: "chain_inv sha frepr n calls st" and wf: "wf_json frepr (PDict (tc_data c))"
  shows "chain_inv sha frepr n (calls @ [c]) (record_call sha c st)"
proof -
  define sid where "sid = tc_sessionId c"
  define prev where "prev = (case map_of (tr_chains st) sid of Some h \<Rightarrow> h | None \<Rightarrow> None)"
  define h where "h = chain_hash sha prev (trace_entry (tc_traceId c) sid (tc_eventType c) (tc_ts c) (PDict (sanitize (tc_data c))))"
  define r where "r = \<lparr>tl_id = int (length (tr_rows st)) + 1, tl_traceId = tc_traceId c, tl_sessionId = sid,
     tl_eventType = tc_eventType c, tl_timestamp = tc_ts c, tl_data = dumps False '', '' '': '' (PDict (sanitize (tc_data c))),
     tl_entryHash = Some h, tl_prevHash = prev\<rparr>"
  have st': "record_call sha c st = \<lparr>tr_chains = AList.update sid (Some h) (tr_chains st),
      tr_rows = tr_rows st @ (if tc_committed c then [r] else [])\<rparr>"
    by (simp add: record_call_def trace_record_def trace_insert_def Let_def prev_def h_def r_def sid_def)
  have "loads frepr (dumps False '', '' '': '' (PDict (sanitize (tc_data c)))) = Some (PDict (sanitize (tc_data c)))"
    using wf_sanitize_val [OF wf] unfolding sanitize_PDict by (intro loads_dumps) simp_all
  then have tells: "row_tells frepr c r" and ent: "tl_entryHash r = Some (chain_hash sha prev (row_entry frepr r))"
    by (simp_all add: row_tells_def row_entry_def row_data_def r_def sid_def h_def)
  have rf: "tl_sessionId r = sid" "tl_prevHash r = prev" "tl_entryHash r = Some h" by (simp_all add: r_def)
  have n: "n \<le> length (tr_rows st)" and old: "chain_of sha frepr (session_calls s calls)
      (case map_of (tr_chains st) s of Some h \<Rightarrow> h | None \<Rightarrow> None) (session_rows s (drop n (tr_rows st)))" for s
    using inv unfolding chain_inv_def by blast+
  have "chain_of sha frepr (session_calls s (calls @ [c])) (case map_of (tr_chains (record_call sha c st)) s of Some h \<Rightarrow> h | None \<Rightarrow> None)
      (session_rows s (drop n (tr_rows (record_call sha c st))))" for s
  proof (cases "s = sid")
    case True
    then show ?thesis
      using chain_of_snoc [OF old [of sid, folded prev_def] tells rf(2) ent] n rf by (simp add: st' sid_def split: if_splits)
  next
    case False
    then show ?thesis using old [of s] n rf by (simp add: st' sid_def [symmetric] split: if_splits)
  qed
  then show ?thesis using n unfolding chain_inv_def by (simp add: st')
qed

text \<open>Equal hashed texts of two rows at the same place of two chains.\<close>

lemma chain_text_inj:
  assumes "chain_text p e = chain_text p' e'" "wf_json fr (PDict e)" "wf_json fr (PDict e')"
    and "(p = None \<and> p' = None) \<or> (\<exists>a b. p = Some a \<and> p' = Some b \<and> length a = 16 \<and> length b = 16)"
  shows "p = p' \<and> sort_val (PDict e) = sort_val (PDict e')"
proof -
  let ?d = "\<lambda>e. dumps False '', '' '': '' (sort_val (PDict e))"
  have d: "sort_val (PDict e) = sort_val (PDict e')" if "?d e = ?d e'"
    using loads_dumps [OF wf_json_sort_val [OF assms(2)] seps_default]
      loads_dumps [OF wf_json_sort_val [OF assms(3)] seps_default] that by (metis option.inject)
  from assms(4) show ?thesis
  proof (elim disjE conjE exE)
    assume "p = None" "p' = None"
    with assms(1) d show ?thesis unfolding chain_text_def Let_def by simp
  next
    fix a b
    assume ab: "p = Some a" "p' = Some b" "length a = 16" "length b = 16"
    then have "a \<noteq> []" "b \<noteq> []" by auto
    with ab assms(1) have "a @ ''||'' @ ?d e = b @ ''||'' @ ?d e'" unfolding chain_text_def Let_def by simp
    with ab(3,4) have "a = b" "''||'' @ ?d e = ''||'' @ ?d e'" by (metis append_eq_append_conv)+
    with ab(1,2) d show ?thesis by (metis same_append_eq)
  qed
qed

section \<open>Properties\<close>

lemma chain_inv_record_all:
  assumes "chain_inv sha frepr n past st" "list_all (\<lambda>c. wf_json frepr (PDict (tc_data c))) calls"
  shows "chain_inv sha frepr n (past @ calls) (record_all sha calls st)"
  using assms
proof (induction calls arbitrary: past st)
  case (Cons c calls)
  then show ?case
    using Cons.IH [OF chain_inv_record [OF Cons.prems(1)]] by (simp add: record_all_def del: wf_json.simps)
qed (simp add: record_all_def)

lemma all_committed: "length calls = length full \<Longrightarrow> list_all tc_committed calls \<Longrightarrow> committed_rows calls full = full"
  unfolding committed_rows_def by (induction calls full rule: list_induct2) auto


text \<open>
  After a failed insert the next row of the session names a hash that no row has, although nobody touched the table: an audit
  rejects it unless the two hashes collide.
\<close>

lemma lost_row_breaks_chain:
  fixes sha :: "string \<Rightarrow> string"
  assumes "tc_committed a" "tc_committed c" "tc_sessionId a = s" "tc_sessionId c = s"
  defines "lost \<equiv> a\<lparr>tc_committed := False\<rparr>"
  defines "h \<equiv> chain_hash sha None (trace_entry (tc_traceId a) s (tc_eventType a) (tc_ts a) (PDict (sanitize (tc_data a))))"
  shows "map tl_prevHash (tr_rows (record_all sha [lost, c] \<lparr>tr_chains = [], tr_rows = []\<rparr>)) = [Some h] \<and>
         \<not> verify_rows sha frepr None (tr_rows (record_all sha [lost, c] \<lparr>tr_chains = [], tr_rows = []\<rparr>))"
  using assms by (simp add: record_all_def record_call_def trace_record_def trace_insert_def Let_def)

text \<open>The texts that are hashed along a chain.\<close>

fun hashed_texts :: "(string \<Rightarrow> string) \<Rightarrow> string option \<Rightarrow> trace_row list \<Rightarrow> string list" where
  "hashed_texts frepr prev [] = []"
| "hashed_texts frepr prev (r # rs) =
     utf8_encode (chain_text prev (row_entry frepr r)) # hashed_texts frepr (tl_entryHash r) rs"

lemma hashed_texts_snoc [simp]:
  "hashed_texts frepr prev (rs @ [r]) =
     hashed_texts frepr prev rs @ [utf8_encode (chain_text (last_hash prev rs) (row_entry frepr r))]"
  by (induction rs arbitrary: prev) auto

lemma last_hash_length:
  assumes "verify_rows sha frepr None rs" "\<And>x. 16 \<le> length (sha x)" "rs \<noteq> []"
  shows "\<exists>h. last_hash None rs = Some h \<and> length h = 16"
  using assms
proof (induction rs rule: rev_induct)
  case (snoc r rs)
  then have "tl_entryHash r = Some (chain_hash sha (last_hash None rs) (row_entry frepr r))"
    by (simp add: verify_rows_snoc)
  then show ?case using snoc.prems(2) by (simp add: chain_hash_def min_absorb2)
qed simp

text \<open>
  C33. The log is tamper evident: two chains of one length that an audit accepts and that end in the
  same hash have the same entries, hence changed, reordered or replaced rows are found by comparing the
  last hash, unless two different texts among those hashed share the sixteen digits that are kept.
\<close>

theorem tampering_needs_collision:
  assumes "verify_rows sha frepr None rs" "verify_rows sha frepr None rs'" "length rs = length rs'"
    and "last_hash None rs = last_hash None rs'"
    and "list_all (\<lambda>r. wf_json frepr (PDict (row_entry frepr r))) (rs @ rs')"
    and "\<And>x. 16 \<le> length (sha x)"
  shows "map (\<lambda>r. sort_val (PDict (row_entry frepr r))) rs = map (\<lambda>r. sort_val (PDict (row_entry frepr r))) rs' \<or>
         (\<exists>x y. x \<in> set (hashed_texts frepr None rs) \<and> y \<in> set (hashed_texts frepr None rs') \<and> x \<noteq> y \<and>
                take 16 (sha x) = take 16 (sha y))"
  using assms
proof (induction rs arbitrary: rs' rule: rev_induct)
  case (snoc r rs)
  obtain rs0 r' where rs': "rs' = rs0 @ [r']" "length rs0 = length rs"
    using snoc.prems(3) by (cases rs' rule: rev_cases) auto
  let ?t = "\<lambda>rs r. chain_text (last_hash None rs) (row_entry frepr r)"
  have v: "verify_rows sha frepr None rs" "verify_rows sha frepr None rs0"
    and same: "take 16 (sha (utf8_encode (?t rs r))) = take 16 (sha (utf8_encode (?t rs0 r')))"
    using snoc.prems(1,2,4) by (auto simp: rs' verify_rows_snoc chain_hash_def)
  show ?case
  proof (cases "?t rs r = ?t rs0 r'")
    case False
    then have "utf8_encode (?t rs r) \<noteq> utf8_encode (?t rs0 r')" by (metis option.inject utf8_roundtrip)
    with same show ?thesis unfolding rs' hashed_texts_snoc by fastforce
  next
    case True
    have "last_hash None rs = None \<and> last_hash None rs0 = None \<or>
      (\<exists>a b. last_hash None rs = Some a \<and> last_hash None rs0 = Some b \<and> length a = 16 \<and> length b = 16)"
      using last_hash_length [OF v(1) snoc.prems(6)] last_hash_length [OF v(2) snoc.prems(6)] rs'(2)
      by (cases "rs = []"; cases "rs0 = []") auto
    from chain_text_inj [OF True _ _ this, of frepr] snoc.prems(5)
    have eq: "last_hash None rs = last_hash None rs0"
      "sort_val (PDict (row_entry frepr r)) = sort_val (PDict (row_entry frepr r'))"
      by (simp_all add: rs' del: wf_json.simps sort_val.simps)
    from snoc.IH [OF v rs'(2) [symmetric] eq(1) _ snoc.prems(6)] snoc.prems(5) eq(2) show ?thesis
      unfolding rs' hashed_texts_snoc by (auto simp del: wf_json.simps sort_val.simps)
  qed
qed simp

text \<open>
  After the sanitizer no value is left below a key named like a secret, at any depth of nested
  dicts and in whatever case the key is written.
\<close>

theorem sanitize_redacts_keys: "keys_redacted (PDict (sanitize data))"
  unfolding sanitize_PDict by (rule keys_redacted_sanitize)

section \<open>Witnesses\<close>

definition w_trace_calls :: "trace_call list" where
  "w_trace_calls = map (\<lambda>(ok, ts, sid, ev, d). \<lparr>tc_committed = ok, tc_ts = ts, tc_traceId = ''t'', tc_sessionId = sid, tc_eventType = ev, tc_data = d\<rparr>)
     [(True, ''1.5'', ''s'', ''tool.call'', [(''Password'', PStr ''pw''), (''n'', PInt 3)]), (False, ''2.5'', ''u'', ''tool.call'', []),
      (True, ''3.5'', ''s'', ''tool.result'', [])]"


theorem tampering_needs_collision_witness:
  "let rs = tr_rows (snd (trace_record (\<lambda>x. replicate 64 (CHR ''0'')) True ''1.5'' ''t'' ''s'' ''tool.call'' [(''n'', PInt 3)]
       \<lparr>tr_chains = [], tr_rows = []\<rparr>));
       rs' = map (\<lambda>r. r\<lparr>tl_data := ''[]''\<rparr>) rs in
   map (\<lambda>r. sort_val (PDict (row_entry (\<lambda>s. s) r))) rs = map (\<lambda>r. sort_val (PDict (row_entry (\<lambda>s. s) r))) rs' \<or>
   (\<exists>x y. x \<in> set (hashed_texts (\<lambda>s. s) None rs) \<and> y \<in> set (hashed_texts (\<lambda>s. s) None rs') \<and> x \<noteq> y \<and>
          take 16 (replicate 64 (CHR ''0'')) = take 16 (replicate 64 (CHR ''0'')))"
  unfolding Let_def
  by (rule tampering_needs_collision [where sha = "\<lambda>x. replicate 64 (CHR ''0'')"]; code_simp)

end
