(* ===== verification/StructuredLLM.thy ===== *)
theory StructuredLLM
  imports Json
begin

text \<open>
  Auxiliary model calls with checked output (\<open>agent/llm_structured.py\<close>) and the model-based
  injection classifier built on them (\<open>agent/safety/llm_classifier.py\<close>).

  The provider is the function \<open>chat\<close> from the conversation so far to its outcome: every attempt
  sends a longer conversation, so such a function covers a provider that answers differently each
  time.  The correction message is kept as its two parts, the reason and the previous output.
\<close>

section \<open>Data\<close>

datatype so_error =
    SO_EMPTY | SO_BLOCK_NO_CONTENT | SO_BLOCK_NOT_JSON | SO_BLOCK_UNCLOSED | SO_BAD_JSON
  | SO_NOT_OBJECT | SO_INJECTION_TYPE | SO_CONFIDENCE | SO_REASON_TYPE | SO_NO_RESULT

text \<open>What a parser raises: an error that is fed back to the model, or any other exception.\<close>

datatype parse_exc = Structured so_error | Escapes string

datatype msg_content = Plain string | RetryPrompt so_error string

record message =
  msg_role :: string
  msg_content :: msg_content

text \<open>An awaited \<open>provider.chat\<close>: a reply (its \<open>content\<close> if that is a text), the timeout of
  \<open>asyncio.wait_for\<close>, or an exception with its type's name.\<close>

datatype chat_outcome = Reply "string option" | TimedOut | Raised string

datatype call_error = CE_VALUE | CE_TIMEOUT | CE_RAISED string

record 'v StructuredLLMResult =
  slr_value :: 'v
  slr_raw :: string
  slr_attempts :: nat

definition MAX_STRUCTURED_ATTEMPTS :: nat where
  "MAX_STRUCTURED_ATTEMPTS = 5"

section \<open>The JSON object of a reply\<close>

definition fence :: string where
  "fence = ''```''"

definition rstrip :: "string \<Rightarrow> string" where
  "rstrip s = rdropWhile is_space s"

definition parseJsonObject :: "(string \<Rightarrow> string) \<Rightarrow> string \<Rightarrow> so_error + pydict" where
  "parseJsonObject frepr raw =
     (if strip raw = [] then Inl SO_EMPTY
      else
        (let text = strip raw;
             unfenced =
               (if startswith text fence then
                  (let first_line = takeWhile (\<lambda>c. c \<noteq> newline) text;
                       rest = dropWhile (\<lambda>c. c \<noteq> newline) text
                   in if rest = [] then Inl SO_BLOCK_NO_CONTENT
                      else if lower (strip (drop (length fence) first_line)) \<notin> {'''', ''json''}
                      then Inl SO_BLOCK_NOT_JSON
                      else if \<not> endswith (rstrip (tl rest)) fence then Inl SO_BLOCK_UNCLOSED
                      else (let body = rstrip (tl rest) in Inr (strip (take (length body - 3) body))))
                else Inr text)
         in case unfenced of
              Inl e \<Rightarrow> Inl e
            | Inr t \<Rightarrow>
                (case loads frepr t of
                   None \<Rightarrow> Inl SO_BAD_JSON
                 | Some (PDict d) \<Rightarrow> Inr d
                 | Some _ \<Rightarrow> Inl SO_NOT_OBJECT)))"

section \<open>The call with feedback\<close>

definition buildStructuredRetryPrompt :: "so_error \<Rightarrow> string \<Rightarrow> msg_content" where
  "buildStructuredRetryPrompt err previous = RetryPrompt err (take 4000 previous)"

text \<open>The loop of \<open>callStructuredLLM\<close> with \<open>left\<close> attempts to go, \<open>attempt\<close> being the next.\<close>

fun structured_attempts ::
  "(message list \<Rightarrow> chat_outcome) \<Rightarrow> (string \<Rightarrow> parse_exc + 'v option) \<Rightarrow> nat \<Rightarrow> nat \<Rightarrow> message list \<Rightarrow>
   call_error + 'v StructuredLLMResult option" where
  "structured_attempts chat parser 0 attempt messages = Inr None"
| "structured_attempts chat parser (Suc left) attempt messages =
     (case chat messages of
        TimedOut \<Rightarrow> Inl CE_TIMEOUT
      | Raised e \<Rightarrow> Inl (CE_RAISED e)
      | Reply content \<Rightarrow>
          (let raw = (case content of Some t \<Rightarrow> t | None \<Rightarrow> []);
               retry = (\<lambda>err. if left = 0 then Inr None
                  else structured_attempts chat parser left (Suc attempt)
                    (messages @ [\<lparr>msg_role = ''assistant'', msg_content = Plain raw\<rparr>,
                                 \<lparr>msg_role = ''user'', msg_content = buildStructuredRetryPrompt err raw\<rparr>]))
           in case parser raw of
                Inl (Structured err) \<Rightarrow> retry err
              | Inl (Escapes e) \<Rightarrow> Inl (CE_RAISED e)
              | Inr None \<Rightarrow> retry SO_NO_RESULT
              | Inr (Some v) \<Rightarrow> Inr (Some \<lparr>slr_value = v, slr_raw = raw, slr_attempts = attempt\<rparr>)))"

definition callStructuredLLM ::
  "(message list \<Rightarrow> chat_outcome) \<Rightarrow> message list \<Rightarrow> (string \<Rightarrow> parse_exc + 'v option) \<Rightarrow> nat \<Rightarrow>
   call_error + 'v StructuredLLMResult option" where
  "callStructuredLLM chat messages parser maxAttempts =
     (if maxAttempts < 1 then Inl CE_VALUE
      else structured_attempts chat parser maxAttempts 1 messages)"

section \<open>The classifier\<close>

record ClassifierVerdict =
  cv_injection :: bool
  cv_confidence :: rat
  cv_reason :: string
  cv_checked :: bool
  cv_error :: string

definition unchecked_verdict :: "string \<Rightarrow> ClassifierVerdict" where
  "unchecked_verdict err = \<lparr>cv_injection = False, cv_confidence = 0, cv_reason = [], cv_checked = False, cv_error = err\<rparr>"

datatype classifier_mode = CM_OFF | CM_SAMPLING | CM_FULL

record InjectionClassifier =
  ic_provider :: "(message list \<Rightarrow> chat_outcome) option"
  ic_mode :: classifier_mode
  ic_samplingRate :: rat
  ic_timeoutSeconds :: rat

definition classifier_init ::
  "(message list \<Rightarrow> chat_outcome) option \<Rightarrow> string \<Rightarrow> rat \<Rightarrow> rat \<Rightarrow> InjectionClassifier" where
  "classifier_init provider mode samplingRate timeoutSeconds =
     \<lparr>ic_provider = provider,
      ic_mode = (if mode = ''off'' then CM_OFF else if mode = ''full'' then CM_FULL else CM_SAMPLING),
      ic_samplingRate = max 0 (min 1 samplingRate),
      ic_timeoutSeconds = max (1/2) timeoutSeconds\<rparr>"

text \<open>\<open>shouldCheck\<close>, with the value of \<open>self._rng.random()\<close>.\<close>

definition shouldCheck :: "InjectionClassifier \<Rightarrow> rat \<Rightarrow> bool" where
  "shouldCheck c random =
     (if ic_provider c = None \<or> ic_mode c = CM_OFF then False
      else if ic_mode c = CM_FULL then True
      else random < ic_samplingRate c)"

text \<open>\<open>float(i)\<close> raises \<open>OverflowError\<close> when \<open>i\<close> rounds beyond the largest double.\<close>

definition int_overflows :: "int \<Rightarrow> bool" where
  "int_overflows i \<longleftrightarrow> 2 ^ 1024 - 2 ^ 970 \<le> \<bar>i\<bar>"

record ParsedVerdict =
  pv_injection :: bool
  pv_confidence :: rat
  pv_reason :: string

definition parse_confidence :: "pyval \<Rightarrow> parse_exc + rat" where
  "parse_confidence v =
     (case v of
        PInt i \<Rightarrow> if int_overflows i then Inl (Escapes ''OverflowError'')
                  else if 0 \<le> i \<and> i \<le> 1 then Inr (of_int i) else Inl (Structured SO_CONFIDENCE)
      | PFloat r \<Rightarrow> (case float_value r of
                      Some x \<Rightarrow> if 0 \<le> x \<and> x \<le> 1 then Inr x else Inl (Structured SO_CONFIDENCE)
                    | None \<Rightarrow> Inl (Structured SO_CONFIDENCE))
      | _ \<Rightarrow> Inl (Structured SO_CONFIDENCE))"

definition parseStructured :: "(string \<Rightarrow> string) \<Rightarrow> string \<Rightarrow> parse_exc + ParsedVerdict option" where
  "parseStructured frepr raw =
     (case parseJsonObject frepr raw of
        Inl e \<Rightarrow> Inl (Structured e)
      | Inr data \<Rightarrow>
          (case dget data ''injection'' of
             PBool b \<Rightarrow>
               (case parse_confidence (dget data ''confidence'') of
                  Inl e \<Rightarrow> Inl e
                | Inr x \<Rightarrow>
                    (case dget_or data ''reason'' (PStr []) of
                       PStr t \<Rightarrow> Inr (Some \<lparr>pv_injection = b, pv_confidence = x, pv_reason = t\<rparr>)
                     | _ \<Rightarrow> Inl (Structured SO_REASON_TYPE)))
           | _ \<Rightarrow> Inl (Structured SO_INJECTION_TYPE)))"

text \<open>\<open>_parse\<close>: the lenient entry point keeps only an exception that is no \<open>ValueError\<close>.\<close>

definition parseLenient :: "(string \<Rightarrow> string) \<Rightarrow> string \<Rightarrow> string + ParsedVerdict option" where
  "parseLenient frepr raw =
     (case parseStructured frepr raw of
        Inr v \<Rightarrow> Inr v | Inl (Structured _) \<Rightarrow> Inr None | Inl (Escapes e) \<Rightarrow> Inl e)"

text \<open>The rendered prompt of a text is the argument \<open>render\<close>, the text of a number of seconds
  \<open>fshow\<close>.\<close>

definition classify ::
  "(string \<Rightarrow> string) \<Rightarrow> (rat \<Rightarrow> string) \<Rightarrow> (string \<Rightarrow> string) \<Rightarrow> InjectionClassifier \<Rightarrow> string \<Rightarrow>
   ClassifierVerdict" where
  "classify frepr fshow render c text =
     (case ic_provider c of
        None \<Rightarrow> unchecked_verdict []
      | Some chat \<Rightarrow>
          if ic_mode c = CM_OFF then unchecked_verdict []
          else if strip text = [] then unchecked_verdict []
          else
            (let messages = [\<lparr>msg_role = ''user'', msg_content = Plain (render (take 4000 text))\<rparr>] in
             case callStructuredLLM chat messages (parseStructured frepr) MAX_STRUCTURED_ATTEMPTS of
               Inl CE_TIMEOUT \<Rightarrow> unchecked_verdict (''classifier_timeout('' @ fshow (ic_timeoutSeconds c) @ ''s)'')
             | Inl (CE_RAISED e) \<Rightarrow> unchecked_verdict (''classifier_error: '' @ e)
             | Inl CE_VALUE \<Rightarrow> unchecked_verdict ''classifier_error: ValueError''
             | Inr None \<Rightarrow> unchecked_verdict (''classifier_parse_failed_after_'' @ str_of_nat MAX_STRUCTURED_ATTEMPTS @ ''_attempts'')
             | Inr (Some result) \<Rightarrow>
                 \<lparr>cv_injection = pv_injection (slr_value result), cv_confidence = pv_confidence (slr_value result),
                  cv_reason = take 200 (pv_reason (slr_value result)), cv_checked = True, cv_error = []\<rparr>))"

section \<open>Lemmas\<close>

lemma structured_attempts_result:
  "structured_attempts chat parser n k messages = Inr (Some r) \<Longrightarrow>
     parser (slr_raw r) = Inr (Some (slr_value r)) \<and> k \<le> slr_attempts r \<and> slr_attempts r < k + n"
proof (induction n arbitrary: k messages)
  case (Suc n)
  from Suc.prems show ?case
    using Suc.IH
    by (auto simp: Let_def split: chat_outcome.splits sum.splits parse_exc.splits option.splits if_splits)
       fastforce+
qed simp

lemma structured_attempts_reply:
  "structured_attempts chat parser n k messages = Inr (Some r) \<Longrightarrow>
     (\<exists>ms. chat ms = Reply (Some (slr_raw r))) \<or> slr_raw r = []"
proof (induction n arbitrary: k messages)
  case (Suc n)
  from Suc.prems show ?case
    using Suc.IH
    by (auto simp: Let_def split: chat_outcome.splits sum.splits parse_exc.splits option.splits if_splits)
qed simp

lemma parseStructured_Nil: "parseStructured frepr [] = Inl (Structured SO_EMPTY)"
  by (simp add: parseStructured_def parseJsonObject_def strip_def rdropWhile_def)

text \<open>The provider is never asked more than \<open>n\<close> times: replies to longer conversations are not read.\<close>

lemma structured_attempts_cong:
  "(\<And>ms. length ms < length messages + 2 * n \<Longrightarrow> chat ms = chat' ms) \<Longrightarrow>
     structured_attempts chat parser n k messages = structured_attempts chat' parser n k messages"
proof (induction n arbitrary: k messages)
  case (Suc n)
  have "chat messages = chat' messages" using Suc.prems by simp
  moreover have "structured_attempts chat parser n (Suc k) (messages @ [a, b]) =
      structured_attempts chat' parser n (Suc k) (messages @ [a, b])" for a b
    by (rule Suc.IH) (use Suc.prems in simp)
  ultimately show ?case
    by (auto simp: Let_def split: chat_outcome.splits sum.splits parse_exc.splits option.splits)
qed simp

lemma parse_confidence_range: "parse_confidence v = Inr x \<Longrightarrow> 0 \<le> x \<and> x \<le> 1"
  by (auto simp: parse_confidence_def split: pyval.splits if_splits option.splits)

lemma parseStructured_range:
  "parseStructured frepr raw = Inr (Some p) \<Longrightarrow> 0 \<le> pv_confidence p \<and> pv_confidence p \<le> 1"
  using parse_confidence_range
  by (auto simp: parseStructured_def split: sum.splits pyval.splits)

section \<open>Properties\<close>

text \<open>
  The classifier fails open and never trusts an unchecked reply: a verdict is marked as
  checked only when one of at most five replies passed the strict parser, and then it reports what
  that reply says, with a confidence between 0 and 1 and at most 200 characters of reason; in every
  other case (no provider, timeout, exception, five bad replies) it reports no injection.
\<close>

theorem classify_sound:
  "(if cv_checked (classify frepr fshow render c text)
    then (\<exists>chat ms raw p. ic_provider c = Some chat \<and> chat ms = Reply (Some raw) \<and>
            parseStructured frepr raw = Inr (Some p) \<and>
            cv_injection (classify frepr fshow render c text) = pv_injection p \<and>
            cv_confidence (classify frepr fshow render c text) = pv_confidence p \<and>
            0 \<le> pv_confidence p \<and> pv_confidence p \<le> 1 \<and>
            length (cv_reason (classify frepr fshow render c text)) \<le> 200)
    else \<not> cv_injection (classify frepr fshow render c text) \<and>
         cv_confidence (classify frepr fshow render c text) = 0)"
proof -
  define ms where "ms = [\<lparr>msg_role = ''user'', msg_content = Plain (render (take 4000 text))\<rparr>]"
  show ?thesis
  proof (cases "\<exists>chat r. ic_provider c = Some chat \<and> ic_mode c \<noteq> CM_OFF \<and> strip text \<noteq> [] \<and>
      callStructuredLLM chat ms (parseStructured frepr) MAX_STRUCTURED_ATTEMPTS = Inr (Some r)")
    case True
    then obtain chat r where r: "ic_provider c = Some chat" "ic_mode c \<noteq> CM_OFF" "strip text \<noteq> []"
      "callStructuredLLM chat ms (parseStructured frepr) MAX_STRUCTURED_ATTEMPTS = Inr (Some r)" by blast
    then have sa: "structured_attempts chat (parseStructured frepr) MAX_STRUCTURED_ATTEMPTS 1 ms = Inr (Some r)"
      by (simp add: callStructuredLLM_def MAX_STRUCTURED_ATTEMPTS_def)
    from structured_attempts_result [OF sa]
    have p: "parseStructured frepr (slr_raw r) = Inr (Some (slr_value r))" by simp
    with structured_attempts_reply [OF sa] obtain ms' where "chat ms' = Reply (Some (slr_raw r))"
      by (auto simp: parseStructured_Nil)
    moreover note p parseStructured_range [OF p]
    ultimately show ?thesis using r by (auto simp: classify_def ms_def)
  next
    case False
    then have "classify frepr fshow render c text = unchecked_verdict (cv_error (classify frepr fshow render c text))"
      by (auto simp: classify_def ms_def Let_def unchecked_verdict_def split: option.splits sum.splits call_error.splits)
    then show ?thesis by (metis ClassifierVerdict.select_convs(1,2,4) unchecked_verdict_def)
  qed
qed

text \<open>
  A structured call asks the provider at most \<open>maxAttempts\<close> times, each time with two more
  messages: what the provider would answer to a longer conversation is never read.  It always
  returns, and a result carries the number of the attempt that produced it.
\<close>

theorem structured_call_bounded:
  assumes "1 \<le> maxAttempts"
    and "\<And>ms. length ms < length messages + 2 * maxAttempts \<Longrightarrow> chat ms = chat' ms"
  shows "callStructuredLLM chat messages parser maxAttempts = callStructuredLLM chat' messages parser maxAttempts \<and>
    (case callStructuredLLM chat messages parser maxAttempts of
       Inr (Some r) \<Rightarrow> parser (slr_raw r) = Inr (Some (slr_value r)) \<and> 1 \<le> slr_attempts r \<and> slr_attempts r \<le> maxAttempts
     | _ \<Rightarrow> True)"
  using structured_attempts_cong [of messages maxAttempts chat chat' parser 1] assms
    structured_attempts_result [of chat parser maxAttempts 1 messages]
  by (auto simp: callStructuredLLM_def split: sum.splits option.splits)

definition stubborn_chat :: "message list \<Rightarrow> chat_outcome" where
  "stubborn_chat ms = Reply (Some ''no json'')"

definition late_chat :: "message list \<Rightarrow> chat_outcome" where
  "late_chat ms = (if length ms < 5 then Reply (Some ''no json'') else Reply (Some ''{}''))"

theorem structured_call_bounded_witness:
  "callStructuredLLM stubborn_chat [\<lparr>msg_role = ''user'', msg_content = Plain ''q''\<rparr>] (parseStructured id) 2 =
   callStructuredLLM late_chat [\<lparr>msg_role = ''user'', msg_content = Plain ''q''\<rparr>] (parseStructured id) 2"
  using structured_call_bounded [of 2 "[\<lparr>msg_role = ''user'', msg_content = Plain ''q''\<rparr>]" stubborn_chat late_chat
      "parseStructured id"]
  by (simp add: stubborn_chat_def late_chat_def)

end
