(* ===== verification/Machine.thy ===== *)
theory Machine
  imports Regex
begin

text \<open>
  The operating system as the privileged agent sees it.  An \<open>'w os\<close> gives the meaning of the system
  operations on a world of arbitrary type \<open>'w\<close>: file queries, and effects that change it.  The
  agent runs in the state-and-exception monad \<open>act\<close> over a \<open>machine\<close>, which holds the world and a
  log of every effect performed, so that theorems can speak about what was executed.

  Paths follow \<open>pathlib.PurePosixPath\<close>: a root and the components other than the empty one and
  the single dot.  \<open>Path.resolve\<close> follows symbolic links, so it is an operation of the \<open>os\<close> and
  delivers the components of the resolved path.
\<close>

section \<open>Paths\<close>

definition path_root :: "string \<Rightarrow> string" where
  "path_root s = (if startswith s ''//'' \<and> \<not> startswith s ''///'' then ''//''
                  else if startswith s ''/'' then ''/'' else [])"

definition path_parts :: "string \<Rightarrow> string list" where
  "path_parts s = filter (\<lambda>c. c \<noteq> [] \<and> c \<noteq> ''.'') (split_on CHR ''/'' s)"

definition unparts :: "string \<Rightarrow> string list \<Rightarrow> string" where
  "unparts rt ps = (if rt = [] \<and> ps = [] then ''.'' else rt @ join ''/'' ps)"

definition path_str :: "string \<Rightarrow> string" where
  "path_str s = unparts (path_root s) (path_parts s)"

definition path_parent :: "string \<Rightarrow> string" where
  "path_parent s = unparts (path_root s) (butlast (path_parts s))"

definition is_absolute :: "string \<Rightarrow> bool" where
  "is_absolute s \<longleftrightarrow> startswith s ''/''"

text \<open>\<open>p.relative_to(q)\<close> on resolved paths raises no \<open>ValueError\<close>.\<close>

definition relative_to :: "string list \<Rightarrow> string list \<Rightarrow> bool" where
  "relative_to p q \<longleftrightarrow> prefix q p"

section \<open>Effects\<close>

type_synonym environment = "(string \<times> string) list"

text \<open>\<open>Run argv env timeout\<close>: a subprocess, with the inherited environment when \<open>env\<close> is \<open>None\<close>.\<close>

datatype effect =
    Run "string list" "environment option" "int option"
  | Mkdirs string
  | WriteText string string
  | Chmod string int
  | SymlinkTo string string
  | Unlink string

datatype outcome = Done | Proc int string string | Timeout | Exc string

record 'w os =
  os_do :: "effect \<Rightarrow> 'w \<Rightarrow> outcome \<times> 'w"
  os_resolve :: "string \<Rightarrow> 'w \<Rightarrow> string list option"
  os_exists :: "string \<Rightarrow> 'w \<Rightarrow> bool"
  os_is_file :: "string \<Rightarrow> 'w \<Rightarrow> bool"
  os_is_symlink :: "string \<Rightarrow> 'w \<Rightarrow> bool"
  os_size :: "string \<Rightarrow> 'w \<Rightarrow> nat"
  os_read :: "string \<Rightarrow> 'w \<Rightarrow> string option"
  os_iterdir :: "string \<Rightarrow> 'w \<Rightarrow> string list"

record 'w machine =
  mlog :: "effect list"
  mworld :: 'w

section \<open>Exceptions and the monad\<close>

datatype PrivilegedErrorCode =
    EC_INVALID_REQUEST | EC_UNKNOWN_ACTION | EC_PERMISSION_DENIED | EC_SERVICE_UNAVAILABLE
  | EC_COMMAND_FAILED | EC_INTERNAL_ERROR
  | EC_SIGNATURE_INVALID | EC_SIGNATURE_EXPIRED | EC_NONCE_REPLAY | EC_COMMAND_NOT_REGISTERED
  | EC_ARGS_INVALID | EC_ARGS_HASH_MISMATCH | EC_PEER_UID_DENIED | EC_TOKEN_EXHAUSTED | EC_RATE_LIMITED
  | EC_CMD_HASH_MISMATCH | EC_SCRIPT_NOT_FOUND | EC_SCRIPT_HASH_MISMATCH | EC_SCRIPT_BLACKLIST_HIT

text \<open>\<open>PrivilegedAgentActionError\<close> with its code and details, or any other exception.\<close>

datatype action_error = ActionError PrivilegedErrorCode string | PyExc string

type_synonym ('w, 'a) act = "'w machine \<Rightarrow> (action_error + 'a) \<times> 'w machine"

definition ret :: "'a \<Rightarrow> ('w, 'a) act" where
  "ret x = (\<lambda>m. (Inr x, m))"

definition raise :: "action_error \<Rightarrow> ('w, 'a) act" where
  "raise e = (\<lambda>m. (Inl e, m))"

definition bindM :: "('w, 'a) act \<Rightarrow> ('a \<Rightarrow> ('w, 'b) act) \<Rightarrow> ('w, 'b) act" where
  "bindM f g = (\<lambda>m. case f m of (Inl e, m') \<Rightarrow> (Inl e, m') | (Inr x, m') \<Rightarrow> g x m')"

definition seqM :: "('w, 'a) act \<Rightarrow> ('w, 'b) act \<Rightarrow> ('w, 'b) act" where
  "seqM f g = bindM f (\<lambda>_. g)"

definition query :: "('w \<Rightarrow> 'a) \<Rightarrow> ('w, 'a) act" where
  "query f = (\<lambda>m. (Inr (f (mworld m)), m))"

definition perform :: "'w os \<Rightarrow> effect \<Rightarrow> ('w, outcome) act" where
  "perform os e =
     (\<lambda>m. case os_do os e (mworld m) of (out, w) \<Rightarrow> (Inr out, \<lparr>mlog = mlog m @ [e], mworld = w\<rparr>))"

text \<open>An effect that raises when it fails.\<close>

definition effect_do :: "'w os \<Rightarrow> effect \<Rightarrow> ('w, unit) act" where
  "effect_do os e = bindM (perform os e) (\<lambda>out. case out of Exc x \<Rightarrow> raise (PyExc x) | _ \<Rightarrow> ret ())"

text \<open>\<open>subprocess.run(argv, capture_output=True, text=True, check=False)\<close>.\<close>

definition subprocess_run ::
  "'w os \<Rightarrow> string list \<Rightarrow> environment option \<Rightarrow> int option \<Rightarrow> ('w, int \<times> string \<times> string) act" where
  "subprocess_run os argv env timeout =
     bindM (perform os (Run argv env timeout))
       (\<lambda>out. case out of
          Proc code so se \<Rightarrow> ret (code, so, se)
        | Timeout \<Rightarrow> raise (PyExc ''TimeoutExpired'')
        | Exc x \<Rightarrow> raise (PyExc x)
        | Done \<Rightarrow> ret (0, [], []))"

section \<open>Lemmas\<close>

lemmas act_defs = ret_def raise_def bindM_def seqM_def query_def

text \<open>The effects an action adds to the log, whatever the outcomes of the system calls.\<close>

definition performs :: "('w, 'a) act \<Rightarrow> (effect \<Rightarrow> bool) \<Rightarrow> bool" where
  "performs f P \<longleftrightarrow> (\<forall>m. \<exists>es. mlog (snd (f m)) = mlog m @ es \<and> list_all P es)"

lemma performsD: "performs f P \<Longrightarrow> \<exists>es. mlog (snd (f m)) = mlog m @ es \<and> list_all P es"
  by (simp add: performs_def)

lemma performs_ret [simp, intro]: "performs (ret x) P"
  by (simp add: performs_def ret_def)

lemma performs_raise [simp, intro]: "performs (raise e) P"
  by (simp add: performs_def raise_def)

lemma performs_query [simp, intro]: "performs (query f) P"
  by (simp add: performs_def query_def)

lemma performs_bindM [intro]:
  assumes "performs f P" "\<And>x. performs (g x) P"
  shows "performs (bindM f g) P"
  unfolding performs_def
proof
  fix m
  obtain r m' where f: "f m = (r, m')" by fastforce
  with performsD [OF assms(1), of m] obtain es where es: "mlog m' = mlog m @ es" "list_all P es" by auto
  show "\<exists>es. mlog (snd (bindM f g m)) = mlog m @ es \<and> list_all P es"
  proof (cases r)
    case (Inl e)
    with f es show ?thesis by (simp add: bindM_def)
  next
    case (Inr x)
    from performsD [OF assms(2), of x m'] obtain es' where "mlog (snd (g x m')) = mlog m' @ es'" "list_all P es'"
      by blast
    with f es Inr show ?thesis by (intro exI [of _ "es @ es'"]) (simp add: bindM_def)
  qed
qed

lemma performs_seqM [intro]: "performs f P \<Longrightarrow> performs g P \<Longrightarrow> performs (seqM f g) P"
  unfolding seqM_def by blast

lemma performs_perform [intro]: "P e \<Longrightarrow> performs (perform os e) P"
  by (simp add: performs_def perform_def split: prod.splits)

lemma performs_effect_do [intro]: "P e \<Longrightarrow> performs (effect_do os e) P"
  unfolding effect_do_def by (auto split: outcome.splits)

lemma performs_subprocess_run [intro]: "P (Run argv env t) \<Longrightarrow> performs (subprocess_run os argv env t) P"
  unfolding subprocess_run_def by (auto split: outcome.splits)

lemma performs_mono: "performs f P \<Longrightarrow> (\<And>e. P e \<Longrightarrow> Q e) \<Longrightarrow> performs f Q"
  unfolding performs_def by (metis list.pred_mono_strong)

text \<open>
  An action follows a plan when the effects it performs are a prefix of the plan, and the whole plan
  if it returns a value.
\<close>

definition follows :: "('w, 'a) act \<Rightarrow> effect list \<Rightarrow> bool" where
  "follows f plan \<longleftrightarrow>
     (\<forall>m. \<exists>es. mlog (snd (f m)) = mlog m @ es \<and> prefix es plan \<and> (\<forall>x. fst (f m) = Inr x \<longrightarrow> es = plan))"

lemma followsD:
  "follows f plan \<Longrightarrow>
     \<exists>es. mlog (snd (f m)) = mlog m @ es \<and> prefix es plan \<and> (\<forall>x. fst (f m) = Inr x \<longrightarrow> es = plan)"
  by (simp add: follows_def)

lemma follows_ret [intro]: "follows (ret x) []"
  by (simp add: follows_def ret_def)

lemma follows_raise [intro]: "follows (raise e) plan"
  by (simp add: follows_def raise_def)

lemma follows_query [intro]: "follows (query f) []"
  by (simp add: follows_def query_def)

lemma follows_bindM:
  assumes "follows f p" "\<And>x. follows (g x) q"
  shows "follows (bindM f g) (p @ q)"
  unfolding follows_def
proof
  fix m
  obtain r m' where f: "f m = (r, m')" by fastforce
  from followsD [OF assms(1), of m] f obtain es where
    es: "mlog m' = mlog m @ es" "prefix es p" "\<forall>x. r = Inr x \<longrightarrow> es = p" by auto
  show "\<exists>es. mlog (snd (bindM f g m)) = mlog m @ es \<and> prefix es (p @ q) \<and>
      (\<forall>x. fst (bindM f g m) = Inr x \<longrightarrow> es = p @ q)"
  proof (cases r)
    case (Inl e)
    with f es show ?thesis by (intro exI [of _ es]) (simp add: bindM_def)
  next
    case (Inr x)
    from followsD [OF assms(2), of x m'] obtain fs where
      "mlog (snd (g x m')) = mlog m' @ fs" "prefix fs q" "\<forall>y. fst (g x m') = Inr y \<longrightarrow> fs = q" by auto
    with f es Inr show ?thesis by (intro exI [of _ "p @ fs"]) (simp add: bindM_def)
  qed
qed

lemma follows_seqM: "follows f p \<Longrightarrow> follows g q \<Longrightarrow> follows (seqM f g) (p @ q)"
  unfolding seqM_def by (rule follows_bindM)

lemma follows_perform [intro]: "follows (perform os e) [e]"
  by (simp add: follows_def perform_def split: prod.splits)

lemma follows_effect_do [intro]: "follows (effect_do os e) [e]"
proof -
  have "follows (case out of Exc x \<Rightarrow> raise (PyExc x) | _ \<Rightarrow> ret ()) []" for out :: outcome
    by (auto split: outcome.splits)
  then show ?thesis unfolding effect_do_def using follows_bindM [OF follows_perform] by fastforce
qed

lemma follows_subprocess_run [intro]: "follows (subprocess_run os argv env t) [Run argv env t]"
proof -
  have "follows (case out of Proc code so se \<Rightarrow> ret (code, so, se) | Timeout \<Rightarrow> raise (PyExc ''TimeoutExpired'')
      | Exc x \<Rightarrow> raise (PyExc x) | Done \<Rightarrow> ret (0, [], [])) []" for out :: outcome
    by (auto split: outcome.splits)
  then show ?thesis unfolding subprocess_run_def using follows_bindM [OF follows_perform] by fastforce
qed

end
