(* ===== verification/Validator.thy ===== *)
theory Validator
  imports Machine
begin

text \<open>
  The command registry of the privileged agent: \<open>privileged_agent/validator.py\<close>, and the registry
  file \<open>conf/privileged_commands.yaml\<close> as the constant \<open>PRIVILEGED_COMMANDS\<close>.

  A rule holds the parsed values of its YAML entry; \<open>None\<close> stands for a missing key.  A check
  returns \<open>None\<close>, or the exception it raises.
\<close>

section \<open>Rules\<close>

datatype val_error = ArgumentValidationError string string | PathNotAllowedError string string | ResolveError

record path_rule =
  allowed_parents :: "string list"
  max_size :: nat

record arg_rule =
  aa_actions :: "string list option"
  aa_services :: "string list option"
  aa_subcommands :: "string list option"
  aa_flags :: "string list option"
  aa_mode_regex :: "char rx option"

record CommandRule =
  cr_name :: string
  cr_description :: string
  cr_risk :: string
  command_line :: "string option"
  path_validation :: "path_rule option"
  allowed_args :: "arg_rule option"
  allowed_sql_prefixes :: "string list option"

section \<open>Argument checks\<close>

definition octal :: "char rx" where
  "octal = Cls (\<lambda>c. 48 \<le> (of_char c :: nat) \<and> (of_char c :: nat) \<le> 55)"

definition MODE_RX :: "char rx" where
  "MODE_RX = seqs [Bol, lit ''0'', octal, octal, octal, eol]"

text \<open>The first check of a list that raises.\<close>

fun first_error :: "('a \<Rightarrow> 'e option) \<Rightarrow> 'a list \<Rightarrow> 'e option" where
  "first_error f [] = None"
| "first_error f (x # xs) = (case f x of None \<Rightarrow> first_error f xs | Some e \<Rightarrow> Some e)"

definition or_else :: "'e option \<Rightarrow> 'e option \<Rightarrow> 'e option" where
  "or_else a b = (case a of None \<Rightarrow> b | Some e \<Rightarrow> Some e)"

definition is_flag :: "string \<Rightarrow> bool" where
  "is_flag arg \<longleftrightarrow> startswith arg ''--'' \<or> startswith arg ''-'' \<and> length arg > 1"

definition validate_allowed_args :: "string \<Rightarrow> arg_rule \<Rightarrow> string list \<Rightarrow> val_error option" where
  "validate_allowed_args name aa args =
     (let bad = (\<lambda>what. Some (ArgumentValidationError name what));
          actions = (case aa_actions aa of
                       Some xs \<Rightarrow> if args \<noteq> [] \<and> hd args \<notin> set xs then bad ''action'' else None
                     | None \<Rightarrow> None);
          services = (case aa_services aa of
                        Some xs \<Rightarrow> if length args > 1 \<and> args ! 1 \<notin> set xs then bad ''service'' else None
                      | None \<Rightarrow> None);
          subcommands = (case aa_subcommands aa of
                           Some xs \<Rightarrow> if args \<noteq> [] \<and> hd args \<notin> set xs then bad ''subcommand'' else None
                         | None \<Rightarrow> None);
          flags = (case aa_flags aa of
                     Some xs \<Rightarrow> first_error (\<lambda>arg. if is_flag arg \<and> arg \<notin> set xs then bad ''flag'' else None) args
                   | None \<Rightarrow> None);
          modes = (case aa_mode_regex aa of
                     Some r \<Rightarrow> first_error (\<lambda>arg. if match_here MODE_RX arg then None
                                                  else if startswith arg ''/'' then None
                                                  else if match_here r arg then None else bad ''mode'') args
                   | None \<Rightarrow> None)
      in or_else actions (or_else services (or_else subcommands (or_else flags modes))))"

text \<open>
  \<open>_validate_paths\<close>.  All allowed parents are resolved first, \<open>None\<close> when one of them cannot be (the exception of
  \<open>Path.resolve\<close> is not caught).
\<close>

definition resolved_parents :: "'w os \<Rightarrow> 'w \<Rightarrow> string list \<Rightarrow> string list list option" where
  "resolved_parents os w ps = those (map (\<lambda>p. os_resolve os p w) ps)"

definition validate_path :: "'w os \<Rightarrow> 'w \<Rightarrow> string \<Rightarrow> path_rule \<Rightarrow> string list list \<Rightarrow> string \<Rightarrow> val_error option" where
  "validate_path os w name pv allowed_resolved arg =
     (if startswith arg ''-'' then None
      else if \<not> is_absolute arg then None
      else case os_resolve os arg w of
        None \<Rightarrow> Some (PathNotAllowedError name arg)
      | Some resolved \<Rightarrow>
          if \<not> list_ex (relative_to resolved) allowed_resolved
          then Some (PathNotAllowedError name arg)
          else if 0 < max_size pv \<and> os_exists os (path_str arg) w \<and> os_is_file os (path_str arg) w \<and>
                  max_size pv < os_size os (path_str arg) w
          then Some (ArgumentValidationError name ''size'')
          else None)"

definition validate_paths :: "'w os \<Rightarrow> 'w \<Rightarrow> string \<Rightarrow> path_rule \<Rightarrow> string list \<Rightarrow> val_error option" where
  "validate_paths os w name pv args =
     (case resolved_parents os w (allowed_parents pv) of
        None \<Rightarrow> Some ResolveError
      | Some allowed_resolved \<Rightarrow> first_error (validate_path os w name pv allowed_resolved) args)"

definition validate_sql_prefix :: "string \<Rightarrow> string list \<Rightarrow> string list \<Rightarrow> val_error option" where
  "validate_sql_prefix name allowed args =
     (let sql = upper (strip (join '' '' args)) in
      if list_ex (\<lambda>p. startswith sql (upper p)) allowed then None
      else Some (ArgumentValidationError name ''sql''))"

text \<open>The checks of a rule without a fixed command line, then \<open>validate\<close>.\<close>

definition validate_open :: "'w os \<Rightarrow> 'w \<Rightarrow> CommandRule \<Rightarrow> string list \<Rightarrow> val_error option" where
  "validate_open os w rule args =
     or_else (case allowed_args rule of Some aa \<Rightarrow> validate_allowed_args (cr_name rule) aa args | None \<Rightarrow> None)
       (or_else (case path_validation rule of Some pv \<Rightarrow> validate_paths os w (cr_name rule) pv args | None \<Rightarrow> None)
          (case allowed_sql_prefixes rule of
             Some ps \<Rightarrow> if ps \<noteq> [] \<and> args \<noteq> [] then validate_sql_prefix (cr_name rule) ps args else None
           | None \<Rightarrow> None))"

definition validate :: "'w os \<Rightarrow> 'w \<Rightarrow> CommandRule \<Rightarrow> string list \<Rightarrow> val_error option" where
  "validate os w rule args =
     (case command_line rule of
        Some line \<Rightarrow>
          if line \<noteq> [] then (if args \<noteq> [] then Some (ArgumentValidationError (cr_name rule) ''fixed'') else None)
          else validate_open os w rule args
      | None \<Rightarrow> validate_open os w rule args)"

section \<open>Registry\<close>

type_synonym CommandRegistry = "(string \<times> CommandRule) list"

text \<open>\<open>_load\<close> of the parsed entries: a name given twice keeps its last entry.\<close>

definition registry_load :: "(string \<times> CommandRule) list \<Rightarrow> CommandRegistry" where
  "registry_load commands = foldl (\<lambda>rules (name, raw). AList.update name (raw\<lparr>cr_name := name\<rparr>) rules) [] commands"

definition registry_lookup :: "CommandRegistry \<Rightarrow> string \<Rightarrow> CommandRule option" where
  "registry_lookup reg command = map_of reg command"

definition registry_has :: "CommandRegistry \<Rightarrow> string \<Rightarrow> bool" where
  "registry_has reg command \<longleftrightarrow> command \<in> fst ` set reg"

definition list_by_risk :: "CommandRegistry \<Rightarrow> string \<Rightarrow> (string \<times> string) list" where
  "list_by_risk reg risk =
     map (\<lambda>(name, rule). (name, cr_description rule)) (filter (\<lambda>(name, rule). cr_risk rule = risk) reg)"

text \<open>The entries of \<open>conf/privileged_commands.yaml\<close>.\<close>

definition rule_of :: "string \<Rightarrow> CommandRule" where
  "rule_of risk = \<lparr>cr_name = [], cr_description = [], cr_risk = risk, command_line = None, path_validation = None,
     allowed_args = None, allowed_sql_prefixes = None\<rparr>"

definition under :: "string list \<Rightarrow> path_rule option" where
  "under ps = Some \<lparr>allowed_parents = ps, max_size = 0\<rparr>"

definition no_args :: arg_rule where
  "no_args = \<lparr>aa_actions = None, aa_services = None, aa_subcommands = None, aa_flags = None, aa_mode_regex = None\<rparr>"

definition PRIVILEGED_COMMANDS :: "(string \<times> CommandRule) list" where
  "PRIVILEGED_COMMANDS = [
    (''mkdir'', (rule_of ''write'')\<lparr>path_validation := under [''/etc/nginx'', ''/var/www'', ''/opt/ndlmpanel'']\<rparr>),
    (''write_file'', (rule_of ''write'')\<lparr>path_validation :=
       Some \<lparr>allowed_parents = [''/etc/nginx'', ''/var/www'', ''/opt/ndlmpanel'', ''/etc/docker''], max_size = 10485760\<rparr>\<rparr>),
    (''chmod'', (rule_of ''write'')\<lparr>allowed_args := Some (no_args\<lparr>aa_mode_regex := Some MODE_RX\<rparr>),
       path_validation := under [''/etc/nginx'', ''/var/www'', ''/opt/ndlmpanel'']\<rparr>),
    (''touch'', (rule_of ''write'')\<lparr>path_validation := under [''/etc/nginx'', ''/var/www'', ''/opt/ndlmpanel'']\<rparr>),
    (''rm'', (rule_of ''dangerous'')\<lparr>allowed_args := Some (no_args\<lparr>aa_flags := Some [''-f'', ''-rf'']\<rparr>),
       path_validation := under [''/var/www'', ''/opt/ndlmpanel/tmp_scripts'']\<rparr>),
    (''nginx_test'', (rule_of ''read_only'')\<lparr>command_line := Some ''nginx -t''\<rparr>),
    (''nginx_reload'', (rule_of ''write'')\<lparr>command_line := Some ''systemctl reload nginx''\<rparr>),
    (''nginx_restart'', (rule_of ''write'')\<lparr>command_line := Some ''systemctl restart nginx''\<rparr>),
    (''systemctl'', (rule_of ''write'')\<lparr>allowed_args := Some (no_args\<lparr>
       aa_actions := Some [''reload'', ''restart'', ''start'', ''stop'', ''enable'', ''disable''],
       aa_services := Some [''nginx'', ''docker'', ''firewalld'', ''sshd'', ''mysql'', ''php-fpm'']\<rparr>)\<rparr>),
    (''certbot'', (rule_of ''write'')\<lparr>allowed_args := Some (no_args\<lparr>
       aa_subcommands := Some [''certonly'', ''renew''],
       aa_flags := Some [''--webroot'', ''--non-interactive'', ''--agree-tos'']\<rparr>)\<rparr>),
    (''mysql_exec'', (rule_of ''write'')\<lparr>allowed_sql_prefixes :=
       Some [''CREATE DATABASE'', ''CREATE USER'', ''GRANT'', ''SHOW'', ''SELECT'', ''ALTER USER'', ''FLUSH'']\<rparr>),
    (''firewall_cmd'', (rule_of ''write'')\<lparr>allowed_args := Some (no_args\<lparr>
       aa_subcommands := Some [''--add-port'', ''--remove-port'', ''--list-ports'', ''--add-rich-rule'',
         ''--remove-rich-rule'', ''--list-rich-rules'', ''--reload'', ''--state'', ''--get-default-zone''],
       aa_flags := Some [''--permanent'']\<rparr>)\<rparr>),
    (''docker_daemon'', (rule_of ''write'')\<lparr>command_line := Some ''systemctl restart docker''\<rparr>),
    (''cat'', (rule_of ''read_only'')\<lparr>path_validation := under [''/etc/nginx'', ''/var/log'', ''/opt/ndlmpanel'']\<rparr>),
    (''ls'', rule_of ''read_only''),
    (''exec_arbitrary_cmd'', rule_of ''dangerous''),
    (''exec_arbitrary_script'', (rule_of ''dangerous'')\<lparr>path_validation := under [''/opt/ndlmpanel/tmp_scripts'']\<rparr>)]"

section \<open>Lemmas\<close>

lemma first_error_None [simp]: "first_error f xs = None \<longleftrightarrow> (\<forall>x \<in> set xs. f x = None)"
  by (induction xs) (auto split: option.splits)

lemma or_else_None [simp]: "or_else a b = None \<longleftrightarrow> a = None \<and> b = None"
  by (auto simp: or_else_def split: option.splits)

text \<open>What each check demands, without the order in which the code looks for an error.\<close>

definition args_conform :: "arg_rule \<Rightarrow> string list \<Rightarrow> bool" where
  "args_conform aa args \<longleftrightarrow>
     (args \<noteq> [] \<longrightarrow> (\<forall>xs. aa_actions aa = Some xs \<longrightarrow> hd args \<in> set xs) \<and>
                    (\<forall>xs. aa_subcommands aa = Some xs \<longrightarrow> hd args \<in> set xs)) \<and>
     (1 < length args \<longrightarrow> (\<forall>xs. aa_services aa = Some xs \<longrightarrow> args ! 1 \<in> set xs)) \<and>
     (\<forall>arg \<in> set args.
        (\<forall>xs. aa_flags aa = Some xs \<longrightarrow> is_flag arg \<longrightarrow> arg \<in> set xs) \<and>
        (\<forall>r. aa_mode_regex aa = Some r \<longrightarrow> match_here MODE_RX arg \<or> startswith arg ''/'' \<or> match_here r arg))"

definition path_conforms :: "'w os \<Rightarrow> 'w \<Rightarrow> path_rule \<Rightarrow> string \<Rightarrow> bool" where
  "path_conforms os w pv arg \<longleftrightarrow>
     (\<exists>resolved parent par. os_resolve os arg w = Some resolved \<and> parent \<in> set (allowed_parents pv) \<and>
        os_resolve os parent w = Some par \<and> prefix par resolved) \<and>
     (0 < max_size pv \<and> os_exists os (path_str arg) w \<and> os_is_file os (path_str arg) w \<longrightarrow>
        os_size os (path_str arg) w \<le> max_size pv)"

definition paths_conform :: "'w os \<Rightarrow> 'w \<Rightarrow> path_rule \<Rightarrow> string list \<Rightarrow> bool" where
  "paths_conform os w pv args \<longleftrightarrow> (\<forall>parent \<in> set (allowed_parents pv). os_resolve os parent w \<noteq> None) \<and>
     (\<forall>arg \<in> set args. is_absolute arg \<longrightarrow> path_conforms os w pv arg)"

definition conforms :: "'w os \<Rightarrow> 'w \<Rightarrow> CommandRule \<Rightarrow> string list \<Rightarrow> bool" where
  "conforms os w rule args \<longleftrightarrow>
     (if (\<exists>line. command_line rule = Some line \<and> line \<noteq> []) then args = []
      else (\<forall>aa. allowed_args rule = Some aa \<longrightarrow> args_conform aa args) \<and>
           (\<forall>pv. path_validation rule = Some pv \<longrightarrow> paths_conform os w pv args) \<and>
           (\<forall>ps. allowed_sql_prefixes rule = Some ps \<longrightarrow> ps \<noteq> [] \<longrightarrow> args \<noteq> [] \<longrightarrow>
              (\<exists>p \<in> set ps. startswith (upper (strip (join '' '' args))) (upper p))))"

lemma validate_allowed_args_None: "validate_allowed_args name aa args = None \<longleftrightarrow> args_conform aa args"
  by (auto simp: validate_allowed_args_def args_conform_def Let_def split: option.splits if_splits)

lemma those_Some: "those xs = Some ys \<longleftrightarrow> xs = map Some ys"
proof (induction xs arbitrary: ys)
  case (Cons x xs)
  then show ?case by (cases x; cases ys) auto
qed auto

lemma set_resolved_parents:
  assumes "resolved_parents os w ps = Some qs"
  shows "q \<in> set qs \<longleftrightarrow> (\<exists>p \<in> set ps. os_resolve os p w = Some q)"
proof -
  have "map (\<lambda>p. os_resolve os p w) ps = map Some qs" using assms by (simp add: resolved_parents_def those_Some)
  then have "(\<lambda>p. os_resolve os p w) ` set ps = Some ` set qs" by (metis list.set_map)
  then show ?thesis by (auto simp: image_iff set_eq_iff) (metis option.inject)+
qed

lemma resolved_parents_None: "resolved_parents os w ps = None \<longleftrightarrow> (\<exists>p \<in> set ps. os_resolve os p w = None)"
  by (induction ps) (auto simp: resolved_parents_def split: option.splits)

lemma absolute_not_flag: "is_absolute arg \<Longrightarrow> \<not> startswith arg ''-''"
  by (auto simp: is_absolute_def startswith_def prefix_def)

lemma validate_path_None:
  assumes r: "resolved_parents os w (allowed_parents pv) = Some qs"
  shows "validate_path os w name pv qs arg = None \<longleftrightarrow> (is_absolute arg \<longrightarrow> path_conforms os w pv arg)"
proof (cases "is_absolute arg")
  case True
  note nf = absolute_not_flag [OF True]
  show ?thesis
  proof (cases "os_resolve os arg w")
    case None
    then show ?thesis using True nf by (simp add: validate_path_def path_conforms_def)
  next
    case (Some res)
    then show ?thesis
      using True nf set_resolved_parents [OF r]
      by (auto simp: validate_path_def path_conforms_def list_ex_iff relative_to_def not_less)
  qed
qed (simp add: validate_path_def)

lemma validate_paths_None: "validate_paths os w name pv args = None \<longleftrightarrow> paths_conform os w pv args"
proof (cases "resolved_parents os w (allowed_parents pv)")
  case None
  moreover have "\<exists>p \<in> set (allowed_parents pv). os_resolve os p w = None" using None by (simp add: resolved_parents_None)
  ultimately show ?thesis by (auto simp: validate_paths_def paths_conform_def)
next
  case (Some qs)
  then have "\<not> (\<exists>p \<in> set (allowed_parents pv). os_resolve os p w = None)" using resolved_parents_None by (metis option.discI)
  then show ?thesis using Some validate_path_None [OF Some] by (simp add: validate_paths_def paths_conform_def)
qed

lemma validate_sql_prefix_None:
  "validate_sql_prefix name ps args = None \<longleftrightarrow>
     (\<exists>p \<in> set ps. startswith (upper (strip (join '' '' args))) (upper p))"
  by (auto simp: validate_sql_prefix_def list_ex_iff Let_def)

lemma validate_open_None:
  "validate_open os w rule args = None \<longleftrightarrow>
     (\<forall>aa. allowed_args rule = Some aa \<longrightarrow> args_conform aa args) \<and>
     (\<forall>pv. path_validation rule = Some pv \<longrightarrow> paths_conform os w pv args) \<and>
     (\<forall>ps. allowed_sql_prefixes rule = Some ps \<longrightarrow> ps \<noteq> [] \<longrightarrow> args \<noteq> [] \<longrightarrow>
        (\<exists>p \<in> set ps. startswith (upper (strip (join '' '' args))) (upper p)))"
  by (auto simp: validate_open_def validate_allowed_args_None validate_paths_None
      validate_sql_prefix_None split: option.splits)

lemma validate_None: "validate os w rule args = None \<longleftrightarrow> conforms os w rule args"
  by (auto simp: validate_def conforms_def validate_open_None split: option.splits)

section \<open>Properties\<close>

definition registered_rule :: "string \<Rightarrow> CommandRule" where
  "registered_rule name = the (registry_lookup (registry_load PRIVILEGED_COMMANDS) name)"

lemma registered_rule_eq:
  "command_line (registered_rule ''firewall_cmd'') = None \<and>
   allowed_args (registered_rule ''firewall_cmd'') = Some (no_args\<lparr>
       aa_subcommands := Some [''--add-port'', ''--remove-port'', ''--list-ports'', ''--add-rich-rule'',
         ''--remove-rich-rule'', ''--list-rich-rules'', ''--reload'', ''--state'', ''--get-default-zone''],
       aa_flags := Some [''--permanent'']\<rparr>) \<and>
   path_validation (registered_rule ''firewall_cmd'') = None \<and>
   allowed_sql_prefixes (registered_rule ''firewall_cmd'') = None"
  "command_line (registered_rule ''cat'') = None \<and> allowed_args (registered_rule ''cat'') = None \<and>
   path_validation (registered_rule ''cat'') = under [''/etc/nginx'', ''/var/log'', ''/opt/ndlmpanel''] \<and>
   allowed_sql_prefixes (registered_rule ''cat'') = None"
  by (simp_all add: registered_rule_def registry_lookup_def registry_load_def PRIVILEGED_COMMANDS_def rule_of_def)

text \<open>
  The registered \<open>firewall_cmd\<close> accepts no command line at all except the empty one: every
  subcommand it lists starts with two dashes, and the flag list, which holds \<open>--permanent\<close> only,
  refuses it.
\<close>

lemma firewall_cmd_unusable:
  "validate os w (registered_rule ''firewall_cmd'') args = None \<longleftrightarrow> args = []"
proof (cases args)
  case (Cons a as)
  have "\<not> args_conform (no_args\<lparr>
       aa_subcommands := Some [''--add-port'', ''--remove-port'', ''--list-ports'', ''--add-rich-rule'',
         ''--remove-rich-rule'', ''--list-rich-rules'', ''--reload'', ''--state'', ''--get-default-zone''],
       aa_flags := Some [''--permanent'']\<rparr>) args"
    by (auto simp: args_conform_def Cons is_flag_def startswith_def no_args_def)
  then show ?thesis
    using registered_rule_eq(1) by (simp add: validate_def validate_open_None Cons)
qed (use registered_rule_eq(1) in \<open>simp add: validate_def validate_open_None args_conform_def\<close>)

text \<open>
  A relative path is never checked: the registered \<open>cat\<close>, meant for three directories, accepts
  a path that climbs out of the working directory to any file, whenever these directories can be resolved.
\<close>

lemma relative_path_unchecked:
  assumes "list_all (\<lambda>d. os_resolve os d w \<noteq> None) [''/etc/nginx'', ''/var/log'', ''/opt/ndlmpanel'']"
  shows "validate os w (registered_rule ''cat'') [''../../../etc/shadow''] = None \<and>
   (validate os w (registered_rule ''cat'') [''/etc/shadow''] = None \<longleftrightarrow>
      path_conforms os w (the (under [''/etc/nginx'', ''/var/log'', ''/opt/ndlmpanel''])) ''/etc/shadow'')"
  using registered_rule_eq(2) assms
  by (simp add: validate_def validate_open_None paths_conform_def is_absolute_def startswith_def under_def)

end
