(* ===== verification/Replay.thy ===== *)
theory Replay
  imports Regex
begin

text \<open>
  Interfaces the two socket servers share: the refusal of replayed nonces (locale
  \<open>nonce_guard\<close>, interpreted in \<open>InternalRpc\<close> and \<open>PrivServer\<close>) together with the freshness of
  time stamps (locale \<open>replay_guard\<close>), and reading a line from a stream socket.
\<close>

section \<open>Nonce guards\<close>

text \<open>
  \<open>check now n s\<close> tests and records the nonce \<open>n\<close> at time \<open>now\<close>; \<open>expiry s n\<close> is the time until
  which the store remembers it.
\<close>

locale nonce_guard =
  fixes check :: "timestamp \<Rightarrow> string \<Rightarrow> 's \<Rightarrow> bool \<times> 's"
    and expiry :: "'s \<Rightarrow> string \<Rightarrow> timestamp option"
    and ttl :: timestamp
  assumes stored: "fst (check now n s) \<Longrightarrow> expiry (snd (check now n s)) n = Some (now + ttl)"
    and refuses: "expiry s n = Some e \<Longrightarrow> now \<le> e \<Longrightarrow> \<not> fst (check now n s)"
    and keeps: "expiry s n = Some e \<Longrightarrow> now \<le> e \<Longrightarrow> expiry (snd (check now m s)) n = Some e"
begin

definition run :: "(timestamp \<times> string) list \<Rightarrow> 's \<Rightarrow> 's" where
  "run ops s = foldl (\<lambda>s (t, m). snd (check t m s)) s ops"

lemma run_simps [simp]:
  "run [] s = s" "run ((t, m) # ops) s = run ops (snd (check t m s))"
  by (simp_all add: run_def)

lemma run_keeps:
  "expiry s n = Some e \<Longrightarrow> \<forall>(t, m) \<in> set ops. t \<le> e \<Longrightarrow> expiry (run ops s) n = Some e"
  by (induction ops arbitrary: s) (auto simp: keeps)

lemma no_second_accept:
  assumes "fst (check t1 n s)" "\<forall>(t, m) \<in> set ops. t \<le> t1 + ttl" "t2 \<le> t1 + ttl"
  shows "\<not> fst (check t2 n (run ops (snd (check t1 n s))))"
  using refuses [OF run_keeps [OF stored [OF assms(1)] assms(2)] assms(3)] .

end

text \<open>
  A guard that also bounds the distance between the request's own time stamp and the clock.  The
  clock is read once for the freshness test (\<open>f\<close>) and once for the nonce (\<open>t\<close>).  A request is
  refused the second time as long as the second nonce test is not delayed by more than
  \<open>ttl - 2 * tolerance\<close> after its freshness test.
\<close>

locale replay_guard = nonce_guard +
  fixes fresh :: "timestamp \<Rightarrow> 'ts \<Rightarrow> bool" and instant :: "'ts \<Rightarrow> timestamp" and tolerance :: timestamp
  assumes fresh_near: "fresh now ts \<Longrightarrow> \<bar>instant ts - now\<bar> \<le> tolerance"
begin

lemma fresh_window: "fresh f1 ts \<Longrightarrow> fresh f2 ts \<Longrightarrow> f2 - f1 \<le> 2 * tolerance"
  using fresh_near [of f1 ts] fresh_near [of f2 ts] by linarith

lemma no_replay:
  assumes "fresh f1 ts" "fst (check t1 n s)" "f1 \<le> t1"
    and "\<forall>(t, m) \<in> set ops. t \<le> t2"
    and "fresh f2 ts" "t2 - f2 \<le> ttl - 2 * tolerance"
  shows "\<not> fst (check t2 n (run ops (snd (check t1 n s))))"
proof -
  have t2: "t2 \<le> t1 + ttl" using fresh_window [OF assms(1,5)] assms(3,6) by linarith
  then have "\<forall>(t, m) \<in> set ops. t \<le> t1 + ttl" using assms(4) by fastforce
  then show ?thesis by (rule no_second_accept [OF assms(2) _ t2])
qed

end

section \<open>Dates\<close>

text \<open>What \<open>datetime.fromisoformat\<close> delivers: the wall-clock time in seconds and the UTC offset.\<close>

record datetime =
  dt_wall :: rat
  dt_offset :: "rat option"

section \<open>Reading a line\<close>

text \<open>
  \<open>recv\<close> delivers the stream in chunks, an empty chunk or the end of the list being the end of the
  stream.  Both servers append chunks until the text read so far ends with a newline; the chunk
  list bounds the loop.
\<close>

fun read_until_newline :: "string \<Rightarrow> string list \<Rightarrow> string" where
  "read_until_newline raw chunks =
     (if endswith raw [newline] then raw
      else case chunks of
             [] \<Rightarrow> raw
           | chunk # rest \<Rightarrow> if chunk = [] then raw else read_until_newline (raw @ chunk) rest)"

declare read_until_newline.simps [simp del]

end
