(* ===== verification/InternalRpc.thy ===== *)
theory InternalRpc
  imports Json Utf8 Replay
begin

text \<open>
  The backend's internal RPC over a Unix socket: \<open>internal_rpc/models.py\<close>, \<open>config.py\<close>,
  \<open>security.py\<close>, \<open>server.py\<close> and \<open>client.py\<close>, with \<open>sign\<close>, \<open>verify\<close> and \<open>hash_payload\<close> of
  \<open>privileged_agent/crypto.py\<close>.

  Arguments that stand for code outside the repository: the Ed25519 primitives (\<open>ed_sign\<close>,
  \<open>ed_verify\<close>, on the base64 signature text), \<open>datetime.fromisoformat\<close> (\<open>fromiso\<close>), the integer
  coercion of pydantic (\<open>coerce_int\<close>, \<open>coerce_bool\<close>) and the registered handlers, functions on a
  world of arbitrary type.
\<close>

section \<open>Signatures (crypto.py)\<close>

definition sign_payload :: "('priv \<Rightarrow> string \<Rightarrow> string) \<Rightarrow> pydict \<Rightarrow> 'priv \<Rightarrow> string" where
  "sign_payload ed_sign payload priv = ed_sign priv (canonical (PDict payload))"

definition verify_payload ::
  "('pub \<Rightarrow> string \<Rightarrow> string \<Rightarrow> bool) \<Rightarrow> pydict \<Rightarrow> string \<Rightarrow> 'pub \<Rightarrow> bool" where
  "verify_payload ed_verify payload signature pub = ed_verify pub (canonical (PDict payload)) signature"

definition hash_payload :: "(string \<Rightarrow> string) \<Rightarrow> pydict \<Rightarrow> string" where
  "hash_payload sha256 payload = sha256 (canonical (PDict payload))"

section \<open>Messages (models.py)\<close>

datatype InternalRpcErrorCode =
    INVALID_REQUEST | PEER_UID_DENIED | SIGNATURE_INVALID | SIGNATURE_EXPIRED | NONCE_REPLAY
  | UNKNOWN_METHOD | INTERNAL_ERROR | SERVICE_UNAVAILABLE

record InternalRpcCaller =
  cl_source :: string
  cl_userId :: "int option"

record InternalRpcRequest =
  rq_requestId :: string
  rq_method :: string
  rq_params :: pydict
  rq_caller :: InternalRpcCaller
  rq_timestamp :: string
  rq_nonce :: string
  rq_signature :: string

record InternalRpcResponse =
  rs_success :: bool
  rs_auditId :: string
  rs_data :: "pyval option"
  rs_errorCode :: "InternalRpcErrorCode option"
  rs_errorDetails :: "string option"

text \<open>A string field with its length bounds.\<close>

definition str_field :: "nat \<Rightarrow> nat option \<Rightarrow> pyval \<Rightarrow> string option" where
  "str_field lo hi v =
     (case v of
        PStr s \<Rightarrow> if lo \<le> length s \<and> (case hi of None \<Rightarrow> True | Some h \<Rightarrow> length s \<le> h) then Some s else None
      | _ \<Rightarrow> None)"

definition parse_caller :: "(pyval \<Rightarrow> int option) \<Rightarrow> pyval \<Rightarrow> InternalRpcCaller option" where
  "parse_caller coerce_int v =
     (case v of
        PDict d \<Rightarrow>
          (case str_field 1 (Some 100) (dget d ''source'') of
             None \<Rightarrow> None
           | Some src \<Rightarrow>
               (case dget d ''userId'' of
                  PNone \<Rightarrow> Some \<lparr>cl_source = src, cl_userId = None\<rparr>
                | u \<Rightarrow> (case coerce_int u of
                          None \<Rightarrow> None
                        | Some i \<Rightarrow> Some \<lparr>cl_source = src, cl_userId = Some i\<rparr>)))
      | _ \<Rightarrow> None)"

text \<open>\<open>InternalRpcRequest(**raw_data)\<close>, \<open>None\<close> for the validation error.\<close>

definition parse_request :: "(pyval \<Rightarrow> int option) \<Rightarrow> pyval \<Rightarrow> InternalRpcRequest option" where
  "parse_request coerce_int raw_data =
     (case raw_data of
        PDict d \<Rightarrow>
          (case (str_field 1 (Some 100) (dget d ''requestId''), str_field 1 (Some 120) (dget d ''method''),
                 dget_or d ''params'' (PDict []), parse_caller coerce_int (dget d ''caller''),
                 str_field 1 None (dget d ''timestamp''), str_field 8 (Some 128) (dget d ''nonce''),
                 str_field 1 None (dget d ''signature'')) of
             (Some rid, Some meth, PDict ps, Some cl, Some ts, Some n, Some sig) \<Rightarrow>
               Some \<lparr>rq_requestId = rid, rq_method = meth, rq_params = ps, rq_caller = cl,
                     rq_timestamp = ts, rq_nonce = n, rq_signature = sig\<rparr>
           | _ \<Rightarrow> None)
      | _ \<Rightarrow> None)"

section \<open>Security (security.py)\<close>

definition dump_caller :: "InternalRpcCaller \<Rightarrow> pyval" where
  "dump_caller c = PDict [(''source'', PStr (cl_source c)),
     (''userId'', case cl_userId c of None \<Rightarrow> PNone | Some i \<Rightarrow> PInt i)]"

definition model_dump :: "InternalRpcRequest \<Rightarrow> pydict" where
  "model_dump r =
     [(''requestId'', PStr (rq_requestId r)), (''method'', PStr (rq_method r)), (''params'', PDict (rq_params r)),
      (''caller'', dump_caller (rq_caller r)), (''timestamp'', PStr (rq_timestamp r)),
      (''nonce'', PStr (rq_nonce r)), (''signature'', PStr (rq_signature r))]"

definition signature_payload :: "pydict \<Rightarrow> pydict" where
  "signature_payload data =
     [(''requestId'', dget data ''requestId''), (''method'', dget data ''method''),
      (''params'', dget_or data ''params'' (PDict [])), (''caller'', dget data ''caller''),
      (''timestamp'', dget data ''timestamp''), (''nonce'', dget data ''nonce'')]"

definition sign_request_payload :: "('priv \<Rightarrow> string \<Rightarrow> string) \<Rightarrow> pydict \<Rightarrow> 'priv \<Rightarrow> string" where
  "sign_request_payload ed_sign payload priv = sign_payload ed_sign (signature_payload payload) priv"

definition verify_request_signature ::
  "('pub \<Rightarrow> string \<Rightarrow> string \<Rightarrow> bool) \<Rightarrow> InternalRpcRequest \<Rightarrow> 'pub \<Rightarrow> bool" where
  "verify_request_signature ed_verify r pub =
     verify_payload ed_verify (signature_payload (model_dump r)) (rq_signature r) pub"

text \<open>The credentials of \<open>SO_PEERCRED\<close> are \<open>None\<close> when \<open>getsockopt\<close> fails.\<close>

definition verify_peercred :: "(int \<times> int \<times> int) option \<Rightarrow> int set \<Rightarrow> (int \<times> int \<times> int) option" where
  "verify_peercred cred allowed_uids =
     (case cred of
        None \<Rightarrow> None
      | Some (pid, uid, gid) \<Rightarrow> if uid \<notin> allowed_uids then None else Some (pid, uid, gid))"

definition utc_instant :: "datetime \<Rightarrow> timestamp" where
  "utc_instant ts = (case dt_offset ts of None \<Rightarrow> dt_wall ts | Some off \<Rightarrow> dt_wall ts - off)"

definition check_timestamp_freshness ::
  "(string \<Rightarrow> datetime option) \<Rightarrow> rat \<Rightarrow> timestamp \<Rightarrow> string \<Rightarrow> bool" where
  "check_timestamp_freshness fromiso tolerance_seconds now timestamp_str =
     (case fromiso timestamp_str of
        None \<Rightarrow> False
      | Some ts \<Rightarrow> \<bar>utc_instant ts - now\<bar> \<le> tolerance_seconds)"

text \<open>\<open>NonceStore.check_and_store\<close> on the items of the store.\<close>

type_synonym nonce_items = "(string \<times> timestamp) list"

definition check_and_store ::
  "timestamp \<Rightarrow> timestamp \<Rightarrow> string \<Rightarrow> nonce_items \<Rightarrow> bool \<times> nonce_items" where
  "check_and_store ttl_seconds now nonce items =
     (let live = filter (\<lambda>(key, expiry). \<not> expiry < now) items in
      if map_of live nonce \<noteq> None then (False, live)
      else (True, AList.update nonce (now + ttl_seconds) live))"

section \<open>Server (server.py)\<close>

type_synonym 'w handler = "pydict \<Rightarrow> InternalRpcRequest \<Rightarrow> 'w \<Rightarrow> (string + pyval) \<times> 'w"

record ('pub, 'w) InternalRpcServer =
  sv_handlers :: "string \<Rightarrow> 'w handler option"
  sv_public_key :: "'pub option"
  sv_public_key_path :: string
  sv_allowed_uids :: "int set"
  sv_timestamp_tolerance :: rat
  sv_nonce_ttl :: rat

text \<open>What the outside gives to one request: the peer's credentials, the audit id, the clock read
  by the freshness test and the clock read by the nonce store.\<close>

record request_ctx =
  rc_cred :: "(int \<times> int \<times> int) option"
  rc_audit :: string
  rc_now :: timestamp
  rc_nonce_now :: timestamp

text \<open>The external primitives.\<close>

record 'pub primitives =
  pr_verify :: "'pub \<Rightarrow> string \<Rightarrow> string \<Rightarrow> bool"
  pr_iso :: "string \<Rightarrow> datetime option"
  pr_int :: "pyval \<Rightarrow> int option"
  pr_frepr :: "string \<Rightarrow> string"

definition rpc_error :: "string \<Rightarrow> InternalRpcErrorCode \<Rightarrow> string option \<Rightarrow> InternalRpcResponse" where
  "rpc_error audit_id code details =
     \<lparr>rs_success = False, rs_auditId = audit_id, rs_data = None, rs_errorCode = Some code,
      rs_errorDetails = details\<rparr>"

definition read_line :: "string list \<Rightarrow> string" where
  "read_line chunks = rstrip_chars [newline] (read_until_newline [] chunks)"

definition decode_request :: "'pub primitives \<Rightarrow> string \<Rightarrow> InternalRpcRequest option" where
  "decode_request pr raw =
     (case utf8_decode raw of
        None \<Rightarrow> None
      | Some text \<Rightarrow>
          (case loads (pr_frepr pr) text of
             None \<Rightarrow> None
           | Some raw_data \<Rightarrow> parse_request (pr_int pr) raw_data))"

text \<open>Exceptions of a validation step appear as the constant text \<open>''ValidationError''\<close>.\<close>

definition handle_raw ::
  "'pub primitives \<Rightarrow> ('pub, 'w) InternalRpcServer \<Rightarrow> request_ctx \<Rightarrow> string \<Rightarrow> nonce_items \<times> 'w \<Rightarrow>
   InternalRpcResponse \<times> nonce_items \<times> 'w" where
  "handle_raw pr sv ctx raw st =
     (let err = (\<lambda>code details. (rpc_error (rc_audit ctx) code details, st)) in
      if raw = [] then err INVALID_REQUEST None
      else if verify_peercred (rc_cred ctx) (sv_allowed_uids sv) = None
        then err PEER_UID_DENIED (Some ''PermissionError'')
      else case decode_request pr raw of
        None \<Rightarrow> err INVALID_REQUEST (Some ''ValidationError'')
      | Some request \<Rightarrow>
          (case sv_public_key sv of
             None \<Rightarrow> err SIGNATURE_INVALID (Some (sv_public_key_path sv))
           | Some pub \<Rightarrow>
               if \<not> verify_request_signature (pr_verify pr) request pub then err SIGNATURE_INVALID None
               else if \<not> check_timestamp_freshness (pr_iso pr) (sv_timestamp_tolerance sv) (rc_now ctx)
                           (rq_timestamp request)
                 then err SIGNATURE_EXPIRED None
               else
                 (let (fresh_nonce, items) =
                        check_and_store (sv_nonce_ttl sv) (rc_nonce_now ctx) (rq_nonce request) (fst st)
                  in if \<not> fresh_nonce
                     then (rpc_error (rc_audit ctx) NONCE_REPLAY None, items, snd st)
                     else
                       (case sv_handlers sv (rq_method request) of
                          None \<Rightarrow> (rpc_error (rc_audit ctx) UNKNOWN_METHOD (Some (rq_method request)), items, snd st)
                        | Some handler \<Rightarrow>
                            (case handler (rq_params request) request (snd st) of
                               (Inl e, w) \<Rightarrow> (rpc_error (rc_audit ctx) INTERNAL_ERROR (Some e), items, w)
                             | (Inr d, w) \<Rightarrow>
                                 (\<lparr>rs_success = True, rs_auditId = rc_audit ctx, rs_data = Some d,
                                   rs_errorCode = None, rs_errorDetails = None\<rparr>, items, w)))))) "

definition serve_client ::
  "'pub primitives \<Rightarrow> ('pub, 'w) InternalRpcServer \<Rightarrow> request_ctx \<Rightarrow> string list \<Rightarrow> nonce_items \<times> 'w \<Rightarrow>
   InternalRpcResponse \<times> nonce_items \<times> 'w" where
  "serve_client pr sv ctx chunks st = handle_raw pr sv ctx (read_line chunks) st"

text \<open>The accept loop serves one connection after the other.\<close>

definition serve_loop ::
  "'pub primitives \<Rightarrow> ('pub, 'w) InternalRpcServer \<Rightarrow> (request_ctx \<times> string list) list \<Rightarrow>
   nonce_items \<times> 'w \<Rightarrow> nonce_items \<times> 'w" where
  "serve_loop pr sv conns st = foldl (\<lambda>st (ctx, chunks). snd (serve_client pr sv ctx chunks st)) st conns"

section \<open>Client (client.py)\<close>

record BackendRpcError =
  be_errorCode :: string
  be_errorDetails :: "string option"

text \<open>\<open>_build_request\<close> with the two \<open>uuid4\<close> texts, the time stamp text and the private key
  (\<open>None\<close> when it cannot be loaded).\<close>

definition request_base :: "string \<Rightarrow> string \<Rightarrow> string \<Rightarrow> string \<Rightarrow> pydict \<Rightarrow> pydict \<Rightarrow> pydict" where
  "request_base rid nonce ts meth params caller =
     [(''requestId'', PStr rid), (''method'', PStr meth), (''params'', PDict params),
      (''caller'', PDict [(''source'', dget_or caller ''source'' (PStr ''agent_mcp'')),
                          (''userId'', dget_or caller ''userId'' (PInt 0))]),
      (''timestamp'', PStr ts), (''nonce'', PStr nonce)]"

definition build_request ::
  "('priv \<Rightarrow> string \<Rightarrow> string) \<Rightarrow> 'priv option \<Rightarrow> string \<Rightarrow> string \<Rightarrow> string \<Rightarrow> string \<Rightarrow> pydict \<Rightarrow> pydict \<Rightarrow>
   BackendRpcError + pydict" where
  "build_request ed_sign key rid nonce ts meth params caller =
     (let base = request_base rid nonce ts meth params caller in
      case key of
        None \<Rightarrow> Inl \<lparr>be_errorCode = ''SIGNING_FAILED'', be_errorDetails = Some ''key''\<rparr>
      | Some priv \<Rightarrow> Inr (AList.update ''signature'' (PStr (sign_request_payload ed_sign base priv)) base))"

definition wire :: "pydict \<Rightarrow> string" where
  "wire request = utf8_encode (dumps False '','' '':'' (PDict request))"

record ClientResponse =
  cr_success :: bool
  cr_data :: pyval
  cr_errorCode :: "string option"
  cr_errorDetails :: "string option"

definition opt_str_field :: "pyval \<Rightarrow> string option option" where
  "opt_str_field v = (case v of PNone \<Rightarrow> Some None | PStr s \<Rightarrow> Some (Some s) | _ \<Rightarrow> None)"

definition parse_response :: "(pyval \<Rightarrow> bool option) \<Rightarrow> pyval \<Rightarrow> ClientResponse option" where
  "parse_response coerce_bool v =
     (case v of
        PDict d \<Rightarrow>
          (case (map_of d ''success'', str_field 0 None (dget d ''auditId''), opt_str_field (dget d ''errorCode''),
                 opt_str_field (dget d ''errorMessage''), opt_str_field (dget d ''errorDetails'')) of
             (Some s, Some aid, Some code, Some message, Some details) \<Rightarrow>
               map_option (\<lambda>b. \<lparr>cr_success = b, cr_data = dget d ''data'', cr_errorCode = code, cr_errorDetails = details\<rparr>)
                 (coerce_bool s)
           | _ \<Rightarrow> None)
      | _ \<Rightarrow> None)"

text \<open>The client's reader looks at the last chunk only.\<close>

fun client_chunks :: "string list \<Rightarrow> string list" where
  "client_chunks [] = []"
| "client_chunks (chunk # rest) =
     (if chunk = [] then [] else if endswith chunk [newline] then [chunk] else chunk # client_chunks rest)"

definition client_read_line :: "string list \<Rightarrow> string" where
  "client_read_line chunks = rstrip_chars [newline] (concat (client_chunks chunks))"

datatype transport = T_NoFile | T_OSError string | T_Chunks "string list"

definition client_call ::
  "(string \<Rightarrow> string) \<Rightarrow> (pyval \<Rightarrow> bool option) \<Rightarrow> bool \<Rightarrow> string \<Rightarrow> BackendRpcError + pydict \<Rightarrow> (string \<Rightarrow> transport) \<Rightarrow>
   BackendRpcError + pyval" where
  "client_call frepr coerce_bool socket_exists socket_path request send =
     (if \<not> socket_exists then Inl \<lparr>be_errorCode = ''SERVICE_UNAVAILABLE'', be_errorDetails = Some socket_path\<rparr>
      else case request of
        Inl e \<Rightarrow> Inl e
      | Inr req \<Rightarrow>
          (case send (wire req @ [newline]) of
             T_NoFile \<Rightarrow> Inl \<lparr>be_errorCode = ''SERVICE_UNAVAILABLE'', be_errorDetails = Some socket_path\<rparr>
           | T_OSError e \<Rightarrow> Inl \<lparr>be_errorCode = ''SERVICE_UNAVAILABLE'', be_errorDetails = Some e\<rparr>
           | T_Chunks chunks \<Rightarrow>
               (case Option.bind (utf8_decode (client_read_line chunks))
                       (\<lambda>t. Option.bind (loads frepr t) (parse_response coerce_bool)) of
                  None \<Rightarrow> Inl \<lparr>be_errorCode = ''INVALID_RESPONSE'', be_errorDetails = Some ''ValidationError''\<rparr>
                | Some response \<Rightarrow>
                    if \<not> cr_success response
                    then Inl \<lparr>be_errorCode = (case cr_errorCode response of
                                               Some c \<Rightarrow> if c = [] then ''INTERNAL_ERROR'' else c
                                             | None \<Rightarrow> ''INTERNAL_ERROR''),
                              be_errorDetails = cr_errorDetails response\<rparr>
                    else Inr (cr_data response))))"

section \<open>Configuration (config.py)\<close>

text \<open>\<open>_load_dotenv_once\<close> on the lines of the file: a variable of the environment is kept.\<close>

definition strip_chars :: "string \<Rightarrow> string \<Rightarrow> string" where
  "strip_chars cs s = rstrip_chars cs (dropWhile (\<lambda>c. c \<in> set cs) s)"

definition partition_eq :: "string \<Rightarrow> string \<times> string" where
  "partition_eq s = (takeWhile (\<lambda>c. c \<noteq> CHR ''='') s, drop 1 (dropWhile (\<lambda>c. c \<noteq> CHR ''='') s))"

definition dotenv_line :: "(string \<times> string) list \<Rightarrow> string \<Rightarrow> (string \<times> string) list" where
  "dotenv_line env line =
     (let item = strip line in
      if item = [] \<or> startswith item ''#'' \<or> \<not> contains item ''='' then env
      else
        (let item = (if startswith item ''export '' then strip (drop (length ''export '') item) else item);
             (k, v) = partition_eq item;
             key = strip k;
             val = strip_chars [CHR 0x22, CHR 0x27] (strip v)
         in if key \<noteq> [] \<and> map_of env key = None then AList.update key val env else env))"

definition load_dotenv_once ::
  "string list option \<Rightarrow> bool \<times> (string \<times> string) list \<Rightarrow> bool \<times> (string \<times> string) list" where
  "load_dotenv_once file st =
     (if fst st then st
      else (True, case file of None \<Rightarrow> snd st | Some lines \<Rightarrow> foldl dotenv_line (snd st) lines))"

definition parse_uids :: "string \<Rightarrow> int list option" where
  "parse_uids uid_str =
     those (map (\<lambda>u. py_int (strip u)) (filter (\<lambda>u. strip u \<noteq> []) (split_on CHR '','' uid_str)))"

definition backend_rpc_allowed_uids :: "(string \<times> string) list \<Rightarrow> int \<Rightarrow> int list option" where
  "backend_rpc_allowed_uids env uid =
     parse_uids (case map_of env ''NDLM_BACKEND_RPC_ALLOWED_UIDS'' of Some s \<Rightarrow> s | None \<Rightarrow> str_of_int uid)"

definition backend_rpc_nonce_ttl :: "(string \<times> string) list \<Rightarrow> int option" where
  "backend_rpc_nonce_ttl env =
     py_int (case map_of env ''NDLM_BACKEND_RPC_NONCE_TTL'' of Some s \<Rightarrow> s | None \<Rightarrow> ''300'')"

definition backend_rpc_timestamp_tolerance :: "(string \<times> string) list \<Rightarrow> int option" where
  "backend_rpc_timestamp_tolerance env =
     py_int (case map_of env ''NDLM_BACKEND_RPC_TIMESTAMP_TOLERANCE'' of Some s \<Rightarrow> s | None \<Rightarrow> ''30'')"

section \<open>Interpretations\<close>

lemma map_of_filter_first: "map_of d k = Some v \<Longrightarrow> P (k, v) \<Longrightarrow> map_of (filter P d) k = Some v"
  by (induction d) (auto split: if_splits)

interpretation rpc_nonce: nonce_guard "check_and_store ttl" map_of ttl for ttl
proof
  fix now :: timestamp and n s
  assume "fst (check_and_store ttl now n s)"
  then show "map_of (snd (check_and_store ttl now n s)) n = Some (now + ttl)"
    by (auto simp: check_and_store_def Let_def split: if_splits)
next
  fix s :: nonce_items and n e now
  assume "map_of s n = Some e" "now \<le> e"
  then have "map_of (filter (\<lambda>(key, expiry). \<not> expiry < now) s) n = Some e"
    by (simp add: map_of_filter_first)
  then show "\<not> fst (check_and_store ttl now n s)"
    and "map_of (snd (check_and_store ttl now m s)) n = Some e" for m
    by (auto simp: check_and_store_def Let_def)
qed

interpretation rpc_replay:
  replay_guard "check_and_store ttl" map_of ttl "check_timestamp_freshness fromiso tol"
    "\<lambda>ts. utc_instant (the (fromiso ts))" tol for ttl fromiso tol
  by unfold_locales (auto simp: check_timestamp_freshness_def split: option.splits)

section \<open>Lemmas: admission\<close>

text \<open>The request that passes every guard of the server, if the bytes hold one.\<close>

definition admits ::
  "'pub primitives \<Rightarrow> ('pub, 'w) InternalRpcServer \<Rightarrow> request_ctx \<Rightarrow> string \<Rightarrow> nonce_items \<Rightarrow> InternalRpcRequest \<Rightarrow> bool" where
  "admits pr sv ctx raw items r \<longleftrightarrow>
     raw \<noteq> [] \<and> (\<exists>pid uid gid. rc_cred ctx = Some (pid, uid, gid) \<and> uid \<in> sv_allowed_uids sv) \<and>
     decode_request pr raw = Some r \<and>
     (\<exists>pub. sv_public_key sv = Some pub \<and> verify_request_signature (pr_verify pr) r pub) \<and>
     check_timestamp_freshness (pr_iso pr) (sv_timestamp_tolerance sv) (rc_now ctx) (rq_timestamp r) \<and>
     fst (check_and_store (sv_nonce_ttl sv) (rc_nonce_now ctx) (rq_nonce r) items)"

lemma verify_peercred_None:
  "verify_peercred cred uids = None \<longleftrightarrow> (\<forall>pid uid gid. cred = Some (pid, uid, gid) \<longrightarrow> uid \<notin> uids)"
  by (auto simp: verify_peercred_def split: option.splits)

lemma handle_raw_refused:
  assumes "\<And>r. \<not> admits pr sv ctx raw (fst st) r"
  shows "\<not> rs_success (fst (handle_raw pr sv ctx raw st)) \<and> snd (snd (handle_raw pr sv ctx raw st)) = snd st"
proof (cases "raw = [] \<or> verify_peercred (rc_cred ctx) (sv_allowed_uids sv) = None")
  case True
  then show ?thesis by (auto simp: handle_raw_def rpc_error_def Let_def)
next
  case False
  then show ?thesis
    using assms
    by (auto simp: handle_raw_def rpc_error_def Let_def admits_def verify_peercred_None case_prod_unfold
        split: option.splits)
qed

lemma handle_raw_admitted:
  assumes "admits pr sv ctx raw (fst st) r"
  shows "handle_raw pr sv ctx raw st =
     (let items = snd (check_and_store (sv_nonce_ttl sv) (rc_nonce_now ctx) (rq_nonce r) (fst st)) in
      case sv_handlers sv (rq_method r) of
        None \<Rightarrow> (rpc_error (rc_audit ctx) UNKNOWN_METHOD (Some (rq_method r)), items, snd st)
      | Some handler \<Rightarrow>
          (case handler (rq_params r) r (snd st) of
             (Inl e, w) \<Rightarrow> (rpc_error (rc_audit ctx) INTERNAL_ERROR (Some e), items, w)
           | (Inr d, w) \<Rightarrow>
               (\<lparr>rs_success = True, rs_auditId = rc_audit ctx, rs_data = Some d,
                 rs_errorCode = None, rs_errorDetails = None\<rparr>, items, w)))"
proof -
  have "verify_peercred (rc_cred ctx) (sv_allowed_uids sv) \<noteq> None"
    using assms by (auto simp: verify_peercred_None admits_def)
  then show ?thesis
    using assms by (auto simp: handle_raw_def admits_def Let_def case_prod_unfold split: option.splits)
qed

lemma handle_raw_items:
  "fst (snd (handle_raw pr sv ctx raw st)) = fst st \<or>
   (\<exists>n. fst (snd (handle_raw pr sv ctx raw st)) = snd (check_and_store (sv_nonce_ttl sv) (rc_nonce_now ctx) n (fst st)))"
proof (cases "decode_request pr raw")
  case None
  then show ?thesis by (simp add: handle_raw_def Let_def)
next
  case (Some r)
  obtain b items where c: "check_and_store (sv_nonce_ttl sv) (rc_nonce_now ctx) (rq_nonce r) (fst st) = (b, items)"
    by fastforce
  have "fst (snd (handle_raw pr sv ctx raw st)) \<in> {fst st, items}"
    using Some c by (simp add: handle_raw_def Let_def split: option.splits sum.splits prod.splits)
  then show ?thesis using c by (metis insertE singletonD snd_conv)
qed

lemma serve_loop_simps [simp]:
  "serve_loop pr sv [] st = st"
  "serve_loop pr sv ((ctx, chunks) # conns) st = serve_loop pr sv conns (snd (serve_client pr sv ctx chunks st))"
  by (simp_all add: serve_loop_def)

text \<open>Serving connections drives the nonce store through a run of its guard.\<close>

lemma serve_loop_run:
  assumes "\<forall>(ctx, chunks) \<in> set conns. rc_nonce_now ctx \<le> T"
  shows "\<exists>ops. (\<forall>(t, m) \<in> set ops. t \<le> T) \<and>
     fst (serve_loop pr sv conns st) = rpc_nonce.run (sv_nonce_ttl sv) ops (fst st)"
  using assms
proof (induction conns arbitrary: st)
  case Nil
  show ?case by (intro exI [of _ "[]"]) simp
next
  case (Cons conn conns)
  obtain ctx chunks where c: "conn = (ctx, chunks)" by (cases conn)
  let ?st = "snd (serve_client pr sv ctx chunks st)"
  obtain ops where ops: "\<forall>(t, m) \<in> set ops. t \<le> T"
    "fst (serve_loop pr sv conns ?st) = rpc_nonce.run (sv_nonce_ttl sv) ops (fst ?st)"
    using Cons.IH [of ?st] Cons.prems by (auto simp: c)
  from handle_raw_items [of pr sv ctx "read_line chunks" st]
  consider "fst ?st = fst st"
    | n where "fst ?st = snd (check_and_store (sv_nonce_ttl sv) (rc_nonce_now ctx) n (fst st))"
    unfolding serve_client_def by blast
  then show ?case
  proof cases
    case 1
    with ops show ?thesis by (auto simp: c)
  next
    case 2
    with ops Cons.prems show ?thesis
      by (intro exI [of _ "(rc_nonce_now ctx, n) # ops"]) (auto simp: c)
  qed
qed

section \<open>Lemmas: the wire\<close>

lemma newline_code: "(of_char newline :: nat) = 10"
  by (simp add: newline_def)

lemma newline_esc: "newline \<notin> set (esc_char False c)"
proof -
  let ?n = "of_char c :: nat"
  have h: "newline \<noteq> hex_digit k" if "k < 16" for k
  proof
    assume "newline = hex_digit k"
    then have "(of_char (hex_digit k) :: nat) = 10" by (metis newline_code)
    then show False using of_char_hex_digit [OF that] by (simp split: if_splits)
  qed
  have "?n div 16 < 16" by (rule less_mult_imp_div_less) (use of_char_less [of c] in simp)
  then have "newline \<noteq> hex_digit (?n div 16)" "newline \<noteq> hex_digit (?n mod 16)" by (simp_all add: h)
  then show ?thesis by (auto simp: esc_char_def newline_def Let_def u_escape_def)
qed

lemma newline_num: "list_all num_char s \<Longrightarrow> newline \<notin> set s"
proof -
  have "\<not> num_char newline" by (simp add: newline_def num_char_def is_digit_def)
  then show "list_all num_char s \<Longrightarrow> newline \<notin> set s" by (auto simp: list_all_iff)
qed

lemma newline_join: "newline \<notin> set sep \<Longrightarrow> \<forall>x \<in> set xs. newline \<notin> set x \<Longrightarrow> newline \<notin> set (join sep xs)"
  by (induction sep xs rule: join.induct) auto

lemma newline_dumps: "wf_json fr v \<Longrightarrow> newline \<notin> set (dumps False '','' '':'' v)"
proof (induction v)
  case (PFloat r)
  then consider "r = ''nan''" | "r = ''inf''" | "r = ''-inf''" | "list_all num_char r" "dumps_float r = r"
    by (cases "r \<in> {''nan'', ''inf'', ''-inf''}") (auto simp: float_text_def dumps_float_def)
  then show ?case
    by cases (simp_all add: newline_num, simp_all add: dumps_float_def newline_def)
next
  case (PInt i)
  then show ?case using newline_num [OF str_of_int_num_char] by simp
next
  case (PList xs)
  then have "\<forall>x \<in> set (map (dumps False '','' '':'') xs). newline \<notin> set x" by (auto simp: list_all_iff)
  then show ?case using newline_join [of "'',''"] by (simp add: newline_def)
next
  case (PDict kvs)
  then have "\<forall>x \<in> set (map (\<lambda>kv. dumps_str False (fst kv) @ '':'' @ dumps False '','' '':'' (snd kv)) kvs). newline \<notin> set x"
    using newline_esc by (auto simp: list_all_iff snds.simps dumps_str_def newline_def)
  then show ?case using newline_join [of "'',''"] by (simp add: newline_def)
qed (auto simp: newline_def dumps_str_def newline_esc [unfolded newline_def])

lemma newline_utf8: "newline \<notin> set s \<Longrightarrow> newline \<notin> set (utf8_encode s)"
  using utf8_char_ascii_byte [of newline] by (fastforce simp: utf8_encode_def newline_def)

text \<open>However the bytes of a line are cut into chunks, the server reads the line.\<close>

lemma read_until_newline_line:
  "newline \<notin> set raw \<Longrightarrow> newline \<notin> set line \<Longrightarrow> [] \<notin> set chunks \<Longrightarrow> concat chunks = line @ [newline] \<Longrightarrow>
     read_until_newline raw chunks = raw @ line @ [newline]"
proof (induction chunks arbitrary: raw line)
  case (Cons chunk chunks)
  have nraw: "\<not> endswith raw [newline]" using Cons.prems(1) by (auto simp: endswith_def suffix_def)
  show ?case
  proof (cases "chunks = []")
    case True
    then have "chunk = line @ [newline]" using Cons.prems by simp
    then show ?thesis using nraw True
      by (simp add: read_until_newline.simps [of raw] read_until_newline.simps [of _ "[]"] endswith_def suffix_def)
  next
    case False
    then have ne: "concat chunks \<noteq> []" using Cons.prems(3) by (cases chunks) auto
    then obtain l where l: "concat chunks = l @ [newline]" "line = chunk @ l"
      using Cons.prems(4) by (cases "concat chunks" rule: rev_cases) auto
    have "read_until_newline (raw @ chunk) chunks = (raw @ chunk) @ l @ [newline]"
      by (rule Cons.IH) (use Cons.prems l in auto)
    moreover have "chunk \<noteq> []" using Cons.prems(3) by auto
    ultimately show ?thesis using nraw l by (simp add: read_until_newline.simps [of raw])
  qed
qed simp

lemma read_line_line:
  assumes "newline \<notin> set line" "[] \<notin> set chunks" "concat chunks = line @ [newline]"
  shows "read_line chunks = line"
proof -
  have "rdropWhile (\<lambda>c. c = newline) line = line"
    using assms(1) by (cases line rule: rev_cases) (auto simp: rdropWhile_def)
  then show ?thesis
    using read_until_newline_line [of "[]", OF _ assms]
    by (simp add: read_line_def rstrip_chars_def rdropWhile_snoc)
qed

text \<open>A request the client builds is read back as it was built.\<close>

definition built :: "('priv \<Rightarrow> string \<Rightarrow> string) \<Rightarrow> 'priv \<Rightarrow> string \<Rightarrow> string \<Rightarrow> string \<Rightarrow> string \<Rightarrow> pydict \<Rightarrow> string \<Rightarrow> int \<Rightarrow>
    InternalRpcRequest" where
  "built ed_sign priv rid nonce ts meth params src uid =
     \<lparr>rq_requestId = rid, rq_method = meth, rq_params = params,
      rq_caller = \<lparr>cl_source = src, cl_userId = Some uid\<rparr>, rq_timestamp = ts, rq_nonce = nonce,
      rq_signature = sign_request_payload ed_sign
        (request_base rid nonce ts meth params [(''source'', PStr src), (''userId'', PInt uid)]) priv\<rparr>"

abbreviation len_in :: "nat \<Rightarrow> nat \<Rightarrow> string \<Rightarrow> bool" where
  "len_in lo hi s \<equiv> lo \<le> length s \<and> length s \<le> hi"

lemma decode_built:
  assumes build: "build_request ed_sign (Some priv) rid nonce ts meth params
      [(''source'', PStr src), (''userId'', PInt uid)] = Inr req"
    and sizes: "len_in 1 100 rid" "len_in 1 120 meth" "len_in 1 100 src" "len_in 8 128 nonce" "ts \<noteq> []"
    and sig: "ed_sign priv (canonical (PDict (signature_payload
      (request_base rid nonce ts meth params [(''source'', PStr src), (''userId'', PInt uid)])))) \<noteq> []"
    and wf: "wf_json (pr_frepr pr) (PDict params)" and int: "pr_int pr (PInt uid) = Some uid"
  shows "wf_json (pr_frepr pr) (PDict req)"
    and "decode_request pr (wire req) = Some (built ed_sign priv rid nonce ts meth params src uid)"
proof -
  let ?sig = "ed_sign priv (canonical (PDict (signature_payload
      (request_base rid nonce ts meth params [(''source'', PStr src), (''userId'', PInt uid)]))))"
  have req: "req = request_base rid nonce ts meth params [(''source'', PStr src), (''userId'', PInt uid)]
      @ [(''signature'', PStr ?sig)]"
    using build by (simp add: build_request_def request_base_def sign_request_payload_def sign_payload_def)
  then show wfr: "wf_json (pr_frepr pr) (PDict req)"
    using wf by (simp add: request_base_def dget_or_def)
  have "loads (pr_frepr pr) (dumps False '','' '':'' (PDict req)) = Some (PDict req)"
    by (rule loads_dumps [OF wfr seps_compact])
  moreover have "parse_request (pr_int pr) (PDict req) = Some (built ed_sign priv rid nonce ts meth params src uid)"
    using sizes sig int
    by (simp add: req request_base_def parse_request_def dget_or_def str_field_def parse_caller_def Suc_le_eq
        built_def sign_request_payload_def sign_payload_def)
  ultimately show "decode_request pr (wire req) = Some (built ed_sign priv rid nonce ts meth params src uid)"
    by (simp add: decode_request_def wire_def)
qed

lemma signature_payload_built:
  "signature_payload (model_dump (built ed_sign priv rid nonce ts meth params src uid)) =
   signature_payload (request_base rid nonce ts meth params [(''source'', PStr src), (''userId'', PInt uid)])"
  by (simp add: signature_payload_def model_dump_def built_def request_base_def dget_or_def dump_caller_def)

section \<open>Properties\<close>

text \<open>
  The server runs a handler for exactly the requests that pass all guards: an allowed peer, a
  well-formed request, a configured key that verifies the signature, a fresh time stamp and a nonce
  not seen before.  Every other request is answered with an error and changes nothing in the world;
  an admitted one is answered with what its handler returns on the request's own parameters.
\<close>

theorem rpc_dispatch:
  "case (if \<exists>r. admits pr sv ctx raw (fst st) r then decode_request pr raw else None) of
     None \<Rightarrow> \<not> rs_success (fst (handle_raw pr sv ctx raw st)) \<and> snd (snd (handle_raw pr sv ctx raw st)) = snd st
   | Some r \<Rightarrow>
       (case sv_handlers sv (rq_method r) of
          None \<Rightarrow> rs_errorCode (fst (handle_raw pr sv ctx raw st)) = Some UNKNOWN_METHOD \<and>
                  snd (snd (handle_raw pr sv ctx raw st)) = snd st
        | Some h \<Rightarrow> snd (snd (handle_raw pr sv ctx raw st)) = snd (h (rq_params r) r (snd st)) \<and>
                    (case fst (h (rq_params r) r (snd st)) of
                       Inl e \<Rightarrow> rs_errorCode (fst (handle_raw pr sv ctx raw st)) = Some INTERNAL_ERROR
                     | Inr d \<Rightarrow> rs_data (fst (handle_raw pr sv ctx raw st)) = Some d \<and>
                                rs_success (fst (handle_raw pr sv ctx raw st))))"
proof (cases "\<exists>r. admits pr sv ctx raw (fst st) r")
  case True
  then obtain r where r: "admits pr sv ctx raw (fst st) r" by blast
  then have "decode_request pr raw = Some r" by (simp add: admits_def)
  with True show ?thesis
    unfolding handle_raw_admitted [OF r]
    by (auto simp: Let_def rpc_error_def split: option.splits sum.splits prod.splits)
next
  case False
  then show ?thesis using handle_raw_refused [of pr sv ctx raw st] by simp
qed

text \<open>
  C8. No replay: once the server has admitted the bytes of a request, the same bytes are refused
  and change nothing however many other connections were served in between, provided the clock does
  not run backwards and the second nonce test follows its freshness test within
  \<open>ttl - 2 * tolerance\<close> (240 seconds with the default configuration).
\<close>

theorem rpc_no_replay:
  assumes first: "admits pr sv ctx1 raw (fst st) r" "rc_now ctx1 \<le> rc_nonce_now ctx1"
    and between: "\<forall>(ctx, chunks) \<in> set conns. rc_nonce_now ctx \<le> rc_nonce_now ctx2"
    and delay: "rc_nonce_now ctx2 - rc_now ctx2 \<le> sv_nonce_ttl sv - 2 * sv_timestamp_tolerance sv"
    and later: "st2 = serve_loop pr sv conns (snd (handle_raw pr sv ctx1 raw st))"
  shows "\<not> rs_success (fst (handle_raw pr sv ctx2 raw st2)) \<and> snd (snd (handle_raw pr sv ctx2 raw st2)) = snd st2"
proof (rule handle_raw_refused)
  fix r2
  show "\<not> admits pr sv ctx2 raw (fst st2) r2"
  proof
    assume a: "admits pr sv ctx2 raw (fst st2) r2"
    then have [simp]: "r2 = r" using first(1) by (simp add: admits_def)
    have c1: "fst (check_and_store (sv_nonce_ttl sv) (rc_nonce_now ctx1) (rq_nonce r) (fst st))"
      "check_timestamp_freshness (pr_iso pr) (sv_timestamp_tolerance sv) (rc_now ctx1) (rq_timestamp r)"
      using first(1) by (auto simp: admits_def)
    have c2: "fst (check_and_store (sv_nonce_ttl sv) (rc_nonce_now ctx2) (rq_nonce r) (fst st2))"
      "check_timestamp_freshness (pr_iso pr) (sv_timestamp_tolerance sv) (rc_now ctx2) (rq_timestamp r)"
      using a by (auto simp: admits_def)
    have "fst (snd (handle_raw pr sv ctx1 raw st)) =
        snd (check_and_store (sv_nonce_ttl sv) (rc_nonce_now ctx1) (rq_nonce r) (fst st))"
      unfolding handle_raw_admitted [OF first(1)]
      by (simp add: Let_def split: option.splits sum.splits prod.splits)
    moreover obtain ops where "\<forall>(t, m) \<in> set ops. t \<le> rc_nonce_now ctx2"
      "fst st2 = rpc_nonce.run (sv_nonce_ttl sv) ops (fst (snd (handle_raw pr sv ctx1 raw st)))"
      using serve_loop_run [OF between] unfolding later by blast
    ultimately show False
      using rpc_replay.no_replay [OF c1(2,1) first(2) _ c2(2) delay] c2(1) by auto
  qed
qed

text \<open>
  C9. Client and server agree: the line a client sends for a method, cut into chunks in any way,
  makes a server that trusts the client's key run that method's handler on exactly the parameters
  the client gave, when the peer is allowed, the time stamp fresh and the nonce new.
\<close>

theorem rpc_end_to_end:
  assumes build: "build_request ed_sign (Some priv) rid nonce ts meth params
      [(''source'', PStr src), (''userId'', PInt uid)] = Inr req"
    and sizes: "len_in 1 100 rid" "len_in 1 120 meth" "len_in 1 100 src" "len_in 8 128 nonce" "ts \<noteq> []"
    and signs: "\<And>m. ed_sign priv m \<noteq> []" "\<And>m. pr_verify pr pub m (ed_sign priv m)"
    and wf: "wf_json (pr_frepr pr) (PDict params)" and int: "pr_int pr (PInt uid) = Some uid"
    and sent: "concat chunks = wire req @ [newline]" "[] \<notin> set chunks"
    and server: "sv_public_key sv = Some pub" "rc_cred ctx = Some (pid, puid, gid)" "puid \<in> sv_allowed_uids sv"
      "check_timestamp_freshness (pr_iso pr) (sv_timestamp_tolerance sv) (rc_now ctx) ts"
      "map_of (fst st) nonce = None" "sv_handlers sv meth = Some h"
  shows "\<exists>r. rq_method r = meth \<and> rq_params r = params \<and> cl_userId (rq_caller r) = Some uid \<and>
     snd (snd (serve_client pr sv ctx chunks st)) = snd (h params r (snd st)) \<and>
     rs_data (fst (serve_client pr sv ctx chunks st)) =
       (case fst (h params r (snd st)) of Inr d \<Rightarrow> Some d | Inl e \<Rightarrow> None)"
proof -
  let ?r = "built ed_sign priv rid nonce ts meth params src uid"
  note d = decode_built [OF build sizes signs(1) wf int]
  have "newline \<notin> set (wire req)" unfolding wire_def by (rule newline_utf8 [OF newline_dumps [OF d(1)]])
  then have line: "read_line chunks = wire req" by (rule read_line_line [OF _ sent(2,1)])
  have ne: "wire req \<noteq> []" using d(2) by (auto simp: decode_request_def loads_def)
  have "map_of (filter P (fst st)) nonce = None" for P
    using server(5) by (auto simp: map_of_eq_None_iff)
  then have "admits pr sv ctx (wire req) (fst st) ?r"
    using server ne d(2) signs(2)
    by (simp add: admits_def verify_request_signature_def verify_payload_def signature_payload_built)
       (simp add: built_def sign_request_payload_def sign_payload_def check_and_store_def Let_def)
  from handle_raw_admitted [OF this] server(6) show ?thesis
    by (intro exI [of _ ?r])
       (auto simp: serve_client_def line built_def rpc_error_def Let_def split: sum.splits prod.splits)
qed

section \<open>Witnesses\<close>

text \<open>A server with one handler that counts its calls, and a toy signature scheme.\<close>

definition demo_primitives :: "string primitives" where
  "demo_primitives = \<lparr>pr_verify = (\<lambda>pub m sig. sig = pub @ m), pr_iso = (\<lambda>s. Some \<lparr>dt_wall = 100, dt_offset = None\<rparr>),
     pr_int = (\<lambda>v. case v of PInt i \<Rightarrow> Some i | _ \<Rightarrow> None), pr_frepr = id\<rparr>"

definition demo_server :: "(string, nat) InternalRpcServer" where
  "demo_server = \<lparr>sv_handlers = (\<lambda>m. if m = ''task.list'' then Some (\<lambda>ps r n. (Inr (PInt (int n)), Suc n)) else None),
     sv_public_key = Some ''k'', sv_public_key_path = ''/p'', sv_allowed_uids = {1000},
     sv_timestamp_tolerance = 30, sv_nonce_ttl = 300\<rparr>"

definition demo_ctx :: "rat \<Rightarrow> request_ctx" where
  "demo_ctx t = \<lparr>rc_cred = Some (1, 1000, 1000), rc_audit = ''a'', rc_now = t, rc_nonce_now = t\<rparr>"

definition demo_sign :: "string \<Rightarrow> string \<Rightarrow> string" where
  "demo_sign k m = k @ m"

definition demo_request :: pydict where
  "demo_request = (case build_request demo_sign (Some ''k'') ''r1'' ''nonce-01'' ''t'' ''task.list''
       [(''limit'', PInt 5)] [(''source'', PStr ''agent''), (''userId'', PInt 7)] of Inr r \<Rightarrow> r | Inl e \<Rightarrow> [])"

lemma demo_built:
  "build_request demo_sign (Some ''k'') ''r1'' ''nonce-01'' ''t'' ''task.list''
     [(''limit'', PInt 5)] [(''source'', PStr ''agent''), (''userId'', PInt 7)] = Inr demo_request"
  by (simp add: demo_request_def build_request_def Let_def)

theorem rpc_end_to_end_witness:
  "snd (snd (serve_client demo_primitives demo_server (demo_ctx 110) [wire demo_request, [newline]] ([], 3))) = 4"
proof -
  have "wire demo_request \<noteq> []"
    by (simp add: wire_def utf8_encode_def utf8_char_def)
  with rpc_end_to_end [OF demo_built, where pr = demo_primitives and pub = "''k''" and sv = demo_server
      and ctx = "demo_ctx 110" and chunks = "[wire demo_request, [newline]]" and st = "([], 3)"
      and h = "\<lambda>ps r n. (Inr (PInt (int n)), Suc n)" and pid = 1 and puid = 1000 and gid = 1000]
  show ?thesis
    by (auto simp: demo_primitives_def demo_server_def demo_ctx_def demo_sign_def check_timestamp_freshness_def
        utc_instant_def)
qed

lemma demo_admits: "\<exists>r. admits demo_primitives demo_server (demo_ctx 110) (wire demo_request) [] r"
proof -
  have d: "decode_request demo_primitives (wire demo_request) =
      Some (built demo_sign ''k'' ''r1'' ''nonce-01'' ''t'' ''task.list'' [(''limit'', PInt 5)] ''agent'' 7)"
    by (rule decode_built [OF demo_built]) (simp_all add: demo_primitives_def demo_sign_def)
  have "wire demo_request \<noteq> []"
    by (simp add: wire_def utf8_encode_def utf8_char_def)
  with d show ?thesis
    by (simp add: admits_def demo_server_def demo_ctx_def verify_request_signature_def verify_payload_def
        signature_payload_built)
       (simp add: built_def sign_request_payload_def sign_payload_def check_and_store_def demo_sign_def
        demo_primitives_def check_timestamp_freshness_def utc_instant_def)
qed

theorem rpc_no_replay_witness:
  "\<not> rs_success (fst (handle_raw demo_primitives demo_server (demo_ctx 120) (wire demo_request)
       (serve_loop demo_primitives demo_server [(demo_ctx 115, [''x''])]
         (snd (handle_raw demo_primitives demo_server (demo_ctx 110) (wire demo_request) ([], 0))))))"
proof -
  obtain r where "admits demo_primitives demo_server (demo_ctx 110) (wire demo_request) (fst ([], 0 :: nat)) r"
    using demo_admits by auto
  from rpc_no_replay [OF this, where conns = "[(demo_ctx 115, [''x''])]" and ?ctx2.0 = "demo_ctx 120"]
  show ?thesis by (simp add: demo_ctx_def demo_server_def)
qed

end
