(* ===== verification/PrivServer.thy ===== *)
theory PrivServer
  imports Validator InternalRpc
begin

text \<open>
  The privileged agent (a root process), protocol version 2: \<open>privileged_agent/models.py\<close> and the
  signed part of \<open>privileged_agent/server.py\<close>.  The chain of guards is \<open>handle_v2\<close>, the execution
  \<open>dispatch_v2_command\<close> in the monad of \<open>Machine\<close>; a whole connection is \<open>priv_serve_client\<close> of \<open>PrivLegacy\<close>.

  Arguments that stand for code outside the repository: the record \<open>v2_primitives\<close> (Ed25519
  verification, SHA-256, \<open>datetime.fromisoformat\<close>, pydantic's integer coercion) and the \<open>os\<close>.
\<close>

section \<open>Messages (models.py)\<close>

record PrivilegedRequestContext =
  px_userId :: "int option"
  px_username :: "string option"
  px_clientIp :: "string option"
  px_source :: string

record PrivilegedV2Request =
  v2_requestId :: string
  v2_action :: string
  v2_payload :: pydict
  v2_caller :: "PrivilegedRequestContext option"
  v2_command :: string
  v2_args :: "string list"
  v2_args_hash :: string
  v2_token_id :: string
  v2_session_id :: string
  v2_timestamp :: string
  v2_nonce :: string
  v2_signature :: string
  v2_cmd_hash :: string
  v2_script_path :: string
  v2_script_hash :: string

record PrivilegedResponse =
  pr_success :: bool
  pr_auditId :: string
  pr_data :: "pyval option"
  pr_errorCode :: "PrivilegedErrorCode option"
  pr_errorDetails :: "string option"

definition parse_context :: "(pyval \<Rightarrow> int option) \<Rightarrow> pyval \<Rightarrow> PrivilegedRequestContext option" where
  "parse_context coerce_int v =
     (case v of
        PDict d \<Rightarrow>
          (case (str_field 1 (Some 100) (dget d ''source''), opt_str_field (dget d ''username''),
                 opt_str_field (dget d ''clientIp'')) of
             (Some src, Some un, Some ip) \<Rightarrow>
               (case dget d ''userId'' of
                  PNone \<Rightarrow> Some \<lparr>px_userId = None, px_username = un, px_clientIp = ip, px_source = src\<rparr>
                | u \<Rightarrow> map_option (\<lambda>i. \<lparr>px_userId = Some i, px_username = un, px_clientIp = ip, px_source = src\<rparr>)
                        (coerce_int u))
           | _ \<Rightarrow> None)
      | _ \<Rightarrow> None)"

definition str_list_field :: "pyval \<Rightarrow> string list option" where
  "str_list_field v =
     (case v of PList xs \<Rightarrow> those (map (\<lambda>x. case x of PStr s \<Rightarrow> Some s | _ \<Rightarrow> None) xs) | _ \<Rightarrow> None)"

text \<open>\<open>PrivilegedV2Request(**raw_data)\<close>, \<open>None\<close> for the validation error.\<close>

definition parse_v2 :: "(pyval \<Rightarrow> int option) \<Rightarrow> pydict \<Rightarrow> PrivilegedV2Request option" where
  "parse_v2 coerce_int d =
     (let text = (\<lambda>k n. str_field 0 (Some n) (dget_or d k (PStr [])));
          caller = (case dget d ''caller'' of
                      PNone \<Rightarrow> Some None
                    | c \<Rightarrow> map_option Some (parse_context coerce_int c))
      in case (str_field 1 (Some 100) (dget d ''requestId''), text ''action'' 100, dget_or d ''payload'' (PDict []),
               caller, str_field 1 (Some 100) (dget d ''command''), str_list_field (dget_or d ''args'' (PList []))) of
           (Some rid, Some act, PDict pl, Some cl, Some cmd, Some args) \<Rightarrow>
             (case (text ''args_hash'' 128, text ''token_id'' 128, text ''session_id'' 128,
                    str_field 0 None (dget d ''timestamp''), str_field 8 (Some 128) (dget d ''nonce''),
                    str_field 1 None (dget d ''signature'')) of
                (Some ah, Some tid, Some sid, Some ts, Some n, Some sig) \<Rightarrow>
                  (case (text ''cmd_hash'' 128, text ''script_path'' 512, text ''script_hash'' 128) of
                     (Some ch, Some spath, Some sh) \<Rightarrow>
                       Some \<lparr>v2_requestId = rid, v2_action = act, v2_payload = pl, v2_caller = cl, v2_command = cmd,
                         v2_args = args, v2_args_hash = ah, v2_token_id = tid, v2_session_id = sid,
                         v2_timestamp = ts, v2_nonce = n, v2_signature = sig, v2_cmd_hash = ch,
                         v2_script_path = spath, v2_script_hash = sh\<rparr>
                   | _ \<Rightarrow> None)
              | _ \<Rightarrow> None)
         | _ \<Rightarrow> None)"

section \<open>Server state\<close>

definition SAFE_ENV :: environment where
  "SAFE_ENV = [(''PATH'', ''/usr/bin:/bin:/usr/sbin:/sbin''), (''HOME'', ''/root''), (''LANG'', ''C''),
     (''LC_ALL'', ''C''), (''TZ'', ''UTC'')]"

record 'pub v2_primitives =
  vp_verify :: "'pub \<Rightarrow> string \<Rightarrow> string \<Rightarrow> bool"
  vp_sha256 :: "string \<Rightarrow> string"
  vp_iso :: "string \<Rightarrow> datetime option"
  vp_int :: "pyval \<Rightarrow> int option"

record 'pub PrivilegedAgentServer =
  ag_allowed_uids :: "int set"
  ag_nonce_ttl :: rat
  ag_timestamp_tolerance :: rat
  ag_pub_key :: "'pub option"
  ag_registry :: CommandRegistry

section \<open>Guards\<close>

definition priv_verify_peercred :: "'pub PrivilegedAgentServer \<Rightarrow> (int \<times> int \<times> int) option \<Rightarrow> (int \<times> int \<times> int) option" where
  "priv_verify_peercred ag cred =
     (case cred of
        None \<Rightarrow> None
      | Some (pid, uid, gid) \<Rightarrow> if uid \<notin> ag_allowed_uids ag then None else Some (pid, uid, gid))"

definition nonce_key :: "string \<Rightarrow> string" where
  "nonce_key nonce = ''nonce:'' @ nonce"

definition priv_check_nonce :: "rat \<Rightarrow> timestamp \<Rightarrow> string \<Rightarrow> nonce_items \<Rightarrow> bool \<times> nonce_items" where
  "priv_check_nonce ttl now nonce nonce_set =
     (let live = filter (\<lambda>(k, t). \<not> t < now) nonce_set in
      if nonce_key nonce \<in> fst ` set live then (False, live)
      else (True, AList.update (nonce_key nonce) (now + ttl) live))"

definition sig_payload :: "PrivilegedV2Request \<Rightarrow> pydict" where
  "sig_payload req =
     [(''requestId'', PStr (v2_requestId req)), (''command'', PStr (v2_command req)),
      (''args'', PList (map PStr (v2_args req))), (''args_hash'', PStr (v2_args_hash req)),
      (''token_id'', PStr (v2_token_id req)), (''session_id'', PStr (v2_session_id req)),
      (''timestamp'', PStr (v2_timestamp req)), (''nonce'', PStr (v2_nonce req)),
      (''cmd_hash'', PStr (v2_cmd_hash req)), (''script_path'', PStr (v2_script_path req)),
      (''script_hash'', PStr (v2_script_hash req))]"

definition verify_signature :: "'pub v2_primitives \<Rightarrow> 'pub option \<Rightarrow> PrivilegedV2Request \<Rightarrow> bool" where
  "verify_signature vp pub_key req =
     (case pub_key of
        None \<Rightarrow> True
      | Some pub \<Rightarrow> verify_payload (vp_verify vp) (sig_payload req) (v2_signature req) pub)"

text \<open>The offset of the time stamp is replaced by UTC, not converted.\<close>

definition priv_timestamp_fresh :: "(string \<Rightarrow> datetime option) \<Rightarrow> rat \<Rightarrow> timestamp \<Rightarrow> string \<Rightarrow> bool" where
  "priv_timestamp_fresh fromiso tolerance now timestamp_str =
     (case fromiso timestamp_str of
        None \<Rightarrow> False
      | Some ts \<Rightarrow> \<bar>dt_wall ts - now\<bar> \<le> tolerance)"

section \<open>Execution\<close>

definition run_command :: "'w os \<Rightarrow> string list \<Rightarrow> int \<Rightarrow> ('w, int \<times> string \<times> string) act" where
  "run_command os command timeout =
     bindM (perform os (Run command (Some SAFE_ENV) (Some timeout)))
       (\<lambda>out. case out of
          Timeout \<Rightarrow> raise (ActionError EC_SERVICE_UNAVAILABLE
            (''timeout='' @ str_of_int timeout @ ''s command='' @ join '' '' command))
        | Exc x \<Rightarrow> raise (PyExc x)
        | Done \<Rightarrow> ret (0, [], [])
        | Proc code so se \<Rightarrow>
            if code \<noteq> 0
            then (let details = strip (if se \<noteq> [] then se else so)
                  in raise (ActionError EC_COMMAND_FAILED
                       (if details \<noteq> [] then details else ''command failed: '' @ join '' '' command)))
            else ret (code, so, se))"

abbreviation run10 :: "'w os \<Rightarrow> string list \<Rightarrow> ('w, int \<times> string \<times> string) act" where
  "run10 os command \<equiv> run_command os command 10"

definition SCRIPT_BLACKLIST :: "(char rx \<times> string) list" where
  "SCRIPT_BLACKLIST =
    (let shell = opt (alts (map lit_i [''ba'', ''z'', ''k''])) in
     [(seqs [wb, lit ''eval'', wb], ''eval''),
      (seqs [wb, lit ''exec'', plus sp, nsp], ''exec''),
      (seqs [wb, lit ''source'', plus sp, nsp], ''source''),
      (seqs [lit ''.'', plus sp, Cls (\<lambda>c. is_ascii_word c \<or> c = CHR ''/'')], ''dot''),
      (seqs [wb, lit_i ''curl'', wb, Star any, lit ''|'', Star sp, shell, lit_i ''sh'', wb], ''curl_pipe''),
      (seqs [wb, lit_i ''wget'', wb, Star any, lit ''|'', Star sp, shell, lit_i ''sh'', wb], ''wget_pipe''),
      (seqs [lit ''|'', Star sp, lit ''ba'', Cls (\<lambda>c. c = CHR ''s'' \<or> c = CHR ''z''), lit ''h'', wb], ''pipe_bash''),
      (seqs [lit ''|'', Star sp, lit ''sh'', wb], ''pipe_sh''),
      (seqs [wb, lit_i ''nc'', wb, plus sp, Star any, lit_i ''-e'', wb], ''nc_e''),
      (seqs [wb, lit_i ''netcat'', wb, Star any, lit_i ''-e'', wb], ''netcat_e'')])"

text \<open>A hit: the pattern, the line number and at most 80 characters of the line.\<close>

definition scan_line :: "nat \<times> string \<Rightarrow> (string \<times> nat \<times> string) option" where
  "scan_line il =
     (case find (\<lambda>(pattern, desc). search pattern (snd il)) SCRIPT_BLACKLIST of
        Some (pattern, desc) \<Rightarrow> Some (desc, fst il, take 80 (strip (snd il)))
      | None \<Rightarrow> None)"

definition scan_script_content :: "string \<Rightarrow> (string \<times> nat \<times> string) list" where
  "scan_script_content content =
     (let lines = splitlines content in List.map_filter scan_line (zip [1..<Suc (length lines)] lines))"

definition hit_text :: "string \<times> nat \<times> string \<Rightarrow> string" where
  "hit_text h = ''L'' @ str_of_nat (fst (snd h)) @ '': '' @ fst h @ '' -> '' @ snd (snd h)"

definition run_script :: "'w os \<Rightarrow> string \<Rightarrow> ('w, pyval) act" where
  "run_script os script_path =
     bindM (query (os_exists os (path_str script_path))) (\<lambda>there.
       if \<not> there then raise (ActionError EC_SCRIPT_NOT_FOUND script_path)
       else bindM (query (os_read os (path_str script_path))) (\<lambda>read. case read of
         None \<Rightarrow> raise (PyExc ''OSError'')
       | Some content \<Rightarrow>
           (let hits = scan_script_content content in
            if hits \<noteq> [] then raise (ActionError EC_SCRIPT_BLACKLIST_HIT (join ''; '' (map hit_text hits)))
            else bindM (subprocess_run os [''/bin/bash'', script_path] (Some SAFE_ENV) None)
              (\<lambda>(code, so, se). ret (PDict [(''command'', PStr ''exec_arbitrary_script''),
                 (''script_path'', PStr script_path), (''stdout'', PStr (strip so)), (''stderr'', PStr (strip se)),
                 (''returnCode'', PInt code)])))))"

definition proc_data :: "string \<Rightarrow> int \<times> string \<times> string \<Rightarrow> pyval" where
  "proc_data command r = PDict [(''command'', PStr command), (''stdout'', PStr (strip (fst (snd r)))),
     (''stderr'', PStr (strip (snd (snd r)))), (''returnCode'', PInt (fst r))]"

definition done_data :: "string \<Rightarrow> string list \<Rightarrow> string \<Rightarrow> pyval" where
  "done_data command args flag =
     PDict [(''command'', PStr command), (''args'', PList (map PStr args)), (flag, PBool True)]"

text \<open>The branches of \<open>_dispatch_v2_command\<close> after the fixed command lines.\<close>

definition write_file :: "'w os \<Rightarrow> string list \<Rightarrow> ('w, pyval) act" where
  "write_file os args =
     (let path = (case args of a # _ \<Rightarrow> a | [] \<Rightarrow> []);
          content = (if length args > 1 then args ! 1 else [])
      in seqM (effect_do os (Mkdirs (path_parent path)))
           (seqM (effect_do os (WriteText (path_str path) content))
             (seqM (effect_do os (Chmod (path_str path) 420))
               (ret (PDict [(''targetPath'', PStr (path_str path)), (''isSaved'', PBool True),
                  (''fileSize'', PInt (int (length content)))])))))"

definition dispatch_open :: "'w os \<Rightarrow> string \<Rightarrow> string list \<Rightarrow> ('w, pyval) act" where
  "dispatch_open os command args =
     (if command = ''mkdir'' then seqM (run10 os (''mkdir'' # args)) (ret (done_data command args ''isCreated''))
      else if command = ''write_file'' then write_file os args
      else if command = ''chmod'' then seqM (run10 os (''chmod'' # args)) (ret (done_data command args ''isSet''))
      else if command = ''touch'' then seqM (run10 os (''touch'' # args)) (ret (done_data command args ''isCreated''))
      else if command = ''rm'' then seqM (run10 os (''rm'' # args)) (ret (done_data command args ''isDeleted''))
      else if command = ''nginx_test'' then
        bindM (run10 os [''nginx'', ''-t''])
          (\<lambda>r. ret (PDict [(''isValid'', PBool True), (''stdout'', PStr (strip (fst (snd r))))]))
      else if command = ''nginx_reload'' then
        seqM (run10 os [''systemctl'', ''reload'', ''nginx''])
          (ret (PDict [(''serviceName'', PStr ''nginx''), (''action'', PStr ''reload''), (''isReloaded'', PBool True)]))
      else if command = ''nginx_restart'' then
        seqM (run10 os [''systemctl'', ''restart'', ''nginx''])
          (ret (PDict [(''serviceName'', PStr ''nginx''), (''action'', PStr ''restart''), (''isRestarted'', PBool True)]))
      else if command = ''systemctl'' then
        seqM (run10 os (''systemctl'' # args)) (ret (done_data ''systemctl'' args ''isExecuted''))
      else if command = ''firewall_cmd'' then
        seqM (run10 os (''firewall-cmd'' # args)) (ret (done_data ''firewall_cmd'' args ''isExecuted''))
      else if command = ''cat'' then
        bindM (run10 os (''cat'' # args)) (\<lambda>r. ret (PDict [(''content'', PStr (fst (snd r)))]))
      else if command = ''ls'' then
        bindM (run10 os (''ls'' # args)) (\<lambda>r. ret (PDict [(''output'', PStr (fst (snd r)))]))
      else if command = ''certbot'' then
        seqM (run10 os (''certbot'' # args)) (ret (done_data ''certbot'' args ''isExecuted''))
      else if command = ''mysql_exec'' then
        bindM (run10 os [''mysql'', ''-e'', join '' '' args])
          (\<lambda>r. ret (PDict [(''stdout'', PStr (strip (fst (snd r))))]))
      else if command = ''docker_daemon'' then
        seqM (run10 os [''systemctl'', ''restart'', ''docker''])
          (ret (PDict [(''serviceName'', PStr ''docker''), (''action'', PStr ''restart''), (''isRestarted'', PBool True)]))
      else if command = ''exec_arbitrary_cmd'' then
        bindM (run10 os [''/bin/bash'', ''-c'', join '' '' args]) (\<lambda>r. ret (proc_data command r))
      else if command = ''exec_arbitrary_script'' then
        run_script os (case args of a # _ \<Rightarrow> a | [] \<Rightarrow> [])
      else raise (ActionError EC_UNKNOWN_ACTION command))"

definition dispatch_v2_command :: "'w os \<Rightarrow> CommandRegistry \<Rightarrow> string \<Rightarrow> string list \<Rightarrow> ('w, pyval) act" where
  "dispatch_v2_command os reg command args =
     (case registry_lookup reg command of
        None \<Rightarrow> raise (PyExc ''CommandNotRegisteredError'')
      | Some rule \<Rightarrow>
          (case command_line rule of
             Some line \<Rightarrow>
               if line \<noteq> [] then bindM (run10 os (split_ws line)) (\<lambda>r. ret (proc_data command r))
               else dispatch_open os command args
           | None \<Rightarrow> dispatch_open os command args))"

section \<open>The guard chain\<close>

record v2_ctx =
  vc_cred :: "(int \<times> int \<times> int) option"
  vc_audit :: string
  vc_now :: timestamp
  vc_nonce_now :: timestamp

definition priv_error :: "string \<Rightarrow> PrivilegedErrorCode \<Rightarrow> string option \<Rightarrow> PrivilegedResponse" where
  "priv_error audit_id code details =
     \<lparr>pr_success = False, pr_auditId = audit_id, pr_data = None, pr_errorCode = Some code, pr_errorDetails = details\<rparr>"

text \<open>Step 7: the hash that binds the request to its approval; \<open>Some\<close> is the refusal.\<close>

definition check_hashes ::
  "'w os \<Rightarrow> 'pub v2_primitives \<Rightarrow> 'w \<Rightarrow> PrivilegedV2Request \<Rightarrow> (PrivilegedErrorCode \<times> string option) option" where
  "check_hashes os vp w req =
     (if v2_token_id req = [] then None
      else if v2_command req = ''exec_arbitrary_cmd'' then
        (if v2_cmd_hash req = [] \<or>
            hash_payload (vp_sha256 vp) [(''cmd'', PStr (join '' '' (v2_args req)))] \<noteq> v2_cmd_hash req
         then Some (EC_CMD_HASH_MISMATCH, None) else None)
      else if v2_command req = ''exec_arbitrary_script'' then
        (case os_read os (path_str (v2_script_path req)) w of
           None \<Rightarrow> Some (EC_SCRIPT_NOT_FOUND, Some (v2_script_path req))
         | Some content \<Rightarrow>
             if v2_script_hash req \<noteq> [] \<and>
                hash_payload (vp_sha256 vp) [(''content'', PStr content)] \<noteq> v2_script_hash req
             then Some (EC_SCRIPT_HASH_MISMATCH, None) else None)
      else if v2_args_hash req \<noteq> [] \<and>
              hash_payload (vp_sha256 vp) [(''args'', PList (map PStr (v2_args req)))] \<noteq> v2_args_hash req
        then Some (EC_ARGS_HASH_MISMATCH, None)
      else None)"

definition response_of :: "string \<Rightarrow> (action_error + pyval) \<Rightarrow> PrivilegedResponse" where
  "response_of audit_id r =
     (case r of
        Inr data \<Rightarrow> \<lparr>pr_success = True, pr_auditId = audit_id, pr_data = Some data, pr_errorCode = None,
                     pr_errorDetails = None\<rparr>
      | Inl (ActionError code details) \<Rightarrow> priv_error audit_id code (Some details)
      | Inl (PyExc e) \<Rightarrow> priv_error audit_id EC_INTERNAL_ERROR (Some e))"

text \<open>
  Steps 6 to 8, for a request whose nonce has been recorded.  An allowed parent that cannot be resolved raises out of the
  handler and stops the agent; here it is an internal error that leaves the machine as it is.
\<close>

definition execute_v2 ::
  "'w os \<Rightarrow> 'pub v2_primitives \<Rightarrow> 'pub PrivilegedAgentServer \<Rightarrow> string \<Rightarrow> PrivilegedV2Request \<Rightarrow> 'w machine \<Rightarrow>
   PrivilegedResponse \<times> 'w machine" where
  "execute_v2 os vp ag audit_id req m =
     (case registry_lookup (ag_registry ag) (v2_command req) of
        None \<Rightarrow> (priv_error audit_id EC_COMMAND_NOT_REGISTERED (Some (v2_command req)), m)
      | Some rule \<Rightarrow>
          (case validate os (mworld m) rule (v2_args req) of
             Some ResolveError \<Rightarrow> (priv_error audit_id EC_INTERNAL_ERROR (Some ''RuntimeError''), m)
           | Some e \<Rightarrow> (priv_error audit_id EC_ARGS_INVALID (Some ''ValueError''), m)
           | None \<Rightarrow>
               (case check_hashes os vp (mworld m) req of
                  Some (code, details) \<Rightarrow> (priv_error audit_id code details, m)
                | None \<Rightarrow>
                    (let (r, m') = dispatch_v2_command os (ag_registry ag) (v2_command req) (v2_args req) m
                     in (response_of audit_id r, m')))))"

definition handle_v2 ::
  "'w os \<Rightarrow> 'pub v2_primitives \<Rightarrow> 'pub PrivilegedAgentServer \<Rightarrow> v2_ctx \<Rightarrow> pydict \<Rightarrow> nonce_items \<times> 'w machine \<Rightarrow>
   PrivilegedResponse \<times> nonce_items \<times> 'w machine" where
  "handle_v2 os vp ag ctx raw_data st =
     (let err = (\<lambda>code details. (priv_error (vc_audit ctx) code details, st)) in
      if priv_verify_peercred ag (vc_cred ctx) = None then err EC_PEER_UID_DENIED (Some ''PermissionError'')
      else case parse_v2 (vp_int vp) raw_data of
        None \<Rightarrow> err EC_INVALID_REQUEST (Some ''ValidationError'')
      | Some req \<Rightarrow>
          if \<not> verify_signature vp (ag_pub_key ag) req then err EC_SIGNATURE_INVALID None
          else if \<not> priv_timestamp_fresh (vp_iso vp) (ag_timestamp_tolerance ag) (vc_now ctx) (v2_timestamp req)
            then err EC_SIGNATURE_EXPIRED None
          else
            (let (new_nonce, nonces) = priv_check_nonce (ag_nonce_ttl ag) (vc_nonce_now ctx) (v2_nonce req) (fst st)
             in if \<not> new_nonce then (priv_error (vc_audit ctx) EC_NONCE_REPLAY None, nonces, snd st)
                else (let (resp, m) = execute_v2 os vp ag (vc_audit ctx) req (snd st) in (resp, nonces, m))))"

section \<open>Lemmas: plans\<close>

text \<open>The effects a validated command stands for, in order.\<close>

definition plan_write :: "string list \<Rightarrow> effect list" where
  "plan_write args =
     (let path = (case args of a # _ \<Rightarrow> a | [] \<Rightarrow> []); content = (if length args > 1 then args ! 1 else [])
      in [Mkdirs (path_parent path), WriteText (path_str path) content, Chmod (path_str path) 420])"

definition plan_open :: "string \<Rightarrow> string list \<Rightarrow> effect list" where
  "plan_open command args =
     (let run = (\<lambda>argv. [Run argv (Some SAFE_ENV) (Some 10)]) in
      if command \<in> {''mkdir'', ''chmod'', ''touch'', ''rm'', ''systemctl'', ''cat'', ''ls'', ''certbot''}
        then run (command # args)
      else if command = ''write_file'' then
        plan_write args
      else if command = ''nginx_test'' then run [''nginx'', ''-t'']
      else if command = ''nginx_reload'' then run [''systemctl'', ''reload'', ''nginx'']
      else if command = ''nginx_restart'' then run [''systemctl'', ''restart'', ''nginx'']
      else if command = ''firewall_cmd'' then run (''firewall-cmd'' # args)
      else if command = ''mysql_exec'' then run [''mysql'', ''-e'', join '' '' args]
      else if command = ''docker_daemon'' then run [''systemctl'', ''restart'', ''docker'']
      else if command = ''exec_arbitrary_cmd'' then run [''/bin/bash'', ''-c'', join '' '' args]
      else if command = ''exec_arbitrary_script'' then
        [Run [''/bin/bash'', case args of a # _ \<Rightarrow> a | [] \<Rightarrow> []] (Some SAFE_ENV) None]
      else [])"

definition plan :: "CommandRegistry \<Rightarrow> string \<Rightarrow> string list \<Rightarrow> effect list" where
  "plan reg command args =
     (case registry_lookup reg command of
        None \<Rightarrow> []
      | Some rule \<Rightarrow>
          (case command_line rule of
             Some line \<Rightarrow> if line \<noteq> [] then [Run (split_ws line) (Some SAFE_ENV) (Some 10)] else plan_open command args
           | None \<Rightarrow> plan_open command args))"

lemma follows_run_command [intro]: "follows (run_command os argv t) [Run argv (Some SAFE_ENV) (Some t)]"
proof -
  have "follows (case out of
          Timeout \<Rightarrow> raise (ActionError EC_SERVICE_UNAVAILABLE d) | Exc x \<Rightarrow> raise (PyExc x) | Done \<Rightarrow> ret (0, [], [])
        | Proc code so se \<Rightarrow>
            if code \<noteq> 0 then (let details = strip (if se \<noteq> [] then se else so)
                  in raise (ActionError EC_COMMAND_FAILED (if details \<noteq> [] then details else h)))
            else ret (code, so, se)) []" for out d h
    by (auto split: outcome.splits simp: Let_def)
  then show ?thesis unfolding run_command_def using follows_bindM [OF follows_perform] by fastforce
qed

lemma follows_run_ret: "follows (seqM (run_command os argv t) (ret x)) [Run argv (Some SAFE_ENV) (Some t)]"
  using follows_seqM [OF follows_run_command follows_ret] by force

lemma follows_run_bind:
  "follows (bindM (run_command os argv t) (\<lambda>r. ret (f r))) [Run argv (Some SAFE_ENV) (Some t)]"
  using follows_bindM [OF follows_run_command follows_ret] by force

lemma follows_write_file:
  "follows (write_file os args) (plan_write args)"
  unfolding write_file_def plan_write_def Let_def
  using follows_seqM [OF follows_effect_do follows_seqM [OF follows_effect_do follows_seqM [OF follows_effect_do follows_ret]]]
  by fastforce

lemma follows_run_script: "follows (run_script os path) [Run [''/bin/bash'', path] (Some SAFE_ENV) None]"
proof -
  let ?p = "[Run [''/bin/bash'', path] (Some SAFE_ENV) None]"
  have run: "follows (bindM (subprocess_run os [''/bin/bash'', path] (Some SAFE_ENV) None) (\<lambda>(code, so, se). ret (g code so se))) ?p"
    for g :: "int \<Rightarrow> string \<Rightarrow> string \<Rightarrow> pyval"
  proof -
    have "follows (case r of (code, so, se) \<Rightarrow> ret (g code so se)) []" for r by (auto split: prod.splits)
    then show ?thesis using follows_bindM [OF follows_subprocess_run] by fastforce
  qed
  have q: "follows (bindM (query f) h) plan" if "\<And>x. follows (h x) plan" for f and h :: "'b \<Rightarrow> ('a, pyval) act" and plan
    using follows_bindM [OF follows_query that] by simp
  show ?thesis
    unfolding run_script_def Let_def
    by (rule q) (auto intro!: q run split: option.splits)
qed

lemma follows_dispatch_open: "follows (dispatch_open os command args) (plan_open command args)"
  unfolding dispatch_open_def plan_open_def Let_def
  by (simp add: follows_run_ret follows_run_bind follows_run_script follows_raise
      follows_write_file)

lemma follows_dispatch: "follows (dispatch_v2_command os reg command args) (plan reg command args)"
  unfolding dispatch_v2_command_def plan_def
  by (auto split: option.splits simp: follows_run_bind follows_dispatch_open)

section \<open>Lemmas: admission\<close>

text \<open>A request that passes every guard.\<close>

definition v2_admits ::
  "'w os \<Rightarrow> 'pub v2_primitives \<Rightarrow> 'pub PrivilegedAgentServer \<Rightarrow> v2_ctx \<Rightarrow> pydict \<Rightarrow> nonce_items \<Rightarrow> 'w \<Rightarrow>
   PrivilegedV2Request \<Rightarrow> bool" where
  "v2_admits os vp ag ctx raw_data nonces w req \<longleftrightarrow>
     (\<exists>pid uid gid. vc_cred ctx = Some (pid, uid, gid) \<and> uid \<in> ag_allowed_uids ag) \<and>
     parse_v2 (vp_int vp) raw_data = Some req \<and> verify_signature vp (ag_pub_key ag) req \<and>
     priv_timestamp_fresh (vp_iso vp) (ag_timestamp_tolerance ag) (vc_now ctx) (v2_timestamp req) \<and>
     fst (priv_check_nonce (ag_nonce_ttl ag) (vc_nonce_now ctx) (v2_nonce req) nonces) \<and>
     (\<exists>rule. registry_lookup (ag_registry ag) (v2_command req) = Some rule \<and> conforms os w rule (v2_args req)) \<and>
     check_hashes os vp w req = None"

lemma priv_peercred_None:
  "priv_verify_peercred ag cred = None \<longleftrightarrow> (\<forall>pid uid gid. cred = Some (pid, uid, gid) \<longrightarrow> uid \<notin> ag_allowed_uids ag)"
  by (auto simp: priv_verify_peercred_def split: option.splits)

lemma execute_v2_cases:
  "(if (\<exists>rule. registry_lookup (ag_registry ag) (v2_command req) = Some rule \<and> conforms os (mworld m) rule (v2_args req)) \<and>
       check_hashes os vp (mworld m) req = None
    then execute_v2 os vp ag aid req m =
           (response_of aid (fst (dispatch_v2_command os (ag_registry ag) (v2_command req) (v2_args req) m)),
            snd (dispatch_v2_command os (ag_registry ag) (v2_command req) (v2_args req) m))
    else \<not> pr_success (fst (execute_v2 os vp ag aid req m)) \<and> snd (execute_v2 os vp ag aid req m) = m)"
proof (cases "registry_lookup (ag_registry ag) (v2_command req)")
  case None
  then show ?thesis by (simp add: execute_v2_def priv_error_def)
next
  case (Some rule)
  show ?thesis
  proof (cases "validate os (mworld m) rule (v2_args req)")
    case None
    with Some show ?thesis
      using validate_None [of os "mworld m" rule "v2_args req"]
      by (cases "check_hashes os vp (mworld m) req")
         (auto simp: execute_v2_def priv_error_def split: prod.splits)
  next
    case (Some e)
    with \<open>registry_lookup _ _ = Some rule\<close> show ?thesis
      using validate_None [of os "mworld m" rule "v2_args req"]
      by (cases e) (simp_all add: execute_v2_def priv_error_def)
  qed
qed

text \<open>A request that is not admitted is refused and leaves the machine as it is.\<close>

lemma handle_v2_refused:
  assumes "\<And>req. \<not> v2_admits os vp ag ctx raw (fst st) (mworld (snd st)) req"
  shows "\<not> pr_success (fst (handle_v2 os vp ag ctx raw st)) \<and> snd (snd (handle_v2 os vp ag ctx raw st)) = snd st"
proof (cases "priv_verify_peercred ag (vc_cred ctx) = None")
  case True
  then show ?thesis by (simp add: handle_v2_def priv_error_def Let_def)
next
  case False
  show ?thesis
  proof (cases "parse_v2 (vp_int vp) raw")
    case None
    with False show ?thesis by (simp add: handle_v2_def priv_error_def Let_def)
  next
    case (Some req)
    note ex = execute_v2_cases [of ag req os "snd st" vp "vc_audit ctx"]
    show ?thesis
      using False Some assms [of req] ex
      by (auto simp: handle_v2_def priv_error_def Let_def v2_admits_def priv_peercred_None case_prod_unfold
          split: if_splits)
  qed
qed

lemma handle_v2_admitted:
  assumes "v2_admits os vp ag ctx raw (fst st) (mworld (snd st)) req"
  shows "handle_v2 os vp ag ctx raw st =
     (response_of (vc_audit ctx) (fst (dispatch_v2_command os (ag_registry ag) (v2_command req) (v2_args req) (snd st))),
      snd (priv_check_nonce (ag_nonce_ttl ag) (vc_nonce_now ctx) (v2_nonce req) (fst st)),
      snd (dispatch_v2_command os (ag_registry ag) (v2_command req) (v2_args req) (snd st)))"
proof -
  have "priv_verify_peercred ag (vc_cred ctx) \<noteq> None"
    using assms by (auto simp: priv_peercred_None v2_admits_def)
  moreover note execute_v2_cases [of ag req os "snd st" vp "vc_audit ctx"]
  ultimately show ?thesis
    using assms by (auto simp: handle_v2_def v2_admits_def Let_def case_prod_unfold)
qed

text \<open>The effects of a request: a prefix of the plan of the admitted request, all of it on success.\<close>

lemma plan_safe_env:
  "list_all (\<lambda>e. case e of Run argv env t \<Rightarrow> env = Some SAFE_ENV | _ \<Rightarrow> True) (plan reg command args)"
  by (auto simp: plan_def plan_open_def plan_write_def Let_def split: option.splits)

lemma handle_v2_effects:
  "\<exists>es. mlog (snd (snd (handle_v2 os vp ag ctx raw st))) = mlog (snd st) @ es \<and>
     (es = [] \<or> (\<exists>req. v2_admits os vp ag ctx raw (fst st) (mworld (snd st)) req \<and>
        prefix es (plan (ag_registry ag) (v2_command req) (v2_args req)))) \<and>
     (pr_success (fst (handle_v2 os vp ag ctx raw st)) \<longrightarrow>
        (\<exists>req. v2_admits os vp ag ctx raw (fst st) (mworld (snd st)) req \<and>
           es = plan (ag_registry ag) (v2_command req) (v2_args req)))"
proof (cases "\<exists>req. v2_admits os vp ag ctx raw (fst st) (mworld (snd st)) req")
  case True
  then obtain req where a: "v2_admits os vp ag ctx raw (fst st) (mworld (snd st)) req" by blast
  let ?d = "dispatch_v2_command os (ag_registry ag) (v2_command req) (v2_args req) (snd st)"
  let ?p = "plan (ag_registry ag) (v2_command req) (v2_args req)"
  obtain es where es: "mlog (snd ?d) = mlog (snd st) @ es" "prefix es ?p" "\<forall>x. fst ?d = Inr x \<longrightarrow> es = ?p"
    using followsD [OF follows_dispatch] by blast
  have "es = ?p" if "pr_success (fst (handle_v2 os vp ag ctx raw st))"
    using that es(3) unfolding handle_v2_admitted [OF a]
    by (auto simp: response_of_def priv_error_def split: sum.splits action_error.splits)
  then show ?thesis
    using a es by (intro exI [of _ es]) (auto simp: handle_v2_admitted [OF a])
next
  case False
  with handle_v2_refused [of os vp ag ctx raw st] show ?thesis by (intro exI [of _ "[]"]) simp
qed

section \<open>Interpretations\<close>

lemma fst_filter_live: "map_of s k = Some e \<Longrightarrow> P (k, e) \<Longrightarrow> k \<in> fst ` set (filter P s)"
  using map_of_filter_first [of s k e P] by (metis image_eqI map_of_SomeD fst_conv)

interpretation priv_nonce: nonce_guard "priv_check_nonce ttl" "\<lambda>s n. map_of s (nonce_key n)" ttl for ttl
proof
  fix now :: timestamp and n s
  assume "fst (priv_check_nonce ttl now n s)"
  then show "map_of (snd (priv_check_nonce ttl now n s)) (nonce_key n) = Some (now + ttl)"
    by (auto simp: priv_check_nonce_def Let_def split: if_splits)
next
  fix s :: nonce_items and n e now
  assume live: "map_of s (nonce_key n) = Some e" "now \<le> e"
  then show "\<not> fst (priv_check_nonce ttl now n s)"
    using fst_filter_live [of s "nonce_key n" e "\<lambda>(k, t). \<not> t < now"] by (simp add: priv_check_nonce_def Let_def)
  show "map_of (snd (priv_check_nonce ttl now m s)) (nonce_key n) = Some e" for m
  proof -
    have f: "map_of (filter (\<lambda>(k, t). \<not> t < now) s) (nonce_key n) = Some e"
      using live by (simp add: map_of_filter_first)
    moreover have "nonce_key n \<in> fst ` set (filter (\<lambda>(k, t). \<not> t < now) s)"
      using live fst_filter_live [of s "nonce_key n" e "\<lambda>(k, t). \<not> t < now"] by simp
    ultimately show ?thesis
      by (cases "nonce_key n = nonce_key m") (simp_all add: priv_check_nonce_def Let_def)
  qed
qed

interpretation priv_replay:
  replay_guard "priv_check_nonce ttl" "\<lambda>s n. map_of s (nonce_key n)" ttl "priv_timestamp_fresh fromiso tol"
    "\<lambda>ts. dt_wall (the (fromiso ts))" tol for ttl fromiso tol
  by unfold_locales (auto simp: priv_timestamp_fresh_def split: option.splits)

lemma handle_v2_nonces:
  "fst (snd (handle_v2 os vp ag ctx raw st)) = fst st \<or>
   (\<exists>n. fst (snd (handle_v2 os vp ag ctx raw st)) = snd (priv_check_nonce (ag_nonce_ttl ag) (vc_nonce_now ctx) n (fst st)))"
proof (cases "parse_v2 (vp_int vp) raw")
  case None
  then show ?thesis by (simp add: handle_v2_def Let_def)
next
  case (Some req)
  let ?c = "priv_check_nonce (ag_nonce_ttl ag) (vc_nonce_now ctx) (v2_nonce req) (fst st)"
  have "fst (snd (handle_v2 os vp ag ctx raw st)) \<in> {fst st, snd ?c}"
    using Some by (simp add: handle_v2_def Let_def case_prod_unfold)
  then show ?thesis by blast
qed

text \<open>A sequence of signed requests.\<close>

definition run_v2 ::
  "'w os \<Rightarrow> 'pub v2_primitives \<Rightarrow> 'pub PrivilegedAgentServer \<Rightarrow> (v2_ctx \<times> pydict) list \<Rightarrow>
   nonce_items \<times> 'w machine \<Rightarrow> nonce_items \<times> 'w machine" where
  "run_v2 os vp ag reqs st = foldl (\<lambda>st (ctx, raw). snd (handle_v2 os vp ag ctx raw st)) st reqs"

lemma run_v2_simps [simp]:
  "run_v2 os vp ag [] st = st"
  "run_v2 os vp ag ((ctx, raw) # reqs) st = run_v2 os vp ag reqs (snd (handle_v2 os vp ag ctx raw st))"
  by (simp_all add: run_v2_def)

lemma run_v2_nonces:
  assumes "\<forall>(ctx, raw) \<in> set reqs. vc_nonce_now ctx \<le> T"
  shows "\<exists>ops. (\<forall>(t, m) \<in> set ops. t \<le> T) \<and>
     fst (run_v2 os vp ag reqs st) = priv_nonce.run (ag_nonce_ttl ag) ops (fst st)"
  using assms
proof (induction reqs arbitrary: st)
  case Nil
  show ?case by (intro exI [of _ "[]"]) simp
next
  case (Cons rq reqs)
  obtain ctx raw where c: "rq = (ctx, raw)" by (cases rq)
  let ?st = "snd (handle_v2 os vp ag ctx raw st)"
  obtain ops where ops: "\<forall>(t, m) \<in> set ops. t \<le> T"
    "fst (run_v2 os vp ag reqs ?st) = priv_nonce.run (ag_nonce_ttl ag) ops (fst ?st)"
    using Cons.IH [of ?st] Cons.prems by (auto simp: c)
  from handle_v2_nonces [of os vp ag ctx raw st]
  consider "fst ?st = fst st" | n where "fst ?st = snd (priv_check_nonce (ag_nonce_ttl ag) (vc_nonce_now ctx) n (fst st))"
    by blast
  then show ?case
  proof cases
    case 1
    with ops show ?thesis by (auto simp: c)
  next
    case 2
    with ops Cons.prems show ?thesis
      by (intro exI [of _ "(vc_nonce_now ctx, n) # ops"]) (auto simp: c)
  qed
qed

section \<open>Properties\<close>

text \<open>
  C3. The root agent does only what an admitted request stands for.  The effects it performs for a
  signed request are none at all, or a prefix of the plan of a request that passed every guard
  (peer, signature, freshness, nonce, registry, arguments, approval hash); an answer of success means
  the whole plan was carried out, and every subprocess gets the fixed minimal environment.
\<close>

theorem v2_executes_plan:
  "\<exists>es. mlog (snd (snd (handle_v2 os vp ag ctx raw st))) = mlog (snd st) @ es \<and>
     (if es = [] then True
      else \<exists>req. v2_admits os vp ag ctx raw (fst st) (mworld (snd st)) req \<and>
             prefix es (plan (ag_registry ag) (v2_command req) (v2_args req))) \<and>
     (if pr_success (fst (handle_v2 os vp ag ctx raw st))
      then \<exists>req. v2_admits os vp ag ctx raw (fst st) (mworld (snd st)) req \<and>
             es = plan (ag_registry ag) (v2_command req) (v2_args req)
      else True) \<and>
     list_all (\<lambda>e. case e of Run argv env t \<Rightarrow> env = Some SAFE_ENV | _ \<Rightarrow> True) es"
proof -
  have "list_all (\<lambda>e. case e of Run argv env t \<Rightarrow> env = Some SAFE_ENV | _ \<Rightarrow> True) es"
    if "prefix es (plan reg command args)" for es reg command args
    using that plan_safe_env [of reg command args] by (auto simp: prefix_def)
  moreover obtain es where "mlog (snd (snd (handle_v2 os vp ag ctx raw st))) = mlog (snd st) @ es"
    "es = [] \<or> (\<exists>req. v2_admits os vp ag ctx raw (fst st) (mworld (snd st)) req \<and>
        prefix es (plan (ag_registry ag) (v2_command req) (v2_args req)))"
    "pr_success (fst (handle_v2 os vp ag ctx raw st)) \<longrightarrow>
        (\<exists>req. v2_admits os vp ag ctx raw (fst st) (mworld (snd st)) req \<and>
           es = plan (ag_registry ag) (v2_command req) (v2_args req))"
    using handle_v2_effects [of os vp ag ctx raw st] by blast
  ultimately show ?thesis by (intro exI [of _ es]) auto
qed

text \<open>
  C7. A signed request cannot be replayed: after it was admitted once, the same request is refused
  and performs nothing, whatever other signed requests were handled in between, provided the clock
  does not run backwards and its nonce test is not delayed by more than \<open>ttl - 2 * tolerance\<close>.
\<close>

theorem v2_no_replay:
  assumes first: "v2_admits os vp ag ctx1 raw (fst st) (mworld (snd st)) req" "vc_now ctx1 \<le> vc_nonce_now ctx1"
    and between: "\<forall>(ctx, r) \<in> set reqs. vc_nonce_now ctx \<le> vc_nonce_now ctx2"
    and delay: "vc_nonce_now ctx2 - vc_now ctx2 \<le> ag_nonce_ttl ag - 2 * ag_timestamp_tolerance ag"
    and later: "st2 = run_v2 os vp ag reqs (snd (handle_v2 os vp ag ctx1 raw st))"
  shows "\<not> pr_success (fst (handle_v2 os vp ag ctx2 raw st2)) \<and> snd (snd (handle_v2 os vp ag ctx2 raw st2)) = snd st2"
proof (rule handle_v2_refused)
  fix req2
  show "\<not> v2_admits os vp ag ctx2 raw (fst st2) (mworld (snd st2)) req2"
  proof
    assume a: "v2_admits os vp ag ctx2 raw (fst st2) (mworld (snd st2)) req2"
    then have [simp]: "req2 = req" using first(1) by (simp add: v2_admits_def)
    have c1: "fst (priv_check_nonce (ag_nonce_ttl ag) (vc_nonce_now ctx1) (v2_nonce req) (fst st))"
      "priv_timestamp_fresh (vp_iso vp) (ag_timestamp_tolerance ag) (vc_now ctx1) (v2_timestamp req)"
      using first(1) by (auto simp: v2_admits_def)
    have c2: "fst (priv_check_nonce (ag_nonce_ttl ag) (vc_nonce_now ctx2) (v2_nonce req) (fst st2))"
      "priv_timestamp_fresh (vp_iso vp) (ag_timestamp_tolerance ag) (vc_now ctx2) (v2_timestamp req)"
      using a by (auto simp: v2_admits_def)
    have "fst (snd (handle_v2 os vp ag ctx1 raw st)) =
        snd (priv_check_nonce (ag_nonce_ttl ag) (vc_nonce_now ctx1) (v2_nonce req) (fst st))"
      unfolding handle_v2_admitted [OF first(1)] by simp
    moreover obtain ops where "\<forall>(t, m) \<in> set ops. t \<le> vc_nonce_now ctx2"
      "fst st2 = priv_nonce.run (ag_nonce_ttl ag) ops (fst (snd (handle_v2 os vp ag ctx1 raw st)))"
      using run_v2_nonces [OF between] unfolding later by blast
    ultimately show False
      using priv_replay.no_replay [OF c1(2,1) first(2) _ c2(2) delay] c2(1) by auto
  qed
qed

text \<open>
  A script runs only when no line of it matches the black list: if carrying out
  \<open>exec_arbitrary_script\<close> starts a process, the file existed and its content, read before, had no
  hit; otherwise nothing is executed.
\<close>

theorem scripts_are_scanned:
  "mlog (snd (run_script os path m)) =
     (if os_exists os (path_str path) (mworld m) \<and>
         (\<exists>content. os_read os (path_str path) (mworld m) = Some content \<and>
            list_all (\<lambda>line. list_all (\<lambda>pat. \<not> search (fst pat) line) SCRIPT_BLACKLIST) (splitlines content))
      then mlog m @ [Run [''/bin/bash'', path] (Some SAFE_ENV) None] else mlog m)"
proof -
  have hit: "scan_line il = None \<longleftrightarrow> (\<forall>pat \<in> set SCRIPT_BLACKLIST. \<not> search (fst pat) (snd il))" for il
  proof -
    have "scan_line il = None \<longleftrightarrow> find (\<lambda>(pattern, desc). search pattern (snd il)) SCRIPT_BLACKLIST = None"
      by (auto simp: scan_line_def split: option.splits)
    then show ?thesis by (auto simp: find_None_iff)
  qed
  have scan: "scan_script_content c = [] \<longleftrightarrow>
      (\<forall>line \<in> set (splitlines c). \<forall>pat \<in> set SCRIPT_BLACKLIST. \<not> search (fst pat) line)" for c
  proof -
    have "scan_script_content c = [] \<longleftrightarrow> (\<forall>il \<in> set (zip [1..<Suc (length (splitlines c))] (splitlines c)). scan_line il = None)"
      by (simp only: scan_script_content_def Let_def List.map_filter_def map_is_Nil_conv filter_empty_conv o_apply not_not)
    also have "\<dots> \<longleftrightarrow> (\<forall>line \<in> snd ` set (zip [1..<Suc (length (splitlines c))] (splitlines c)).
        \<forall>pat \<in> set SCRIPT_BLACKLIST. \<not> search (fst pat) line)"
      by (simp add: hit)
    also have "snd ` set (zip [1..<Suc (length (splitlines c))] (splitlines c)) = set (splitlines c)"
      by (metis diff_Suc_1 length_upt list.set_map map_snd_zip)
    finally show ?thesis .
  qed
  show ?thesis
    by (auto simp: run_script_def act_defs Let_def scan subprocess_run_def perform_def list_all_iff
        split: option.splits outcome.splits prod.splits sum.splits)
qed

text \<open>
  The approval hash of a script does not cover what is executed: the hash test reads the file
  named by \<open>script_path\<close> and never looks at the arguments, while the agent runs the file named by the
  first argument.
\<close>

lemma script_hash_ignores_args:
  "check_hashes os vp w (req\<lparr>v2_command := ''exec_arbitrary_script'', v2_args := other # rest\<rparr>) =
   check_hashes os vp w (req\<lparr>v2_command := ''exec_arbitrary_script''\<rparr>) \<and>
   plan (registry_load PRIVILEGED_COMMANDS) ''exec_arbitrary_script'' (other # rest) =
     [Run [''/bin/bash'', other] (Some SAFE_ENV) None]"
  by (simp add: check_hashes_def plan_def plan_open_def registry_lookup_def registry_load_def PRIVILEGED_COMMANDS_def
      rule_of_def split: option.splits)

section \<open>Witness\<close>

definition demo_agent :: "string PrivilegedAgentServer" where
  "demo_agent = \<lparr>ag_allowed_uids = {33}, ag_nonce_ttl = 300, ag_timestamp_tolerance = 30, ag_pub_key = Some ''k'',
     ag_registry = registry_load PRIVILEGED_COMMANDS\<rparr>"

definition demo_vp :: "string v2_primitives" where
  "demo_vp = \<lparr>vp_verify = (\<lambda>pub m sig. sig = ''ok''), vp_sha256 = id,
     vp_iso = (\<lambda>s. Some \<lparr>dt_wall = 100, dt_offset = None\<rparr>), vp_int = (\<lambda>v. None)\<rparr>"

definition demo_os :: "nat os" where
  "demo_os = \<lparr>os_do = (\<lambda>e n. (Proc 0 [] [], Suc n)), os_resolve = (\<lambda>p n. Some (path_parts p)),
     os_exists = (\<lambda>p n. True), os_is_file = (\<lambda>p n. True), os_is_symlink = (\<lambda>p n. False), os_size = (\<lambda>p n. 0),
     os_read = (\<lambda>p n. Some []), os_iterdir = (\<lambda>p n. [])\<rparr>"

definition demo_raw :: pydict where
  "demo_raw = [(''requestId'', PStr ''r''), (''command'', PStr ''nginx_reload''), (''timestamp'', PStr ''t''),
     (''nonce'', PStr ''nonce-01''), (''signature'', PStr ''ok'')]"

definition demo_v2ctx :: "rat \<Rightarrow> v2_ctx" where
  "demo_v2ctx t = \<lparr>vc_cred = Some (1, 33, 33), vc_audit = ''a'', vc_now = t, vc_nonce_now = t\<rparr>"

lemma demo_v2_admits:
  "\<exists>req. v2_admits demo_os demo_vp demo_agent (demo_v2ctx 110) demo_raw [] w req"
  by (simp add: v2_admits_def demo_v2ctx_def demo_raw_def parse_v2_def dget_or_def str_field_def str_list_field_def
      verify_signature_def verify_payload_def demo_agent_def demo_vp_def priv_timestamp_fresh_def priv_check_nonce_def
      registry_lookup_def registry_load_def PRIVILEGED_COMMANDS_def rule_of_def conforms_def check_hashes_def)

theorem v2_no_replay_witness:
  "\<not> pr_success (fst (handle_v2 demo_os demo_vp demo_agent (demo_v2ctx 120) demo_raw
     (run_v2 demo_os demo_vp demo_agent [(demo_v2ctx 112, [])]
       (snd (handle_v2 demo_os demo_vp demo_agent (demo_v2ctx 110) demo_raw ([], \<lparr>mlog = [], mworld = 0\<rparr>))))))"
proof -
  let ?st = "([] :: nonce_items, \<lparr>mlog = [], mworld = 0 :: nat\<rparr>)"
  obtain req where "v2_admits demo_os demo_vp demo_agent (demo_v2ctx 110) demo_raw (fst ?st) (mworld (snd ?st)) req"
    using demo_v2_admits by auto
  from v2_no_replay [OF this, where reqs = "[(demo_v2ctx 112, [])]" and ?ctx2.0 = "demo_v2ctx 120"]
  show ?thesis by (simp add: demo_v2ctx_def demo_agent_def)
qed

end
