(* ===== verification/Firewall.thy ===== *)
theory Firewall
  imports Machine InternalRpc
begin

text \<open>
  The firewall and SSH-log adapter of the privileged agent, \<open>privileged_agent/firewall_adapter.py\<close>,
  in the monad of \<open>Machine\<close>.  Arguments for what is outside the repository, in \<open>'w fw_host\<close>: the
  operating system, \<open>shutil.which\<close>, the version \<open>ipaddress.ip_network\<close> finds for a text, the
  process environment, and the conversion of time stamps (\<open>datetime.fromisoformat\<close> and
  \<open>strptime\<close>, both followed by \<open>isoformat\<close>).
\<close>

record 'w fw_host =
  fh_os :: "'w os"
  fh_which :: "string \<Rightarrow> 'w \<Rightarrow> bool"
  fh_ipver :: "string \<Rightarrow> int option"
  fh_environ :: environment
  fh_iso :: "string \<Rightarrow> string option"
  fh_syslog :: "string \<Rightarrow> string option"

section \<open>Commands\<close>

definition command_env :: "environment \<Rightarrow> environment" where
  "command_env environ =
     AList.update ''LANGUAGE'' ''C'' (AList.update ''LANG'' ''C'' (AList.update ''LC_ALL'' ''C'' environ))"

definition fw_run :: "'w fw_host \<Rightarrow> string list \<Rightarrow> bool \<Rightarrow> int \<Rightarrow> ('w, int \<times> string \<times> string) act" where
  "fw_run fh command check timeout =
     bindM (perform (fh_os fh) (Run command (Some (command_env (fh_environ fh))) (Some timeout)))
       (\<lambda>out. case out of
          Exc e \<Rightarrow> if e = ''FileNotFoundError'' then raise (ActionError EC_SERVICE_UNAVAILABLE e)
                   else raise (ActionError EC_INTERNAL_ERROR e)
        | Timeout \<Rightarrow> raise (ActionError EC_SERVICE_UNAVAILABLE
            (''timeout='' @ str_of_int timeout @ ''s command='' @ join '' '' command))
        | Done \<Rightarrow> ret (0, [], [])
        | Proc code so se \<Rightarrow>
            if check \<and> code \<noteq> 0
            then raise (ActionError EC_COMMAND_FAILED
                   (if strip se \<noteq> [] then strip se else if strip so \<noteq> [] then strip so
                    else ''command='' @ join '' '' command @ '' returncode='' @ str_of_int code))
            else ret (code, so, se))"

definition detect_backend :: "'w fw_host \<Rightarrow> ('w, string) act" where
  "detect_backend fh =
     bindM (query (fh_which fh ''firewall-cmd'')) (\<lambda>fwd.
       if fwd then ret ''firewalld''
       else bindM (query (fh_which fh ''ufw'')) (\<lambda>ufw.
         if ufw then ret ''ufw'' else raise (ActionError EC_SERVICE_UNAVAILABLE ''firewall-cmd ufw'')))"

fun detect_ip_family :: "(string \<Rightarrow> int option) \<Rightarrow> string option list \<Rightarrow> int" where
  "detect_ip_family ipver [] = 4"
| "detect_ip_family ipver (v # vs) =
     (case v of
        None \<Rightarrow> detect_ip_family ipver vs
      | Some s \<Rightarrow>
          if strip s = [] then detect_ip_family ipver vs
          else (case ipver (strip s) of Some n \<Rightarrow> n | None \<Rightarrow> detect_ip_family ipver vs))"

definition default_any_for_family :: "int \<Rightarrow> string" where
  "default_any_for_family ip_version = (if ip_version = 6 then ''::/0'' else ''0.0.0.0/0'')"

section \<open>Status\<close>

definition status_line :: "string \<Rightarrow> char rx" where
  "status_line what = seqs [bol_m, Star sp, lit ''status:'', Star sp, lit what, wb]"

definition table_header :: "char rx" where
  "table_header = seqs [bol_m, Star sp, lit ''to'', plus sp, lit ''action'', plus sp, lit ''from'', Star sp, eol_m]"

definition default_policy_of :: "string \<Rightarrow> string" where
  "default_policy_of output =
     (case search_groups [(Seq (lit ''Default:'') (Star sp), False), (plus any, True)] output of
        Some [g] \<Rightarrow> strip g
      | _ \<Rightarrow> ''unknown'')"

definition status_data :: "string \<Rightarrow> bool \<Rightarrow> string \<Rightarrow> pyval" where
  "status_data backend active policy =
     PDict [(''backendType'', PStr backend), (''isActive'', PBool active), (''defaultPolicy'', PStr policy)]"

definition get_firewall_status :: "'w fw_host \<Rightarrow> ('w, bool \<times> pyval) act" where
  "get_firewall_status fh =
     bindM (detect_backend fh) (\<lambda>backend.
       if backend = ''firewalld'' then
         bindM (fw_run fh [''firewall-cmd'', ''--state''] False 5) (\<lambda>(code, so, se).
           if contains (lower (strip so)) ''running'' then
             bindM (fw_run fh [''firewall-cmd'', ''--get-default-zone''] True 5) (\<lambda>(code, zo, ze).
               ret (True, status_data backend True (if strip zo \<noteq> [] then strip zo else ''unknown'')))
           else ret (False, status_data backend False ''unknown''))
       else
         bindM (fw_run fh [''ufw'', ''status'', ''verbose''] True 5) (\<lambda>(code, output, se).
           (let low = lower output in
            if search (status_line ''active'') low then ret (True, status_data backend True (default_policy_of output))
            else if search (status_line ''inactive'') low then ret (False, status_data backend False (default_policy_of output))
            else if search table_header low then ret (True, status_data backend True (default_policy_of output))
            else raise (ActionError EC_COMMAND_FAILED (if strip output \<noteq> [] then strip output else ''empty stdout'')))))"

definition set_firewall_enabled :: "'w fw_host \<Rightarrow> bool \<Rightarrow> ('w, pyval) act" where
  "set_firewall_enabled fh enabled =
     bindM (detect_backend fh) (\<lambda>backend.
       seqM (if backend = ''firewalld''
             then fw_run fh [''systemctl'', if enabled then ''start'' else ''stop'', ''firewalld''] True 5
             else fw_run fh [''ufw'', ''--force'', if enabled then ''enable'' else ''disable''] True 5)
         (bindM (get_firewall_status fh) (\<lambda>(active, d).
            ret (PDict [(''backendType'', PStr backend), (''enabled'', PBool active)]))))"

section \<open>Rules\<close>

text \<open>A rule as the adapter reports it.\<close>

definition rule_data :: "int \<Rightarrow> string \<Rightarrow> string \<Rightarrow> pyval \<Rightarrow> pyval \<Rightarrow> int \<Rightarrow> pyval" where
  "rule_data port protocol policy src dst ipv =
     PDict [(''port'', PInt port), (''protocol'', PStr protocol), (''policy'', PStr policy), (''sourceIp'', src),
            (''destinationIp'', dst), (''ipVersion'', PInt ipv)]"

definition int_or_raise :: "string \<Rightarrow> ('w, int) act" where
  "int_or_raise s = (case py_int s of Some i \<Rightarrow> ret i | None \<Rightarrow> raise (PyExc ''ValueError''))"

fun port_entries :: "string list \<Rightarrow> ('w, pyval list) act" where
  "port_entries [] = ret []"
| "port_entries (entry # rest) =
     (if \<not> contains entry ''/'' then port_entries rest
      else bindM (int_or_raise (takeWhile (\<lambda>c. c \<noteq> CHR ''/'') entry)) (\<lambda>port.
        (let protocol = lower (tl (dropWhile (\<lambda>c. c \<noteq> CHR ''/'') entry)) in
         bindM (port_entries rest) (\<lambda>rules.
           ret (rule_data port protocol ''accept'' PNone PNone 4 # rule_data port protocol ''accept'' PNone PNone 6 # rules)))))"

definition digit :: "char rx" where
  "digit = Cls is_digit"

definition quoted :: "char rx" where
  "quoted = plus (Cls (\<lambda>c. c \<noteq> CHR 0x22))"

definition rich_rule :: "string \<Rightarrow> pyval list" where
  "rich_rule line =
     (let q = [CHR 0x22] in
      case search_groups [(lit (''port port='' @ q), False), (plus digit, True), (lit (q @ '' protocol='' @ q), False),
                          (plus wd, True), (lit q, False)] line of
        Some [port, protocol] \<Rightarrow>
          (let src = (case search_groups [(lit (''source address='' @ q), False), (quoted, True), (lit q, False)] line of
                        Some [a] \<Rightarrow> PStr a | _ \<Rightarrow> PNone);
               policy = (case search_groups [(alts (map lit [''accept'', ''reject'', ''drop'']), True)] line of
                           Some [a] \<Rightarrow> a | _ \<Rightarrow> ''accept'');
               fam = search_groups [(lit (''family='' @ q), False), (alts (map lit [''ipv4'', ''ipv6'']), True), (lit q, False)] line
           in [rule_data (int (nat_of_text port)) (lower protocol) (lower policy) src PNone
                 (if fam = Some [''ipv6''] then 6 else 4)])
      | _ \<Rightarrow> [])"

text \<open>\<open>re.split(r"\s{2,}", line)\<close>.\<close>

function split_columns :: "string \<Rightarrow> string \<Rightarrow> string list" where
  "split_columns acc [] = [rev acc]"
| "split_columns acc (x # xs) =
     (if is_space x \<and> length (takeWhile is_space (x # xs)) \<ge> 2
      then rev acc # split_columns [] (dropWhile is_space xs)
      else split_columns (x # acc) xs)"
  by pat_completeness auto
termination
  by (relation "measure (\<lambda>(acc, s). length s)") (auto simp: le_imp_less_Suc length_dropWhile_le)

definition ufw_rule :: "string \<Rightarrow> ('w, pyval list) act" where
  "ufw_rule line =
     (let columns = split_columns [] line in
      if length columns < 3 then ret []
      else
        (let target = strip (columns ! 0); action = strip (columns ! 1); src = strip (columns ! 2) in
         case match_groups [(Bol, False), (plus digit, True), (lit ''/'', False), (alts (map lit_i [''tcp'', ''udp'']), True),
                            (opt (seqs [plus sp, lit_i ''(v6)'']), False), (eol, False)] target of
           Some [port, protocol] \<Rightarrow>
             (case split_ws action of
                [] \<Rightarrow> raise (PyExc ''IndexError'')
              | policy # _ \<Rightarrow>
                  ret [rule_data (int (nat_of_text port)) (lower protocol) (lower policy)
                        (if lower src \<in> {''anywhere'', ''anywhere (v6)''} then PNone else PStr src) PNone
                        (if contains (lower target) ''(v6)'' \<or> contains (lower src) ''(v6)'' then 6 else 4)])
         | _ \<Rightarrow> ret []))"

fun ufw_table :: "bool \<Rightarrow> string list \<Rightarrow> ('w, pyval list) act" where
  "ufw_table started [] = ret []"
| "ufw_table started (raw_line # rest) =
     (let line = strip raw_line in
      if line = [] \<or> startswith (lower line) ''status:'' then ufw_table started rest
      else if startswith line ''--'' then ufw_table True rest
      else if \<not> started then ufw_table started rest
      else bindM (ufw_rule line) (\<lambda>r. bindM (ufw_table started rest) (\<lambda>rules. ret (r @ rules))))"

definition list_firewall_rules :: "'w fw_host \<Rightarrow> ('w, pyval list) act" where
  "list_firewall_rules fh =
     bindM (detect_backend fh) (\<lambda>backend.
       if backend = ''firewalld'' then
         bindM (fw_run fh [''firewall-cmd'', ''--list-ports''] True 5) (\<lambda>(code, ports, se).
           bindM (port_entries (split_ws (strip ports))) (\<lambda>rules.
             bindM (fw_run fh [''firewall-cmd'', ''--list-rich-rules''] False 5) (\<lambda>(code, rich, se).
               ret (rules @ concat (map rich_rule (splitlines (strip rich)))))))
       else
         bindM (fw_run fh [''ufw'', ''status''] True 5) (\<lambda>(code, output, se). ufw_table False (splitlines output)))"

section \<open>Changing rules\<close>

text \<open>The family and the addresses after defaulting; an address is \<open>None\<close> when it is missing.\<close>

definition or_default :: "string option \<Rightarrow> string \<Rightarrow> string" where
  "or_default v d = (case v of Some s \<Rightarrow> if s \<noteq> [] then s else d | None \<Rightarrow> d)"

definition rule_family :: "(string \<Rightarrow> int option) \<Rightarrow> int option \<Rightarrow> string option \<Rightarrow> string option \<Rightarrow> int" where
  "rule_family ipver ip_version src dst =
     (case ip_version of
        Some n \<Rightarrow> if n \<noteq> 0 then n else detect_ip_family ipver [src, dst]
      | None \<Rightarrow> detect_ip_family ipver [src, dst])"

definition rich_rule_text :: "int \<Rightarrow> string \<Rightarrow> int \<Rightarrow> string \<Rightarrow> string" where
  "rich_rule_text ipv src port protocol =
     (let q = [CHR 0x22] in
      ''rule family='' @ q @ (if ipv = 6 then ''ipv6'' else ''ipv4'') @ q @ '' source address='' @ q @ src @ q @
      '' port port='' @ q @ str_of_int port @ q @ '' protocol='' @ q @ protocol @ q @ '' accept'')"

text \<open>The commands that add (\<open>op = ''add''\<close>) or remove a rule with a given backend.\<close>

definition firewalld_commands :: "string \<Rightarrow> int \<Rightarrow> string \<Rightarrow> int \<Rightarrow> string \<Rightarrow> string list list" where
  "firewalld_commands op ipv src port protocol =
     [if src \<noteq> default_any_for_family ipv
      then [''firewall-cmd'', ''--permanent'', ''--'' @ op @ ''-rich-rule'', rich_rule_text ipv src port protocol]
      else [''firewall-cmd'', ''--'' @ op @ ''-port='' @ str_of_int port @ ''/'' @ protocol, ''--permanent''],
      [''firewall-cmd'', ''--reload'']]"

definition ufw_commands :: "string \<Rightarrow> string \<Rightarrow> int \<Rightarrow> string \<Rightarrow> string list list" where
  "ufw_commands op src port protocol =
     (let spec = [''allow'', ''proto'', protocol, ''from'', src, ''to'', ''any'', ''port'', str_of_int port] in
      [if op = ''add'' then ''ufw'' # spec else [''ufw'', ''--force'', ''delete''] @ spec])"

fun run_all :: "'w fw_host \<Rightarrow> string list list \<Rightarrow> ('w, unit) act" where
  "run_all fh [] = ret ()"
| "run_all fh (c # cs) = seqM (fw_run fh c True 5) (run_all fh cs)"

definition change_rule ::
  "'w fw_host \<Rightarrow> string \<Rightarrow> string \<Rightarrow> int \<Rightarrow> string \<Rightarrow> int option \<Rightarrow> string option \<Rightarrow> string option \<Rightarrow> ('w, pyval) act" where
  "change_rule fh op policy port protocol ip_version source_ip destination_ip =
     (let ipv = rule_family (fh_ipver fh) ip_version source_ip destination_ip;
          src = or_default source_ip (default_any_for_family ipv);
          dst = or_default destination_ip (default_any_for_family ipv)
      in if detect_ip_family (fh_ipver fh) [Some src] \<noteq> detect_ip_family (fh_ipver fh) [Some dst]
         then raise (ActionError EC_INVALID_REQUEST (''source='' @ src @ '', destination='' @ dst))
         else bindM (detect_backend fh) (\<lambda>backend.
           (let proto = lower protocol in
            seqM (run_all fh (if backend = ''firewalld'' then firewalld_commands op ipv src port proto
                              else ufw_commands op src port proto))
              (ret (rule_data port proto policy (PStr src) (PStr dst) ipv)))))"

definition add_port_rule ::
  "'w fw_host \<Rightarrow> int \<Rightarrow> string \<Rightarrow> int option \<Rightarrow> string option \<Rightarrow> string option \<Rightarrow> int \<Rightarrow> ('w, pyval) act" where
  "add_port_rule fh port protocol ip_version source_ip destination_ip action =
     (if action \<noteq> 1 then raise (ActionError EC_INVALID_REQUEST (''action='' @ str_of_int action))
      else change_rule fh ''add'' ''accept'' port protocol ip_version source_ip destination_ip)"

definition remove_port_rule ::
  "'w fw_host \<Rightarrow> int \<Rightarrow> string \<Rightarrow> int option \<Rightarrow> string option \<Rightarrow> string option \<Rightarrow> ('w, pyval) act" where
  "remove_port_rule fh port protocol ip_version source_ip destination_ip =
     change_rule fh ''remove'' ''removed'' port protocol ip_version source_ip destination_ip"

section \<open>SSH logs\<close>

text \<open>\<open>_parse_log_timestamp\<close>; the two conversions deliver the \<open>isoformat\<close> of the result.\<close>

definition iso_stamp :: "(char rx \<times> bool) list" where
  "iso_stamp = [(seqs [Bol], False),
     (seqs [rep 4 digit, lit ''-'', rep 2 digit, lit ''-'', rep 2 digit, lit ''T'', rep 2 digit, lit '':'', rep 2 digit,
        lit '':'', rep 2 digit, opt (seqs [Cls (\<lambda>c. c = CHR ''.'' \<or> c = CHR '',''), plus digit]),
        opt (Alt (seqs [Cls (\<lambda>c. c = CHR ''+'' \<or> c = CHR ''-''), rep 4 digit]) (lit ''Z''))], True)]"

definition offset_tail :: "char rx" where
  "offset_tail = seqs [Star any, Cls (\<lambda>c. c = CHR ''+'' \<or> c = CHR ''-''), rep 4 digit, eol]"

definition normalize_iso :: "string \<Rightarrow> string" where
  "normalize_iso ts =
     (let t = map (\<lambda>c. if c = CHR '','' then CHR ''.'' else c) ts; n = length t in
      if endswith t ''Z'' then take (n - 1) t @ ''+00:00''
      else if match_here offset_tail t then take (n - 2) t @ '':'' @ drop (n - 2) t
      else t)"

definition syslog_stamp :: "(char rx \<times> bool) list" where
  "syslog_stamp = [(Bol, False),
     (seqs [Cls is_upper, rep 2 (Cls is_lower), plus sp, plus digit, plus sp, rep 2 digit, lit '':'', rep 2 digit,
        lit '':'', rep 2 digit], True)]"

definition parse_log_timestamp :: "'w fw_host \<Rightarrow> string \<Rightarrow> string option" where
  "parse_log_timestamp fh line =
     (let syslog = (case match_groups syslog_stamp line of Some [stamp] \<Rightarrow> fh_syslog fh stamp | _ \<Rightarrow> None) in
      case match_groups iso_stamp line of
        Some [ts] \<Rightarrow> (case fh_iso fh (normalize_iso ts) of Some d \<Rightarrow> Some d | None \<Rightarrow> syslog)
      | _ \<Rightarrow> syslog)"

abbreviation from_port :: "(char rx \<times> bool) list" where
  "from_port \<equiv> [(seqs [plus sp, lit_i ''from'', plus sp], False), (plus nsp, True), (seqs [plus sp, lit_i ''port'', plus sp], False),
     (plus digit, True)]"

definition accepted_pattern :: "(char rx \<times> bool) list" where
  "accepted_pattern = [(seqs [lit_i ''accepted'', plus sp], False), (plus wd, True), (seqs [plus sp, lit_i ''for'', plus sp], False),
     (plus nsp, True)] @ from_port"

definition failed_pattern :: "(char rx \<times> bool) list" where
  "failed_pattern = [(seqs [lit_i ''failed'', plus sp, plus wd, plus sp, lit_i ''for'', plus sp,
       opt (seqs [lit_i ''invalid user'', plus sp])], False), (plus nsp, True)] @ from_port"

definition invalid_pattern :: "(char rx \<times> bool) list" where
  "invalid_pattern = [(seqs [lit_i ''invalid user'', plus sp], False), (plus nsp, True)] @ from_port"

definition ssh_entry :: "string \<Rightarrow> string \<Rightarrow> string \<Rightarrow> string \<Rightarrow> string \<Rightarrow> string \<Rightarrow> pydict" where
  "ssh_entry ts user ip port status reason =
     [(''timestamp'', PStr ts), (''user'', PStr user), (''sourceIp'', PStr ip), (''port'', PInt (int (nat_of_text port))),
      (''status'', PStr status), (''reason'', PStr reason)]"

definition parse_ssh_log_line :: "'w fw_host \<Rightarrow> string \<Rightarrow> pydict option" where
  "parse_ssh_log_line fh line =
     (let text = strip line in
      if \<not> contains (lower text) ''sshd'' then None
      else case parse_log_timestamp fh text of
        None \<Rightarrow> None
      | Some ts \<Rightarrow>
          (case search_groups accepted_pattern text of
             Some [meth, user, ip, port] \<Rightarrow> Some (ssh_entry ts user ip port ''SUCCESS'' (strip (''Accepted '' @ meth)))
           | _ \<Rightarrow>
               (let reason = (if contains (lower text) ''invalid user'' then ''Invalid user'' else ''Authentication failed'')
                in case search_groups failed_pattern text of
                     Some [user, ip, port] \<Rightarrow> Some (ssh_entry ts user ip port ''FAILURE'' reason)
                   | _ \<Rightarrow> (case search_groups invalid_pattern text of
                            Some [user, ip, port] \<Rightarrow> Some (ssh_entry ts user ip port ''FAILURE'' reason)
                          | _ \<Rightarrow> None))))"

fun read_journal :: "'w fw_host \<Rightarrow> int \<Rightarrow> string list list \<Rightarrow> ('w, string list) act" where
  "read_journal fh max_lines [] = ret []"
| "read_journal fh max_lines (names # rest) =
     bindM (fw_run fh ([''journalctl'', ''--no-pager'', ''-o'', ''short-iso'', ''-n'', str_of_int max_lines, ''-r''] @
                       concat (map (\<lambda>n. [''-u'', n]) names)) False 3)
       (\<lambda>(code, so, se). if code = 0 \<and> strip so \<noteq> [] then ret (filter (\<lambda>l. strip l \<noteq> []) (splitlines so))
                         else read_journal fh max_lines rest)"

text \<open>The lines of a file keep their line ends; \<open>deque(fp, maxlen)\<close> keeps the last ones and raises
  for a negative length, which the code turns into no lines.\<close>

fun keep_lines :: "string \<Rightarrow> string \<Rightarrow> string list" where
  "keep_lines acc [] = (if acc = [] then [] else [rev acc])"
| "keep_lines acc (x # xs) = (if x = newline then rev (x # acc) # keep_lines [] xs else keep_lines (x # acc) xs)"

definition read_tail_lines :: "'w fw_host \<Rightarrow> string \<Rightarrow> int \<Rightarrow> 'w \<Rightarrow> string list" where
  "read_tail_lines fh path max_lines w =
     (if \<not> os_exists (fh_os fh) path w \<or> \<not> os_is_file (fh_os fh) path w \<or> max_lines < 0 then []
      else case os_read (fh_os fh) path w of
        None \<Rightarrow> []
      | Some content \<Rightarrow> (let ls = keep_lines [] content in drop (length ls - nat max_lines) ls))"

definition read_ssh_log_lines :: "'w fw_host \<Rightarrow> int \<Rightarrow> ('w, string list) act" where
  "read_ssh_log_lines fh max_lines =
     bindM (read_journal fh max_lines [[''ssh''], [''sshd''], [''ssh'', ''sshd'']]) (\<lambda>js.
       if js \<noteq> [] then ret js
       else bindM (query (read_tail_lines fh ''/var/log/auth.log'' max_lines)) (\<lambda>a.
         if a \<noteq> [] then ret a else query (read_tail_lines fh ''/var/log/secure'' max_lines)))"

definition number_entries :: "pydict option list \<Rightarrow> pyval list" where
  "number_entries es =
     List.map_filter (\<lambda>(i, e). map_option (\<lambda>d. PDict (AList.update ''id'' (PInt (int i + 1)) d)) e)
       (zip [0..<length es] es)"

definition list_ssh_logs :: "'w fw_host \<Rightarrow> int \<Rightarrow> ('w, pyval) act" where
  "list_ssh_logs fh max_lines =
     bindM (read_ssh_log_lines fh max_lines) (\<lambda>lines.
       ret (PList (number_entries (map (parse_ssh_log_line fh) lines))))"

section \<open>Lemmas\<close>

abbreviation fw_effect :: "'w fw_host \<Rightarrow> string list \<Rightarrow> effect" where
  "fw_effect fh c \<equiv> Run c (Some (command_env (fh_environ fh))) (Some 5)"

lemma follows_fw_run: "follows (fw_run fh c chk t) [Run c (Some (command_env (fh_environ fh))) (Some t)]"
proof -
  have "follows (case out of
          Exc e \<Rightarrow> if e = ''FileNotFoundError'' then raise (ActionError EC_SERVICE_UNAVAILABLE e)
                   else raise (ActionError EC_INTERNAL_ERROR e)
        | Timeout \<Rightarrow> raise (ActionError EC_SERVICE_UNAVAILABLE d)
        | Done \<Rightarrow> ret (0, [], [])
        | Proc code so se \<Rightarrow>
            if chk \<and> code \<noteq> 0
            then raise (ActionError EC_COMMAND_FAILED
                   (if strip se \<noteq> [] then strip se else if strip so \<noteq> [] then strip so else h code))
            else ret (code, so, se)) []" for out d h
    by (auto split: outcome.splits)
  then show ?thesis unfolding fw_run_def using follows_bindM [OF follows_perform] by fastforce
qed

lemma follows_run_all: "follows (run_all fh cs) (map (fw_effect fh) cs)"
proof (induction cs)
  case (Cons c cs)
  from follows_seqM [OF follows_fw_run Cons] show ?case by simp
qed (auto)

lemma detect_backend_cases:
  "detect_backend fh m =
     (if fh_which fh ''firewall-cmd'' (mworld m) then (Inr ''firewalld'', m)
      else if fh_which fh ''ufw'' (mworld m) then (Inr ''ufw'', m)
      else (Inl (ActionError EC_SERVICE_UNAVAILABLE ''firewall-cmd ufw''), m))"
  by (simp add: detect_backend_def act_defs)

definition rule_commands ::
  "'w fw_host \<Rightarrow> string \<Rightarrow> 'w \<Rightarrow> int \<Rightarrow> string \<Rightarrow> int option \<Rightarrow> string option \<Rightarrow> string option \<Rightarrow> string list list" where
  "rule_commands fh op w port protocol ip_version source_ip destination_ip =
     (let ipv = rule_family (fh_ipver fh) ip_version source_ip destination_ip;
          src = or_default source_ip (default_any_for_family ipv)
      in if fh_which fh ''firewall-cmd'' w then firewalld_commands op ipv src port (lower protocol)
         else if fh_which fh ''ufw'' w then ufw_commands op src port (lower protocol) else [])"

lemma change_rule_effects:
  "\<exists>es. mlog (snd (change_rule fh op policy port protocol ipv src dst m)) = mlog m @ es \<and>
     prefix es (map (fw_effect fh) (rule_commands fh op (mworld m) port protocol ipv src dst)) \<and>
     (\<forall>d. fst (change_rule fh op policy port protocol ipv src dst m) = Inr d \<longrightarrow>
        es = map (fw_effect fh) (rule_commands fh op (mworld m) port protocol ipv src dst))"
proof -
  let ?v = "rule_family (fh_ipver fh) ipv src dst"
  let ?s = "or_default src (default_any_for_family ?v)" and ?d = "or_default dst (default_any_for_family ?v)"
  have run: "\<exists>es. mlog (snd (seqM (run_all fh cs) (ret x) m)) = mlog m @ es \<and> prefix es (map (fw_effect fh) cs) \<and>
      (\<forall>d. fst (seqM (run_all fh cs) (ret x) m) = Inr d \<longrightarrow> es = map (fw_effect fh) cs)" for cs and x :: pyval
    using followsD [OF follows_seqM [OF follows_run_all follows_ret]] by fastforce
  show ?thesis
  proof (cases "detect_ip_family (fh_ipver fh) [Some ?s] \<noteq> detect_ip_family (fh_ipver fh) [Some ?d]")
    case True
    then show ?thesis by (intro exI [of _ "[]"]) (simp add: change_rule_def Let_def raise_def)
  next
    case False
    consider "fh_which fh ''firewall-cmd'' (mworld m)"
      | "\<not> fh_which fh ''firewall-cmd'' (mworld m)" "fh_which fh ''ufw'' (mworld m)"
      | "\<not> fh_which fh ''firewall-cmd'' (mworld m)" "\<not> fh_which fh ''ufw'' (mworld m)" by blast
    then show ?thesis
    proof cases
      case 1
      with False run show ?thesis
        by (simp add: change_rule_def rule_commands_def Let_def bindM_def detect_backend_cases)
    next
      case 2
      with False run show ?thesis
        by (simp add: change_rule_def rule_commands_def Let_def bindM_def detect_backend_cases)
    next
      case 3
      with False show ?thesis
        by (simp add: change_rule_def rule_commands_def Let_def bindM_def detect_backend_cases)
    qed
  qed
qed

lemma case_ok: "(case r of Inl e \<Rightarrow> True | Inr d \<Rightarrow> P) \<longleftrightarrow> (\<forall>d. r = Inr d \<longrightarrow> P)"
  by (cases r) auto

lemma port_entries_cases:
  "(if (\<forall>e \<in> set es. contains e ''/'' \<longrightarrow> py_int (takeWhile (\<lambda>c. c \<noteq> CHR ''/'') e) \<noteq> None)
    then (\<exists>rs. port_entries es m = (Inr rs, m)) else port_entries es m = (Inl (PyExc ''ValueError''), m))"
  by (induction es) (auto simp: act_defs int_or_raise_def Let_def split: option.splits if_splits)

section \<open>Properties\<close>

text \<open>
  Adding and removing a port rule are inverse at the level of commands: with the same
  arguments, what \<open>remove_port_rule\<close> runs is what \<open>add_port_rule\<close> runs with the rule option turned
  from add to remove (firewalld) or with the same specification after \<open>delete\<close> (ufw); each runs a
  prefix of its commands, and all of them when it reports success.
\<close>

theorem port_rule_commands:
  "(\<exists>es. mlog (snd (add_port_rule fh port protocol ipv src dst 1 m)) = mlog m @ es \<and>
      prefix es (map (fw_effect fh) (rule_commands fh ''add'' (mworld m) port protocol ipv src dst)) \<and>
      (case fst (add_port_rule fh port protocol ipv src dst 1 m) of
         Inr d \<Rightarrow> es = map (fw_effect fh) (rule_commands fh ''add'' (mworld m) port protocol ipv src dst)
       | Inl e \<Rightarrow> True)) \<and>
   (\<exists>es. mlog (snd (remove_port_rule fh port protocol ipv src dst m)) = mlog m @ es \<and>
      prefix es (map (fw_effect fh) (rule_commands fh ''remove'' (mworld m) port protocol ipv src dst)) \<and>
      (case fst (remove_port_rule fh port protocol ipv src dst m) of
         Inr d \<Rightarrow> es = map (fw_effect fh) (rule_commands fh ''remove'' (mworld m) port protocol ipv src dst)
       | Inl e \<Rightarrow> True))"
  using change_rule_effects [of fh "''add''" "''accept''" port protocol ipv src dst m]
    change_rule_effects [of fh "''remove''" "''removed''" port protocol ipv src dst m]
  by (simp add: add_port_rule_def remove_port_rule_def case_ok)

text \<open>
  Listing the rules of firewalld fails as a whole when one open port is a range: the port
  entries are accepted exactly when the text before the slash of each is a single number, and
  \<open>8000-9000/tcp\<close> raises \<open>ValueError\<close>.
\<close>

lemma port_ranges_break_listing:
  "(if (\<exists>e \<in> set entries. contains e ''/'' \<and> py_int (takeWhile (\<lambda>c. c \<noteq> CHR ''/'') e) = None)
    then port_entries entries m = (Inl (PyExc ''ValueError''), m)
    else (\<exists>rules. port_entries entries m = (Inr rules, m))) \<and>
   py_int (takeWhile (\<lambda>c. c \<noteq> CHR ''/'') ''8000-9000/tcp'') = None"
proof
  show "py_int (takeWhile (\<lambda>c. c \<noteq> CHR ''/'') ''8000-9000/tcp'') = None" by code_simp
  show "if (\<exists>e \<in> set entries. contains e ''/'' \<and> py_int (takeWhile (\<lambda>c. c \<noteq> CHR ''/'') e) = None)
    then port_entries entries m = (Inl (PyExc ''ValueError''), m)
    else (\<exists>rules. port_entries entries m = (Inr rules, m))"
    using port_entries_cases [of entries m] by (auto split: if_splits)
qed

end
