(* ===== verification/RateLimit.thy ===== *)
theory RateLimit
  imports PyPrelude
begin

text \<open>
  \<open>RateLimiter\<close> of \<open>privileged_agent/server.py\<close>: a sliding window of 60 seconds per action.  The
  buckets are a \<open>defaultdict(list)\<close>, the function \<open>buckets\<close>.
\<close>

type_synonym buckets = "string \<Rightarrow> timestamp list"

definition rate_check :: "nat \<Rightarrow> timestamp \<Rightarrow> string \<Rightarrow> buckets \<Rightarrow> bool \<times> buckets" where
  "rate_check max_per_minute now action buckets =
     (let recent = filter (\<lambda>ts. ts > now - 60) (buckets action) in
      if length recent \<ge> max_per_minute then (False, buckets(action := recent))
      else (True, buckets(action := recent @ [now])))"

text \<open>The accepted calls of a sequence of calls.\<close>

fun rate_run :: "nat \<Rightarrow> (timestamp \<times> string) list \<Rightarrow> buckets \<Rightarrow> (timestamp \<times> string) list" where
  "rate_run k [] b = []"
| "rate_run k ((now, action) # calls) b =
     (case rate_check k now action b of
        (True, b') \<Rightarrow> (now, action) # rate_run k calls b'
      | (False, b') \<Rightarrow> rate_run k calls b')"

section \<open>Lemmas\<close>

text \<open>
  Past calls \<open>past\<close> of an action are covered by its bucket at time \<open>t\<close>: what the bucket has forgotten
  is older than 60 seconds.
\<close>

definition covers :: "timestamp \<Rightarrow> timestamp list \<Rightarrow> timestamp list \<Rightarrow> bool" where
  "covers t bucket past \<longleftrightarrow> filter (\<lambda>ts. ts > t - 60) bucket = filter (\<lambda>ts. ts > t - 60) past"

lemma filter_filter_window:
  "t \<le> u \<Longrightarrow> filter (\<lambda>ts. ts > u - (60::rat)) (filter (\<lambda>ts. ts > t - 60) xs) = filter (\<lambda>ts. ts > u - 60) xs"
  by (induction xs) auto

lemma covers_later: "covers t b past \<Longrightarrow> t \<le> u \<Longrightarrow> covers u b past"
  unfolding covers_def by (metis filter_filter_window)

abbreviation times_of :: "string \<Rightarrow> (timestamp \<times> string) list \<Rightarrow> timestamp list" where
  "times_of a calls \<equiv> map fst (filter (\<lambda>c. snd c = a) calls)"

text \<open>At every accepted call the calls of the window, this one included, are at most \<open>k\<close>.\<close>

definition window_ok :: "nat \<Rightarrow> timestamp list \<Rightarrow> bool" where
  "window_ok k ts \<longleftrightarrow> (\<forall>w. length (filter (\<lambda>t. w < t \<and> t \<le> w + 60) ts) \<le> k)"

lemma window_ok_snoc:
  assumes "window_ok k past" "length (filter (\<lambda>t. now - 60 < t) past) < k" "\<forall>t \<in> set past. t \<le> now"
  shows "window_ok k (past @ [now])"
  unfolding window_ok_def
proof
  fix w
  show "length (filter (\<lambda>t. w < t \<and> t \<le> w + 60) (past @ [now])) \<le> k"
  proof (cases "w < now \<and> now \<le> w + 60")
    case True
    have "length (filter (\<lambda>t. w < t \<and> t \<le> w + 60) past) \<le> length (filter (\<lambda>t. now - 60 < t) past)"
      using True by (induction past) auto
    with assms(2) True show ?thesis by simp
  next
    case False
    then have "filter (\<lambda>t. w < t \<and> t \<le> w + 60) (past @ [now]) = filter (\<lambda>t. w < t \<and> t \<le> w + 60) past" by auto
    with assms(1) show ?thesis by (simp add: window_ok_def)
  qed
qed

lemma rate_run_window:
  assumes "sorted (t # map fst calls)" "covers t (b a) past" "window_ok k past" "\<forall>s \<in> set past. s \<le> t"
  shows "window_ok k (past @ times_of a (rate_run k calls b))"
  using assms
proof (induction calls arbitrary: t b past)
  case (Cons c calls)
  obtain now act where c: "c = (now, act)" by (cases c)
  obtain ok b' where rc: "rate_check k now act b = (ok, b')" by fastforce
  have t: "t \<le> now" "sorted (now # map fst calls)" using Cons.prems(1) by (auto simp: c)
  have cov: "covers now (b a) past" using covers_later [OF Cons.prems(2) t(1)] .
  have le: "\<forall>s \<in> set past. s \<le> now" using Cons.prems(4) t(1) by auto
  show ?case
  proof (cases "act = a \<and> ok")
    case True
    then have b': "b' a = filter (\<lambda>ts. ts > now - 60) (b a) @ [now]"
      and lt: "length (filter (\<lambda>ts. ts > now - 60) (b a)) < k"
      using rc by (auto simp: rate_check_def Let_def split: if_splits)
    have "window_ok k (past @ [now])"
      using window_ok_snoc [OF Cons.prems(3) _ le] lt cov by (simp add: covers_def)
    moreover have "covers now (b' a) (past @ [now])"
      using cov by (simp add: covers_def b')
    ultimately have "window_ok k ((past @ [now]) @ times_of a (rate_run k calls b'))"
      using Cons.IH [OF t(2), of b' "past @ [now]"] le by simp
    then show ?thesis using True rc by (simp add: c)
  next
    case False
    then have "covers now (b' a) past"
      using rc cov by (auto simp: rate_check_def Let_def covers_def split: if_splits)
    then have "window_ok k (past @ times_of a (rate_run k calls b'))"
      using Cons.IH [OF t(2) _ Cons.prems(3) le] by simp
    then show ?thesis using False rc by (cases ok) (auto simp: c)
  qed
qed simp

section \<open>Property\<close>

text \<open>
  C11. The limiter keeps its promise for every window, not only those that end at a call: starting
  from empty buckets, whatever calls are made at non-decreasing times, at most \<open>max_per_minute\<close>
  calls of an action are accepted in any interval of 60 seconds.
\<close>

theorem rate_limit_window:
  assumes "sorted (map fst calls)"
  shows "length (filter (\<lambda>c. snd c = action \<and> w < fst c \<and> fst c \<le> w + 60) (rate_run k calls (\<lambda>_. []))) \<le> k"
proof (cases calls)
  case (Cons c rest)
  have "window_ok k ([] @ times_of action (rate_run k calls (\<lambda>_. [])))"
    by (rule rate_run_window [where t = "fst c"]) (use assms Cons in \<open>auto simp: covers_def window_ok_def\<close>)
  then have "length (filter (\<lambda>t. w < t \<and> t \<le> w + 60) (times_of action (rate_run k calls (\<lambda>_. [])))) \<le> k"
    by (simp add: window_ok_def)
  then show ?thesis by (simp add: filter_map comp_def conj_commute)
qed simp

theorem rate_limit_window_witness:
  "length (filter (\<lambda>c. snd c = ''x'' \<and> 0 < fst c \<and> fst c \<le> 0 + 60)
     (rate_run 2 [(1, ''x''), (2, ''x''), (3, ''x''), (70, ''x'')] (\<lambda>_. []))) \<le> 2"
  using rate_limit_window [of "[(1, ''x''), (2, ''x''), (3, ''x''), (70, ''x'')]" "''x''" 0 2] by simp

end
