(* ===== verification/PrivLegacy.thy ===== *)
theory PrivLegacy
  imports PrivServer Firewall RateLimit
begin

text \<open>
  The privileged agent, protocol version 1: the unsigned requests of \<open>privileged_agent/server.py\<close>
  (\<open>_dispatch\<close>, \<open>_handle_v1\<close> and their helpers).  A request is an action name and a payload; the
  actions are grouped as in the source.  The state is the buckets of the rate limiter and the
  machine.
\<close>

section \<open>Payload access\<close>

text \<open>\<open>payload[k]\<close>, \<open>str(payload[k])\<close>, \<open>int(v)\<close>.\<close>

definition need :: "pydict \<Rightarrow> string \<Rightarrow> ('w, pyval) act" where
  "need payload k = (case map_of payload k of None \<Rightarrow> raise (PyExc ''KeyError'') | Some v \<Rightarrow> ret v)"

definition need_str :: "pydict \<Rightarrow> string \<Rightarrow> ('w, string) act" where
  "need_str payload k = bindM (need payload k) (\<lambda>v. ret (py_str v))"

definition get_str :: "pydict \<Rightarrow> string \<Rightarrow> string \<Rightarrow> string" where
  "get_str payload k d = py_str (dget_or payload k (PStr d))"

definition to_int :: "pyval \<Rightarrow> ('w, int) act" where
  "to_int v =
     (case v of
        PInt i \<Rightarrow> ret i
      | PBool b \<Rightarrow> ret (if b then 1 else 0)
      | PStr s \<Rightarrow> int_or_raise s
      | PFloat r \<Rightarrow> (case float_value r of
                      Some x \<Rightarrow> ret (if 0 \<le> x then \<lfloor>x\<rfloor> else - \<lfloor>- x\<rfloor>)
                    | None \<Rightarrow> raise (PyExc (if r = ''nan'' then ''ValueError'' else ''OverflowError'')))
      | _ \<Rightarrow> raise (PyExc ''TypeError''))"

definition need_int :: "pydict \<Rightarrow> string \<Rightarrow> ('w, int) act" where
  "need_int payload k = bindM (need payload k) to_int"

definition get_int :: "pydict \<Rightarrow> string \<Rightarrow> int \<Rightarrow> ('w, int) act" where
  "get_int payload k d = to_int (dget_or payload k (PInt d))"

text \<open>An optional address of the payload: a missing one is \<open>None\<close>.\<close>

definition get_addr :: "pydict \<Rightarrow> string \<Rightarrow> string option" where
  "get_addr payload k = (case dget payload k of PNone \<Rightarrow> None | v \<Rightarrow> Some (py_str v))"

section \<open>Firewall and SSH logs\<close>

definition v1_firewall :: "'w fw_host \<Rightarrow> string \<Rightarrow> pydict \<Rightarrow> ('w, pyval) act" where
  "v1_firewall fh action payload =
     (if action = ''firewall.get_status'' then bindM (get_firewall_status fh) (\<lambda>(active, d). ret d)
      else if action = ''firewall.list_rules'' then bindM (list_firewall_rules fh) (\<lambda>rs. ret (PList rs))
      else if action = ''firewall.add_port_rule'' then
        bindM (need_int payload ''port'') (\<lambda>port. bindM (need_str payload ''protocol'') (\<lambda>protocol.
          bindM (get_int payload ''ipVersion'' 4) (\<lambda>ipv. bindM (get_int payload ''action'' 1) (\<lambda>act.
            add_port_rule fh port protocol (Some ipv) (get_addr payload ''sourceIp'') (get_addr payload ''destinationIp'') act))))
      else if action = ''firewall.remove_port_rule'' then
        bindM (need_int payload ''port'') (\<lambda>port. bindM (need_str payload ''protocol'') (\<lambda>protocol.
          bindM (get_int payload ''ipVersion'' 4) (\<lambda>ipv.
            remove_port_rule fh port protocol (Some ipv) (get_addr payload ''sourceIp'') (get_addr payload ''destinationIp''))))
      else if action = ''firewall.set_enabled'' then
        bindM (need payload ''enabled'') (\<lambda>v. set_firewall_enabled fh (truthy v))
      else bindM (get_int payload ''maxLines'' 500) (list_ssh_logs fh))"

section \<open>Nginx\<close>

definition nginx_save_config :: "'w os \<Rightarrow> string \<Rightarrow> string \<Rightarrow> ('w, pyval) act" where
  "nginx_save_config os target_path content =
     seqM (effect_do os (Mkdirs (path_parent target_path)))
       (seqM (effect_do os (WriteText (path_str target_path) content))
         (seqM (effect_do os (Chmod (path_str target_path) 420))
           (ret (PDict [(''targetPath'', PStr (path_str target_path)), (''isSaved'', PBool True)]))))"

text \<open>\<open>Path(a) / b\<close>: an absolute second part replaces the first.\<close>

definition path_join :: "string \<Rightarrow> string \<Rightarrow> string" where
  "path_join a b = (if is_absolute b then path_str b else path_str (a @ ''/'' @ b))"

definition enabled_link :: "string \<Rightarrow> string" where
  "enabled_link site_name = path_join ''/etc/nginx/sites-enabled'' (site_name @ ''.conf'')"

definition ensure_symlink :: "'w os \<Rightarrow> string \<Rightarrow> string \<Rightarrow> string \<Rightarrow> ('w, unit) act" where
  "ensure_symlink os target_path site_name layout_type =
     (if layout_type = ''sites-enabled'' then
        bindM (query (os_exists os (enabled_link site_name))) (\<lambda>there.
          if there then ret () else effect_do os (SymlinkTo (enabled_link site_name) (path_str target_path)))
      else ret ())"

definition save_config_atomic :: "'w os \<Rightarrow> string \<Rightarrow> string \<Rightarrow> string \<Rightarrow> string \<Rightarrow> ('w, pyval) act" where
  "save_config_atomic os target_path content layout_type site_name =
     (let path = path_str target_path in
      bindM (query (os_exists os path)) (\<lambda>there.
      bindM (if there then bindM (query (os_read os path))
                             (\<lambda>r. case r of Some c \<Rightarrow> ret (Some c) | None \<Rightarrow> raise (PyExc ''OSError''))
             else ret None) (\<lambda>backup.
        seqM (effect_do os (Mkdirs (path_parent target_path)))
       (seqM (effect_do os (WriteText path content))
       (seqM (effect_do os (Chmod path 420))
       (seqM (ensure_symlink os target_path site_name layout_type)
       (bindM (subprocess_run os [''nginx'', ''-t''] None None) (\<lambda>(code, so, se).
          if code \<noteq> 0 then
            seqM (case backup of
                    Some c \<Rightarrow> seqM (effect_do os (WriteText path c)) (ensure_symlink os target_path site_name layout_type)
                  | None \<Rightarrow> ret ())
              (raise (ActionError EC_COMMAND_FAILED (strip (if se \<noteq> [] then se else so))))
          else seqM (run10 os [''systemctl'', ''reload'', ''nginx''])
                 (ret (PDict [(''targetPath'', PStr path), (''isSaved'', PBool True), (''isReloaded'', PBool True)]))))))))))"

definition v1_nginx_config :: "'w os \<Rightarrow> string \<Rightarrow> pydict \<Rightarrow> ('w, pyval) act" where
  "v1_nginx_config os action payload =
     bindM (need_str payload ''targetPath'') (\<lambda>target_path.
     bindM (need_str payload ''content'') (\<lambda>content.
       (let layout_type = get_str payload ''layoutType'' []; site_name = get_str payload ''siteName'' [] in
        if action = ''nginx.save_config_atomic'' then save_config_atomic os target_path content layout_type site_name
        else if action = ''nginx.save_config'' then
          bindM (nginx_save_config os target_path content) (\<lambda>d.
            seqM (ensure_symlink os target_path site_name layout_type)
              (seqM (run10 os [''nginx'', ''-t'']) (ret d)))
        else
          seqM (nginx_save_config os target_path content)
            (seqM (run10 os [''nginx'', ''-t''])
              (seqM (run10 os [''systemctl'', ''reload'', ''nginx''])
                (ret (PDict [(''targetPath'', PStr target_path), (''isSslConfigured'', PBool True),
                             (''isReloaded'', PBool True)])))))))"

definition v1_nginx_service :: "'w os \<Rightarrow> string \<Rightarrow> ('w, pyval) act" where
  "v1_nginx_service os action =
     (if action = ''nginx.test_config'' then
        bindM (run10 os [''nginx'', ''-t'']) (\<lambda>(code, so, se).
          ret (PDict [(''isValid'', PBool True), (''stdout'', PStr (strip so)), (''stderr'', PStr (strip se))]))
      else if action = ''nginx.reload'' then
        seqM (run10 os [''systemctl'', ''reload'', ''nginx''])
          (ret (PDict [(''serviceName'', PStr ''nginx''), (''action'', PStr ''reload''), (''isReloaded'', PBool True)]))
      else
        seqM (run10 os [''systemctl'', ''restart'', ''nginx''])
          (bindM (subprocess_run os [''systemctl'', ''is-active'', ''nginx''] None None) (\<lambda>(code, so, se).
            ret (PDict [(''serviceName'', PStr ''nginx''), (''action'', PStr ''restart''), (''isRestarted'', PBool True),
                        (''currentStatus'', PStr (strip so))]))))"

definition nginx_delete_site :: "'w os \<Rightarrow> pydict \<Rightarrow> ('w, pyval) act" where
  "nginx_delete_site os payload =
     bindM (need_str payload ''configPath'') (\<lambda>config_path.
       (let link = enabled_link (get_str payload ''siteName'' []);
            unlink_if = (\<lambda>b p. if b then effect_do os (Unlink p) else ret ()) in
        seqM (bindM (query (os_exists os (path_str config_path))) (\<lambda>e. unlink_if e (path_str config_path)))
       (seqM (if get_str payload ''layoutType'' [] = ''sites-enabled''
              then bindM (query (\<lambda>w. os_exists os link w \<or> os_is_symlink os link w)) (\<lambda>e. unlink_if e link)
              else ret ())
       (seqM (run10 os [''nginx'', ''-t''])
       (seqM (run10 os [''systemctl'', ''reload'', ''nginx''])
         (ret (PDict [(''configPath'', PStr config_path), (''isDeleted'', PBool True), (''isReloaded'', PBool True)])))))))"

definition nginx_read_file :: "'w os \<Rightarrow> pydict \<Rightarrow> ('w, pyval) act" where
  "nginx_read_file os payload =
     bindM (need_str payload ''filePath'') (\<lambda>file_path.
     bindM (query (os_exists os (path_str file_path))) (\<lambda>there.
       if \<not> there then raise (ActionError EC_SERVICE_UNAVAILABLE file_path)
       else bindM (query (os_read os (path_str file_path))) (\<lambda>r. case r of
         None \<Rightarrow> raise (PyExc ''OSError'')
       | Some content \<Rightarrow> ret (PDict [(''filePath'', PStr file_path), (''content'', PStr content)]))))"

text \<open>\<open>f.suffix == ".conf"\<close> of a file name.\<close>

definition conf_suffix :: "string \<Rightarrow> bool" where
  "conf_suffix name \<longleftrightarrow> endswith name ''.conf'' \<and> 5 < length name"

definition nginx_list_dir :: "'w os \<Rightarrow> pydict \<Rightarrow> ('w, pyval) act" where
  "nginx_list_dir os payload =
     bindM (need_str payload ''dirPath'') (\<lambda>dir_path.
       query (\<lambda>w.
         (let files = (if \<not> os_exists os (path_str dir_path) w then []
                       else map (\<lambda>name. (let p = path_join dir_path name in
                                  PDict [(''name'', PStr name), (''path'', PStr p), (''size'', PInt (int (os_size os p w)))]))
                              (filter (\<lambda>name. os_is_file os (path_join dir_path name) w \<and> conf_suffix name)
                                 (sort (os_iterdir os (path_str dir_path) w))))
          in PDict [(''dirPath'', PStr dir_path), (''files'', PList files)])))"

definition nginx_apply_ssl :: "'w os \<Rightarrow> pydict \<Rightarrow> ('w, pyval) act" where
  "nginx_apply_ssl os payload =
     bindM (need_str payload ''domain'') (\<lambda>domain.
     bindM (need_str payload ''email'') (\<lambda>email.
     bindM (need_str payload ''webroot'') (\<lambda>webroot.
     bindM (subprocess_run os [''which'', ''certbot''] None None) (\<lambda>(code, so, se).
       seqM (if code \<noteq> 0
             then bindM (subprocess_run os [''python3'', ''-m'', ''certbot'', ''--version''] None None) (\<lambda>(code2, so, se).
                    if code2 \<noteq> 0 then raise (ActionError EC_SERVICE_UNAVAILABLE ''certbot'') else ret ())
             else ret ())
       (seqM (run10 os [''certbot'', ''certonly'', ''--webroot'', ''-w'', webroot, ''-d'', domain, ''--email'', email,
                        ''--agree-tos'', ''--non-interactive''])
         (let live = path_str (''/etc/letsencrypt/live/'' @ domain) in
          ret (PDict [(''domain'', PStr domain), (''webroot'', PStr webroot),
            (''certPath'', PStr (path_join live ''fullchain.pem'')), (''keyPath'', PStr (path_join live ''privkey.pem''))])))))))"

definition nginx_renew_ssl :: "'w os \<Rightarrow> pydict \<Rightarrow> ('w, pyval) act" where
  "nginx_renew_ssl os payload =
     bindM (need_str payload ''domain'') (\<lambda>domain.
       seqM (run10 os [''certbot'', ''renew'', ''--cert-name'', domain, ''--non-interactive''])
      (seqM (run10 os [''nginx'', ''-t''])
      (seqM (run10 os [''systemctl'', ''reload'', ''nginx''])
        (ret (PDict [(''domain'', PStr domain), (''isRenewed'', PBool True), (''isReloaded'', PBool True)])))))"

section \<open>Services and databases\<close>

definition allowed_service_actions :: "string set" where
  "allowed_service_actions = {''start'', ''stop'', ''restart'', ''enable'', ''disable''}"

definition allowed_service_names :: "string set" where
  "allowed_service_names = {''ssh'', ''sshd'', ''firewalld'', ''nginx'', ''docker''}"

definition service_set_state :: "'w os \<Rightarrow> pydict \<Rightarrow> ('w, pyval) act" where
  "service_set_state os payload =
     bindM (need_str payload ''serviceName'') (\<lambda>service_name.
     bindM (need_str payload ''action'') (\<lambda>service_action.
       if service_action \<notin> allowed_service_actions then raise (ActionError EC_INVALID_REQUEST service_action)
       else if service_name \<notin> allowed_service_names then raise (ActionError EC_PERMISSION_DENIED service_name)
       else bindM (subprocess_run os [''systemctl'', service_action, service_name] None None) (\<lambda>(code, so, se).
         if code \<noteq> 0 then raise (PyExc ''CalledProcessError'')
         else bindM (subprocess_run os [''systemctl'', ''is-active'', service_name] None None) (\<lambda>(code, so, se).
           ret (PDict [(''serviceName'', PStr service_name), (''action'', PStr service_action),
                       (''currentStatus'', PStr (strip so))])))))"

definition docker_set_daemon_config :: "'w os \<Rightarrow> pydict \<Rightarrow> ('w, pyval) act" where
  "docker_set_daemon_config os payload =
     (let target = get_str payload ''daemonJsonPath'' ''/etc/docker/daemon.json''; content = get_str payload ''content'' ''{}'' in
      seqM (effect_do os (Mkdirs (path_parent target)))
     (seqM (effect_do os (WriteText (path_str target) content))
     (seqM (effect_do os (Chmod (path_str target) 420))
     (seqM (run10 os [''systemctl'', ''restart'', ''docker''])
       (ret (PDict [(''daemonJsonPath'', PStr (path_str target)), (''isSet'', PBool True), (''isRestarted'', PBool True)]))))))"

definition mysql_exec :: "'w os \<Rightarrow> string \<Rightarrow> ('w, int \<times> string \<times> string) act" where
  "mysql_exec os sql = run_command os [''mysql'', ''-e'', sql] 4"

text \<open>\<open>password.replace("\\", "\\\\").replace("'", "\\'")\<close>.\<close>

definition escape_password :: "string \<Rightarrow> string" where
  "escape_password p =
     concat (map (\<lambda>c. if c = CHR 0x27 then [CHR 0x5C, c] else [c])
       (concat (map (\<lambda>c. if c = CHR 0x5C then [c, c] else [c]) p)))"

abbreviation sq :: string where "sq \<equiv> [CHR 0x27]"

definition create_user_sql :: "string \<Rightarrow> string \<Rightarrow> string \<Rightarrow> string" where
  "create_user_sql db_name username password =
     (let who = sq @ username @ sq @ ''@'' @ sq @ ''localhost'' @ sq; pw = sq @ escape_password password @ sq in
      ''CREATE USER IF NOT EXISTS '' @ who @ '' IDENTIFIED BY '' @ pw @ ''; '' @
      ''ALTER USER '' @ who @ '' IDENTIFIED BY '' @ pw @ ''; '' @
      ''GRANT ALL PRIVILEGES ON '' @ [CHR 0x60] @ db_name @ [CHR 0x60] @ ''.* TO '' @ who @ ''; FLUSH PRIVILEGES;'')"

definition v1_mysql :: "'w os \<Rightarrow> string \<Rightarrow> pydict \<Rightarrow> ('w, pyval) act" where
  "v1_mysql os action payload =
     (if action = ''mysql.create_database'' then
        bindM (need_str payload ''dbName'') (\<lambda>db_name.
          seqM (mysql_exec os (''CREATE DATABASE IF NOT EXISTS '' @ [CHR 0x60] @ db_name @ [CHR 0x60] @
                  '' CHARACTER SET utf8mb4 COLLATE utf8mb4_general_ci;''))
            (ret (PDict [(''dbName'', PStr db_name), (''charset'', PStr ''utf8mb4''), (''isCreated'', PBool True)])))
      else if action = ''mysql.create_user'' then
        bindM (need_str payload ''dbName'') (\<lambda>db_name. bindM (need_str payload ''username'') (\<lambda>username.
        bindM (need_str payload ''password'') (\<lambda>password.
          seqM (mysql_exec os (create_user_sql db_name username password))
            (ret (PDict [(''dbName'', PStr db_name), (''username'', PStr username), (''host'', PStr ''localhost''),
               (''privileges'', PStr ''ALL PRIVILEGES''), (''isGranted'', PBool True), (''isCreated'', PBool True)])))))
      else if action = ''mysql.get_database_list'' then
        bindM (mysql_exec os ''SHOW DATABASES;'') (\<lambda>(code, so, se).
          ret (PDict [(''databases'', PList (map PStr
            (filter (\<lambda>l. l \<noteq> [] \<and> \<not> startswith l ''Database'') (map strip (splitlines (strip so))))))]))
      else
        bindM (need_str payload ''sql'') (\<lambda>sql. bindM (mysql_exec os sql) (\<lambda>(code, so, se).
          ret (PDict [(''stdout'', PStr (strip so)), (''stderr'', PStr (strip se))]))))"

section \<open>Files and scripts, rate limited\<close>

definition allowed_write_paths :: "string list" where
  "allowed_write_paths = [''/etc/nginx/sites-enabled/'', ''/etc/nginx/conf.d/'', ''/etc/nginx/html/'', ''/var/www/'',
     ''/var/log/nginx/'', ''/etc/mysql/conf.d/'', ''/etc/docker/'', ''/opt/ndlmpanel/'']"

text \<open>\<open>None\<close>: a path on the way cannot be resolved, which raises.\<close>

fun below_any :: "'w os \<Rightarrow> 'w \<Rightarrow> string list \<Rightarrow> string list \<Rightarrow> bool option" where
  "below_any os w path [] = Some False"
| "below_any os w path (dir # dirs) =
     (case os_resolve os dir w of
        None \<Rightarrow> None
      | Some parent \<Rightarrow> if relative_to path parent then Some True else below_any os w path dirs)"

definition check_path_allowed :: "'w os \<Rightarrow> 'w \<Rightarrow> string list \<Rightarrow> string \<Rightarrow> bool option" where
  "check_path_allowed os w dirs target_path =
     (case os_resolve os target_path w of None \<Rightarrow> None | Some path \<Rightarrow> below_any os w path dirs)"

text \<open>An action that first passes the rate limiter, on the limiter's buckets and the machine.\<close>

type_synonym ('w, 'a) limited = "buckets \<times> 'w machine \<Rightarrow> (action_error + 'a) \<times> buckets \<times> 'w machine"

definition unlimited :: "('w, 'a) act \<Rightarrow> ('w, 'a) limited" where
  "unlimited f st = (let (r, m) = f (snd st) in (r, fst st, m))"

definition rate_limited :: "timestamp \<Rightarrow> string \<Rightarrow> ('w, 'a) act \<Rightarrow> ('w, 'a) limited" where
  "rate_limited now action f st =
     (let (ok, b) = rate_check 10 now action (fst st) in
      if ok then (let (r, m) = f (snd st) in (r, b, m))
      else (Inl (ActionError EC_PERMISSION_DENIED (''action='' @ action)), b, snd st))"

definition only_if_allowed :: "'w os \<Rightarrow> string list \<Rightarrow> string \<Rightarrow> ('w, 'a) act \<Rightarrow> ('w, 'a) act" where
  "only_if_allowed os dirs target_path f =
     bindM (query (\<lambda>w. check_path_allowed os w dirs target_path)) (\<lambda>ok.
       case ok of
         Some True \<Rightarrow> f
       | Some False \<Rightarrow> raise (ActionError EC_PERMISSION_DENIED target_path)
       | None \<Rightarrow> raise (PyExc ''RuntimeError''))"

text \<open>
  \<open>file.*\<close> and \<open>nginx.write_static_file\<close>.  Each first reads its payload and delivers the guarded
  action, so a bad payload does not count against the limit.
\<close>

definition file_write :: "'w os \<Rightarrow> pydict \<Rightarrow> string \<Rightarrow> ('w, ('w, pyval) act) act" where
  "file_write os payload target_path =
     bindM (need_str payload ''content'') (\<lambda>content. bindM (get_int payload ''mode'' 420) (\<lambda>mode.
       ret (only_if_allowed os allowed_write_paths target_path
         (seqM (effect_do os (Mkdirs (path_parent target_path)))
         (seqM (effect_do os (WriteText (path_str target_path) content))
         (seqM (effect_do os (Chmod (path_str target_path) mode))
           (ret (PDict [(''targetPath'', PStr (path_str target_path)), (''isSaved'', PBool True)]))))))))"

definition file_mkdir :: "'w os \<Rightarrow> pydict \<Rightarrow> string \<Rightarrow> ('w, ('w, pyval) act) act" where
  "file_mkdir os payload target_path =
     bindM (get_int payload ''mode'' 493) (\<lambda>mode.
       ret (only_if_allowed os allowed_write_paths target_path
         (seqM (effect_do os (Mkdirs (path_str target_path)))
         (seqM (effect_do os (Chmod (path_str target_path) mode))
           (ret (PDict [(''targetPath'', PStr (path_str target_path)), (''isCreated'', PBool True)]))))))"

definition file_chmod :: "'w os \<Rightarrow> pydict \<Rightarrow> string \<Rightarrow> ('w, ('w, pyval) act) act" where
  "file_chmod os payload target_path =
     bindM (need_int payload ''mode'') (\<lambda>mode.
       ret (only_if_allowed os allowed_write_paths target_path
         (seqM (effect_do os (Chmod target_path mode))
           (ret (PDict [(''targetPath'', PStr target_path), (''mode'', PInt mode), (''isSet'', PBool True)])))))"

definition static_write :: "'w os \<Rightarrow> pydict \<Rightarrow> string \<Rightarrow> ('w, ('w, pyval) act) act" where
  "static_write os payload target_path =
     bindM (need_str payload ''content'') (\<lambda>content.
       ret (only_if_allowed os [''/etc/nginx/html/'', ''/var/www/''] target_path
         (bindM (query (\<lambda>w. ''/'' @ join ''/'' (the (os_resolve os target_path w)))) (\<lambda>target.
           seqM (effect_do os (Mkdirs (path_parent target)))
          (seqM (effect_do os (WriteText target content))
          (seqM (effect_do os (Chmod target 420))
            (ret (PDict [(''targetPath'', PStr target), (''isSaved'', PBool True),
                         (''fileSize'', PInt (int (length content)))]))))))))"

definition v1_file :: "'w os \<Rightarrow> timestamp \<Rightarrow> string \<Rightarrow> pydict \<Rightarrow> ('w, pyval) limited" where
  "v1_file os now action payload st =
     (case bindM (need_str payload ''targetPath'') (\<lambda>target_path.
             if action = ''file.write_to_allowed_path'' then file_write os payload target_path
             else if action = ''file.create_directory_in_allowed'' then file_mkdir os payload target_path
             else if action = ''file.set_permissions_in_allowed'' then file_chmod os payload target_path
             else static_write os payload target_path) (snd st) of
        (Inl e, m) \<Rightarrow> (Inl e, fst st, m)
      | (Inr f, m) \<Rightarrow> rate_limited now action f (fst st, m))"

definition script_args :: "pyval \<Rightarrow> string list option" where
  "script_args v =
     (case v of
        PList xs \<Rightarrow> those (map (\<lambda>x. case x of PStr s \<Rightarrow> Some s | _ \<Rightarrow> None) xs)
      | PStr s \<Rightarrow> Some (map (\<lambda>c. [c]) s)
      | PDict d \<Rightarrow> Some (map fst d)
      | _ \<Rightarrow> None)"

definition exec_allowed_script :: "'w os \<Rightarrow> timestamp \<Rightarrow> pydict \<Rightarrow> ('w, pyval) limited" where
  "exec_allowed_script os now payload st =
     (case bindM (need_str payload ''scriptPath'') (\<lambda>p. bindM (get_int payload ''timeout'' 60) (\<lambda>t. ret (p, t))) (snd st) of
        (Inl e, m) \<Rightarrow> (Inl e, fst st, m)
      | (Inr (script_path, timeout_sec), m) \<Rightarrow>
          rate_limited now ''exec.allowed_script''
            (only_if_allowed os [''/opt/ndlmpanel/tmp_scripts/''] script_path
              (bindM (query (\<lambda>w. (let s = ''/'' @ join ''/'' (the (os_resolve os script_path w)) in
                                  os_exists os s w \<and> os_is_file os s w))) (\<lambda>there.
                if \<not> there then raise (ActionError EC_SERVICE_UNAVAILABLE script_path)
                else (case script_args (dget_or payload ''args'' (PList [])) of
                        None \<Rightarrow> raise (PyExc ''TypeError'')
                      | Some args \<Rightarrow>
                          bindM (subprocess_run os (script_path # args) (Some SAFE_ENV) (Some timeout_sec)) (\<lambda>(code, so, se).
                            ret (PDict [(''scriptPath'', PStr script_path), (''returnCode'', PInt code),
                                        (''stdout'', PStr (strip so)), (''stderr'', PStr (strip se))]))))))
            (fst st, m))"

section \<open>Dispatch\<close>

definition v1_dispatch :: "'w fw_host \<Rightarrow> timestamp \<Rightarrow> string \<Rightarrow> pydict \<Rightarrow> ('w, pyval) limited" where
  "v1_dispatch fh now action payload =
     (let os = fh_os fh in
      if action \<in> {''firewall.get_status'', ''firewall.list_rules'', ''firewall.add_port_rule'', ''firewall.remove_port_rule'',
                   ''firewall.set_enabled'', ''ssh.list_logs''} then unlimited (v1_firewall fh action payload)
      else if action \<in> {''nginx.save_config_atomic'', ''nginx.save_config'', ''nginx.config_ssl''}
        then unlimited (v1_nginx_config os action payload)
      else if action \<in> {''nginx.test_config'', ''nginx.reload'', ''nginx.restart''} then unlimited (v1_nginx_service os action)
      else if action = ''nginx.delete_site'' then unlimited (nginx_delete_site os payload)
      else if action = ''nginx.read_file'' then unlimited (nginx_read_file os payload)
      else if action = ''nginx.list_dir'' then unlimited (nginx_list_dir os payload)
      else if action = ''nginx.apply_ssl'' then unlimited (nginx_apply_ssl os payload)
      else if action = ''nginx.renew_ssl'' then unlimited (nginx_renew_ssl os payload)
      else if action = ''service.set_state'' then unlimited (service_set_state os payload)
      else if action = ''docker.set_daemon_config'' then unlimited (docker_set_daemon_config os payload)
      else if action \<in> {''mysql.create_database'', ''mysql.create_user'', ''mysql.get_database_list'', ''mysql.exec''}
        then unlimited (v1_mysql os action payload)
      else if action \<in> {''file.write_to_allowed_path'', ''file.create_directory_in_allowed'',
                        ''file.set_permissions_in_allowed'', ''nginx.write_static_file''}
        then v1_file os now action payload
      else if action = ''exec.allowed_script'' then exec_allowed_script os now payload
      else unlimited (raise (ActionError EC_UNKNOWN_ACTION action)))"

text \<open>\<open>PrivilegedRequest(**raw_data)\<close>; \<open>stamp_ok\<close> is pydantic's acceptance of a time stamp.\<close>

definition parse_v1 :: "(pyval \<Rightarrow> int option) \<Rightarrow> (pyval \<Rightarrow> bool) \<Rightarrow> pyval \<Rightarrow> (string \<times> pydict) option" where
  "parse_v1 coerce_int stamp_ok raw_data =
     (case raw_data of
        PDict d \<Rightarrow>
          (case (str_field 1 (Some 100) (dget d ''requestId''), str_field 1 (Some 100) (dget d ''action''),
                 dget_or d ''payload'' (PDict []), parse_context coerce_int (dget d ''caller'')) of
             (Some rid, Some action, PDict payload, Some caller) \<Rightarrow>
               if (case map_of d ''timestamp'' of None \<Rightarrow> True | Some v \<Rightarrow> stamp_ok v) then Some (action, payload) else None
           | _ \<Rightarrow> None)
      | _ \<Rightarrow> None)"

definition handle_v1 ::
  "'w fw_host \<Rightarrow> (pyval \<Rightarrow> int option) \<Rightarrow> (pyval \<Rightarrow> bool) \<Rightarrow> timestamp \<Rightarrow> string \<Rightarrow> pyval \<Rightarrow> buckets \<times> 'w machine \<Rightarrow>
   PrivilegedResponse \<times> buckets \<times> 'w machine" where
  "handle_v1 fh coerce_int stamp_ok now audit_id raw_data st =
     (case parse_v1 coerce_int stamp_ok raw_data of
        None \<Rightarrow> (priv_error audit_id EC_INTERNAL_ERROR (Some ''ValidationError''), st)
      | Some (action, payload) \<Rightarrow>
          (let (r, st') = v1_dispatch fh now action payload st in (response_of audit_id r, st')))"

section \<open>Serving a connection\<close>

record 'w agent_state =
  as_nonces :: nonce_items
  as_buckets :: buckets
  as_machine :: "'w machine"

text \<open>
  \<open>_serve_client\<close>: an object with a \<open>signature\<close> key goes to the signed protocol, everything else to
  the unsigned one.  The left result is an exception that ends the agent's accept loop.
\<close>

definition priv_serve_client ::
  "'w fw_host \<Rightarrow> 'pub v2_primitives \<Rightarrow> (string \<Rightarrow> string) \<Rightarrow> (pyval \<Rightarrow> bool) \<Rightarrow> 'pub PrivilegedAgentServer \<Rightarrow> v2_ctx \<Rightarrow>
   string list \<Rightarrow> 'w agent_state \<Rightarrow> (string + PrivilegedResponse) \<times> 'w agent_state" where
  "priv_serve_client fh vp frepr stamp_ok ag ctx chunks st =
     (let raw = read_until_newline [] chunks;
          legacy = (\<lambda>v. let (resp, b, m) = handle_v1 fh (vp_int vp) stamp_ok (vc_nonce_now ctx) (vc_audit ctx) v
                                               (as_buckets st, as_machine st)
                        in (Inr resp, st\<lparr>as_buckets := b, as_machine := m\<rparr>)) in
      if raw = [] then (Inr (priv_error (vc_audit ctx) EC_INVALID_REQUEST None), st)
      else case utf8_decode raw of
        None \<Rightarrow> (Inl ''UnicodeDecodeError'', st)
      | Some text \<Rightarrow>
          (case loads frepr text of
             None \<Rightarrow> (Inr (priv_error (vc_audit ctx) EC_INVALID_REQUEST (Some ''JSONDecodeError'')), st)
           | Some v \<Rightarrow>
               (case v of
                  PDict d \<Rightarrow>
                    if ''signature'' \<in> fst ` set d
                    then (let (resp, n, m) = handle_v2 (fh_os fh) vp ag ctx d (as_nonces st, as_machine st)
                          in (Inr resp, st\<lparr>as_nonces := n, as_machine := m\<rparr>))
                    else legacy v
                | _ \<Rightarrow> legacy v)))"

section \<open>Lemmas\<close>

lemma read_until_newline_once: "read_until_newline [] [s @ [newline]] = s @ [newline]"
  by (simp add: read_until_newline.simps [of "[]"] read_until_newline.simps [of _ "[]"] endswith_def)

lemma utf8_encode_append: "utf8_encode (s @ t) = utf8_encode s @ utf8_encode t"
  by (simp add: utf8_encode_def)

lemma utf8_encode_newline: "utf8_encode [newline] = [newline]"
  by (simp add: utf8_encode_def utf8_char_def newline_def)

lemma utf8_decode_line: "utf8_decode (utf8_encode s @ [newline]) = Some (s @ [newline])"
  using utf8_roundtrip [of "s @ [newline]"] unfolding utf8_encode_append utf8_encode_newline .

lemma mysql_exec_log:
  "mlog (snd (mysql_exec os sql m)) = mlog m @ [Run [''mysql'', ''-e'', sql] (Some SAFE_ENV) (Some 4)]"
  by (auto simp: mysql_exec_def run_command_def act_defs perform_def Let_def split: prod.splits outcome.splits)

text \<open>A request of the unsigned protocol and its line on the wire.\<close>

definition v1_request :: "string \<Rightarrow> pydict \<Rightarrow> pydict" where
  "v1_request action payload =
     [(''requestId'', PStr ''r''), (''action'', PStr action), (''payload'', PDict payload),
      (''caller'', PDict [(''source'', PStr ''any'')])]"

definition v1_line :: "pydict \<Rightarrow> string" where
  "v1_line d = utf8_encode (dumps False '','' '':'' (PDict d)) @ [newline]"

lemma serve_v1_line:
  assumes "wf_json frepr (PDict payload)" "1 \<le> length action" "length action \<le> 100"
  shows "priv_serve_client fh vp frepr stamp_ok ag ctx [v1_line (v1_request action payload)] st =
     (case v1_dispatch fh (vc_nonce_now ctx) action payload (as_buckets st, as_machine st) of
        (r, b, m) \<Rightarrow> (Inr (response_of (vc_audit ctx) r), st\<lparr>as_buckets := b, as_machine := m\<rparr>))"
proof -
  let ?d = "v1_request action payload"
  have "loads frepr (dumps False '','' '':'' (PDict ?d) @ [newline]) = Some (PDict ?d)"
    by (rule loads_dumps_ws) (use assms(1) in \<open>simp_all add: v1_request_def newline_def is_ws_def\<close>)
  moreover have "utf8_decode (v1_line ?d) = Some (dumps False '','' '':'' (PDict ?d) @ [newline])"
    unfolding v1_line_def by (rule utf8_decode_line)
  moreover have "read_until_newline [] [v1_line ?d] = v1_line ?d"
    unfolding v1_line_def by (rule read_until_newline_once)
  moreover have "v1_line ?d \<noteq> []" by (simp add: v1_line_def)
  moreover have "''signature'' \<notin> fst ` set ?d" by (simp add: v1_request_def)
  moreover have "parse_v1 (vp_int vp) stamp_ok (PDict ?d) = Some (action, payload)"
    using assms(2,3) by (simp add: v1_request_def parse_v1_def dget_or_def str_field_def parse_context_def opt_str_field_def)
  ultimately show ?thesis
    by (simp add: priv_serve_client_def handle_v1_def case_prod_unfold Let_def)
qed

text \<open>The unsigned file actions: what reads the payload has no effect, and what remains is guarded.\<close>

definition file_dirs :: "string \<Rightarrow> string list" where
  "file_dirs action =
     (if action \<in> {''file.write_to_allowed_path'', ''file.create_directory_in_allowed'', ''file.set_permissions_in_allowed''}
      then allowed_write_paths else [''/etc/nginx/html/'', ''/var/www/''])"

lemma below_any_True:
  "below_any os w path dirs = Some True \<Longrightarrow> \<exists>dir \<in> set dirs. \<exists>parent. os_resolve os dir w = Some parent \<and> prefix parent path"
  by (induction dirs) (auto simp: relative_to_def split: option.splits if_splits)

lemma check_path_allowed_True:
  "check_path_allowed os w dirs target = Some True \<Longrightarrow>
     \<exists>path dir parent. os_resolve os target w = Some path \<and> dir \<in> set dirs \<and> os_resolve os dir w = Some parent \<and>
        prefix parent path"
  by (auto simp: check_path_allowed_def dest: below_any_True split: option.splits)

lemma only_if_allowed_log:
  "mlog (snd (only_if_allowed os dirs target f m)) \<noteq> mlog m \<Longrightarrow> check_path_allowed os (mworld m) dirs target = Some True"
  by (auto simp: only_if_allowed_def act_defs split: if_splits option.splits bool.splits)

lemma rate_limited_log:
  "mlog (snd (snd (rate_limited now action f st))) \<noteq> mlog (snd st) \<Longrightarrow>
     fst (rate_check 10 now action (fst st)) \<and> mlog (snd (f (snd st))) \<noteq> mlog (snd st)"
  by (auto simp: rate_limited_def Let_def case_prod_unfold split: if_splits)

lemma to_int_pure: "snd (to_int v m) = m"
  by (auto simp: to_int_def int_or_raise_def act_defs split: pyval.splits option.splits)

lemma need_pure: "snd (need payload k m) = m" "snd (need_str payload k m) = m" "snd (need_int payload k m) = m"
  "snd (get_int payload k d m) = m"
  using to_int_pure [of _ m]
  by (auto simp: need_str_def need_int_def get_int_def need_def act_defs split: option.splits)

lemma bindM_pure:
  "snd (f m) = m \<Longrightarrow> bindM f g m = (case fst (f m) of Inl e \<Rightarrow> (Inl e, m) | Inr x \<Rightarrow> g x m)"
  by (cases "f m") (auto simp: bindM_def split: sum.splits)

lemma file_actions_shape:
  "(\<exists>e. file_write os payload t m = (Inl e, m)) \<or> (\<exists>g. file_write os payload t m = (Inr (only_if_allowed os allowed_write_paths t g), m))"
  "(\<exists>e. file_mkdir os payload t m = (Inl e, m)) \<or> (\<exists>g. file_mkdir os payload t m = (Inr (only_if_allowed os allowed_write_paths t g), m))"
  "(\<exists>e. file_chmod os payload t m = (Inl e, m)) \<or> (\<exists>g. file_chmod os payload t m = (Inr (only_if_allowed os allowed_write_paths t g), m))"
  "(\<exists>e. static_write os payload t m = (Inl e, m)) \<or>
   (\<exists>g. static_write os payload t m = (Inr (only_if_allowed os [''/etc/nginx/html/'', ''/var/www/''] t g), m))"
  unfolding file_write_def file_mkdir_def file_chmod_def static_write_def bindM_pure [OF need_pure(2)]
    bindM_pure [OF need_pure(3)] bindM_pure [OF need_pure(4)] ret_def
  by (auto split: sum.splits)

lemma v1_file_shape:
  assumes "map_of payload ''targetPath'' = Some v"
  shows "(\<exists>e. v1_file os now action payload st = (Inl e, st)) \<or>
    (\<exists>g. v1_file os now action payload st =
           rate_limited now action (only_if_allowed os (file_dirs action) (py_str v) g) st)"
proof -
  have t: "need_str payload ''targetPath'' m = (Inr (py_str v), m)" for m :: "'a machine"
    using assms by (simp add: need_str_def need_def act_defs)
  note sh = file_actions_shape [of os payload "py_str v" "snd st"]
  consider "action = ''file.write_to_allowed_path''" | "action = ''file.create_directory_in_allowed''"
    | "action = ''file.set_permissions_in_allowed''"
    | "action \<notin> {''file.write_to_allowed_path'', ''file.create_directory_in_allowed'', ''file.set_permissions_in_allowed''}"
    by blast
  then show ?thesis
  proof cases
    case 1
    then show ?thesis using sh(1) by (auto simp: v1_file_def bindM_pure need_pure t file_dirs_def)
  next
    case 2
    then show ?thesis using sh(2) by (auto simp: v1_file_def bindM_pure need_pure t file_dirs_def)
  next
    case 3
    then show ?thesis using sh(3) by (auto simp: v1_file_def bindM_pure need_pure t file_dirs_def)
  next
    case 4
    then show ?thesis using sh(4) by (auto simp: v1_file_def bindM_pure need_pure t file_dirs_def)
  qed
qed

text \<open>A MySQL string literal after its opening quote: the text it denotes and the rest.\<close>

fun mysql_literal :: "string \<Rightarrow> (string \<times> string) option" where
  "mysql_literal [] = None"
| "mysql_literal (c # cs) =
     (if c = CHR 0x27 then
        (case cs of [] \<Rightarrow> Some ([], [])
         | d # ds \<Rightarrow> if d = CHR 0x27 then map_option (\<lambda>(t, r). (d # t, r)) (mysql_literal ds) else Some ([], cs))
      else if c = CHR 0x5C then
        (case cs of [] \<Rightarrow> None | d # ds \<Rightarrow> map_option (\<lambda>(t, r). (d # t, r)) (mysql_literal ds))
      else map_option (\<lambda>(t, r). (c # t, r)) (mysql_literal cs))"

lemma escape_password_Cons:
  "escape_password (c # p) =
     (if c = CHR 0x5C then [c, c] else if c = CHR 0x27 then [CHR 0x5C, c] else [c]) @ escape_password p"
  by (simp add: escape_password_def)

lemma mysql_literal_escape: "mysql_literal (escape_password p @ CHR 0x27 # CHR '';'' # rest) = Some (p, CHR '';'' # rest)"
  by (induction p) (simp_all add: escape_password_Cons, simp add: escape_password_def)

section \<open>Properties\<close>

text \<open>
  The signed protocol can be sidestepped: a request without a \<open>signature\<close> key, from any peer and
  whatever key, user ids and registry the agent is configured with, makes root run any SQL text, and
  the first file effects of \<open>nginx.save_config\<close> write any content to any path.  Neither the peer's
  credentials nor a path list is consulted.
\<close>

theorem unsigned_requests_execute:
  "mlog (as_machine (snd (priv_serve_client fh vp frepr stamp_ok ag ctx
      [v1_line (v1_request ''mysql.exec'' [(''sql'', PStr sql)])] st))) =
     mlog (as_machine st) @ [Run [''mysql'', ''-e'', sql] (Some SAFE_ENV) (Some 4)] \<and>
   (\<exists>es. mlog (as_machine (snd (priv_serve_client fh vp frepr stamp_ok ag ctx
      [v1_line (v1_request ''nginx.save_config'' [(''targetPath'', PStr path), (''content'', PStr content)])] st))) =
     mlog (as_machine st) @ es \<and>
     prefix es [Mkdirs (path_parent path), WriteText (path_str path) content, Chmod (path_str path) 420,
                Run [''nginx'', ''-t''] (Some SAFE_ENV) (Some 10)])"
proof
  let ?m = "as_machine st"
  show "mlog (as_machine (snd (priv_serve_client fh vp frepr stamp_ok ag ctx
      [v1_line (v1_request ''mysql.exec'' [(''sql'', PStr sql)])] st))) =
     mlog ?m @ [Run [''mysql'', ''-e'', sql] (Some SAFE_ENV) (Some 4)]"
    using mysql_exec_log [of "fh_os fh" sql ?m]
    by (subst serve_v1_line)
       (auto simp: v1_dispatch_def v1_mysql_def unlimited_def need_str_def need_def act_defs py_str_def
         split: prod.splits sum.splits)
  let ?p = "[(''targetPath'', PStr path), (''content'', PStr content)]"
  let ?f = "v1_nginx_config (fh_os fh) ''nginx.save_config'' ?p"
  let ?plan = "[Mkdirs (path_parent path), WriteText (path_str path) content, Chmod (path_str path) 420,
                Run [''nginx'', ''-t''] (Some SAFE_ENV) (Some 10)]"
  have save: "follows (nginx_save_config os path content)
      [Mkdirs (path_parent path), WriteText (path_str path) content, Chmod (path_str path) 420]" for os :: "'a os"
    unfolding nginx_save_config_def
    using follows_seqM [OF follows_effect_do follows_seqM [OF follows_effect_do follows_seqM [OF follows_effect_do follows_ret]]]
    by fastforce
  have f: "?f = bindM (nginx_save_config (fh_os fh) path content) (\<lambda>d. seqM (run10 (fh_os fh) [''nginx'', ''-t'']) (ret d))"
    by (rule ext) (simp add: v1_nginx_config_def need_str_def need_def act_defs py_str_def get_str_def dget_or_def
        ensure_symlink_def split: prod.splits sum.splits)
  have "follows ?f ?plan"
    unfolding f using follows_bindM [OF save follows_run_ret] by simp
  from followsD [OF this, of ?m] obtain es where "mlog (snd (?f ?m)) = mlog ?m @ es" "prefix es ?plan" by blast
  then show "\<exists>es. mlog (as_machine (snd (priv_serve_client fh vp frepr stamp_ok ag ctx
      [v1_line (v1_request ''nginx.save_config'' ?p)] st))) = mlog ?m @ es \<and> prefix es ?plan"
    by (subst serve_v1_line) (auto simp: v1_dispatch_def unlimited_def split: prod.splits)
qed

text \<open>
  The password of a new MySQL user cannot leave its string literal: read back as MySQL reads
  a literal, the escaped password followed by the closing quote and the semicolon of the statement is
  the password, and what follows is untouched.
\<close>

theorem password_stays_quoted:
  "mysql_literal (escape_password password @ CHR 0x27 # CHR '';'' # rest) = Some (password, CHR '';'' # rest)"
  by (rule mysql_literal_escape)

text \<open>
  C10. The unsigned file actions stay inside the listed directories: \<open>file.write_to_allowed_path\<close> and
  its companions change something only when the target of the payload resolves below an allowed
  directory and the rate limiter lets the action pass.
\<close>

theorem v1_file_confined:
  "if mlog (snd (snd (v1_file os now action payload st))) = mlog (snd st) then True
   else (\<exists>v path dir parent. map_of payload ''targetPath'' = Some v \<and>
           os_resolve os (py_str v) (mworld (snd st)) = Some path \<and> dir \<in> set (file_dirs action) \<and>
           os_resolve os dir (mworld (snd st)) = Some parent \<and> prefix parent path) \<and>
        fst (rate_check 10 now action (fst st))"
proof (cases "map_of payload ''targetPath''")
  case None
  then have "snd (snd (v1_file os now action payload st)) = snd st"
    by (simp add: v1_file_def need_str_def need_def act_defs)
  then show ?thesis by simp
next
  case (Some v)
  from v1_file_shape [OF Some, of os now action st] consider
      "mlog (snd (snd (v1_file os now action payload st))) = mlog (snd st)"
    | g where "v1_file os now action payload st =
        rate_limited now action (only_if_allowed os (file_dirs action) (py_str v) g) st" by fastforce
  then show ?thesis
  proof cases
    case 2
    show ?thesis
      using rate_limited_log [of now action "only_if_allowed os (file_dirs action) (py_str v) g" st]
        only_if_allowed_log [of os "file_dirs action" "py_str v" g "snd st"] Some
      by (auto simp: 2 dest: check_path_allowed_True)
  qed simp
qed

text \<open>
  When the test of a saved Nginx configuration fails, the previous content of the file is
  written back; but when there was no file before, nothing is undone and the refused configuration
  stays in place, although the error says it was rolled back.
\<close>

theorem atomic_save_rollback:
  assumes "\<And>e w. fst (os_do os e w) = (case e of Run argv env t \<Rightarrow> Proc 1 [] err | _ \<Rightarrow> Done)"
    and "os_exists os (path_str path) (mworld m) \<Longrightarrow> os_read os (path_str path) (mworld m) = Some old"
  shows "mlog (snd (save_config_atomic os path content [] site m)) =
     mlog m @ [Mkdirs (path_parent path), WriteText (path_str path) content, Chmod (path_str path) 420,
               Run [''nginx'', ''-t''] None None] @
       (if os_exists os (path_str path) (mworld m) then [WriteText (path_str path) old] else []) \<and>
     fst (save_config_atomic os path content [] site m) = Inl (ActionError EC_COMMAND_FAILED (strip err))"
proof -
  have eff: "effect_do os e m = (Inr (), \<lparr>mlog = mlog m @ [e], mworld = snd (os_do os e (mworld m))\<rparr>)"
    if "\<And>argv env t. e \<noteq> Run argv env t" for e m
    using assms(1) [of e "mworld m"] that
    by (cases e) (auto simp: effect_do_def act_defs perform_def split: prod.splits)
  have run: "subprocess_run os argv env t m =
      (Inr (1, [], err), \<lparr>mlog = mlog m @ [Run argv env t], mworld = snd (os_do os (Run argv env t) (mworld m))\<rparr>)" for argv env t m
    using assms(1) [of "Run argv env t" "mworld m"]
    by (auto simp: subprocess_run_def act_defs perform_def split: prod.splits)
  show ?thesis
    using assms(2)
    by (cases "os_exists os (path_str path) (mworld m)"; cases "err = []")
       (simp_all add: save_config_atomic_def Let_def bindM_def seqM_def query_def ret_def raise_def eff run ensure_symlink_def)
qed

definition failing_os :: "nat os" where
  "failing_os = \<lparr>os_do = (\<lambda>e n. (case e of Run argv env t \<Rightarrow> Proc 1 [] ''bad'' | _ \<Rightarrow> Done, n)),
     os_resolve = (\<lambda>p n. None), os_exists = (\<lambda>p n. n = 1), os_is_file = (\<lambda>p n. True), os_is_symlink = (\<lambda>p n. False),
     os_size = (\<lambda>p n. 0), os_read = (\<lambda>p n. Some ''old''), os_iterdir = (\<lambda>p n. [])\<rparr>"

theorem atomic_save_rollback_witness:
  "mlog (snd (save_config_atomic failing_os ''/etc/nginx/conf.d/a.conf'' ''new'' [] ''a'' \<lparr>mlog = [], mworld = 0\<rparr>)) =
     [Mkdirs (path_parent ''/etc/nginx/conf.d/a.conf''), WriteText (path_str ''/etc/nginx/conf.d/a.conf'') ''new'',
      Chmod (path_str ''/etc/nginx/conf.d/a.conf'') 420, Run [''nginx'', ''-t''] None None]"
  using atomic_save_rollback [of failing_os "''bad''" "''/etc/nginx/conf.d/a.conf''" "\<lparr>mlog = [], mworld = 0\<rparr>" "''old''"
      "''new''" "''a''"]
  by (simp add: failing_os_def)

end
