(* ===== verification/Elevation.thy ===== *)
theory Elevation
  imports PrivServer
begin

text \<open>
  The life cycle of elevation codes, \<open>gateway/service/elevation_service.py\<close>: an agent session asks
  for commands (\<open>generate_code\<close>), an administrator approves or rejects, an approved code has a
  just-in-time token, and the token is exchanged for signed requests to the privileged agent
  (\<open>create_signed_request\<close>).  All state is in memory: the record \<open>ElevationService\<close>.

  Every operation takes the time it reads, and the random values it draws (code text, UUIDs) as
  arguments; the Ed25519 signature (\<open>ed_sign\<close>) and SHA-256 (\<open>sha256\<close>) are arguments too.  The
  command of a request has its name and the value of its \<open>args\<close> key, the empty list when missing.
\<close>

section \<open>State\<close>

datatype elev_status = ST_PENDING | ST_APPROVED | ST_REJECTED | ST_EXPIRED | ST_CONSUMED

record elev_command =
  ec_command :: string
  ec_args :: pyval

record ElevationCodeEntry =
  ce_code :: string
  ce_session_id :: string
  ce_commands :: "elev_command list"
  ce_reason :: string
  ce_request_type :: string
  ce_task_id :: "int option"
  ce_approval_policy :: pydict
  ce_status :: elev_status
  ce_ttl_seconds :: int
  ce_max_ops :: int
  ce_ops_used :: int
  ce_requested_at :: timestamp
  ce_approved_by :: "string option"
  ce_approved_at :: "timestamp option"
  ce_token_id :: "string option"
  ce_reject_reason :: "string option"
  ce_inline_cmd :: "string option"
  ce_inline_cmd_hash :: "string option"
  ce_script_path :: "string option"
  ce_script_hash :: "string option"

record JITToken =
  jt_token_id :: string
  jt_code :: string
  jt_session_id :: string
  jt_allowed_commands :: "(string \<times> string) list"
  jt_max_ops :: int
  jt_ops_used :: int
  jt_issued_at :: timestamp
  jt_ttl_seconds :: int
  jt_inline_cmd :: "string option"
  jt_inline_cmd_hash :: "string option"
  jt_script_path :: "string option"
  jt_script_hash :: "string option"

record ElevationService =
  es_codes :: "(string \<times> ElevationCodeEntry) list"
  es_tokens :: "(string \<times> JITToken) list"
  es_sessions :: "(string \<times> string) list"

definition elevation_init :: ElevationService where
  "elevation_init = \<lparr>es_codes = [], es_tokens = [], es_sessions = []\<rparr>"

definition entry_expired :: "timestamp \<Rightarrow> ElevationCodeEntry \<Rightarrow> bool" where
  "entry_expired now e \<longleftrightarrow> now > ce_requested_at e + of_int (ce_ttl_seconds e)"

definition entry_exhausted :: "ElevationCodeEntry \<Rightarrow> bool" where
  "entry_exhausted e \<longleftrightarrow> ce_ops_used e \<ge> ce_max_ops e"

definition token_expired :: "timestamp \<Rightarrow> JITToken \<Rightarrow> bool" where
  "token_expired now t \<longleftrightarrow> now > jt_issued_at t + of_int (jt_ttl_seconds t)"

definition token_exhausted :: "JITToken \<Rightarrow> bool" where
  "token_exhausted t \<longleftrightarrow> jt_ops_used t \<ge> jt_max_ops t"

text \<open>\<open>JITToken(token_id, code_entry)\<close>.\<close>

definition issue_token :: "(string \<Rightarrow> string) \<Rightarrow> timestamp \<Rightarrow> string \<Rightarrow> ElevationCodeEntry \<Rightarrow> JITToken" where
  "issue_token sha256 now token_id e =
     \<lparr>jt_token_id = token_id, jt_code = ce_code e, jt_session_id = ce_session_id e,
      jt_allowed_commands =
        map (\<lambda>c. (ec_command c, hash_payload sha256 [(''args'', ec_args c)])) (ce_commands e),
      jt_max_ops = ce_max_ops e, jt_ops_used = 0,
      jt_issued_at = (case ce_approved_at e of Some t \<Rightarrow> if t \<noteq> 0 then t else now | None \<Rightarrow> now),
      jt_ttl_seconds = ce_ttl_seconds e, jt_inline_cmd = ce_inline_cmd e,
      jt_inline_cmd_hash = ce_inline_cmd_hash e, jt_script_path = ce_script_path e,
      jt_script_hash = ce_script_hash e\<rparr>"

section \<open>Requests\<close>

text \<open>The arguments of \<open>generate_code\<close>.\<close>

record code_request =
  gr_session_id :: string
  gr_commands :: "elev_command list"
  gr_reason :: string
  gr_ttl_seconds :: int
  gr_max_ops :: int
  gr_code :: "string option"
  gr_inline_cmd :: "string option"
  gr_inline_cmd_hash :: "string option"
  gr_script_path :: "string option"
  gr_script_hash :: "string option"
  gr_request_type :: string
  gr_task_id :: "int option"
  gr_approval_policy :: "pydict option"
  gr_expire_previous :: bool

definition new_entry :: "timestamp \<Rightarrow> string \<Rightarrow> code_request \<Rightarrow> ElevationCodeEntry" where
  "new_entry now code g =
     \<lparr>ce_code = code, ce_session_id = gr_session_id g, ce_commands = gr_commands g, ce_reason = gr_reason g,
      ce_request_type = gr_request_type g, ce_task_id = gr_task_id g,
      ce_approval_policy = (case gr_approval_policy g of Some p \<Rightarrow> p | None \<Rightarrow> []), ce_status = ST_PENDING,
      ce_ttl_seconds = gr_ttl_seconds g, ce_max_ops = gr_max_ops g, ce_ops_used = 0, ce_requested_at = now,
      ce_approved_by = None, ce_approved_at = None, ce_token_id = None, ce_reject_reason = None,
      ce_inline_cmd = gr_inline_cmd g, ce_inline_cmd_hash = gr_inline_cmd_hash g,
      ce_script_path = gr_script_path g, ce_script_hash = gr_script_hash g\<rparr>"

text \<open>\<open>fresh\<close> is what \<open>_generate_code_string\<close> would deliver.\<close>

definition generate_code ::
  "timestamp \<Rightarrow> string \<Rightarrow> code_request \<Rightarrow> ElevationService \<Rightarrow> ElevationCodeEntry \<times> ElevationService" where
  "generate_code now fresh g s =
     (let code = (case gr_code g of Some c \<Rightarrow> c | None \<Rightarrow> fresh);
          entry = new_entry now code g;
          codes =
            (case map_of (es_sessions s) (gr_session_id g) of
               Some old_code \<Rightarrow>
                 if gr_expire_previous g \<and> old_code \<noteq> [] then
                   (case map_of (es_codes s) old_code of
                      Some old_entry \<Rightarrow>
                        if ce_status old_entry = ST_PENDING
                        then AList.update old_code (old_entry\<lparr>ce_status := ST_EXPIRED\<rparr>) (es_codes s)
                        else es_codes s
                    | None \<Rightarrow> es_codes s)
                 else es_codes s
             | None \<Rightarrow> es_codes s)
      in (entry, s\<lparr>es_codes := AList.update code entry codes,
                   es_sessions := AList.update (gr_session_id g) code (es_sessions s)\<rparr>))"

definition get_code :: "timestamp \<Rightarrow> string \<Rightarrow> ElevationService \<Rightarrow> ElevationCodeEntry option \<times> ElevationService" where
  "get_code now code s =
     (case map_of (es_codes s) code of
        None \<Rightarrow> (None, s)
      | Some entry \<Rightarrow>
          if entry_expired now entry \<and> ce_status entry \<in> {ST_PENDING, ST_APPROVED}
          then (let entry' = entry\<lparr>ce_status := ST_EXPIRED\<rparr>
                in (Some entry', s\<lparr>es_codes := AList.update code entry' (es_codes s)\<rparr>))
          else (Some entry, s))"

definition list_pending :: "timestamp \<Rightarrow> ElevationService \<Rightarrow> ElevationCodeEntry list" where
  "list_pending now s =
     filter (\<lambda>e. ce_status e = ST_PENDING \<and> \<not> entry_expired now e) (map snd (es_codes s))"

text \<open>\<open>sort(key, reverse=True)\<close> is stable: it reverses the order of the keys, not of equal elements.\<close>

definition list_history :: "timestamp \<Rightarrow> nat \<Rightarrow> ElevationService \<Rightarrow> ElevationCodeEntry list" where
  "list_history now limit s =
     take limit (sort_key (\<lambda>e. - ce_requested_at e)
       (filter (\<lambda>e. ce_status e \<noteq> ST_PENDING \<or> entry_expired now e) (map snd (es_codes s))))"

section \<open>Approval\<close>

definition approve_code ::
  "(string \<Rightarrow> string) \<Rightarrow> timestamp \<Rightarrow> string \<Rightarrow> string \<Rightarrow> string \<Rightarrow> ElevationService \<Rightarrow> JITToken option \<times> ElevationService" where
  "approve_code sha256 now token_id code approved_by s =
     (case map_of (es_codes s) code of
        None \<Rightarrow> (None, s)
      | Some entry \<Rightarrow>
          if ce_status entry \<noteq> ST_PENDING then (None, s)
          else if entry_expired now entry
          then (None, s\<lparr>es_codes := AList.update code (entry\<lparr>ce_status := ST_EXPIRED\<rparr>) (es_codes s)\<rparr>)
          else
            (let entry' = entry\<lparr>ce_status := ST_APPROVED, ce_approved_by := Some approved_by,
                               ce_approved_at := Some now, ce_token_id := Some token_id\<rparr>;
                 token = issue_token sha256 now token_id entry'
             in (Some token, s\<lparr>es_codes := AList.update code entry' (es_codes s),
                               es_tokens := AList.update token_id token (es_tokens s)\<rparr>)))"

definition reject_code :: "string \<Rightarrow> string \<Rightarrow> ElevationService \<Rightarrow> ElevationService" where
  "reject_code code reason s =
     (case map_of (es_codes s) code of
        None \<Rightarrow> s
      | Some entry \<Rightarrow>
          if ce_status entry \<noteq> ST_PENDING then s
          else s\<lparr>es_codes := AList.update code
                  (entry\<lparr>ce_status := ST_REJECTED, ce_reject_reason := Some reason\<rparr>) (es_codes s)\<rparr>)"

definition revoke_token :: "string \<Rightarrow> ElevationService \<Rightarrow> bool \<times> ElevationService" where
  "revoke_token token_id s =
     (case map_of (es_tokens s) token_id of
        None \<Rightarrow> (False, s)
      | Some token \<Rightarrow>
          (True, s\<lparr>es_tokens := AList.update token_id (token\<lparr>jt_ops_used := jt_max_ops token\<rparr>) (es_tokens s)\<rparr>))"

section \<open>Signed requests\<close>

definition or_empty :: "string option \<Rightarrow> string" where
  "or_empty v = (case v of Some s \<Rightarrow> s | None \<Rightarrow> [])"

text \<open>Steps 1 to 5: the token and the allowed command a request refers to.\<close>

definition usable_command ::
  "timestamp \<Rightarrow> string \<Rightarrow> int \<Rightarrow> string \<Rightarrow> ElevationService \<Rightarrow> (JITToken \<times> string \<times> string) option" where
  "usable_command now token_id command_index session_id s =
     (case map_of (es_tokens s) token_id of
        None \<Rightarrow> None
      | Some token \<Rightarrow>
          if token_expired now token then None
          else if token_exhausted token then None
          else if jt_session_id token \<noteq> session_id then None
          else if command_index < 0 \<or> command_index \<ge> int (length (jt_allowed_commands token)) then None
          else (case jt_allowed_commands token ! nat command_index of (name, h) \<Rightarrow> Some (token, name, h)))"

text \<open>Step 6: the two channel hashes of the request, if the arguments match the approval.\<close>

definition channel_hashes ::
  "(string \<Rightarrow> string) \<Rightarrow> JITToken \<Rightarrow> string \<Rightarrow> string \<Rightarrow> string list \<Rightarrow> (string \<times> string) option" where
  "channel_hashes sha256 token name args_hash actual_args =
     (if name = ''exec_arbitrary_cmd'' then
        (let cmd_hash = hash_payload sha256 [(''cmd'', PStr (join '' '' actual_args))] in
         if cmd_hash \<noteq> or_empty (jt_inline_cmd_hash token) then None else Some (cmd_hash, []))
      else if name = ''exec_arbitrary_script'' then Some ([], or_empty (jt_script_hash token))
      else if hash_payload sha256 [(''args'', PList (map PStr actual_args))] \<noteq> args_hash then None
      else Some ([], []))"

text \<open>\<open>sign_ids\<close>: the UUIDs of the nonce and of the request id, and the time stamp text.\<close>

record sign_ids =
  si_nonce :: string
  si_request :: string
  si_timestamp :: string

definition request_payload ::
  "(string \<Rightarrow> string) \<Rightarrow> sign_ids \<Rightarrow> string \<Rightarrow> string \<Rightarrow> string \<Rightarrow> string list \<Rightarrow> string \<Rightarrow> string \<Rightarrow> pydict" where
  "request_payload sha256 ids token_id session_id name actual_args cmd_hash script_hash =
     [(''requestId'', PStr (''v2-'' @ si_request ids)), (''command'', PStr name),
      (''args'', PList (map PStr actual_args)),
      (''args_hash'', PStr (hash_payload sha256 [(''args'', PList (map PStr actual_args))])),
      (''token_id'', PStr token_id), (''session_id'', PStr session_id), (''timestamp'', PStr (si_timestamp ids)),
      (''nonce'', PStr (si_nonce ids)), (''cmd_hash'', PStr cmd_hash),
      (''script_path'', PStr (if name = ''exec_arbitrary_script'' then (case actual_args of a # _ \<Rightarrow> a | [] \<Rightarrow> []) else [])),
      (''script_hash'', PStr script_hash)]"

definition create_signed_request ::
  "(string \<Rightarrow> string) \<Rightarrow> (string \<Rightarrow> string) \<Rightarrow> timestamp \<Rightarrow> sign_ids \<Rightarrow> string \<Rightarrow> int \<Rightarrow> string list \<Rightarrow> string \<Rightarrow>
   ElevationService \<Rightarrow> pydict option \<times> ElevationService" where
  "create_signed_request ed_sign sha256 now ids token_id command_index actual_args session_id s =
     (case usable_command now token_id command_index session_id s of
        None \<Rightarrow> (None, s)
      | Some (token, name, args_hash) \<Rightarrow>
          (case channel_hashes sha256 token name args_hash actual_args of
             None \<Rightarrow> (None, s)
           | Some (cmd_hash, script_hash) \<Rightarrow>
               (let payload = request_payload sha256 ids token_id session_id name actual_args cmd_hash script_hash;
                    signature = ed_sign (canonical (PDict payload))
                in (Some (payload @ [(''signature'', PStr signature)]),
                    s\<lparr>es_tokens := AList.update token_id (token\<lparr>jt_ops_used := jt_ops_used token + 1\<rparr>) (es_tokens s)\<rparr>))))"

section \<open>Cleanup\<close>

definition expire_entry :: "timestamp \<Rightarrow> ElevationCodeEntry \<Rightarrow> ElevationCodeEntry" where
  "expire_entry now e =
     (if entry_expired now e \<and> ce_status e \<in> {ST_PENDING, ST_APPROVED} then e\<lparr>ce_status := ST_EXPIRED\<rparr> else e)"

definition cleanup_expired :: "timestamp \<Rightarrow> ElevationService \<Rightarrow> ElevationService" where
  "cleanup_expired now s =
     (let codes = map (\<lambda>(code, e). (code, expire_entry now e)) (es_codes s);
          kept = filter (\<lambda>(code, e). \<not> (ce_status e \<in> {ST_CONSUMED, ST_REJECTED, ST_EXPIRED} \<and>
                                        now - ce_requested_at e > 86400)) codes
      in s\<lparr>es_codes := kept, es_tokens := filter (\<lambda>(tid, t). \<not> token_expired now t) (es_tokens s)\<rparr>)"

section \<open>The state machine\<close>

datatype elev_op =
    OpGenerate timestamp string code_request
  | OpGet timestamp string
  | OpApprove timestamp string string string
  | OpReject string string
  | OpRevoke string
  | OpSign timestamp sign_ids string int "string list" string
  | OpCleanup timestamp

text \<open>What an operation delivers: a token with the entry it was issued for, or a signed request.\<close>

datatype elev_out = OutToken JITToken ElevationCodeEntry | OutSigned pydict | OutNothing

fun elev_step ::
  "(string \<Rightarrow> string) \<Rightarrow> (string \<Rightarrow> string) \<Rightarrow> elev_op \<Rightarrow> ElevationService \<Rightarrow> elev_out \<times> ElevationService" where
  "elev_step edsign sha (OpGenerate now fresh g) s = (OutNothing, snd (generate_code now fresh g s))"
| "elev_step edsign sha (OpGet now code) s = (OutNothing, snd (get_code now code s))"
| "elev_step edsign sha (OpApprove now tid code who) s =
     (case approve_code sha now tid code who s of
        (Some t, s') \<Rightarrow> (OutToken t (the (map_of (es_codes s) code)), s')
      | (None, s') \<Rightarrow> (OutNothing, s'))"
| "elev_step edsign sha (OpReject code reason) s = (OutNothing, reject_code code reason s)"
| "elev_step edsign sha (OpRevoke tid) s = (OutNothing, snd (revoke_token tid s))"
| "elev_step edsign sha (OpSign now ids tid i args sid) s =
     (case create_signed_request edsign sha now ids tid i args sid s of
        (Some r, s') \<Rightarrow> (OutSigned r, s')
      | (None, s') \<Rightarrow> (OutNothing, s'))"
| "elev_step edsign sha (OpCleanup now) s = (OutNothing, cleanup_expired now s)"

text \<open>
  The states the service can reach, with the trace of its operations and their results.  A token id
  is a fresh UUID: no operation before has approved with it.
\<close>

definition approved_ids :: "(elev_op \<times> elev_out) list \<Rightarrow> string set" where
  "approved_ids tr = {tid. \<exists>now code who out. (OpApprove now tid code who, out) \<in> set tr}"

inductive elev_reach ::
  "(string \<Rightarrow> string) \<Rightarrow> (string \<Rightarrow> string) \<Rightarrow> ElevationService \<Rightarrow> (elev_op \<times> elev_out) list \<Rightarrow> bool"
  for edsign sha where
  reach_init: "elev_reach edsign sha elevation_init []"
| reach_step: "elev_reach edsign sha s tr \<Longrightarrow> elev_step edsign sha op s = (out, s') \<Longrightarrow>
     (\<And>now tid code who. op = OpApprove now tid code who \<Longrightarrow> tid \<notin> approved_ids tr) \<Longrightarrow>
     elev_reach edsign sha s' (tr @ [(op, out)])"

inductive_cases reach_snocE: "elev_reach edsign sha s (tr @ [x])"

section \<open>Lemmas: codes and tokens under the operations\<close>

lemma map_of_update_same: "map_of d k = Some v \<Longrightarrow> (map_of d)(k \<mapsto> v) = map_of d"
  by auto

text \<open>The tokens an operation leaves alone, changes or adds.\<close>

lemma generate_tokens [simp]: "es_tokens (snd (generate_code now fresh g s)) = es_tokens s"
  by (simp add: generate_code_def Let_def)

lemma get_tokens [simp]: "es_tokens (snd (get_code now code s)) = es_tokens s"
  by (simp add: get_code_def Let_def split: option.splits)

lemma reject_tokens [simp]: "es_tokens (reject_code code reason s) = es_tokens s"
  by (simp add: reject_code_def split: option.splits)

lemma approve_cases:
  "approve_code sha now tid code who s = (r, s') \<Longrightarrow>
     (r = None \<and> es_tokens s' = es_tokens s) \<or>
     (\<exists>e. map_of (es_codes s) code = Some e \<and> ce_status e = ST_PENDING \<and> \<not> entry_expired now e \<and>
        r = Some (issue_token sha now tid (e\<lparr>ce_status := ST_APPROVED, ce_approved_by := Some who,
                    ce_approved_at := Some now, ce_token_id := Some tid\<rparr>)) \<and>
        es_tokens s' = AList.update tid (the r) (es_tokens s))"
  by (auto simp: approve_code_def Let_def split: option.splits if_splits)

lemma sign_cases:
  "create_signed_request edsign sha now ids tid i args sid s = (r, s') \<Longrightarrow>
     (r = None \<and> s' = s) \<or>
     (\<exists>t name h ch sh. usable_command now tid i sid s = Some (t, name, h) \<and>
        channel_hashes sha t name h args = Some (ch, sh) \<and>
        r = Some (request_payload sha ids tid sid name args ch sh @
               [(''signature'', PStr (edsign (canonical (PDict (request_payload sha ids tid sid name args ch sh)))))]) \<and>
        s' = s\<lparr>es_tokens := AList.update tid (t\<lparr>jt_ops_used := jt_ops_used t + 1\<rparr>) (es_tokens s)\<rparr>)"
  by (auto simp: create_signed_request_def Let_def split: option.splits prod.splits)

lemma usable_commandD:
  "usable_command now tid i sid s = Some (t, name, h) \<Longrightarrow>
     map_of (es_tokens s) tid = Some t \<and> \<not> token_expired now t \<and> \<not> token_exhausted t \<and> jt_session_id t = sid \<and>
     0 \<le> i \<and> nat i < length (jt_allowed_commands t) \<and> jt_allowed_commands t ! nat i = (name, h)"
  by (auto simp: usable_command_def split: option.splits if_splits prod.splits)

lemma cleanup_tokens: "map_of (es_tokens (cleanup_expired now s)) tid = Some t \<Longrightarrow> wf_dict (es_tokens s) \<Longrightarrow>
    map_of (es_tokens s) tid = Some t"
  by (auto simp: cleanup_expired_def Let_def map_of_filter_wf split: option.splits if_splits)

text \<open>Keys are unique in every reachable state.\<close>

definition elev_wf :: "ElevationService \<Rightarrow> bool" where
  "elev_wf s \<longleftrightarrow> wf_dict (es_codes s) \<and> wf_dict (es_tokens s) \<and> wf_dict (es_sessions s)"

lemma elev_step_wf [step_inv]: "elev_wf s \<Longrightarrow> elev_step edsign sha op s = (out, s') \<Longrightarrow> elev_wf s'"
proof (cases op)
  case (OpCleanup now)
  moreover assume "elev_wf s" "elev_step edsign sha op s = (out, s')"
  ultimately show ?thesis
    by (auto simp: elev_wf_def cleanup_expired_def Let_def simp del: map_map)
qed (auto simp: elev_wf_def generate_code_def get_code_def reject_code_def revoke_token_def approve_code_def
      create_signed_request_def Let_def split: option.splits if_splits prod.splits)

lemma elev_reach_wf: "elev_reach edsign sha s tr \<Longrightarrow> elev_wf s"
proof (induction rule: elev_reach.induct)
  case reach_init
  show ?case by (simp add: elev_wf_def elevation_init_def)
qed (rule elev_step_wf)

section \<open>Lemmas: where tokens come from\<close>

text \<open>The entry as \<open>approve_code\<close> leaves it.\<close>

definition approved_entry :: "timestamp \<Rightarrow> string \<Rightarrow> string \<Rightarrow> ElevationCodeEntry \<Rightarrow> ElevationCodeEntry" where
  "approved_entry now tid who e = e\<lparr>ce_status := ST_APPROVED, ce_approved_by := Some who, ce_approved_at := Some now,
     ce_token_id := Some tid\<rparr>"

lemma issued_simps [simp]:
  "jt_session_id (issue_token sha now tid (approved_entry now tid who e)) = ce_session_id e"
  "jt_max_ops (issue_token sha now tid (approved_entry now tid who e)) = ce_max_ops e"
  "jt_ops_used (issue_token sha now tid (approved_entry now tid who e)) = 0"
  "jt_issued_at (issue_token sha now tid (approved_entry now tid who e)) = now"
  "jt_ttl_seconds (issue_token sha now tid (approved_entry now tid who e)) = ce_ttl_seconds e"
  "jt_inline_cmd_hash (issue_token sha now tid (approved_entry now tid who e)) = ce_inline_cmd_hash e"
  "jt_script_hash (issue_token sha now tid (approved_entry now tid who e)) = ce_script_hash e"
  "jt_allowed_commands (issue_token sha now tid (approved_entry now tid who e)) =
     map (\<lambda>c. (ec_command c, hash_payload sha [(''args'', ec_args c)])) (ce_commands e)"
  by (simp_all add: issue_token_def approved_entry_def)

text \<open>A signed request of the token \<open>tid\<close>, and their number in a trace.\<close>

fun is_signed :: "string \<Rightarrow> elev_op \<times> elev_out \<Rightarrow> bool" where
  "is_signed tid (OpSign now ids t i args sid, OutSigned r) = (t = tid)"
| "is_signed tid x = False"

definition signed_count :: "string \<Rightarrow> (elev_op \<times> elev_out) list \<Rightarrow> nat" where
  "signed_count tid tr = length (filter (is_signed tid) tr)"

lemma signed_count_simps [simp]:
  "signed_count tid [] = 0"
  "signed_count tid (tr @ [x]) = (if is_signed tid x then Suc (signed_count tid tr) else signed_count tid tr)"
  by (simp_all add: signed_count_def)

lemma approved_ids_simps [simp]:
  "approved_ids [] = {}"
  "approved_ids (tr @ [(op, out)]) = (case op of OpApprove now tid code who \<Rightarrow> insert tid (approved_ids tr) | _ \<Rightarrow> approved_ids tr)"
  by (auto simp: approved_ids_def split: elev_op.splits)

text \<open>\<open>u\<close> was issued as the token \<open>tid\<close> for the pending entry \<open>e\<close>.\<close>

definition issued :: "(elev_op \<times> elev_out) list \<Rightarrow> string \<Rightarrow> JITToken \<Rightarrow> ElevationCodeEntry \<Rightarrow> bool" where
  "issued tr tid u e \<longleftrightarrow> (\<exists>now code who. (OpApprove now tid code who, OutToken u e) \<in> set tr)"

definition issue_ok :: "(string \<Rightarrow> string) \<Rightarrow> string \<Rightarrow> JITToken \<Rightarrow> ElevationCodeEntry \<Rightarrow> bool" where
  "issue_ok sha tid u e \<longleftrightarrow>
     (\<exists>now who. u = issue_token sha now tid (approved_entry now tid who e) \<and> ce_status e = ST_PENDING \<and>
        \<not> entry_expired now e)"

lemma issued_simps_tr [simp]:
  "\<not> issued [] tid u e"
  "issued (tr @ [(op, out)]) tid u e \<longleftrightarrow>
     issued tr tid u e \<or> (\<exists>now code who. op = OpApprove now tid code who \<and> out = OutToken u e)"
  by (auto simp: issued_def)

lemma issued_approved: "issued tr tid u e \<Longrightarrow> tid \<in> approved_ids tr"
  by (auto simp: issued_def approved_ids_def)

text \<open>
  The invariant: a token of the state was issued for an approval of the trace and has changed its
  use count only; a token has one approval; and no token was used more often than approved.
\<close>

definition token_inv :: "(elev_op \<times> elev_out) list \<Rightarrow> string \<Rightarrow> JITToken \<Rightarrow> bool" where
  "token_inv tr tid t \<longleftrightarrow>
     (\<exists>e. issued tr tid (t\<lparr>jt_ops_used := 0\<rparr>) e) \<and>
     (token_exhausted t \<or> int (signed_count tid tr) \<le> jt_ops_used t)"

definition budget_inv :: "(string \<Rightarrow> string) \<Rightarrow> (elev_op \<times> elev_out) list \<Rightarrow> string \<Rightarrow> bool" where
  "budget_inv sha tr tid \<longleftrightarrow>
     (tid \<in> approved_ids tr \<or> signed_count tid tr = 0) \<and>
     (\<forall>u e. issued tr tid u e \<longrightarrow> issue_ok sha tid u e \<and> int (signed_count tid tr) \<le> max 0 (ce_max_ops e)) \<and>
     (\<forall>u e u' e'. issued tr tid u e \<longrightarrow> issued tr tid u' e' \<longrightarrow> u = u' \<and> e = e')"

definition elev_inv :: "(string \<Rightarrow> string) \<Rightarrow> ElevationService \<Rightarrow> (elev_op \<times> elev_out) list \<Rightarrow> bool" where
  "elev_inv sha s tr \<longleftrightarrow>
     (\<forall>tid. budget_inv sha tr tid) \<and> (\<forall>tid t. map_of (es_tokens s) tid = Some t \<longrightarrow> token_inv tr tid t)"

lemma budget_inv_quiet:
  assumes "budget_inv sha tr tid" "\<not> is_signed tid (op, out)" "\<And>n c w t e. op = OpApprove n tid c w \<Longrightarrow> out \<noteq> OutToken t e"
  shows "budget_inv sha (tr @ [(op, out)]) tid"
proof -
  have "issued (tr @ [(op, out)]) tid = issued tr tid" using assms(3) by (intro ext) (simp; blast)
  moreover have "approved_ids tr \<subseteq> approved_ids (tr @ [(op, out)])" by (auto simp: approved_ids_def)
  ultimately show ?thesis using assms(1,2) unfolding budget_inv_def by (simp only: signed_count_simps) auto
qed

lemma token_inv_quiet: "token_inv tr tid t \<Longrightarrow> \<not> is_signed tid x \<Longrightarrow> token_inv (tr @ [x]) tid t"
  by (cases x) (auto simp: token_inv_def)

lemma elev_inv_quiet:
  assumes "elev_inv sha s tr" "\<And>tid. \<not> is_signed tid (op, out)" "\<And>t e. out \<noteq> OutToken t e"
    "\<And>tid t. map_of (es_tokens s') tid = Some t \<Longrightarrow> map_of (es_tokens s) tid = Some t"
  shows "elev_inv sha s' (tr @ [(op, out)])"
  using assms budget_inv_quiet token_inv_quiet unfolding elev_inv_def by blast

lemma elev_inv_revoke:
  assumes "elev_inv sha s tr"
  shows "elev_inv sha (snd (revoke_token tid s)) (tr @ [(OpRevoke tid, OutNothing)])"
proof (cases "map_of (es_tokens s) tid")
  case None
  with assms show ?thesis by (intro elev_inv_quiet [OF assms]) (auto simp: revoke_token_def)
next
  case (Some t)
  then have "token_inv tr tid t" using assms by (simp add: elev_inv_def)
  then have "token_inv (tr @ [(OpRevoke tid, OutNothing)]) tid (t\<lparr>jt_ops_used := jt_max_ops t\<rparr>)"
    by (auto simp: token_inv_def token_exhausted_def)
  with assms Some budget_inv_quiet token_inv_quiet show ?thesis
    by (auto simp: elev_inv_def revoke_token_def)
qed

lemma elev_inv_approve:
  assumes inv: "elev_inv sha s tr" and fresh: "tid \<notin> approved_ids tr"
    and step: "elev_step edsign sha (OpApprove now tid code who) s = (out, s')"
  shows "elev_inv sha s' (tr @ [(OpApprove now tid code who, out)])"
proof -
  obtain r where r: "approve_code sha now tid code who s = (r, s')"
    using step by (auto split: prod.splits option.splits)
  from approve_cases [OF r] show ?thesis
  proof (elim disjE conjE exE)
    assume "r = None" "es_tokens s' = es_tokens s"
    with r step show ?thesis by (intro elev_inv_quiet [OF inv]) auto
  next
    fix e
    assume e: "map_of (es_codes s) code = Some e" "ce_status e = ST_PENDING" "\<not> entry_expired now e"
      "r = Some (issue_token sha now tid (e\<lparr>ce_status := ST_APPROVED, ce_approved_by := Some who,
                    ce_approved_at := Some now, ce_token_id := Some tid\<rparr>))"
      "es_tokens s' = AList.update tid (the r) (es_tokens s)"
    let ?u = "issue_token sha now tid (approved_entry now tid who e)"
    let ?tr = "tr @ [(OpApprove now tid code who, out)]"
    have ru: "r = Some ?u" using e(4) by (simp add: approved_entry_def)
    have out: "out = OutToken ?u e" using r step ru e(1) by simp
    have zero: "signed_count tid tr = 0" using inv fresh by (auto simp: elev_inv_def budget_inv_def)
    have iss: "issued ?tr tid u' e' \<longleftrightarrow> u' = ?u \<and> e' = e" for u' e'
      using fresh issued_approved by (auto simp: out)
    have "issue_ok sha tid ?u e" using e(2,3) by (auto simp: issue_ok_def)
    then have "budget_inv sha ?tr tid" using zero by (auto simp: budget_inv_def iss simp del: issued_simps_tr)
    moreover have "budget_inv sha ?tr t" if "t \<noteq> tid" for t
      using inv that by (intro budget_inv_quiet) (auto simp: elev_inv_def)
    moreover have "token_inv ?tr tid ?u"
    proof -
      have "?u\<lparr>jt_ops_used := 0\<rparr> = ?u" by (simp add: issue_token_def)
      then show ?thesis using zero by (auto simp: token_inv_def iss simp del: issued_simps_tr)
    qed
    ultimately have "\<forall>t. budget_inv sha ?tr t" "token_inv ?tr tid ?u" by metis+
    then show ?thesis
      using inv token_inv_quiet e(5) ru by (auto simp: elev_inv_def)
  qed
qed

lemma elev_inv_sign:
  assumes inv: "elev_inv sha s tr"
    and step: "elev_step edsign sha (OpSign now ids tid i args sid) s = (out, s')"
  shows "elev_inv sha s' (tr @ [(OpSign now ids tid i args sid, out)])"
proof -
  obtain r where r: "create_signed_request edsign sha now ids tid i args sid s = (r, s')"
    using step by (auto split: prod.splits option.splits)
  from sign_cases [OF r] show ?thesis
  proof (elim disjE conjE exE)
    assume "r = None" "s' = s"
    with r step show ?thesis by (intro elev_inv_quiet [OF inv]) auto
  next
    fix t name h and ch sh :: string
    assume u: "usable_command now tid i sid s = Some (t, name, h)"
      and s': "s' = s\<lparr>es_tokens := AList.update tid (t\<lparr>jt_ops_used := jt_ops_used t + 1\<rparr>) (es_tokens s)\<rparr>"
      and rs: "r = Some (request_payload sha ids tid sid name args ch sh @
               [(''signature'', PStr (edsign (canonical (PDict (request_payload sha ids tid sid name args ch sh)))))])"
    let ?tr = "tr @ [(OpSign now ids tid i args sid, out)]"
    obtain rr where out: "out = OutSigned rr" using r step rs by auto
    have iss: "issued ?tr k = issued tr k" for k by (intro ext) simp
    note ud = usable_commandD [OF u]
    have ti: "token_inv tr tid t" using ud inv by (simp add: elev_inv_def)
    then obtain e where e: "issued tr tid (t\<lparr>jt_ops_used := 0\<rparr>) e" by (auto simp: token_inv_def)
    have cnt: "int (signed_count tid tr) \<le> jt_ops_used t" "jt_ops_used t < jt_max_ops t"
      using ti ud by (auto simp: token_inv_def token_exhausted_def)
    have b: "budget_inv sha tr tid" using inv by (simp add: elev_inv_def)
    then have "jt_max_ops (t\<lparr>jt_ops_used := 0\<rparr>) = ce_max_ops e"
      using e unfolding budget_inv_def issue_ok_def by (metis issued_simps(2))
    then have "int (signed_count tid ?tr) \<le> max 0 (ce_max_ops e)" using cnt by (simp add: out)
    then have "budget_inv sha ?tr tid"
      using b e issued_approved unfolding budget_inv_def iss by (simp add: out) blast
    moreover have "budget_inv sha ?tr k" if "k \<noteq> tid" for k
      using inv that by (intro budget_inv_quiet) (auto simp: elev_inv_def out)
    moreover have "token_inv ?tr tid (t\<lparr>jt_ops_used := jt_ops_used t + 1\<rparr>)"
      using e cnt by (simp add: token_inv_def out) blast
    ultimately have "\<forall>k. budget_inv sha ?tr k" "token_inv ?tr tid (t\<lparr>jt_ops_used := jt_ops_used t + 1\<rparr>)" by metis+
    then show ?thesis
      using inv token_inv_quiet by (auto simp: elev_inv_def s' out)
  qed
qed

lemma elev_step_inv [step_inv]:
  assumes "elev_inv sha s tr" "elev_wf s" "elev_step edsign sha op s = (out, s')"
    "\<And>now tid code who. op = OpApprove now tid code who \<Longrightarrow> tid \<notin> approved_ids tr"
  shows "elev_inv sha s' (tr @ [(op, out)])"
proof (cases op)
  case (OpApprove now tid code who)
  with assms elev_inv_approve show ?thesis by metis
next
  case (OpSign now ids tid i args sid)
  with assms elev_inv_sign show ?thesis by metis
next
  case (OpRevoke tid)
  with assms elev_inv_revoke show ?thesis by force
next
  case (OpCleanup now)
  with assms cleanup_tokens show ?thesis
    by (intro elev_inv_quiet [OF assms(1)]) (auto simp: elev_wf_def)
qed (use assms(3) in \<open>intro elev_inv_quiet [OF assms(1)]; force\<close>)+

lemma elev_reach_inv: "elev_reach edsign sha s tr \<Longrightarrow> elev_inv sha s tr"
proof (induction rule: elev_reach.induct)
  case reach_init
  show ?case by (simp add: elev_inv_def budget_inv_def elevation_init_def)
next
  case (reach_step s tr op out s')
  then show ?case using elev_step_inv elev_reach_wf by metis
qed

text \<open>A prefix of a trace is a trace of a reachable state.\<close>

lemma elev_reach_split:
  "elev_reach edsign sha s tr \<Longrightarrow> tr = tr1 @ (op, out) # tr2 \<Longrightarrow>
     \<exists>s1 s2. elev_reach edsign sha s1 tr1 \<and> elev_step edsign sha op s1 = (out, s2)"
proof (induction arbitrary: tr2 rule: elev_reach.induct)
  case (reach_step s tr op' out' s')
  show ?case
  proof (cases tr2 rule: rev_cases)
    case Nil
    with reach_step show ?thesis by auto
  next
    case (snoc ys y)
    with reach_step show ?thesis by auto
  qed
qed simp

section \<open>Lemmas: what is signed\<close>

text \<open>The arguments of a request match the approved command \<open>c\<close> of the entry \<open>e\<close>.\<close>

definition args_approved :: "(string \<Rightarrow> string) \<Rightarrow> ElevationCodeEntry \<Rightarrow> elev_command \<Rightarrow> string list \<Rightarrow> bool" where
  "args_approved sha e c args \<longleftrightarrow>
     (if ec_command c = ''exec_arbitrary_cmd''
      then hash_payload sha [(''cmd'', PStr (join '' '' args))] = or_empty (ce_inline_cmd_hash e)
      else if ec_command c = ''exec_arbitrary_script'' then True
      else hash_payload sha [(''args'', PList (map PStr args))] = hash_payload sha [(''args'', ec_args c)])"

lemma token_of_issue:
  assumes "elev_inv sha s tr" "map_of (es_tokens s) tid = Some t"
  shows "\<exists>u e now code who. (OpApprove now tid code who, OutToken u e) \<in> set tr \<and> issue_ok sha tid u e \<and>
     jt_session_id t = ce_session_id e \<and> jt_inline_cmd_hash t = ce_inline_cmd_hash e \<and> jt_issued_at t = jt_issued_at u \<and>
     jt_ttl_seconds t = ce_ttl_seconds e \<and> jt_script_hash t = ce_script_hash e \<and>
     jt_allowed_commands t = map (\<lambda>c. (ec_command c, hash_payload sha [(''args'', ec_args c)])) (ce_commands e)"
proof -
  obtain e where e: "issued tr tid (t\<lparr>jt_ops_used := 0\<rparr>) e" using assms unfolding elev_inv_def token_inv_def by blast
  then have ok: "issue_ok sha tid (t\<lparr>jt_ops_used := 0\<rparr>) e"
    using assms(1) by (auto simp: elev_inv_def budget_inv_def)
  then obtain now who where u: "t\<lparr>jt_ops_used := 0\<rparr> = issue_token sha now tid (approved_entry now tid who e)"
    by (auto simp: issue_ok_def)
  note f = arg_cong [where f = jt_session_id, OF u] arg_cong [where f = jt_inline_cmd_hash, OF u]
    arg_cong [where f = jt_ttl_seconds, OF u] arg_cong [where f = jt_script_hash, OF u]
    arg_cong [where f = jt_allowed_commands, OF u]
  obtain n c w where "(OpApprove n tid c w, OutToken (t\<lparr>jt_ops_used := 0\<rparr>) e) \<in> set tr"
    using e by (auto simp: issued_def)
  with ok f show ?thesis by (intro exI conjI) (assumption | simp)+
qed

lemma signed_approved:
  assumes reach: "elev_reach edsign sha s (tr1 @ (OpSign now ids tid i args sid, OutSigned r) # tr2)"
  shows "\<exists>u e c ch sh. issued tr1 tid u e \<and> issue_ok sha tid u e \<and> sid = ce_session_id e \<and>
     now \<le> jt_issued_at u + of_int (ce_ttl_seconds e) \<and>
     0 \<le> i \<and> nat i < length (ce_commands e) \<and> c = ce_commands e ! nat i \<and> args_approved sha e c args \<and>
     (ec_command c = ''exec_arbitrary_script'' \<longrightarrow> sh = or_empty (ce_script_hash e)) \<and>
     (let payload = request_payload sha ids tid sid (ec_command c) args ch sh in
        r = payload @ [(''signature'', PStr (edsign (canonical (PDict payload))))])"
proof -
  obtain s1 s2 where s1: "elev_reach edsign sha s1 tr1"
    "elev_step edsign sha (OpSign now ids tid i args sid) s1 = (OutSigned r, s2)"
    using elev_reach_split [OF reach refl] by blast
  then have "create_signed_request edsign sha now ids tid i args sid s1 = (Some r, s2)"
    by (auto split: prod.splits option.splits)
  from sign_cases [OF this] obtain t name h ch sh where
    u: "usable_command now tid i sid s1 = Some (t, name, h)" "channel_hashes sha t name h args = Some (ch, sh)"
    and r: "r = request_payload sha ids tid sid name args ch sh @
      [(''signature'', PStr (edsign (canonical (PDict (request_payload sha ids tid sid name args ch sh)))))]"
    by auto
  note ud = usable_commandD [OF u(1)]
  from token_of_issue [OF elev_reach_inv [OF s1(1)]] ud obtain v e n code who where
    v: "(OpApprove n tid code who, OutToken v e) \<in> set tr1" "issue_ok sha tid v e" "jt_session_id t = ce_session_id e"
      "jt_inline_cmd_hash t = ce_inline_cmd_hash e" "jt_issued_at t = jt_issued_at v" "jt_ttl_seconds t = ce_ttl_seconds e"
      "jt_script_hash t = ce_script_hash e"
      "jt_allowed_commands t = map (\<lambda>c. (ec_command c, hash_payload sha [(''args'', ec_args c)])) (ce_commands e)"
    by blast
  let ?c = "ce_commands e ! nat i"
  have ix: "nat i < length (ce_commands e)" "name = ec_command ?c" "h = hash_payload sha [(''args'', ec_args ?c)]"
    using ud v(8) by auto
  have "args_approved sha e ?c args"
    using u(2) by (auto simp: channel_hashes_def args_approved_def ix v(4) Let_def split: if_splits)
  moreover have "issued tr1 tid v e" using v(1) by (auto simp: issued_def)
  moreover have "ec_command ?c = ''exec_arbitrary_script'' \<longrightarrow> sh = or_empty (ce_script_hash e)"
    using u(2) by (auto simp: channel_hashes_def ix v(7))
  ultimately show ?thesis
    using v(2,3,5,6) ud ix(1) r unfolding ix(2)
    by (intro exI [of _ v] exI [of _ e] exI [of _ ?c] exI [of _ ch] exI [of _ sh]) (auto simp: token_expired_def Let_def)
qed

lemma sorted_map_of: "wf_dict d \<Longrightarrow> map_of (sort_key fst d) = map_of d"
  by (rule map_of_inject_set [THEN iffD2]) (simp_all add: distinct_map inj_on_def)

lemma canonical_dict_inj:
  assumes "wf_json fr (PDict d)" "wf_json fr (PDict d')" "canonical (PDict d) = canonical (PDict d')"
  shows "map_of (map (\<lambda>kv. (fst kv, sort_val (snd kv))) d) = map_of (map (\<lambda>kv. (fst kv, sort_val (snd kv))) d')"
proof -
  have w: "wf_dict (map (\<lambda>kv. (fst kv, sort_val (snd kv))) d)" if "wf_json fr (PDict d)" for d
    using that by (simp add: comp_def)
  have "sort_val (PDict d) = sort_val (PDict d')" using canonical_inj assms by metis
  then have "map_of (sort_key fst (map (\<lambda>kv. (fst kv, sort_val (snd kv))) d)) =
      map_of (sort_key fst (map (\<lambda>kv. (fst kv, sort_val (snd kv))) d'))" by simp
  then show ?thesis by (simp only: sorted_map_of [OF w [OF assms(1)]] sorted_map_of [OF w [OF assms(2)]])
qed

lemma sort_val_strs: "sort_val v = PList (map PStr xs) \<longleftrightarrow> v = PList (map PStr xs)"
proof (cases v)
  case (PList vs)
  have "sort_val x = PStr y \<longleftrightarrow> x = PStr y" for x y by (cases x) auto
  then have "map sort_val vs = map PStr xs \<longleftrightarrow> vs = map PStr xs"
    by (induction vs arbitrary: xs) (auto simp: Cons_eq_map_conv)
  with PList show ?thesis by simp
qed auto

lemma canonical_args_inj:
  assumes "wf_json fr v" "canonical (PDict [(''args'', PList (map PStr xs))]) = canonical (PDict [(''args'', v)])"
  shows "v = PList (map PStr xs)"
proof -
  have wf: "wf_json fr (PDict [(''args'', PList (map PStr xs))])" "wf_json fr (PDict [(''args'', v)])"
    using assms(1) by (simp_all add: list_all_iff)
  have "sort_val v = PList (map PStr xs)"
    using fun_cong [OF canonical_dict_inj [OF wf assms(2)], of "''args''"] by (simp add: comp_def)
  then show ?thesis by (simp only: sort_val_strs)
qed

lemma wf_sig_payload: "wf_json fr (PDict (sig_payload req))"
  by (simp add: sig_payload_def list_all_iff)

lemma request_payload_sig:
  "\<exists>q. request_payload sha ids tid sid name args ch sh = sig_payload q \<and> v2_command q = name \<and> v2_args q = args \<and>
     v2_token_id q = tid \<and> v2_script_hash q = sh \<and>
     (name = ''exec_arbitrary_script'' \<longrightarrow> v2_script_path q = (case args of a # _ \<Rightarrow> a | [] \<Rightarrow> []))"
  by (rule exI [of _ "\<lparr>v2_requestId = ''v2-'' @ si_request ids, v2_action = [], v2_payload = [], v2_caller = None,
       v2_command = name, v2_args = args, v2_args_hash = hash_payload sha [(''args'', PList (map PStr args))],
       v2_token_id = tid, v2_session_id = sid, v2_timestamp = si_timestamp ids, v2_nonce = si_nonce ids,
       v2_signature = [], v2_cmd_hash = ch,
       v2_script_path = (if name = ''exec_arbitrary_script'' then (case args of a # _ \<Rightarrow> a | [] \<Rightarrow> []) else []),
       v2_script_hash = sh\<rparr>"]) (simp add: request_payload_def sig_payload_def)

text \<open>The signed text determines the command and its arguments.\<close>

lemma sig_payload_inj:
  assumes "canonical (PDict (sig_payload p)) = canonical (PDict (sig_payload q))"
  shows "v2_command p = v2_command q \<and> v2_args p = v2_args q \<and> v2_token_id p = v2_token_id q \<and>
    v2_script_path p = v2_script_path q \<and> v2_script_hash p = v2_script_hash q"
proof -
  note m = canonical_dict_inj [OF wf_sig_payload wf_sig_payload assms]
  have "v2_command p = v2_command q" using fun_cong [OF m, of "''command''"] by (simp add: sig_payload_def)
  moreover have "map PStr (v2_args p) = map PStr (v2_args q)"
    using fun_cong [OF m, of "''args''"] by (simp add: sig_payload_def comp_def)
  then have "v2_args p = v2_args q" by (simp add: inj_map_eq_map inj_def)
  moreover have "v2_token_id p = v2_token_id q" "v2_script_path p = v2_script_path q" "v2_script_hash p = v2_script_hash q"
    using fun_cong [OF m, of "''token_id''"] fun_cong [OF m, of "''script_path''"] fun_cong [OF m, of "''script_hash''"]
    by (simp_all add: sig_payload_def)
  ultimately show ?thesis by simp
qed

section \<open>Lemmas: the status of codes\<close>

text \<open>How an operation other than a new request for the same code may change an entry.\<close>

inductive entry_change :: "ElevationCodeEntry \<Rightarrow> ElevationCodeEntry \<Rightarrow> bool" where
  same: "entry_change e e"
| expire: "ce_status e = ST_PENDING \<or> ce_status e = ST_APPROVED \<Longrightarrow> entry_change e (e\<lparr>ce_status := ST_EXPIRED\<rparr>)"
| reject: "ce_status e = ST_PENDING \<Longrightarrow> entry_change e (e\<lparr>ce_status := ST_REJECTED, ce_reject_reason := Some reason\<rparr>)"
| approve: "ce_status e = ST_PENDING \<Longrightarrow> entry_change e (approved_entry now tid who e)"

inductive_cases entry_changeE: "entry_change e e'"

lemma expire_entry_change: "entry_change e (expire_entry now e)"
  by (auto simp: expire_entry_def intro: entry_change.intros)

lemma cleanup_codes:
  "wf_dict (es_codes s) \<Longrightarrow> map_of (es_codes (cleanup_expired now s)) code = Some e' \<Longrightarrow>
     \<exists>e. map_of (es_codes s) code = Some e \<and> e' = expire_entry now e"
  by (auto simp: cleanup_expired_def Let_def map_of_filter_wf map_of_map_snd simp del: map_map
      split: option.splits if_splits)

lemma generate_codes:
  assumes "map_of (es_codes (snd (generate_code now fresh g s))) code = Some e'"
  shows "e' = new_entry now code g \<or> (\<exists>e. map_of (es_codes s) code = Some e \<and> entry_change e e')"
  using assms by (auto simp: generate_code_def Let_def intro: entry_change.intros split: option.splits if_splits)

text \<open>An entry after a step is new, or was there before and changed as above.\<close>

lemma elev_step_codes:
  assumes "elev_wf s" "elev_step edsign sha op s = (out, s')" "map_of (es_codes s') code = Some e'"
  shows "(\<exists>now fresh g. op = OpGenerate now fresh g \<and> e' = new_entry now code g) \<or>
     (\<exists>e. map_of (es_codes s) code = Some e \<and> entry_change e e')"
proof (cases op)
  case (OpGenerate now fresh g)
  with assms generate_codes [of now fresh g s code e'] show ?thesis by auto
next
  case (OpCleanup now)
  with assms cleanup_codes [of s now code e'] expire_entry_change show ?thesis by (auto simp: elev_wf_def)
qed (use assms(2,3) in \<open>auto simp: get_code_def approve_code_def reject_code_def revoke_token_def
      create_signed_request_def Let_def approved_entry_def [symmetric] intro: entry_change.intros
      split: option.splits if_splits prod.splits\<close>)

lemma approved_by_approval:
  assumes "elev_wf s" "elev_step edsign sha op s = (out, s')" "map_of (es_codes s) code = Some e"
    "map_of (es_codes s') code = Some e'" "ce_status e' = ST_APPROVED" "ce_status e \<noteq> ST_APPROVED"
  shows "\<exists>now tid who t. op = OpApprove now tid code who \<and> out = OutToken t e"
proof (cases op)
  case (OpGenerate now fresh g)
  with assms(2-6) show ?thesis
    by (auto simp: generate_code_def new_entry_def Let_def split: option.splits if_splits)
next
  case (OpCleanup now)
  with assms cleanup_codes [of s now code e'] show ?thesis by (auto simp: elev_wf_def expire_entry_def split: if_splits)
qed (use assms(2-6) in \<open>auto simp: get_code_def approve_code_def reject_code_def revoke_token_def
      create_signed_request_def Let_def split: option.splits if_splits prod.splits\<close>)

lemma elev_reach_codes:
  "elev_reach edsign sha s tr \<Longrightarrow> map_of (es_codes s) code = Some e \<Longrightarrow>
     ce_status e \<noteq> ST_CONSUMED \<and> ce_ops_used e = 0"
proof (induction arbitrary: code e rule: elev_reach.induct)
  case reach_init
  then show ?case by (simp add: elevation_init_def)
next
  case (reach_step s tr op out s')
  from elev_step_codes [OF elev_reach_wf [OF reach_step.hyps(1)] reach_step.hyps(2) reach_step.prems] reach_step.IH
  show ?case by (auto simp: new_entry_def approved_entry_def elim!: entry_changeE)
qed

section \<open>Properties\<close>

text \<open>
  C1. What the root agent does for signed requests was approved.  If nobody but the service can make
  a signature that the agent's key accepts and every token has an id, the effects of any version 2 request, genuine or
  not, are none or a prefix of the plan of a command that an administrator approved while its code was pending, on the
  approved arguments: a free command line has the approved hash; the script that runs is the file whose content
  has the approved hash, where the approval names one; and every other command has the approved arguments (or the two
  differ and are a collision of the hash).
\<close>

theorem root_runs_only_approved:
  assumes reach: "elev_reach edsign sha s tr" and key: "ag_pub_key ag = Some pub"
    and unforgeable: "\<And>m sig. vp_verify vp pub m sig \<Longrightarrow>
      \<exists>now ids tid i args sid payload sig'. m = canonical (PDict payload) \<and>
        (OpSign now ids tid i args sid, OutSigned (payload @ [(''signature'', PStr sig')])) \<in> set tr"
    and json: "\<And>tid u e c. issued tr tid u e \<Longrightarrow> c \<in> set (ce_commands e) \<Longrightarrow> wf_json fr (ec_args c)"
    and named: "\<And>tid u e. issued tr tid u e \<Longrightarrow> tid \<noteq> []"
  shows "\<exists>es. mlog (snd (snd (handle_v2 os vp ag ctx raw st))) = mlog (snd st) @ es \<and>
     (es = [] \<or> (\<exists>tid u e c args. issued tr tid u e \<and> ce_status e = ST_PENDING \<and> c \<in> set (ce_commands e) \<and>
        prefix es (plan (ag_registry ag) (ec_command c) args) \<and>
        (if ec_command c = ''exec_arbitrary_cmd''
         then hash_payload sha [(''cmd'', PStr (join '' '' args))] = or_empty (ce_inline_cmd_hash e)
         else if ec_command c = ''exec_arbitrary_script''
         then \<exists>content. os_read os (path_str (case args of a # _ \<Rightarrow> a | [] \<Rightarrow> [])) (mworld (snd st)) = Some content \<and>
           (or_empty (ce_script_hash e) \<noteq> [] \<longrightarrow>
              hash_payload (vp_sha256 vp) [(''content'', PStr content)] = or_empty (ce_script_hash e))
         else ec_args c = PList (map PStr args) \<or>
           (let x = canonical (PDict [(''args'', PList (map PStr args))]); y = canonical (PDict [(''args'', ec_args c)])
            in x \<noteq> y \<and> sha x = sha y))))"
proof -
  obtain es where es: "mlog (snd (snd (handle_v2 os vp ag ctx raw st))) = mlog (snd st) @ es"
    "es = [] \<or> (\<exists>req. v2_admits os vp ag ctx raw (fst st) (mworld (snd st)) req \<and>
        prefix es (plan (ag_registry ag) (v2_command req) (v2_args req)))"
    using handle_v2_effects [of os vp ag ctx raw st] by blast
  from es(2) show ?thesis
  proof (elim disjE exE conjE)
    assume "es = []"
    with es(1) show ?thesis by auto
  next
    fix req
    assume a: "v2_admits os vp ag ctx raw (fst st) (mworld (snd st)) req"
      and p: "prefix es (plan (ag_registry ag) (v2_command req) (v2_args req))"
    have "vp_verify vp pub (canonical (PDict (sig_payload req))) (v2_signature req)"
      using a key by (simp add: v2_admits_def verify_signature_def verify_payload_def)
    from unforgeable [OF this] obtain now ids tid i args sid payload sig' where
      pl: "canonical (PDict (sig_payload req)) = canonical (PDict payload)"
      and mem: "(OpSign now ids tid i args sid, OutSigned (payload @ [(''signature'', PStr sig')])) \<in> set tr"
      by blast
    then obtain tr1 tr2 where tr: "tr = tr1 @ (OpSign now ids tid i args sid, OutSigned (payload @ [(''signature'', PStr sig')])) # tr2"
      by (auto simp: in_set_conv_decomp)
    from signed_approved [OF reach [unfolded tr]] obtain u e c ch sh where
      u: "issued tr1 tid u e" "issue_ok sha tid u e" "nat i < length (ce_commands e)" "c = ce_commands e ! nat i"
        "args_approved sha e c args" "payload = request_payload sha ids tid sid (ec_command c) args ch sh"
      and sh: "ec_command c = ''exec_arbitrary_script'' \<longrightarrow> sh = or_empty (ce_script_hash e)"
      by (auto simp: Let_def)
    obtain q where q: "payload = sig_payload q" "v2_command q = ec_command c" "v2_args q = args"
      and q': "v2_token_id q = tid" "v2_script_hash q = sh"
        "ec_command c = ''exec_arbitrary_script'' \<longrightarrow> v2_script_path q = (case args of a # _ \<Rightarrow> a | [] \<Rightarrow> [])"
      using request_payload_sig u(6) by metis
    have same: "v2_command req = ec_command c" "v2_args req = args" and same': "v2_token_id req = v2_token_id q"
      "v2_script_path req = v2_script_path q" "v2_script_hash req = v2_script_hash q"
      using sig_payload_inj pl q by metis+
    have c: "c \<in> set (ce_commands e)" and iss: "issued tr tid u e"
      using u(1,3,4) by (auto simp: issued_def tr)
    note wf = canonical_args_inj [OF json [OF iss c], of args]
    have "ec_args c = PList (map PStr args) \<or>
        (let x = canonical (PDict [(''args'', PList (map PStr args))]); y = canonical (PDict [(''args'', ec_args c)])
         in x \<noteq> y \<and> sha x = sha y)"
      if "ec_command c \<noteq> ''exec_arbitrary_cmd''" "ec_command c \<noteq> ''exec_arbitrary_script''"
      using u(5) that wf by (auto simp: args_approved_def hash_payload_def Let_def)
    moreover have "ce_status e = ST_PENDING" using u(2) by (auto simp: issue_ok_def)
    moreover have "\<exists>content. os_read os (path_str (case args of a # _ \<Rightarrow> a | [] \<Rightarrow> [])) (mworld (snd st)) = Some content \<and>
        (or_empty (ce_script_hash e) \<noteq> [] \<longrightarrow>
          hash_payload (vp_sha256 vp) [(''content'', PStr content)] = or_empty (ce_script_hash e))"
      if "ec_command c = ''exec_arbitrary_script''"
      using a that sh named [OF iss] same same' q'
      by (auto simp: v2_admits_def check_hashes_def split: option.splits if_splits)
    ultimately show ?thesis
      using es(1) p u(5) iss c unfolding same args_approved_def
      by (intro exI [of _ es] conjI disjI2 exI [of _ tid] exI [of _ u] exI [of _ e] exI [of _ c] exI [of _ args])
         (simp_all split: if_splits)
  qed
qed

text \<open>
  C4. A token cannot be used more often than approved: in every run of the service the number of
  requests signed for a token is at most the \<open>max_ops\<close> of the approved code, and none after the token
  was revoked.
\<close>

theorem signed_within_budget:
  assumes "elev_reach edsign sha s tr" "(OpApprove now tid code who, OutToken u e) \<in> set tr"
  shows "int (signed_count tid tr) \<le> max 0 (ce_max_ops e) \<and>
     fst (create_signed_request edsign sha later ids tid i args sid (snd (revoke_token tid s))) = None"
proof
  have "issued tr tid u e" using assms(2) by (auto simp: issued_def)
  then show "int (signed_count tid tr) \<le> max 0 (ce_max_ops e)"
    using elev_reach_inv [OF assms(1)] unfolding elev_inv_def budget_inv_def by blast
  show "fst (create_signed_request edsign sha later ids tid i args sid (snd (revoke_token tid s))) = None"
    by (simp add: create_signed_request_def usable_command_def revoke_token_def token_exhausted_def split: option.splits)
qed

text \<open>
  Every signed request goes back to an approval that came before it, of the same session and
  not yet timed out, and carries the name of one of its commands with arguments whose hash was approved.
\<close>

theorem signed_requests_are_approved:
  assumes "elev_reach edsign sha s (tr1 @ (OpSign now ids tid i args sid, OutSigned r) # tr2)"
  shows "\<exists>u e c. issued tr1 tid u e \<and> ce_session_id e = sid \<and> now \<le> jt_issued_at u + of_int (ce_ttl_seconds e) \<and>
     c \<in> set (ce_commands e) \<and> args_approved sha e c args \<and> map_of r ''command'' = Some (PStr (ec_command c)) \<and>
     map_of r ''args'' = Some (PList (map PStr args)) \<and> map_of r ''token_id'' = Some (PStr tid)"
proof -
  from signed_approved [OF assms] obtain u e c ch sh where
    u: "issued tr1 tid u e" "sid = ce_session_id e" "now \<le> jt_issued_at u + of_int (ce_ttl_seconds e)"
      "nat i < length (ce_commands e)" "c = ce_commands e ! nat i" "args_approved sha e c args"
      "\<exists>x. r = request_payload sha ids tid sid (ec_command c) args ch sh @ x"
    unfolding Let_def by blast
  then show ?thesis
    by (intro exI [of _ u] exI [of _ e] exI [of _ c]) (auto simp: request_payload_def)
qed

text \<open>
  The life cycle of a code: in a reachable state, an operation that does not ask for the same
  code again leaves its status or takes it from pending to approved, rejected or expired, or from
  approved to expired; it is approved only by an approval that issues a token, and what was asked for
  (session, commands, lifetime, number of uses) never changes.
\<close>

theorem code_life_cycle:
  assumes "elev_reach edsign sha s tr" "elev_step edsign sha op s = (out, s')"
    "map_of (es_codes s) code = Some e" "map_of (es_codes s') code = Some e'"
    "\<And>now fresh g. op \<noteq> OpGenerate now fresh g"
  shows "(ce_status e, ce_status e') \<in> {(x, x) |x. True} \<union>
       {ST_PENDING} \<times> {ST_APPROVED, ST_REJECTED, ST_EXPIRED} \<union> {(ST_APPROVED, ST_EXPIRED)} \<and>
     ce_session_id e' = ce_session_id e \<and> ce_commands e' = ce_commands e \<and> ce_ttl_seconds e' = ce_ttl_seconds e \<and>
     ce_max_ops e' = ce_max_ops e \<and> ce_requested_at e' = ce_requested_at e \<and>
     (ce_status e' = ST_APPROVED \<longrightarrow> ce_status e = ST_APPROVED \<or>
        (\<exists>now tid who t. op = OpApprove now tid code who \<and> out = OutToken t e))"
  using elev_step_codes [OF elev_reach_wf [OF assms(1)] assms(2,4)] assms(3,5)
    approved_by_approval [OF elev_reach_wf [OF assms(1)] assms(2,3,4)]
  by (auto simp: approved_entry_def elim!: entry_changeE)

text \<open>
  The status "consumed" of the documented life cycle is never reached, and a code never counts
  its uses, so a code whose token is used up still shows as approved and not exhausted.
\<close>

lemma never_consumed:
  assumes "elev_reach edsign sha s tr" "map_of (es_codes s) code = Some e"
  shows "ce_status e \<noteq> ST_CONSUMED \<and> (entry_exhausted e \<longleftrightarrow> ce_max_ops e \<le> 0)"
  using elev_reach_codes [OF assms] by (simp add: entry_exhausted_def)

section \<open>Witnesses\<close>

text \<open>One session asks for a reload of nginx, which is approved and signed.\<close>

definition demo_gen :: code_request where
  "demo_gen = \<lparr>gr_session_id = ''s'', gr_commands = [\<lparr>ec_command = ''nginx_reload'', ec_args = PList (map PStr [])\<rparr>],
     gr_reason = ''r'', gr_ttl_seconds = 3600, gr_max_ops = 1, gr_code = Some ''AAAA-BBBB'', gr_inline_cmd = None,
     gr_inline_cmd_hash = None, gr_script_path = None, gr_script_hash = None, gr_request_type = ''privileged'',
     gr_task_id = None, gr_approval_policy = None, gr_expire_previous = True\<rparr>"

definition demo_entry :: ElevationCodeEntry where
  "demo_entry = new_entry 10 ''AAAA-BBBB'' demo_gen"

definition demo_ids :: sign_ids where
  "demo_ids = \<lparr>si_nonce = ''nonce-01'', si_request = ''u'', si_timestamp = ''t''\<rparr>"

definition demo_token :: JITToken where
  "demo_token = issue_token id 20 ''tok'' (approved_entry 20 ''tok'' ''root'' demo_entry)"

definition demo_payload :: pydict where
  "demo_payload = request_payload id demo_ids ''tok'' ''s'' ''nginx_reload'' [] [] []"

definition demo_sig :: string where
  "demo_sig = canonical (PDict demo_payload)"

definition demo_states :: "ElevationService list" where
  "demo_states =
     [elevation_init,
      \<lparr>es_codes = [(''AAAA-BBBB'', demo_entry)], es_tokens = [], es_sessions = [(''s'', ''AAAA-BBBB'')]\<rparr>,
      \<lparr>es_codes = [(''AAAA-BBBB'', approved_entry 20 ''tok'' ''root'' demo_entry)], es_tokens = [(''tok'', demo_token)],
       es_sessions = [(''s'', ''AAAA-BBBB'')]\<rparr>,
      \<lparr>es_codes = [(''AAAA-BBBB'', approved_entry 20 ''tok'' ''root'' demo_entry)],
       es_tokens = [(''tok'', demo_token\<lparr>jt_ops_used := 1\<rparr>)], es_sessions = [(''s'', ''AAAA-BBBB'')]\<rparr>]"

definition demo_trace :: "(elev_op \<times> elev_out) list" where
  "demo_trace =
     [(OpGenerate 10 ''x'' demo_gen, OutNothing), (OpApprove 20 ''tok'' ''AAAA-BBBB'' ''root'', OutToken demo_token demo_entry),
      (OpSign 30 demo_ids ''tok'' 0 [] ''s'', OutSigned (demo_payload @ [(''signature'', PStr demo_sig)]))]"

lemma demo_step1: "elev_step id id (OpGenerate 10 ''x'' demo_gen) (demo_states ! 0) = (OutNothing, demo_states ! 1)"
  by (simp add: generate_code_def demo_gen_def demo_states_def elevation_init_def demo_entry_def Let_def)

lemma demo_step2: "elev_step id id (OpApprove 20 ''tok'' ''AAAA-BBBB'' ''root'') (demo_states ! 1) =
    (OutToken demo_token demo_entry, demo_states ! 2)"
  by (simp add: approve_code_def demo_states_def demo_entry_def new_entry_def entry_expired_def demo_gen_def Let_def
      approved_entry_def demo_token_def)

lemma demo_step3: "elev_step id id (OpSign 30 demo_ids ''tok'' 0 [] ''s'') (demo_states ! 2) =
    (OutSigned (demo_payload @ [(''signature'', PStr demo_sig)]), demo_states ! 3)"
  by (simp add: create_signed_request_def usable_command_def channel_hashes_def demo_states_def demo_token_def
      token_expired_def token_exhausted_def demo_entry_def new_entry_def demo_gen_def Let_def demo_payload_def demo_sig_def)

lemma demo_reach:
  "elev_reach id id (demo_states ! 3) demo_trace" "elev_reach id id (demo_states ! 2) (take 2 demo_trace)"
proof -
  have i: "elev_reach id id (demo_states ! 0) []" by (simp add: demo_states_def elev_reach.reach_init)
  note r1 = elev_reach.reach_step [OF i demo_step1]
  note r2 = elev_reach.reach_step [OF r1 demo_step2]
  note r3 = elev_reach.reach_step [OF r2 demo_step3]
  show "elev_reach id id (demo_states ! 2) (take 2 demo_trace)"
    using r2 by (simp add: demo_trace_def approved_ids_def)
  show "elev_reach id id (demo_states ! 3) demo_trace"
    using r3 by (simp add: demo_trace_def approved_ids_def)
qed

theorem signed_within_budget_witness:
  "(OpApprove 20 ''tok'' ''AAAA-BBBB'' ''root'', OutToken demo_token demo_entry) \<in> set demo_trace \<and>
   signed_count ''tok'' demo_trace = 1 \<and> int (signed_count ''tok'' demo_trace) \<le> 1"
proof -
  have m: "(OpApprove 20 ''tok'' ''AAAA-BBBB'' ''root'', OutToken demo_token demo_entry) \<in> set demo_trace"
    by (simp add: demo_trace_def)
  have "signed_count ''tok'' demo_trace = 1" by (simp add: demo_trace_def signed_count_def)
  moreover have "ce_max_ops demo_entry = 1" by (simp add: demo_entry_def new_entry_def demo_gen_def)
  ultimately show ?thesis using m signed_within_budget [OF demo_reach(1) m] by simp
qed

theorem signed_requests_are_approved_witness:
  "\<exists>u e c. issued (take 2 demo_trace) ''tok'' u e \<and> c \<in> set (ce_commands e) \<and>
     Some (PStr (ec_command c)) = Some (PStr ''nginx_reload'')"
proof -
  have "elev_reach id id (demo_states ! 3) (take 2 demo_trace @ (OpSign 30 demo_ids ''tok'' 0 [] ''s'',
      OutSigned (demo_payload @ [(''signature'', PStr demo_sig)])) # [])"
    using demo_reach(1) by (simp add: demo_trace_def)
  from signed_requests_are_approved [OF this] show ?thesis
    by (fastforce simp: demo_payload_def request_payload_def)
qed

theorem code_life_cycle_witness:
  "ce_status demo_entry = ST_PENDING \<and>
   ce_commands (approved_entry 20 ''tok'' ''root'' demo_entry) = ce_commands demo_entry"
proof -
  have r: "elev_reach id id (demo_states ! 1) [(OpGenerate 10 ''x'' demo_gen, OutNothing)]"
    using elev_reach.reach_step [OF _ demo_step1, of "[]"] by (simp add: demo_states_def elev_reach.reach_init)
  from code_life_cycle [OF r demo_step2, of "''AAAA-BBBB''" demo_entry "approved_entry 20 ''tok'' ''root'' demo_entry"]
  have "ce_commands (approved_entry 20 ''tok'' ''root'' demo_entry) = ce_commands demo_entry"
    by (simp add: demo_states_def)
  then show ?thesis by (simp add: demo_entry_def new_entry_def)
qed

theorem never_consumed_witness:
  "ce_status (approved_entry 20 ''tok'' ''root'' demo_entry) \<noteq> ST_CONSUMED \<and>
   \<not> entry_exhausted (approved_entry 20 ''tok'' ''root'' demo_entry)"
proof -
  have "ce_max_ops (approved_entry 20 ''tok'' ''root'' demo_entry) = 1"
    by (simp add: demo_entry_def new_entry_def demo_gen_def approved_entry_def)
  then show ?thesis
    using never_consumed [OF demo_reach(1), of "''AAAA-BBBB''" "approved_entry 20 ''tok'' ''root'' demo_entry"]
    by (simp add: demo_states_def)
qed

definition demo_elev_vp :: "string v2_primitives" where
  "demo_elev_vp = demo_vp\<lparr>vp_verify := \<lambda>pub m sig. m = canonical (PDict demo_payload)\<rparr>"

theorem root_runs_only_approved_witness:
  "\<exists>es args. mlog (snd (snd (handle_v2 demo_os demo_elev_vp demo_agent (demo_v2ctx 110)
       (demo_payload @ [(''signature'', PStr ''ok'')]) ([], \<lparr>mlog = [], mworld = 0\<rparr>)))) = es \<and>
     prefix es (plan (ag_registry demo_agent) ''nginx_reload'' args)"
proof -
  let ?st = "([] :: nonce_items, \<lparr>mlog = [], mworld = 0 :: nat\<rparr>)"
  have iss: "e = demo_entry" if "issued demo_trace tid u e" for tid u e
    using that by (auto simp: issued_def demo_trace_def)
  have cmds: "ce_commands demo_entry = [\<lparr>ec_command = ''nginx_reload'', ec_args = PList (map PStr [])\<rparr>]"
    by (simp add: demo_entry_def new_entry_def demo_gen_def)
  have key: "ag_pub_key demo_agent = Some ''k''" by (simp add: demo_agent_def)
  have unf: "\<exists>now ids tid i args sid payload sig'. m = canonical (PDict payload) \<and>
        (OpSign now ids tid i args sid, OutSigned (payload @ [(''signature'', PStr sig')])) \<in> set demo_trace"
    if "vp_verify demo_elev_vp ''k'' m sig" for m sig
    using that by (auto simp: demo_elev_vp_def demo_trace_def)
  have json: "wf_json id (ec_args c)" if "issued demo_trace tid u e" "c \<in> set (ce_commands e)" for tid u e c
    using iss [OF that(1)] that(2) cmds by auto
  have named: "tid \<noteq> []" if "issued demo_trace tid u e" for tid u e
    using that by (auto simp: issued_def demo_trace_def)
  from root_runs_only_approved [OF demo_reach(1) key unf json named, where os = demo_os and ctx = "demo_v2ctx 110"
      and raw = "demo_payload @ [(''signature'', PStr ''ok'')]" and st = ?st]
  show ?thesis by (fastforce dest: iss simp: cmds)
qed

end
