(* ===== verification/ScheduledTask.thy ===== *)
theory ScheduledTask
  imports Elevation
begin

text \<open>
  Scheduled tasks: the tables (\<open>gateway/dao/ScheduledTaskDaoOrm.py\<close>, \<open>gateway/orm/ScheduledTaskOrm.py\<close>),
  the service (\<open>gateway/service/ScheduledTaskService.py\<close>) and the scheduler it keeps up to date
  (\<open>gateway/scheduler/scheduler.py\<close>).

  Rows are only added, so the id of a new row is one more than their number.  The clock, the text of a
  new approval code, the cron library (whether it accepts an expression, and the next time) and the
  reading of float texts are the record \<open>sched_env\<close>.  \<open>runTask\<close> awaits the agent: its two halves are
  \<open>startRun\<close> and \<open>endRun\<close>, and other operations may come between them.  Texts shown to people are
  given in English.
\<close>

section \<open>Policies\<close>

record ScheduledTaskApprovalPolicy =
  ap_allowedTools :: "string list"
  ap_allowedCommands :: "string list"
  ap_allowedPaths :: "string list"
  ap_deniedPaths :: "string list"
  ap_allowedPrivilegedCommands :: "string list"
  ap_ttlSeconds :: int
  ap_maxRuns :: int

definition policy_valid :: "ScheduledTaskApprovalPolicy \<Rightarrow> bool" where
  "policy_valid p \<longleftrightarrow> 60 \<le> ap_ttlSeconds p \<and> ap_ttlSeconds p \<le> 30 * 24 * 3600 \<and> 1 \<le> ap_maxRuns p \<and> ap_maxRuns p \<le> 100000"

definition policy_dump :: "ScheduledTaskApprovalPolicy \<Rightarrow> pydict" where
  "policy_dump p =
     [(''allowedTools'', PList (map PStr (ap_allowedTools p))), (''allowedCommands'', PList (map PStr (ap_allowedCommands p))),
      (''allowedPaths'', PList (map PStr (ap_allowedPaths p))), (''deniedPaths'', PList (map PStr (ap_deniedPaths p))),
      (''allowedPrivilegedCommands'', PList (map PStr (ap_allowedPrivilegedCommands p))),
      (''ttlSeconds'', PInt (ap_ttlSeconds p)), (''maxRuns'', PInt (ap_maxRuns p))]"

record ScheduledTaskCreate =
  sb_name :: string
  sb_cronExpression :: string
  sb_taskDescription :: string
  sb_approvalPolicy :: "ScheduledTaskApprovalPolicy option"

record ScheduledTaskUpdate =
  su_name :: "string option"
  su_cronExpression :: "string option"
  su_taskDescription :: "string option"
  su_approvalPolicy :: "ScheduledTaskApprovalPolicy option"

section \<open>Tables\<close>

record ScheduledTaskOrm =
  sk_id :: int
  sk_name :: string
  sk_cronExpression :: string
  sk_taskDescription :: string
  sk_status :: string
  sk_createdBy :: int
  sk_approvalPolicy :: "string option"
  sk_approvalCode :: "string option"
  sk_approvalStatus :: "string option"
  sk_approvalApprovedAt :: "timestamp option"
  sk_approvalApprovedBy :: "string option"
  sk_approvalTokenId :: "string option"
  sk_approvalRejectedReason :: "string option"
  sk_nextRunAt :: "timestamp option"
  sk_lastRunAt :: "timestamp option"
  sk_createdAt :: timestamp
  sk_updatedAt :: timestamp

record ScheduledTaskRunOrm =
  sr_id :: int
  sr_taskId :: int
  sr_sessionId :: "string option"
  sr_status :: string
  sr_startedAt :: timestamp
  sr_finishedAt :: "timestamp option"
  sr_resultSummary :: "string option"
  sr_errorMessage :: "string option"
  sr_tokenUsage :: "string option"

record sched_env =
  se_now :: timestamp
  se_code :: string
  se_cron :: "string \<Rightarrow> bool"
  se_next :: "string \<Rightarrow> timestamp"
  se_frepr :: "string \<Rightarrow> string"

text \<open>\<open>sc_jobs\<close>: the tasks with a job, \<open>None\<close> when the scheduler is not started.\<close>

record sched =
  sc_tasks :: "ScheduledTaskOrm list"
  sc_runs :: "ScheduledTaskRunOrm list"
  sc_jobs :: "int list option"
  sc_elevation :: ElevationService

definition loadJson :: "(string \<Rightarrow> string) \<Rightarrow> string option \<Rightarrow> pyval option" where
  "loadJson frepr v = (case v of Some s \<Rightarrow> if s \<noteq> [] then loads frepr s else None | None \<Rightarrow> None)"

definition dao_createTask ::
  "sched_env \<Rightarrow> int \<Rightarrow> ScheduledTaskCreate \<Rightarrow> string \<Rightarrow> string option \<Rightarrow> ('a) sched_scheme \<Rightarrow> ScheduledTaskOrm \<times> 'a sched_scheme" where
  "dao_createTask env userId body status approvalStatus st =
     (let row = \<lparr>sk_id = int (length (sc_tasks st)) + 1, sk_name = sb_name body, sk_cronExpression = sb_cronExpression body,
            sk_taskDescription = sb_taskDescription body, sk_status = status, sk_createdBy = userId,
            sk_approvalPolicy = map_option (\<lambda>p. dumps False '', '' '': '' (PDict (policy_dump p))) (sb_approvalPolicy body),
            sk_approvalCode = None, sk_approvalStatus = approvalStatus, sk_approvalApprovedAt = None,
            sk_approvalApprovedBy = None, sk_approvalTokenId = None, sk_approvalRejectedReason = None,
            sk_nextRunAt = None, sk_lastRunAt = None, sk_createdAt = se_now env, sk_updatedAt = se_now env\<rparr>
      in (row, st\<lparr>sc_tasks := sc_tasks st @ [row]\<rparr>))"

text \<open>The filter of the queries: the task, and its owner when one is given.\<close>

definition owned :: "int \<Rightarrow> int option \<Rightarrow> ScheduledTaskOrm \<Rightarrow> bool" where
  "owned taskId userId t \<longleftrightarrow> sk_id t = taskId \<and> (case userId of None \<Rightarrow> True | Some u \<Rightarrow> sk_createdBy t = u)"

definition dao_getTask :: "int \<Rightarrow> int option \<Rightarrow> ('a) sched_scheme \<Rightarrow> ScheduledTaskOrm option" where
  "dao_getTask taskId userId st =
     find (owned taskId userId) (sc_tasks st)"

definition dao_listTasks :: "int option \<Rightarrow> string \<Rightarrow> bool \<Rightarrow> ('a) sched_scheme \<Rightarrow> ScheduledTaskOrm list" where
  "dao_listTasks userId status includeDeleted st =
     sort_key (\<lambda>t. - sk_createdAt t)
       (filter (\<lambda>t. (case userId of None \<Rightarrow> True | Some u \<Rightarrow> sk_createdBy t = u) \<and>
                    (if status \<noteq> [] then sk_status t = status else includeDeleted \<or> sk_status t \<noteq> ''deleted'')) (sc_tasks st))"

text \<open>\<open>updateTask\<close>: the new values are the function \<open>f\<close> on the row.\<close>

definition dao_updateTask ::
  "sched_env \<Rightarrow> int \<Rightarrow> int option \<Rightarrow> (ScheduledTaskOrm \<Rightarrow> ScheduledTaskOrm) \<Rightarrow> ('a) sched_scheme \<Rightarrow> nat \<times> 'a sched_scheme" where
  "dao_updateTask env taskId userId f st =
     (length (filter (owned taskId userId) (sc_tasks st)),
      st\<lparr>sc_tasks := map (\<lambda>t. if owned taskId userId t then (f t)\<lparr>sk_updatedAt := se_now env\<rparr> else t) (sc_tasks st)\<rparr>)"

definition dao_createRun :: "sched_env \<Rightarrow> int \<Rightarrow> ('a) sched_scheme \<Rightarrow> ScheduledTaskRunOrm \<times> 'a sched_scheme" where
  "dao_createRun env taskId st =
     (let row = \<lparr>sr_id = int (length (sc_runs st)) + 1, sr_taskId = taskId, sr_sessionId = None, sr_status = ''running'',
            sr_startedAt = se_now env, sr_finishedAt = None, sr_resultSummary = None, sr_errorMessage = None, sr_tokenUsage = None\<rparr>
      in (row, st\<lparr>sc_runs := sc_runs st @ [row]\<rparr>))"

definition dao_finishRun ::
  "sched_env \<Rightarrow> int \<Rightarrow> string option \<Rightarrow> string \<Rightarrow> string option \<Rightarrow> string option \<Rightarrow> pydict option \<Rightarrow> ('a) sched_scheme \<Rightarrow> 'a sched_scheme" where
  "dao_finishRun env runId sessionId status resultSummary errorMessage tokenUsage st =
     st\<lparr>sc_runs := map (\<lambda>r. if sr_id r = runId then
          r\<lparr>sr_sessionId := sessionId, sr_status := status, sr_finishedAt := Some (se_now env), sr_resultSummary := resultSummary,
            sr_errorMessage := errorMessage, sr_tokenUsage := map_option (\<lambda>d. dumps False '', '' '': '' (PDict d)) tokenUsage\<rparr>
          else r) (sc_runs st)\<rparr>"

definition dao_getRun :: "int \<Rightarrow> ('a) sched_scheme \<Rightarrow> ScheduledTaskRunOrm option" where
  "dao_getRun runId st = find (\<lambda>r. sr_id r = runId) (sc_runs st)"

definition dao_listRuns :: "int \<Rightarrow> nat \<Rightarrow> ('a) sched_scheme \<Rightarrow> ScheduledTaskRunOrm list" where
  "dao_listRuns taskId limit st = take limit (sort_key (\<lambda>r. - sr_startedAt r) (filter (\<lambda>r. sr_taskId r = taskId) (sc_runs st)))"

definition findRunBySessionId :: "string \<Rightarrow> ('a) sched_scheme \<Rightarrow> ScheduledTaskRunOrm option" where
  "findRunBySessionId sessionId st =
     (case sort_key (\<lambda>r. - sr_startedAt r) (filter (\<lambda>r. sr_sessionId r = Some sessionId) (sc_runs st)) of
        r # _ \<Rightarrow> Some r | [] \<Rightarrow> None)"

section \<open>Scheduler\<close>

definition validateCronExpression :: "sched_env \<Rightarrow> string \<Rightarrow> bool" where
  "validateCronExpression env cron \<longleftrightarrow> length (split_ws cron) = 5 \<and> se_cron env cron"

definition scheduleTask :: "sched_env \<Rightarrow> ScheduledTaskOrm \<Rightarrow> ('a) sched_scheme \<Rightarrow> 'a sched_scheme" where
  "scheduleTask env task st =
     (case sc_jobs st of
        None \<Rightarrow> st
      | Some jobs \<Rightarrow>
          if validateCronExpression env (sk_cronExpression task)
          then snd (dao_updateTask env (sk_id task) None (\<lambda>t. t\<lparr>sk_nextRunAt := Some (se_next env (sk_cronExpression task))\<rparr>)
                 (st\<lparr>sc_jobs := Some (List.insert (sk_id task) jobs)\<rparr>))
          else st)"

definition removeTask :: "int \<Rightarrow> ('a) sched_scheme \<Rightarrow> 'a sched_scheme" where
  "removeTask taskId st = st\<lparr>sc_jobs := map_option (filter (\<lambda>i. i \<noteq> taskId)) (sc_jobs st)\<rparr>"

definition refreshTask :: "sched_env \<Rightarrow> ScheduledTaskOrm \<Rightarrow> ('a) sched_scheme \<Rightarrow> 'a sched_scheme" where
  "refreshTask env task st =
     (let st = removeTask (sk_id task) st in if sk_status task = ''active'' then scheduleTask env task st else st)"

definition reloadTasks :: "sched_env \<Rightarrow> ('a) sched_scheme \<Rightarrow> 'a sched_scheme" where
  "reloadTasks env st = foldl (\<lambda>st task. scheduleTask env task st) st (dao_listTasks None ''active'' False st)"

section \<open>Service\<close>

datatype svc_error = InvalidParam | DataBaseError

definition getTaskOrRaise :: "int \<Rightarrow> int option \<Rightarrow> ('a) sched_scheme \<Rightarrow> svc_error + ScheduledTaskOrm" where
  "getTaskOrRaise taskId userId st =
     (case dao_getTask taskId userId st of
        Some t \<Rightarrow> if sk_status t = ''deleted'' then Inl InvalidParam else Inr t
      | None \<Rightarrow> Inl InvalidParam)"

text \<open>
  \<open>task.approvalPolicy or {}\<close>; the column is written from dicts only.  \<open>int(policy.get(k) or d)\<close> of
  a policy, whose numbers are integers.
\<close>

definition task_policy :: "(string \<Rightarrow> string) \<Rightarrow> ScheduledTaskOrm \<Rightarrow> pydict" where
  "task_policy frepr t = (case loadJson frepr (sk_approvalPolicy t) of Some (PDict d) \<Rightarrow> d | _ \<Rightarrow> [])"

definition policy_number :: "pydict \<Rightarrow> string \<Rightarrow> int \<Rightarrow> int" where
  "policy_number policy key dflt = (case dget policy key of PInt n \<Rightarrow> if n \<noteq> 0 then n else dflt | _ \<Rightarrow> dflt)"

definition task_session :: "int \<Rightarrow> string" where
  "task_session taskId = ''scheduled_task:'' @ str_of_int taskId"

definition issueApprovalCode ::
  "sched_env \<Rightarrow> int \<Rightarrow> ('a) sched_scheme \<Rightarrow> (svc_error + ScheduledTaskOrm) \<times> 'a sched_scheme" where
  "issueApprovalCode env taskId st =
     (case getTaskOrRaise taskId None st of
        Inl e \<Rightarrow> (Inl e, st)
      | Inr task \<Rightarrow>
          (let policy = task_policy (se_frepr env) task;
               (entry, el) = generate_code (se_now env) (se_code env)
                 \<lparr>gr_session_id = task_session taskId, gr_commands = [], gr_reason = ''scheduled task: '' @ sk_name task,
                  gr_ttl_seconds = policy_number policy ''ttlSeconds'' 3600, gr_max_ops = policy_number policy ''maxRuns'' 100,
                  gr_code = None, gr_inline_cmd = None, gr_inline_cmd_hash = None, gr_script_path = None, gr_script_hash = None,
                  gr_request_type = ''scheduled_task_policy'', gr_task_id = Some taskId, gr_approval_policy = Some policy,
                  gr_expire_previous = True\<rparr> (sc_elevation st);
               st = st\<lparr>sc_elevation := el\<rparr>;
               (_, st) = dao_updateTask env taskId None (\<lambda>t. t\<lparr>sk_approvalCode := Some (ce_code entry),
                  sk_approvalStatus := Some ''pending'', sk_approvalRejectedReason := None\<rparr>) st
           in (getTaskOrRaise taskId None st, st)))"

definition createTask ::
  "sched_env \<Rightarrow> int \<Rightarrow> ScheduledTaskCreate \<Rightarrow> ('a) sched_scheme \<Rightarrow> (svc_error + ScheduledTaskOrm) \<times> 'a sched_scheme" where
  "createTask env userId body st =
     (if \<not> validateCronExpression env (sb_cronExpression body) then (Inl InvalidParam, st)
      else
        (let requires_approval = (sb_approvalPolicy body \<noteq> None);
             (task, st) = dao_createTask env userId body (if requires_approval then ''pending_approval'' else ''active'')
                            (if requires_approval then Some ''pending'' else None) st
         in if requires_approval
            then (case issueApprovalCode env (sk_id task) st of (Inl e, st) \<Rightarrow> (Inl DataBaseError, st) | r \<Rightarrow> r)
            else (Inr task, refreshTask env task st)))"

definition apply_update :: "ScheduledTaskUpdate \<Rightarrow> ScheduledTaskOrm \<Rightarrow> ScheduledTaskOrm" where
  "apply_update body t =
     (let t = (case su_name body of Some v \<Rightarrow> t\<lparr>sk_name := v\<rparr> | None \<Rightarrow> t);
          t = (case su_cronExpression body of Some v \<Rightarrow> t\<lparr>sk_cronExpression := v\<rparr> | None \<Rightarrow> t);
          t = (case su_taskDescription body of Some v \<Rightarrow> t\<lparr>sk_taskDescription := v\<rparr> | None \<Rightarrow> t)
      in case su_approvalPolicy body of
           None \<Rightarrow> t
         | Some p \<Rightarrow> t\<lparr>sk_approvalPolicy := Some (dumps False '', '' '': '' (PDict (policy_dump p))), sk_status := ''pending_approval'',
             sk_nextRunAt := None, sk_approvalStatus := Some ''pending'', sk_approvalApprovedAt := None,
             sk_approvalApprovedBy := None, sk_approvalTokenId := None, sk_approvalRejectedReason := None\<rparr>)"

definition updateTask ::
  "sched_env \<Rightarrow> int \<Rightarrow> int option \<Rightarrow> ScheduledTaskUpdate \<Rightarrow> ('a) sched_scheme \<Rightarrow> (svc_error + ScheduledTaskOrm) \<times> 'a sched_scheme" where
  "updateTask env taskId userId body st =
     (if (case su_cronExpression body of Some c \<Rightarrow> \<not> validateCronExpression env c | None \<Rightarrow> False) then (Inl InvalidParam, st)
      else if su_name body = None \<and> su_cronExpression body = None \<and> su_taskDescription body = None \<and> su_approvalPolicy body = None
      then (getTaskOrRaise taskId userId st, st)
      else
        (let (count, st') = dao_updateTask env taskId userId (apply_update body) st in
         if count = 0 then (Inl InvalidParam, st)
         else
           (case getTaskOrRaise taskId userId st' of
              Inl e \<Rightarrow> (Inl e, st')
            | Inr task \<Rightarrow>
                if su_approvalPolicy body \<noteq> None then issueApprovalCode env taskId (removeTask taskId st')
                else (Inr task, refreshTask env task st'))))"

definition pauseTask :: "sched_env \<Rightarrow> int \<Rightarrow> int option \<Rightarrow> ('a) sched_scheme \<Rightarrow> (svc_error + ScheduledTaskOrm) \<times> 'a sched_scheme" where
  "pauseTask env taskId userId st =
     (case getTaskOrRaise taskId userId st of
        Inl e \<Rightarrow> (Inl e, st)
      | Inr task \<Rightarrow>
          (let (_, st) = dao_updateTask env (sk_id task) userId (\<lambda>t. t\<lparr>sk_status := ''paused'', sk_nextRunAt := None\<rparr>) st
           in case getTaskOrRaise taskId userId st of
                Inl e \<Rightarrow> (Inl e, st)
              | Inr updated \<Rightarrow> (Inr updated, removeTask taskId st)))"

definition resumeTask :: "sched_env \<Rightarrow> int \<Rightarrow> int option \<Rightarrow> ('a) sched_scheme \<Rightarrow> (svc_error + ScheduledTaskOrm) \<times> 'a sched_scheme" where
  "resumeTask env taskId userId st =
     (case getTaskOrRaise taskId userId st of
        Inl e \<Rightarrow> (Inl e, st)
      | Inr task \<Rightarrow>
          (let (_, st) = dao_updateTask env (sk_id task) userId (\<lambda>t. t\<lparr>sk_status := ''active''\<rparr>) st
           in case getTaskOrRaise taskId userId st of
                Inl e \<Rightarrow> (Inl e, st)
              | Inr updated \<Rightarrow> (Inr updated, refreshTask env updated st)))"

definition deleteTask :: "sched_env \<Rightarrow> int \<Rightarrow> int option \<Rightarrow> ('a) sched_scheme \<Rightarrow> svc_error option \<times> 'a sched_scheme" where
  "deleteTask env taskId userId st =
     (case getTaskOrRaise taskId userId st of
        Inl e \<Rightarrow> (Some e, st)
      | Inr task \<Rightarrow>
          (None, removeTask taskId
             (snd (dao_updateTask env (sk_id task) userId (\<lambda>t. t\<lparr>sk_status := ''deleted'', sk_nextRunAt := None\<rparr>) st))))"

text \<open>The first half of \<open>runTask\<close>: the run row and the task the agent is started for.\<close>

definition startRun ::
  "sched_env \<Rightarrow> int \<Rightarrow> ('a) sched_scheme \<Rightarrow> (svc_error + ScheduledTaskRunOrm \<times> ScheduledTaskOrm) \<times> 'a sched_scheme" where
  "startRun env taskId st =
     (case getTaskOrRaise taskId None st of
        Inl e \<Rightarrow> (Inl e, st)
      | Inr task \<Rightarrow>
          if sk_status task = ''pending_approval'' then (Inl InvalidParam, st)
          else (let (run, st) = dao_createRun env (sk_id task) st in (Inr (run, task), st)))"

text \<open>What the agent delivers, \<open>Inl\<close> the text of the exception.\<close>

record run_result =
  rr_sessionId :: string
  rr_status :: string
  rr_summary :: "string option"
  rr_errorMessage :: "string option"
  rr_tokenUsage :: "pydict option"

definition endRun ::
  "sched_env \<Rightarrow> int \<Rightarrow> int \<Rightarrow> string + run_result \<Rightarrow> ('a) sched_scheme \<Rightarrow> ScheduledTaskRunOrm option \<times> 'a sched_scheme" where
  "endRun env runId taskId result st =
     (case result of
        Inl e \<Rightarrow> (None, dao_finishRun env runId None ''error'' None (Some e) None st)
      | Inr r \<Rightarrow>
          (let st = dao_finishRun env runId (Some (rr_sessionId r)) (rr_status r) (rr_summary r) (rr_errorMessage r) (rr_tokenUsage r) st;
               (_, st) = dao_updateTask env taskId None (\<lambda>t. t\<lparr>sk_lastRunAt := Some (se_now env)\<rparr>) st
           in (dao_getRun runId st, st)))"

definition reissueApproval :: "sched_env \<Rightarrow> int \<Rightarrow> ('a) sched_scheme \<Rightarrow> (svc_error + ScheduledTaskOrm) \<times> 'a sched_scheme" where
  "reissueApproval env taskId st =
     (case getTaskOrRaise taskId None st of
        Inl e \<Rightarrow> (Inl e, st)
      | Inr task \<Rightarrow>
          if sk_status task \<noteq> ''pending_approval'' then (Inl InvalidParam, st)
          else if task_policy (se_frepr env) task = [] then (Inl InvalidParam, st)
          else issueApprovalCode env taskId st)"

definition approveScheduledTaskPolicy ::
  "sched_env \<Rightarrow> int \<Rightarrow> string \<Rightarrow> string \<Rightarrow> ('a) sched_scheme \<Rightarrow> bool \<times> 'a sched_scheme" where
  "approveScheduledTaskPolicy env taskId approvedBy tokenId st =
     (case dao_getTask taskId None st of
        None \<Rightarrow> (False, st)
      | Some task \<Rightarrow>
          if sk_status task \<noteq> ''pending_approval'' then (False, st)
          else
            (let (_, st) = dao_updateTask env taskId None (\<lambda>t. t\<lparr>sk_status := ''active'', sk_approvalStatus := Some ''approved'',
                   sk_approvalApprovedAt := Some (se_now env), sk_approvalApprovedBy := Some approvedBy,
                   sk_approvalTokenId := Some tokenId, sk_approvalRejectedReason := None\<rparr>) st
             in case getTaskOrRaise taskId None st of
                  Inr updated \<Rightarrow> (True, refreshTask env updated st)
                | Inl e \<Rightarrow> (True, st)))"

definition rejectScheduledTaskPolicy :: "sched_env \<Rightarrow> int \<Rightarrow> string \<Rightarrow> ('a) sched_scheme \<Rightarrow> bool \<times> 'a sched_scheme" where
  "rejectScheduledTaskPolicy env taskId reason st =
     (case dao_getTask taskId None st of
        None \<Rightarrow> (False, st)
      | Some task \<Rightarrow>
          if sk_status task \<noteq> ''pending_approval'' then (False, st)
          else (True, removeTask taskId (snd (dao_updateTask env taskId None
                 (\<lambda>t. t\<lparr>sk_approvalStatus := Some ''rejected'', sk_approvalRejectedReason := Some reason\<rparr>) st))))"

section \<open>The state machine\<close>

text \<open>\<open>SGrant\<close>: an approved authorization request is written back into the policy of the task.\<close>

datatype sched_op =
    SCreate int ScheduledTaskCreate
  | SUpdate int "int option" ScheduledTaskUpdate
  | SPause int "int option"
  | SResume int "int option"
  | SDelete int "int option"
  | SStart int
  | SEnd int int "string + run_result"
  | SReissue int
  | SApprove int string string
  | SReject int string
  | SGrant int string

fun sched_step :: "sched_env \<Rightarrow> sched_op \<Rightarrow> ('a) sched_scheme \<Rightarrow> 'a sched_scheme" where
  "sched_step env (SCreate u body) st = snd (createTask env u body st)"
| "sched_step env (SUpdate i u body) st = snd (updateTask env i u body st)"
| "sched_step env (SPause i u) st = snd (pauseTask env i u st)"
| "sched_step env (SResume i u) st = snd (resumeTask env i u st)"
| "sched_step env (SDelete i u) st = snd (deleteTask env i u st)"
| "sched_step env (SStart i) st = snd (startRun env i st)"
| "sched_step env (SEnd r i res) st = snd (endRun env r i res st)"
| "sched_step env (SReissue i) st = snd (reissueApproval env i st)"
| "sched_step env (SApprove i who tok) st = snd (approveScheduledTaskPolicy env i who tok st)"
| "sched_step env (SReject i reason) st = snd (rejectScheduledTaskPolicy env i reason st)"
| "sched_step env (SGrant i policy) st = snd (dao_updateTask env i None (\<lambda>t. t\<lparr>sk_approvalPolicy := Some policy\<rparr>) st)"

text \<open>Pausing and resuming a task that waits for its approval would end the waiting.\<close>

definition waits :: "int \<Rightarrow> int option \<Rightarrow> ('a) sched_scheme \<Rightarrow> bool" where
  "waits i u st \<longleftrightarrow> (\<exists>t. getTaskOrRaise i u st = Inr t \<and> sk_status t = ''pending_approval'')"

fun careful :: "sched_op \<Rightarrow> ('a) sched_scheme \<Rightarrow> bool" where
  "careful (SPause i u) st = (\<not> waits i u st)"
| "careful (SResume i u) st = (\<not> waits i u st)"
| "careful op st = True"

inductive sched_reach :: "sched \<Rightarrow> sched_op list \<Rightarrow> bool" where
  sched_init: "sc_tasks st = [] \<Longrightarrow> sc_runs st = [] \<Longrightarrow> sched_reach st []"
| sched_more: "sched_reach st ops \<Longrightarrow> careful op st \<Longrightarrow> sched_reach (sched_step env op st) (ops @ [op])"

section \<open>Lemmas\<close>

definition task_approved :: "sched_op list \<Rightarrow> ScheduledTaskOrm \<Rightarrow> bool" where
  "task_approved ops t \<longleftrightarrow>
     sk_status t \<in> {''active'', ''paused'', ''pending_approval'', ''deleted''} \<and>
     (sk_approvalStatus t = Some ''approved'' \<longrightarrow>
        (\<exists>who tok. sk_approvalTokenId t = Some tok \<and> SApprove (sk_id t) who tok \<in> set ops)) \<and>
     (sk_status t \<in> {''active'', ''paused''} \<and> sk_approvalPolicy t \<noteq> None \<longrightarrow>
        sk_approvalStatus t = Some ''approved'' \<or> (\<exists>p. SGrant (sk_id t) p \<in> set ops))"

definition ids_ok :: "('a) sched_scheme \<Rightarrow> bool" where
  "ids_ok st \<longleftrightarrow> distinct (map sk_id (sc_tasks st)) \<and> list_all (\<lambda>i. i \<le> int (length (sc_tasks st))) (map sk_id (sc_tasks st))"

definition sched_ok :: "sched_op list \<Rightarrow> ('a) sched_scheme \<Rightarrow> bool" where
  "sched_ok ops st \<longleftrightarrow> ids_ok st \<and> list_all (task_approved ops) (sc_tasks st)"

lemma task_approved_mono: "task_approved ops t \<Longrightarrow> task_approved (ops @ ops2) t"
  by (auto simp: task_approved_def)

lemma sched_ok_mono: "sched_ok ops st \<Longrightarrow> sched_ok (ops @ ops2) st"
  by (auto simp: sched_ok_def list_all_iff task_approved_mono)

lemma sched_ok_fields [simp]:
  "sched_ok ops (st\<lparr>sc_jobs := j\<rparr>) = sched_ok ops st" "sched_ok ops (st\<lparr>sc_runs := r\<rparr>) = sched_ok ops st"
  "sched_ok ops (st\<lparr>sc_elevation := e\<rparr>) = sched_ok ops st" "sched_ok ops (removeTask i st) = sched_ok ops st"
  by (simp_all add: sched_ok_def ids_ok_def removeTask_def)

text \<open>An update keeps the invariant when the rows it hits keep their id and stay approved.\<close>

lemma sched_ok_update:
  assumes "sched_ok ops st" "\<And>t. sk_id (f t) = sk_id t"
    and "\<And>t. t \<in> set (sc_tasks st) \<Longrightarrow> owned i u t \<Longrightarrow> task_approved ops t \<Longrightarrow> task_approved ops (f t)"
  shows "sched_ok ops (snd (dao_updateTask env i u f st))"
proof -
  let ?g = "\<lambda>t. if owned i u t then (f t)\<lparr>sk_updatedAt := se_now env\<rparr> else t"
  have g: "sk_id (?g t) = sk_id t" for t using assms(2) by simp
  then have ids: "map sk_id (map ?g (sc_tasks st)) = map sk_id (sc_tasks st)" by (simp add: comp_def)
  have up: "task_approved ops (t\<lparr>sk_updatedAt := x\<rparr>) = task_approved ops t" for t x by (simp add: task_approved_def)
  have "list_all (task_approved ops) (map ?g (sc_tasks st))"
    using assms(1,3) by (auto simp: sched_ok_def list_all_iff up)
  moreover have "ids_ok (st\<lparr>sc_tasks := map ?g (sc_tasks st)\<rparr>)"
    using assms(1) by (simp add: sched_ok_def ids_ok_def ids del: map_map split del: if_split)
  ultimately show ?thesis by (simp add: dao_updateTask_def sched_ok_def)
qed

lemma found_task:
  assumes "sched_ok ops st" "dao_getTask i u st = Some t"
  shows "t \<in> set (sc_tasks st)" "sk_id t = i" "t' \<in> set (sc_tasks st) \<Longrightarrow> sk_id t' = i \<Longrightarrow> t' = t"
proof -
  show t: "t \<in> set (sc_tasks st)" "sk_id t = i"
    using assms(2) by (auto simp: dao_getTask_def find_Some_iff owned_def)
  show "t' = t" if "t' \<in> set (sc_tasks st)" "sk_id t' = i"
    using assms(1) t that by (auto simp: sched_ok_def ids_ok_def distinct_map inj_on_def)
qed

lemma getTaskOrRaise_Inr:
  "getTaskOrRaise i u st = Inr t \<longleftrightarrow> dao_getTask i u st = Some t \<and> sk_status t \<noteq> ''deleted''"
  by (auto simp: getTaskOrRaise_def split: option.splits)

lemma sched_ok_scheduleTask: "sched_ok ops st \<Longrightarrow> sched_ok ops (scheduleTask env t st)"
  by (auto simp: scheduleTask_def task_approved_def split: option.splits intro!: sched_ok_update)

lemma sched_ok_refreshTask: "sched_ok ops st \<Longrightarrow> sched_ok ops (refreshTask env t st)"
  by (simp add: refreshTask_def Let_def sched_ok_scheduleTask)

lemma sched_ok_issueApprovalCode:
  assumes "sched_ok ops st" "\<And>t. dao_getTask i None st = Some t \<Longrightarrow> sk_status t = ''pending_approval''"
  shows "sched_ok ops (snd (issueApprovalCode env i st))"
proof (cases "getTaskOrRaise i None st")
  case (Inr task)
  then have g: "dao_getTask i None st = Some task" by (simp add: getTaskOrRaise_Inr)
  have "sched_ok ops (snd (dao_updateTask env i None (\<lambda>t. t\<lparr>sk_approvalCode := c, sk_approvalStatus := Some ''pending'',
      sk_approvalRejectedReason := None\<rparr>) (st\<lparr>sc_elevation := e\<rparr>)))" for c e
  proof (rule sched_ok_update)
    fix t assume "t \<in> set (sc_tasks (st\<lparr>sc_elevation := e\<rparr>))" "owned i None t"
    then have "t = task" using found_task(3) [OF assms(1) g] by (simp add: owned_def)
    then show "task_approved ops (t\<lparr>sk_approvalCode := c, sk_approvalStatus := Some ''pending'', sk_approvalRejectedReason := None\<rparr>)"
      using assms(2) [OF g] by (simp add: task_approved_def)
  qed (use assms(1) in simp_all)
  then show ?thesis using Inr by (simp add: issueApprovalCode_def Let_def case_prod_unfold)
qed (use assms(1) in \<open>simp add: issueApprovalCode_def\<close>)

lemma sched_ok_createTask:
  assumes "sched_ok ops st"
  shows "sched_ok ops (snd (createTask env u body st))"
proof -
  let ?pol = "sb_approvalPolicy body \<noteq> None"
  obtain task st1 where c: "dao_createTask env u body (if ?pol then ''pending_approval'' else ''active'') (if ?pol then Some ''pending'' else None) st = (task, st1)"
    by (metis prod.collapse)
  then have st1: "st1 = st\<lparr>sc_tasks := sc_tasks st @ [task]\<rparr>" and id: "sk_id task = int (length (sc_tasks st)) + 1"
    and stat: "sk_status task = (if ?pol then ''pending_approval'' else ''active'')" "sk_approvalPolicy task = None \<longleftrightarrow> \<not> ?pol"
      "sk_approvalStatus task = (if ?pol then Some ''pending'' else None)"
    by (auto simp: dao_createTask_def Let_def)
  have "task_approved ops task" using stat by (auto simp: task_approved_def)
  moreover have "ids_ok st1"
    using assms by (auto simp: sched_ok_def ids_ok_def st1 id list_all_iff)
  ultimately have ok: "sched_ok ops st1" using assms by (simp add: sched_ok_def st1)
  have "dao_getTask (sk_id task) None st1 = Some t \<Longrightarrow> t = task" for t
    using found_task(3) [OF ok] by (auto simp: st1)
  then have "sched_ok ops (snd (issueApprovalCode env (sk_id task) st1))" if ?pol
    using that stat(1) by (intro sched_ok_issueApprovalCode [OF ok]) auto
  then show ?thesis
    unfolding createTask_def Let_def c
    using assms sched_ok_refreshTask [OF ok] by (auto split: prod.splits sum.splits)
qed

lemma apply_update_id [simp]: "sk_id (apply_update body t) = sk_id t"
  by (simp add: apply_update_def Let_def split: option.splits)

lemma apply_update_createdBy [simp]: "sk_createdBy (apply_update body t) = sk_createdBy t"
  by (simp add: apply_update_def Let_def split: option.splits)

lemma task_approved_apply_update: "task_approved ops t \<Longrightarrow> task_approved ops (apply_update body t)"
  by (auto simp: apply_update_def task_approved_def Let_def split: option.splits)

lemma status_apply_update: "su_approvalPolicy body \<noteq> None \<Longrightarrow> sk_status (apply_update body t) = ''pending_approval''"
  by (auto simp: apply_update_def Let_def)

lemma getTask_updateTask:
  assumes "\<And>t. sk_id (f t) = sk_id t" "\<And>t. sk_createdBy (f t) = sk_createdBy t"
  shows "dao_getTask i u (snd (dao_updateTask env i u f st)) = map_option (\<lambda>t. (f t)\<lparr>sk_updatedAt := se_now env\<rparr>) (dao_getTask i u st)"
proof -
  let ?g = "\<lambda>t. if owned i u t then (f t)\<lparr>sk_updatedAt := se_now env\<rparr> else t"
  have o: "owned i u ((f t)\<lparr>sk_updatedAt := se_now env\<rparr>) = owned i u t" for t
    using assms by (cases u) (simp_all add: owned_def)
  have "find (owned i u) (map ?g ts) = map_option (\<lambda>t. (f t)\<lparr>sk_updatedAt := se_now env\<rparr>) (find (owned i u) ts)" for ts
    by (induction ts) (simp_all add: o)
  then show ?thesis by (simp add: dao_getTask_def dao_updateTask_def)
qed

lemma sched_ok_updateTask:
  assumes "sched_ok ops st"
  shows "sched_ok ops (snd (updateTask env i u body st))"
proof -
  let ?st = "snd (dao_updateTask env i u (apply_update body) st)"
  have ok: "sched_ok ops ?st" by (rule sched_ok_update [OF assms]) (simp_all add: task_approved_apply_update)
  have iss: "sched_ok ops (snd (issueApprovalCode env i (removeTask i ?st)))"
    if "su_approvalPolicy body \<noteq> None" "dao_getTask i u ?st = Some task" for task
  proof (rule sched_ok_issueApprovalCode)
    fix t assume t: "dao_getTask i None (removeTask i ?st) = Some t"
    have "dao_getTask i None ?st = Some t" using t by (simp add: dao_getTask_def removeTask_def)
    from found_task(1,2) [OF ok this] have "t = task" by (rule found_task(3) [OF ok that(2)])
    moreover have "sk_status task = ''pending_approval''"
      using that by (auto simp: getTask_updateTask status_apply_update)
    ultimately show "sk_status t = ''pending_approval''" by simp
  qed (use ok in simp)
  show ?thesis
    using assms ok iss sched_ok_refreshTask [OF ok]
    by (auto simp: updateTask_def Let_def case_prod_unfold getTaskOrRaise_Inr split: sum.splits)
qed

lemma sched_ok_guarded_update:
  assumes "sched_ok ops st" "getTaskOrRaise i u st = Inr task" "\<And>t. sk_id (f t) = sk_id t"
    and "task_approved ops task \<Longrightarrow> task_approved ops (f task)"
  shows "sched_ok ops (snd (dao_updateTask env (sk_id task) u f st))"
proof (rule sched_ok_update [OF assms(1,3)])
  fix t assume t: "t \<in> set (sc_tasks st)" "owned (sk_id task) u t" "task_approved ops t"
  have g: "dao_getTask i u st = Some task" using assms(2) by (simp add: getTaskOrRaise_Inr)
  from t(2) found_task(2) [OF assms(1) g] have "sk_id t = i" by (simp add: owned_def)
  from found_task(3) [OF assms(1) g t(1) this] t(3) assms(4) show "task_approved ops (f t)" by simp
qed

lemma sched_ok_pauseTask:
  assumes "sched_ok ops st" "\<not> waits i u st"
  shows "sched_ok ops (snd (pauseTask env i u st))"
proof (cases "getTaskOrRaise i u st")
  case (Inr task)
  then have "sk_status task \<noteq> ''pending_approval''" "sk_status task \<noteq> ''deleted''"
    using assms(2) by (auto simp: waits_def getTaskOrRaise_Inr)
  then have "sched_ok ops (snd (dao_updateTask env (sk_id task) u (\<lambda>t. t\<lparr>sk_status := ''paused'', sk_nextRunAt := None\<rparr>) st))"
    by (intro sched_ok_guarded_update [OF assms(1) Inr]) (auto simp: task_approved_def)
  with Inr show ?thesis by (auto simp: pauseTask_def Let_def case_prod_unfold split: sum.splits)
qed (use assms in \<open>simp add: pauseTask_def\<close>)

lemma sched_ok_resumeTask:
  assumes "sched_ok ops st" "\<not> waits i u st"
  shows "sched_ok ops (snd (resumeTask env i u st))"
proof (cases "getTaskOrRaise i u st")
  case (Inr task)
  then have "sk_status task \<noteq> ''pending_approval''" "sk_status task \<noteq> ''deleted''"
    using assms(2) by (auto simp: waits_def getTaskOrRaise_Inr)
  then have "sched_ok ops (snd (dao_updateTask env (sk_id task) u (\<lambda>t. t\<lparr>sk_status := ''active''\<rparr>) st))"
    by (intro sched_ok_guarded_update [OF assms(1) Inr]) (auto simp: task_approved_def)
  with Inr show ?thesis by (auto simp: resumeTask_def Let_def case_prod_unfold sched_ok_refreshTask split: sum.splits)
qed (use assms in \<open>simp add: resumeTask_def\<close>)

lemma sched_ok_deleteTask:
  assumes "sched_ok ops st"
  shows "sched_ok ops (snd (deleteTask env i u st))"
proof (cases "getTaskOrRaise i u st")
  case (Inr task)
  have "sched_ok ops (snd (dao_updateTask env (sk_id task) u (\<lambda>t. t\<lparr>sk_status := ''deleted'', sk_nextRunAt := None\<rparr>) st))"
    by (intro sched_ok_guarded_update [OF assms(1) Inr]) (auto simp: task_approved_def)
  with Inr show ?thesis by (simp add: deleteTask_def)
qed (use assms in \<open>simp add: deleteTask_def\<close>)

lemma sched_ok_endRun: "sched_ok ops st \<Longrightarrow> sched_ok ops (snd (endRun env r i res st))"
  by (auto simp: endRun_def dao_finishRun_def Let_def case_prod_unfold task_approved_def split: sum.splits intro!: sched_ok_update)

lemma sched_ok_reissueApproval:
  assumes "sched_ok ops st"
  shows "sched_ok ops (snd (reissueApproval env i st))"
proof (cases "getTaskOrRaise i None st")
  case (Inr task)
  then have "sk_status task = ''pending_approval'' \<Longrightarrow> sched_ok ops (snd (issueApprovalCode env i st))"
    by (intro sched_ok_issueApprovalCode [OF assms]) (simp add: getTaskOrRaise_Inr)
  with assms Inr show ?thesis by (simp add: reissueApproval_def)
qed (use assms in \<open>simp add: reissueApproval_def\<close>)

lemma sched_ok_approve:
  assumes "sched_ok ops st"
  shows "sched_ok (ops @ [SApprove i who tok]) (snd (approveScheduledTaskPolicy env i who tok st))"
proof -
  let ?ops = "ops @ [SApprove i who tok]"
  have "sched_ok ?ops (snd (dao_updateTask env i None (\<lambda>t. t\<lparr>sk_status := ''active'', sk_approvalStatus := Some ''approved'',
      sk_approvalApprovedAt := Some (se_now env), sk_approvalApprovedBy := Some who,
      sk_approvalTokenId := Some tok, sk_approvalRejectedReason := None\<rparr>) st))"
    by (rule sched_ok_update [OF sched_ok_mono [OF assms]]) (auto simp: task_approved_def owned_def)
  with sched_ok_mono [OF assms] show ?thesis
    by (auto simp: approveScheduledTaskPolicy_def Let_def case_prod_unfold sched_ok_refreshTask split: option.splits sum.splits)
qed

lemma sched_ok_reject:
  assumes "sched_ok ops st"
  shows "sched_ok ops (snd (rejectScheduledTaskPolicy env i reason st))"
proof (cases "dao_getTask i None st")
  case (Some task)
  have "sched_ok ops (snd (dao_updateTask env i None (\<lambda>t. t\<lparr>sk_approvalStatus := Some ''rejected'', sk_approvalRejectedReason := Some reason\<rparr>) st))"
    if "sk_status task = ''pending_approval''"
  proof -
    from that Some have "getTaskOrRaise i None st = Inr task" by (simp add: getTaskOrRaise_Inr)
    from sched_ok_guarded_update [OF assms this] that found_task(2) [OF assms Some] show ?thesis
      by (auto simp: task_approved_def)
  qed
  with assms Some show ?thesis by (simp add: rejectScheduledTaskPolicy_def)
qed (use assms in \<open>simp add: rejectScheduledTaskPolicy_def\<close>)

lemma sched_ok_write_back:
  assumes "sched_ok ops st"
  shows "sched_ok (ops @ [SGrant i p]) (snd (dao_updateTask env i None (\<lambda>t. t\<lparr>sk_approvalPolicy := Some p\<rparr>) st))"
  by (rule sched_ok_update [OF sched_ok_mono [OF assms]]) (auto simp: task_approved_def owned_def)

lemma sched_ok_step:
  fixes st :: "'a sched_scheme"
  assumes "sched_ok ops st" "careful op st"
  shows "sched_ok (ops @ [op]) (sched_step env op st)"
proof -
  have mono: "sched_ok ops st' \<Longrightarrow> sched_ok (ops @ [op]) st'" for st' :: "'a sched_scheme" by (rule sched_ok_mono)
  show ?thesis
  proof (cases op)
    case (SStart i)
    have "sched_ok ops (snd (startRun env i st))"
      using assms(1) by (simp add: startRun_def dao_createRun_def Let_def split: sum.splits)
    with SStart mono show ?thesis by simp
  next
    case (SApprove i who tok)
    then show ?thesis using sched_ok_approve [OF assms(1)] by simp
  next
    case (SGrant i p)
    then show ?thesis using sched_ok_write_back [OF assms(1)] by simp
  qed (use assms in \<open>simp_all add: sched_ok_mono sched_ok_createTask sched_ok_updateTask sched_ok_pauseTask sched_ok_resumeTask
      sched_ok_deleteTask sched_ok_endRun sched_ok_reissueApproval sched_ok_reject\<close>)
qed

lemma sched_reach_ok: "sched_reach st ops \<Longrightarrow> sched_ok ops st"
proof (induction rule: sched_reach.induct)
  case (sched_init st)
  then show ?case by (simp add: sched_ok_def ids_ok_def)
next
  case (sched_more st ops op env)
  then show ?case by (intro sched_ok_step)
qed

section \<open>Consequences\<close>

text \<open>
  The agent is started for a task with an approval policy only after the task was approved, or when its
  policy holds grants of approved requests.
\<close>

lemma started_task_approved:
  assumes ok: "sched_ok ops st" and "startRun env i st = (Inr (run, task), st')" "sk_approvalPolicy task \<noteq> None"
  shows "(\<exists>p. SGrant i p \<in> set ops) \<or> sk_approvalStatus task = Some ''approved'' \<and>
    (\<exists>who tok. sk_approvalTokenId task = Some tok \<and> SApprove i who tok \<in> set ops)"
proof -
  from assms(2) have g: "dao_getTask i None st = Some task" and s: "sk_status task \<noteq> ''pending_approval''" "sk_status task \<noteq> ''deleted''"
    by (auto simp: startRun_def Let_def getTaskOrRaise_Inr split: sum.splits if_splits prod.splits)
  from found_task(1,2) [OF ok g] ok have "task_approved ops task" "sk_id task = i" by (auto simp: sched_ok_def list_all_iff)
  with s assms(3) show ?thesis by (auto simp: task_approved_def)
qed

text \<open>Resuming a waiting task makes it active, and a run starts, without any approval.\<close>

lemma resume_skips_approval:
  assumes "getTaskOrRaise i u st = Inr task"
  shows "\<exists>t. fst (resumeTask env i u st) = Inr t \<and> sk_status t = ''active'' \<and> sk_approvalStatus t = sk_approvalStatus task"
proof -
  let ?st = "snd (dao_updateTask env i u (\<lambda>t. t\<lparr>sk_status := ''active''\<rparr>) st)"
  have g: "dao_getTask i u st = Some task" using assms by (simp add: getTaskOrRaise_Inr)
  then have id: "sk_id task = i" by (auto simp: dao_getTask_def find_Some_iff owned_def)
  from g have "getTaskOrRaise i u ?st = Inr (task\<lparr>sk_status := ''active'', sk_updatedAt := se_now env\<rparr>)"
    by (simp add: getTask_updateTask getTaskOrRaise_Inr)
  then show ?thesis using assms by (simp add: resumeTask_def Let_def case_prod_unfold id)
qed

end
