(* ===== verification/Preauth.thy ===== *)
theory Preauth
  imports Safety History "HOL-Library.Monad_Syntax"
begin

text \<open>
  Pre-authorization of tool calls in unattended runs (scheduled tasks, inspections): the part of
  \<open>agent/agent_core/agent_loop.py\<close> that compares a call with the approval policy of the run
  (\<open>_checkStaticPreauthorization\<close>) and with the requests an administrator has approved
  (\<open>_matchApprovedGrant\<close>).

  A policy and a grant are dicts read from JSON, so their entries may have any type: iterating over
  a number raises \<open>TypeError\<close>, which is \<open>None\<close> here.  The reason of a refusal is a datatype;
  \<open>reason_text\<close> is its text, because \<open>_isPreAuthorizedToolCall\<close> looks for a word in it.
\<close>

section \<open>Values of a policy\<close>

text \<open>\<open>for x in v\<close>.\<close>

fun py_iter :: "pyval \<Rightarrow> pyval list option" where
  "py_iter (PList xs) = Some xs"
| "py_iter (PStr s) = Some (map (\<lambda>c. PStr [c]) s)"
| "py_iter (PDict kvs) = Some (map (\<lambda>kv. PStr (fst kv)) kvs)"
| "py_iter v = None"

text \<open>\<open>[str(x) for x in policy.get(key) or []]\<close>.\<close>

definition str_items :: "pydict \<Rightarrow> string \<Rightarrow> string list option" where
  "str_items policy key =
     (let v = dget policy key in if truthy v then map_option (map py_str) (py_iter v) else Some [])"

text \<open>The same with \<open>if str(x)\<close>.\<close>

definition nonempty_items :: "pydict \<Rightarrow> string \<Rightarrow> string list option" where
  "nonempty_items policy key = map_option (filter (\<lambda>s. s \<noteq> [])) (str_items policy key)"

section \<open>Arguments of a call\<close>

fun flattenArgumentValues :: "pyval \<Rightarrow> string list" where
  "flattenArgumentValues (PStr s) = [s]"
| "flattenArgumentValues (PInt i) = [py_str (PInt i)]"
| "flattenArgumentValues (PFloat r) = [py_str (PFloat r)]"
| "flattenArgumentValues (PBool b) = [py_str (PBool b)]"
| "flattenArgumentValues (PDict kvs) = concat (map (\<lambda>kv. flattenArgumentValues (snd kv)) kvs)"
| "flattenArgumentValues (PList xs) = concat (map flattenArgumentValues xs)"
| "flattenArgumentValues PNone = []"

definition path_char :: "char \<Rightarrow> bool" where
  "path_char c \<longleftrightarrow> \<not> is_space c \<and> c \<notin> set (CHR 0x27 # CHR 0x22 # CHR 0x60 # '',;|&<>'')"

definition path_start :: "char \<Rightarrow> bool" where
  "path_start c \<longleftrightarrow> c = CHR ''~'' \<or> c = CHR ''/''"

definition PATH_LIKE :: "char rx" where
  "PATH_LIKE = Seq (Cls path_start) (Star (Cls path_char))"

definition add_path :: "string list \<Rightarrow> string \<Rightarrow> string list" where
  "add_path paths m =
     (let cleaned = rstrip_chars ''.,)'' m in if cleaned \<noteq> [] \<and> cleaned \<notin> set paths then paths @ [cleaned] else paths)"

definition extractPathLikeValues :: "string list \<Rightarrow> string list" where
  "extractPathLikeValues values = foldl (\<lambda>paths value. foldl add_path paths (findall PATH_LIKE value)) [] values"

definition pathWithin :: "string \<Rightarrow> string \<Rightarrow> bool" where
  "pathWithin path base \<longleftrightarrow> base \<noteq> [] \<and>
     (let p = rstrip_chars ''/'' path; b = rstrip_chars ''/'' base in p = b \<or> startswith p (b @ ''/''))"

definition command_item :: "pyval \<Rightarrow> string list" where
  "command_item v =
     (case v of
        PDict d \<Rightarrow>
          (let cmd = (case dget d ''command'' of PList parts \<Rightarrow> PStr (join '' '' (map py_str parts)) | c \<Rightarrow> c)
           in if truthy cmd then [py_str cmd] else [])
      | _ \<Rightarrow> [])"

definition extractPrivilegedCommands :: "pydict \<Rightarrow> string list" where
  "extractPrivilegedCommands args =
     (if truthy (dget args ''inline_cmd'') then [''exec_arbitrary_cmd'']
      else if truthy (dget args ''script_path'') then [''exec_arbitrary_script'']
      else case dget args ''commands'' of PList items \<Rightarrow> concat (map command_item items) | _ \<Rightarrow> [])"

definition extractCommandLine :: "pydict \<Rightarrow> string" where
  "extractCommandLine args =
     (case dget args ''command'' of
        PList parts \<Rightarrow> join '' '' (filter (\<lambda>s. s \<noteq> []) (map py_str parts))
      | PStr s \<Rightarrow> strip s
      | _ \<Rightarrow> [])"

abbreviation call_paths :: "pydict \<Rightarrow> string list" where
  "call_paths args \<equiv> extractPathLikeValues (flattenArgumentValues (PDict args))"

section \<open>The static policy\<close>

datatype preauth_reason =
    ToolNotAllowed string
  | NoPrivilegedCommand
  | PrivilegedDenied "string list"
  | NoCommand
  | CommandNotListed string
  | ShellControl string
  | PathDenied string string
  | PathNotAllowed string
  | PolicyMatch
  | GrantMatch preauth_reason

fun reason_text :: "preauth_reason \<Rightarrow> utext" where
  "reason_text (ToolNotAllowed name) = [24037, 20855, 32] @ uni name @ [32, 19981, 22312] @ uni '' allowedTools '' @ [20013]"
| "reason_text NoPrivilegedCommand =
     [26080, 27861, 35782, 21035] @ uni '' submitElevation '' @ [35831, 27714, 30340, 29305, 26435, 21629, 20196]"
| "reason_text (PrivilegedDenied cmds) = [29305, 26435, 21629, 20196, 26410, 25480, 26435, 58, 32] @ uni (join '', '' cmds)"
| "reason_text NoCommand = [26080, 27861, 35782, 21035, 21629, 20196, 25191, 34892, 24037, 20855, 30340, 21629, 20196, 20869, 23481]"
| "reason_text (CommandNotListed cmd) =
     [21629, 20196, 26410, 21629, 20013] @ uni '' allowedCommands '' @ [30333, 21517, 21333, 58, 32] @ uni (take 120 cmd)"
| "reason_text (ShellControl cmd) =
     [21629, 20196, 21253, 21547] @ uni '' shell '' @ [25511, 21046, 23383, 31526, 65292, 19981, 28385, 36275, 39044, 25480,
      26435, 25918, 34892, 58, 32] @ uni (take 120 cmd)"
| "reason_text (PathDenied path denied) =
     [36335, 24452, 32] @ uni path @ [32, 21629, 20013] @ uni '' deniedPaths: '' @ uni denied"
| "reason_text (PathNotAllowed path) = [36335, 24452, 32] @ uni path @ [32, 19981, 22312] @ uni '' allowedPaths '' @ [20013]"
| "reason_text PolicyMatch = [24037, 20855, 21644, 36335, 24452, 21305, 37197] @ uni '' approvalPolicy''"
| "reason_text (GrantMatch r) =
     [21629, 20013, 24050, 25209, 20934, 30340, 25480, 26435, 35831, 27714, 65288, 38745, 24577, 58, 32] @ reason_text r @ [65289]"

definition command_tool :: "string \<Rightarrow> bool" where
  "command_tool name \<longleftrightarrow> name = ''runCommand'' \<or> name = ''runShellCommand''"

definition command_listed :: "string \<Rightarrow> string \<Rightarrow> bool" where
  "command_listed cmd ac \<longleftrightarrow> cmd = ac \<or> startswith cmd (ac @ '' '')"

definition SHELL_CONTROL :: "char list" where
  "SHELL_CONTROL = '';&|'' @ [CHR 0x60] @ ''$()'' @ [newline]"

text \<open>The three groups of checks, each \<open>None\<close> when it finds nothing wrong.\<close>

definition privileged_denial :: "pydict \<Rightarrow> string \<Rightarrow> pydict \<Rightarrow> preauth_reason option option" where
  "privileged_denial policy name args =
     do {
       allowed \<leftarrow> str_items policy ''allowedPrivilegedCommands'';
       Some (if allowed \<noteq> [] \<and> name = ''submitElevation'' then
               (let requested = extractPrivilegedCommands args;
                    denied = filter (\<lambda>cmd. cmd \<notin> set allowed) requested
                in if requested = [] then Some NoPrivilegedCommand
                   else if denied \<noteq> [] then Some (PrivilegedDenied denied) else None)
             else None)
     }"

definition command_denial :: "pydict \<Rightarrow> string \<Rightarrow> pydict \<Rightarrow> preauth_reason option option" where
  "command_denial policy name args =
     (if map_of policy ''allowedCommands'' \<noteq> None \<and> command_tool name then
        (let cmd = extractCommandLine args in
         if cmd = [] then Some (Some NoCommand)
         else do {
           allowed \<leftarrow> str_items policy ''allowedCommands'';
           Some (if \<not> list_ex (command_listed cmd) allowed then Some (CommandNotListed cmd)
                 else if name = ''runShellCommand'' \<and> list_ex (\<lambda>c. c \<in> set SHELL_CONTROL) cmd then Some (ShellControl cmd)
                 else None)
         })
      else Some None)"

definition path_denial :: "pydict \<Rightarrow> pydict \<Rightarrow> preauth_reason option option" where
  "path_denial policy args =
     (let paths = call_paths args in
      do {
        denied \<leftarrow> nonempty_items policy ''deniedPaths'';
        (case filter (\<lambda>(p, d). pathWithin p d) (List.product paths denied) of
           (p, d) # _ \<Rightarrow> Some (Some (PathDenied p d))
         | [] \<Rightarrow>
             do {
               allowed \<leftarrow> nonempty_items policy ''allowedPaths'';
               Some (if allowed \<noteq> [] then
                       (case filter (\<lambda>p. \<not> list_ex (pathWithin p) allowed) paths of
                          p # _ \<Rightarrow> Some (PathNotAllowed p)
                        | [] \<Rightarrow> None)
                     else None)
             })
      })"

definition checkStaticPreauthorization :: "pydict \<Rightarrow> string \<Rightarrow> pydict \<Rightarrow> (bool \<times> preauth_reason) option" where
  "checkStaticPreauthorization policy name args =
     do {
       tools \<leftarrow> str_items policy ''allowedTools'';
       if name \<notin> set tools then Some (False, ToolNotAllowed name)
       else do {
         priv \<leftarrow> privileged_denial policy name args;
         (case priv of
            Some r \<Rightarrow> Some (False, r)
          | None \<Rightarrow> do {
              cmd \<leftarrow> command_denial policy name args;
              (case cmd of
                 Some r \<Rightarrow> Some (False, r)
               | None \<Rightarrow> do {
                   path \<leftarrow> path_denial policy args;
                   Some (case path of Some r \<Rightarrow> (False, r) | None \<Rightarrow> (True, PolicyMatch))
                 })
            })
       }
     }"

section \<open>Approved requests\<close>

definition grant_covers :: "string list \<Rightarrow> string \<Rightarrow> string \<Rightarrow> pydict \<Rightarrow> bool option" where
  "grant_covers paths cmd name grant =
     (if (if truthy (dget grant ''toolName'') then py_str (dget grant ''toolName'') else []) \<noteq> name then Some False
      else do {
        granted \<leftarrow> nonempty_items grant ''paths'';
        (let granted_cmd = (if truthy (dget grant ''commandLine'') then py_str (dget grant ''commandLine'') else []) in
         Some (\<not> (granted \<noteq> [] \<and> paths \<noteq> [] \<and> \<not> list_ex (\<lambda>p. list_ex (pathWithin p) granted) paths) \<and>
               \<not> (granted_cmd \<noteq> [] \<and> cmd \<noteq> [] \<and> \<not> command_listed cmd granted_cmd)))
      })"

fun first_cover :: "string list \<Rightarrow> string \<Rightarrow> string \<Rightarrow> pydict list \<Rightarrow> bool option" where
  "first_cover paths cmd name [] = Some False"
| "first_cover paths cmd name (g # gs) =
     do { ok \<leftarrow> grant_covers paths cmd name g; if ok then Some True else first_cover paths cmd name gs }"

definition matchApprovedGrant :: "pydict list \<Rightarrow> string \<Rightarrow> pydict \<Rightarrow> bool option" where
  "matchApprovedGrant grants name args =
     first_cover (call_paths args) (if command_tool name then extractCommandLine args else []) name grants"

text \<open>
  The grants of a run: \<open>list_grants\<close> is \<open>listApprovedGrants\<close> with its three filters, \<open>None\<close> when
  it raises.
\<close>

definition run_grants ::
  "(string option \<Rightarrow> int option \<Rightarrow> string option \<Rightarrow> pydict list option) \<Rightarrow> string \<Rightarrow> int option \<Rightarrow> string \<Rightarrow> pydict list option" where
  "run_grants list_grants sessionId taskId source =
     do {
       a \<leftarrow> if sessionId \<noteq> [] then list_grants (Some sessionId) None None else Some [];
       b \<leftarrow> if taskId \<noteq> None then list_grants None taskId (Some ''scheduled'') else Some [];
       c \<leftarrow> if source = ''inspection'' then list_grants None None (Some ''inspection'') else Some [];
       Some (a @ b @ c)
     }"

definition isPreAuthorizedToolCall ::
  "(string option \<Rightarrow> int option \<Rightarrow> string option \<Rightarrow> pydict list option) \<Rightarrow> pydict \<Rightarrow> string \<Rightarrow> int option \<Rightarrow> string \<Rightarrow>
   string \<Rightarrow> pydict \<Rightarrow> (bool \<times> preauth_reason) option" where
  "isPreAuthorizedToolCall list_grants policy sessionId taskId source name args =
     do {
       static \<leftarrow> checkStaticPreauthorization policy name args;
       Some (case static of (ok, reason) \<Rightarrow>
         if ok then (True, reason)
         else if sublist (uni ''deniedPaths'') (reason_text reason) then (False, reason)
         else if sessionId \<noteq> [] \<or> (taskId \<noteq> None \<and> taskId \<noteq> Some 0) \<or> source \<noteq> [] then
           (case Option.bind (run_grants list_grants sessionId taskId source) (\<lambda>gs. matchApprovedGrant gs name args) of
              Some True \<Rightarrow> (True, GrantMatch reason)
            | _ \<Rightarrow> (False, reason))
         else (False, reason))
     }"

section \<open>Lemmas: path-like texts\<close>

text \<open>The regular expression as a scanner.\<close>

fun path_tokens :: "string \<Rightarrow> string list" where
  "path_tokens [] = []"
| "path_tokens (c # cs) =
     (if path_start c then (c # takeWhile path_char cs) # path_tokens (dropWhile path_char cs) else path_tokens cs)"

lemma rmatch_PATH_LIKE_none:
  "s = [] \<or> \<not> path_start (hd s) \<Longrightarrow> rmatch PATH_LIKE (pre, s) = []"
  by (cases s) (auto simp: PATH_LIKE_def)

lemma rmatch_PATH_LIKE_some:
  assumes "path_start c"
  shows "\<exists>qs. rmatch PATH_LIKE (pre, c # cs) = (rev (takeWhile path_char cs) @ c # pre, dropWhile path_char cs) # qs"
  using star_Cls_first [of cs "length cs" path_char "c # pre"] assms by (auto simp: PATH_LIKE_def)

lemma findall_from_path: "findall_from PATH_LIKE pre s = path_tokens s"
proof (induction s arbitrary: pre rule: path_tokens.induct)
  case 1
  show ?case by (subst findall_from.simps) (simp add: rmatch_PATH_LIKE_none)
next
  case (2 c cs)
  show ?case
  proof (cases "path_start c")
    case True
    obtain qs where m: "rmatch PATH_LIKE (pre, c # cs) = (rev (takeWhile path_char cs) @ c # pre, dropWhile path_char cs) # qs"
      using rmatch_PATH_LIKE_some [OF True] by blast
    have len: "length (dropWhile path_char cs) < length (c # cs)"
      using length_dropWhile_le [of path_char cs] by simp
    have "length (c # cs) - length (dropWhile path_char cs) = Suc (length (takeWhile path_char cs))"
      by (metis Suc_diff_le length_Cons length_append length_dropWhile_le takeWhile_dropWhile_id add_diff_cancel_right')
    then have "take (length (c # cs) - length (dropWhile path_char cs)) (c # cs) = c # takeWhile path_char cs"
      by (simp add: takeWhile_eq_take [symmetric])
    with m len 2(1) [OF True] show ?thesis
      by (subst findall_from.simps) (simp add: True del: length_Cons)
  next
    case False
    with 2(2) show ?thesis
      by (subst findall_from.simps) (simp add: rmatch_PATH_LIKE_none)
  qed
qed

lemma findall_PATH_LIKE [simp]: "findall PATH_LIKE s = path_tokens s"
  by (simp add: findall_def findall_from_path)

lemma set_foldl_add_path:
  "set (foldl add_path acc ms) = set acc \<union> {p. p \<noteq> [] \<and> (\<exists>m \<in> set ms. p = rstrip_chars ''.,)'' m)}"
  by (induction ms arbitrary: acc) (auto simp: add_path_def Let_def)

lemma set_foldl_values:
  "set (foldl (\<lambda>paths value. foldl add_path paths (path_tokens value)) acc vs) =
     set acc \<union> {p. p \<noteq> [] \<and> (\<exists>v \<in> set vs. \<exists>m \<in> set (path_tokens v). p = rstrip_chars ''.,)'' m)}"
  by (induction vs arbitrary: acc) (auto simp: set_foldl_add_path)

lemma set_extractPathLikeValues:
  "set (extractPathLikeValues values) =
     {p. p \<noteq> [] \<and> (\<exists>v \<in> set values. \<exists>m \<in> set (path_tokens v). p = rstrip_chars ''.,)'' m)}"
  by (simp add: extractPathLikeValues_def set_foldl_values)

lemma path_start_char: "path_start c \<Longrightarrow> path_char c"
  by (auto simp: path_start_def path_char_def is_space_def)

text \<open>A path that stands on its own in a text is found.\<close>

lemma path_token_found:
  assumes "path_start c" "list_all path_char cs" "a = [] \<or> \<not> path_char (last a)" "b = [] \<or> \<not> path_char (hd b)"
  shows "c # cs \<in> set (path_tokens (a @ (c # cs) @ b))"
  using assms(3)
proof (induction a rule: length_induct)
  case (1 a)
  have tok: "c # cs \<in> set (path_tokens ((c # cs) @ b))"
  proof -
    have "takeWhile path_char (cs @ b) = cs"
      using assms(2,4) by (cases b) (auto simp: list_all_iff takeWhile_append2)
    then show ?thesis using assms(1) by simp
  qed
  show ?case
  proof (cases a)
    case Nil
    then show ?thesis using tok by simp
  next
    case (Cons x xs)
    then have nl: "xs = [] \<or> \<not> path_char (last xs)" using 1(2) by (auto split: if_splits)
    show ?thesis
    proof (cases "path_start x")
      case False
      then show ?thesis using 1(1) nl Cons by auto
    next
      case True
      then have "xs \<noteq> []" "\<not> path_char (last xs)" using 1(2) Cons path_start_char by (auto split: if_splits)
      then have ex: "\<exists>y\<in>set xs. \<not> path_char y" by (meson last_in_set)
      then have d: "dropWhile path_char (xs @ (c # cs) @ b) = dropWhile path_char xs @ (c # cs) @ b"
        by (meson dropWhile_append1)
      have "dropWhile path_char xs \<noteq> []" using ex by (auto simp: dropWhile_eq_Nil_conv)
      then have "last (dropWhile path_char xs) = last xs"
        by (metis last_appendR takeWhile_dropWhile_id)
      then have "c # cs \<in> set (path_tokens (dropWhile path_char xs @ (c # cs) @ b))"
        using 1(1) Cons \<open>\<not> path_char (last xs)\<close> length_dropWhile_le [of path_char xs] by (simp add: le_imp_less_Suc)
      then show ?thesis using True d Cons by simp
    qed
  qed
qed

section \<open>Lemmas: the policy checks\<close>

lemma path_denial_None_iff:
  assumes "nonempty_items policy ''deniedPaths'' = Some D" "nonempty_items policy ''allowedPaths'' = Some A"
  shows "path_denial policy args = Some None \<longleftrightarrow>
     list_all (\<lambda>p. \<not> list_ex (pathWithin p) D \<and> (A = [] \<or> list_ex (pathWithin p) A)) (call_paths args)"
proof -
  have "filter (\<lambda>(p, d). pathWithin p d) (List.product (call_paths args) D) = [] \<longleftrightarrow>
      list_all (\<lambda>p. \<not> list_ex (pathWithin p) D) (call_paths args)"
    by (auto simp: filter_empty_conv list_all_iff list_ex_iff)
  moreover have "filter (\<lambda>p. \<not> list_ex (pathWithin p) A) (call_paths args) = [] \<longleftrightarrow>
      list_all (\<lambda>p. list_ex (pathWithin p) A) (call_paths args)"
    by (simp add: filter_empty_conv list_all_iff)
  ultimately show ?thesis
    by (auto simp: path_denial_def assms Let_def list_all_iff split: list.splits)
qed

lemma static_accepts_iff:
  "checkStaticPreauthorization policy name args = Some (True, r) \<longleftrightarrow>
     r = PolicyMatch \<and> (\<exists>T. str_items policy ''allowedTools'' = Some T \<and> name \<in> set T) \<and>
     privileged_denial policy name args = Some None \<and> command_denial policy name args = Some None \<and>
     path_denial policy args = Some None"
  by (auto simp: checkStaticPreauthorization_def split: Option.bind_splits if_splits option.splits)

lemma command_denial_None:
  assumes "command_denial policy name args = Some None" "map_of policy ''allowedCommands'' \<noteq> None" "command_tool name"
  shows "\<exists>C. str_items policy ''allowedCommands'' = Some C \<and> list_ex (command_listed (extractCommandLine args)) C \<and>
     (name = ''runShellCommand'' \<longrightarrow> list_all (\<lambda>c. c \<notin> set SHELL_CONTROL) (extractCommandLine args))"
  using assms
  by (auto simp: command_denial_def Let_def list_all_iff list_ex_iff split: Option.bind_splits if_splits)

section \<open>Properties\<close>

text \<open>The names on the way to a path, as the text gives them.\<close>

definition components :: "string \<Rightarrow> string list" where
  "components path = split_on CHR ''/'' (rstrip_chars ''/'' path)"

lemma split_on_append: "split_on c (a @ c # b) = split_on c a @ split_on c b"
proof (induction a)
  case (Cons x a)
  then show ?case by (cases "split_on c a") auto
qed simp

lemma join_append: "xs \<noteq> [] \<Longrightarrow> ys \<noteq> [] \<Longrightarrow> join sep (xs @ ys) = join sep xs @ sep @ join sep ys"
proof (induction sep xs rule: join.induct)
  case (2 sep x)
  then show ?case by (cases ys) simp_all
qed simp_all

text \<open>The comparison of texts is one of components.\<close>

lemma pathWithin_components: "pathWithin path base \<longleftrightarrow> base \<noteq> [] \<and> prefix (components base) (components path)"
proof -
  have "p = b \<or> startswith p (b @ [c]) \<longleftrightarrow> prefix (split_on c b) (split_on c p)" for p b c
  proof
    assume "p = b \<or> startswith p (b @ [c])"
    then show "prefix (split_on c b) (split_on c p)"
      by (auto simp: startswith_def prefix_def split_on_append)
  next
    assume "prefix (split_on c b) (split_on c p)"
    then obtain zs where "split_on c p = split_on c b @ zs" by (auto simp: prefix_def)
    then have "p = join [c] (split_on c b @ zs)" using join_split_on [of c p] by simp
    then show "p = b \<or> startswith p (b @ [c])"
      using join_append [of "split_on c b" zs "[c]"] join_split_on [of c b] by (cases "zs = []") (auto simp: startswith_def)
  qed
  then show ?thesis by (simp add: pathWithin_def components_def Let_def)
qed


text \<open>
  The comparison is textual: a path that climbs out of an allowed directory with \<open>..\<close> passes.
\<close>

lemma dotdot_escapes:
  assumes "list_all path_char s" "rstrip_chars ''.,)'' s = s" "s \<noteq> []"
  shows "checkStaticPreauthorization
     [(''allowedTools'', PList [PStr ''writeFile'']), (''allowedPaths'', PList [PStr ''/var/www''])]
     ''writeFile'' [(''path'', PStr (''/var/www/../../'' @ s))] = Some (True, PolicyMatch)"
proof -
  let ?p = "''/var/www/../../'' @ s"
  have ps: "path_start (CHR ''/'')" by (simp add: path_start_def)
  have pc: "list_all path_char (''var/www/../../'' @ s)"
    using assms(1) by (simp add: path_char_def is_space_def)
  have "path_tokens ?p = [?p]"
    using pc ps by (simp add: list_all_iff takeWhile_eq_all_conv [THEN iffD2] dropWhile_eq_Nil_conv [THEN iffD2])
  moreover have "last s \<notin> set ''.,)''"
  proof
    assume "last s \<in> set ''.,)''"
    moreover obtain t l where "s = t @ [l]" using assms(3) by (cases s rule: rev_cases) auto
    ultimately have "length (rstrip_chars ''.,)'' s) < length s"
      using length_dropWhile_le [of "\<lambda>c. c \<in> set ''.,)''" "rev t"] by (simp add: rstrip_chars_def rdropWhile_def)
    with assms(2) show False by simp
  qed
  then have "rstrip_chars ''.,)'' ?p = ?p"
    using assms(3) by (cases s rule: rev_cases) (simp_all add: rstrip_chars_def rdropWhile_def)
  ultimately have paths: "call_paths [(''path'', PStr ?p)] = [?p]"
    by (simp add: extractPathLikeValues_def add_path_def Let_def)
  have "startswith (rstrip_chars ''/'' ?p) ''/var/www/''"
  proof (cases "list_all (\<lambda>c. c = CHR ''/'') s")
    case True
    then have "dropWhile (\<lambda>c. c = CHR ''/'') (rev s @ rev ''/var/www/../../'') = dropWhile (\<lambda>c. c = CHR ''/'') (rev ''/var/www/../../'')"
      by (intro dropWhile_append2) (simp add: list_all_iff)
    then show ?thesis by (simp add: rstrip_chars_def rdropWhile_def startswith_def)
  next
    case False
    then obtain x where "x \<in> set (rev s)" "\<not> x = CHR ''/''" by (auto simp: list_all_iff)
    then show ?thesis by (simp add: rstrip_chars_def rdropWhile_def startswith_def dropWhile_append1)
  qed
  then have "pathWithin ?p ''/var/www''"
    by (simp add: pathWithin_def Let_def rstrip_chars_def rdropWhile_def)
  then have ok: "list_all (\<lambda>p. \<not> list_ex (pathWithin p) [] \<and> ([''/var/www''] = [] \<or> list_ex (pathWithin p) [''/var/www'']))
      (call_paths [(''path'', PStr ?p)])"
    unfolding paths by simp
  let ?pol = "[(''allowedTools'', PList [PStr ''writeFile'']), (''allowedPaths'', PList [PStr ''/var/www''])]"
  have "nonempty_items ?pol ''deniedPaths'' = Some []" "nonempty_items ?pol ''allowedPaths'' = Some [''/var/www'']"
    "str_items ?pol ''allowedTools'' = Some [''writeFile'']" "privileged_denial ?pol ''writeFile'' [(''path'', PStr ?p)] = Some None"
    "command_denial ?pol ''writeFile'' [(''path'', PStr ?p)] = Some None"
    by (simp_all add: nonempty_items_def str_items_def dget_or_def py_str_def privileged_denial_def command_denial_def)
  with ok show ?thesis unfolding static_accepts_iff by (simp add: path_denial_None_iff)
qed

text \<open>
  One approved request covers a call when any of its paths is inside a granted directory, and a shell
  command that goes on after the granted one, control characters included.
\<close>

lemma grant_covers_one_path:
  assumes "list_ex (\<lambda>p. list_ex (pathWithin p) granted) (call_paths args)" "name \<noteq> []" "list_all (\<lambda>g. g \<noteq> []) granted"
  shows "matchApprovedGrant [[(''toolName'', PStr name), (''paths'', PList (map PStr granted))]] name args = Some True"
proof -
  have "filter (\<lambda>s. s \<noteq> []) granted = granted" using assms(3) by (simp add: list_all_iff)
  with assms(1,2) show ?thesis
    by (simp add: matchApprovedGrant_def grant_covers_def nonempty_items_def str_items_def dget_or_def py_str_def Let_def comp_def)
qed

lemma grant_covers_command_tail:
  assumes "extractCommandLine args = g @ '' '' @ s" "g \<noteq> []"
  shows "matchApprovedGrant [[(''toolName'', PStr ''runShellCommand''), (''commandLine'', PStr g)]] ''runShellCommand'' args = Some True"
  using assms
  by (simp add: matchApprovedGrant_def grant_covers_def nonempty_items_def str_items_def dget_or_def py_str_def Let_def
      command_tool_def command_listed_def startswith_def)

section \<open>Witness\<close>

definition demo_policy :: pydict where
  "demo_policy = [(''allowedTools'', PList [PStr ''runShellCommand'']), (''allowedCommands'', PList [PStr ''ls'']),
     (''allowedPaths'', PList [PStr ''/var/log'']), (''deniedPaths'', PList [PStr ''/var/log/audit''])]"


end
