(* ===== verification/PlanSchema.thy ===== *)
theory PlanSchema
  imports Preauth
begin

text \<open>
  The structured plan of the two-stage plan mode, \<open>agent/agent_router/plan_schema.py\<close>: the plan
  that a \<open>submitPlan\<close> call proposes and the text an approved plan is given to the model with.

  The outcome of \<open>planFromSubmitArgs\<close> is a plan, the \<open>ValueError\<close> the loop answers, or the
  \<open>TypeError\<close> of iterating over a value that is no collection.
\<close>

record PlanStep =
  ps_step_id :: string
  ps_title :: string
  ps_action :: string
  ps_tool :: "string option"
  ps_target :: "string option"
  ps_risk :: string

record AgentPlan =
  pl_summary :: string
  pl_steps :: "PlanStep list"
  pl_risks :: "string list"
  pl_files :: "string list"

datatype plan_error = PlanValueError utext | PlanTypeError

definition str_or_none :: "pyval \<Rightarrow> string option" where
  "str_or_none v = (if truthy v then Some (py_str v) else None)"

definition plan_step :: "nat \<Rightarrow> pyval \<Rightarrow> plan_error + PlanStep" where
  "plan_step i s =
     (case s of
        PDict d \<Rightarrow>
          (let title = strip (py_str (dget_or d ''title'' (PStr []))) in
           if title = [] then Inl (PlanValueError (uni (''plan.steps['' @ str_of_nat i @ ''].title '') @ [19981, 33021, 20026, 31354]))
           else Inr \<lparr>ps_step_id = py_str (dget_or d ''step_id'' (PStr (''step-'' @ str_of_nat (i + 1)))), ps_title = title,
                     ps_action = py_str (dget_or d ''action'' (PStr [])), ps_tool = str_or_none (dget d ''tool''),
                     ps_target = str_or_none (dget d ''target''), ps_risk = py_str (dget_or d ''risk'' (PStr ''medium''))\<rparr>)
      | _ \<Rightarrow> Inl (PlanValueError (uni (''plan.steps['' @ str_of_nat i @ ''] '') @ [24517, 39035, 26159, 32, 100, 105, 99, 116])))"

fun plan_steps :: "nat \<Rightarrow> pyval list \<Rightarrow> plan_error + PlanStep list" where
  "plan_steps i [] = Inr []"
| "plan_steps i (s # ss) =
     (case plan_step i s of
        Inl e \<Rightarrow> Inl e
      | Inr st \<Rightarrow> (case plan_steps (i + 1) ss of Inl e \<Rightarrow> Inl e | Inr sts \<Rightarrow> Inr (st # sts)))"

text \<open>\<open>[str(r) for r in (args.get(key) or []) if r]\<close>.\<close>

definition plan_texts :: "pydict \<Rightarrow> string \<Rightarrow> string list option" where
  "plan_texts args key =
     (let v = dget args key in
      if truthy v then map_option (\<lambda>xs. map py_str (filter truthy xs)) (py_iter v) else Some [])"

definition planFromSubmitArgs :: "pydict \<Rightarrow> plan_error + AgentPlan" where
  "planFromSubmitArgs args =
     (let summary = strip (py_str (dget_or args ''summary'' (PStr []))) in
      if summary = [] then Inl (PlanValueError (uni ''plan.summary '' @ [19981, 33021, 20026, 31354]))
      else
        (case dget_or args ''steps'' (PList []) of
           PList (s # ss) \<Rightarrow>
             (case plan_steps 0 (s # ss) of
                Inl e \<Rightarrow> Inl e
              | Inr steps \<Rightarrow>
                  (case plan_texts args ''risks'' of
                     None \<Rightarrow> Inl PlanTypeError
                   | Some risks \<Rightarrow>
                       (case plan_texts args ''files'' of
                          None \<Rightarrow> Inl PlanTypeError
                        | Some files \<Rightarrow>
                            Inr \<lparr>pl_summary = summary, pl_steps = steps, pl_risks = risks, pl_files = files\<rparr>)))
         | _ \<Rightarrow> Inl (PlanValueError (uni ''plan.steps '' @ [19981, 33021, 20026, 31354]))))"

definition step_lines :: "PlanStep \<Rightarrow> utext list" where
  "step_lines step =
     (let tags = (case ps_tool step of Some t \<Rightarrow> if t \<noteq> [] then [[24037, 20855, 61] @ uni t] else [] | None \<Rightarrow> []) @
                 (case ps_target step of Some t \<Rightarrow> if t \<noteq> [] then [[30446, 26631, 61] @ uni t] else [] | None \<Rightarrow> []);
          tag_str = (if tags \<noteq> [] then uni '' ['' @ ujoin (uni '', '') tags @ uni '']'' else [])
      in [uni (''  ['' @ ps_step_id step @ ''] '' @ ps_title step) @ tag_str, uni (''      '' @ ps_action step)])"

definition formatPlanForPrompt :: "AgentPlan \<Rightarrow> utext" where
  "formatPlanForPrompt plan =
     ujoin [10]
       ([[35, 35, 32, 24050, 25209, 20934, 30340, 25191, 34892, 35745, 21010, 10], [27010, 36848, 58, 32] @ uni (pl_summary plan)] @
        (if pl_files plan \<noteq> [] then [[28041, 21450, 25991, 20214, 58, 32] @ uni (join '', '' (pl_files plan))] else []) @
        (if pl_risks plan \<noteq> [] then [[39118, 38505, 58, 32] @ uni (join ''; '' (pl_risks plan))] else []) @
        [[], [25191, 34892, 27493, 39588, 58]] @ concat (map step_lines (pl_steps plan)) @
        [[], [35831, 20005, 26684, 25353, 29031, 20197, 19978, 35745, 21010, 36880, 27493, 25191, 34892, 12290, 19981, 35201, 36339, 36807, 20219, 20309, 27493, 39588, 12290]])"

section \<open>Properties\<close>

text \<open>The step that an entry of the call describes.\<close>

definition step_of :: "nat \<Rightarrow> pydict \<Rightarrow> PlanStep \<Rightarrow> bool" where
  "step_of i d st \<longleftrightarrow>
     ps_title st = strip (py_str (dget_or d ''title'' (PStr []))) \<and> ps_title st \<noteq> [] \<and>
     ps_step_id st = py_str (dget_or d ''step_id'' (PStr (''step-'' @ str_of_nat (i + 1)))) \<and>
     ps_action st = py_str (dget_or d ''action'' (PStr [])) \<and> ps_risk st = py_str (dget_or d ''risk'' (PStr ''medium'')) \<and>
     ps_tool st = str_or_none (dget d ''tool'') \<and> ps_target st = str_or_none (dget d ''target'')"

lemma plan_step_of: "plan_step i s = Inr st \<Longrightarrow> \<exists>d. s = PDict d \<and> step_of i d st"
  by (auto simp: plan_step_def step_of_def Let_def split: pyval.splits if_splits)

lemma plan_steps_of:
  "plan_steps i ss = Inr sts \<Longrightarrow>
   \<exists>ds. ss = map PDict ds \<and> length sts = length ds \<and> (\<forall>j<length ds. step_of (i + j) (ds ! j) (sts ! j))"
proof (induction ss arbitrary: i sts)
  case (Cons s ss)
  then obtain st sts' where st: "plan_step i s = Inr st" "plan_steps (i + 1) ss = Inr sts'" "sts = st # sts'"
    by (auto split: sum.splits)
  obtain d where d: "s = PDict d" "step_of i d st" using plan_step_of [OF st(1)] by blast
  obtain ds where ds: "ss = map PDict ds" "length sts' = length ds" "\<forall>j<length ds. step_of (i + 1 + j) (ds ! j) (sts' ! j)"
    using Cons.IH [OF st(2)] by blast
  have "\<forall>j<length (d # ds). step_of (i + j) ((d # ds) ! j) (sts ! j)"
    using d(2) ds(3) st(3) by (auto simp: nth_Cons' less_Suc_eq_0_disj)
  then show ?case using d(1) ds(1,2) st(3) by (intro exI [of _ "d # ds"]) simp
qed simp

lemma ujoin_middle: "xs \<noteq> [] \<Longrightarrow> zs \<noteq> [] \<Longrightarrow> ys \<noteq> [] \<Longrightarrow> \<exists>pre post. ujoin sep (xs @ ys @ zs) = pre @ ujoin sep ys @ post"
proof -
  have two: "ujoin sep (as @ bs) = ujoin sep as @ sep @ ujoin sep bs" if "as \<noteq> []" "bs \<noteq> []" for as bs
    using that by (induction sep as rule: ujoin.induct) (auto simp: neq_Nil_conv)
  assume "xs \<noteq> []" "zs \<noteq> []" "ys \<noteq> []"
  then have "ujoin sep (xs @ ys @ zs) = (ujoin sep xs @ sep) @ ujoin sep ys @ (sep @ ujoin sep zs)" by (simp add: two)
  then show ?thesis by blast
qed

lemma step_lines_ne: "step_lines st \<noteq> []"
  by (simp add: step_lines_def Let_def)

lemma prompt_has_steps:
  assumes "pl_steps p \<noteq> []"
  shows "\<exists>pre post. formatPlanForPrompt p = pre @ ujoin [10] (concat (map step_lines (pl_steps p))) @ post"
proof -
  have "\<exists>pre post. ujoin [10] (a @ b @ c @ d @ ls @ z) = pre @ ujoin [10] ls @ post" if "a \<noteq> []" "z \<noteq> []" "ls \<noteq> []" for a b c d ls z
    using ujoin_middle [of "a @ b @ c @ d" z ls "[10]"] that by simp
  moreover have "concat (map step_lines (pl_steps p)) \<noteq> []" using assms step_lines_ne by (cases "pl_steps p") auto
  ultimately show ?thesis unfolding formatPlanForPrompt_def by blast
qed

text \<open>
  C35. The plan that reaches the administrator is the one of the call: its summary is the call's, stripped and not blank; the
  steps are the entries of the call, one for one and in order, all of them dictionaries, each step with the id (\<open>step-<i>\<close>
  where there is none), the stripped and not blank title, the action, the tool, the target and the risk of its own entry; there is at least one;
  the risks and files are the call's.  And the text that the model is given once the plan is approved has the lines of all steps in this order.
\<close>

theorem plan_well_formed:
  assumes "planFromSubmitArgs args = Inr p"
  shows "pl_summary p = strip (py_str (dget_or args ''summary'' (PStr []))) \<and> pl_summary p \<noteq> [] \<and>
     (\<exists>ds. dget args ''steps'' = PList (map PDict ds) \<and> ds \<noteq> [] \<and> length (pl_steps p) = length ds \<and>
        (\<forall>i<length ds. step_of i (ds ! i) (pl_steps p ! i))) \<and>
     plan_texts args ''risks'' = Some (pl_risks p) \<and> plan_texts args ''files'' = Some (pl_files p) \<and>
     (\<exists>pre post. formatPlanForPrompt p = pre @ ujoin [10] (concat (map step_lines (pl_steps p))) @ post)"
proof -
  obtain s ss sts risks files where o: "dget_or args ''steps'' (PList []) = PList (s # ss)" "plan_steps 0 (s # ss) = Inr sts"
    "plan_texts args ''risks'' = Some risks" "plan_texts args ''files'' = Some files"
    "strip (py_str (dget_or args ''summary'' (PStr []))) \<noteq> []"
    "p = \<lparr>pl_summary = strip (py_str (dget_or args ''summary'' (PStr []))), pl_steps = sts, pl_risks = risks, pl_files = files\<rparr>"
    using assms unfolding planFromSubmitArgs_def Let_def
    by (auto split: if_splits pyval.splits list.splits sum.splits option.splits)
  have "dget args ''steps'' = PList (s # ss)" using o(1) by (auto simp: dget_or_def split: option.splits)
  moreover obtain ds where ds: "s # ss = map PDict ds" "length sts = length ds" "\<forall>i<length ds. step_of i (ds ! i) (sts ! i)"
    using plan_steps_of [OF o(2)] by (metis add_0)
  moreover have "ds \<noteq> []" "pl_steps p \<noteq> []" using ds(1,2) o(6) by auto
  ultimately show ?thesis using o(3-6) prompt_has_steps [of p] by auto
qed

definition demo_plan_args :: pydict where
  "demo_plan_args = [(''summary'', PStr '' restart nginx ''),
     (''steps'', PList [PDict [(''title'', PStr ''check'')], PDict [(''title'', PStr ''restart''), (''tool'', PStr ''runCommand'')]])]"

theorem plan_well_formed_witness:
  "\<exists>p. planFromSubmitArgs demo_plan_args = Inr p \<and> pl_summary p = ''restart nginx'' \<and> map ps_title (pl_steps p) = [''check'', ''restart'']"
proof -
  have "isl (planFromSubmitArgs demo_plan_args) = False" by code_simp
  then obtain p where p: "planFromSubmitArgs demo_plan_args = Inr p" by (cases "planFromSubmitArgs demo_plan_args") auto
  have e: "dget demo_plan_args ''steps'' =
      PList (map PDict [[(''title'', PStr ''check'')], [(''title'', PStr ''restart''), (''tool'', PStr ''runCommand'')]])" (is "_ = PList (map PDict ?ds)")
    by (simp add: demo_plan_args_def dget_or_def)
  obtain ds where ds: "dget demo_plan_args ''steps'' = PList (map PDict ds)" "length (pl_steps p) = length ds"
    "\<forall>i<length ds. step_of i (ds ! i) (pl_steps p ! i)"
    and s: "pl_summary p = strip (py_str (dget_or demo_plan_args ''summary'' (PStr [])))"
    using plan_well_formed [OF p] by blast
  have "map PDict ds = map PDict ?ds" using ds(1) e by simp
  then have "ds = ?ds" by (auto simp: map_eq_Cons_conv)
  with ds(2,3) obtain a b where ab: "pl_steps p = [a, b]" "step_of 0 (?ds ! 0) a" "step_of 1 (?ds ! 1) b"
    by (auto simp: length_Suc_conv less_Suc_eq)
  have "strip (py_str (dget_or (?ds ! 0) ''title'' (PStr []))) = ''check''" "strip (py_str (dget_or (?ds ! 1) ''title'' (PStr []))) = ''restart''"
    "strip (py_str (dget_or demo_plan_args ''summary'' (PStr []))) = ''restart nginx''" by code_simp+
  with ab s p show ?thesis by (simp add: step_of_def)
qed

end
