(* ===== verification/AgentLoop.thy ===== *)
theory AgentLoop
  imports PlanSchema StructuredLLM "HOL-Library.While_Combinator"
begin

text \<open>
  The core loop of the agent, \<open>agent/agent_core/agent_loop.py\<close>: think, execute tools, review plans,
  until the model answers with text, a limit is reached or something raises.

  Everything outside the class is the record \<open>env\<close>: clock, random ids, the model, the injection
  classifier, the tool dispatcher, the service for authorization requests and the calls other tasks
  make while the loop waits.  Each operation reads and changes a world of type \<open>'w\<close>.  The calls made
  during a wait are delivered one after the other to \<open>approve\<close>, \<open>reject\<close>, \<open>approvePlan\<close>,
  \<open>rejectPlan\<close>, \<open>resolveChoice\<close> and \<open>switchMode\<close>; the wait times out when they have not set its event.
  The loop also waits for the model, the classifier and the tools (\<open>suspend\<close>), and the same calls may come then.

  \<open>ls_log\<close> holds, in order, the events of the stream and, for the theorems, the calls delivered,
  the checks of the rule engine and the tools run.  Trace records are kept by the kind of event and alerts by their level only: nothing
  in the loop reads them.  Tool arguments are dicts of texts up to code point 255, conversation texts
  have all code points.  Exceptions end the loop and carry their text.  Cancellation of the task is
  not modelled.
\<close>

section \<open>Messages of the model\<close>

record tool_call =
  tc_id :: string
  tc_name :: string
  tc_arguments :: pydict

record chunk =
  ck_content :: utext
  ck_tool_calls :: "tool_call list"
  ck_finish :: string
  ck_usage :: pydict

record LLMResponse =
  rs_content :: "utext option"
  rs_tool_calls :: "tool_call list"
  rs_finish :: string
  rs_usage :: pydict

definition collect_chunks :: "chunk list \<Rightarrow> LLMResponse" where
  "collect_chunks cks =
     (let parts = filter (\<lambda>t. t \<noteq> []) (map ck_content cks);
          usages = filter (\<lambda>u. u \<noteq> []) (map ck_usage cks);
          finishes = filter (\<lambda>f. f \<noteq> []) (map ck_finish cks)
      in \<lparr>rs_content = (if parts \<noteq> [] then Some (concat parts) else None),
          rs_tool_calls = concat (map ck_tool_calls cks),
          rs_finish = (if finishes \<noteq> [] then last finishes else ''stop''),
          rs_usage = (if usages \<noteq> [] then last usages else [])\<rparr>)"

section \<open>Events\<close>

record choice_option =
  co_id :: string
  co_title :: utext
  co_summary :: string

datatype ext_call =
    CApprove string
  | CReject string utext
  | CApprovePlan
  | CRejectPlan utext
  | CChoice string string
  | CSwitchMode AgentMode

datatype event =
    EvThinkingStart nat
  | EvTextDelta utext
  | EvTextDone pydict
  | EvToolCalling "tool_block list" pydict
  | EvToolResult string string bool utext
  | EvSafetyChecked string ToolRiskLevel SafetyVerdict rule_reason pyval
  | EvApprovalRequired string pydict string rule_reason pyval string
  | EvApprovalResolved string bool utext
  | EvAuthorizationRequested string string string pyval rule_reason preauth_reason
  | EvPlanProposed AgentPlan
  | EvPlanApproved AgentPlan string
  | EvPlanRejected utext string
  | EvChoiceRequired string "choice_option list" string
  | EvChoiceResolved string string string
  | EvError utext
  | EvDone

datatype log_entry =
    Emit event
  | Delivered ext_call
  | Checked AgentMode string pydict
  | Ran AgentMode string pydict

section \<open>Configuration, environment and state\<close>

record config =
  cf_maxRounds :: int
  cf_contextWindow :: int
  cf_maxToolCallsPerRound :: int
  cf_maxBackgroundTime :: rat
  cf_autoApproveScheduled :: bool
  cf_nonInteractiveApprovals :: bool
  cf_scheduledApprovalPolicy :: pydict
  cf_autoRunTaskId :: "int option"
  cf_autoRunSource :: string
  cf_autoRunGuidance :: utext
  cf_sessionId :: string
  cf_rules :: re_compiler
  cf_safety :: SafetyPolicy
  cf_riskLevel :: "string \<Rightarrow> ToolRiskLevel"
  cf_modePrompt :: "AgentMode \<Rightarrow> utext"
  cf_systemPrompt :: utext
  cf_safetyRules :: utext
  cf_extraKnowledge :: utext
  cf_canaryPrompt :: "string \<Rightarrow> utext"
  cf_ruleText :: "rule_reason \<Rightarrow> utext"
  cf_confidence :: "rat \<Rightarrow> utext"
  cf_frepr :: "string \<Rightarrow> string"
  cf_jsonError :: "string \<Rightarrow> utext"

text \<open>The arguments of \<open>submitRequest\<close>.\<close>

record auth_request =
  aq_sessionId :: string
  aq_toolName :: string
  aq_args :: pydict
  aq_paths :: "string list"
  aq_ttlSeconds :: int
  aq_maxRuns :: int
  aq_commandLine :: "string option"
  aq_reason :: rule_reason
  aq_policyReason :: preauth_reason
  aq_riskLevel :: string

text \<open>
  \<open>en_chat\<close> delivers the chunks of a reply and the exception that ended the stream, if any;
  \<open>en_classify\<close> is \<open>None\<close> without a classifier or when it does not check; \<open>en_dispatch\<close> is the raw
  answer of the dispatcher, \<open>Inl\<close> when it raised; \<open>en_submit\<close> is \<open>None\<close> when the service raised.
\<close>

record 'w env =
  en_now :: "'w \<Rightarrow> rat \<times> 'w"
  en_id :: "'w \<Rightarrow> string \<times> 'w"
  en_token :: "'w \<Rightarrow> (string \<times> string) \<times> 'w"
  en_chat :: "History.message list \<Rightarrow> 'w \<Rightarrow> (chunk list \<times> utext option) \<times> 'w"
  en_classify :: "utext \<Rightarrow> 'w \<Rightarrow> ClassifierVerdict option \<times> 'w"
  en_dispatch :: "string \<Rightarrow> pydict \<Rightarrow> 'w \<Rightarrow> (utext + string option) \<times> 'w"
  en_privileged :: "pydict \<Rightarrow> 'w \<Rightarrow> utext \<times> 'w"
  en_calls :: "'w \<Rightarrow> ext_call list \<times> 'w"
  en_grants :: "'w \<Rightarrow> string option \<Rightarrow> int option \<Rightarrow> string option \<Rightarrow> pydict list option"
  en_submit :: "auth_request \<Rightarrow> 'w \<Rightarrow> string option \<times> 'w"

text \<open>An \<open>asyncio.Event\<close> is the flag whether it is set.\<close>

record 'w core =
  ls_world :: 'w
  ls_mode :: AgentMode
  ls_msgs :: "History.message list"
  ls_pendingApprovals :: "(string \<times> bool) list"
  ls_approvalDecisions :: "(string \<times> (bool \<times> utext)) list"
  ls_pendingPlanApproval :: "(string \<times> bool) option"
  ls_planApprovalDecision :: "(bool \<times> utext) option"
  ls_pendingPlanProps :: "(AgentPlan \<times> string) option"
  ls_pendingChoice :: "(string \<times> bool) option"
  ls_choiceDecision :: "(string \<times> string) option"
  ls_canary :: "CanaryManager option"
  ls_canaryFile :: CanaryFile
  ls_log :: "log_entry list"
  ls_trace :: "string list"
  ls_alerts :: "nat list"

text \<open>The constructor: nothing is waited for.\<close>

definition new_core :: "'w \<Rightarrow> AgentMode \<Rightarrow> CanaryManager option \<Rightarrow> CanaryFile \<Rightarrow> 'w core" where
  "new_core w mode canary file =
     \<lparr>ls_world = w, ls_mode = mode, ls_msgs = [], ls_pendingApprovals = [], ls_approvalDecisions = [],
      ls_pendingPlanApproval = None, ls_planApprovalDecision = None, ls_pendingPlanProps = None,
      ls_pendingChoice = None, ls_choiceDecision = None, ls_canary = canary, ls_canaryFile = file,
      ls_log = [], ls_trace = [], ls_alerts = []\<rparr>"

definition emit :: "event \<Rightarrow> 'w core \<Rightarrow> 'w core" where
  "emit e st = st\<lparr>ls_log := ls_log st @ [Emit e]\<rparr>"

definition trace :: "string \<Rightarrow> 'w core \<Rightarrow> 'w core" where
  "trace kind st = st\<lparr>ls_trace := ls_trace st @ [kind]\<rparr>"

definition alert :: "nat \<Rightarrow> 'w core \<Rightarrow> 'w core" where
  "alert level st = st\<lparr>ls_alerts := ls_alerts st @ [level]\<rparr>"

text \<open>An operation of the environment.\<close>

definition ask :: "('w \<Rightarrow> 'a \<times> 'w) \<Rightarrow> 'w core \<Rightarrow> 'a \<times> 'w core" where
  "ask f st = (case f (ls_world st) of (a, w) \<Rightarrow> (a, st\<lparr>ls_world := w\<rparr>))"

abbreviation say :: "string \<Rightarrow> utext \<Rightarrow> History.message" where
  "say role text \<equiv> \<lparr>mg_role = role, mg_content = Some text, mg_tool_calls = [], mg_tool_call_id = []\<rparr>"

definition add_msg :: "History.message \<Rightarrow> 'w core \<Rightarrow> 'w core" where
  "add_msg m st = st\<lparr>ls_msgs := ls_msgs st @ [m]\<rparr>"

section \<open>Texts for the model and the stream\<close>

definition MAX_TOOL_OUTPUT_CHARS_FOR_MODEL :: int where
  "MAX_TOOL_OUTPUT_CHARS_FOR_MODEL = 1200"

definition MAX_TOTAL_TOOL_OUTPUT_CHARS_PER_ROUND :: int where
  "MAX_TOTAL_TOOL_OUTPUT_CHARS_PER_ROUND = 6000"

definition OMITTED :: utext where
  "OMITTED = [91, 24037, 20855, 36755, 20986, 30465, 30053, 93, 32, 26412, 36718, 24037, 20855, 32467, 26524, 24635, 37327, 24050, 36798, 21040, 22238, 20256, 27169, 22411, 19978, 38480, 12290]"

definition TOO_LONG :: utext where
  "TOO_LONG = [91, 24037, 20855, 36755, 20986, 25130, 26029, 93, 32, 36755, 20986, 36807, 38271, 12290]"

definition fitToolOutputForModel :: "utext \<Rightarrow> int \<Rightarrow> int \<Rightarrow> utext" where
  "fitToolOutputForModel text perToolLimit remainingRoundBudget =
     (if remainingRoundBudget \<le> 0 then OMITTED
      else
        (let limit = max 0 (min perToolLimit remainingRoundBudget) in
         if int (length text) \<le> limit then text
         else if limit \<le> 80 then TOO_LONG
         else take (nat (limit - 60)) text @ [10, 46, 46, 46, 91, 24037, 20855, 36755, 20986, 25130, 26029, 65292, 21407, 22987, 38271, 24230, 32] @ uni (str_of_nat (length text)) @ [32, 23383, 31526, 93]))"

text \<open>\<open>text.split("\n")\<close> and the pieces of at most \<open>maxLen\<close> characters of a line.\<close>

fun usplit_lines :: "utext \<Rightarrow> utext list" where
  "usplit_lines [] = [[]]"
| "usplit_lines (c # cs) =
     (if c = 10 then [] # usplit_lines cs
      else case usplit_lines cs of l # ls \<Rightarrow> (c # l) # ls | [] \<Rightarrow> [[c]])"

function pieces :: "nat \<Rightarrow> utext \<Rightarrow> utext list" where
  "pieces n s = (if s = [] \<or> n = 0 then [] else take n s # pieces n (drop n s))"
  by pat_completeness auto
termination
  by (relation "measure (\<lambda>(n, s). length s)") auto

declare pieces.simps [simp del]

fun split_parts :: "nat \<Rightarrow> utext list \<Rightarrow> utext list" where
  "split_parts maxLen [] = []"
| "split_parts maxLen (line # lines) =
     (if length line \<le> maxLen then [line @ (if lines = [] then [] else [10])] else pieces maxLen line) @
     split_parts maxLen lines"

definition splitLines :: "utext \<Rightarrow> utext list" where
  "splitLines text = (if text = [] then [] else split_parts 40 (usplit_lines text))"

section \<open>Choices\<close>

definition LABEL_IDS :: "string list" where
  "LABEL_IDS = [''A'', ''B'', ''C'', ''D'', ''E'', ''F'']"

definition choice_label :: "nat \<Rightarrow> string" where
  "choice_label i = (if i < length LABEL_IDS then LABEL_IDS ! i else str_of_nat (i + 1))"

definition choice_option_of :: "nat \<Rightarrow> pyval \<Rightarrow> choice_option" where
  "choice_option_of i v =
     (case v of
        PDict d \<Rightarrow>
          \<lparr>co_id = py_str (dget_or d ''id'' (PStr (choice_label i))),
           co_title = (case map_of d ''title'' of
                         Some t \<Rightarrow> uni (py_str t)
                       | None \<Rightarrow> (case map_of d ''id'' of
                                   Some n \<Rightarrow> uni (py_str n)
                                 | None \<Rightarrow> [36873, 39033] @ uni (str_of_nat (i + 1)))),
           co_summary = py_str (dget_or d ''summary'' (PStr []))\<rparr>
      | _ \<Rightarrow> \<lparr>co_id = choice_label i, co_title = uni (py_str v), co_summary = []\<rparr>)"

text \<open>\<open>None\<close> is the \<open>TypeError\<close> of iterating over a number.\<close>

definition normalize_choice_options :: "pyval \<Rightarrow> choice_option list option" where
  "normalize_choice_options raw_options =
     (if \<not> truthy raw_options then Some []
      else map_option (\<lambda>xs. map (\<lambda>(i, v). choice_option_of i v) (enumerate 0 xs)) (py_iter raw_options))"

section \<open>Prompt\<close>

text \<open>\<open>PromptBuilder.build\<close>: the layers of the prompt, without the policy layer the loop never gives.\<close>

definition build_prompt ::
  "config \<Rightarrow> string option \<Rightarrow> utext \<Rightarrow> History.message list \<Rightarrow> History.message list" where
  "build_prompt cfg token userMessage history =
     (let content = cf_systemPrompt cfg @ [10, 10, 35, 35, 32, 23433, 20840, 35268, 21017, 10, 10] @ cf_safetyRules cfg @
            (case token of Some t \<Rightarrow> if t \<noteq> [] then [10, 10] @ cf_canaryPrompt cfg t else [] | None \<Rightarrow> [])
      in [say ''system'' content] @
         (if cf_extraKnowledge cfg \<noteq> [] then [say ''system'' ([35, 35, 32, 36816, 32500, 32463, 39564, 24211, 65288, 32452, 32455, 35760, 24518, 65289, 10] @ cf_extraKnowledge cfg)] else []) @
         history @ [say ''user'' userMessage])"

text \<open>The mode prompt goes before the last message of the user.\<close>

definition injectModePrompt :: "config \<Rightarrow> AgentMode \<Rightarrow> History.message list \<Rightarrow> History.message list" where
  "injectModePrompt cfg mode messages =
     (let mode_content = cf_modePrompt cfg mode @
            (if cf_autoRunGuidance cfg \<noteq> [] then [10, 10] @ cf_autoRunGuidance cfg else []);
          mode_msg = say ''system'' mode_content;
          after = takeWhile (\<lambda>m. mg_role m \<noteq> ''user'') (rev messages)
      in if length after = length messages then messages @ [mode_msg]
         else (let k = length messages - length after - 1 in take k messages @ [mode_msg] @ drop k messages))"

section \<open>Calls of other tasks\<close>

definition resolveApproval :: "string \<Rightarrow> bool \<Rightarrow> utext \<Rightarrow> 'w core \<Rightarrow> bool \<times> 'w core" where
  "resolveApproval actionId approved reason st =
     (case map_of (ls_pendingApprovals st) actionId of
        None \<Rightarrow> (False, st)
      | Some _ \<Rightarrow>
          (True, st\<lparr>ls_approvalDecisions := AList.update actionId (approved, reason) (ls_approvalDecisions st),
                    ls_pendingApprovals := AList.update actionId True (ls_pendingApprovals st)\<rparr>))"

definition decidePlan :: "bool \<Rightarrow> utext \<Rightarrow> 'w core \<Rightarrow> bool \<times> 'w core" where
  "decidePlan approved reason st =
     (case ls_pendingPlanApproval st of
        None \<Rightarrow> (False, st)
      | Some (plan_id, ev) \<Rightarrow>
          (True, st\<lparr>ls_planApprovalDecision := Some (approved, reason), ls_pendingPlanApproval := Some (plan_id, True)\<rparr>))"

definition resolveChoice :: "string \<Rightarrow> string \<Rightarrow> 'w core \<Rightarrow> bool \<times> 'w core" where
  "resolveChoice selectionId customInput st =
     (case ls_pendingChoice st of
        None \<Rightarrow> (False, st)
      | Some (choiceId, ev) \<Rightarrow>
          (True, st\<lparr>ls_choiceDecision := Some (selectionId, customInput), ls_pendingChoice := Some (choiceId, True)\<rparr>))"

fun external_call :: "ext_call \<Rightarrow> 'w core \<Rightarrow> bool \<times> 'w core" where
  "external_call (CApprove i) st = resolveApproval i True [] st"
| "external_call (CReject i reason) st = resolveApproval i False reason st"
| "external_call CApprovePlan st = decidePlan True [] st"
| "external_call (CRejectPlan reason) st = decidePlan False reason st"
| "external_call (CChoice sel custom) st = resolveChoice sel custom st"
| "external_call (CSwitchMode m) st = (True, st\<lparr>ls_mode := m\<rparr>)"

definition deliver :: "'w core \<Rightarrow> ext_call \<Rightarrow> 'w core" where
  "deliver st c = snd (external_call c (st\<lparr>ls_log := ls_log st @ [Delivered c]\<rparr>))"

text \<open>\<open>await asyncio.wait_for(ev.wait(), timeout)\<close>.\<close>

definition await :: "'w env \<Rightarrow> 'w core \<Rightarrow> 'w core" where
  "await env st = (case ask (en_calls env) st of (cs, st) \<Rightarrow> foldl deliver st cs)"

text \<open>An operation that is awaited: the calls of other tasks come before its result is used.\<close>

definition suspend :: "'w env \<Rightarrow> ('w \<Rightarrow> 'a \<times> 'w) \<Rightarrow> 'w core \<Rightarrow> 'a \<times> 'w core" where
  "suspend env f st = (case ask f st of (a, st) \<Rightarrow> (a, await env st))"

section \<open>Running a tool\<close>

text \<open>\<open>int(v)\<close>, \<open>None\<close> for \<open>TypeError\<close> and \<open>ValueError\<close>; an infinite float counts as NaN.\<close>

fun int_val :: "pyval \<Rightarrow> int option" where
  "int_val (PInt i) = Some i"
| "int_val (PBool b) = Some (if b then 1 else 0)"
| "int_val (PStr s) = py_int s"
| "int_val (PFloat r) = map_option trunc_rat (float_value r)"
| "int_val v = None"

definition policy_int :: "pydict \<Rightarrow> string \<Rightarrow> int \<Rightarrow> int option" where
  "policy_int policy key dflt = (let v = dget policy key in if truthy v then int_val v else Some dflt)"

text \<open>In an unattended run \<open>submitElevation\<close> gets the life time of the policy.\<close>

definition inject_ttl :: "config \<Rightarrow> string \<Rightarrow> pydict \<Rightarrow> pydict" where
  "inject_ttl cfg name args =
     (let policy = cf_scheduledApprovalPolicy cfg in
      if name = ''submitElevation'' \<and> policy \<noteq> [] \<and> \<not> truthy (dget args ''ttl_seconds'')
      then AList.update ''ttl_seconds''
             (PInt (case policy_int policy ''ttlSeconds'' 25200 of Some t \<Rightarrow> t | None \<Rightarrow> 25200)) args
      else args)"

text \<open>The text in the answer of the dispatcher; the entry \<open>text\<close> of a content item is a text.\<close>

definition result_text :: "pydict \<Rightarrow> utext + utext" where
  "result_text data =
     (case dget_or data ''result'' (PDict []) of
        PDict result \<Rightarrow>
          (case dget_or result ''content'' (PList [PDict []]) of
             PList (PDict c # _) \<Rightarrow> Inr (uni (py_str (dget_or c ''text'' (PStr (py_str (PDict result))))))
           | PList [] \<Rightarrow> Inl (uni ''list index out of range'')
           | _ \<Rightarrow> Inl (uni ''AttributeError''))
      | _ \<Rightarrow> Inl (uni ''AttributeError''))"

definition dispatch_text :: "config \<Rightarrow> utext + string option \<Rightarrow> utext + utext" where
  "dispatch_text cfg answer =
     (case answer of
        Inl e \<Rightarrow> Inl e
      | Inr None \<Rightarrow> Inr ((uni ''<error: MCP '' @ [36820, 22238, 20102, 31354, 32467, 26524] @ uni '', raw=None>''))
      | Inr (Some raw) \<Rightarrow>
          if strip raw = [] then Inr ((uni ''<error: MCP '' @ [36820, 22238, 20102, 31354, 32467, 26524] @ uni '', raw='') @ uni (repr_str raw) @ uni ''>'')
          else
            (case loads (cf_frepr cfg) raw of
               None \<Rightarrow> Inr ((uni ''<error: JSON '' @ [35299, 26512, 22833, 36133, 58, 32]) @ cf_jsonError cfg raw @ uni '', raw='' @ uni (take 200 raw) @ uni ''>'')
             | Some (PDict data) \<Rightarrow> result_text data
             | Some _ \<Rightarrow> Inl (uni ''AttributeError'')))"

definition executeTool :: "config \<Rightarrow> 'w env \<Rightarrow> string \<Rightarrow> pydict \<Rightarrow> 'w core \<Rightarrow> (utext + utext) \<times> 'w core" where
  "executeTool cfg env name args st =
     (if name = ''runPrivileged'' then
        (case suspend env (en_privileged env args) (st\<lparr>ls_log := ls_log st @ [Ran (ls_mode st) name args]\<rparr>) of
           (text, st) \<Rightarrow> (Inr text, st))
      else
        (let args' = inject_ttl cfg name args;
             (reqId, st) = ask (en_id env) st;
             (answer, st) = suspend env (en_dispatch env name args') (st\<lparr>ls_log := ls_log st @ [Ran (ls_mode st) name args']\<rparr>)
         in (dispatch_text cfg answer, st)))"

section \<open>Answers to the model\<close>

definition FILTERED :: utext where
  "FILTERED = [91, 24037, 20855, 36755, 20986, 24050, 36807, 28388, 93, 32, 26816, 27979, 21040, 36755, 20986, 21253, 21547, 25552, 31034, 35789, 27880, 20837, 29305, 24449, 65292, 26410, 22238, 20256, 27169, 22411, 12290]"

definition appendToolMessage :: "config \<Rightarrow> 'w env \<Rightarrow> string \<Rightarrow> utext \<Rightarrow> 'w core \<Rightarrow> 'w core" where
  "appendToolMessage cfg env callId content st =
     (let (sanitized, st) =
        (if checkPromptInjection content then (FILTERED, alert 1 (trace ''tool_output.injection'' st))
         else
           (case suspend env (en_classify env content) st of
              (Some v, st) \<Rightarrow>
                if cv_checked v \<and> cv_injection v
                then ([91, 24037, 20855, 36755, 20986, 24050, 36807, 28388, 93, 32, 23433, 20840, 26816, 27979, 21028, 23450, 36755, 20986, 21253, 21547, 25552, 31034, 35789, 27880, 20837, 24847, 22270, 65288, 32622, 20449, 24230, 32] @ cf_confidence cfg (cv_confidence v) @ [65289, 65292, 26410, 22238, 20256, 27169, 22411, 12290],
                      alert 1 (trace ''tool_output.injection'' st))
                else (content, st)
            | (None, st) \<Rightarrow> (content, st)))
      in add_msg \<lparr>mg_role = ''tool'', mg_content = Some sanitized, mg_tool_calls = [], mg_tool_call_id = callId\<rparr> st)"

text \<open>The first tool message of a call gets a new content.\<close>

fun updateToolResponse :: "string \<Rightarrow> utext \<Rightarrow> History.message list \<Rightarrow> History.message list" where
  "updateToolResponse callId newContent [] = []"
| "updateToolResponse callId newContent (m # ms) =
     (if mg_role m = ''tool'' \<and> mg_tool_call_id m = callId then m\<lparr>mg_content := Some newContent\<rparr> # ms
      else m # updateToolResponse callId newContent ms)"

section \<open>Waiting for a person\<close>

definition handleApproval ::
  "config \<Rightarrow> 'w env \<Rightarrow> string \<Rightarrow> pydict \<Rightarrow> rule_reason \<Rightarrow> pyval \<Rightarrow> string \<Rightarrow> 'w core \<Rightarrow> (utext + utext) \<times> 'w core" where
  "handleApproval cfg env name args reason ai_reason call_id st =
     (let (actionId, st) = ask (en_id env) st;
          st = st\<lparr>ls_pendingApprovals := AList.update actionId False (ls_pendingApprovals st)\<rparr>;
          st = emit (EvApprovalRequired name args actionId reason ai_reason call_id) st;
          st = await env st;
          fired = (map_of (ls_pendingApprovals st) actionId = Some True);
          decision = (case map_of (ls_approvalDecisions st) actionId of Some d \<Rightarrow> d | None \<Rightarrow> (False, []));
          st = st\<lparr>ls_pendingApprovals := AList.delete actionId (ls_pendingApprovals st),
                  ls_approvalDecisions := AList.delete actionId (ls_approvalDecisions st)\<rparr>
      in if \<not> fired
         then (Inr ([91, 23457, 25209, 36229, 26102, 93, 32, 24037, 20855, 32] @ uni name @ [32, 26410, 22312, 35268, 23450, 26102, 38388, 20869, 33719, 24471, 25209, 20934, 65292, 24050, 36339, 36807, 25191, 34892]),
               emit (EvApprovalResolved actionId False [23457, 25209, 36229, 26102]) st)
         else
           (let st = emit (EvApprovalResolved actionId (fst decision) (snd decision)) st
            in if fst decision then executeTool cfg env name args st
               else (Inr ([91, 29992, 25143, 25298, 32477, 93, 32, 24037, 20855, 32] @ uni name @ [32, 26410, 25191, 34892, 12290, 21407, 22240, 58, 32] @
                       (if snd decision \<noteq> [] then snd decision else [29992, 25143, 25298, 32477, 25191, 34892])), st)))"

definition waitForChoice :: "'w env \<Rightarrow> string \<Rightarrow> choice_option list \<Rightarrow> 'w core \<Rightarrow> (string \<times> string) \<times> 'w core" where
  "waitForChoice env question options st =
     (let (choiceId, st) = ask (en_id env) st;
          st = st\<lparr>ls_pendingChoice := Some (choiceId, False)\<rparr>;
          st = emit (EvChoiceRequired question options choiceId) st;
          st = await env st;
          fired = (ls_pendingChoice st = Some (choiceId, True));
          decision = (if fired then (case ls_choiceDecision st of Some d \<Rightarrow> d | None \<Rightarrow> (''__timeout__'', [])) else (''__timeout__'', []));
          st = st\<lparr>ls_pendingChoice := None, ls_choiceDecision := None\<rparr>;
          st = trace (if fired then ''choice.resolved'' else ''choice.timeout'') st
      in (decision, emit (EvChoiceResolved choiceId (fst decision) (snd decision)) st))"

definition waitForPlanApproval :: "'w env \<Rightarrow> AgentPlan \<Rightarrow> string \<Rightarrow> 'w core \<Rightarrow> 'w core" where
  "waitForPlanApproval env plan callId st =
     (let (planId, st) = ask (en_id env) st;
          st = st\<lparr>ls_pendingPlanApproval := Some (planId, False)\<rparr>;
          st = await env st;
          fired = (ls_pendingPlanApproval st = Some (planId, True));
          decision = (case ls_planApprovalDecision st of Some d \<Rightarrow> d | None \<Rightarrow> (False, []));
          st = st\<lparr>ls_pendingPlanApproval := None, ls_planApprovalDecision := None, ls_pendingPlanProps := None\<rparr>
      in if \<not> fired then
           (let st = trace ''plan.rejected'' (emit (EvPlanRejected [23457, 25209, 36229, 26102] callId) st);
                st = st\<lparr>ls_msgs := updateToolResponse callId [91, 35745, 21010, 23457, 25209, 36229, 26102, 65292, 24050, 36339, 36807, 93] (ls_msgs st), ls_mode := M_AGENT\<rparr>;
                st = trace ''mode.switch'' st
            in add_msg (say ''system'' [35745, 21010, 23457, 25209, 36229, 26102, 65292, 24050, 20999, 25442, 21040, 26631, 20934, 27169, 24335, 12290, 35831, 30452, 25509, 21578, 35785, 29992, 25143, 20320, 38656, 35201, 20570, 20160, 20040, 12290]) st)
         else if fst decision then
           (let st = trace ''plan.approved'' (trace ''mode.switch'' (st\<lparr>ls_mode := M_AGENT\<rparr>));
                st = st\<lparr>ls_msgs := updateToolResponse callId [91, 35745, 21010, 24050, 25209, 20934, 65292, 24320, 22987, 25191, 34892, 93] (ls_msgs st)\<rparr>;
                st = add_msg (say ''system'' ([35, 35, 32, 24050, 25209, 20934, 30340, 25191, 34892, 35745, 21010, 10, 10] @ formatPlanForPrompt plan)) st;
                st = add_msg (say ''user'' [24320, 22987, 23454, 26045]) st
            in emit (EvPlanApproved plan callId) st)
         else
           (let feedback = (if snd decision \<noteq> [] then snd decision else [35831, 35843, 25972, 35745, 21010]);
                st = trace ''plan.rejected'' st;
                st = st\<lparr>ls_msgs := updateToolResponse callId ([91, 35745, 21010, 34987, 25298, 32477, 93, 32] @ feedback) (ls_msgs st)\<rparr>;
                st = add_msg (say ''user'' ([35745, 21010, 38656, 35201, 20462, 25913, 65306] @ feedback @ [10, 10, 35831, 26681, 25454, 21453, 39304, 37325, 26032, 29983, 25104, 35745, 21010, 12290])) st
            in emit (EvPlanRejected feedback callId) st))"

definition auth_request_of ::
  "config \<Rightarrow> string \<Rightarrow> pydict \<Rightarrow> rule_reason \<Rightarrow> preauth_reason \<Rightarrow> ToolRiskLevel \<Rightarrow> auth_request" where
  "auth_request_of cfg name args reason policyReason risk =
     (let policy = cf_scheduledApprovalPolicy cfg;
          (ttl, max_runs) = (case (policy_int policy ''ttlSeconds'' 25200, policy_int policy ''maxRuns'' 100) of
                               (Some t, Some m) \<Rightarrow> (t, m) | _ \<Rightarrow> (25200, 100));
          commandLine = (if command_tool name then extractCommandLine args else [])
      in \<lparr>aq_sessionId = cf_sessionId cfg, aq_toolName = name,
          aq_args = map (\<lambda>(k, v). (k, PStr (take 500 (py_str v)))) args, aq_paths = call_paths args,
          aq_ttlSeconds = ttl, aq_maxRuns = max_runs,
          aq_commandLine = (if commandLine \<noteq> [] then Some commandLine else None),
          aq_reason = reason, aq_policyReason = policyReason, aq_riskLevel = risk_value risk\<rparr>)"

definition submitAuthorizationRequest ::
  "config \<Rightarrow> 'w env \<Rightarrow> string \<Rightarrow> pydict \<Rightarrow> rule_reason \<Rightarrow> preauth_reason \<Rightarrow> ToolRiskLevel \<Rightarrow> 'w core \<Rightarrow> string \<times> 'w core" where
  "submitAuthorizationRequest cfg env name args reason policyReason risk st =
     (case ask (en_submit env (auth_request_of cfg name args reason policyReason risk)) st of
        (Some code, st) \<Rightarrow> (code, st)
      | (None, st) \<Rightarrow> (''N/A'', st))"

section \<open>One tool call\<close>

text \<open>What a tool call does to the round: go on with the next one, stop for a plan, or raise.\<close>

datatype 'w step_result = Next nat "'w core" | PlanStop "'w core" | Abort utext "'w core"

definition give_model :: "config \<Rightarrow> 'w env \<Rightarrow> string \<Rightarrow> utext \<Rightarrow> nat \<Rightarrow> 'w core \<Rightarrow> 'w step_result" where
  "give_model cfg env callId toolOutput used st =
     (let modelToolOutput = fitToolOutputForModel toolOutput MAX_TOOL_OUTPUT_CHARS_FOR_MODEL
            (MAX_TOTAL_TOOL_OUTPUT_CHARS_PER_ROUND - int used)
      in Next (used + length modelToolOutput) (appendToolMessage cfg env callId modelToolOutput st))"

definition choice_call :: "config \<Rightarrow> 'w env \<Rightarrow> string \<Rightarrow> pydict \<Rightarrow> nat \<Rightarrow> 'w core \<Rightarrow> 'w step_result" where
  "choice_call cfg env callId args used st =
     (case normalize_choice_options (dget_or args ''options'' (PList [])) of
        None \<Rightarrow> Abort (uni ''TypeError'') st
      | Some options \<Rightarrow>
          (let ((sel, custom), st) = waitForChoice env (py_str (dget_or args ''question'' (PStr []))) options st;
               toolOutput = uni (dumps False '', '' '': '' (PDict [(''selection_id'', PStr sel), (''custom_input'', PStr custom)]));
               st = emit (EvToolResult callId ''ask_choice'' True toolOutput) st
           in give_model cfg env callId toolOutput used st))"

definition PLAN_SUBMITTED :: utext where
  "PLAN_SUBMITTED = [91, 35745, 21010, 24050, 25552, 20132, 65292, 31561, 24453, 23457, 25209, 93]"

definition plan_call :: "config \<Rightarrow> 'w env \<Rightarrow> string \<Rightarrow> pydict \<Rightarrow> nat \<Rightarrow> 'w core \<Rightarrow> 'w step_result" where
  "plan_call cfg env callId args used st =
     (case planFromSubmitArgs args of
        Inl PlanTypeError \<Rightarrow> Abort (uni ''TypeError'') st
      | Inl (PlanValueError e) \<Rightarrow>
          (let toolOutput = [91, 35745, 21010, 26684, 24335, 38169, 35823, 93, 32] @ e;
               st = emit (EvToolResult callId ''submitPlan'' False toolOutput) (trace ''plan.invalid'' st)
           in Next used (appendToolMessage cfg env callId toolOutput st))
      | Inr plan \<Rightarrow>
          (let st = emit (EvPlanProposed plan) (trace ''plan.proposed'' st);
               st = emit (EvToolResult callId ''submitPlan'' True PLAN_SUBMITTED) st;
               st = appendToolMessage cfg env callId PLAN_SUBMITTED st
           in PlanStop (st\<lparr>ls_pendingPlanProps := Some (plan, callId)\<rparr>)))"

definition NATIVE_REASON_TOOLS :: "string list" where
  "NATIVE_REASON_TOOLS = [''submitElevation'', ''runPrivileged'', ''writePrivilegedFile'', ''nginxWriteStaticFile'']"

definition call_reason :: "ToolRiskLevel \<Rightarrow> string \<Rightarrow> pydict \<Rightarrow> pyval \<times> pydict" where
  "call_reason risk name args =
     (dget_or args ''reason'' (PStr []),
      if risk \<noteq> RL_READ_ONLY \<and> name \<notin> set NATIVE_REASON_TOOLS then AList.delete ''reason'' args else args)"

text \<open>The common end of a call that was run or refused by a person.\<close>

definition finish_call ::
  "config \<Rightarrow> 'w env \<Rightarrow> string \<Rightarrow> string \<Rightarrow> nat \<Rightarrow> (utext + utext) \<times> 'w core \<Rightarrow> 'w step_result" where
  "finish_call cfg env callId name used r =
     (case r of
        (Inl e, st) \<Rightarrow> Abort e st
      | (Inr toolOutput, st) \<Rightarrow>
          give_model cfg env callId toolOutput used
            (emit (EvToolResult callId name True (take 2000 toolOutput)) (trace ''tool.result'' st)))"

text \<open>A call that needs confirmation in a run nobody watches.\<close>

definition unattended_call ::
  "config \<Rightarrow> 'w env \<Rightarrow> string \<Rightarrow> string \<Rightarrow> pydict \<Rightarrow> ToolRiskLevel \<Rightarrow> rule_reason \<Rightarrow> pyval \<Rightarrow> nat \<Rightarrow> 'w core \<Rightarrow> 'w step_result" where
  "unattended_call cfg env callId name args risk reason ai_reason used st =
     (case isPreAuthorizedToolCall (en_grants env (ls_world st)) (cf_scheduledApprovalPolicy cfg) (cf_sessionId cfg)
             (cf_autoRunTaskId cfg) (cf_autoRunSource cfg) name args of
        None \<Rightarrow> Abort (uni ''TypeError'') st
      | Some (True, policyReason) \<Rightarrow>
          (let autoReason = uni ''scheduled policy pre-authorized REQUIRE_CONFIRM; policy_reason='' @ cf_ruleText cfg reason @
                 uni ''; match='' @ reason_text policyReason;
               st = emit (EvApprovalResolved callId True autoReason) (trace ''approval.pre_authorized'' st)
           in finish_call cfg env callId name used (executeTool cfg env name args st))
      | Some (False, policyReason) \<Rightarrow>
          (let (requestCode, st) = submitAuthorizationRequest cfg env name args reason policyReason risk st;
               toolOutput = [91, 25480, 26435, 35831, 27714, 24050, 25552, 20132, 93, 32, 24037, 20855, 32] @ uni name @
                 ([32, 19981, 22312, 39044, 25480, 26435, 33539, 22260, 20869, 65292, 26412, 27425, 36339, 36807, 26410, 25191, 34892, 65307, 31649, 29702, 21592, 25209, 20934, 21518, 21518, 32493, 36816, 34892, 23558, 33258, 21160, 25918, 34892, 12290, 10, 23457, 25209, 21629, 20196] @ uni '': sudo nereus approve '') @ uni requestCode @
                 [10, 23433, 20840, 21407, 22240, 58, 32] @ cf_ruleText cfg reason @ [59, 32, 21305, 37197, 32467, 26524, 58, 32] @ reason_text policyReason;
               st = trace ''approval.authorization_requested'' st;
               st = emit (EvAuthorizationRequested callId name requestCode ai_reason reason policyReason) st;
               st = trace ''tool.result'' (emit (EvToolResult callId name False toolOutput) st)
           in give_model cfg env callId toolOutput used st))"

definition checked_call ::
  "config \<Rightarrow> 'w env \<Rightarrow> string \<Rightarrow> string \<Rightarrow> pydict \<Rightarrow> ToolRiskLevel \<Rightarrow> pyval \<Rightarrow> nat \<Rightarrow> 'w core \<Rightarrow> 'w step_result" where
  "checked_call cfg env callId name args risk ai_reason used st =
     (let (verdict, reason) = checkToolCallWithReason (cf_rules cfg) (cf_safety cfg) name risk args (ls_mode st);
          st = st\<lparr>ls_log := ls_log st @ [Checked (ls_mode st) name args]\<rparr>;
          st = emit (EvSafetyChecked name risk verdict reason ai_reason) (trace ''safety.check'' st)
      in case verdict of
           BLOCK \<Rightarrow>
             (let toolOutput = [91, 38459, 22622, 93, 32] @ cf_ruleText cfg reason;
                  st = emit (EvToolResult callId name False toolOutput) st;
                  st = trace ''tool.result'' (emit (EvError toolOutput) st)
              in give_model cfg env callId toolOutput used st)
         | REQUIRE_CONFIRM \<Rightarrow>
             if cf_nonInteractiveApprovals cfg \<or> cf_autoApproveScheduled cfg
             then unattended_call cfg env callId name args risk reason ai_reason used st
             else finish_call cfg env callId name used
                    (handleApproval cfg env name args reason ai_reason callId (trace ''approval.requested'' st))
         | ALLOW \<Rightarrow> finish_call cfg env callId name used (executeTool cfg env name args st))"

definition exec_call :: "config \<Rightarrow> 'w env \<Rightarrow> nat \<Rightarrow> tool_call \<Rightarrow> nat \<Rightarrow> 'w core \<Rightarrow> 'w step_result" where
  "exec_call cfg env index tc used st =
     (let name = tc_name tc; args = tc_arguments tc;
          (callId, st) = (if tc_id tc \<noteq> [] then (tc_id tc, st) else ask (en_id env) st)
      in if name = ''ask_choice'' then choice_call cfg env callId args used st
         else if name = ''submitPlan'' then plan_call cfg env callId args used st
         else if cf_maxToolCallsPerRound cfg > 0 \<and> int index \<ge> cf_maxToolCallsPerRound cfg then
           (let toolOutput = [91, 36339, 36807, 93, 32, 26412, 36718, 24037, 20855, 35843, 29992, 25968, 37327, 36229, 36807, 19978, 38480, 32] @ uni (str_of_int (cf_maxToolCallsPerRound cfg)) @ [65292, 35831, 20998, 25209, 32487, 32493, 27979, 35797, 12290];
                st = emit (EvToolResult callId name False toolOutput) (trace ''tool.skipped'' st)
            in Next used (appendToolMessage cfg env callId toolOutput st))
         else
           (let risk = cf_riskLevel cfg name;
                (ai_reason, args) = call_reason risk name args
            in if risk \<noteq> RL_READ_ONLY \<and> \<not> truthy ai_reason then
                 (let toolOutput = ([91, 32570, 23569] @ uni '' reason '' @ [21442, 25968, 93, 32, 35843, 29992, 32]) @ uni name @
                        ([32, 26102, 24517, 39035, 22635, 20889] @ uni '' reason '' @ [21442, 25968, 35828, 26126, 35843, 29992, 21407, 22240, 21644, 30446, 30340, 65292, 35831, 34917, 20805] @ uni '' reason '' @ [21518, 37325, 26032, 35843, 29992, 12290]);
                      st = emit (EvToolResult callId name False toolOutput) st
                  in give_model cfg env callId toolOutput used st)
               else checked_call cfg env callId name args risk ai_reason used st))"

fun exec_calls :: "config \<Rightarrow> 'w env \<Rightarrow> nat \<Rightarrow> tool_call list \<Rightarrow> nat \<Rightarrow> 'w core \<Rightarrow> 'w step_result" where
  "exec_calls cfg env index [] used st = Next used st"
| "exec_calls cfg env index (tc # tcs) used st =
     (case exec_call cfg env index tc used st of
        Next used st \<Rightarrow> exec_calls cfg env (Suc index) tcs used st
      | r \<Rightarrow> r)"

section \<open>The canary\<close>

text \<open>\<open>leakedIn\<close> of \<open>canary.py\<close> on a conversation text.\<close>

definition canary_check :: "'w env \<Rightarrow> utext \<Rightarrow> 'w core \<Rightarrow> (utext + bool) \<times> 'w core" where
  "canary_check env out_text st =
     (case ls_canary st of
        None \<Rightarrow> (Inr False, st)
      | Some m \<Rightarrow>
          if \<not> cm_enabled m then (Inr False, st)
          else
            (let ((hex, now), st) = ask (en_token env) st;
                 (r, m', f) = canary_token hex now m (ls_canaryFile st);
                 st = st\<lparr>ls_canary := Some m', ls_canaryFile := f\<rparr>
             in case r of
                  Inl e \<Rightarrow> (Inl (uni e), st)
                | Inr None \<Rightarrow> (Inr False, st)
                | Inr (Some tok) \<Rightarrow> (Inr (tok \<noteq> [] \<and> sublist (uni tok) out_text), st)))"

definition rotate :: "'w env \<Rightarrow> 'w core \<Rightarrow> 'w core" where
  "rotate env st =
     (case ls_canary st of
        None \<Rightarrow> st
      | Some m \<Rightarrow>
          (let ((hex, now), st) = ask (en_token env) st;
               (_, m', f) = canary_rotate hex now m (ls_canaryFile st)
           in st\<lparr>ls_canary := Some m', ls_canaryFile := f\<rparr>))"

section \<open>The loop\<close>

datatype LoopState = LS_IDLE | LS_THINKING | LS_EXECUTING | LS_PLAN_REVIEW | LS_DONE

record 'w loop =
  lp_state :: LoopState
  lp_round :: nat
  lp_calls :: "tool_call list"
  lp_break :: bool
  lp_exc :: "utext option"
  lp_core :: "'w core"

definition withinRoundLimit :: "config \<Rightarrow> nat \<Rightarrow> bool" where
  "withinRoundLimit cfg roundCount \<longleftrightarrow> cf_maxRounds cfg = 0 \<or> int roundCount < cf_maxRounds cfg"

definition args_text :: "tool_call \<Rightarrow> string" where
  "args_text tc = dumps False '', '' '': '' (PDict (tc_arguments tc))"

definition tool_blocks :: "tool_call list \<Rightarrow> tool_block list" where
  "tool_blocks tcs = map (\<lambda>tc. \<lparr>tb_id = tc_id tc, tb_name = tc_name tc, tb_arguments = args_text tc\<rparr>) tcs"

definition emit_deltas :: "chunk list \<Rightarrow> 'w core \<Rightarrow> 'w core" where
  "emit_deltas cks st = foldl (\<lambda>st line. emit (EvTextDelta line) st) st (concat (map (\<lambda>ck. splitLines (ck_content ck)) cks))"

text \<open>What the reply of the model leads to.\<close>

definition after_reply :: "LLMResponse \<Rightarrow> 'w loop \<Rightarrow> 'w loop" where
  "after_reply response l =
     (let st = trace ''llm.response'' (lp_core l); tcs = rs_tool_calls response;
          content = (case rs_content response of Some t \<Rightarrow> t | None \<Rightarrow> []) in
      if content \<noteq> [] \<and> tcs = [] then
        l\<lparr>lp_core := emit (EvTextDone (rs_usage response)) st, lp_state := LS_DONE\<rparr>
      else if tcs \<noteq> [] then
        (let preamble = ustrip content;
             st = emit (EvToolCalling (tool_blocks tcs) (rs_usage response)) st;
             st = add_msg \<lparr>mg_role = ''assistant'', mg_content = (if preamble \<noteq> [] then Some preamble else None),
                          mg_tool_calls = tool_blocks tcs, mg_tool_call_id = []\<rparr> st
         in l\<lparr>lp_core := st, lp_calls := tcs, lp_state := LS_EXECUTING\<rparr>)
      else
        l\<lparr>lp_core := emit EvDone (emit (EvTextDelta ((uni ''(AgentCore: '' @ [31354, 21709, 24212, 41]))) st), lp_state := LS_DONE\<rparr>)"

definition leak_stop :: "'w env \<Rightarrow> 'w loop \<Rightarrow> 'w loop" where
  "leak_stop env l =
     (let st = alert 2 (rotate env (trace ''canary.leaked'' (lp_core l)));
          st = emit (EvError [26816, 27979, 21040, 31995, 32479, 25552, 31034, 35789, 27844, 38706, 65288, 37329, 19997, 38592, 20196, 29260, 27844, 38706, 65289, 65292, 24050, 20013, 27490, 26412, 36718, 24182, 36718, 25442, 23433, 20840, 20196, 29260, 12290]) st;
          st = add_msg (say ''system'' [26816, 27979, 21040, 25552, 31034, 35789, 27880, 20837, 65288, 37329, 19997, 38592, 20196, 29260, 27844, 38706, 65289, 65292, 24050, 20013, 27490, 25191, 34892, 12290]) st
      in l\<lparr>lp_core := st, lp_state := LS_DONE, lp_break := True\<rparr>)"

text \<open>Compression, the request to the model, and the text deltas of its reply.\<close>

definition model_reply :: "config \<Rightarrow> 'w env \<Rightarrow> 'w loop \<Rightarrow> (chunk list \<times> utext option) \<times> 'w core" where
  "model_reply cfg env l =
     (let st = (lp_core l)\<lparr>ls_msgs := compress_default (ls_msgs (lp_core l)) (cf_contextWindow cfg)\<rparr>;
          st = trace ''llm.request'' (emit (EvThinkingStart (lp_round l)) st);
          ((cks, exc), st) = suspend env (en_chat env (injectModePrompt cfg (ls_mode st) (ls_msgs st))) st
      in ((cks, exc), emit_deltas cks st))"

definition reply_text :: "LLMResponse \<Rightarrow> utext" where
  "reply_text response =
     (case rs_content response of Some t \<Rightarrow> t | None \<Rightarrow> []) @ concat (map (\<lambda>tc. uni (args_text tc)) (rs_tool_calls response))"

definition think :: "config \<Rightarrow> 'w env \<Rightarrow> 'w loop \<Rightarrow> 'w loop" where
  "think cfg env l =
     (case model_reply cfg env l of ((cks, exc), st) \<Rightarrow>
        (case exc of
           Some e \<Rightarrow> l\<lparr>lp_core := st, lp_exc := Some e\<rparr>
         | None \<Rightarrow>
             (case canary_check env (reply_text (collect_chunks cks)) st of
                (Inl e, st) \<Rightarrow> l\<lparr>lp_core := st, lp_exc := Some e\<rparr>
              | (Inr True, st) \<Rightarrow> leak_stop env (l\<lparr>lp_core := st\<rparr>)
              | (Inr False, st) \<Rightarrow> after_reply (collect_chunks cks) (l\<lparr>lp_core := st\<rparr>))))"

definition execute :: "config \<Rightarrow> 'w env \<Rightarrow> 'w loop \<Rightarrow> 'w loop" where
  "execute cfg env l =
     (case exec_calls cfg env 0 (lp_calls l) 0 (lp_core l) of
        Next used st \<Rightarrow> l\<lparr>lp_core := st, lp_state := LS_THINKING\<rparr>
      | PlanStop st \<Rightarrow> l\<lparr>lp_core := st, lp_state := LS_PLAN_REVIEW\<rparr>
      | Abort e st \<Rightarrow> l\<lparr>lp_core := st, lp_exc := Some e\<rparr>)"

definition review :: "'w env \<Rightarrow> 'w loop \<Rightarrow> 'w loop" where
  "review env l =
     (case ls_pendingPlanProps (lp_core l) of
        Some (plan, callId) \<Rightarrow> l\<lparr>lp_core := waitForPlanApproval env plan callId (lp_core l), lp_state := LS_THINKING\<rparr>
      | None \<Rightarrow> l\<lparr>lp_exc := Some (uni ''TypeError'')\<rparr>)"

definition loop_cond :: "config \<Rightarrow> 'w loop \<Rightarrow> bool" where
  "loop_cond cfg l \<longleftrightarrow> lp_state l \<noteq> LS_DONE \<and> withinRoundLimit cfg (lp_round l) \<and> \<not> lp_break l \<and> lp_exc l = None"

definition loop_body :: "config \<Rightarrow> 'w env \<Rightarrow> rat \<Rightarrow> 'w loop \<Rightarrow> 'w loop" where
  "loop_body cfg env startTime l =
     (let l = l\<lparr>lp_round := Suc (lp_round l)\<rparr>;
          (now, st) = ask (en_now env) (lp_core l);
          l = l\<lparr>lp_core := st\<rparr>;
          elapsed = now - startTime
      in if cf_maxBackgroundTime cfg > 0 \<and> elapsed > cf_maxBackgroundTime cfg then
           (let st = emit (EvTextDelta (([10] @ uni ''[Agent '' @ [36816, 34892, 26102, 38388, 24050, 36798, 19978, 38480, 65288]) @ uni (str_of_int \<lfloor>elapsed / 60\<rfloor>) @
                       [32, 20998, 38047, 65289, 65292, 20250, 35805, 26242, 20572, 12290, 20320, 21487, 20197, 21457, 36865, 28040, 24687, 32487, 32493, 12290, 93])) st
            in l\<lparr>lp_core := trace ''background.timeout'' st, lp_break := True\<rparr>)
         else case lp_state l of
                LS_THINKING \<Rightarrow> think cfg env l
              | LS_EXECUTING \<Rightarrow> execute cfg env l
              | LS_PLAN_REVIEW \<Rightarrow> review env l
              | _ \<Rightarrow> l)"

definition finish_run :: "config \<Rightarrow> 'w env \<Rightarrow> 'w loop \<Rightarrow> 'w core" where
  "finish_run cfg env l =
     (let st = lp_core l;
          st = (if cf_maxRounds cfg > 0 \<and> int (lp_round l) \<ge> cf_maxRounds cfg
                then emit (EvTextDelta ([10, 91, 36798, 21040, 26368, 22823, 36718, 27425, 32] @ uni (str_of_int (cf_maxRounds cfg)) @ uni '']'')) st else st);
          (now, st) = ask (en_now env) st
      in emit EvDone (trace ''session.done'' st))"

definition INJECTION_REFUSED :: utext where
  "INJECTION_REFUSED = ([26816, 27979, 21040] @ uni '' Prompt Injection'')"

text \<open>The checks before the loop: \<open>Some\<close> when the message is let through.\<close>

definition admit_input :: "'w env \<Rightarrow> utext \<Rightarrow> 'w core \<Rightarrow> bool \<times> 'w core" where
  "admit_input env userMessage st =
     (let refuse = (\<lambda>level st. (False, emit EvDone (emit (EvError INJECTION_REFUSED) (alert level (trace ''injection.detected'' st)))))
      in if checkPromptInjection userMessage then refuse 1 st
         else
           (case suspend env (en_classify env userMessage) st of
              (Some v, st) \<Rightarrow> if cv_checked v \<and> cv_injection v then refuse 2 st else (True, trace ''input.received'' st)
            | (None, st) \<Rightarrow> (True, trace ''input.received'' st)))"

text \<open>\<open>canary.token()\<close> for the prompt.\<close>

definition prompt_token :: "'w env \<Rightarrow> 'w core \<Rightarrow> (utext + string option) \<times> 'w core" where
  "prompt_token env st =
     (case ls_canary st of
        None \<Rightarrow> (Inr None, st)
      | Some m \<Rightarrow>
          if \<not> cm_enabled m then (Inr None, st)
          else
            (let ((hex, now), st) = ask (en_token env) st;
                 (r, m', f) = canary_token hex now m (ls_canaryFile st);
                 st = st\<lparr>ls_canary := Some m', ls_canaryFile := f\<rparr>
             in case r of Inl e \<Rightarrow> (Inl (uni e), st) | Inr t \<Rightarrow> (Inr t, st)))"

definition start_loop :: "config \<Rightarrow> string option \<Rightarrow> utext \<Rightarrow> History.message list \<Rightarrow> 'w core \<Rightarrow> 'w loop" where
  "start_loop cfg token userMessage history st =
     \<lparr>lp_state = LS_THINKING, lp_round = 0, lp_calls = [], lp_break = False, lp_exc = None,
      lp_core = st\<lparr>ls_msgs := closeOrphanToolCalls (build_prompt cfg token userMessage history)\<rparr>\<rparr>"

text \<open>
  \<open>run\<close> with \<open>_runLoop\<close>: \<open>None\<close> when the loop never ends.  An exception becomes an error event.
\<close>

definition run :: "config \<Rightarrow> 'w env \<Rightarrow> utext \<Rightarrow> History.message list \<Rightarrow> 'w core \<Rightarrow> 'w core option" where
  "run cfg env userMessage history st =
     (let internal = (\<lambda>e st. emit (EvError ([20869, 37096, 38169, 35823, 58, 32] @ e)) st);
          (ok, st) = admit_input env userMessage st
      in if \<not> ok then Some st
         else
           (case prompt_token env st of
              (Inl e, st) \<Rightarrow> Some (internal e st)
            | (Inr token, st) \<Rightarrow>
                (let l = start_loop cfg token userMessage history st;
                     (startTime, st) = ask (en_now env) (lp_core l)
                 in map_option (\<lambda>l. case lp_exc l of Some e \<Rightarrow> internal e (lp_core l) | None \<Rightarrow> finish_run cfg env l)
                      (while_option (loop_cond cfg) (loop_body cfg env startTime) (l\<lparr>lp_core := st\<rparr>)))))"

end
