(* ===== verification/AgentLoopProps.thy ===== *)
theory AgentLoopProps
  imports AgentLoop
begin

text \<open>
  What the core loop of the agent guarantees: which tool calls are run, that every call is answered,
  how much tool output the model sees, and that a run ends with a terminal event.
\<close>

section \<open>Lemmas: fields\<close>

lemma ask_eq: "ask f st = (fst (f (ls_world st)), st\<lparr>ls_world := snd (f (ls_world st))\<rparr>)"
  by (simp add: ask_def split: prod.splits)

lemmas core_simps = emit_def trace_def alert_def add_msg_def ask_eq

lemma mode_simps [simp]:
  "ls_mode (emit e st) = ls_mode st" "ls_mode (trace k st) = ls_mode st" "ls_mode (alert n st) = ls_mode st"
  "ls_mode (add_msg m st) = ls_mode st"
  by (simp_all add: core_simps)

lemma msgs_simps [simp]:
  "ls_msgs (emit e st) = ls_msgs st" "ls_msgs (trace k st) = ls_msgs st" "ls_msgs (alert n st) = ls_msgs st"
  "ls_msgs (add_msg m st) = ls_msgs st @ [m]"
  by (simp_all add: core_simps)

section \<open>Authorized runs\<close>

text \<open>The mode after the calls of a wait.\<close>

definition switched :: "AgentMode \<Rightarrow> ext_call list \<Rightarrow> AgentMode" where
  "switched mode calls = foldl (\<lambda>m c. case c of CSwitchMode m' \<Rightarrow> m' | _ \<Rightarrow> m) mode calls"

text \<open>A person approved exactly this call, during the wait for it.\<close>

definition person_approved :: "log_entry list \<Rightarrow> ext_call list \<Rightarrow> string \<Rightarrow> pydict \<Rightarrow> bool" where
  "person_approved lg calls name args \<longleftrightarrow>
     (\<exists>i r ai cid why. lg = Emit (EvApprovalRequired name args i r ai cid) # map Delivered calls @
        [Emit (EvApprovalResolved i True why)] \<and> CApprove i \<in> set calls)"

definition pre_authorized :: "config \<Rightarrow> 'w env \<Rightarrow> string \<Rightarrow> pydict \<Rightarrow> bool" where
  "pre_authorized cfg env name args \<longleftrightarrow>
     (\<exists>w r. isPreAuthorizedToolCall (en_grants env w) (cf_scheduledApprovalPolicy cfg) (cf_sessionId cfg)
        (cf_autoRunTaskId cfg) (cf_autoRunSource cfg) name args = Some (True, r))"

abbreviation verdict_of :: "config \<Rightarrow> AgentMode \<Rightarrow> string \<Rightarrow> pydict \<Rightarrow> SafetyVerdict" where
  "verdict_of cfg mode name args \<equiv> checkToolCall (cf_rules cfg) (cf_safety cfg) name (cf_riskLevel cfg name) args mode"

text \<open>
  The log before a run: the check of this call in the mode \<open>md\<close> of that moment, its event, and what came between the
  check and the run.
\<close>

definition authorized :: "config \<Rightarrow> 'w env \<Rightarrow> log_entry list \<Rightarrow> AgentMode \<Rightarrow> string \<Rightarrow> pydict \<Rightarrow> bool" where
  "authorized cfg env pre mode name args \<longleftrightarrow>
     (\<exists>p md e between. pre = p @ Checked md name args # Emit e # between \<and>
        (verdict_of cfg md name args = ALLOW \<and> between = [] \<and> mode = md \<or>
         verdict_of cfg md name args = REQUIRE_CONFIRM \<and>
           (if cf_nonInteractiveApprovals cfg \<or> cf_autoApproveScheduled cfg
            then pre_authorized cfg env name args \<and> mode = md \<and> (\<exists>e. between = [Emit e])
            else \<exists>calls. person_approved between calls name args \<and> mode = switched md calls)))"

lemma authorizedI:
  "verdict_of cfg md name args = ALLOW \<Longrightarrow> pre = p @ [Checked md name args, Emit e] \<Longrightarrow> authorized cfg env pre md name args"
  "verdict_of cfg md name args = REQUIRE_CONFIRM \<Longrightarrow> cf_nonInteractiveApprovals cfg \<or> cf_autoApproveScheduled cfg \<Longrightarrow>
   pre_authorized cfg env name args \<Longrightarrow> pre = p @ [Checked md name args, Emit e, Emit e'] \<Longrightarrow> authorized cfg env pre md name args"
  "verdict_of cfg md name args = REQUIRE_CONFIRM \<Longrightarrow> \<not> (cf_nonInteractiveApprovals cfg \<or> cf_autoApproveScheduled cfg) \<Longrightarrow>
   person_approved between calls name args \<Longrightarrow> pre = p @ Checked md name args # Emit e # between \<Longrightarrow>
   authorized cfg env pre (switched md calls) name args"
proof -
  show "authorized cfg env pre md name args" if "verdict_of cfg md name args = ALLOW" "pre = p @ [Checked md name args, Emit e]"
    unfolding authorized_def using that by (intro exI [of _ p] exI [of _ md] exI [of _ e] exI [of _ "[]"]) simp
  show "authorized cfg env pre md name args" if "verdict_of cfg md name args = REQUIRE_CONFIRM"
      "cf_nonInteractiveApprovals cfg \<or> cf_autoApproveScheduled cfg" "pre_authorized cfg env name args"
      "pre = p @ [Checked md name args, Emit e, Emit e']"
    unfolding authorized_def using that by (intro exI [of _ p] exI [of _ md] exI [of _ e] exI [of _ "[Emit e']"]) simp
  show "authorized cfg env pre (switched md calls) name args" if "verdict_of cfg md name args = REQUIRE_CONFIRM"
      "\<not> (cf_nonInteractiveApprovals cfg \<or> cf_autoApproveScheduled cfg)" "person_approved between calls name args"
      "pre = p @ Checked md name args # Emit e # between"
    unfolding authorized_def using that by (intro exI [of _ p] exI [of _ md] exI [of _ e] exI [of _ between]) auto
qed

definition runs_authorized :: "config \<Rightarrow> 'w env \<Rightarrow> log_entry list \<Rightarrow> bool" where
  "runs_authorized cfg env lg \<longleftrightarrow>
     (\<forall>pre mode name args post. lg = pre @ Ran mode name args # post \<longrightarrow>
        (\<exists>args0. args = inject_ttl cfg name args0 \<and> authorized cfg env pre mode name args0))"

lemma runs_authorized_Nil [simp]: "runs_authorized cfg env []"
  by (simp add: runs_authorized_def)

lemma runs_authorized_snoc:
  "runs_authorized cfg env (lg @ [x]) \<longleftrightarrow> runs_authorized cfg env lg \<and>
     (\<forall>mode name args. x = Ran mode name args \<longrightarrow>
        (\<exists>args0. args = inject_ttl cfg name args0 \<and> authorized cfg env lg mode name args0))"
proof -
  have "lg @ [x] = pre @ Ran mode name args # post \<longleftrightarrow>
      (post = [] \<and> pre = lg \<and> x = Ran mode name args) \<or> (\<exists>post'. post = post' @ [x] \<and> lg = pre @ Ran mode name args # post')"
    for pre mode name args post
    by (cases post rule: rev_cases) auto
  then show ?thesis unfolding runs_authorized_def by (simp only:) blast
qed

lemma runs_authorized_delivered [simp]:
  "runs_authorized cfg env (lg @ map Delivered cs) \<longleftrightarrow> runs_authorized cfg env lg"
  by (induction cs rule: rev_induct) (simp_all add: runs_authorized_snoc append_assoc [symmetric] del: append_assoc)

text \<open>The state between two tool calls: nobody is waited for.\<close>

definition quiet :: "config \<Rightarrow> 'w env \<Rightarrow> 'w core \<Rightarrow> bool" where
  "quiet cfg env st \<longleftrightarrow> runs_authorized cfg env (ls_log st) \<and> ls_pendingApprovals st = [] \<and> ls_approvalDecisions st = [] \<and>
     ls_pendingPlanApproval st = None \<and> ls_pendingChoice st = None"

lemma quiet_simps [simp]:
  "quiet cfg env (emit e st) = quiet cfg env st"
  "quiet cfg env (trace k st) = quiet cfg env st"
  "quiet cfg env (alert n st) = quiet cfg env st"
  "quiet cfg env (add_msg m st) = quiet cfg env st"
  "quiet cfg env (st\<lparr>ls_world := w\<rparr>) = quiet cfg env st"
  "quiet cfg env (st\<lparr>ls_msgs := ms\<rparr>) = quiet cfg env st"
  "quiet cfg env (st\<lparr>ls_mode := md\<rparr>) = quiet cfg env st"
  "quiet cfg env (st\<lparr>ls_canary := c\<rparr>) = quiet cfg env st"
  "quiet cfg env (st\<lparr>ls_canaryFile := f\<rparr>) = quiet cfg env st"
  "quiet cfg env (st\<lparr>ls_pendingPlanProps := p\<rparr>) = quiet cfg env st"
  by (simp_all add: quiet_def core_simps runs_authorized_snoc)

lemma quiet_ask: "ask f st = (a, st') \<Longrightarrow> quiet cfg env st' = quiet cfg env st"
  by (auto simp: ask_eq)

lemma inject_ttl_other [simp]: "name \<noteq> ''submitElevation'' \<Longrightarrow> inject_ttl cfg name args = args"
  by (simp add: inject_ttl_def)

lemma foldl_deliver_quiet:
  "quiet cfg env st \<Longrightarrow> quiet cfg env (foldl deliver st cs)"
proof (induction cs arbitrary: st)
  case (Cons c cs)
  then have "quiet cfg env (deliver st c)"
    by (cases c) (simp_all add: quiet_def deliver_def resolveApproval_def decidePlan_def resolveChoice_def runs_authorized_snoc)
  with Cons.IH show ?case by simp
qed simp

lemma quiet_await: "quiet cfg env st \<Longrightarrow> quiet cfg env (await env' st)"
  by (simp add: await_def ask_eq foldl_deliver_quiet)

lemma suspend_eq: "suspend env f st = (fst (f (ls_world st)), await env (st\<lparr>ls_world := snd (f (ls_world st))\<rparr>))"
  by (simp add: suspend_def ask_eq)

lemma quiet_ran:
  assumes "quiet cfg env st" "authorized cfg env (ls_log st) (ls_mode st) name args"
  shows "quiet cfg env (st\<lparr>ls_log := ls_log st @ [Ran (ls_mode st) name (inject_ttl cfg name args)]\<rparr>)"
  using assms by (auto simp: quiet_def runs_authorized_snoc)

lemma quiet_executeTool:
  assumes "quiet cfg env st" "authorized cfg env (ls_log st) (ls_mode st) name args"
  shows "quiet cfg env (snd (executeTool cfg env name args st))"
proof (cases "name = ''runPrivileged''")
  case True
  then have "inject_ttl cfg name args = args" by simp
  with quiet_ran [OF assms] True show ?thesis
    by (auto simp: executeTool_def suspend_eq intro!: quiet_await)
next
  case False
  with quiet_ran [OF assms] show ?thesis
    by (auto simp: executeTool_def ask_eq suspend_eq Let_def quiet_def intro!: quiet_await [unfolded quiet_def])
qed

section \<open>Waits\<close>

text \<open>While the approval \<open>i\<close> is waited for, only calls for \<open>i\<close> have an effect.\<close>

lemma deliver_frame [simp]:
  "ls_world (deliver st c) = ls_world st" "ls_mode (deliver st c) = switched (ls_mode st) [c]" "ls_msgs (deliver st c) = ls_msgs st"
  "ls_log (deliver st c) = ls_log st @ [Delivered c]" "ls_pendingPlanProps (deliver st c) = ls_pendingPlanProps st"
  by (cases c; simp add: deliver_def resolveApproval_def decidePlan_def resolveChoice_def switched_def split: option.splits)+

lemma switched_simps [simp]: "switched m [] = m" "switched (switched m [c]) cs = switched m (c # cs)"
  by (simp_all add: switched_def)

lemma foldl_deliver_frame [simp]:
  "ls_world (foldl deliver st cs) = ls_world st" "ls_mode (foldl deliver st cs) = switched (ls_mode st) cs"
  "ls_msgs (foldl deliver st cs) = ls_msgs st" "ls_log (foldl deliver st cs) = ls_log st @ map Delivered cs"
  "ls_pendingPlanProps (foldl deliver st cs) = ls_pendingPlanProps st"
  by (induction cs arbitrary: st) simp_all

definition waiting :: "string \<Rightarrow> ext_call list \<Rightarrow> 'w core \<Rightarrow> bool" where
  "waiting i cs st \<longleftrightarrow>
     (\<exists>b d. ls_pendingApprovals st = [(i, b)] \<and> ls_approvalDecisions st = (if b then [(i, d)] else []) \<and>
        (b \<and> fst d \<longrightarrow> CApprove i \<in> set cs)) \<and> ls_pendingPlanApproval st = None \<and> ls_pendingChoice st = None"

lemma waiting_deliver: "waiting i cs st \<Longrightarrow> waiting i (cs @ [c]) (deliver st c)"
proof -
  assume "waiting i cs st"
  then obtain b d where st: "ls_pendingApprovals st = [(i, b)]" "ls_approvalDecisions st = (if b then [(i, d)] else [])"
    "b \<and> fst d \<longrightarrow> CApprove i \<in> set cs" "ls_pendingPlanApproval st = None" "ls_pendingChoice st = None"
    unfolding waiting_def by blast
  show ?thesis
  proof (cases c)
    case (CApprove j)
    with st show ?thesis
      by (cases "j = i"; cases d) (auto simp: waiting_def deliver_def resolveApproval_def)
  next
    case (CReject j reason)
    with st show ?thesis
      by (cases "j = i"; cases d) (auto simp: waiting_def deliver_def resolveApproval_def)
  qed (use st in \<open>(cases d, auto simp: waiting_def deliver_def decidePlan_def resolveChoice_def)+\<close>)
qed

lemma waiting_foldl: "waiting i cs0 st \<Longrightarrow> waiting i (cs0 @ cs) (foldl deliver st cs)"
proof (induction cs arbitrary: cs0 st)
  case (Cons c cs)
  from Cons.IH [OF waiting_deliver [OF Cons.prems, of c]] show ?case by simp
qed simp

text \<open>A person's approval is the only way from \<open>handleApproval\<close> to the tool.\<close>

lemma quiet_handleApproval:
  assumes "quiet cfg env st" "verdict_of cfg (ls_mode st) name args = REQUIRE_CONFIRM"
    "ls_log st = p @ [Checked (ls_mode st) name args, Emit e]"
    "\<not> (cf_nonInteractiveApprovals cfg \<or> cf_autoApproveScheduled cfg)"
  shows "quiet cfg env (snd (handleApproval cfg env name args reason ai cid st))"
proof -
  define i where "i = fst (en_id env (ls_world st))"
  define st1 where "st1 = emit (EvApprovalRequired name args i reason ai cid)
    ((snd (ask (en_id env) st))\<lparr>ls_pendingApprovals := AList.update i False (ls_pendingApprovals (snd (ask (en_id env) st)))\<rparr>)"
  define cs where "cs = fst (en_calls env (ls_world st1))"
  define st2 where "st2 = foldl deliver (snd (ask (en_calls env) st1)) cs"
  have q: "runs_authorized cfg env (ls_log st)" "ls_pendingApprovals st = []" "ls_approvalDecisions st = []"
    "ls_pendingPlanApproval st = None" "ls_pendingChoice st = None"
    using assms(1) by (simp_all add: quiet_def)
  have "waiting i [] (snd (ask (en_calls env) st1))"
    using q by (auto simp: waiting_def st1_def core_simps)
  from waiting_foldl [OF this, of cs] have "waiting i cs st2" by (simp add: st2_def)
  then obtain b d where w: "ls_pendingApprovals st2 = [(i, b)]" "ls_approvalDecisions st2 = (if b then [(i, d)] else [])"
    "b \<and> fst d \<longrightarrow> CApprove i \<in> set cs" "ls_pendingPlanApproval st2 = None" "ls_pendingChoice st2 = None"
    unfolding waiting_def by blast
  define st3 where "st3 = st2\<lparr>ls_pendingApprovals := [], ls_approvalDecisions := []\<rparr>"
  have lg: "ls_log st3 = ls_log st @ Emit (EvApprovalRequired name args i reason ai cid) # map Delivered cs"
    by (simp add: st3_def st2_def st1_def core_simps)
  have "runs_authorized cfg env ((ls_log st @ [Emit (EvApprovalRequired name args i reason ai cid)]) @ map Delivered cs)"
    unfolding runs_authorized_delivered using q(1) by (simp add: runs_authorized_snoc)
  then have q3: "quiet cfg env st3"
    using w(4,5) by (simp add: quiet_def lg) (simp add: st3_def)
  have mode: "ls_mode st3 = switched (ls_mode st) cs" by (simp add: st3_def st2_def st1_def core_simps)
  have run: "quiet cfg env (snd (executeTool cfg env name args (emit (EvApprovalResolved i True (snd d)) st3)))" if "b" "fst d"
  proof (rule quiet_executeTool)
    let ?b = "Emit (EvApprovalRequired name args i reason ai cid) # map Delivered cs @ [Emit (EvApprovalResolved i True (snd d))]"
    have "person_approved ?b cs name args" unfolding person_approved_def using w(3) that by blast
    moreover have "ls_log (emit (EvApprovalResolved i True (snd d)) st3) = p @ Checked (ls_mode st) name args # Emit e # ?b"
      by (simp add: emit_def lg assms(3))
    ultimately show "authorized cfg env (ls_log (emit (EvApprovalResolved i True (snd d)) st3))
        (ls_mode (emit (EvApprovalResolved i True (snd d)) st3)) name args"
      using authorizedI(3) [OF assms(2,4)] by (simp add: mode)
  qed (use q3 in simp)
  have eq: "handleApproval cfg env name args reason ai cid st =
      (if \<not> b then (fst (handleApproval cfg env name args reason ai cid st), emit (EvApprovalResolved i False [23457, 25209, 36229, 26102]) st3)
       else if fst d then executeTool cfg env name args (emit (EvApprovalResolved i True (snd d)) st3)
       else (fst (handleApproval cfg env name args reason ai cid st), emit (EvApprovalResolved i False (snd d)) st3))"
    unfolding handleApproval_def await_def
    by (cases d) (simp add: Let_def ask_eq i_def [symmetric] st1_def [unfolded ask_eq, simplified, symmetric]
       cs_def [symmetric] st2_def [unfolded ask_eq, simplified, symmetric] w st3_def)
  show ?thesis
    by (subst eq) (use run q3 in auto)
qed

text \<open>Nothing is decided that is not asked.\<close>

lemma foldl_deliver_approvals:
  "ls_pendingApprovals st = [] \<Longrightarrow>
     ls_pendingApprovals (foldl deliver st cs) = [] \<and> ls_approvalDecisions (foldl deliver st cs) = ls_approvalDecisions st"
proof (induction cs arbitrary: st)
  case (Cons c cs)
  then have "ls_pendingApprovals (deliver st c) = []" "ls_approvalDecisions (deliver st c) = ls_approvalDecisions st"
    by (cases c; simp add: deliver_def resolveApproval_def decidePlan_def resolveChoice_def split: option.splits)+
  with Cons.IH show ?case by simp
qed simp

lemma foldl_deliver_plan:
  "ls_pendingPlanApproval st = None \<Longrightarrow> ls_pendingPlanApproval (foldl deliver st cs) = None"
proof (induction cs arbitrary: st)
  case (Cons c cs)
  then have "ls_pendingPlanApproval (deliver st c) = None"
    by (cases c) (simp_all add: deliver_def resolveApproval_def decidePlan_def resolveChoice_def split: option.splits)
  with Cons.IH show ?case by simp
qed simp

lemma foldl_deliver_choice:
  "ls_pendingChoice st = None \<Longrightarrow> ls_pendingChoice (foldl deliver st cs) = None"
proof (induction cs arbitrary: st)
  case (Cons c cs)
  then have "ls_pendingChoice (deliver st c) = None"
    by (cases c) (simp_all add: deliver_def resolveApproval_def decidePlan_def resolveChoice_def split: option.splits)
  with Cons.IH show ?case by simp
qed simp

lemma quiet_waitForChoice:
  assumes "quiet cfg env st"
  shows "quiet cfg env (snd (waitForChoice env q opts st))"
proof -
  let ?i = "fst (en_id env (ls_world st))"
  let ?st = "emit (EvChoiceRequired q opts ?i) (st\<lparr>ls_world := snd (en_id env (ls_world st)), ls_pendingChoice := Some (?i, False)\<rparr>)"
  let ?st1 = "?st\<lparr>ls_world := snd (en_calls env (ls_world ?st))\<rparr>"
  let ?st2 = "foldl deliver ?st1 (fst (en_calls env (ls_world ?st)))"
  have "ls_pendingApprovals ?st1 = []" "ls_pendingPlanApproval ?st1 = None" "ls_approvalDecisions ?st1 = []"
    using assms by (simp_all add: quiet_def emit_def)
  with foldl_deliver_approvals [of ?st1] foldl_deliver_plan [of ?st1] assms
  have "quiet cfg env (?st2\<lparr>ls_pendingChoice := None, ls_choiceDecision := None\<rparr>)"
    by (simp add: quiet_def) (simp add: emit_def runs_authorized_snoc)
  then show ?thesis by (simp add: waitForChoice_def await_def ask_eq Let_def)
qed

lemma quiet_waitForPlanApproval:
  assumes "quiet cfg env st"
  shows "quiet cfg env (waitForPlanApproval env plan cid st)"
proof -
  let ?i = "fst (en_id env (ls_world st))"
  let ?st = "st\<lparr>ls_world := snd (en_id env (ls_world st)), ls_pendingPlanApproval := Some (?i, False)\<rparr>"
  let ?st1 = "?st\<lparr>ls_world := snd (en_calls env (ls_world ?st))\<rparr>"
  let ?st2 = "foldl deliver ?st1 (fst (en_calls env (ls_world ?st)))"
  have "ls_pendingApprovals ?st1 = []" "ls_pendingChoice ?st1 = None" "ls_approvalDecisions ?st1 = []"
    using assms by (simp_all add: quiet_def)
  with foldl_deliver_approvals [of ?st1] foldl_deliver_choice [of ?st1] assms
  have "quiet cfg env (?st2\<lparr>ls_pendingPlanApproval := None, ls_planApprovalDecision := None, ls_pendingPlanProps := None\<rparr>)"
    by (simp add: quiet_def)
  then show ?thesis by (simp add: waitForPlanApproval_def await_def ask_eq Let_def)
qed

section \<open>Every step keeps the invariant\<close>

fun result_core :: "'w step_result \<Rightarrow> 'w core" where
  "result_core (Next used st) = st"
| "result_core (PlanStop st) = st"
| "result_core (Abort e st) = st"

lemma quiet_append [simp]: "quiet cfg env st \<Longrightarrow> quiet cfg env (appendToolMessage cfg' env' cid t st)"
  by (simp add: appendToolMessage_def suspend_eq Let_def quiet_await split: option.splits)

lemma quiet_give_model [simp]:
  "quiet cfg env st \<Longrightarrow> quiet cfg env (result_core (give_model cfg' env' cid t used st))"
  by (simp add: give_model_def Let_def)

lemma quiet_finish_call [simp]:
  "quiet cfg env (snd r) \<Longrightarrow> quiet cfg env (result_core (finish_call cfg' env' cid name used r))"
  by (auto simp: finish_call_def split: prod.splits sum.splits)

lemma quiet_choice_call: "quiet cfg env st \<Longrightarrow> quiet cfg env (result_core (choice_call cfg env cid args used st))"
  using quiet_waitForChoice [of cfg env st]
  by (simp add: choice_call_def Let_def case_prod_unfold split: option.splits)

lemma quiet_plan_call: "quiet cfg env st \<Longrightarrow> quiet cfg env (result_core (plan_call cfg env cid args used st))"
  by (simp add: plan_call_def Let_def split: sum.splits plan_error.splits)

lemma quiet_unattended_call:
  assumes "quiet cfg env st" "verdict_of cfg (ls_mode st) name args = REQUIRE_CONFIRM"
    "ls_log st = p @ [Checked (ls_mode st) name args, Emit e]"
    "cf_nonInteractiveApprovals cfg \<or> cf_autoApproveScheduled cfg"
  shows "quiet cfg env (result_core (unattended_call cfg env cid name args risk reason ai used st))"
proof -
  have run: "quiet cfg env (snd (executeTool cfg env name args (emit e' (trace k st))))"
    if "isPreAuthorizedToolCall (en_grants env (ls_world st)) (cf_scheduledApprovalPolicy cfg) (cf_sessionId cfg)
             (cf_autoRunTaskId cfg) (cf_autoRunSource cfg) name args = Some (True, r)" for r e' k
  proof (rule quiet_executeTool)
    have "pre_authorized cfg env name args" using that unfolding pre_authorized_def by blast
    moreover have "ls_log (emit e' (trace k st)) = p @ [Checked (ls_mode st) name args, Emit e, Emit e']"
      by (simp add: core_simps assms(3))
    ultimately show "authorized cfg env (ls_log (emit e' (trace k st))) (ls_mode (emit e' (trace k st))) name args"
      using authorizedI(2) [OF assms(2,4)] by simp
  qed (use assms(1) in simp)
  show ?thesis
    using run assms(1)
    by (auto simp: unattended_call_def submitAuthorizationRequest_def Let_def ask_eq split: option.splits prod.splits bool.splits)
qed

lemma quiet_checked: "quiet cfg env st \<Longrightarrow> quiet cfg env (st\<lparr>ls_log := ls_log st @ [Checked m name args]\<rparr>)"
  by (simp add: quiet_def runs_authorized_snoc)

lemma quiet_checked_call:
  assumes "quiet cfg env st" "risk = cf_riskLevel cfg name"
  shows "quiet cfg env (result_core (checked_call cfg env cid name args risk ai used st))"
proof -
  obtain v r where v: "checkToolCallWithReason (cf_rules cfg) (cf_safety cfg) name risk args (ls_mode st) = (v, r)"
    by (cases "checkToolCallWithReason (cf_rules cfg) (cf_safety cfg) name risk args (ls_mode st)")
  then have vv: "verdict_of cfg (ls_mode st) name args = v" using assms(2) by (simp add: checkToolCall_def)
  define st' where "st' = emit (EvSafetyChecked name risk v r ai)
    (trace ''safety.check'' (st\<lparr>ls_log := ls_log st @ [Checked (ls_mode st) name args]\<rparr>))"
  have q: "quiet cfg env st'" using assms(1) by (simp add: st'_def quiet_checked)
  have lg: "ls_log st' = ls_log st @ [Checked (ls_mode st') name args, Emit (EvSafetyChecked name risk v r ai)]"
    and mode: "ls_mode st' = ls_mode st"
    by (simp_all add: st'_def core_simps)
  have eq: "checked_call cfg env cid name args risk ai used st = (case v of
      BLOCK \<Rightarrow> give_model cfg env cid ([91, 38459, 22622, 93, 32] @ cf_ruleText cfg r) used (trace ''tool.result''
        (emit (EvError ([91, 38459, 22622, 93, 32] @ cf_ruleText cfg r)) (emit (EvToolResult cid name False ([91, 38459, 22622, 93, 32] @ cf_ruleText cfg r)) st')))
    | REQUIRE_CONFIRM \<Rightarrow> if cf_nonInteractiveApprovals cfg \<or> cf_autoApproveScheduled cfg
        then unattended_call cfg env cid name args risk r ai used st'
        else finish_call cfg env cid name used (handleApproval cfg env name args r ai cid (trace ''approval.requested'' st'))
    | ALLOW \<Rightarrow> finish_call cfg env cid name used (executeTool cfg env name args st'))"
    by (cases v) (simp_all add: checked_call_def v Let_def st'_def)
  show ?thesis
  proof (cases v)
    case ALLOW
    have "authorized cfg env (ls_log st') (ls_mode st') name args"
      using authorizedI(1) [OF _ lg] mode vv ALLOW by simp
    with ALLOW show ?thesis by (simp add: eq quiet_executeTool [OF q])
  next
    case REQUIRE_CONFIRM
    show ?thesis
    proof (cases "cf_nonInteractiveApprovals cfg \<or> cf_autoApproveScheduled cfg")
      case True
      with quiet_unattended_call [OF q _ lg] REQUIRE_CONFIRM vv mode show ?thesis by (simp add: eq)
    next
      case False
      have "quiet cfg env (snd (handleApproval cfg env name args r ai cid (trace ''approval.requested'' st')))"
      proof (rule quiet_handleApproval)
        show "ls_log (trace ''approval.requested'' st') = ls_log st @
            [Checked (ls_mode (trace ''approval.requested'' st')) name args, Emit (EvSafetyChecked name risk v r ai)]"
          using lg by (simp add: trace_def)
      qed (use q False REQUIRE_CONFIRM vv mode in simp_all)
      with False REQUIRE_CONFIRM show ?thesis by (simp add: eq)
    qed
  next
    case BLOCK
    then show ?thesis using q by (simp add: eq)
  qed
qed

lemma quiet_exec_call:
  assumes "quiet cfg env st"
  shows "quiet cfg env (result_core (exec_call cfg env index tc used st))"
proof -
  obtain cid st' where c: "(if tc_id tc \<noteq> [] then (tc_id tc, st) else ask (en_id env) st) = (cid, st')"
    by (cases "if tc_id tc \<noteq> [] then (tc_id tc, st) else ask (en_id env) st")
  then have q: "quiet cfg env st'" using assms by (auto simp: ask_eq split: if_splits)
  show ?thesis
    unfolding exec_call_def Let_def c
    using q quiet_choice_call [OF q] quiet_plan_call [OF q] quiet_checked_call [OF q]
    by (simp add: call_reason_def Let_def)
qed

lemma quiet_exec_calls: "quiet cfg env st \<Longrightarrow> quiet cfg env (result_core (exec_calls cfg env index tcs used st))"
proof (induction tcs arbitrary: index used st)
  case (Cons tc tcs)
  have "quiet cfg env (result_core (exec_call cfg env index tc used st))" by (rule quiet_exec_call [OF Cons.prems])
  with Cons.IH show ?case by (cases "exec_call cfg env index tc used st") simp_all
qed simp

lemma quiet_emit_deltas [simp]: "quiet cfg env (emit_deltas cks st) = quiet cfg env st"
proof -
  have "quiet cfg env (foldl (\<lambda>st line. emit (EvTextDelta line) st) st ls) = quiet cfg env st" for ls
    by (induction ls arbitrary: st) simp_all
  then show ?thesis by (simp add: emit_deltas_def)
qed

lemma quiet_canary_check: "canary_check env' t st = (r, st') \<Longrightarrow> quiet cfg env st' = quiet cfg env st"
  by (auto simp: canary_check_def ask_eq Let_def split: option.splits if_splits prod.splits sum.splits)

lemma quiet_rotate [simp]: "quiet cfg env (rotate env' st) = quiet cfg env st"
  by (simp add: rotate_def ask_eq Let_def split: option.splits prod.splits)

lemma quiet_after_reply [simp]: "quiet cfg env (lp_core (after_reply r l)) = quiet cfg env (lp_core l)"
  by (simp add: after_reply_def Let_def)

lemma quiet_leak_stop [simp]: "quiet cfg env (lp_core (leak_stop env' l)) = quiet cfg env (lp_core l)"
  by (simp add: leak_stop_def Let_def)

lemma quiet_model_reply: "quiet cfg env (lp_core l) \<Longrightarrow> quiet cfg env (snd (model_reply cfg' env' l))"
  by (simp add: model_reply_def Let_def suspend_eq case_prod_unfold quiet_await)

text \<open>What a thinking step leaves of the loop.\<close>

lemma think_elim:
  obtains (failed) st e where "think cfg env l = l\<lparr>lp_core := st, lp_exc := Some e\<rparr>"
      "st = snd (model_reply cfg env l) \<or> (\<exists>t r. canary_check env t (snd (model_reply cfg env l)) = (r, st))"
  | (leaked) st t r where "think cfg env l = leak_stop env (l\<lparr>lp_core := st\<rparr>)" "canary_check env t (snd (model_reply cfg env l)) = (r, st)"
  | (ok) st t r resp where "think cfg env l = after_reply resp (l\<lparr>lp_core := st\<rparr>)" "canary_check env t (snd (model_reply cfg env l)) = (r, st)"
proof -
  obtain cks exc st where r: "model_reply cfg env l = ((cks, exc), st)" by (metis prod.collapse)
  obtain lk st2 where c: "canary_check env (reply_text (collect_chunks cks)) st = (lk, st2)" by (metis prod.collapse)
  show thesis
  proof (cases exc)
    case (Some e)
    have "think cfg env l = l\<lparr>lp_core := st, lp_exc := Some e\<rparr>" using r Some by (simp add: think_def)
    with r show thesis by (auto intro: failed)
  next
    case None
    consider e where "lk = Inl e" | "lk = Inr True" | "lk = Inr False" by (metis (full_types) sum.exhaust)
    then show thesis
    proof cases
      case 1
      have "think cfg env l = l\<lparr>lp_core := st2, lp_exc := Some e\<rparr>" using r None c 1 by (simp add: think_def)
      with r c show thesis by (auto intro!: failed)
    next
      case 2
      have "think cfg env l = leak_stop env (l\<lparr>lp_core := st2\<rparr>)" using r None c 2 by (simp add: think_def)
      with r c show thesis by (auto intro!: leaked)
    next
      case 3
      have "think cfg env l = after_reply (collect_chunks cks) (l\<lparr>lp_core := st2\<rparr>)" using r None c 3 by (simp add: think_def)
      with r c show thesis by (auto intro!: ok)
    qed
  qed
qed

lemma quiet_think: "quiet cfg env (lp_core l) \<Longrightarrow> quiet cfg env (lp_core (think cfg env l))"
  by (cases rule: think_elim [of cfg env l]) (auto simp: quiet_model_reply quiet_canary_check)

lemma quiet_execute: "quiet cfg env (lp_core l) \<Longrightarrow> quiet cfg env (lp_core (execute cfg env l))"
  using quiet_exec_calls [of cfg env "lp_core l" 0 "lp_calls l" 0]
  by (cases "exec_calls cfg env 0 (lp_calls l) 0 (lp_core l)") (simp_all add: execute_def)

lemma quiet_review: "quiet cfg env (lp_core l) \<Longrightarrow> quiet cfg env (lp_core (review env l))"
  by (simp add: review_def quiet_waitForPlanApproval split: option.splits prod.splits)

lemma quiet_loop_body: "quiet cfg env (lp_core l) \<Longrightarrow> quiet cfg env (lp_core (loop_body cfg env t0 l))"
  by (simp add: loop_body_def ask_eq Let_def quiet_think quiet_execute quiet_review split: LoopState.splits)

lemma quiet_new_core [simp]: "quiet cfg env (new_core w mode canary file)"
  by (simp add: quiet_def new_core_def)

lemma quiet_iterate:
  "quiet cfg env (lp_core l) \<Longrightarrow> quiet cfg env (lp_core ((loop_body cfg env t0 ^^ n) l))"
  by (induction n) (simp_all add: quiet_loop_body)

lemma quiet_start_loop [simp]: "quiet cfg env (lp_core (start_loop cfg' token msg hist st)) = quiet cfg env st"
  by (simp add: start_loop_def)

lemma quiet_admit_input: "admit_input env' msg st = (ok, st') \<Longrightarrow> quiet cfg env st \<Longrightarrow> quiet cfg env st'"
  by (auto simp: admit_input_def suspend_eq Let_def quiet_await split: option.splits if_splits)

lemma quiet_prompt_token: "prompt_token env' st = (r, st') \<Longrightarrow> quiet cfg env st' = quiet cfg env st"
  by (auto simp: prompt_token_def ask_eq Let_def split: option.splits if_splits prod.splits sum.splits)

lemma quiet_finish_run [simp]: "quiet cfg env (finish_run cfg' env' l) = quiet cfg env (lp_core l)"
  by (simp add: finish_run_def ask_eq Let_def)

text \<open>How \<open>run\<close> ends.\<close>

lemma run_cases:
  assumes "run cfg env msg hist st = Some st'"
  obtains (refused) "admit_input env msg st = (False, st')"
  | (no_prompt) st1 st2 e where "admit_input env msg st = (True, st1)" "prompt_token env st1 = (Inl e, st2)"
      "\<exists>t. st' = emit (EvError t) st2"
  | (ran) st1 st2 token t0 l l' where "admit_input env msg st = (True, st1)" "prompt_token env st1 = (Inr token, st2)"
      "l = (start_loop cfg token msg hist st2)\<lparr>lp_core := (lp_core (start_loop cfg token msg hist st2))
         \<lparr>ls_world := snd (en_now env (ls_world st2))\<rparr>\<rparr>"
      "while_option (loop_cond cfg) (loop_body cfg env t0) l = Some l'"
      "\<exists>t. st' = (case lp_exc l' of Some e \<Rightarrow> emit (EvError (t e)) (lp_core l') | None \<Rightarrow> finish_run cfg env l')"
proof -
  obtain ok st1 where a: "admit_input env msg st = (ok, st1)" by (cases "admit_input env msg st")
  obtain r st2 where t: "prompt_token env st1 = (r, st2)" by (cases "prompt_token env st1")
  have w: "ls_world (lp_core (start_loop cfg token msg hist st2)) = ls_world st2" for token by (simp add: start_loop_def)
  show thesis
  proof (cases ok)
    case False
    with assms a have "admit_input env msg st = (False, st')" by (simp add: run_def Let_def)
    then show thesis by (rule refused)
  next
    case True
    show thesis
    proof (cases r)
      case (Inl e)
      then have "\<exists>t. st' = emit (EvError t) st2" using assms a t True by (auto simp: run_def Let_def)
      with a t True Inl show thesis by (intro no_prompt) auto
    next
      case (Inr token)
      with assms a t True show thesis
        by (auto simp: run_def Let_def ask_eq w intro!: ran)
    qed
  qed
qed

section \<open>Properties\<close>

text \<open>
  C2. No tool runs without authority. In a run of the agent, finished or not, whatever the model, the
  tools and other tasks do, each tool that was run had just been checked by the rule engine in the mode of that
  moment: the verdict was to allow it and nothing came between check and run; or it was to confirm it, and then
  either a person approved exactly this tool with these arguments while it was waited for, or, in an unattended run, the
  approval policy or an approved request covers it.  The mode at the run is the mode of the check, unless it was
  switched during the wait for the person. (The life time that is added to a privileged request of an unattended run is
  the only change to the arguments.)
\<close>

theorem tools_run_authorized:
  "runs_authorized cfg env (ls_log (lp_core ((loop_body cfg env t0 ^^ n) (start_loop cfg token msg hist (new_core w mode canary file))))) \<and>
   (case run cfg env msg hist (new_core w mode canary file) of Some st \<Rightarrow> runs_authorized cfg env (ls_log st) | None \<Rightarrow> True)"
proof
  show "runs_authorized cfg env (ls_log (lp_core ((loop_body cfg env t0 ^^ n) (start_loop cfg token msg hist (new_core w mode canary file)))))"
    using quiet_iterate [of cfg env "start_loop cfg token msg hist (new_core w mode canary file)" n t0]
    unfolding quiet_start_loop by (simp add: quiet_def [of cfg env "lp_core _"])
  have "quiet cfg env st'" if "run cfg env msg hist (new_core w mode canary file) = Some st'" for st'
    using that
  proof (cases rule: run_cases)
    case refused
    then show ?thesis using quiet_admit_input by (metis quiet_new_core)
  next
    case (no_prompt st1 st2 e)
    then have "quiet cfg env st2" using quiet_admit_input quiet_prompt_token by (metis quiet_new_core)
    with no_prompt(3) show ?thesis by auto
  next
    case (ran st1 st2 token t0 l l')
    have "quiet cfg env st2" using ran(1,2) quiet_admit_input quiet_prompt_token by (metis quiet_new_core)
    then have "quiet cfg env (lp_core l)" by (simp add: ran(3))
    with ran(4) have "quiet cfg env (lp_core l')"
      by (rule while_option_rule [where P = "\<lambda>l. quiet cfg env (lp_core l)", rotated 1]) (simp add: quiet_loop_body)
    with ran(5) show ?thesis by (auto split: option.splits)
  qed
  then show "case run cfg env msg hist (new_core w mode canary file) of Some st \<Rightarrow> runs_authorized cfg env (ls_log st) | None \<Rightarrow> True"
    by (auto simp: quiet_def split: option.splits)
qed

section \<open>Termination\<close>

lemma lp_round_after_reply [simp]: "lp_round (after_reply r l) = lp_round l"
  by (simp add: after_reply_def Let_def)

lemma lp_round_leak_stop [simp]: "lp_round (leak_stop env l) = lp_round l"
  by (simp add: leak_stop_def Let_def)

lemma lp_round_think [simp]: "lp_round (think cfg env l) = lp_round l"
  by (cases rule: think_elim [of cfg env l]) simp_all

lemma lp_round_execute [simp]: "lp_round (execute cfg env l) = lp_round l"
  by (simp add: execute_def split: step_result.splits)

lemma lp_round_review [simp]: "lp_round (review env l) = lp_round l"
  by (simp add: review_def split: option.splits prod.splits)

lemma lp_round_body: "lp_round (loop_body cfg env t0 l) = Suc (lp_round l)"
  by (simp add: loop_body_def ask_eq Let_def split: LoopState.splits)

lemma loop_ends_rounds:
  assumes "cf_maxRounds cfg \<noteq> 0"
  shows "\<exists>l'. while_option (loop_cond cfg) (loop_body cfg env t0) l = Some l'"
  by (rule measure_while_option_Some [where P = "\<lambda>_. True" and f = "\<lambda>l. nat (cf_maxRounds cfg - int (lp_round l))"])
     (use assms in \<open>simp_all add: loop_cond_def withinRoundLimit_def lp_round_body\<close>)

text \<open>The run returns when its loop does.\<close>

lemma run_returns:
  assumes "\<And>l t0. \<exists>l'. while_option (loop_cond cfg) (loop_body cfg env t0) l = Some l'"
  shows "\<exists>st'. run cfg env msg hist st = Some st'"
proof -
  obtain r st2 where t: "prompt_token env (snd (admit_input env msg st)) = (r, st2)" by (metis prod.collapse)
  show ?thesis
    using assms by (cases r) (auto simp: run_def Let_def t ask_eq case_prod_unfold)
qed

definition terminal :: "log_entry \<Rightarrow> bool" where
  "terminal x \<longleftrightarrow> x = Emit EvDone \<or> (\<exists>t. x = Emit (EvError t))"

lemma last_emit [simp]: "last (ls_log (emit e st)) = Emit e"
  by (simp add: emit_def)

lemma run_ends_terminal:
  assumes "run cfg env msg hist st = Some st'"
  shows "ls_log st' \<noteq> [] \<and> terminal (last (ls_log st'))"
  using assms
proof (cases rule: run_cases)
  case refused
  then show ?thesis
    by (auto simp: admit_input_def Let_def terminal_def split: if_splits option.splits prod.splits) (auto simp: emit_def)
next
  case (no_prompt st1 st2 e)
  then show ?thesis by (auto simp: terminal_def) (simp add: emit_def)
next
  case (ran st1 st2 token t0 l l')
  then show ?thesis
    by (auto simp: terminal_def finish_run_def Let_def case_prod_unfold split: option.splits) (auto simp: emit_def)
qed

text \<open>
  C5. A run with a limit on the rounds always ends, and whatever happens (refused input, an answer, a leaked canary, an exception of the model or of a tool) the last
  event of its stream is one that ends the reading of the stream: done or an error.
\<close>

theorem run_terminates:
  assumes "cf_maxRounds cfg \<noteq> 0"
  shows "\<exists>st'. run cfg env msg hist st = Some st' \<and> ls_log st' \<noteq> [] \<and> terminal (last (ls_log st'))"
proof -
  obtain st' where "run cfg env msg hist st = Some st'" using run_returns [OF loop_ends_rounds [OF assms]] by blast
  with run_ends_terminal show ?thesis by blast
qed

section \<open>The time limit\<close>

text \<open>A clock of the world that no operation turns back.\<close>

definition never_back :: "'w env \<Rightarrow> ('w \<Rightarrow> rat) \<Rightarrow> bool" where
  "never_back env clk \<longleftrightarrow>
     (\<forall>w. clk w \<le> clk (snd (en_now env w)) \<and> clk w \<le> clk (snd (en_id env w)) \<and> clk w \<le> clk (snd (en_token env w)) \<and>
        clk w \<le> clk (snd (en_calls env w)) \<and>
        (\<forall>ms. clk w \<le> clk (snd (en_chat env ms w))) \<and> (\<forall>t. clk w \<le> clk (snd (en_classify env t w))) \<and>
        (\<forall>n a. clk w \<le> clk (snd (en_dispatch env n a w))) \<and> (\<forall>a. clk w \<le> clk (snd (en_privileged env a w))) \<and>
        (\<forall>r. clk w \<le> clk (snd (en_submit env r w))))"

text \<open>Once the clock has reached \<open>x\<close>, it has after every operation.\<close>

lemma never_backD:
  assumes "never_back env clk" "x \<le> clk w"
  shows "x \<le> clk (snd (en_now env w))" "x \<le> clk (snd (en_id env w))" "x \<le> clk (snd (en_token env w))"
    "x \<le> clk (snd (en_calls env w))" "x \<le> clk (snd (en_chat env ms w))" "x \<le> clk (snd (en_classify env t w))"
    "x \<le> clk (snd (en_dispatch env n a w))" "x \<le> clk (snd (en_privileged env a w))" "x \<le> clk (snd (en_submit env r w))"
  using assms unfolding never_back_def by (meson order_trans)+

lemma world_simps [simp]:
  "ls_world (emit e st) = ls_world st" "ls_world (trace k st) = ls_world st" "ls_world (alert n st) = ls_world st"
  "ls_world (add_msg m st) = ls_world st" "ls_world (emit_deltas cks st) = ls_world st"
proof -
  have "ls_world (foldl (\<lambda>st line. emit (EvTextDelta line) st) st ls) = ls_world st" for ls
    by (induction ls arbitrary: st) (simp_all add: emit_def)
  then show "ls_world (emit_deltas cks st) = ls_world st" by (simp add: emit_deltas_def)
qed (simp_all add: core_simps)

lemma world_await [simp]: "ls_world (await env st) = snd (en_calls env (ls_world st))"
  by (simp add: await_def ask_eq)

abbreviation reached :: "('w \<Rightarrow> rat) \<Rightarrow> rat \<Rightarrow> 'w core \<Rightarrow> bool" where
  "reached clk x st \<equiv> x \<le> clk (ls_world st)"

lemma reached_executeTool:
  "never_back env clk \<Longrightarrow> reached clk x st \<Longrightarrow> reached clk x (snd (executeTool cfg env name args st))"
  by (simp add: executeTool_def ask_eq suspend_eq Let_def never_backD)

lemma reached_append:
  "never_back env clk \<Longrightarrow> reached clk x st \<Longrightarrow> reached clk x (appendToolMessage cfg env cid t st)"
  by (simp add: appendToolMessage_def suspend_eq Let_def never_backD split: option.splits)

lemma reached_give_model:
  "never_back env clk \<Longrightarrow> reached clk x st \<Longrightarrow> reached clk x (result_core (give_model cfg env cid t used st))"
  by (simp add: give_model_def Let_def reached_append)

lemma reached_finish_call:
  "never_back env clk \<Longrightarrow> reached clk x (snd r) \<Longrightarrow> reached clk x (result_core (finish_call cfg env cid name used r))"
  by (cases r; cases "fst r") (simp_all add: finish_call_def reached_give_model)

lemma reached_handleApproval:
  "never_back env clk \<Longrightarrow> reached clk x st \<Longrightarrow> reached clk x (snd (handleApproval cfg env name args reason ai cid st))"
  unfolding handleApproval_def Let_def ask_eq by (simp add: reached_executeTool never_backD)

lemma reached_waitForChoice:
  "never_back env clk \<Longrightarrow> reached clk x st \<Longrightarrow> reached clk x (snd (waitForChoice env q opts st))"
  unfolding waitForChoice_def Let_def ask_eq by (simp add: never_backD)

lemma reached_waitForPlanApproval:
  "never_back env clk \<Longrightarrow> reached clk x st \<Longrightarrow> reached clk x (waitForPlanApproval env plan cid st)"
  unfolding waitForPlanApproval_def Let_def ask_eq by (simp add: never_backD)

lemma reached_choice_call:
  "never_back env clk \<Longrightarrow> reached clk x st \<Longrightarrow> reached clk x (result_core (choice_call cfg env cid args used st))"
  by (simp add: choice_call_def Let_def case_prod_unfold reached_give_model reached_waitForChoice split: option.splits)

lemma reached_plan_call:
  "never_back env clk \<Longrightarrow> reached clk x st \<Longrightarrow> reached clk x (result_core (plan_call cfg env cid args used st))"
  by (simp add: plan_call_def Let_def reached_append split: sum.splits plan_error.splits)

lemma reached_submit:
  "never_back env clk \<Longrightarrow> reached clk x st \<Longrightarrow> reached clk x (snd (submitAuthorizationRequest cfg env name args reason pr risk st))"
  by (simp add: submitAuthorizationRequest_def ask_eq never_backD split: option.splits)

lemma reached_unattended_call:
  "never_back env clk \<Longrightarrow> reached clk x st \<Longrightarrow> reached clk x (result_core (unattended_call cfg env cid name args risk reason ai used st))"
  by (simp add: unattended_call_def Let_def case_prod_unfold reached_finish_call reached_executeTool reached_give_model reached_submit
      split: option.splits prod.splits bool.splits)

lemma reached_checked_call:
  "never_back env clk \<Longrightarrow> reached clk x st \<Longrightarrow> reached clk x (result_core (checked_call cfg env cid name args risk ai used st))"
  by (simp add: checked_call_def Let_def reached_unattended_call reached_finish_call reached_executeTool reached_handleApproval
      reached_give_model split: prod.splits SafetyVerdict.splits)

lemma reached_exec_call:
  "never_back env clk \<Longrightarrow> reached clk x st \<Longrightarrow> reached clk x (result_core (exec_call cfg env index tc used st))"
  by (simp add: exec_call_def Let_def call_reason_def ask_eq never_backD reached_choice_call reached_plan_call reached_append
      reached_give_model reached_checked_call)

lemma reached_exec_calls:
  "never_back env clk \<Longrightarrow> reached clk x st \<Longrightarrow> reached clk x (result_core (exec_calls cfg env index tcs used st))"
proof (induction tcs arbitrary: index used st)
  case (Cons tc tcs)
  have "reached clk x (result_core (exec_call cfg env index tc used st))" by (rule reached_exec_call [OF Cons.prems])
  with Cons show ?case by (cases "exec_call cfg env index tc used st") simp_all
qed simp

lemma reached_canary_check:
  "never_back env clk \<Longrightarrow> canary_check env t st = (r, st') \<Longrightarrow> reached clk x st \<Longrightarrow> reached clk x st'"
  by (auto simp: canary_check_def ask_eq Let_def never_backD split: option.splits if_splits prod.splits sum.splits)

lemma reached_leak_stop:
  "never_back env clk \<Longrightarrow> reached clk x (lp_core l) \<Longrightarrow> reached clk x (lp_core (leak_stop env l))"
  by (simp add: leak_stop_def rotate_def ask_eq Let_def never_backD split: option.splits prod.splits)

lemma reached_think:
  assumes "never_back env clk" "reached clk x (lp_core l)"
  shows "reached clk x (lp_core (think cfg env l))"
proof -
  have m: "reached clk x (snd (model_reply cfg env l))"
    using assms by (simp add: model_reply_def Let_def suspend_eq case_prod_unfold never_backD)
  show ?thesis
    using m assms(1) reached_canary_check [OF assms(1) _ m]
    by (cases rule: think_elim [of cfg env l]) (auto simp: reached_leak_stop after_reply_def Let_def)
qed

lemma reached_execute:
  assumes "never_back env clk" "reached clk x (lp_core l)"
  shows "reached clk x (lp_core (execute cfg env l))"
  using reached_exec_calls [OF assms, of cfg 0 "lp_calls l" 0]
  by (cases "exec_calls cfg env 0 (lp_calls l) 0 (lp_core l)") (simp_all add: execute_def)

lemma reached_review:
  "never_back env clk \<Longrightarrow> reached clk x (lp_core l) \<Longrightarrow> reached clk x (lp_core (review env l))"
  by (simp add: review_def reached_waitForPlanApproval split: option.splits prod.splits)

definition ticks :: "'w env \<Rightarrow> ('w \<Rightarrow> rat) \<Rightarrow> rat \<Rightarrow> bool" where
  "ticks env clk d \<longleftrightarrow> never_back env clk \<and> 0 < d \<and>
     (\<forall>w. fst (en_now env w) = clk w \<and> clk w + d \<le> clk (snd (en_now env w)))"

lemma loop_body_time:
  assumes "ticks env clk d"
  shows "reached clk (clk (ls_world (lp_core l)) + d) (lp_core (loop_body cfg env t0 l))"
proof -
  let ?l = "l\<lparr>lp_round := Suc (lp_round l), lp_core := (lp_core l)\<lparr>ls_world := snd (en_now env (ls_world (lp_core l)))\<rparr>\<rparr>"
  have nb: "never_back env clk" and r: "reached clk (clk (ls_world (lp_core l)) + d) (lp_core ?l)"
    using assms by (simp_all add: ticks_def)
  show ?thesis
    using reached_think [OF nb r] reached_execute [OF nb r] reached_review [OF nb r] r
    by (simp add: loop_body_def ask_eq Let_def split: LoopState.splits)
qed

lemma loop_body_break:
  assumes "ticks env clk d" "0 < cf_maxBackgroundTime cfg" "cf_maxBackgroundTime cfg < clk (ls_world (lp_core l)) - t0"
  shows "lp_break (loop_body cfg env t0 l)"
  using assms by (simp add: loop_body_def ask_eq Let_def ticks_def)

lemma loop_ends_time:
  fixes l :: "'a loop"
  assumes t: "ticks env clk d" and T: "0 < cf_maxBackgroundTime cfg"
  shows "\<exists>l'. while_option (loop_cond cfg) (loop_body cfg env t0) l = Some l'"
proof -
  define c where "c = (\<lambda>l :: 'a loop. \<lceil>(t0 + cf_maxBackgroundTime cfg - clk (ls_world (lp_core l))) / d\<rceil>)"
  define f where "f = (\<lambda>l :: 'a loop. if lp_break l then 0 else Suc (nat (c l + 1)))"
  have "f (loop_body cfg env t0 l) < f l" if "loop_cond cfg l" for l
  proof (cases "cf_maxBackgroundTime cfg < clk (ls_world (lp_core l)) - t0")
    case True
    with loop_body_break [OF t T] that show ?thesis by (simp add: f_def loop_cond_def)
  next
    case False
    have d: "0 < d" using t by (simp add: ticks_def)
    let ?x = "(t0 + cf_maxBackgroundTime cfg - clk (ls_world (lp_core l))) / d"
    have "(t0 + cf_maxBackgroundTime cfg - clk (ls_world (lp_core (loop_body cfg env t0 l)))) / d \<le>
        (t0 + cf_maxBackgroundTime cfg - clk (ls_world (lp_core l)) - d) / d"
      using loop_body_time [OF t, of l cfg t0] d by (intro divide_right_mono) simp_all
    then have "(t0 + cf_maxBackgroundTime cfg - clk (ls_world (lp_core (loop_body cfg env t0 l)))) / d \<le> ?x - 1"
      using d by (simp add: diff_divide_distrib)
    then have "c (loop_body cfg env t0 l) \<le> \<lceil>?x - 1\<rceil>" unfolding c_def by (rule ceiling_mono)
    then have "c (loop_body cfg env t0 l) \<le> c l - 1" by (simp add: c_def)
    moreover have "0 \<le> ?x" using False d by simp
    then have "0 \<le> c l" unfolding c_def using ceiling_mono [of 0 ?x] by simp
    ultimately show ?thesis using that by (simp add: f_def loop_cond_def)
  qed
  then show ?thesis
    by (intro measure_while_option_Some [where P = "\<lambda>_. True" and f = f]) simp_all
qed

text \<open>
  C6. Without a limit on the rounds the limit on the time ends every run: if the clock advances with
  each reading and nothing turns it back, a run returns, even when the model asks for another tool
  for ever, and its last event ends the reading of the stream.
\<close>

theorem time_limit_ends_runs:
  assumes "ticks env clk d" "0 < cf_maxBackgroundTime cfg"
  shows "\<exists>st'. run cfg env msg hist st = Some st' \<and> ls_log st' \<noteq> [] \<and> terminal (last (ls_log st'))"
proof -
  obtain st' where "run cfg env msg hist st = Some st'" using run_returns [OF loop_ends_time [OF assms]] by blast
  with run_ends_terminal show ?thesis by blast
qed

section \<open>Every call is answered\<close>

definition answers :: "tool_call \<Rightarrow> History.message \<Rightarrow> bool" where
  "answers tc m \<longleftrightarrow> mg_role m = ''tool'' \<and> mg_tool_calls m = [] \<and> (tc_id tc \<noteq> [] \<longrightarrow> mg_tool_call_id m = tc_id tc)"

lemma msgs_await [simp]: "ls_msgs (await env st) = ls_msgs st"
  by (simp add: await_def ask_eq)

lemma msgs_executeTool [simp]: "ls_msgs (snd (executeTool cfg env name args st)) = ls_msgs st"
  by (simp add: executeTool_def ask_eq suspend_eq Let_def)

lemma msgs_handleApproval [simp]: "ls_msgs (snd (handleApproval cfg env name args reason ai cid st)) = ls_msgs st"
  unfolding handleApproval_def Let_def ask_eq by simp

lemma msgs_waitForChoice [simp]: "ls_msgs (snd (waitForChoice env q opts st)) = ls_msgs st"
  unfolding waitForChoice_def Let_def ask_eq by simp

lemma msgs_submit [simp]: "ls_msgs (snd (submitAuthorizationRequest cfg env name args reason pr risk st)) = ls_msgs st"
  by (simp add: submitAuthorizationRequest_def ask_eq split: option.splits)

lemma msgs_append:
  "\<exists>m. ls_msgs (appendToolMessage cfg env cid t st) = ls_msgs st @ [m] \<and> mg_role m = ''tool'' \<and> mg_tool_calls m = [] \<and> mg_tool_call_id m = cid"
  by (simp add: appendToolMessage_def suspend_eq Let_def split: option.splits)

text \<open>The answer to one call: no message when it raises.\<close>

fun one_answer :: "string \<Rightarrow> 'w core \<Rightarrow> 'w step_result \<Rightarrow> bool" where
  "one_answer cid st (Abort e st') \<longleftrightarrow> ls_msgs st' = ls_msgs st"
| "one_answer cid st r \<longleftrightarrow>
     (\<exists>m. ls_msgs (result_core r) = ls_msgs st @ [m] \<and> mg_role m = ''tool'' \<and> mg_tool_calls m = [] \<and> mg_tool_call_id m = cid)"

lemma one_answer_give_model: "ls_msgs st' = ls_msgs st \<Longrightarrow> one_answer cid st (give_model cfg env cid t used st')"
  using msgs_append [of cfg env cid _ st'] by (simp add: give_model_def Let_def)

lemma one_answer_finish_call: "ls_msgs (snd r) = ls_msgs st \<Longrightarrow> one_answer cid st (finish_call cfg env cid name used r)"
  by (cases r; cases "fst r") (simp_all add: finish_call_def one_answer_give_model)

lemma one_answer_choice_call: "one_answer cid st (choice_call cfg env cid args used st)"
  by (simp add: choice_call_def Let_def case_prod_unfold one_answer_give_model split: option.splits)

lemma one_answer_plan_call: "one_answer cid st (plan_call cfg env cid args used st)"
  using msgs_append [of cfg env cid _ "emit _ (trace _ st)"] msgs_append [of cfg env cid _ "emit _ (emit _ (trace _ st))"]
  by (simp add: plan_call_def Let_def split: sum.splits plan_error.splits)

lemma one_answer_unattended_call: "one_answer cid st (unattended_call cfg env cid name args risk reason ai used st)"
  by (simp add: unattended_call_def Let_def case_prod_unfold one_answer_finish_call one_answer_give_model
      split: option.splits prod.splits bool.splits)

lemma one_answer_mono: "one_answer cid st' r \<Longrightarrow> ls_msgs st' = ls_msgs st \<Longrightarrow> one_answer cid st r"
  by (cases r) simp_all

lemma one_answer_checked_call: "one_answer cid st (checked_call cfg env cid name args risk ai used st)"
  by (simp add: checked_call_def Let_def one_answer_finish_call one_answer_give_model split: prod.splits SafetyVerdict.splits)
     (simp add: one_answer_mono [OF one_answer_unattended_call])

lemma exec_call_answer: "\<exists>cid. (tc_id tc \<noteq> [] \<longrightarrow> cid = tc_id tc) \<and> one_answer cid st (exec_call cfg env index tc used st)"
proof -
  obtain cid st' where c: "(if tc_id tc \<noteq> [] then (tc_id tc, st) else ask (en_id env) st) = (cid, st')" by (metis prod.collapse)
  then have ms: "ls_msgs st' = ls_msgs st" "tc_id tc \<noteq> [] \<longrightarrow> cid = tc_id tc" by (auto simp: ask_eq split: if_splits)
  have "one_answer cid st' (exec_call cfg env index tc used st)"
    unfolding exec_call_def Let_def c call_reason_def
    using msgs_append [of cfg env cid _ "emit _ (trace _ st')"]
    by (simp add: one_answer_choice_call one_answer_plan_call one_answer_checked_call one_answer_give_model)
  with ms one_answer_mono show ?thesis by blast
qed

text \<open>Only \<open>submitPlan\<close> stops a round for a plan.\<close>

fun is_plan_stop :: "'w step_result \<Rightarrow> bool" where
  "is_plan_stop (PlanStop st) = True"
| "is_plan_stop r = False"

lemma no_plan_stop [simp]: 
  "\<not> is_plan_stop (give_model cfg env cid t used st)" "\<not> is_plan_stop (finish_call cfg env cid name used r)"
  "\<not> is_plan_stop (choice_call cfg env cid args used st)"
  "\<not> is_plan_stop (unattended_call cfg env cid name args risk reason ai used st)"
proof -
  show g: "\<not> is_plan_stop (give_model cfg env cid t used st)" for t used st by (simp add: give_model_def Let_def)
  show f: "\<not> is_plan_stop (finish_call cfg env cid name used r)" for r
    by (cases r; cases "fst r") (simp_all add: finish_call_def g)
  show "\<not> is_plan_stop (choice_call cfg env cid args used st)"
    by (simp add: choice_call_def Let_def case_prod_unfold g split: option.splits)
  show "\<not> is_plan_stop (unattended_call cfg env cid name args risk reason ai used st)"
    by (simp add: unattended_call_def Let_def case_prod_unfold g f split: option.splits prod.splits bool.splits)
qed

lemma exec_call_plan:
  assumes "exec_call cfg env index tc used st = PlanStop st'"
  shows "tc_name tc = ''submitPlan''"
proof (rule ccontr)
  assume "tc_name tc \<noteq> ''submitPlan''"
  then have "\<not> is_plan_stop (exec_call cfg env index tc used st)"
    by (simp add: exec_call_def Let_def case_prod_unfold checked_call_def split: SafetyVerdict.splits)
  with assms show False by simp
qed

lemma exec_calls_answers:
  "\<exists>n news. n \<le> length tcs \<and> ls_msgs (result_core (exec_calls cfg env index tcs used st)) = ls_msgs st @ news \<and>
     list_all2 answers (take n tcs) news \<and>
     (case exec_calls cfg env index tcs used st of
        Next _ _ \<Rightarrow> n = length tcs
      | PlanStop _ \<Rightarrow> 0 < n \<and> tc_name (tcs ! (n - 1)) = ''submitPlan''
      | Abort _ _ \<Rightarrow> n < length tcs)"
proof (induction tcs arbitrary: index used st)
  case (Cons tc tcs)
  obtain cid where cid: "tc_id tc \<noteq> [] \<longrightarrow> cid = tc_id tc" and a: "one_answer cid st (exec_call cfg env index tc used st)"
    using exec_call_answer [of tc st cfg env index used] by blast
  show ?case
  proof (cases "exec_call cfg env index tc used st")
    case (Next u st')
    with a obtain m where m: "ls_msgs st' = ls_msgs st @ [m]" "answers tc m" using cid by (auto simp: answers_def)
    from Cons.IH [of "Suc index" u st'] obtain n news where
      IH: "n \<le> length tcs" "ls_msgs (result_core (exec_calls cfg env (Suc index) tcs u st')) = ls_msgs st' @ news"
        "list_all2 answers (take n tcs) news"
        "case exec_calls cfg env (Suc index) tcs u st' of Next _ _ \<Rightarrow> n = length tcs
         | PlanStop _ \<Rightarrow> 0 < n \<and> tc_name (tcs ! (n - 1)) = ''submitPlan'' | Abort _ _ \<Rightarrow> n < length tcs"
      by blast
    show ?thesis
      by (rule exI [of _ "Suc n"], rule exI [of _ "m # news"])
         (use IH m Next in \<open>auto split: step_result.splits\<close>)
  next
    case (PlanStop st')
    with a obtain m where m: "ls_msgs st' = ls_msgs st @ [m]" "answers tc m" using cid by (auto simp: answers_def)
    from PlanStop have "tc_name tc = ''submitPlan''" by (rule exec_call_plan)
    with m PlanStop show ?thesis
      by (intro exI [of _ 1] exI [of _ "[m]"]) (auto split: step_result.splits)
  next
    case (Abort e st')
    with a show ?thesis by (intro exI [of _ 0] exI [of _ "[]"]) auto
  qed
qed simp

text \<open>
  C13. A round answers the tool calls of the model one by one and in order: each answered call has
  exactly one tool message with its id (a call without id gets a fresh one), and nothing else is added
  to the history. All calls are answered unless one raised, which ends the run, or a plan was
  submitted: then the calls after \<open>submitPlan\<close> stay without an answer.
\<close>

theorem calls_answered_in_order:
  "\<exists>n news. n \<le> length tcs \<and> ls_msgs (result_core (exec_calls cfg env index tcs used st)) = ls_msgs st @ news \<and>
     list_all2 answers (take n tcs) news \<and>
     (case exec_calls cfg env index tcs used st of
        Next _ _ \<Rightarrow> n = length tcs
      | PlanStop _ \<Rightarrow> 0 < n \<and> tc_name (tcs ! (n - 1)) = ''submitPlan''
      | Abort _ _ \<Rightarrow> n < length tcs)"
  by (rule exec_calls_answers)

section \<open>Size of tool outputs\<close>

lemma length_str_of_nat: "n < 10 ^ k \<Longrightarrow> 0 < k \<Longrightarrow> length (str_of_nat n) \<le> k"
proof (induction k arbitrary: n)
  case (Suc k)
  show ?case
  proof (cases "n < 10")
    case False
    then have "0 < k" using Suc.prems by (cases k) auto
    moreover have "n div 10 < 10 ^ k" using Suc.prems by (simp add: less_mult_imp_div_less mult.commute)
    ultimately have "length (str_of_nat (n div 10)) \<le> k" using Suc.IH by blast
    then show ?thesis using False by (subst str_of_nat.simps) simp
  qed (subst str_of_nat.simps, simp)
qed simp

text \<open>
  What the model sees of a tool output is bounded: never more than the smaller of the limit for
  one tool and the rest of the budget of the round, but for the short notices of at most 27 characters;
  an output within the limits is passed on unchanged, and a cut one starts with its own beginning.
\<close>

theorem tool_output_bounded:
  assumes "length text < 10 ^ 39"
  shows "int (length (fitToolOutputForModel text perTool budget)) \<le> max 27 (min perTool budget) \<and>
    (if 0 < budget \<and> int (length text) \<le> min perTool budget then fitToolOutputForModel text perTool budget = text
     else fitToolOutputForModel text perTool budget \<in> {OMITTED, TOO_LONG} \<or>
          prefix (take (nat (min perTool budget - 60)) text) (fitToolOutputForModel text perTool budget))"
proof -
  have n: "length OMITTED = 27" "length TOO_LONG = 14" by (simp_all add: OMITTED_def TOO_LONG_def)
  have "length (str_of_nat (length text)) \<le> 39" using length_str_of_nat [OF assms] by simp
  then show ?thesis
    by (auto simp: fitToolOutputForModel_def Let_def n max_def min_def)
qed

section \<open>Mode of the agent\<close>

text \<open>
  An approval that is waited for outlives a switch of the mode: the tool runs in the new mode, also where the rule
  engine would block it.
\<close>

lemma approval_outlives_switch:
  assumes "\<And>w. fst (en_id env w) = i" "\<And>w. fst (en_calls env w) = [CSwitchMode m, CApprove i]" "ls_pendingApprovals st = []"
    "name = ''runPrivileged''"
  shows "Ran m name args \<in> set (ls_log (snd (handleApproval cfg env name args reason ai cid st)))"
  using assms
  by (simp add: handleApproval_def Let_def ask_eq await_def deliver_def resolveApproval_def emit_def executeTool_def suspend_eq)

text \<open>A plan nobody answers opens the agent mode, in every mode.\<close>

lemma plan_timeout_opens_agent_mode:
  assumes "\<And>w. fst (en_calls env w) = []"
  shows "ls_mode (waitForPlanApproval env plan cid st) = M_AGENT"
  unfolding waitForPlanApproval_def Let_def ask_eq await_def by (simp add: assms)

section \<open>Witnesses\<close>

text \<open>A model that never stops to ask for a tool, and a clock that advances with each reading.\<close>

definition demo_chunk :: "string \<Rightarrow> pydict \<Rightarrow> chunk" where
  "demo_chunk name args = \<lparr>ck_content = [], ck_tool_calls = [\<lparr>tc_id = ''c1'', tc_name = name, tc_arguments = args\<rparr>],
     ck_finish = ''tool_calls'', ck_usage = []\<rparr>"

definition demo_env :: "nat env" where
  "demo_env = \<lparr>en_now = (\<lambda>w. (of_nat w, Suc w)), en_id = (\<lambda>w. (''tc_0'', w)), en_token = (\<lambda>w. ((''00'', ''0.0''), w)),
     en_chat = (\<lambda>ms w. (([demo_chunk ''listFiles'' []], None), w)), en_classify = (\<lambda>t w. (None, w)),
     en_dispatch = (\<lambda>n a w. (Inr None, w)), en_privileged = (\<lambda>a w. ([], w)), en_calls = (\<lambda>w. ([], w)),
     en_grants = (\<lambda>w s t k. Some []), en_submit = (\<lambda>r w. (None, w))\<rparr>"

definition demo_config :: "int \<Rightarrow> config" where
  "demo_config rounds = \<lparr>cf_maxRounds = rounds, cf_contextWindow = 1000, cf_maxToolCallsPerRound = 0, cf_maxBackgroundTime = 1800,
     cf_autoApproveScheduled = False, cf_nonInteractiveApprovals = False, cf_scheduledApprovalPolicy = [],
     cf_autoRunTaskId = None, cf_autoRunSource = [], cf_autoRunGuidance = [], cf_sessionId = ''s1'', cf_rules = (\<lambda>_. None),
     cf_safety = example_policy, cf_riskLevel = (\<lambda>n. if n = ''listFiles'' then RL_READ_ONLY else RL_WRITE),
     cf_modePrompt = (\<lambda>_. []), cf_systemPrompt = [], cf_safetyRules = [], cf_extraKnowledge = [], cf_canaryPrompt = (\<lambda>_. []),
     cf_ruleText = (\<lambda>_. []), cf_confidence = (\<lambda>_. []), cf_frepr = (\<lambda>s. s), cf_jsonError = (\<lambda>_. [])\<rparr>"

theorem run_terminates_witness:
  "\<exists>st'. run (demo_config 3) demo_env [104, 105] [] (new_core 0 M_AGENT None empty_canary_file) = Some st' \<and>
     ls_log st' \<noteq> [] \<and> terminal (last (ls_log st'))"
  by (rule run_terminates) (simp add: demo_config_def)

theorem time_limit_ends_runs_witness:
  "\<exists>st'. run (demo_config 0) demo_env [104, 105] [] (new_core 0 M_AGENT None empty_canary_file) = Some st' \<and>
     ls_log st' \<noteq> [] \<and> terminal (last (ls_log st'))"
proof (rule time_limit_ends_runs)
  show "ticks demo_env of_nat 1" by (simp add: ticks_def never_back_def demo_env_def)
  show "0 < cf_maxBackgroundTime (demo_config 0)" by (simp add: demo_config_def)
qed

theorem tool_output_bounded_witness:
  "int (length (fitToolOutputForModel (replicate 2000 65) 1200 6000)) \<le> 1200 \<and>
   fitToolOutputForModel (replicate 100 65) 1200 6000 = replicate 100 65"
  using tool_output_bounded [of "replicate 2000 65" 1200 6000] tool_output_bounded [of "replicate 100 65" 1200 6000] by simp

end
