(* ===== verification/ToolAuth.thy ===== *)
theory ToolAuth
  imports ScheduledTask AgentLoopProps
begin

text \<open>
  The approval loop of the gateway: authorization requests of unattended runs
  (\<open>gateway/service/ToolAuthorizationService.py\<close>, \<open>gateway/dao/ToolAuthorizationDaoOrm.py\<close>), the
  inspection policy and reports (\<open>gateway/service/InspectionService.py\<close>,
  \<open>gateway/dao/InspectionReportDaoOrm.py\<close>), and the endpoints an administrator decides with
  (\<open>gateway/controller/AdminController.py\<close>).

  The state extends the one of the scheduled tasks.  The policy file is its text, \<open>None\<close> when there is
  none.  A reason that is copied into an elevation code is kept there up to code point 255.  The
  arguments of the endpoints are the texts of the request body; \<open>path_prefix\<close> is any JSON value.  The
  notification of the web client is not modelled.
\<close>

section \<open>Tables\<close>

record ToolAuthorizationRequestOrm =
  ta_id :: int
  ta_code :: string
  ta_sessionId :: string
  ta_sourceType :: string
  ta_taskId :: "int option"
  ta_toolName :: string
  ta_argsJson :: "string option"
  ta_pathsJson :: "string option"
  ta_commandLine :: "string option"
  ta_reason :: "utext option"
  ta_policyReason :: "utext option"
  ta_riskLevel :: "string option"
  ta_status :: string
  ta_ttlSeconds :: int
  ta_maxRuns :: int
  ta_createdAt :: timestamp
  ta_approvedAt :: "timestamp option"
  ta_approvedBy :: "string option"
  ta_rejectReason :: "string option"
  ta_tokenId :: "string option"
  ta_grantJson :: "string option"

record InspectionReportOrm =
  ir_id :: int
  ir_sessionId :: "string option"
  ir_status :: string
  ir_summary :: "string option"
  ir_findings :: "string option"
  ir_fullReport :: "string option"
  ir_durationMs :: int
  ir_errorMessage :: "string option"
  ir_createdAt :: timestamp
  ir_updatedAt :: timestamp

record gateway = sched +
  gw_requests :: "ToolAuthorizationRequestOrm list"
  gw_reports :: "InspectionReportOrm list"
  gw_policyFile :: "string option"

text \<open>The arguments of \<open>submitRequest\<close>.\<close>

record tool_request =
  tq_sessionId :: string
  tq_toolName :: string
  tq_args :: "pydict option"
  tq_paths :: "string list"
  tq_commandLine :: "string option"
  tq_reason :: "utext option"
  tq_policyReason :: "utext option"
  tq_riskLevel :: "string option"
  tq_sourceType :: string
  tq_taskId :: "int option"
  tq_ttlSeconds :: int
  tq_maxRuns :: int

abbreviation dumps_db :: "pyval \<Rightarrow> string" where
  "dumps_db v \<equiv> dumps False '', '' '': '' v"

text \<open>\<open>createRequest\<close>: \<open>None\<close> when the unique column already has the code.\<close>

definition createRequest :: "sched_env \<Rightarrow> string \<Rightarrow> tool_request \<Rightarrow> gateway \<Rightarrow> gateway option" where
  "createRequest env code q st =
     (if code \<in> ta_code ` set (gw_requests st) then None
      else Some (st\<lparr>gw_requests := gw_requests st @
        [\<lparr>ta_id = int (length (gw_requests st)) + 1, ta_code = code, ta_sessionId = tq_sessionId q, ta_sourceType = tq_sourceType q,
          ta_taskId = tq_taskId q, ta_toolName = tq_toolName q, ta_argsJson = map_option (\<lambda>a. dumps_db (PDict a)) (tq_args q),
          ta_pathsJson = (if tq_paths q \<noteq> [] then Some (dumps_db (PList (map PStr (tq_paths q)))) else None),
          ta_commandLine = tq_commandLine q, ta_reason = tq_reason q, ta_policyReason = tq_policyReason q,
          ta_riskLevel = tq_riskLevel q, ta_status = ''pending'', ta_ttlSeconds = tq_ttlSeconds q, ta_maxRuns = tq_maxRuns q,
          ta_createdAt = se_now env, ta_approvedAt = None, ta_approvedBy = None, ta_rejectReason = None, ta_tokenId = None,
          ta_grantJson = None\<rparr>]\<rparr>))"

definition findByCode :: "string \<Rightarrow> gateway \<Rightarrow> ToolAuthorizationRequestOrm option" where
  "findByCode code st = find (\<lambda>r. ta_code r = code) (gw_requests st)"

definition findPendingBySessionAndTool :: "string \<Rightarrow> string \<Rightarrow> string option \<Rightarrow> gateway \<Rightarrow> ToolAuthorizationRequestOrm option" where
  "findPendingBySessionAndTool sessionId toolName commandLine st =
     find (\<lambda>r. ta_sessionId r = sessionId \<and> ta_toolName r = toolName \<and> ta_status r = ''pending'' \<and>
               (commandLine \<noteq> None \<longrightarrow> ta_commandLine r = commandLine)) (gw_requests st)"

definition listRequests :: "string \<Rightarrow> nat \<Rightarrow> gateway \<Rightarrow> ToolAuthorizationRequestOrm list" where
  "listRequests status limit st =
     take limit (sort_key (\<lambda>r. - ta_createdAt r) (filter (\<lambda>r. status \<noteq> [] \<longrightarrow> ta_status r = status) (gw_requests st)))"

definition countPending :: "gateway \<Rightarrow> nat" where
  "countPending st = length (filter (\<lambda>r. ta_status r = ''pending'') (gw_requests st))"

text \<open>A row without \<open>approvedAt\<close> comes last in the descending order.\<close>

definition by_approvedAt :: "ToolAuthorizationRequestOrm list \<Rightarrow> ToolAuthorizationRequestOrm list" where
  "by_approvedAt rows =
     sort_key (\<lambda>r. - the (ta_approvedAt r)) (filter (\<lambda>r. ta_approvedAt r \<noteq> None) rows) @ filter (\<lambda>r. ta_approvedAt r = None) rows"

definition listApproved :: "string option \<Rightarrow> int option \<Rightarrow> string option \<Rightarrow> gateway \<Rightarrow> ToolAuthorizationRequestOrm list" where
  "listApproved sessionId taskId sourceType st =
     by_approvedAt (filter (\<lambda>r. ta_status r = ''approved'' \<and>
       (case sessionId of Some s \<Rightarrow> s \<noteq> [] \<longrightarrow> ta_sessionId r = s | None \<Rightarrow> True) \<and>
       (if sourceType = Some ''scheduled'' \<and> taskId \<noteq> None then ta_sourceType r = ''scheduled'' \<and> ta_taskId r = taskId
        else if sourceType = Some ''inspection'' then ta_sourceType r = ''inspection'' else True)) (gw_requests st))"

definition set_status ::
  "timestamp \<Rightarrow> string \<Rightarrow> string option \<Rightarrow> string option \<Rightarrow> string option \<Rightarrow> pydict option \<Rightarrow>
   ToolAuthorizationRequestOrm \<Rightarrow> ToolAuthorizationRequestOrm" where
  "set_status now status approvedBy rejectReason tokenId grant r =
     (let r = r\<lparr>ta_status := status, ta_approvedAt := (if status = ''approved'' then Some now else None)\<rparr>;
          r = (if approvedBy \<noteq> None then r\<lparr>ta_approvedBy := approvedBy\<rparr> else r);
          r = (if rejectReason \<noteq> None then r\<lparr>ta_rejectReason := rejectReason\<rparr> else r);
          r = (if tokenId \<noteq> None then r\<lparr>ta_tokenId := tokenId\<rparr> else r)
      in case grant of Some g \<Rightarrow> r\<lparr>ta_grantJson := Some (dumps_db (PDict g))\<rparr> | None \<Rightarrow> r)"

definition updateStatus ::
  "sched_env \<Rightarrow> string \<Rightarrow> string \<Rightarrow> string option \<Rightarrow> string option \<Rightarrow> string option \<Rightarrow> pydict option \<Rightarrow> gateway \<Rightarrow> bool \<times> gateway" where
  "updateStatus env code status approvedBy rejectReason tokenId grant st =
     (code \<in> ta_code ` set (gw_requests st),
      st\<lparr>gw_requests := map (\<lambda>r. if ta_code r = code then set_status (se_now env) status approvedBy rejectReason tokenId grant r else r)
            (gw_requests st)\<rparr>)"

section \<open>Inspections\<close>

definition DEFAULT_INSPECTION_POLICY :: pydict where
  "DEFAULT_INSPECTION_POLICY =
     [(''allowedTools'', PList (map PStr [''runCommand'', ''runShellCommand''])),
      (''allowedCommands'', PList (map PStr
        [''uname -a'', ''hostname'', ''uptime'', ''date'',
         ''cat /proc/loadavg'', ''cat /proc/meminfo'', ''cat /proc/cpuinfo'',
         ''df -h'', ''df -T'', ''free -h'', ''du -sh'',
         ''top -bn1'', ''ps aux'', ''ps -ef'',
         ''systemctl status'', ''systemctl is-active'', ''systemctl is-enabled'',
         ''systemctl list-units'', ''systemctl list-timers'',
         ''docker ps'', ''docker images'', ''docker stats --no-stream'',
         ''docker inspect'', ''docker logs --tail'',
         ''nginx -t'', ''nginx -v'',
         ''journalctl -n'', ''journalctl --since'', ''journalctl -u'',
         ''ss -tlnp'', ''ss -ulnp'', ''netstat -tlnp'', ''ip addr'', ''ip route'',
         ''ufw status'', ''iptables -L'', ''iptables -S'', ''lsblk'', ''blkid'',
         ''crontab -l'', ''who'', ''w'', ''last'', ''lastb''])),
      (''allowedPaths'', PList []), (''deniedPaths'', PList []), (''allowedPrivilegedCommands'', PList []),
      (''ttlSeconds'', PInt 25200), (''maxRuns'', PInt 100)]"

definition loadInspectionPolicy :: "sched_env \<Rightarrow> gateway \<Rightarrow> pydict" where
  "loadInspectionPolicy env st =
     (case gw_policyFile st of
        None \<Rightarrow> DEFAULT_INSPECTION_POLICY
      | Some text \<Rightarrow>
          (case loads (se_frepr env) text of
             Some (PDict policy) \<Rightarrow> if policy \<noteq> [] then policy else DEFAULT_INSPECTION_POLICY
           | _ \<Rightarrow> DEFAULT_INSPECTION_POLICY))"

definition saveInspectionPolicy :: "pydict \<Rightarrow> gateway \<Rightarrow> gateway" where
  "saveInspectionPolicy policy st = st\<lparr>gw_policyFile := Some (dumps_indent False 0 (PDict policy))\<rparr>"

text \<open>The text from the last opening to the last closing brace.\<close>

definition brace_span :: "string \<Rightarrow> string option" where
  "brace_span s =
     (let before = rev (drop 1 (dropWhile (\<lambda>c. c \<noteq> CHR ''{'') (rev s)));
          upto = rev (dropWhile (\<lambda>c. c \<noteq> CHR ''}'') (rev s))
      in if CHR ''{'' \<in> set s \<and> CHR ''}'' \<in> set s \<and> length before < length upto - 1
         then Some (drop (length before) upto) else None)"

definition extractFindings :: "(string \<Rightarrow> string) \<Rightarrow> string \<Rightarrow> pyval list" where
  "extractFindings frepr fullReport =
     (case brace_span fullReport of
        None \<Rightarrow> []
      | Some text \<Rightarrow>
          (case loads frepr text of
             Some (PDict payload) \<Rightarrow> (case dget payload ''findings'' of PList xs \<Rightarrow> xs | _ \<Rightarrow> [])
           | _ \<Rightarrow> []))"

record inspection_result = run_result +
  in_fullReport :: string
  in_durationMs :: int

definition createReport ::
  "sched_env \<Rightarrow> string option \<Rightarrow> string \<Rightarrow> string option \<Rightarrow> pyval option \<Rightarrow> string option \<Rightarrow> int \<Rightarrow> string option \<Rightarrow>
   gateway \<Rightarrow> InspectionReportOrm \<times> gateway" where
  "createReport env sessionId status summary findings fullReport durationMs errorMessage st =
     (let row = \<lparr>ir_id = int (length (gw_reports st)) + 1, ir_sessionId = sessionId, ir_status = status, ir_summary = summary,
            ir_findings = map_option dumps_db findings, ir_fullReport = fullReport, ir_durationMs = durationMs,
            ir_errorMessage = errorMessage, ir_createdAt = se_now env, ir_updatedAt = se_now env\<rparr>
      in (row, st\<lparr>gw_reports := gw_reports st @ [row]\<rparr>))"

definition getReport :: "int \<Rightarrow> gateway \<Rightarrow> InspectionReportOrm option" where
  "getReport reportId st = find (\<lambda>r. ir_id r = reportId) (gw_reports st)"

definition latest_first :: "InspectionReportOrm list \<Rightarrow> InspectionReportOrm list" where
  "latest_first rows = sort_key (\<lambda>r. - ir_createdAt r) rows"

definition latestReport :: "gateway \<Rightarrow> InspectionReportOrm option" where
  "latestReport st = (case latest_first (gw_reports st) of r # _ \<Rightarrow> Some r | [] \<Rightarrow> None)"

definition listReports :: "int \<Rightarrow> nat \<Rightarrow> gateway \<Rightarrow> nat \<times> InspectionReportOrm list" where
  "listReports page pageSize st =
     (length (gw_reports st), take pageSize (drop (nat (page - 1) * pageSize) (latest_first (gw_reports st))))"

definition findBySessionId :: "string \<Rightarrow> gateway \<Rightarrow> InspectionReportOrm option" where
  "findBySessionId sessionId st =
     (case latest_first (filter (\<lambda>r. ir_sessionId r = Some sessionId) (gw_reports st)) of r # _ \<Rightarrow> Some r | [] \<Rightarrow> None)"

text \<open>\<open>triggerInspection\<close> after the agent has delivered its result.\<close>

definition endInspection :: "sched_env \<Rightarrow> inspection_result \<Rightarrow> gateway \<Rightarrow> InspectionReportOrm \<times> gateway" where
  "endInspection env r st =
     createReport env (Some (rr_sessionId r)) (rr_status r) (rr_summary r)
       (Some (PList (extractFindings (se_frepr env) (in_fullReport r)))) (Some (in_fullReport r)) (in_durationMs r) (rr_errorMessage r) st"

section \<open>Authorization requests\<close>

definition hashCmd :: "(string \<Rightarrow> string) \<Rightarrow> string \<Rightarrow> string" where
  "hashCmd sha256 text = hash_payload sha256 [(''cmd'', PStr text)]"

definition latin :: "utext \<Rightarrow> string" where
  "latin t = map char_of (filter (\<lambda>n. n < 256) t)"

text \<open>
  The code and whether it is new; \<open>None\<close> when the row could not be written, which leaves the code
  that was generated for it.
\<close>

definition submitRequest ::
  "(string \<Rightarrow> string) \<Rightarrow> sched_env \<Rightarrow> tool_request \<Rightarrow> gateway \<Rightarrow> (string \<times> bool) option \<times> gateway" where
  "submitRequest sha256 env q st =
     (case findPendingBySessionAndTool (tq_sessionId q) (tq_toolName q) (tq_commandLine q) st of
        Some existing \<Rightarrow> (Some (ta_code existing, False), st)
      | None \<Rightarrow>
          (let inline_cmd = (if command_tool (tq_toolName q) \<and> or_empty (tq_commandLine q) \<noteq> [] then tq_commandLine q else None);
               commands = (case inline_cmd of
                             Some cmd \<Rightarrow> [\<lparr>ec_command = ''exec_arbitrary_cmd'', ec_args = PList [PStr cmd]\<rparr>]
                           | None \<Rightarrow> []);
               (entry, el) = generate_code (se_now env) (se_code env)
                 \<lparr>gr_session_id = tq_sessionId q, gr_commands = commands,
                  gr_reason = (case tq_reason q of
                                 Some r \<Rightarrow> if r \<noteq> [] then latin r else ''tool authorization: '' @ tq_toolName q
                               | None \<Rightarrow> ''tool authorization: '' @ tq_toolName q),
                  gr_ttl_seconds = tq_ttlSeconds q, gr_max_ops = tq_maxRuns q, gr_code = None, gr_inline_cmd = inline_cmd,
                  gr_inline_cmd_hash = map_option (hashCmd sha256) inline_cmd, gr_script_path = None, gr_script_hash = None,
                  gr_request_type = ''tool_authorization'', gr_task_id = tq_taskId q, gr_approval_policy = None,
                  gr_expire_previous = False\<rparr> (sc_elevation st);
               st = st\<lparr>sc_elevation := el\<rparr>
           in case createRequest env (ce_code entry) q st of
                Some st' \<Rightarrow> (Some (ce_code entry, True), st')
              | None \<Rightarrow> (None, st)))"

text \<open>\<open>request.paths or []\<close>; the column is written from lists of texts only.\<close>

definition request_paths :: "(string \<Rightarrow> string) \<Rightarrow> ToolAuthorizationRequestOrm \<Rightarrow> pyval list" where
  "request_paths frepr r = (case loadJson frepr (ta_pathsJson r) of Some (PList xs) \<Rightarrow> xs | _ \<Rightarrow> [])"

text \<open>\<open>list(dict.fromkeys(xs))\<close>.\<close>

definition fromkeys :: "'a list \<Rightarrow> 'a list" where
  "fromkeys xs = foldl (\<lambda>acc x. if x \<in> set acc then acc else acc @ [x]) [] xs"

definition buildGrant :: "(string \<Rightarrow> string) \<Rightarrow> ToolAuthorizationRequestOrm \<Rightarrow> pydict" where
  "buildGrant frepr r =
     (let paths = request_paths frepr r in
      [(''toolName'', PStr (ta_toolName r))] @
      (if paths \<noteq> [] then [(''paths'', PList (fromkeys paths))] else []) @
      (if or_empty (ta_commandLine r) \<noteq> [] then [(''commandLine'', PStr (or_empty (ta_commandLine r)))] else []))"

text \<open>
  \<open>xs = [str(x) for x in merged.get(key) or []]\<close>, with \<open>v\<close> added when it is new, written back;
  \<open>None\<close> for the \<open>TypeError\<close> of an entry that is no list.
\<close>

definition add_item :: "string \<Rightarrow> pyval \<Rightarrow> pydict \<Rightarrow> pydict option" where
  "add_item key v merged =
     do {
       xs \<leftarrow> str_items merged key;
       Some (AList.update key (PList (if v \<in> set (map PStr xs) then map PStr xs else map PStr xs @ [v])) merged)
     }"

fun add_items :: "string \<Rightarrow> pyval list \<Rightarrow> pydict \<Rightarrow> pydict option" where
  "add_items key [] merged = Some merged"
| "add_items key (v # vs) merged = do { merged \<leftarrow> add_item key v merged; add_items key vs merged }"

definition grant_paths :: "pydict \<Rightarrow> pyval list" where
  "grant_paths grant = (case dget grant ''paths'' of PList xs \<Rightarrow> xs | _ \<Rightarrow> [])"

definition mergeGrant :: "pydict \<Rightarrow> pydict \<Rightarrow> pydict option" where
  "mergeGrant policy grant =
     do {
       tools \<leftarrow> str_items policy ''allowedTools'';
       merged \<leftarrow> if truthy (dget grant ''toolName'') then add_item ''allowedTools'' (dget grant ''toolName'') policy
                else Some (AList.update ''allowedTools'' (PList (map PStr tools)) policy);
       merged \<leftarrow> add_items ''allowedPaths'' (grant_paths grant) merged;
       if truthy (dget grant ''commandLine'') then add_item ''allowedCommands'' (dget grant ''commandLine'') merged else Some merged
     }"

definition grantToScheduledTask :: "sched_env \<Rightarrow> int \<Rightarrow> pydict \<Rightarrow> gateway \<Rightarrow> gateway option" where
  "grantToScheduledTask env taskId grant st =
     (case dao_getTask taskId None st of
        None \<Rightarrow> Some st
      | Some task \<Rightarrow>
          if sk_status task = ''deleted'' then Some st
          else map_option
            (\<lambda>merged. snd (dao_updateTask env taskId None (\<lambda>t. t\<lparr>sk_approvalPolicy := Some (dumps_db (PDict merged))\<rparr>) st))
            (mergeGrant (task_policy (se_frepr env) task) grant))"

definition grantToInspectionPolicy :: "sched_env \<Rightarrow> pydict \<Rightarrow> gateway \<Rightarrow> gateway option" where
  "grantToInspectionPolicy env grant st =
     map_option (\<lambda>merged. saveInspectionPolicy merged st) (mergeGrant (loadInspectionPolicy env st) grant)"

datatype request_source = FromTask int | FromInspection | FromManual

definition resolveSource :: "string \<Rightarrow> gateway \<Rightarrow> request_source" where
  "resolveSource sessionId st =
     (case findRunBySessionId sessionId st of
        Some r \<Rightarrow> FromTask (sr_taskId r)
      | None \<Rightarrow> (case findBySessionId sessionId st of Some report \<Rightarrow> FromInspection | None \<Rightarrow> FromManual))"

text \<open>The grant an approval gives: the paths of the request, or the prefix of the administrator.\<close>

definition approved_grant :: "(string \<Rightarrow> string) \<Rightarrow> pyval \<Rightarrow> ToolAuthorizationRequestOrm \<Rightarrow> pydict" where
  "approved_grant frepr path_prefix r =
     (let grant = buildGrant frepr r in
      if truthy path_prefix then AList.update ''paths'' (PList [path_prefix]) grant else grant)"

definition tool_approve ::
  "sched_env \<Rightarrow> string \<Rightarrow> string \<Rightarrow> string \<Rightarrow> pyval \<Rightarrow> gateway \<Rightarrow> bool option \<times> gateway" where
  "tool_approve env code approved_by token_id path_prefix st =
     (case findByCode code st of
        None \<Rightarrow> (Some False, st)
      | Some request \<Rightarrow>
          if ta_status request \<noteq> ''pending'' then (Some False, st)
          else
            (let grant = approved_grant (se_frepr env) path_prefix request
             in case (case resolveSource (ta_sessionId request) st of
                        FromTask taskId \<Rightarrow> grantToScheduledTask env taskId grant st
                      | FromInspection \<Rightarrow> grantToInspectionPolicy env grant st
                      | FromManual \<Rightarrow> Some st) of
                  None \<Rightarrow> (None, st)
                | Some st' \<Rightarrow>
                    (let (ok, st') = updateStatus env code ''approved'' (Some approved_by) None (Some token_id) (Some grant) st'
                     in (Some ok, st'))))"

definition tool_reject :: "sched_env \<Rightarrow> string \<Rightarrow> string \<Rightarrow> gateway \<Rightarrow> bool \<times> gateway" where
  "tool_reject env code reason st =
     (case findByCode code st of
        None \<Rightarrow> (False, st)
      | Some request \<Rightarrow> updateStatus env code ''rejected'' None (Some reason) None None st)"

definition tool_expire :: "sched_env \<Rightarrow> string \<Rightarrow> gateway \<Rightarrow> bool \<times> gateway" where
  "tool_expire env code st =
     (case findByCode code st of
        None \<Rightarrow> (False, st)
      | Some request \<Rightarrow> if ta_status request \<noteq> ''pending'' then (False, st) else updateStatus env code ''expired'' None None None None st)"

definition tool_listPending :: "sched_env \<Rightarrow> nat \<Rightarrow> gateway \<Rightarrow> ToolAuthorizationRequestOrm list \<times> gateway" where
  "tool_listPending env limit st =
     (let st = foldl (\<lambda>st row.
             if se_now env - ta_createdAt row > of_int (if ta_ttlSeconds row \<noteq> 0 then ta_ttlSeconds row else 3600)
             then snd (updateStatus env (ta_code row) ''expired'' None None None None st) else st) st (listRequests ''pending'' limit st)
      in (listRequests ''pending'' limit st, st))"

definition grant_of :: "ToolAuthorizationRequestOrm \<Rightarrow> pyval \<Rightarrow> pydict" where
  "grant_of r grant =
     (let field = (\<lambda>k. case grant of PDict d \<Rightarrow> dget d k | _ \<Rightarrow> PNone)
      in [(''toolName'', PStr (ta_toolName r)), (''paths'', field ''paths''), (''commandLine'', field ''commandLine'')])"

definition row_grants :: "(string \<Rightarrow> string) \<Rightarrow> ToolAuthorizationRequestOrm \<Rightarrow> pydict list" where
  "row_grants frepr r =
     (case loadJson frepr (ta_grantJson r) of None \<Rightarrow> [] | Some grant \<Rightarrow> if grant = PNone then [] else [grant_of r grant])"

definition listApprovedGrants ::
  "(string \<Rightarrow> string) \<Rightarrow> gateway \<Rightarrow> string option \<Rightarrow> int option \<Rightarrow> string option \<Rightarrow> pydict list option" where
  "listApprovedGrants frepr st sessionId taskId sourceType =
     Some (concat (map (row_grants frepr) (listApproved sessionId taskId sourceType st)))"

text \<open>What the agent loop submits.\<close>

definition request_of :: "(rule_reason \<Rightarrow> utext) \<Rightarrow> auth_request \<Rightarrow> tool_request" where
  "request_of ruleText a =
     \<lparr>tq_sessionId = aq_sessionId a, tq_toolName = aq_toolName a, tq_args = Some (aq_args a), tq_paths = aq_paths a,
      tq_commandLine = aq_commandLine a, tq_reason = Some (ruleText (aq_reason a)),
      tq_policyReason = Some (reason_text (aq_policyReason a)), tq_riskLevel = Some (aq_riskLevel a),
      tq_sourceType = ''manual'', tq_taskId = None, tq_ttlSeconds = aq_ttlSeconds a, tq_maxRuns = aq_maxRuns a\<rparr>"

section \<open>The decisions of an administrator\<close>

datatype admin_error = MissingCode | CodeNotPending | TaskNotPending | RequestMissing | TokenMissing | Raised

definition admin_approve ::
  "(string \<Rightarrow> string) \<Rightarrow> sched_env \<Rightarrow> string \<Rightarrow> string \<Rightarrow> string \<Rightarrow> pyval \<Rightarrow> gateway \<Rightarrow> (admin_error + JITToken) \<times> gateway" where
  "admin_approve sha256 env token_id body_code approved_by path_prefix st =
     (let code = strip body_code in
      if code = [] then (Inl MissingCode, st)
      else
        (let (entry, el) = get_code (se_now env) code (sc_elevation st);
             (token, el) = approve_code sha256 (se_now env) token_id code approved_by el;
             st = st\<lparr>sc_elevation := el\<rparr>
         in case token of
              None \<Rightarrow> (Inl CodeNotPending, snd (tool_expire env code st))
            | Some token \<Rightarrow>
                (let request_type = (case entry of Some e \<Rightarrow> ce_request_type e | None \<Rightarrow> ''privileged'');
                     task_id = Option.bind entry ce_task_id
                 in if request_type = ''scheduled_task_policy'' \<and> task_id \<noteq> None then
                      (let (ok, st) = approveScheduledTaskPolicy env (the task_id) approved_by (jt_token_id token) st
                       in (if ok then Inr token else Inl TaskNotPending, st))
                    else if request_type = ''tool_authorization'' then
                      (case tool_approve env code approved_by (jt_token_id token) path_prefix st of
                         (None, st) \<Rightarrow> (Inl Raised, st)
                       | (Some True, st) \<Rightarrow> (Inr token, st)
                       | (Some False, st) \<Rightarrow>
                           (Inl RequestMissing, st\<lparr>sc_elevation := snd (revoke_token (jt_token_id token) (sc_elevation st))\<rparr>))
                    else (Inr token, st))))"

definition admin_reject :: "sched_env \<Rightarrow> string \<Rightarrow> string \<Rightarrow> gateway \<Rightarrow> admin_error option \<times> gateway" where
  "admin_reject env body_code reason st =
     (let code = strip body_code in
      if code = [] then (Some MissingCode, st)
      else
        (let (entry, el) = get_code (se_now env) code (sc_elevation st); st = st\<lparr>sc_elevation := el\<rparr>
         in case entry of
              None \<Rightarrow> (None, st)
            | Some e \<Rightarrow>
                (let st = st\<lparr>sc_elevation := reject_code code reason (sc_elevation st)\<rparr>
                 in (None,
                     if ce_request_type e = ''scheduled_task_policy'' \<and> ce_task_id e \<noteq> None
                     then snd (rejectScheduledTaskPolicy env (the (ce_task_id e)) reason st)
                     else if ce_request_type e = ''tool_authorization'' then snd (tool_reject env code reason st)
                     else st))))"

definition admin_revoke :: "string \<Rightarrow> gateway \<Rightarrow> admin_error option \<times> gateway" where
  "admin_revoke body_token st =
     (let token_id = strip body_token in
      if token_id = [] then (Some MissingCode, st)
      else (let (ok, el) = revoke_token token_id (sc_elevation st)
            in (if ok then None else Some TokenMissing, st\<lparr>sc_elevation := el\<rparr>)))"

section \<open>The state machine\<close>

text \<open>
  The operations of the gateway on this state; tasks are approved and rejected through the endpoints
  only.  The history holds every operation with the state it met.
\<close>

datatype gw_op =
    GSubmit tool_request
  | GApprove string string string pyval
  | GReject string string
  | GRevoke string
  | GListPending nat
  | GInspected inspection_result
  | GTask sched_op
  | GElevation elev_op

fun gw_step :: "(string \<Rightarrow> string) \<Rightarrow> (string \<Rightarrow> string) \<Rightarrow> sched_env \<Rightarrow> gw_op \<Rightarrow> gateway \<Rightarrow> gateway" where
  "gw_step edsign sha env (GSubmit q) st = snd (submitRequest sha env q st)"
| "gw_step edsign sha env (GApprove tok code who prfx) st = snd (admin_approve sha env tok code who prfx st)"
| "gw_step edsign sha env (GReject code reason) st = snd (admin_reject env code reason st)"
| "gw_step edsign sha env (GRevoke tok) st = snd (admin_revoke tok st)"
| "gw_step edsign sha env (GListPending n) st = snd (tool_listPending env n st)"
| "gw_step edsign sha env (GInspected r) st = snd (endInspection env r st)"
| "gw_step edsign sha env (GTask op) st = sched_step env op st"
| "gw_step edsign sha env (GElevation op) st = st\<lparr>sc_elevation := snd (elev_step edsign sha op (sc_elevation st))\<rparr>"

fun gw_allowed :: "(string \<Rightarrow> string) \<Rightarrow> gw_op \<Rightarrow> gateway \<Rightarrow> bool" where
  "gw_allowed fr (GTask op) st =
     (careful op st \<and> (case op of SApprove _ _ _ \<Rightarrow> False | SReject _ _ \<Rightarrow> False | SGrant _ _ \<Rightarrow> False | _ \<Rightarrow> True))"
| "gw_allowed fr (GApprove tok code who prfx) st = wf_json fr prfx"
| "gw_allowed fr op st = True"

inductive gw_reach ::
  "(string \<Rightarrow> string) \<Rightarrow> (string \<Rightarrow> string) \<Rightarrow> (string \<Rightarrow> string) \<Rightarrow> gateway \<Rightarrow> (gateway \<times> gw_op) list \<Rightarrow> bool"
  for edsign sha fr where
  gw_init: "sc_tasks st = [] \<Longrightarrow> sc_runs st = [] \<Longrightarrow> gw_requests st = [] \<Longrightarrow> gw_reach edsign sha fr st []"
| gw_more: "gw_reach edsign sha fr st hist \<Longrightarrow> gw_allowed fr op st \<Longrightarrow> se_frepr env = fr \<Longrightarrow>
    gw_reach edsign sha fr (gw_step edsign sha env op st) (hist @ [(st, op)])"

section \<open>Lemmas: what the operations leave alone\<close>

lemma sched_part [simp]:
  "sc_tasks (snd (updateStatus env code s a b c d st)) = sc_tasks st" "sc_runs (snd (updateStatus env code s a b c d st)) = sc_runs st"
  "sc_elevation (snd (updateStatus env code s a b c d st)) = sc_elevation st"
  by (simp_all add: updateStatus_def)

lemma sched_ok_requests [simp]: "sched_ok ops (st\<lparr>gw_requests := q\<rparr>) = sched_ok ops st"
  "sched_ok ops (st\<lparr>gw_reports := p\<rparr>) = sched_ok ops st" "sched_ok ops (st\<lparr>gw_policyFile := f\<rparr>) = sched_ok ops st"
  by (simp_all add: sched_ok_def ids_ok_def)

lemma requests_dao [simp]:
  "gw_requests (snd (dao_updateTask env i u f st)) = gw_requests st"
  "gw_requests (snd (dao_createTask env u' body s a st)) = gw_requests st"
  "gw_requests (snd (dao_createRun env i st)) = gw_requests st"
  "gw_requests (dao_finishRun env r sid s a b c st) = gw_requests st"
  "gw_requests (removeTask i st) = gw_requests st"
  by (simp_all add: dao_updateTask_def dao_createTask_def dao_createRun_def dao_finishRun_def removeTask_def Let_def)

lemma requests_refresh [simp]:
  "gw_requests (scheduleTask env t st) = gw_requests st" "gw_requests (refreshTask env t st) = gw_requests st"
  by (simp_all add: scheduleTask_def refreshTask_def Let_def split: option.splits)

lemma requests_issue [simp]: "gw_requests (snd (issueApprovalCode env i st)) = gw_requests st"
  by (simp add: issueApprovalCode_def Let_def case_prod_unfold split: sum.splits)

lemma requests_approveTask [simp]: "gw_requests (snd (approveScheduledTaskPolicy env i who tok st)) = gw_requests st"
  "gw_requests (snd (rejectScheduledTaskPolicy env i reason st)) = gw_requests st"
  by (simp_all add: approveScheduledTaskPolicy_def rejectScheduledTaskPolicy_def Let_def case_prod_unfold split: option.splits sum.splits)

lemma requests_createTask [simp]: "gw_requests (snd (createTask env u body st)) = gw_requests st"
proof -
  let ?pol = "sb_approvalPolicy body \<noteq> None"
  obtain task st1 where c: "dao_createTask env u body (if ?pol then ''pending_approval'' else ''active'') (if ?pol then Some ''pending'' else None) st = (task, st1)"
    by (metis prod.collapse)
  then have st1: "gw_requests st1 = gw_requests st" by (metis requests_dao(2) snd_conv)
  then have i: "issueApprovalCode env (sk_id task) st1 = (r, st2) \<Longrightarrow> gw_requests st2 = gw_requests st" for r st2
    by (metis requests_issue snd_conv)
  show ?thesis unfolding createTask_def Let_def c using st1 i by (auto split: prod.splits sum.splits)
qed

lemma requests_sched_step [simp]: "gw_requests (sched_step env op st) = gw_requests st"
  by (cases op)
    (auto simp: updateTask_def pauseTask_def resumeTask_def deleteTask_def startRun_def endRun_def reissueApproval_def
      Let_def case_prod_unfold split: sum.splits)

lemma requests_grant:
  "grantToScheduledTask env i g st = Some st' \<Longrightarrow> gw_requests st' = gw_requests st"
  "grantToInspectionPolicy env g st = Some st' \<Longrightarrow> gw_requests st' = gw_requests st"
  by (auto simp: grantToScheduledTask_def grantToInspectionPolicy_def saveInspectionPolicy_def split: option.splits if_splits)

section \<open>Lemmas: rows of requests\<close>

definition request_key :: "ToolAuthorizationRequestOrm \<Rightarrow> string \<times> string \<times> string \<times> string option \<times> string option" where
  "request_key r = (ta_code r, ta_sessionId r, ta_toolName r, ta_pathsJson r, ta_commandLine r)"

definition grant_ok :: "(string \<Rightarrow> string) \<Rightarrow> pydict \<Rightarrow> bool" where
  "grant_ok fr d \<longleftrightarrow> wf_json fr (PDict d) \<and> (dget d ''paths'' = PNone \<or> (\<exists>xs. dget d ''paths'' = PList xs))"

definition row_ok :: "(string \<Rightarrow> string) \<Rightarrow> ToolAuthorizationRequestOrm \<Rightarrow> bool" where
  "row_ok fr r \<longleftrightarrow>
     (ta_pathsJson r = None \<or> (\<exists>ps. ps \<noteq> [] \<and> ta_pathsJson r = Some (dumps_db (PList (map PStr ps))))) \<and>
     (ta_grantJson r = None \<or> (\<exists>d. grant_ok fr d \<and> ta_grantJson r = Some (dumps_db (PDict d))))"

definition requests_ok :: "(string \<Rightarrow> string) \<Rightarrow> gateway \<Rightarrow> bool" where
  "requests_ok fr st \<longleftrightarrow> list_all (row_ok fr) (gw_requests st) \<and> distinct (map ta_code (gw_requests st))"

lemma set_status_fields [simp]:
  "request_key (set_status now s a b c g r) = request_key r" "ta_code (set_status now s a b c g r) = ta_code r"
  "ta_pathsJson (set_status now s a b c g r) = ta_pathsJson r" "ta_status (set_status now s a b c g r) = s"
  "ta_sessionId (set_status now s a b c g r) = ta_sessionId r" "ta_toolName (set_status now s a b c g r) = ta_toolName r"
  "ta_commandLine (set_status now s a b c g r) = ta_commandLine r"
  by (simp_all add: set_status_def request_key_def Let_def split: option.splits)

lemma set_status_grant [simp]:
  "ta_grantJson (set_status now s a b c g r) = (case g of Some d \<Rightarrow> Some (dumps_db (PDict d)) | None \<Rightarrow> ta_grantJson r)"
  "ta_approvedAt (set_status now s a b c g r) = (if s = ''approved'' then Some now else None)"
  by (simp_all add: set_status_def Let_def split: option.splits)

lemma codes_updateStatus [simp]:
  "map ta_code (gw_requests (snd (updateStatus env code s a b c g st))) = map ta_code (gw_requests st)"
  "map request_key (gw_requests (snd (updateStatus env code s a b c g st))) = map request_key (gw_requests st)"
  by (simp_all add: updateStatus_def comp_def if_distrib)

lemma requests_ok_updateStatus:
  assumes "requests_ok fr st" "pred_option (grant_ok fr) g"
  shows "requests_ok fr (snd (updateStatus env code s a b c g st))"
proof -
  have "row_ok fr (set_status (se_now env) s a b c g r)" if "row_ok fr r" for r
    using that assms(2) by (auto simp: row_ok_def split: option.splits)
  then have "list_all (row_ok fr) (gw_requests (snd (updateStatus env code s a b c g st)))"
    using assms(1) by (auto simp: requests_ok_def updateStatus_def list_all_iff)
  with assms(1) show ?thesis by (simp add: requests_ok_def)
qed

lemma requests_ok_submit:
  assumes "requests_ok fr st"
  shows "requests_ok fr (snd (submitRequest sha env q st))"
  using assms
  by (auto simp: submitRequest_def createRequest_def requests_ok_def row_ok_def Let_def case_prod_unfold split: option.splits)

lemma keys_submit: "\<exists>new. map request_key (gw_requests (snd (submitRequest sha env q st))) = map request_key (gw_requests st) @ new"
  by (auto simp: submitRequest_def createRequest_def Let_def case_prod_unfold split: option.splits)

lemma fromkeys_set [simp]: "set (fromkeys xs) = set xs"
proof -
  have "set (foldl (\<lambda>acc x. if x \<in> set acc then acc else acc @ [x]) acc xs) = set acc \<union> set xs" for acc
    by (induction xs arbitrary: acc) auto
  then show ?thesis by (simp add: fromkeys_def)
qed

lemma fromkeys_Nil [simp]: "fromkeys xs = [] \<longleftrightarrow> xs = []"
  by (metis fromkeys_set set_empty)

lemma loads_texts: "loads fr (dumps_db (PList (map PStr ps))) = Some (PList (map PStr ps))"
  by (rule loads_dumps) (simp_all add: list_all_iff)

lemma dumps_db_Nil [simp]: "dumps_db (PList xs) \<noteq> []" "dumps_db (PDict kvs) \<noteq> []"
  by simp_all

lemma request_paths_cases:
  "row_ok fr r \<Longrightarrow> request_paths fr' r = [] \<and> ta_pathsJson r = None \<or>
     (\<exists>ps. ps \<noteq> [] \<and> ta_pathsJson r = Some (dumps_db (PList (map PStr ps))) \<and> request_paths fr' r = map PStr ps)"
  by (auto simp: row_ok_def request_paths_def loadJson_def loads_texts simp del: dumps.simps)

lemma grant_ok_buildGrant:
  assumes "row_ok fr r"
  shows "grant_ok fr (buildGrant fr' r)"
proof -
  have "\<forall>v \<in> set (request_paths fr' r). wf_json fr v" using request_paths_cases [OF assms, of fr'] by auto
  then show ?thesis by (auto simp: grant_ok_def buildGrant_def Let_def list_all_iff dget_or_def)
qed

lemma list_all_update: "list_all P d \<Longrightarrow> P (k, v) \<Longrightarrow> list_all P (AList.update k v d)"
  by (induction d) auto

lemma grant_ok_approved:
  assumes "row_ok fr r" "wf_json fr prfx"
  shows "grant_ok fr (approved_grant fr' prfx r)"
proof (cases "truthy prfx")
  case True
  let ?g = "buildGrant fr' r"
  have g: "wf_dict ?g" "list_all (\<lambda>kv. wf_json fr (snd kv)) ?g"
    using grant_ok_buildGrant [OF assms(1), of fr'] by (simp_all add: grant_ok_def)
  have "list_all (\<lambda>kv. wf_json fr (snd kv)) (AList.update ''paths'' (PList [prfx]) ?g)"
    using list_all_update [OF g(2)] assms(2) by simp
  with True g(1) show ?thesis
    by (auto simp: grant_ok_def approved_grant_def Let_def dget_or_def update_conv' distinct_update)
qed (use grant_ok_buildGrant [OF assms(1)] in \<open>simp add: approved_grant_def Let_def\<close>)

section \<open>Lemmas: invariants of the gateway\<close>

text \<open>
  What an approval in the history means for the tasks: the approval of a task whose code was pending, or
  the policy that the grant of an authorization request gave a task.
\<close>

definition write_back :: "(string \<Rightarrow> string) \<Rightarrow> pyval \<Rightarrow> string \<Rightarrow> gateway \<Rightarrow> (int \<times> string) option" where
  "write_back fr prfx code st =
     do {
       r \<leftarrow> findByCode code st;
       i \<leftarrow> case resolveSource (ta_sessionId r) st of FromTask i \<Rightarrow> Some i | _ \<Rightarrow> None;
       task \<leftarrow> dao_getTask i None st;
       merged \<leftarrow> mergeGrant (task_policy fr task) (approved_grant fr prfx r);
       Some (i, dumps_db (PDict merged))
     }"

definition approved_as :: "string \<Rightarrow> string \<Rightarrow> gateway \<Rightarrow> ElevationCodeEntry option" where
  "approved_as rtype code st =
     (case map_of (es_codes (sc_elevation st)) (strip code) of
        Some e \<Rightarrow> if ce_status e = ST_PENDING \<and> ce_request_type e = rtype then Some e else None
      | None \<Rightarrow> None)"

fun task_approval :: "(string \<Rightarrow> string) \<Rightarrow> gateway \<times> gw_op \<Rightarrow> sched_op list" where
  "task_approval fr (st, GApprove tok code who prfx) =
     (case approved_as ''scheduled_task_policy'' code st of
        Some e \<Rightarrow> (case ce_task_id e of Some i \<Rightarrow> [SApprove i who tok] | None \<Rightarrow> [])
      | None \<Rightarrow>
          (case (approved_as ''tool_authorization'' code st, write_back fr prfx (strip code) st) of
             (Some e, Some (i, p)) \<Rightarrow> [SGrant i p] | _ \<Rightarrow> []))"
| "task_approval fr (st, op) = []"

definition task_approvals :: "(string \<Rightarrow> string) \<Rightarrow> (gateway \<times> gw_op) list \<Rightarrow> sched_op list" where
  "task_approvals fr hist = concat (map (task_approval fr) hist)"

lemma approved_entry:
  assumes "get_code now code el = (entry, el1)" "approve_code sha now tok code who el1 = (Some token, el2)"
  shows "\<exists>e. entry = Some e \<and> map_of (es_codes el) code = Some e \<and> ce_status e = ST_PENDING \<and> jt_token_id token = tok \<and>
    es_tokens el2 = AList.update tok token (es_tokens el)"
  using assms by (auto simp: get_code_def approve_code_def issue_token_def Let_def split: option.splits if_splits)

lemma elevation_irrelevant_find [simp]:
  "findRunBySessionId sid (st\<lparr>sc_elevation := el\<rparr>) = findRunBySessionId sid st"
  "findBySessionId sid (st\<lparr>sc_elevation := el\<rparr>) = findBySessionId sid st"
  by (simp_all add: findRunBySessionId_def findBySessionId_def)

lemma elevation_irrelevant [simp]:
  "findByCode code (st\<lparr>sc_elevation := el\<rparr>) = findByCode code st"
  "resolveSource sid (st\<lparr>sc_elevation := el\<rparr>) = resolveSource sid st"
  "dao_getTask i u (st\<lparr>sc_elevation := el\<rparr>) = dao_getTask i u st"
  "write_back fr prfx code (st\<lparr>sc_elevation := el\<rparr>) = write_back fr prfx code st"
proof -
  show s: "resolveSource sid (st\<lparr>sc_elevation := el\<rparr>) = resolveSource sid st" for sid
    by (simp add: resolveSource_def split: option.split)
  show "write_back fr prfx code (st\<lparr>sc_elevation := el\<rparr>) = write_back fr prfx code st"
    by (simp add: write_back_def s findByCode_def dao_getTask_def del: dumps.simps)
qed (simp_all add: findByCode_def dao_getTask_def)

lemma sched_ok_updateStatus [simp]: "sched_ok ops (snd (updateStatus env code s a b c d st)) = sched_ok ops st"
  by (simp add: updateStatus_def)

lemma sched_ok_tool_expire [simp]: "sched_ok ops (snd (tool_expire env code st)) = sched_ok ops st"
  by (simp add: tool_expire_def split: option.splits)

lemma sched_ok_tool_approve:
  assumes ok: "sched_ok ops st" and a: "tool_approve env code who tok prfx st = (r, st')" and fr: "se_frepr env = fr"
  shows "sched_ok (ops @ (case write_back fr prfx code st of Some (i, p) \<Rightarrow> [SGrant i p] | None \<Rightarrow> [])) st'"
proof (cases "findByCode code st")
  case (Some row)
  let ?g = "approved_grant fr prfx row" and ?ops = "ops @ (case write_back fr prfx code st of Some (i, p) \<Rightarrow> [SGrant i p] | None \<Rightarrow> [])"
  have ok': "sched_ok ?ops st" by (rule sched_ok_mono [OF ok])
  have g: "sched_ok ?ops st2"
    if src: "resolveSource (ta_sessionId row) st = FromTask i" and s: "grantToScheduledTask env i ?g st = Some st2" for i st2
  proof (cases "dao_getTask i None st")
    case t: (Some task)
    show ?thesis
    proof (cases "sk_status task = ''deleted''")
      case False
      with s t fr obtain m where m: "mergeGrant (task_policy fr task) ?g = Some m"
        "st2 = snd (dao_updateTask env i None (\<lambda>t. t\<lparr>sk_approvalPolicy := Some (dumps_db (PDict m))\<rparr>) st)"
        by (auto simp: grantToScheduledTask_def)
      have "write_back fr prfx code st = Some (i, dumps_db (PDict m))"
        using Some src t m(1) by (simp add: write_back_def)
      with sched_ok_write_back [OF ok] m(2) show ?thesis by simp
    qed (use s t ok' in \<open>simp add: grantToScheduledTask_def\<close>)
  qed (use s ok' in \<open>simp add: grantToScheduledTask_def\<close>)
  have i: "sched_ok ?ops st2" if "grantToInspectionPolicy env ?g st = Some st2" for st2
    using that ok' by (auto simp: grantToInspectionPolicy_def saveInspectionPolicy_def)
  show ?thesis
    using a Some ok' g i fr
    by (auto simp: tool_approve_def Let_def case_prod_unfold split: if_splits option.splits request_source.splits)
qed (use a sched_ok_mono [OF ok] in \<open>simp add: tool_approve_def\<close>)

lemma sched_ok_admin_approve:
  assumes "sched_ok ops st" "se_frepr env = fr"
  shows "sched_ok (ops @ task_approval fr (st, GApprove tok code who prfx)) (snd (admin_approve sha env tok code who prfx st))"
proof -
  let ?c = "strip code" and ?ops = "ops @ task_approval fr (st, GApprove tok code who prfx)"
  obtain entry el1 where g: "get_code (se_now env) ?c (sc_elevation st) = (entry, el1)" by fastforce
  obtain token el2 where a: "approve_code sha (se_now env) tok ?c who el1 = (token, el2)" by fastforce
  let ?st = "st\<lparr>sc_elevation := el2\<rparr>"
  have ok: "sched_ok ?ops ?st" using sched_ok_mono [OF assms(1)] by simp
  show ?thesis
  proof (cases "token = None \<or> ?c = []")
    case True
    with ok sched_ok_mono [OF assms(1)] show ?thesis by (auto simp: admin_approve_def Let_def g a)
  next
    case False
    then obtain t where t: "token = Some t" by auto
    from approved_entry [OF g a [unfolded t]] obtain e where e: "entry = Some e" "map_of (es_codes (sc_elevation st)) ?c = Some e"
      "ce_status e = ST_PENDING" "jt_token_id t = tok" by auto
    consider (task) i where "ce_request_type e = ''scheduled_task_policy''" "ce_task_id e = Some i"
      | (tool) "ce_request_type e = ''tool_authorization''"
      | (other) "ce_request_type e \<noteq> ''tool_authorization''" "ce_request_type e = ''scheduled_task_policy'' \<Longrightarrow> ce_task_id e = None"
      by (cases "ce_task_id e") auto
    then show ?thesis
    proof cases
      case task
      then have "?ops = ops @ [SApprove i who tok]" using e by (simp add: approved_as_def)
      with sched_ok_approve [of ops ?st i who tok env] assms(1) task e False t show ?thesis
        by (simp add: admin_approve_def Let_def g a case_prod_unfold del: task_approval.simps)
    next
      case tool
      obtain r st' where ta: "tool_approve env ?c who tok prfx ?st = (r, st')" by fastforce
      have "?ops = ops @ (case write_back fr prfx ?c st of Some (i, p) \<Rightarrow> [SGrant i p] | None \<Rightarrow> [])"
        using e tool by (auto simp: approved_as_def split: option.splits)
      with sched_ok_tool_approve [OF _ ta assms(2), of ops] assms(1) have "sched_ok ?ops st'" by simp
      with tool e False t ta show ?thesis
        by (auto simp: admin_approve_def Let_def g a simp del: task_approval.simps split: option.splits bool.splits)
    next
      case other
      with e False t ok show ?thesis by (auto simp: admin_approve_def Let_def g a)
    qed
  qed
qed

lemma sched_ok_admin_reject: "sched_ok ops st \<Longrightarrow> sched_ok ops (snd (admin_reject env code reason st))"
  by (auto simp: admin_reject_def tool_reject_def Let_def case_prod_unfold sched_ok_reject split: option.splits)

lemma sched_ok_listPending: "sched_ok ops st \<Longrightarrow> sched_ok ops (snd (tool_listPending env n st))"
proof -
  have "sched_ok ops st \<Longrightarrow> sched_ok ops (foldl (\<lambda>st row. if P row
        then snd (updateStatus env (ta_code row) ''expired'' None None None None st) else st) st rows)" for P rows
    by (induction rows arbitrary: st) auto
  then show "sched_ok ops st \<Longrightarrow> sched_ok ops (snd (tool_listPending env n st))" by (simp add: tool_listPending_def Let_def)
qed

lemma sched_ok_submit: "sched_ok ops st \<Longrightarrow> sched_ok ops (snd (submitRequest sha env q st))"
  by (auto simp: submitRequest_def createRequest_def Let_def case_prod_unfold split: option.splits)

lemma sched_ok_drop:
  assumes "\<And>i who tok. op \<noteq> SApprove i who tok" "\<And>i p. op \<noteq> SGrant i p"
  shows "sched_ok (ops @ [op]) st = sched_ok ops st"
proof -
  have "SApprove i who tok \<in> set (ops @ [op]) \<longleftrightarrow> SApprove i who tok \<in> set ops"
    "SGrant i p \<in> set (ops @ [op]) \<longleftrightarrow> SGrant i p \<in> set ops" for i who tok p
    using assms(1) [symmetric] assms(2) [symmetric] by auto
  then have "task_approved (ops @ [op]) t = task_approved ops t" for t by (simp add: task_approved_def del: set_append)
  then show ?thesis by (simp add: sched_ok_def list_all_iff)
qed

lemma sched_ok_gw_step:
  assumes "sched_ok ops st" "gw_allowed fr op st" "se_frepr env = fr"
  shows "sched_ok (ops @ task_approval fr (st, op)) (gw_step edsign sha env op st)"
proof (cases op)
  case (GTask sop)
  have "sched_ok ops (sched_step env sop st)"
    using sched_ok_step [OF assms(1), of sop env] assms(2) GTask sched_ok_drop [of sop ops]
    by (cases sop) auto
  with GTask show ?thesis by simp
qed (use assms in \<open>simp_all add: sched_ok_submit sched_ok_admin_approve sched_ok_admin_reject sched_ok_listPending admin_revoke_def
    endInspection_def createReport_def Let_def case_prod_unfold del: task_approval.simps(1)\<close>)

lemma requests_ok_fields [simp]:
  "requests_ok fr (st\<lparr>sc_elevation := el\<rparr>) = requests_ok fr st" "requests_ok fr (st\<lparr>gw_reports := rs\<rparr>) = requests_ok fr st"
  by (simp_all add: requests_ok_def)

lemma requests_ok_cong: "gw_requests st' = gw_requests st \<Longrightarrow> requests_ok fr st' = requests_ok fr st"
  by (simp add: requests_ok_def)

lemma tool_approve_requests:
  assumes "requests_ok fr st" "wf_json fr prfx" "tool_approve env code who tok prfx st = (r, st')"
  shows "requests_ok fr st'" "map request_key (gw_requests st') = map request_key (gw_requests st)"
proof -
  have "requests_ok fr st' \<and> map request_key (gw_requests st') = map request_key (gw_requests st)"
  proof (cases "findByCode code st")
    case (Some row)
    let ?g = "approved_grant (se_frepr env) prfx row"
    have "row \<in> set (gw_requests st)" using Some by (auto simp: findByCode_def find_Some_iff)
    then have "row_ok fr row" using assms(1) by (auto simp: requests_ok_def list_all_iff)
    from grant_ok_approved [OF this assms(2)] have g: "grant_ok fr ?g" .
    have u: "requests_ok fr (snd (updateStatus env code ''approved'' (Some who) None (Some tok) (Some ?g) st2)) \<and>
        map request_key (gw_requests (snd (updateStatus env code ''approved'' (Some who) None (Some tok) (Some ?g) st2))) =
        map request_key (gw_requests st)"
      if "gw_requests st2 = gw_requests st" for st2
      using that requests_ok_cong [OF that] assms(1) g by (simp add: requests_ok_updateStatus)
    show ?thesis
      using assms(1,3) Some u requests_grant [where st = st]
      by (auto simp: tool_approve_def Let_def case_prod_unfold split: if_splits option.splits request_source.splits)
  qed (use assms in \<open>simp add: tool_approve_def\<close>)
  then show "requests_ok fr st'" "map request_key (gw_requests st') = map request_key (gw_requests st)" by simp_all
qed

lemma tool_expire_requests:
  "requests_ok fr st \<Longrightarrow> requests_ok fr (snd (tool_expire env code st))"
  "map request_key (gw_requests (snd (tool_expire env code st))) = map request_key (gw_requests st)"
  by (simp_all add: tool_expire_def requests_ok_updateStatus split: option.splits)

lemma admin_approve_requests:
  assumes "requests_ok fr st" "wf_json fr prfx"
  shows "requests_ok fr (snd (admin_approve sha env tok code who prfx st)) \<and>
    map request_key (gw_requests (snd (admin_approve sha env tok code who prfx st))) = map request_key (gw_requests st)"
proof -
  obtain entry el1 where g: "get_code (se_now env) (strip code) (sc_elevation st) = (entry, el1)" by fastforce
  obtain token el2 where a: "approve_code sha (se_now env) tok (strip code) who el1 = (token, el2)" by fastforce
  let ?st = "st\<lparr>sc_elevation := el2\<rparr>"
  obtain r st' where t: "tool_approve env (strip code) who (jt_token_id (the token)) prfx ?st = (r, st')" by fastforce
  note T = tool_approve_requests [OF _ assms(2) t]
  have "gw_requests st2 = gw_requests st \<and> requests_ok fr st2" if "approveScheduledTaskPolicy env i who x ?st = (ok, st2)" for i x ok st2
    using requests_approveTask(1) [of env i who x ?st] that assms(1) requests_ok_cong [of st2 st fr] by simp
  then show ?thesis
    using assms(1) T tool_expire_requests [where st = ?st and env = env and code = "strip code"] t
    by (cases token) (auto simp: admin_approve_def Let_def g a split: option.splits bool.splits prod.splits)
qed

lemma admin_reject_requests:
  assumes "requests_ok fr st"
  shows "requests_ok fr (snd (admin_reject env code reason st)) \<and>
    map request_key (gw_requests (snd (admin_reject env code reason st))) = map request_key (gw_requests st)"
  using assms requests_ok_cong [OF requests_approveTask(2)]
  by (auto simp: admin_reject_def tool_reject_def Let_def case_prod_unfold requests_ok_updateStatus split: option.splits)

lemma listPending_requests:
  assumes "requests_ok fr st"
  shows "requests_ok fr (snd (tool_listPending env n st)) \<and>
    map request_key (gw_requests (snd (tool_listPending env n st))) = map request_key (gw_requests st)"
proof -
  have "requests_ok fr st \<Longrightarrow> requests_ok fr (foldl (\<lambda>st row. if P row then snd (updateStatus env (ta_code row) ''expired'' None None None None st) else st) st rows) \<and>
      map request_key (gw_requests (foldl (\<lambda>st row. if P row then snd (updateStatus env (ta_code row) ''expired'' None None None None st) else st) st rows)) =
      map request_key (gw_requests st)" for P rows st
    by (induction rows arbitrary: st) (simp_all add: requests_ok_updateStatus)
  with assms show ?thesis by (simp add: tool_listPending_def Let_def)
qed

text \<open>Requests are only added, and what was asked for never changes.\<close>

lemma gw_step_requests:
  assumes "requests_ok fr st" "gw_allowed fr op st"
  shows "requests_ok fr (gw_step edsign sha env op st) \<and>
    (\<exists>new. map request_key (gw_requests (gw_step edsign sha env op st)) = map request_key (gw_requests st) @ new)"
proof (cases op)
  case (GTask sop)
  then show ?thesis using assms requests_ok_cong [of "sched_step env sop st" st fr] by simp
next
  case (GSubmit q)
  then show ?thesis using assms requests_ok_submit keys_submit by simp
qed (use assms admin_approve_requests admin_reject_requests listPending_requests in
    \<open>auto simp: admin_revoke_def endInspection_def createReport_def Let_def case_prod_unfold\<close>)

lemma gw_reach_requests: "gw_reach edsign sha fr st hist \<Longrightarrow> requests_ok fr st"
proof (induction rule: gw_reach.induct)
  case (gw_init st)
  then show ?case by (simp add: requests_ok_def)
next
  case (gw_more st hist op env)
  then show ?case using gw_step_requests by blast
qed

lemma gw_reach_sched: "gw_reach edsign sha fr st hist \<Longrightarrow> sched_ok (task_approvals fr hist) st"
proof (induction rule: gw_reach.induct)
  case (gw_init st)
  then show ?case by (simp add: sched_ok_def ids_ok_def)
next
  case (gw_more st hist op env)
  then show ?case using sched_ok_gw_step by (simp add: task_approvals_def)
qed

section \<open>Lemmas: grants cover the call they were asked for\<close>

lemma first_cover_True:
  "\<forall>g \<in> set gs. grant_covers paths cmd name g \<noteq> None \<Longrightarrow> g \<in> set gs \<Longrightarrow> grant_covers paths cmd name g = Some True \<Longrightarrow>
   first_cover paths cmd name gs = Some True"
  by (induction gs) (auto split: option.splits)

lemma pathWithin_refl: "p \<noteq> [] \<Longrightarrow> pathWithin p p"
  by (simp add: pathWithin_def Let_def)

lemma call_paths_nonempty: "p \<in> set (call_paths args) \<Longrightarrow> p \<noteq> []"
  by (auto simp: set_extractPathLikeValues)

lemma nonempty_items_grant:
  assumes "v = PNone \<or> (\<exists>xs. v = PList xs)"
  shows "nonempty_items [(''toolName'', t), (''paths'', v), (''commandLine'', c)] ''paths'' =
    Some (case v of PList xs \<Rightarrow> filter (\<lambda>s. s \<noteq> []) (map py_str xs) | _ \<Rightarrow> [])"
  using assms by (auto simp: nonempty_items_def str_items_def dget_or_def Let_def)

lemma grant_covers_defined:
  assumes "grant_ok fr d"
  shows "grant_covers paths cmd name (grant_of r (PDict d)) \<noteq> None"
  using nonempty_items_grant [of "dget d ''paths''"] assms
  by (auto simp: grant_ok_def grant_covers_def grant_of_def Let_def)

lemma loads_grant: "grant_ok fr d \<Longrightarrow> loadJson fr (Some (dumps_db (PDict d))) = Some (PDict d)"
  by (simp add: loadJson_def grant_ok_def loads_dumps del: dumps.simps wf_json.simps)

lemma listApprovedGrants_defined:
  assumes "requests_ok fr st" "listApprovedGrants fr st sid tid src = Some gs" "g \<in> set gs"
  shows "grant_covers paths cmd name g \<noteq> None"
proof -
  have "set (listApproved sid tid src st) \<subseteq> set (gw_requests st)"
    by (auto simp: listApproved_def by_approvedAt_def)
  moreover obtain r where "r \<in> set (listApproved sid tid src st)" "g \<in> set (row_grants fr r)"
    using assms(2,3) by (auto simp: listApprovedGrants_def)
  ultimately have r: "row_ok fr r" "g \<in> set (row_grants fr r)"
    using assms(1) by (auto simp: requests_ok_def list_all_iff)
  then obtain d where "grant_ok fr d" "g = grant_of r (PDict d)"
    by (auto simp: row_ok_def row_grants_def loads_grant loadJson_def [of _ None] split: option.splits if_splits simp del: dumps.simps)
  then show ?thesis by (simp add: grant_covers_defined)
qed

text \<open>A request made for a call: what the agent loop submits.\<close>

definition asks_for :: "string \<Rightarrow> string \<Rightarrow> pydict \<Rightarrow> ToolAuthorizationRequestOrm \<Rightarrow> bool" where
  "asks_for sessionId name args r \<longleftrightarrow>
     (let cmd = (if command_tool name then extractCommandLine args else []) in
      ta_sessionId r = sessionId \<and> ta_toolName r = name \<and>
      ta_pathsJson r = (if call_paths args \<noteq> [] then Some (dumps_db (PList (map PStr (call_paths args)))) else None) \<and>
      ta_commandLine r = (if cmd \<noteq> [] then Some cmd else None))"

lemma covers_own_paths:
  assumes "ta_toolName r = name" "request_paths fr r = map PStr ps" "\<forall>p \<in> set ps. p \<noteq> []"
    and cmd: "ta_commandLine r = (if cmd \<noteq> [] then Some cmd else None)"
  shows "grant_covers ps cmd name (grant_of r (PDict (buildGrant fr r))) = Some True"
proof -
  let ?g = "buildGrant fr r"
  have "grant_of r (PDict ?g) = [(''toolName'', PStr name),
      (''paths'', if ps = [] then PNone else PList (fromkeys (map PStr ps))), (''commandLine'', if cmd = [] then PNone else PStr cmd)]"
    using assms by (auto simp: grant_of_def buildGrant_def Let_def dget_or_def or_empty_def)
  moreover have "list_ex (\<lambda>p. list_ex (pathWithin p) (filter (\<lambda>s. s \<noteq> []) (map py_str (fromkeys (map PStr ps))))) ps" if "ps \<noteq> []"
  proof -
    have "hd ps \<in> set ps" using that by (rule hd_in_set)
    moreover from this assms(3) have "pathWithin (hd ps) (hd ps)" by (simp add: pathWithin_refl)
    ultimately show ?thesis using assms(3) by (force simp: list_ex_iff py_str_def)
  qed
  ultimately show ?thesis
    by (auto simp: grant_covers_def nonempty_items_grant dget_or_def py_str_def command_listed_def)
qed

lemma asks_for_covered:
  assumes "asks_for sid name args r"
  shows "grant_covers (call_paths args) (if command_tool name then extractCommandLine args else []) name
     (grant_of r (PDict (buildGrant fr r))) = Some True"
proof (rule covers_own_paths)
  show "request_paths fr r = map PStr (call_paths args)"
    using assms by (auto simp: asks_for_def request_paths_def loadJson_def loads_texts Let_def simp del: dumps.simps)
qed (use assms call_paths_nonempty in \<open>auto simp: asks_for_def Let_def\<close>)

text \<open>The states later operations of the gateway lead to.\<close>

inductive gw_later :: "(string \<Rightarrow> string) \<Rightarrow> (string \<Rightarrow> string) \<Rightarrow> (string \<Rightarrow> string) \<Rightarrow> gateway \<Rightarrow> gateway \<Rightarrow> bool"
  for edsign sha fr st where
  later_now: "gw_later edsign sha fr st st"
| later_step: "gw_later edsign sha fr st st' \<Longrightarrow> gw_allowed fr op st' \<Longrightarrow> se_frepr env = fr \<Longrightarrow>
    gw_later edsign sha fr st (gw_step edsign sha env op st')"

lemma gw_later_requests:
  assumes "requests_ok fr st"
  shows "gw_later edsign sha fr st st' \<Longrightarrow> requests_ok fr st' \<and>
    (\<exists>new. map request_key (gw_requests st') = map request_key (gw_requests st) @ new)"
proof (induction rule: gw_later.induct)
  case (later_step st' op env)
  with gw_step_requests [of fr st' op edsign sha env] show ?case by auto
qed (use assms in simp)

lemma findByCode_key:
  assumes "requests_ok fr st" "(code, k) \<in> set (map request_key (gw_requests st))"
  shows "\<exists>r. findByCode code st = Some r \<and> r \<in> set (gw_requests st) \<and> request_key r = (code, k)"
proof -
  obtain r where r: "r \<in> set (gw_requests st)" "request_key r = (code, k)" using assms(2) by fastforce
  obtain r' where f: "findByCode code st = Some r'"
    using r by (cases "findByCode code st") (auto simp: findByCode_def find_None_iff request_key_def)
  then have "r' \<in> set (gw_requests st)" "ta_code r' = code" by (auto simp: findByCode_def find_Some_iff)
  with r assms(1) have "r' = r" by (auto simp: requests_ok_def distinct_map inj_on_def request_key_def)
  with f r show ?thesis by blast
qed

lemma asks_for_key: "request_key r' = request_key r \<Longrightarrow> asks_for sid name args r' = asks_for sid name args r"
  by (simp add: asks_for_def request_key_def)

lemma submit_row:
  assumes "submitRequest sha env q st = (Some (code, True), st1)"
  shows "\<exists>r. r \<in> set (gw_requests st1) \<and> ta_code r = code \<and> ta_sessionId r = tq_sessionId q \<and> ta_toolName r = tq_toolName q \<and>
    ta_pathsJson r = (if tq_paths q \<noteq> [] then Some (dumps_db (PList (map PStr (tq_paths q)))) else None) \<and>
    ta_commandLine r = tq_commandLine q"
  using assms
  by (auto simp: submitRequest_def createRequest_def Let_def case_prod_unfold simp del: dumps.simps split: option.splits if_splits)

lemma submit_asks_for:
  assumes "submitRequest sha env (request_of rt (auth_request_of cfg name args reason preason risk)) st = (Some (code, True), st1)"
  shows "\<exists>r. r \<in> set (gw_requests st1) \<and> ta_code r = code \<and> asks_for (cf_sessionId cfg) name args r"
proof -
  let ?q = "request_of rt (auth_request_of cfg name args reason preason risk)"
  have "tq_sessionId ?q = cf_sessionId cfg" "tq_toolName ?q = name" "tq_paths ?q = call_paths args"
    "tq_commandLine ?q = (let cmd = if command_tool name then extractCommandLine args else [] in if cmd \<noteq> [] then Some cmd else None)"
    by (simp_all add: request_of_def auth_request_of_def Let_def case_prod_unfold)
  with submit_row [OF assms] show ?thesis by (auto simp: asks_for_def Let_def simp del: dumps.simps)
qed

lemma tool_approve_grants:
  assumes "requests_ok fr st" "se_frepr env = fr" "tool_approve env code who tok PNone st = (Some True, st')"
    and r: "findByCode code st = Some r" "asks_for sid name args r" "sid \<noteq> []"
  shows "\<exists>gs. listApprovedGrants fr st' (Some sid) None None = Some gs \<and> grant_of r (PDict (buildGrant fr r)) \<in> set gs"
proof -
  let ?g = "buildGrant fr r" and ?r = "set_status (se_now env) ''approved'' (Some who) None (Some tok) (Some (buildGrant fr r)) r"
  have r': "r \<in> set (gw_requests st)" "ta_code r = code" using r(1) by (auto simp: findByCode_def find_Some_iff)
  obtain st2 where st2: "gw_requests st2 = gw_requests st"
      "st' = snd (updateStatus env code ''approved'' (Some who) None (Some tok) (Some ?g) st2)"
    using assms(2,3) r(1) requests_grant [where st = st]
    by (fastforce simp: tool_approve_def approved_grant_def Let_def case_prod_unfold split: if_splits option.splits request_source.splits)
  have "?r \<in> set (gw_requests st')" using st2 r' by (auto simp: updateStatus_def)
  then have "?r \<in> set (listApproved (Some sid) None None st')"
    using r(2,3) by (auto simp: listApproved_def by_approvedAt_def asks_for_def Let_def)
  moreover have "grant_ok fr ?g" using assms(1) r'(1) grant_ok_buildGrant by (auto simp: requests_ok_def list_all_iff)
  then have "row_grants fr ?r = [grant_of r (PDict ?g)]"
    by (simp add: row_grants_def loads_grant grant_of_def Let_def del: dumps.simps)
  ultimately show ?thesis by (auto simp: listApprovedGrants_def intro!: bexI [of _ ?r])
qed

lemma preauthorized_by_grant:
  assumes ok: "requests_ok fr st" and g: "listApprovedGrants fr st (Some sid) None None = Some gs" "g \<in> set gs"
    "grant_covers (call_paths args) (if command_tool name then extractCommandLine args else []) name g = Some True"
    and s: "checkStaticPreauthorization policy name args = Some (ok', why)" "\<not> sublist (uni ''deniedPaths'') (reason_text why)" "sid \<noteq> []"
  shows "\<exists>why'. isPreAuthorizedToolCall (listApprovedGrants fr st) policy sid taskId source name args = Some (True, why')"
proof -
  have some: "\<exists>gs. listApprovedGrants fr st a b c = Some gs" for a b c by (simp add: listApprovedGrants_def)
  obtain b where b: "(if taskId \<noteq> None then listApprovedGrants fr st None taskId (Some ''scheduled'') else Some []) = Some b"
      "\<forall>x \<in> set b. grant_covers p c n x \<noteq> None" for p c n
    using some [of None taskId "Some ''scheduled''"] listApprovedGrants_defined [OF ok] by (cases taskId) auto
  obtain d where d: "(if source = ''inspection'' then listApprovedGrants fr st None None (Some ''inspection'') else Some []) = Some d"
      "\<forall>x \<in> set d. grant_covers p c n x \<noteq> None" for p c n
    using some [of None None "Some ''inspection''"] listApprovedGrants_defined [OF ok] by (cases "source = ''inspection''") auto
  have "run_grants (listApprovedGrants fr st) sid taskId source = Some (gs @ b @ d)"
    using g(1) s(3) b(1) d(1) by (simp add: run_grants_def)
  moreover have "matchApprovedGrant (gs @ b @ d) name args = Some True"
    unfolding matchApprovedGrant_def
    by (rule first_cover_True [where g = g]) (use g b(2) d(2) listApprovedGrants_defined [OF ok g(1)] in auto)
  ultimately show ?thesis using s by (cases ok') (simp_all add: isPreAuthorizedToolCall_def)
qed

lemma admin_approve_tool:
  assumes "approved_as ''tool_authorization'' code st = Some e" "admin_approve sha env tok code who prfx st = (Inr token, st')"
  shows "\<exists>el. tool_approve env (strip code) who tok prfx (st\<lparr>sc_elevation := el\<rparr>) = (Some True, st')"
proof -
  obtain entry el1 where g: "get_code (se_now env) (strip code) (sc_elevation st) = (entry, el1)" by fastforce
  obtain t el2 where a: "approve_code sha (se_now env) tok (strip code) who el1 = (t, el2)" by fastforce
  from assms(2) obtain token where t: "t = Some token"
    by (cases t) (auto simp: admin_approve_def Let_def g a split: if_splits)
  from approved_entry [OF g a [unfolded t]] assms(1) have e: "entry = Some e" "jt_token_id token = tok"
    "ce_request_type e = ''tool_authorization''" by (auto simp: approved_as_def split: option.splits if_splits)
  from assms(2) have "tool_approve env (strip code) who tok prfx (st\<lparr>sc_elevation := el2\<rparr>) = (Some True, st')"
    by (auto simp: admin_approve_def Let_def g a t e split: if_splits option.splits bool.splits prod.splits)
  then show ?thesis by blast
qed

lemma task_approval_SApprove:
  "SApprove i who tok \<in> set (task_approval fr (st, op)) \<Longrightarrow>
    \<exists>code prfx e. op = GApprove tok code who prfx \<and> approved_as ''scheduled_task_policy'' code st = Some e \<and> ce_task_id e = Some i"
  by (cases op) (auto split: option.splits)

lemma task_approval_SGrant:
  "SGrant i p \<in> set (task_approval fr (st, op)) \<Longrightarrow>
    \<exists>tok code who prfx e. op = GApprove tok code who prfx \<and> approved_as ''tool_authorization'' code st = Some e \<and>
      write_back fr prfx (strip code) st = Some (i, p)"
  by (cases op) (auto split: option.splits dest!: sym [of "Some _"])

lemma usable_command_tokens:
  "es_tokens s' = es_tokens s \<Longrightarrow> usable_command now tid index sid s' = usable_command now tid index sid s"
  by (simp add: usable_command_def)

lemma elevation_tool_approve:
  assumes "tool_approve env code who tok prfx st = (r, st')"
  shows "sc_elevation st' = sc_elevation st"
proof -
  have "grantToScheduledTask env i g st = Some st2 \<Longrightarrow> sc_elevation st2 = sc_elevation st"
    "grantToInspectionPolicy env g st = Some st2 \<Longrightarrow> sc_elevation st2 = sc_elevation st" for i g st2
    by (auto simp: grantToScheduledTask_def grantToInspectionPolicy_def saveInspectionPolicy_def dao_updateTask_def
        split: option.splits if_splits)
  with assms show ?thesis
    by (auto simp: tool_approve_def Let_def case_prod_unfold split: option.splits if_splits request_source.splits)
qed

lemma revoked_unusable:
  assumes "es_tokens s' = AList.update tok t (es_tokens s)" "jt_token_id t = tok"
  shows "usable_command now tid index sid (snd (revoke_token tok s')) =
    (if tid = tok then None else usable_command now tid index sid s)"
  using assms by (simp add: usable_command_def revoke_token_def token_exhausted_def)

section \<open>Lemmas: merged policies\<close>

lemma add_item_Some:
  assumes "add_item key v m = Some m'"
  shows "\<exists>xs. str_items m key = Some xs \<and> m' = AList.update key (PList (if v \<in> set (map PStr xs) then map PStr xs else map PStr xs @ [v])) m"
  using assms by (auto simp: add_item_def bind_eq_Some_conv)

lemma str_items_list:
  assumes "map_of m key = Some (PList vs)"
  shows "str_items m key = Some (map py_str vs)"
  using assms by (simp add: str_items_def dget_or_def Let_def)

lemma py_str_PStr [simp]: "py_str (PStr s) = s"
  by (simp add: py_str_def)

text \<open>The entry has the old items and the new one, the other entries stay.\<close>

lemma add_item_items:
  assumes "add_item key v m = Some m'"
  shows "str_items m' key \<noteq> None" "set (the (str_items m' key)) = insert (py_str v) (set (the (str_items m key)))"
    "k \<noteq> key \<Longrightarrow> map_of m' k = map_of m k" "map_of m' key \<noteq> None" "wf_json fr (PDict m) \<Longrightarrow> wf_json fr v \<Longrightarrow> wf_json fr (PDict m')"
proof -
  from add_item_Some [OF assms] obtain xs vs where xs: "str_items m key = Some xs" and m': "m' = AList.update key (PList vs) m"
    and vs: "vs = (if v \<in> set (map PStr xs) then map PStr xs else map PStr xs @ [v])" by blast
  have i: "str_items m' key = Some (map py_str vs)" by (rule str_items_list) (simp add: m')
  then show "str_items m' key \<noteq> None" by simp
  show "set (the (str_items m' key)) = insert (py_str v) (set (the (str_items m key)))"
    using xs by (auto simp: i vs image_iff)
  show "k \<noteq> key \<Longrightarrow> map_of m' k = map_of m k" "map_of m' key \<noteq> None" by (simp_all add: m')
  show "wf_json fr (PDict m')" if "wf_json fr (PDict m)" "wf_json fr v"
  proof -
    have "wf_json fr (PList vs)" using that(2) by (auto simp: vs list_all_iff)
    with that(1) list_all_update [of "\<lambda>kv. wf_json fr (snd kv)" m key "PList vs"] show ?thesis by (simp add: m' del: wf_json.simps(2))
  qed
qed

lemma add_items_items:
  assumes "add_items key vs m = Some m'"
  shows "set (the (str_items m' key)) = py_str ` set vs \<union> set (the (str_items m key))" "vs \<noteq> [] \<or> str_items m key \<noteq> None \<Longrightarrow> str_items m' key \<noteq> None"
    "k \<noteq> key \<Longrightarrow> map_of m' k = map_of m k" "wf_json fr (PDict m) \<Longrightarrow> \<forall>v \<in> set vs. wf_json fr v \<Longrightarrow> wf_json fr (PDict m')"
proof -
  have "set (the (str_items m' key)) = py_str ` set vs \<union> set (the (str_items m key)) \<and> (vs \<noteq> [] \<or> str_items m key \<noteq> None \<longrightarrow> str_items m' key \<noteq> None) \<and>
    (k \<noteq> key \<longrightarrow> map_of m' k = map_of m k) \<and> (wf_json fr (PDict m) \<longrightarrow> (\<forall>v \<in> set vs. wf_json fr v) \<longrightarrow> wf_json fr (PDict m'))"
    using assms
  proof (induction vs arbitrary: m)
    case (Cons v vs)
    then obtain m1 where m1: "add_item key v m = Some m1" "add_items key vs m1 = Some m'" by (auto simp: bind_eq_Some_conv)
    from add_item_items [OF m1(1)] Cons.IH [OF m1(2)] show ?case by (auto simp del: wf_json.simps)
  qed simp
  then show "set (the (str_items m' key)) = py_str ` set vs \<union> set (the (str_items m key))" "vs \<noteq> [] \<or> str_items m key \<noteq> None \<Longrightarrow> str_items m' key \<noteq> None"
    "k \<noteq> key \<Longrightarrow> map_of m' k = map_of m k" "wf_json fr (PDict m) \<Longrightarrow> \<forall>v \<in> set vs. wf_json fr v \<Longrightarrow> wf_json fr (PDict m')" by blast+
qed

lemma str_items_cong: "map_of m' k = map_of m k \<Longrightarrow> str_items m' k = str_items m k"
  by (simp add: str_items_def dget_or_def)

lemma str_items_None_key: "map_of m k = None \<Longrightarrow> str_items m k = Some []"
  by (simp add: str_items_def dget_or_def)

text \<open>The entries of a policy after the grant of a request for a call is merged.\<close>

lemma mergeGrant_items:
  assumes r: "asks_for sid name args r" "name \<noteq> []" and m: "mergeGrant policy (buildGrant fr r) = Some merged"
  defines "cmd \<equiv> if command_tool name then extractCommandLine args else []"
  shows "str_items merged ''allowedTools'' \<noteq> None" "name \<in> set (the (str_items merged ''allowedTools''))"
    "set (the (str_items merged ''allowedPaths'')) = set (call_paths args) \<union> set (the (str_items policy ''allowedPaths''))"
    "str_items policy ''allowedPaths'' \<noteq> None \<Longrightarrow> str_items merged ''allowedPaths'' \<noteq> None"
    "cmd \<noteq> [] \<Longrightarrow> str_items merged ''allowedCommands'' \<noteq> None \<and> cmd \<in> set (the (str_items merged ''allowedCommands''))"
    "k \<notin> {''allowedTools'', ''allowedPaths'', ''allowedCommands''} \<Longrightarrow> map_of merged k = map_of policy k"
    "wf_json fr' (PDict policy) \<Longrightarrow> wf_json fr' (PDict merged)"
proof -
  let ?g = "buildGrant fr r"
  have f: "ta_toolName r = name" "ta_commandLine r = (if cmd \<noteq> [] then Some cmd else None)"
    using r(1) by (simp_all add: asks_for_def Let_def cmd_def)
  have p: "request_paths fr r = map PStr (call_paths args)"
    using r(1) by (auto simp: asks_for_def request_paths_def loadJson_def loads_texts Let_def simp del: dumps.simps)
  have g: "dget ?g ''toolName'' = PStr name" "grant_paths ?g = fromkeys (map PStr (call_paths args))"
    "dget ?g ''commandLine'' = (if cmd \<noteq> [] then PStr cmd else PNone)"
    using f p by (auto simp: buildGrant_def grant_paths_def Let_def dget_or_def or_empty_def fromkeys_def)
  from m obtain m1 m2 where m1: "add_item ''allowedTools'' (PStr name) policy = Some m1"
    and m2: "add_items ''allowedPaths'' (fromkeys (map PStr (call_paths args))) m1 = Some m2"
    and m3: "if cmd \<noteq> [] then add_item ''allowedCommands'' (PStr cmd) m2 = Some merged else merged = m2"
    using r(2) by (auto simp: mergeGrant_def g bind_eq_Some_conv split: if_splits)
  note i1 = add_item_items [OF m1] and i2 = add_items_items [OF m2]
  have k3: "k \<noteq> ''allowedCommands'' \<Longrightarrow> map_of merged k = map_of m2 k" for k
    using m3 add_item_items(3) by (auto split: if_splits)
  have t: "str_items merged ''allowedTools'' = str_items m1 ''allowedTools''"
    by (rule str_items_cong) (simp add: k3 i2(3))
  show "str_items merged ''allowedTools'' \<noteq> None" "name \<in> set (the (str_items merged ''allowedTools''))"
    using i1(1,2) by (simp_all add: t)
  have pa: "str_items merged ''allowedPaths'' = str_items m2 ''allowedPaths''" "str_items m1 ''allowedPaths'' = str_items policy ''allowedPaths''"
    by (auto intro!: str_items_cong simp: k3 i1(3))
  show "set (the (str_items merged ''allowedPaths'')) = set (call_paths args) \<union> set (the (str_items policy ''allowedPaths''))"
    using i2(1) by (simp add: pa image_image)
  show "str_items policy ''allowedPaths'' \<noteq> None \<Longrightarrow> str_items merged ''allowedPaths'' \<noteq> None" using i2(2) by (simp add: pa)
  show "str_items merged ''allowedCommands'' \<noteq> None \<and> cmd \<in> set (the (str_items merged ''allowedCommands''))" if "cmd \<noteq> []"
    using m3 that add_item_items(1,2) [of "''allowedCommands''" "PStr cmd" m2 merged] by simp
  show "k \<notin> {''allowedTools'', ''allowedPaths'', ''allowedCommands''} \<Longrightarrow> map_of merged k = map_of policy k"
    by (simp add: k3 i2(3) i1(3))
  show "wf_json fr' (PDict merged)" if "wf_json fr' (PDict policy)"
    using m3 add_item_items(5) [of "''allowedCommands''" "PStr cmd" m2 merged fr'] i2(4) [of fr'] i1(5) [OF that] by (auto split: if_splits)
qed

lemma merged_policy_authorizes:
  assumes r: "asks_for sid name args r" "name \<noteq> []" and m: "mergeGrant policy (buildGrant fr r) = Some merged"
    and priv: "privileged_denial policy name args = Some None"
    and cmd: "command_tool name \<Longrightarrow> extractCommandLine args \<noteq> []"
      "name = ''runShellCommand'' \<Longrightarrow> \<not> list_ex (\<lambda>c. c \<in> set SHELL_CONTROL) (extractCommandLine args)"
    and den: "nonempty_items policy ''deniedPaths'' = Some denied" "\<And>p. p \<in> set (call_paths args) \<Longrightarrow> \<not> list_ex (pathWithin p) denied"
    and allowed: "str_items policy ''allowedPaths'' \<noteq> None"
  shows "checkStaticPreauthorization merged name args = Some (True, PolicyMatch)"
proof -
  note M = mergeGrant_items [OF r m]
  obtain tools where t: "str_items merged ''allowedTools'' = Some tools" "name \<in> set tools" using M(1,2) by auto
  have "str_items merged ''allowedPrivilegedCommands'' = str_items policy ''allowedPrivilegedCommands''"
    "nonempty_items merged ''deniedPaths'' = nonempty_items policy ''deniedPaths''"
    using str_items_cong [OF M(6)] by (simp_all add: nonempty_items_def)
  then have p: "privileged_denial merged name args = Some None" and d: "nonempty_items merged ''deniedPaths'' = Some denied"
    using priv den(1) by (simp_all add: privileged_denial_def)
  have c: "command_denial merged name args = Some None"
  proof (cases "command_tool name")
    case True
    then obtain cs where "str_items merged ''allowedCommands'' = Some cs" "extractCommandLine args \<in> set cs"
      using M(5) cmd(1) by auto
    with True cmd show ?thesis by (auto simp: command_denial_def command_listed_def list_ex_iff Let_def)
  qed (simp add: command_denial_def)
  have n: "filter (\<lambda>(p, d). pathWithin p d) (List.product (call_paths args) denied) = []"
    using den(2) by (auto simp: filter_empty_conv list_ex_iff)
  obtain as where as: "str_items merged ''allowedPaths'' = Some as" "set (call_paths args) \<subseteq> set as"
    using M(3,4) allowed by auto
  have "filter (\<lambda>p. \<not> list_ex (pathWithin p) (filter (\<lambda>s. s \<noteq> []) as)) (call_paths args) = []"
    using as(2) call_paths_nonempty pathWithin_refl by (force simp: filter_empty_conv list_ex_iff)
  moreover have "nonempty_items merged ''allowedPaths'' = Some (filter (\<lambda>s. s \<noteq> []) as)" by (simp add: nonempty_items_def as(1))
  ultimately have "path_denial merged args = Some None"
    by (simp add: path_denial_def d n Let_def del: flattenArgumentValues.simps)
  with t p c show ?thesis by (simp add: checkStaticPreauthorization_def)
qed

section \<open>Properties\<close>

text \<open>
  C14. In every history of the gateway in which no task that waits for its approval is paused or resumed, the
  agent is started for a task with an approval policy only if an administrator approved a pending code of
  this task, whose token the task holds, or approved an authorization request whose grant was
  written back into the policy of this task.
\<close>

theorem gateway_runs_are_approved:
  assumes "gw_reach edsign sha fr st hist" "startRun env i st = (Inr (row, task), st')" "sk_approvalPolicy task \<noteq> None"
  shows "(\<exists>st0 tok code who prfx e. (st0, GApprove tok code who prfx) \<in> set hist \<and>
            approved_as ''scheduled_task_policy'' code st0 = Some e \<and> ce_task_id e = Some i \<and>
            sk_approvalStatus task = Some ''approved'' \<and> sk_approvalTokenId task = Some tok) \<or>
         (\<exists>st0 tok code who prfx e p. (st0, GApprove tok code who prfx) \<in> set hist \<and>
            approved_as ''tool_authorization'' code st0 = Some e \<and> write_back fr prfx (strip code) st0 = Some (i, p))"
proof -
  have "\<exists>st0 op. (st0, op) \<in> set hist \<and> sop \<in> set (task_approval fr (st0, op))" if "sop \<in> set (task_approvals fr hist)" for sop
    using that by (auto simp: task_approvals_def)
  note in_hist = this
  from started_task_approved [OF gw_reach_sched [OF assms(1)] assms(2,3)] show ?thesis
  proof (elim disjE exE conjE)
    fix p assume "SGrant i p \<in> set (task_approvals fr hist)"
    from in_hist [OF this] task_approval_SGrant show ?thesis by (intro disjI2) metis
  next
    fix who tok assume "SApprove i who tok \<in> set (task_approvals fr hist)" and
      t: "sk_approvalStatus task = Some ''approved''" "sk_approvalTokenId task = Some tok"
    from in_hist [OF this(1)] task_approval_SApprove t show ?thesis by (intro disjI1) metis
  qed
qed

text \<open>
  C15. An authorization request that is newly stored for a tool call of the agent loop (no waiting request of the
  session for the same tool and command is reused in its place) lets exactly this call pass the
  pre-authorization of the session as soon as an administrator has approved its code without a path prefix, whatever
  happens in between, unless the policy of the run denies one of its paths.
\<close>

theorem approved_request_authorizes:
  assumes "gw_reach edsign sha fr st hist"
    and "submitRequest sha env (request_of rt (auth_request_of cfg name args reason preason risk)) st = (Some (code, True), st1)"
    and "gw_later edsign sha fr st1 st2" "approved_as ''tool_authorization'' code st2 \<noteq> None" "strip code = code"
    and "admin_approve sha env2 tok code who PNone st2 = (Inr token, st3)" "se_frepr env2 = fr"
    and "checkStaticPreauthorization policy name args = Some (ok, why)" "\<not> sublist (uni ''deniedPaths'') (reason_text why)"
    and "cf_sessionId cfg \<noteq> []"
  shows "\<exists>why'. isPreAuthorizedToolCall (listApprovedGrants fr st3) policy (cf_sessionId cfg) taskId source name args = Some (True, why')"
proof -
  have ok1: "requests_ok fr st1" using requests_ok_submit [OF gw_reach_requests [OF assms(1)], of sha env] assms(2) by (metis snd_conv)
  from gw_later_requests [OF this assms(3)] obtain new where ok2: "requests_ok fr st2"
    and keys: "map request_key (gw_requests st2) = map request_key (gw_requests st1) @ new" by auto
  obtain r1 where r1: "r1 \<in> set (gw_requests st1)" "ta_code r1 = code" "asks_for (cf_sessionId cfg) name args r1"
    using submit_asks_for [OF assms(2)] by auto
  have "request_key r1 \<in> set (map request_key (gw_requests st2))" using r1(1) keys by simp
  then obtain r where r: "findByCode code st2 = Some r" "request_key r = request_key r1"
    using findByCode_key [OF ok2, of code "snd (request_key r1)"] r1(2) by (auto simp: request_key_def)
  with r1(3) have ask: "asks_for (cf_sessionId cfg) name args r" using asks_for_key by metis
  from admin_approve_tool [OF _ assms(6)] assms(4,5) obtain el
    where t: "tool_approve env2 code who tok PNone (st2\<lparr>sc_elevation := el\<rparr>) = (Some True, st3)" by auto
  let ?st = "st2\<lparr>sc_elevation := el\<rparr>"
  have ok3: "requests_ok fr st3" using tool_approve_requests(1) [OF _ _ t, of fr] ok2 by simp
  from tool_approve_grants [OF _ assms(7) t _ ask assms(10)] ok2 r(1) obtain gs
    where gs: "listApprovedGrants fr st3 (Some (cf_sessionId cfg)) None None = Some gs" "grant_of r (PDict (buildGrant fr r)) \<in> set gs" by auto
  show ?thesis by (rule preauthorized_by_grant [OF ok3 gs asks_for_covered [OF ask] assms(8,9,10)])
qed

text \<open>
  The approval of an authorization request of a run of a scheduled task is written into the policy of
  the task such that the static check lets the same call pass in later runs, provided that the old
  policy does not deny its paths or privileged commands and a shell command has no control characters.
\<close>

theorem approved_request_persists:
  assumes "tool_approve env code who tok PNone st = (Some True, st')" "se_frepr env = fr"
    and r: "findByCode code st = Some r" "asks_for sid name args r" "name \<noteq> []" "resolveSource sid st = FromTask i"
    and task: "dao_getTask i None st = Some task" "sk_status task \<noteq> ''deleted''" "task_policy fr task = policy" "wf_json fr (PDict policy)"
    and "privileged_denial policy name args = Some None"
    and "command_tool name \<Longrightarrow> extractCommandLine args \<noteq> []"
    and "name = ''runShellCommand'' \<Longrightarrow> \<not> list_ex (\<lambda>c. c \<in> set SHELL_CONTROL) (extractCommandLine args)"
    and "nonempty_items policy ''deniedPaths'' = Some denied" "\<And>p. p \<in> set (call_paths args) \<Longrightarrow> \<not> list_ex (pathWithin p) denied"
    and "str_items policy ''allowedPaths'' \<noteq> None"
  shows "\<exists>task'. dao_getTask i None st' = Some task' \<and>
    checkStaticPreauthorization (task_policy fr task') name args = Some (True, PolicyMatch)"
proof -
  let ?g = "buildGrant fr r" and ?f = "\<lambda>m t. t\<lparr>sk_approvalPolicy := Some (dumps_db (PDict m))\<rparr>"
  have sid: "ta_sessionId r = sid" using r(2) by (simp add: asks_for_def Let_def)
  from assms(1,2) r(1,4) task obtain m where m: "mergeGrant policy ?g = Some m"
    and st': "st' = snd (updateStatus env code ''approved'' (Some who) None (Some tok) (Some ?g) (snd (dao_updateTask env i None (?f m) st)))"
    by (auto simp: tool_approve_def approved_grant_def grantToScheduledTask_def sid Let_def case_prod_unfold
        simp del: dumps.simps split: if_splits option.splits)
  have "dao_getTask i None st' = dao_getTask i None (snd (dao_updateTask env i None (?f m) st))"
    by (simp add: st' dao_getTask_def)
  also have "\<dots> = Some ((?f m task)\<lparr>sk_updatedAt := se_now env\<rparr>)"
    using task(1) by (subst getTask_updateTask) simp_all
  finally have g: "dao_getTask i None st' = Some ((?f m task)\<lparr>sk_updatedAt := se_now env\<rparr>)" .
  have "wf_json fr (PDict m)" using mergeGrant_items(7) [OF r(2,3) m task(4)] .
  then have "task_policy fr ((?f m task)\<lparr>sk_updatedAt := se_now env\<rparr>) = m"
    by (simp add: task_policy_def loadJson_def loads_dumps del: dumps.simps wf_json.simps)
  with merged_policy_authorizes [OF r(2,3) m assms(11-16)] g show ?thesis by auto
qed

text \<open>
  C31. When the approval of an authorization request fails because the request is not waiting any more, no
  token can be used afterwards that could not be used before: the token just issued is revoked.
\<close>

theorem failed_approval_adds_no_token:
  assumes "admin_approve sha env tok code who prfx st = (Inl err, st')" "err = CodeNotPending \<or> err = RequestMissing"
    and u: "usable_command now tid index sid (sc_elevation st') = Some u"
  shows "usable_command now tid index sid (sc_elevation st) = Some u"
proof -
  obtain entry el1 where g: "get_code (se_now env) (strip code) (sc_elevation st) = (entry, el1)" by fastforce
  obtain t el2 where a: "approve_code sha (se_now env) tok (strip code) who el1 = (t, el2)" by fastforce
  have el1: "es_tokens el1 = es_tokens (sc_elevation st)" using get_tokens [of "se_now env" "strip code" "sc_elevation st"] g by simp
  show ?thesis
  proof (cases t)
    case None
    then have "es_tokens el2 = es_tokens el1" using approve_cases [OF a] by simp
    moreover have "sc_elevation st' = el2"
      using assms(1,2) None by (auto simp: admin_approve_def Let_def g a tool_expire_def split: if_splits option.splits)
    ultimately show ?thesis using u usable_command_tokens el1 by metis
  next
    case (Some token)
    note e = approved_entry [OF g a [unfolded Some]]
    obtain r st2 where ta: "tool_approve env (strip code) who tok prfx (st\<lparr>sc_elevation := el2\<rparr>) = (r, st2)" by fastforce
    then have "sc_elevation st2 = el2" using elevation_tool_approve [OF ta] by simp
    with assms(1,2) Some e ta have "sc_elevation st' = snd (revoke_token tok el2)"
      by (auto simp: admin_approve_def Let_def g a split: if_splits option.splits bool.splits prod.splits)
    with revoked_unusable [of el2 tok token "sc_elevation st"] e u show ?thesis by (auto split: if_splits)
  qed
qed

section \<open>Witnesses\<close>

definition w_env :: sched_env where
  "w_env = \<lparr>se_now = 0, se_code = ''AB12-CD34'', se_cron = (\<lambda>_. True), se_next = (\<lambda>_. 60), se_frepr = id\<rparr>"

definition w_gw0 :: gateway where
  "w_gw0 = \<lparr>sc_tasks = [], sc_runs = [], sc_jobs = Some [], sc_elevation = elevation_init, gw_requests = [], gw_reports = [], gw_policyFile = None\<rparr>"

definition w_body :: ScheduledTaskCreate where
  "w_body = \<lparr>sb_name = ''backup'', sb_cronExpression = ''0 3 * * *'', sb_taskDescription = ''copy'',
     sb_approvalPolicy = Some \<lparr>ap_allowedTools = [''run''], ap_allowedCommands = [], ap_allowedPaths = [], ap_deniedPaths = [],
       ap_allowedPrivilegedCommands = [], ap_ttlSeconds = 3600, ap_maxRuns = 10\<rparr>\<rparr>"

definition w_hash :: "string \<Rightarrow> string" where
  "w_hash s = ''h''"

definition w_gw1 :: gateway where
  "w_gw1 = gw_step w_hash w_hash w_env (GTask (SCreate 7 w_body)) w_gw0"

definition w_gw2 :: gateway where
  "w_gw2 = gw_step w_hash w_hash w_env (GApprove ''tok'' ''AB12-CD34'' ''root'' PNone) w_gw1"

lemma w_gw2_reach:
  "gw_reach w_hash w_hash id w_gw2 [(w_gw0, GTask (SCreate 7 w_body)), (w_gw1, GApprove ''tok'' ''AB12-CD34'' ''root'' PNone)]"
proof -
  have "gw_reach w_hash w_hash id w_gw0 []" by (rule gw_init) (simp_all add: w_gw0_def)
  from gw_more [OF gw_more [OF this, of "GTask (SCreate 7 w_body)" w_env], of "GApprove ''tok'' ''AB12-CD34'' ''root'' PNone" w_env]
  show ?thesis by (simp add: w_gw1_def w_gw2_def w_env_def)
qed

lemma w_gw2_starts: "case fst (startRun w_env 1 w_gw2) of Inr (row, task) \<Rightarrow> sk_approvalPolicy task \<noteq> None | Inl e \<Rightarrow> False"
  by code_simp

theorem gateway_runs_are_approved_witness:
  "\<exists>row task st'. startRun w_env 1 w_gw2 = (Inr (row, task), st') \<and> sk_approvalPolicy task \<noteq> None \<and>
     ((\<exists>st0 tok code who prfx e. (st0, GApprove tok code who prfx) \<in> set [(w_gw0, GTask (SCreate 7 w_body)), (w_gw1, GApprove ''tok'' ''AB12-CD34'' ''root'' PNone)] \<and>
        approved_as ''scheduled_task_policy'' code st0 = Some e \<and> ce_task_id e = Some 1 \<and>
        sk_approvalStatus task = Some ''approved'' \<and> sk_approvalTokenId task = Some tok) \<or>
      (\<exists>st0 tok code who prfx e p. (st0, GApprove tok code who prfx) \<in> set [(w_gw0, GTask (SCreate 7 w_body)), (w_gw1, GApprove ''tok'' ''AB12-CD34'' ''root'' PNone)] \<and>
        approved_as ''tool_authorization'' code st0 = Some e \<and> write_back id prfx (strip code) st0 = Some (1, p)))"
proof -
  from w_gw2_starts obtain row task st' where s: "startRun w_env 1 w_gw2 = (Inr (row, task), st')" "sk_approvalPolicy task \<noteq> None"
    by (auto split: sum.splits prod.splits) (metis prod.collapse)
  from gateway_runs_are_approved [OF w_gw2_reach s] s show ?thesis by blast
qed

definition w_args :: pydict where
  "w_args = [(''path'', PStr ''/data/x'')]"

definition w_request :: tool_request where
  "w_request = request_of (\<lambda>_. []) (auth_request_of (demo_config 3) ''writeFile'' w_args AllWriteApproval (ToolNotAllowed ''writeFile'') RL_WRITE)"

lemma w_paths: "call_paths w_args = [''/data/x'']"
  by (simp add: w_args_def extractPathLikeValues_def path_start_def path_char_def is_space_def add_path_def rstrip_chars_def
      rdropWhile_def Let_def)

definition w_text :: utext where
  [code del]: "w_text = reason_text (ToolNotAllowed ''writeFile'')"

lemma w_request_eq [code]:
  "w_request = \<lparr>tq_sessionId = ''s1'', tq_toolName = ''writeFile'', tq_args = Some [(''path'', PStr ''/data/x'')], tq_paths = [''/data/x''],
     tq_commandLine = None, tq_reason = Some [], tq_policyReason = Some w_text,
     tq_riskLevel = Some ''write'', tq_sourceType = ''manual'', tq_taskId = None, tq_ttlSeconds = 25200, tq_maxRuns = 100\<rparr>"
  using w_paths
  by (simp add: w_text_def w_request_def request_of_def auth_request_of_def demo_config_def policy_int_def dget_or_def command_tool_def w_args_def
      py_str_def Let_def del: flattenArgumentValues.simps reason_text.simps)

definition w_gw3 :: gateway where
  "w_gw3 = snd (submitRequest w_hash w_env w_request w_gw0)"

lemma w_gw3_submit: "fst (submitRequest w_hash w_env w_request w_gw0) = Some (''AB12-CD34'', True)"
  by code_simp

lemma w_gw3_submits: "submitRequest w_hash w_env w_request w_gw0 = (Some (''AB12-CD34'', True), w_gw3)"
  using w_gw3_submit by (simp add: w_gw3_def prod_eq_iff)

lemma w_gw3_approve: "case admin_approve w_hash w_env ''tok'' ''AB12-CD34'' ''root'' PNone w_gw3 of (Inr t, st) \<Rightarrow> True | _ \<Rightarrow> False"
  by code_simp

lemma w_gw3_code: "approved_as ''tool_authorization'' ''AB12-CD34'' w_gw3 \<noteq> None" "strip ''AB12-CD34'' = ''AB12-CD34''"
  by code_simp+

lemma w_static: "checkStaticPreauthorization [] ''writeFile'' w_args = Some (False, ToolNotAllowed ''writeFile'')"
  by (simp add: checkStaticPreauthorization_def str_items_def dget_or_def)

lemma w_not_denied: "\<not> sublist (uni ''deniedPaths'') (reason_text (ToolNotAllowed ''writeFile''))"
proof
  assume "sublist (uni ''deniedPaths'') (reason_text (ToolNotAllowed ''writeFile''))"
  then have "set (uni ''deniedPaths'') \<subseteq> set (reason_text (ToolNotAllowed ''writeFile''))" by (rule set_mono_sublist)
  then show False by (simp add: uni_def)
qed

theorem approved_request_authorizes_witness:
  "\<exists>token st3 why'. admin_approve w_hash w_env ''tok'' ''AB12-CD34'' ''root'' PNone w_gw3 = (Inr token, st3) \<and>
     isPreAuthorizedToolCall (listApprovedGrants id st3) [] ''s1'' None ''scheduled'' ''writeFile'' w_args = Some (True, why')"
proof -
  from w_gw3_approve obtain token st3 where a: "admin_approve w_hash w_env ''tok'' ''AB12-CD34'' ''root'' PNone w_gw3 = (Inr token, st3)"
    by (auto split: prod.splits sum.splits)
  have r: "gw_reach w_hash w_hash id w_gw0 []" by (rule gw_init) (simp_all add: w_gw0_def)
  have l: "gw_later w_hash w_hash id w_gw3 w_gw3" by (rule later_now)
  from approved_request_authorizes [OF r w_gw3_submits [unfolded w_request_def] l w_gw3_code a _ w_static w_not_denied, of None "''scheduled''"] a
  show ?thesis by (auto simp: w_env_def demo_config_def)
qed

definition w_task :: ScheduledTaskOrm where
  "w_task = \<lparr>sk_id = 1, sk_name = ''t'', sk_cronExpression = ''0 3 * * *'', sk_taskDescription = ''d'', sk_status = ''active'', sk_createdBy = 7,
     sk_approvalPolicy = None, sk_approvalCode = None, sk_approvalStatus = None, sk_approvalApprovedAt = None, sk_approvalApprovedBy = None,
     sk_approvalTokenId = None, sk_approvalRejectedReason = None, sk_nextRunAt = None, sk_lastRunAt = None, sk_createdAt = 0, sk_updatedAt = 0\<rparr>"

definition w_gw4 :: gateway where
  "w_gw4 = w_gw3\<lparr>sc_tasks := [w_task], sc_runs := [\<lparr>sr_id = 1, sr_taskId = 1, sr_sessionId = Some ''s1'', sr_status = ''done'', sr_startedAt = 0,
     sr_finishedAt = Some 1, sr_resultSummary = None, sr_errorMessage = None, sr_tokenUsage = None\<rparr>]\<rparr>"

lemma w_gw4_facts:
  "fst (tool_approve w_env ''AB12-CD34'' ''root'' ''tok'' PNone w_gw4) = Some True"
  "map ta_code (gw_requests w_gw4) = [''AB12-CD34'']" "gw_requests w_gw4 = gw_requests w_gw3"
  "resolveSource ''s1'' w_gw4 = FromTask 1" "dao_getTask 1 None w_gw4 = Some w_task" "task_policy id w_task = []"
  by code_simp+

theorem approved_request_persists_witness:
  "\<exists>st' task'. tool_approve w_env ''AB12-CD34'' ''root'' ''tok'' PNone w_gw4 = (Some True, st') \<and> dao_getTask 1 None st' = Some task' \<and>
     checkStaticPreauthorization (task_policy id task') ''writeFile'' w_args = Some (True, PolicyMatch)"
proof -
  obtain st' where a: "tool_approve w_env ''AB12-CD34'' ''root'' ''tok'' PNone w_gw4 = (Some True, st')"
    using w_gw4_facts(1) by (metis prod.collapse)
  obtain r where r: "r \<in> set (gw_requests w_gw3)" "asks_for ''s1'' ''writeFile'' w_args r"
    using submit_asks_for [OF w_gw3_submits [unfolded w_request_def]] by (auto simp: demo_config_def)
  with w_gw4_facts(2,3) have f: "findByCode ''AB12-CD34'' w_gw4 = Some r" by (auto simp: findByCode_def)
  have "\<exists>task'. dao_getTask 1 None st' = Some task' \<and> checkStaticPreauthorization (task_policy id task') ''writeFile'' w_args = Some (True, PolicyMatch)"
    by (rule approved_request_persists [where denied = "[]", OF a _ f r(2) _ w_gw4_facts(4,5) _ w_gw4_facts(6)])
      (simp_all add: w_env_def w_task_def command_tool_def privileged_denial_def nonempty_items_def str_items_def dget_or_def
        list_ex_iff del: flattenArgumentValues.simps)
  with a show ?thesis by blast
qed

definition w_token :: JITToken where
  "w_token = \<lparr>jt_token_id = ''old'', jt_code = ''EF56-GH78'', jt_session_id = ''s0'', jt_allowed_commands = [(''nginx_reload'', ''h'')],
     jt_max_ops = 3, jt_ops_used = 1, jt_issued_at = 0, jt_ttl_seconds = 600, jt_inline_cmd = None, jt_inline_cmd_hash = None,
     jt_script_path = None, jt_script_hash = None\<rparr>"

definition w_gw5 :: gateway where
  "w_gw5 = (let st = snd (tool_reject w_env ''AB12-CD34'' ''no'' w_gw3) in
     st\<lparr>sc_elevation := (sc_elevation st)\<lparr>es_tokens := [(''old'', w_token)]\<rparr>\<rparr>)"

lemma w_gw5_fails: "case admin_approve w_hash w_env ''tok'' ''AB12-CD34'' ''root'' PNone w_gw5 of
    (Inl e, st) \<Rightarrow> e = RequestMissing \<and> usable_command 0 ''old'' 0 ''s0'' (sc_elevation st) = Some (w_token, ''nginx_reload'', ''h'') | _ \<Rightarrow> False"
  by code_simp

theorem failed_approval_adds_no_token_witness:
  "\<exists>st'. admin_approve w_hash w_env ''tok'' ''AB12-CD34'' ''root'' PNone w_gw5 = (Inl RequestMissing, st') \<and>
     usable_command 0 ''old'' 0 ''s0'' (sc_elevation st') = Some (w_token, ''nginx_reload'', ''h'') \<and>
     usable_command 0 ''old'' 0 ''s0'' (sc_elevation w_gw5) = Some (w_token, ''nginx_reload'', ''h'')"
proof -
  from w_gw5_fails obtain st' where a: "admin_approve w_hash w_env ''tok'' ''AB12-CD34'' ''root'' PNone w_gw5 = (Inl RequestMissing, st')"
    and u: "usable_command 0 ''old'' 0 ''s0'' (sc_elevation st') = Some (w_token, ''nginx_reload'', ''h'')"
    by (auto split: prod.splits sum.splits)
  from failed_approval_adds_no_token [OF a _ u] a u show ?thesis by simp
qed

end
