(* ===== verification/Auth.thy ===== *)
theory Auth
  imports Json Utf8
begin

text \<open>
  Users and their tokens: \<open>utils/JWTTokenTool.py\<close>, the tables of users and refresh tokens
  (\<open>gateway/dao/UserDaoOrm.py\<close>), \<open>gateway/service/UserService.py\<close>, the endpoints of
  \<open>gateway/controller/UserController.py\<close>, the interceptor in front of every endpoint
  (\<open>gateway/GlobalInterceptor.py\<close>) with its log, and the check of the administrator's token
  (\<open>gateway/controller/AdminController.py\<close>).

  The JWT library is the record \<open>jwt_lib\<close>.  A payload is what this module puts into it: the claim
  \<open>userId\<close>, or none.  The clock readings of one call are one value, seconds since 1970.
\<close>

section \<open>Tokens\<close>

datatype jwt_result = JwtPayload "int option" | JwtExpired | JwtInvalid

record jwt_lib =
  jwt_encode :: "string \<Rightarrow> int \<Rightarrow> timestamp \<Rightarrow> string"
  jwt_decode :: "string \<Rightarrow> timestamp \<Rightarrow> string \<Rightarrow> jwt_result"

datatype auth_error =
    UserNotFound | PasswordIncorrect | DataBaseError | InvalidToken | AccessTokenExpiry | RefreshTokenExpiry
  | TokenAuth | NoUserId | ValidationError

record TokenResponse =
  tn_accessToken :: string
  tn_refreshToken :: string

definition SECRET_KEY :: string where
  "SECRET_KEY = ''test_secret_key_change_to_real_key''"

definition getUserId :: "jwt_lib \<Rightarrow> timestamp \<Rightarrow> string \<Rightarrow> auth_error + int" where
  "getUserId jwt now accessToken =
     (case jwt_decode jwt SECRET_KEY now accessToken of
        JwtPayload (Some userId) \<Rightarrow> Inr userId
      | JwtPayload None \<Rightarrow> Inl NoUserId
      | JwtExpired \<Rightarrow> Inl AccessTokenExpiry
      | JwtInvalid \<Rightarrow> Inl InvalidToken)"

definition generateTokens :: "jwt_lib \<Rightarrow> timestamp \<Rightarrow> int \<Rightarrow> TokenResponse" where
  "generateTokens jwt now userId =
     \<lparr>tn_accessToken = jwt_encode jwt SECRET_KEY userId (now + 30 * 60),
      tn_refreshToken = jwt_encode jwt SECRET_KEY userId (now + 7 * 86400)\<rparr>"

definition refreshAccessToken :: "jwt_lib \<Rightarrow> timestamp \<Rightarrow> string \<Rightarrow> auth_error + (string \<times> int)" where
  "refreshAccessToken jwt now refresh_token =
     (case jwt_decode jwt SECRET_KEY now refresh_token of
        JwtPayload (Some userId) \<Rightarrow> Inr (jwt_encode jwt SECRET_KEY userId (now + 15 * 60), userId)
      | JwtPayload None \<Rightarrow> Inl NoUserId
      | JwtExpired \<Rightarrow> Inl RefreshTokenExpiry
      | JwtInvalid \<Rightarrow> Inl InvalidToken)"

section \<open>Tables\<close>

record UserOrm =
  us_userId :: int
  us_username :: string
  us_email :: string
  us_hashedPassword :: string
  us_role :: string
  us_status :: bool
  us_loginFailedCount :: int
  us_lockUntil :: "timestamp option"

record TokenOrm =
  tk_tokenId :: int
  tk_userId :: int
  tk_refreshToken :: string
  tk_expireIn :: timestamp
  tk_createdAt :: timestamp
  tk_updatedAt :: timestamp
  tk_status :: int

record Log =
  lg_functionName :: string
  lg_inputParams :: "pyval option"
  lg_returnValue :: "pyval option"
  lg_userId :: int
  lg_ipAddress :: string
  lg_operationTime :: timestamp
  lg_executionTime :: rat
  lg_errorMessage :: "pyval option"
  lg_requestPath :: string
  lg_httpMethod :: string

record auth =
  au_users :: "UserOrm list"
  au_tokens :: "TokenOrm list"
  au_logs :: "Log list"

text \<open>\<open>Query.one_or_none\<close>; \<open>None\<close> for the exception \<open>MultipleResultsFound\<close>.\<close>

fun one_or_none :: "'a list \<Rightarrow> 'a option option" where
  "one_or_none [] = Some None"
| "one_or_none [x] = Some (Some x)"
| "one_or_none (x # y # zs) = None"

definition getUserByAccount :: "string \<Rightarrow> auth \<Rightarrow> UserOrm option option" where
  "getUserByAccount account st = one_or_none (filter (\<lambda>u. us_username u = account \<or> us_email u = account) (au_users st))"

definition getUserByUid :: "int \<Rightarrow> auth \<Rightarrow> UserOrm option option" where
  "getUserByUid userId st = one_or_none (filter (\<lambda>u. us_userId u = userId) (au_users st))"

definition getUserByRefreshToken :: "string \<Rightarrow> auth \<Rightarrow> UserOrm option option" where
  "getUserByRefreshToken refresh_token st =
     (case one_or_none (filter (\<lambda>t. tk_refreshToken t = refresh_token \<and> tk_status t = 1) (au_tokens st)) of
        None \<Rightarrow> None
      | Some None \<Rightarrow> Some None
      | Some (Some token) \<Rightarrow> getUserByUid (tk_userId token) st)"

definition insertTokens :: "timestamp \<Rightarrow> int \<Rightarrow> string \<Rightarrow> timestamp \<Rightarrow> int \<Rightarrow> auth \<Rightarrow> auth" where
  "insertTokens now userId refresh_token expireIn status st =
     st\<lparr>au_tokens := au_tokens st @
       [\<lparr>tk_tokenId = int (length (au_tokens st)) + 1, tk_userId = userId, tk_refreshToken = refresh_token,
         tk_expireIn = expireIn, tk_createdAt = now, tk_updatedAt = now, tk_status = status\<rparr>]\<rparr>"

definition set_token_status :: "timestamp \<Rightarrow> int \<Rightarrow> string \<Rightarrow> auth \<Rightarrow> nat \<times> auth" where
  "set_token_status now status refresh_token st =
     (length (filter (\<lambda>t. tk_refreshToken t = refresh_token) (au_tokens st)),
      st\<lparr>au_tokens := map (\<lambda>t. if tk_refreshToken t = refresh_token then t\<lparr>tk_status := status, tk_updatedAt := now\<rparr> else t)
                        (au_tokens st)\<rparr>)"

definition deleteTokensByRefreshToken :: "timestamp \<Rightarrow> string \<Rightarrow> auth \<Rightarrow> nat \<times> auth" where
  "deleteTokensByRefreshToken now refresh_token st = set_token_status now 3 refresh_token st"

definition deactivateTokensByRefreshToken :: "timestamp \<Rightarrow> string \<Rightarrow> auth \<Rightarrow> nat \<times> auth" where
  "deactivateTokensByRefreshToken now refresh_token st = set_token_status now 2 refresh_token st"

definition insertLog :: "Log \<Rightarrow> auth \<Rightarrow> auth" where
  "insertLog log_row st = st\<lparr>au_logs := au_logs st @ [log_row]\<rparr>"

section \<open>The service\<close>

record UserLoginRequest =
  lr_account :: string
  lr_hashedPassword :: string

definition login :: "jwt_lib \<Rightarrow> timestamp \<Rightarrow> UserLoginRequest \<Rightarrow> auth \<Rightarrow> (auth_error + TokenResponse) \<times> auth" where
  "login jwt now form st =
     (case getUserByAccount (lr_account form) st of
        None \<Rightarrow> (Inl DataBaseError, st)
      | Some None \<Rightarrow> (Inl UserNotFound, st)
      | Some (Some user) \<Rightarrow>
          if us_hashedPassword user \<noteq> lr_hashedPassword form then (Inl PasswordIncorrect, st)
          else (let token = generateTokens jwt now (us_userId user)
                in (Inr token, insertTokens now (us_userId user) (tn_refreshToken token) (now + 7 * 86400) 1 st)))"

definition logout :: "timestamp \<Rightarrow> string \<Rightarrow> auth \<Rightarrow> (auth_error + unit) \<times> auth" where
  "logout now refresh_token st =
     (if refresh_token = [] then (Inl TokenAuth, st)
      else (let (countRow, st) = deleteTokensByRefreshToken now refresh_token st
            in (if countRow = 0 then Inl InvalidToken else Inr (), st)))"

definition refreshToken :: "jwt_lib \<Rightarrow> timestamp \<Rightarrow> string \<Rightarrow> auth \<Rightarrow> (auth_error + TokenResponse) \<times> auth" where
  "refreshToken jwt now refresh_token st =
     (case getUserByRefreshToken refresh_token st of
        None \<Rightarrow> (Inl DataBaseError, st)
      | Some None \<Rightarrow> (Inl InvalidToken, st)
      | Some (Some user) \<Rightarrow>
          (case refreshAccessToken jwt now refresh_token of
             Inr (newAccessToken, userId) \<Rightarrow> (Inr \<lparr>tn_accessToken = newAccessToken, tn_refreshToken = refresh_token\<rparr>, st)
           | Inl RefreshTokenExpiry \<Rightarrow>
               (let (countRow, st) = deactivateTokensByRefreshToken now refresh_token st
                in (Inl (if countRow = 0 then InvalidToken else RefreshTokenExpiry), st))
           | Inl e \<Rightarrow> (Inl e, st)))"

section \<open>The endpoints\<close>

text \<open>A cookie of a response; \<open>Some 0\<close> seconds deletes it.\<close>

record set_cookie =
  sc_key :: string
  sc_value :: string
  sc_max_age :: "int option"

definition token_cookies :: "TokenResponse \<Rightarrow> int option \<Rightarrow> set_cookie list" where
  "token_cookies tokens refresh_age =
     [\<lparr>sc_key = ''accessToken'', sc_value = tn_accessToken tokens, sc_max_age = Some 300\<rparr>,
      \<lparr>sc_key = ''refreshToken'', sc_value = tn_refreshToken tokens, sc_max_age = refresh_age\<rparr>]"

definition user_login ::
  "jwt_lib \<Rightarrow> timestamp \<Rightarrow> UserLoginRequest \<Rightarrow> auth \<Rightarrow> (auth_error + TokenResponse \<times> set_cookie list) \<times> auth" where
  "user_login jwt now form st =
     apfst (map_sum id (\<lambda>tokens. (tokens, token_cookies tokens (Some (7 * 24 * 60 * 60))))) (login jwt now form st)"

definition user_logout :: "timestamp \<Rightarrow> string option \<Rightarrow> auth \<Rightarrow> (auth_error + set_cookie list) \<times> auth" where
  "user_logout now cookie st =
     (case cookie of
        None \<Rightarrow> (Inl ValidationError, st)
      | Some refresh_token \<Rightarrow>
          apfst (map_sum id (\<lambda>_. map (\<lambda>k. \<lparr>sc_key = k, sc_value = [], sc_max_age = Some 0\<rparr>) [''accessToken'', ''refreshToken'']))
            (logout now refresh_token st))"

definition user_refresh ::
  "jwt_lib \<Rightarrow> timestamp \<Rightarrow> string option \<Rightarrow> auth \<Rightarrow> (auth_error + TokenResponse \<times> set_cookie list) \<times> auth" where
  "user_refresh jwt now cookie st =
     (case cookie of
        None \<Rightarrow> (Inl ValidationError, st)
      | Some refresh_token \<Rightarrow>
          apfst (map_sum id (\<lambda>tokens. (tokens, token_cookies tokens None))) (refreshToken jwt now refresh_token st))"

section \<open>The interceptor\<close>

record http_request =
  hr_path :: string
  hr_method :: string
  hr_cookies :: "(string \<times> string) list"
  hr_authorization :: "string option"
  hr_client :: "string option"
  hr_body :: string

text \<open>
  What \<open>call_next\<close> gives: the response, and the name of the endpoint if its decorator asks for a log.
\<close>

record http_response =
  hp_status :: int
  hp_body :: string
  hp_logged :: "string option"

definition excludePaths :: "string list" where
  "excludePaths = [''/user/login'', ''/docs'', ''/user/refresh'', ''/admin/elevation'']"

definition websocketPaths :: "string list" where
  "websocketPaths = [''/terminal/ws'', ''/terminal/admin/ws'', ''/agent/ws'']"

definition ssePath :: "string list" where
  "ssePath = [''/system/health'']"

definition is_excluded :: "string \<Rightarrow> bool" where
  "is_excluded path = list_ex (\<lambda>excluded. path = excluded \<or> startswith path (excluded @ ''/'')) excludePaths"

text \<open>The user of a request, as the endpoints and the web sockets find it.\<close>

definition getRequestUserId :: "jwt_lib \<Rightarrow> timestamp \<Rightarrow> (string \<times> string) list \<Rightarrow> auth_error + int" where
  "getRequestUserId jwt now cookies =
     (case map_of cookies ''accessToken'' of
        None \<Rightarrow> Inl TokenAuth
      | Some accessToken \<Rightarrow>
          if accessToken = [] then Inl TokenAuth
          else (case getUserId jwt now accessToken of
                  Inl e \<Rightarrow> Inl e
                | Inr userId \<Rightarrow> if userId = 0 then Inl TokenAuth else Inr userId))"

definition getWsUser :: "jwt_lib \<Rightarrow> timestamp \<Rightarrow> (string \<times> string) list \<Rightarrow> auth \<Rightarrow> auth_error + UserOrm" where
  "getWsUser jwt now cookies st =
     (case getRequestUserId jwt now cookies of
        Inl e \<Rightarrow> Inl e
      | Inr userId \<Rightarrow>
          (case getUserByUid userId st of
             None \<Rightarrow> Inl DataBaseError
           | Some None \<Rightarrow> Inl TokenAuth
           | Some (Some user) \<Rightarrow> Inr user))"

datatype dispatched = Denied auth_error | Reply http_response

definition log_of :: "(string \<Rightarrow> string) \<Rightarrow> timestamp \<Rightarrow> rat \<Rightarrow> string \<Rightarrow> int \<Rightarrow> http_request \<Rightarrow> http_response \<Rightarrow> Log" where
  "log_of frepr now duration name userId req resp =
     (let parse = (\<lambda>bytes. Option.bind (utf8_decode bytes) (loads frepr));
          present = (\<lambda>v. if v = Some PNone then None else v);
          data = present (parse (hp_body resp))
      in \<lparr>lg_functionName = strip name, lg_inputParams = present (parse (hr_body req)), lg_returnValue = data,
          lg_userId = userId, lg_ipAddress = strip (case hr_client req of None \<Rightarrow> ''unknown'' | Some h \<Rightarrow> if h = [] then ''unknown'' else h),
          lg_operationTime = now, lg_executionTime = duration,
          lg_errorMessage =
            (case data of
               Some (PDict d) \<Rightarrow> if map_of d ''code'' = Some (PStr ''1'') then present (map_of d ''msg'') else None
             | _ \<Rightarrow> None),
          lg_requestPath = strip (hr_path req), lg_httpMethod = strip (hr_method req)\<rparr>)"

definition dispatch ::
  "jwt_lib \<Rightarrow> (string \<Rightarrow> string) \<Rightarrow> timestamp \<Rightarrow> rat \<Rightarrow> (http_request \<Rightarrow> auth \<Rightarrow> http_response \<times> auth) \<Rightarrow> http_request \<Rightarrow> auth \<Rightarrow>
   dispatched \<times> auth" where
  "dispatch jwt frepr now duration call_next req st =
     (if hr_path req \<in> set websocketPaths then apfst Reply (call_next req st)
      else case (if is_excluded (hr_path req) then Inr 0 else map_sum id us_userId (getWsUser jwt now (hr_cookies req) st)) of
        Inl e \<Rightarrow> (Denied e, st)
      | Inr userId \<Rightarrow>
          (let (resp, st) = call_next req st in
           if startswith (hr_path req) ''/process/sse/'' \<or> hr_path req \<in> set ssePath then (Reply resp, st)
           else case hp_logged resp of
             None \<Rightarrow> (Reply resp, st)
           | Some name \<Rightarrow> (Reply resp, insertLog (log_of frepr now duration name userId req resp) st)))"

section \<open>The token of the administrator\<close>

datatype admin_denial = NotLocal | NoBearer | EmptyToken | TokenFileMissing | TokenMismatch

definition verify_admin_token :: "string option \<Rightarrow> http_request \<Rightarrow> admin_denial option" where
  "verify_admin_token token_file req =
     (let host = (case hr_client req of None \<Rightarrow> [] | Some h \<Rightarrow> h);
          auth = (case hr_authorization req of None \<Rightarrow> [] | Some a \<Rightarrow> a);
          token = strip (drop (length ''Bearer '') auth)
      in if host \<notin> set [''127.0.0.1'', ''::1'', ''localhost''] then Some NotLocal
         else if \<not> startswith auth ''Bearer '' then Some NoBearer
         else if token = [] then Some EmptyToken
         else case token_file of
           None \<Rightarrow> Some TokenFileMissing
         | Some text \<Rightarrow> if token \<noteq> strip text then Some TokenMismatch else None)"

section \<open>The state machine\<close>

text \<open>
  The operations on users and tokens in any order; the table of users is kept by other means and may
  change at any time.  The history holds the clock, the state an operation met, the operation and the
  tokens it gave out.
\<close>

datatype auth_op =
    ALogin UserLoginRequest
  | ALogout "string option"
  | ARefresh "string option"
  | AUsers "UserOrm list"

definition given :: "auth_error + TokenResponse \<times> set_cookie list \<Rightarrow> TokenResponse option" where
  "given r = (case r of Inl e \<Rightarrow> None | Inr (tokens, cookies) \<Rightarrow> Some tokens)"

fun auth_step :: "jwt_lib \<Rightarrow> timestamp \<Rightarrow> auth_op \<Rightarrow> auth \<Rightarrow> TokenResponse option \<times> auth" where
  "auth_step jwt now (ALogin form) st = apfst given (user_login jwt now form st)"
| "auth_step jwt now (ALogout cookie) st = (None, snd (user_logout now cookie st))"
| "auth_step jwt now (ARefresh cookie) st = apfst given (user_refresh jwt now cookie st)"
| "auth_step jwt now (AUsers users) st = (None, st\<lparr>au_users := users\<rparr>)"

type_synonym auth_event = "timestamp \<times> auth \<times> auth_op \<times> TokenResponse option"

inductive auth_reach :: "jwt_lib \<Rightarrow> auth \<Rightarrow> auth_event list \<Rightarrow> auth \<Rightarrow> bool" for jwt st0 where
  auth_start: "auth_reach jwt st0 [] st0"
| auth_next: "auth_reach jwt st0 hist st \<Longrightarrow> auth_step jwt now op st = (out, st') \<Longrightarrow>
    auth_reach jwt st0 (hist @ [(now, st, op, out)]) st'"

text \<open>The tokens given out in a history.\<close>

definition issued_tokens :: "auth_event list \<Rightarrow> string set" where
  "issued_tokens hist = {t. \<exists>now st op tokens. (now, st, op, Some tokens) \<in> set hist \<and> t \<in> {tn_accessToken tokens, tn_refreshToken tokens}}"

text \<open>
  PyJWT: a token made with the key is read back until the second of its expiry, which \<open>encode\<close> stores
  as a whole number.
\<close>

definition jwt_reads_back :: "jwt_lib \<Rightarrow> bool" where
  "jwt_reads_back jwt \<longleftrightarrow> (\<forall>userId expiry now.
     jwt_decode jwt SECRET_KEY now (jwt_encode jwt SECRET_KEY userId expiry) =
       (if now < of_int \<lfloor>expiry\<rfloor> then JwtPayload (Some userId) else JwtExpired))"

text \<open>A login at time \<open>t0\<close> with the password of the user \<open>uid\<close>.\<close>

definition logged_in :: "auth_event list \<Rightarrow> int \<Rightarrow> timestamp \<Rightarrow> bool" where
  "logged_in hist uid t0 \<longleftrightarrow> (\<exists>st form out u. (t0, st, ALogin form, Some out) \<in> set hist \<and>
     getUserByAccount (lr_account form) st = Some (Some u) \<and> us_hashedPassword u = lr_hashedPassword form \<and> us_userId u = uid)"

section \<open>Lemmas\<close>

lemma one_or_none_Some: "one_or_none xs = Some (Some x) \<Longrightarrow> x \<in> set xs"
  by (cases xs rule: one_or_none.cases) auto

lemma decode_encode:
  assumes "jwt_reads_back jwt" "jwt_decode jwt SECRET_KEY now (jwt_encode jwt SECRET_KEY uid expiry) = JwtPayload p"
  shows "p = Some uid \<and> now < expiry"
proof -
  have "jwt_decode jwt SECRET_KEY now (jwt_encode jwt SECRET_KEY uid expiry) =
      (if now < of_int \<lfloor>expiry\<rfloor> then JwtPayload (Some uid) else JwtExpired)"
    using assms(1) unfolding jwt_reads_back_def by blast
  with assms(2) have "now < of_int \<lfloor>expiry\<rfloor>" "p = Some uid" by (auto split: if_splits)
  then show ?thesis using less_le_trans [OF _ of_int_floor_le] by auto
qed

lemma logged_in_mono: "logged_in hist uid t0 \<Longrightarrow> logged_in (hist @ hist') uid t0"
  unfolding logged_in_def by (auto; blast)

text \<open>Every token given out, and every row of the table, carries the user of a login and an expiry it allows.\<close>

definition from_login :: "jwt_lib \<Rightarrow> auth_event list \<Rightarrow> timestamp \<Rightarrow> string \<Rightarrow> bool" where
  "from_login jwt hist slack t \<longleftrightarrow>
     (\<exists>uid t0 expiry. logged_in hist uid t0 \<and> t = jwt_encode jwt SECRET_KEY uid expiry \<and> expiry \<le> t0 + 7 * 86400 + slack)"

definition tokens_ok :: "jwt_lib \<Rightarrow> auth_event list \<Rightarrow> auth \<Rightarrow> bool" where
  "tokens_ok jwt hist st \<longleftrightarrow>
     (\<forall>t\<in>set (au_tokens st). from_login jwt hist 0 (tk_refreshToken t)) \<and>
     (\<forall>t\<in>issued_tokens hist. from_login jwt hist 900 t)"

lemma from_login_mono: "from_login jwt hist d t \<Longrightarrow> from_login jwt (hist @ hist') d t"
  unfolding from_login_def using logged_in_mono by fastforce

lemma from_login_slack: "from_login jwt hist 0 t \<Longrightarrow> 0 \<le> d \<Longrightarrow> from_login jwt hist d t"
  unfolding from_login_def by fastforce

lemma issued_snoc:
  "issued_tokens (hist @ [(now, st, op, out)]) =
   issued_tokens hist \<union> (case out of None \<Rightarrow> {} | Some tokens \<Rightarrow> {tn_accessToken tokens, tn_refreshToken tokens})"
  by (auto simp: issued_tokens_def split: option.splits)

lemma set_token_status_tokens:
  "t \<in> set (au_tokens (snd (set_token_status now s rt st))) \<Longrightarrow>
   \<exists>t'\<in>set (au_tokens st). tk_refreshToken t = tk_refreshToken t' \<and> (tk_refreshToken t = rt \<longrightarrow> tk_status t = s) \<and>
     (tk_refreshToken t \<noteq> rt \<longrightarrow> t = t')"
  by (auto simp: set_token_status_def)

lemma login_cases:
  assumes "login jwt now form st = (r, st')"
  shows "(\<exists>e. r = Inl e \<and> st' = st) \<or>
    (\<exists>u. getUserByAccount (lr_account form) st = Some (Some u) \<and> us_hashedPassword u = lr_hashedPassword form \<and>
       r = Inr (generateTokens jwt now (us_userId u)) \<and>
       st' = insertTokens now (us_userId u) (tn_refreshToken (generateTokens jwt now (us_userId u))) (now + 7 * 86400) 1 st)"
  using assms by (auto simp: login_def Let_def split: option.splits if_splits)

lemma refresh_cases:
  assumes "refreshToken jwt now rt st = (r, st')"
  shows "(\<exists>e. r = Inl e \<and> (st' = st \<or> st' = snd (set_token_status now 2 rt st))) \<or>
    (\<exists>t uid. t \<in> set (au_tokens st) \<and> tk_refreshToken t = rt \<and> tk_status t = 1 \<and>
       jwt_decode jwt SECRET_KEY now rt = JwtPayload (Some uid) \<and>
       r = Inr \<lparr>tn_accessToken = jwt_encode jwt SECRET_KEY uid (now + 15 * 60), tn_refreshToken = rt\<rparr> \<and> st' = st)"
proof (cases "getUserByRefreshToken rt st")
  case (Some o')
  show ?thesis
  proof (cases o')
    case (Some u)
    with \<open>getUserByRefreshToken rt st = Some o'\<close> obtain t where "t \<in> set (au_tokens st)" "tk_refreshToken t = rt" "tk_status t = 1"
      by (auto simp: getUserByRefreshToken_def split: option.splits dest!: one_or_none_Some)
    with Some \<open>getUserByRefreshToken rt st = Some o'\<close> assms show ?thesis
      by (auto simp: refreshToken_def refreshAccessToken_def deactivateTokensByRefreshToken_def Let_def case_prod_unfold
          split: jwt_result.splits option.splits)
  qed (use Some assms in \<open>auto simp: refreshToken_def\<close>)
qed (use assms in \<open>auto simp: refreshToken_def\<close>)

lemma given_map_sum: "given (map_sum id (\<lambda>t. (t, f t)) r) = (case r of Inl e \<Rightarrow> None | Inr t \<Rightarrow> Some t)"
  by (cases r) (simp_all add: given_def)

lemma snd_logout: "snd (user_logout now cookie st) = st \<or> (\<exists>rt. snd (user_logout now cookie st) = snd (set_token_status now 3 rt st))"
  by (auto simp: user_logout_def logout_def deleteTokensByRefreshToken_def Let_def case_prod_unfold split: option.splits)

text \<open>What a step can do: keep the rows, close some of them, add one by a login, or give out a refreshed token.\<close>

lemma auth_step_cases:
  assumes "auth_step jwt now op st = (out, st')"
  shows "(out = None \<and> (au_tokens st' = au_tokens st \<or> (\<exists>s rt. s \<noteq> 1 \<and> au_tokens st' = au_tokens (snd (set_token_status now s rt st))))) \<or>
    (\<exists>form u. op = ALogin form \<and> getUserByAccount (lr_account form) st = Some (Some u) \<and>
       us_hashedPassword u = lr_hashedPassword form \<and> out = Some (generateTokens jwt now (us_userId u)) \<and>
       st' = insertTokens now (us_userId u) (tn_refreshToken (generateTokens jwt now (us_userId u))) (now + 7 * 86400) 1 st) \<or>
    (\<exists>t uid. op = ARefresh (Some (tk_refreshToken t)) \<and> t \<in> set (au_tokens st) \<and> tk_status t = 1 \<and>
       jwt_decode jwt SECRET_KEY now (tk_refreshToken t) = JwtPayload (Some uid) \<and>
       out = Some \<lparr>tn_accessToken = jwt_encode jwt SECRET_KEY uid (now + 15 * 60), tn_refreshToken = tk_refreshToken t\<rparr> \<and> st' = st)"
proof (cases op)
  case (ALogin form)
  obtain r s where l: "login jwt now form st = (r, s)" by fastforce
  with assms ALogin have "out = (case r of Inl e \<Rightarrow> None | Inr t \<Rightarrow> Some t)" "st' = s"
    by (auto simp: user_login_def given_map_sum)
  with login_cases [OF l] ALogin show ?thesis by auto
next
  case (ALogout cookie)
  with assms have o: "out = None" "st' = snd (user_logout now cookie st)" by auto
  have "(3::int) \<noteq> 1" by simp
  with snd_logout [of now cookie st] o show ?thesis by metis
next
  case (ARefresh cookie)
  show ?thesis
  proof (cases cookie)
    case None
    with ARefresh assms show ?thesis by (auto simp: user_refresh_def given_def)
  next
    case (Some rt)
    obtain r s where l: "refreshToken jwt now rt st = (r, s)" by fastforce
    with assms ARefresh Some have o: "out = (case r of Inl e \<Rightarrow> None | Inr t \<Rightarrow> Some t)" "st' = s"
      by (auto simp: user_refresh_def given_map_sum)
    note refresh_cases [OF l]
    then show ?thesis
    proof (elim disjE exE conjE)
      fix e assume "r = Inl e" "s = snd (set_token_status now 2 rt st)"
      with o have "out = None \<and> (\<exists>s rt. s \<noteq> 1 \<and> au_tokens st' = au_tokens (snd (set_token_status now s rt st)))"
        by (auto intro!: exI [of _ "2 :: int"] exI [of _ rt])
      then show ?thesis by blast
    qed (use o ARefresh Some in auto)
  qed
qed (use assms in auto)

lemma from_login_step:
  assumes ok: "tokens_ok jwt hist st" and jwt: "jwt_reads_back jwt" and s: "auth_step jwt now op st = (out, st')"
  shows "tokens_ok jwt (hist @ [(now, st, op, out)]) st'"
  using auth_step_cases [OF s]
proof (elim disjE exE conjE)
  assume a: "out = None" "au_tokens st' = au_tokens st"
  with ok show ?thesis by (auto simp: tokens_ok_def issued_snoc intro: from_login_mono)
next
  fix sts rt assume a: "out = None" "au_tokens st' = au_tokens (snd (set_token_status now sts rt st))"
  with ok show ?thesis
    by (auto simp: tokens_ok_def issued_snoc intro: from_login_mono dest!: set_token_status_tokens)
next
  fix form u
  assume a: "op = ALogin form" "getUserByAccount (lr_account form) st = Some (Some u)"
    "us_hashedPassword u = lr_hashedPassword form" "out = Some (generateTokens jwt now (us_userId u))"
    and st': "st' = insertTokens now (us_userId u) (tn_refreshToken (generateTokens jwt now (us_userId u))) (now + 7 * 86400) 1 st"
  let ?h = "hist @ [(now, st, op, out)]"
  have "logged_in ?h (us_userId u) now" using a unfolding logged_in_def by auto
  then have "from_login jwt ?h d (jwt_encode jwt SECRET_KEY (us_userId u) e)" if "e \<le> now + 7 * 86400 + d" for d e
    using that unfolding from_login_def by blast
  note new = this
  from new [of "now + 7 * 86400" 0] new [of "now + 7 * 86400" 900] new [of "now + 30 * 60" 900] ok show ?thesis
    by (auto simp: tokens_ok_def issued_snoc a(4) st' insertTokens_def generateTokens_def intro: from_login_mono)
next
  fix t uid
  assume a: "t \<in> set (au_tokens st)" "jwt_decode jwt SECRET_KEY now (tk_refreshToken t) = JwtPayload (Some uid)"
    "out = Some \<lparr>tn_accessToken = jwt_encode jwt SECRET_KEY uid (now + 15 * 60), tn_refreshToken = tk_refreshToken t\<rparr>" "st' = st"
  let ?h = "hist @ [(now, st, op, out)]"
  from ok a(1) obtain uid' t0 expiry where l: "logged_in hist uid' t0" "tk_refreshToken t = jwt_encode jwt SECRET_KEY uid' expiry"
    "expiry \<le> t0 + 7 * 86400 + 0" unfolding tokens_ok_def from_login_def by blast
  from decode_encode [OF jwt, of now uid' expiry] a(2) l(2) have "uid = uid'" "now < expiry" by auto
  with l have "from_login jwt ?h 900 (jwt_encode jwt SECRET_KEY uid (now + 15 * 60))"
    unfolding from_login_def by (intro exI [of _ uid] exI [of _ t0] exI [of _ "now + 15 * 60"]) (auto intro: logged_in_mono)
  moreover have "from_login jwt hist 900 (tk_refreshToken t)"
    using ok a(1) by (auto simp: tokens_ok_def intro: from_login_slack)
  ultimately show ?thesis using ok a by (auto simp: tokens_ok_def issued_snoc intro: from_login_mono)
qed

lemma auth_reach_tokens:
  assumes "auth_reach jwt st0 hist st" "jwt_reads_back jwt" "au_tokens st0 = []"
  shows "tokens_ok jwt hist st"
  using assms
proof (induction rule: auth_reach.induct)
  case auth_start
  then show ?case by (simp add: tokens_ok_def issued_tokens_def)
next
  case (auth_next hist st now op out st')
  then show ?case by (blast intro: from_login_step)
qed

lemma getWsUser_cases:
  assumes "getWsUser jwt now cookies st = Inr u"
  obtains t where "map_of cookies ''accessToken'' = Some t" "jwt_decode jwt SECRET_KEY now t = JwtPayload (Some (us_userId u))"
    "getRequestUserId jwt now cookies = Inr (us_userId u)" "u \<in> set (au_users st)"
  using assms
  by (auto simp: getWsUser_def getRequestUserId_def getUserId_def getUserByUid_def
      split: sum.splits option.splits if_splits jwt_result.splits dest!: one_or_none_Some)

lemma dispatch_guarded:
  assumes "dispatch jwt frepr now duration call_next req st = (Reply resp, st')"
    "\<not> is_excluded (hr_path req)" "hr_path req \<notin> set websocketPaths"
  obtains u where "getWsUser jwt now (hr_cookies req) st = Inr u"
  using assms by (cases "getWsUser jwt now (hr_cookies req) st") (auto simp: dispatch_def)

lemma closed_tokens:
  assumes "auth_reach jwt st1 hist st2" "\<forall>t\<in>set (au_tokens st1). tk_refreshToken t = rt \<longrightarrow> tk_status t \<noteq> 1"
  shows "(\<forall>t\<in>set (au_tokens st2). tk_refreshToken t = rt \<longrightarrow> tk_status t \<noteq> 1) \<or>
    (\<exists>now st form tokens. (now, st, ALogin form, Some tokens) \<in> set hist \<and> tn_refreshToken tokens = rt)"
  using assms
proof (induction rule: auth_reach.induct)
  case (auth_next hist st now op out st')
  let ?closed = "\<lambda>st. \<forall>t\<in>set (au_tokens st). tk_refreshToken t = rt \<longrightarrow> tk_status t \<noteq> 1"
  have login_before: ?case if "\<not> ?closed st" using that auth_next.IH auth_next.prems by auto blast
  show ?case
  proof (cases "?closed st")
    case True
    from auth_step_cases [OF auth_next.hyps(2)] show ?thesis
    proof (elim disjE exE conjE)
      fix s rt' assume "s \<noteq> 1" "au_tokens st' = au_tokens (snd (set_token_status now s rt' st))"
      with True have "?closed st'" using set_token_status_tokens by metis
      then show ?thesis by blast
    next
      fix form u assume "op = ALogin form" "out = Some (generateTokens jwt now (us_userId u))"
        "st' = insertTokens now (us_userId u) (tn_refreshToken (generateTokens jwt now (us_userId u))) (now + 7 * 86400) 1 st"
      then show ?thesis using True
        by (cases "tn_refreshToken (generateTokens jwt now (us_userId u)) = rt") (auto simp: insertTokens_def)
    qed (use True in simp_all)
  qed (rule login_before)
qed simp

lemma set_token_status_closed:
  "\<forall>t\<in>set (au_tokens (snd (set_token_status now 3 rt st))). tk_refreshToken t = rt \<longrightarrow> tk_status t \<noteq> 1"
  using set_token_status_tokens [of _ now 3 rt st] by fastforce

section \<open>Properties\<close>

text \<open>
  C16. A request reaches an endpoint behind the interceptor only in the name of a user whose password
  was given at a login.  If nobody but the panel makes tokens with its key, then for every reply to a
  path that is neither excluded nor a web socket there is a login with the password of a user, less
  than seven days and fifteen minutes ago, this user still exists, and it is the one the endpoints
  find in the cookie.
\<close>

theorem authenticated_requests:
  assumes "auth_reach jwt st0 hist st" "jwt_reads_back jwt" "au_tokens st0 = []"
    and unforged: "\<And>t p. map_of (hr_cookies req) ''accessToken'' = Some t \<Longrightarrow> jwt_decode jwt SECRET_KEY now t = JwtPayload p \<Longrightarrow>
      t \<in> issued_tokens hist"
    and reply: "dispatch jwt frepr now duration call_next req st = (Reply resp, st')"
    and path: "\<not> is_excluded (hr_path req)" "hr_path req \<notin> set websocketPaths"
  shows "\<exists>user t0. getRequestUserId jwt now (hr_cookies req) = Inr (us_userId user) \<and> user \<in> set (au_users st) \<and>
    logged_in hist (us_userId user) t0 \<and> now < t0 + 7 * 86400 + 15 * 60"
proof -
  from dispatch_guarded [OF reply path] obtain u where "getWsUser jwt now (hr_cookies req) st = Inr u" .
  then obtain t where t: "map_of (hr_cookies req) ''accessToken'' = Some t" "jwt_decode jwt SECRET_KEY now t = JwtPayload (Some (us_userId u))"
    "getRequestUserId jwt now (hr_cookies req) = Inr (us_userId u)" "u \<in> set (au_users st)" by (rule getWsUser_cases)
  have "from_login jwt hist 900 t"
    using auth_reach_tokens [OF assms(1-3)] unforged [OF t(1,2)] by (auto simp: tokens_ok_def)
  then obtain uid t0 expiry where l: "logged_in hist uid t0" "t = jwt_encode jwt SECRET_KEY uid expiry" "expiry \<le> t0 + 7 * 86400 + 900"
    unfolding from_login_def by blast
  with decode_encode [OF assms(2)] t(2) have "uid = us_userId u" "now < expiry" by (metis option.inject)+
  with l t show ?thesis by (intro exI [of _ u] exI [of _ t0]) auto
qed

text \<open>
  After a logout the refresh token is dead: whatever follows, it yields a new access token only if
  a later login gave out the same token again.
\<close>

theorem logout_ends_refresh:
  assumes "user_logout now0 (Some rt) st = (Inr cookies, st1)" "auth_reach jwt st1 hist st2"
    and "user_refresh jwt now (Some rt) st2 = (Inr res, st3)"
  shows "\<exists>t1 st form tokens. (t1, st, ALogin form, Some tokens) \<in> set hist \<and> tn_refreshToken tokens = rt"
proof -
  from assms(1) have st1: "st1 = snd (set_token_status now0 3 rt st)"
    by (auto simp: user_logout_def logout_def deleteTokensByRefreshToken_def Let_def case_prod_unfold split: if_splits)
  obtain r where "refreshToken jwt now rt st2 = (Inr r, st3)"
    using assms(3) by (cases "refreshToken jwt now rt st2"; cases "fst (refreshToken jwt now rt st2)") (auto simp: user_refresh_def)
  from refresh_cases [OF this] obtain t where t: "t \<in> set (au_tokens st2)" "tk_refreshToken t = rt" "tk_status t = 1" by auto
  from closed_tokens [OF assms(2), of rt] set_token_status_closed st1 t show ?thesis by blast
qed

section \<open>Witnesses\<close>

text \<open>A JWT library that writes the claims as JSON.\<close>

definition w_jwt :: jwt_lib where
  "w_jwt = \<lparr>jwt_encode = \<lambda>key uid expiry. dumps True '','' '':'' (PList [PStr key, PInt uid, PInt \<lfloor>expiry\<rfloor>]),
     jwt_decode = \<lambda>key now t. case loads (\<lambda>s. s) t of
       Some (PList [PStr k, PInt uid, PInt e]) \<Rightarrow>
         if k \<noteq> key then JwtInvalid else if now < of_int e then JwtPayload (Some uid) else JwtExpired
     | _ \<Rightarrow> JwtInvalid\<rparr>"

lemma w_jwt_reads_back: "jwt_reads_back w_jwt"
  by (simp add: jwt_reads_back_def w_jwt_def loads_dumps seps_def is_ws_def del: dumps.simps)

definition w_user :: UserOrm where
  "w_user = \<lparr>us_userId = 1, us_username = ''ann'', us_email = ''a@b'', us_hashedPassword = ''h'', us_role = ''viewer'',
     us_status = True, us_loginFailedCount = 0, us_lockUntil = None\<rparr>"

definition w_auth :: auth where
  "w_auth = \<lparr>au_users = [w_user], au_tokens = [], au_logs = []\<rparr>"

definition w_form :: UserLoginRequest where
  "w_form = \<lparr>lr_account = ''ann'', lr_hashedPassword = ''h''\<rparr>"

definition w_tokens :: TokenResponse where
  "w_tokens = generateTokens w_jwt 100 1"

definition w_auth1 :: auth where
  "w_auth1 = insertTokens 100 1 (tn_refreshToken w_tokens) (100 + 7 * 86400) 1 w_auth"

definition w_http :: http_request where
  "w_http = \<lparr>hr_path = ''/agent/sessions'', hr_method = ''GET'', hr_cookies = [(''accessToken'', tn_accessToken w_tokens)],
     hr_authorization = None, hr_client = None, hr_body = []\<rparr>"

definition w_resp :: http_response where
  "w_resp = \<lparr>hp_status = 200, hp_body = [], hp_logged = None\<rparr>"

lemma w_login: "auth_step w_jwt 100 (ALogin w_form) w_auth = (Some w_tokens, w_auth1)"
  by (simp add: user_login_def login_def given_def getUserByAccount_def w_form_def w_auth_def w_user_def w_tokens_def w_auth1_def Let_def)

lemma w_access: "jwt_decode w_jwt SECRET_KEY 200 (tn_accessToken w_tokens) = JwtPayload (Some 1)"
  using w_jwt_reads_back by (simp add: w_tokens_def generateTokens_def jwt_reads_back_def)

lemma w_access_text: "tn_accessToken w_tokens \<noteq> []"
  by (simp add: w_tokens_def generateTokens_def w_jwt_def)

lemma w_dispatch:
  "dispatch w_jwt (\<lambda>s. s) 200 1 (\<lambda>req st. (w_resp, st)) w_http w_auth1 = (Reply w_resp, w_auth1)"
  by (simp add: dispatch_def is_excluded_def excludePaths_def websocketPaths_def getWsUser_def getRequestUserId_def getUserId_def
      w_http_def w_access w_access_text startswith_def getUserByUid_def w_auth1_def insertTokens_def w_auth_def w_user_def w_resp_def)

theorem authenticated_requests_witness:
  "\<exists>user t0. getRequestUserId w_jwt 200 (hr_cookies w_http) = Inr (us_userId user) \<and> user \<in> set (au_users w_auth1) \<and>
    logged_in [(100, w_auth, ALogin w_form, Some w_tokens)] (us_userId user) t0 \<and> 200 < t0 + 7 * 86400 + 15 * 60"
proof (rule authenticated_requests [OF _ w_jwt_reads_back _ _ w_dispatch])
  show "auth_reach w_jwt w_auth [(100, w_auth, ALogin w_form, Some w_tokens)] w_auth1"
    using auth_next [OF auth_start w_login] by simp
qed (auto simp: w_auth_def w_http_def issued_tokens_def is_excluded_def excludePaths_def websocketPaths_def startswith_def)

definition w_auth2 :: auth where
  "w_auth2 = snd (user_logout 150 (Some (tn_refreshToken w_tokens)) w_auth1)"

definition w_auth3 :: auth where
  "w_auth3 = insertTokens 100 1 (tn_refreshToken w_tokens) (100 + 7 * 86400) 1 w_auth2"

lemma w_refresh: "jwt_decode w_jwt SECRET_KEY 160 (tn_refreshToken w_tokens) = JwtPayload (Some 1)" "tn_refreshToken w_tokens \<noteq> []"
  using w_jwt_reads_back by (simp_all add: w_tokens_def generateTokens_def jwt_reads_back_def, simp add: w_jwt_def)

theorem logout_ends_refresh_witness:
  "\<exists>t1 st form tokens. (t1, st, ALogin form, Some tokens) \<in> set [(100 :: timestamp, w_auth2, ALogin w_form, Some w_tokens)] \<and>
     tn_refreshToken tokens = tn_refreshToken w_tokens"
proof (rule logout_ends_refresh)
  show "user_logout 150 (Some (tn_refreshToken w_tokens)) w_auth1 = (Inr (map (\<lambda>k. \<lparr>sc_key = k, sc_value = [], sc_max_age = Some 0\<rparr>)
      [''accessToken'', ''refreshToken'']), w_auth2)"
    by (simp add: w_auth2_def user_logout_def logout_def w_refresh deleteTokensByRefreshToken_def set_token_status_def
        w_auth1_def insertTokens_def Let_def)
  have "auth_step w_jwt 100 (ALogin w_form) w_auth2 = (Some w_tokens, w_auth3)"
    by (simp add: user_login_def login_def given_def getUserByAccount_def w_form_def w_auth_def w_user_def w_tokens_def w_auth1_def
        w_auth2_def w_auth3_def Let_def user_logout_def logout_def deleteTokensByRefreshToken_def set_token_status_def insertTokens_def)
  then show "auth_reach w_jwt w_auth2 [(100, w_auth2, ALogin w_form, Some w_tokens)] w_auth3"
    using auth_next [OF auth_start] by force
  show "user_refresh w_jwt 160 (Some (tn_refreshToken w_tokens)) w_auth3 =
    (Inr (\<lparr>tn_accessToken = jwt_encode w_jwt SECRET_KEY 1 (160 + 15 * 60), tn_refreshToken = tn_refreshToken w_tokens\<rparr>,
       token_cookies \<lparr>tn_accessToken = jwt_encode w_jwt SECRET_KEY 1 (160 + 15 * 60), tn_refreshToken = tn_refreshToken w_tokens\<rparr> None), w_auth3)"
    by (simp add: user_refresh_def refreshToken_def getUserByRefreshToken_def w_auth3_def w_auth2_def w_auth1_def w_auth_def insertTokens_def
        user_logout_def logout_def deleteTokensByRefreshToken_def set_token_status_def w_refresh getUserByUid_def w_user_def
        refreshAccessToken_def Let_def)
qed

text \<open>A refresh token passes the interceptor like an access token: the payload does not say which it is.\<close>

lemma refresh_token_opens_endpoints:
  assumes "jwt_reads_back jwt" "now < of_int \<lfloor>t0 + 7 * 86400\<rfloor>" "uid \<noteq> 0" "jwt_encode jwt SECRET_KEY uid (t0 + 7 * 86400) \<noteq> []"
  shows "getRequestUserId jwt now [(''accessToken'', tn_refreshToken (generateTokens jwt t0 uid))] = Inr uid"
  using assms by (simp add: getRequestUserId_def getUserId_def generateTokens_def jwt_reads_back_def)

text \<open>Two logins of a user within one second give the same refresh token, which can then not be used.\<close>

lemma login_inserts:
  assumes "login jwt now form st = (Inr tokens, st')"
  shows "\<exists>uid. st' = insertTokens now uid (tn_refreshToken tokens) (now + 7 * 86400) 1 st"
  using login_cases [OF assms] by (elim disjE exE conjE) (simp_all, blast)

lemma same_second_logins_block_refresh:
  assumes "login jwt t0 form st = (Inr tokens, st1)" "login jwt t1 form st1 = (Inr tokens', st2)"
    and "tn_refreshToken tokens = tn_refreshToken tokens'"
  shows "fst (refreshToken jwt now (tn_refreshToken tokens) st2) = Inl DataBaseError"
proof -
  have "one_or_none (xs @ [a, b]) = None" for xs and a b :: TokenOrm
    by (cases xs rule: one_or_none.cases) auto
  with login_inserts [OF assms(1)] login_inserts [OF assms(2)] assms(3) show ?thesis
    by (auto simp: refreshToken_def getUserByRefreshToken_def insertTokens_def)
qed

end
