(* ===== verification/EventBuffer.thy ===== *)
theory EventBuffer
  imports PyPrelude
begin

text \<open>
  The events of a background run on their way to the web client: the ring buffer
  (\<open>gateway/service/AgentEventBuffer.py\<close>), and the part of \<open>gateway/service/AgentGatewayService.py\<close>
  that replays the backlog to a new connection and streams the live queue, with the cursor
  \<open>_lastPushedSeq\<close> they share.

  Locale \<open>event_log\<close> is what the gateway needs of the buffer: numbered events, of which the last
  \<open>cap\<close> can be read again.  It is interpreted on the buffer as \<open>ring\<close>.
\<close>

section \<open>The buffer\<close>

record 'd buf_event =
  ev_type :: string
  ev_data :: 'd
  ev_seq :: int
  ev_ts :: timestamp

record 'd AgentEventBuffer =
  eb_maxSize :: nat
  eb_events :: "'d buf_event list"
  eb_queue :: "'d buf_event list"
  eb_totalEmitted :: int
  eb_done :: bool
  eb_finalStatus :: "string option"

definition new_buffer :: "nat \<Rightarrow> 'd AgentEventBuffer" where
  "new_buffer maxSize =
     \<lparr>eb_maxSize = maxSize, eb_events = [], eb_queue = [], eb_totalEmitted = 0, eb_done = False, eb_finalStatus = None\<rparr>"

text \<open>\<open>while len(self._events) > self._maxSize: self._events.popleft()\<close>\<close>

function popleft_excess :: "nat \<Rightarrow> 'a list \<Rightarrow> 'a list" where
  "popleft_excess maxSize xs = (if length xs > maxSize then popleft_excess maxSize (tl xs) else xs)"
  by pat_completeness auto
termination
  by (relation "measure (\<lambda>(_, xs). length xs)") auto

declare popleft_excess.simps [simp del]

definition push :: "timestamp \<Rightarrow> string \<Rightarrow> 'd \<Rightarrow> 'd AgentEventBuffer \<Rightarrow> int \<times> 'd AgentEventBuffer" where
  "push now ty data b =
     (let event = \<lparr>ev_type = ty, ev_data = data, ev_seq = eb_totalEmitted b, ev_ts = now\<rparr>
      in (eb_totalEmitted b,
          b\<lparr>eb_events := popleft_excess (eb_maxSize b) (eb_events b @ [event]),
            eb_totalEmitted := eb_totalEmitted b + 1,
            eb_queue := eb_queue b @ [event]\<rparr>))"

definition readSince :: "int \<Rightarrow> 'd AgentEventBuffer \<Rightarrow> 'd buf_event list" where
  "readSince lastSeq b = filter (\<lambda>e. ev_seq e > lastSeq) (eb_events b)"

definition markDone :: "string \<Rightarrow> 'd AgentEventBuffer \<Rightarrow> 'd AgentEventBuffer" where
  "markDone finalStatus b = b\<lparr>eb_done := True, eb_finalStatus := Some finalStatus\<rparr>"

definition resetForNewRound :: "'d AgentEventBuffer \<Rightarrow> 'd AgentEventBuffer" where
  "resetForNewRound b = b\<lparr>eb_done := False, eb_finalStatus := None\<rparr>"

record buffer_state =
  bs_totalEmitted :: int
  bs_bufferedCount :: nat
  bs_done :: bool
  bs_finalStatus :: "string option"

definition getState :: "'d AgentEventBuffer \<Rightarrow> buffer_state" where
  "getState b =
     \<lparr>bs_totalEmitted = eb_totalEmitted b, bs_bufferedCount = length (eb_events b), bs_done = eb_done b,
      bs_finalStatus = eb_finalStatus b\<rparr>"

section \<open>The contract of the buffer\<close>

text \<open>\<open>holds b es\<close>: the events \<open>es\<close> were put into \<open>b\<close>, in this order.\<close>

locale event_log =
  fixes put :: "'p \<Rightarrow> 'b \<Rightarrow> 'b" and since :: "int \<Rightarrow> 'b \<Rightarrow> 'e list" and seq :: "'e \<Rightarrow> int"
    and made :: "'p \<Rightarrow> int \<Rightarrow> 'e" and holds :: "'b \<Rightarrow> 'e list \<Rightarrow> bool" and cap :: "'b \<Rightarrow> nat"
  assumes put_holds: "holds b es \<Longrightarrow> holds (put p b) (es @ [made p (int (length es))])"
    and put_cap: "cap (put p b) = cap b"
    and since_holds: "holds b es \<Longrightarrow> since n b = filter (\<lambda>e. seq e > n) (drop (length es - cap b) es)"
    and seq_holds: "holds b es \<Longrightarrow> map seq es = map int [0..<length es]"
begin

lemma seq_nth:
  assumes "holds b es" "i < length es"
  shows "seq (es ! i) = int i"
proof -
  have "map seq es ! i = map int [0..<length es] ! i" using seq_holds [OF assms(1)] by simp
  with assms(2) show ?thesis by simp
qed

lemma seq_range: "holds b es \<Longrightarrow> e \<in> set es \<Longrightarrow> 0 \<le> seq e \<and> seq e < int (length es) \<and> es ! nat (seq e) = e"
  using seq_nth by (fastforce simp: in_set_conv_nth)

lemma log_increasing: "holds b es \<Longrightarrow> sorted_wrt (\<lambda>x y. seq x < seq y) es"
  using seq_nth [of b es] by (simp add: sorted_wrt_iff_nth_less)

lemma since_increasing: "holds b es \<Longrightarrow> sorted_wrt (\<lambda>x y. seq x < seq y) (since n b)"
  using log_increasing [of b es] since_holds [of b es n] by (simp add: sorted_wrt_filter sorted_wrt_drop)

lemma since_sound: "holds b es \<Longrightarrow> e \<in> set (since n b) \<Longrightarrow> e \<in> set es \<and> seq e > n"
  using since_holds [of b es n] by (auto dest: in_set_dropD)

lemma drop_by_seq:
  assumes "holds b es" "e \<in> set es"
  shows "e \<in> set (drop k es) \<longleftrightarrow> int k \<le> seq e"
proof
  assume k: "int k \<le> seq e"
  have e: "0 \<le> seq e" "nat (seq e) < length es" "es ! nat (seq e) = e" using seq_range [OF assms] by auto
  then have "drop k es ! (nat (seq e) - k) = e" "nat (seq e) - k < length (drop k es)" using k by auto
  then show "e \<in> set (drop k es)" by (metis nth_mem)
next
  assume "e \<in> set (drop k es)"
  then obtain i where "i < length es - k" "e = es ! (k + i)" by (auto simp: in_set_conv_nth)
  with seq_nth [OF assms(1), of "k + i"] show "int k \<le> seq e" by simp
qed

lemma take_by_seq:
  assumes "holds b es" "e \<in> set (take k es)"
  shows "seq e < int k"
  using assms(2) seq_nth [OF assms(1)] by (auto simp: in_set_conv_nth)

lemma since_complete: "holds b es \<Longrightarrow> e \<in> set es \<Longrightarrow> seq e > n \<Longrightarrow> e \<in> set (since n b) \<or> seq e + int (cap b) < int (length es)"
  using since_holds [of b es n] drop_by_seq [of b es e "length es - cap b"] by auto

text \<open>Nothing was overwritten: the events after \<open>n\<close> are exactly the rest of the es.\<close>

lemma since_exact:
  assumes "holds b es" "length es \<le> cap b" "-1 \<le> n"
  shows "since n b = drop (nat (n + 1)) es"
proof -
  let ?k = "nat (n + 1)"
  have "filter (\<lambda>e. seq e > n) (take ?k es) = []"
    using take_by_seq [OF assms(1)] assms(3) by (fastforce simp: filter_empty_conv)
  moreover have "filter (\<lambda>e. seq e > n) (drop ?k es) = drop ?k es"
    using drop_by_seq [OF assms(1), of _ ?k] assms(3) by (fastforce simp: filter_id_conv dest: in_set_dropD)
  moreover have "filter (\<lambda>e. seq e > n) es = filter (\<lambda>e. seq e > n) (take ?k es) @ filter (\<lambda>e. seq e > n) (drop ?k es)"
    by (metis append_take_drop_id filter_append)
  ultimately show ?thesis using since_holds [OF assms(1), of n] assms(2) by simp
qed

end

section \<open>The buffer keeps its contract\<close>

text \<open>
  Against the log of all events: the ring holds the last \<open>maxSize\<close> of them, the counter is their number.
\<close>

definition numbered :: "'d buf_event list \<Rightarrow> bool" where
  "numbered es \<longleftrightarrow> map ev_seq es = map int [0..<length es]"

definition buffered :: "'d AgentEventBuffer \<Rightarrow> 'd buf_event list \<Rightarrow> bool" where
  "buffered b es \<longleftrightarrow> numbered es \<and> eb_events b = drop (length es - eb_maxSize b) es \<and> eb_totalEmitted b = int (length es)"

definition made_event :: "timestamp \<times> string \<times> 'd \<Rightarrow> int \<Rightarrow> 'd buf_event" where
  "made_event p n = (case p of (now, ty, data) \<Rightarrow> \<lparr>ev_type = ty, ev_data = data, ev_seq = n, ev_ts = now\<rparr>)"

lemma popleft_excess_drop: "popleft_excess n xs = drop (length xs - n) xs"
proof (induction n xs rule: popleft_excess.induct)
  case (1 n xs)
  show ?case
  proof (cases "length xs > n")
    case True
    then have "drop (length xs - n) xs = drop (length (tl xs) - n) (tl xs)" by (cases xs) (auto simp: Suc_diff_le)
    with 1 True show ?thesis by (simp add: popleft_excess.simps [of n xs])
  qed (simp add: popleft_excess.simps [of n xs])
qed

lemma buffered_new: "buffered (new_buffer n) []"
  by (simp add: buffered_def numbered_def new_buffer_def)

lemma buffered_push:
  assumes "buffered b es"
  shows "buffered (snd (push now ty data b)) (es @ [made_event (now, ty, data) (int (length es))])"
proof -
  let ?m = "eb_maxSize b" and ?n = "length es"
  have "drop (Suc (?n - (?n - ?m)) - ?m) (drop (?n - ?m) es @ [x]) = drop (Suc ?n - ?m) es @ drop (Suc ?n - ?m - ?n) [x]" for x
    by (cases "?m \<le> ?n") (auto simp: Suc_diff_le)
  with assms show ?thesis
    by (auto simp: buffered_def numbered_def push_def Let_def popleft_excess_drop made_event_def)
qed

interpretation ring: event_log "\<lambda>(now, ty, data) b. snd (push now ty data b)" readSince ev_seq made_event buffered eb_maxSize
proof
  show "buffered b es \<Longrightarrow> buffered ((\<lambda>(now, ty, data) b. snd (push now ty data b)) p b) (es @ [made_event p (int (length es))])"
    for b :: "'a AgentEventBuffer" and es p
    by (cases p) (simp add: buffered_push)
  show "buffered b es \<Longrightarrow> readSince n b = filter (\<lambda>e. ev_seq e > n) (drop (length es - eb_maxSize b) es)"
    for b :: "'a AgentEventBuffer" and es n
    by (simp add: buffered_def readSince_def)
  show "buffered b es \<Longrightarrow> map ev_seq es = map int [0..<length es]" for b :: "'a AgentEventBuffer" and es
    by (simp add: buffered_def numbered_def)
qed (auto simp: push_def Let_def)

section \<open>Replay and streaming\<close>

text \<open>
  The loop over the backlog that finds the last event of a type, and the backlog without the earlier
  questions: of \<open>approval.required\<close> and \<open>choice.required\<close> only the last one is sent again.
\<close>

fun last_idx :: "string \<Rightarrow> int \<Rightarrow> int \<Rightarrow> 'd buf_event list \<Rightarrow> int" where
  "last_idx ty i found [] = found"
| "last_idx ty i found (e # es) = last_idx ty (i + 1) (if ev_type e = ty then i else found) es"

definition replay_list :: "'d buf_event list \<Rightarrow> 'd buf_event list" where
  "replay_list backlog =
     (let lastApprovalRequiredIdx = last_idx ''approval.required'' 0 (-1) backlog;
          lastChoiceRequiredIdx = last_idx ''choice.required'' 0 (-1) backlog
      in map snd (filter (\<lambda>(i, event).
            \<not> (ev_type event = ''approval.required'' \<and> int i \<noteq> lastApprovalRequiredIdx) \<and>
            \<not> (ev_type event = ''choice.required'' \<and> int i \<noteq> lastChoiceRequiredIdx)) (enumerate 0 backlog)))"

text \<open>
  One client at a time.  A connection replays, then waits for messages of the client; a message
  that starts a round or answers a question starts a stream task.  The task reads the state of the
  buffer (\<open>Some done\<close> once it has) and empties the queue.  A message of the client starts a new task whenever the agent
  is not running, also when the last task has not yet ended: it is forgotten (nobody can cancel it) and goes on beside the new one.
  Both take events from the same queue and send them under the same lock, which serves them in turn.
\<close>

datatype 'd phase = Offline | Replaying "'d buf_event list" | Online | Streaming "bool option"

text \<open>
  \<open>cs_sent\<close> and \<open>cs_log\<close> are the events sent to clients and the events pushed since the buffer was
  made; the code does not keep them.
\<close>

record 'd conn =
  cs_buf :: "'d AgentEventBuffer"
  cs_cursor :: int
  cs_phase :: "'d phase"
  cs_strays :: nat
  cs_sent :: "'d buf_event list"
  cs_log :: "'d buf_event list"

datatype 'd conn_op =
    CPush timestamp string 'd
  | CMarkDone string
  | CReset
  | CConnect
  | CReplay bool
  | CStart
  | CPoll
  | CTake bool
  | CCancel bool
  | CDisconnect
  | CRegenerate
  | CClean
  | CStray bool
  | CStrayEnd

definition send_event :: "'d buf_event \<Rightarrow> 'd conn \<Rightarrow> 'd conn" where
  "send_event event st =
     st\<lparr>cs_sent := cs_sent st @ [event], cs_cursor := if ev_seq event > cs_cursor st then ev_seq event else cs_cursor st\<rparr>"

definition take_queue :: "'d conn \<Rightarrow> 'd conn" where
  "take_queue st = st\<lparr>cs_buf := (cs_buf st)\<lparr>eb_queue := tl (eb_queue (cs_buf st))\<rparr>\<rparr>"

text \<open>
  The flag of \<open>CReplay\<close> and \<open>CTake\<close> says whether \<open>send_json\<close> succeeds; if not, the connection ends.
  \<open>CCancel\<close> stops the stream task, \<open>True\<close> while it sends an event that it has taken from the queue.
  \<open>CRegenerate\<close> makes a new buffer and resets the cursor.  \<open>CClean\<close> is \<open>cleanSession\<close> and the new
  buffer of the next \<open>submit\<close>, without a stream task.  \<open>CStray\<close> is a forgotten task that takes an event; its flag says
  whether \<open>send_json\<close> succeeds, which it cannot once the client is gone, and if not the event is lost and the task ends.  \<open>CStrayEnd\<close>
  is its end when it finds the round done.  What a forgotten task does with an older buffer after \<open>CRegenerate\<close> or \<open>CClean\<close> is not part of the model.
\<close>

definition attached :: "'d conn \<Rightarrow> bool" where
  "attached st \<longleftrightarrow> (case cs_phase st of Online \<Rightarrow> True | Streaming d \<Rightarrow> True | _ \<Rightarrow> False)"

fun conn_step :: "'d conn_op \<Rightarrow> 'd conn \<Rightarrow> 'd conn" where
  "conn_step (CPush now ty data) st =
     (let b = snd (push now ty data (cs_buf st))
      in st\<lparr>cs_buf := b, cs_log := cs_log st @ [made_event (now, ty, data) (eb_totalEmitted (cs_buf st))]\<rparr>)"
| "conn_step (CMarkDone s) st = st\<lparr>cs_buf := markDone s (cs_buf st)\<rparr>"
| "conn_step CReset st = st\<lparr>cs_buf := resetForNewRound (cs_buf st)\<rparr>"
| "conn_step CConnect st =
     (if cs_phase st = Offline then st\<lparr>cs_phase := Replaying (replay_list (readSince (cs_cursor st) (cs_buf st)))\<rparr> else st)"
| "conn_step (CReplay ok) st =
     (case cs_phase st of
        Replaying [] \<Rightarrow> st\<lparr>cs_phase := Online\<rparr>
      | Replaying (e # es) \<Rightarrow> if ok then (send_event e st)\<lparr>cs_phase := Replaying es\<rparr> else st\<lparr>cs_phase := Offline\<rparr>
      | _ \<Rightarrow> st)"
| "conn_step CStart st =
     (case cs_phase st of
        Online \<Rightarrow> st\<lparr>cs_phase := Streaming None\<rparr>
      | Streaming d \<Rightarrow> st\<lparr>cs_phase := Streaming None, cs_strays := cs_strays st + 1\<rparr>
      | _ \<Rightarrow> st)"
| "conn_step CPoll st =
     (if cs_phase st = Streaming None then st\<lparr>cs_phase := Streaming (Some (bs_done (getState (cs_buf st))))\<rparr> else st)"
| "conn_step (CTake ok) st =
     (case (cs_phase st, eb_queue (cs_buf st)) of
        (Streaming (Some done), []) \<Rightarrow> st\<lparr>cs_phase := if done then Online else Streaming None\<rparr>
      | (Streaming (Some done), e # q) \<Rightarrow>
          if ev_seq e \<le> cs_cursor st then take_queue st
          else if ok then send_event e (take_queue st)
          else (take_queue st)\<lparr>cs_phase := Offline\<rparr>
      | _ \<Rightarrow> st)"
| "conn_step (CCancel sending) st =
     (case cs_phase st of
        Streaming (Some done) \<Rightarrow> (if sending \<and> eb_queue (cs_buf st) \<noteq> [] then take_queue st else st)\<lparr>cs_phase := Online\<rparr>
      | Streaming None \<Rightarrow> st\<lparr>cs_phase := Online\<rparr>
      | _ \<Rightarrow> st)"
| "conn_step CDisconnect st = st\<lparr>cs_phase := Offline\<rparr>"
| "conn_step CRegenerate st =
     (if cs_phase st = Online \<or> (\<exists>d\<in>{None, Some True, Some False}. cs_phase st = Streaming d)
      then st\<lparr>cs_buf := new_buffer 1000, cs_cursor := -1, cs_phase := Streaming None, cs_strays := 0, cs_sent := [], cs_log := []\<rparr> else st)"
| "conn_step CClean st =
     (if cs_phase st = Online \<or> cs_phase st = Offline
      then st\<lparr>cs_buf := new_buffer 1000, cs_strays := 0, cs_sent := [], cs_log := []\<rparr> else st)"
| "conn_step (CStray ok) st =
     (case eb_queue (cs_buf st) of
        [] \<Rightarrow> st
      | e # q \<Rightarrow>
          if cs_strays st = 0 \<or> (ok \<and> \<not> attached st) then st
          else if ev_seq e \<le> cs_cursor st then take_queue st
          else if ok then send_event e (take_queue st)
          else (take_queue st)\<lparr>cs_strays := cs_strays st - 1\<rparr>)"
| "conn_step CStrayEnd st = st\<lparr>cs_strays := cs_strays st - 1\<rparr>"

definition new_conn :: "'d conn" where
  "new_conn = \<lparr>cs_buf = new_buffer 1000, cs_cursor = -1, cs_phase = Offline, cs_strays = 0, cs_sent = [], cs_log = []\<rparr>"

definition conn_run :: "'d conn_op list \<Rightarrow> 'd conn" where
  "conn_run ops = fold conn_step ops new_conn"

text \<open>Operations that cannot lose an event.\<close>

fun keeps_events :: "'d conn_op \<Rightarrow> bool" where
  "keeps_events (CCancel sending) \<longleftrightarrow> \<not> sending"
| "keeps_events CClean \<longleftrightarrow> False"
| "keeps_events (CStray ok) \<longleftrightarrow> ok"
| "keeps_events op \<longleftrightarrow> True"

definition superseded :: "'d buf_event list \<Rightarrow> 'd buf_event \<Rightarrow> bool" where
  "superseded es e \<longleftrightarrow> ev_type e \<in> {''approval.required'', ''choice.required''} \<and>
     (\<exists>e'\<in>set es. ev_type e' = ev_type e \<and> ev_seq e < ev_seq e')"

section \<open>Lemmas: the backlog\<close>

abbreviation increasing :: "'d buf_event list \<Rightarrow> bool" where
  "increasing \<equiv> sorted_wrt (\<lambda>x y. ev_seq x < ev_seq y)"

lemma last_idx_spec:
  "(last_idx ty i found es = found \<and> (\<forall>e\<in>set es. ev_type e \<noteq> ty)) \<or>
   (\<exists>j<length es. last_idx ty i found es = i + int j \<and> (\<forall>j'<length es. ev_type (es ! j') = ty \<longrightarrow> j' \<le> j) \<and> ev_type (es ! j) = ty)"
proof (induction es arbitrary: i found)
  case (Cons e es)
  let ?f = "if ev_type e = ty then i else found"
  from Cons [of "i + 1" ?f] show ?case
  proof (elim disjE conjE exE)
    assume l: "last_idx ty (i + 1) ?f es = ?f" and n: "\<forall>e\<in>set es. ev_type e \<noteq> ty"
    show ?case
    proof (cases "ev_type e = ty")
      case True
      have "j' \<le> 0" if "j' < length (e # es)" "ev_type ((e # es) ! j') = ty" for j'
        using that n by (cases j') auto
      with True l show ?thesis by (intro disjI2 exI [of _ 0]) auto
    qed (use l n in auto)
  next
    fix j assume j: "j < length es" "last_idx ty (i + 1) ?f es = i + 1 + int j"
      "\<forall>j'<length es. ev_type (es ! j') = ty \<longrightarrow> j' \<le> j" "ev_type (es ! j) = ty"
    have "j' \<le> Suc j" if "j' < length (e # es)" "ev_type ((e # es) ! j') = ty" for j'
      using that j(3) by (cases j') auto
    with j show ?case by (intro disjI2 exI [of _ "Suc j"]) auto
  qed
qed simp

lemma replay_list_sound:
  shows "set (replay_list es) \<subseteq> set es" "increasing es \<Longrightarrow> increasing (replay_list es)"
proof -
  show "set (replay_list es) \<subseteq> set es"
    by (auto simp: replay_list_def Let_def in_set_enumerate_eq)
  assume "increasing es"
  then have "sorted_wrt (\<lambda>x y. ev_seq (snd x) < ev_seq (snd y)) (enumerate 0 es)"
    using sorted_wrt_map [of "\<lambda>x y. ev_seq x < ev_seq y" snd "enumerate 0 es"] by simp
  then show "increasing (replay_list es)"
    by (simp add: replay_list_def Let_def sorted_wrt_map sorted_wrt_filter)
qed

lemma not_last:
  assumes "increasing es" "i < length es" "ev_type (es ! i) = ty" "int i \<noteq> last_idx ty 0 (-1) es"
  shows "\<exists>e'\<in>set es. ev_type e' = ty \<and> ev_seq (es ! i) < ev_seq e'"
proof -
  have "\<not> (\<forall>e\<in>set es. ev_type e \<noteq> ty)" using assms(2,3) by auto
  with last_idx_spec [of ty 0 "-1" es] obtain j where j: "j < length es" "last_idx ty 0 (-1) es = int j"
    "\<forall>j'<length es. ev_type (es ! j') = ty \<longrightarrow> j' \<le> j" "ev_type (es ! j) = ty" by auto
  with assms have "i < j" by fastforce
  with assms(1) j(1) have "ev_seq (es ! i) < ev_seq (es ! j)" by (simp add: sorted_wrt_iff_nth_less)
  with j(1,4) show ?thesis by (intro bexI [of _ "es ! j"]) auto
qed

lemma replay_list_complete:
  assumes "increasing es" "e \<in> set es"
  shows "e \<in> set (replay_list es) \<or> superseded es e"
proof -
  obtain i where i: "i < length es" "e = es ! i" using assms(2) by (auto simp: in_set_conv_nth)
  then have "(i, e) \<in> set (enumerate 0 es)" by (simp add: in_set_enumerate_eq)
  then have "e \<in> set (replay_list es) \<or> (ev_type e = ''approval.required'' \<and> int i \<noteq> last_idx ''approval.required'' 0 (-1) es) \<or>
      (ev_type e = ''choice.required'' \<and> int i \<noteq> last_idx ''choice.required'' 0 (-1) es)"
    unfolding replay_list_def Let_def by force
  with not_last [OF assms(1) i(1)] i(2) show ?thesis unfolding superseded_def by auto
qed

section \<open>Lemmas: order\<close>

lemma buffered_cong:
  "buffered (b\<lparr>eb_done := d, eb_finalStatus := f\<rparr>) es = buffered b es" "buffered (b\<lparr>eb_queue := q\<rparr>) es = buffered b es"
  by (simp_all add: buffered_def)

definition in_order :: "'d conn \<Rightarrow> bool" where
  "in_order st \<longleftrightarrow> buffered (cs_buf st) (cs_log st) \<and> (\<exists>k. eb_queue (cs_buf st) = drop k (cs_log st)) \<and>
     increasing (cs_sent st) \<and> (\<forall>e\<in>set (cs_sent st). ev_seq e \<le> cs_cursor st \<and> e \<in> set (cs_log st)) \<and>
     (case cs_phase st of
        Replaying es \<Rightarrow> increasing es \<and> (\<forall>e\<in>set es. cs_cursor st < ev_seq e \<and> e \<in> set (cs_log st)) | _ \<Rightarrow> True)"

lemma in_order_phase: "in_order st \<Longrightarrow> (\<And>es. p \<noteq> Replaying es) \<Longrightarrow> in_order (st\<lparr>cs_phase := p\<rparr>)"
  by (auto simp: in_order_def split: phase.splits)

lemma in_order_strays [simp]: "in_order (st\<lparr>cs_strays := n\<rparr>) = in_order st"
  by (simp add: in_order_def split: phase.split)

lemma in_order_take: "in_order st \<Longrightarrow> in_order (take_queue st)"
  unfolding in_order_def take_queue_def by (auto simp: buffered_cong tl_drop drop_Suc [symmetric] split: phase.splits)

lemma in_order_send:
  assumes "in_order st" "ev_seq e > cs_cursor st" "e \<in> set (cs_log st)" "\<And>es. cs_phase st \<noteq> Replaying es"
  shows "in_order (send_event e st)"
proof -
  have "x \<in> set (cs_sent st) \<Longrightarrow> ev_seq x < ev_seq e" for x using assms(1,2) by (fastforce simp: in_order_def)
  with assms show ?thesis by (fastforce simp: in_order_def send_event_def sorted_wrt_append split: phase.splits)
qed

lemma in_order_new: "buffered (cs_buf st) (cs_log st) \<Longrightarrow> eb_queue (cs_buf st) = cs_log st \<Longrightarrow> cs_sent st = [] \<Longrightarrow>
  (\<And>es. cs_phase st \<noteq> Replaying es) \<Longrightarrow> in_order st"
  by (auto simp: in_order_def split: phase.splits intro: exI [of _ 0])

lemma in_order_push:
  assumes "in_order st"
  shows "in_order (conn_step (CPush now ty data) st)"
proof -
  let ?e = "made_event (now, ty, data) (eb_totalEmitted (cs_buf st))" and ?b = "cs_buf st"
  obtain k where k: "eb_queue ?b = drop k (cs_log st)" and b: "buffered ?b (cs_log st)" using assms by (auto simp: in_order_def)
  have t: "eb_totalEmitted ?b = int (length (cs_log st))" using b by (simp add: buffered_def)
  have q: "eb_queue (snd (push now ty data ?b)) = eb_queue ?b @ [?e]" by (simp add: push_def Let_def made_event_def)
  have "\<exists>k'. drop k (cs_log st) @ [?e] = drop k' (cs_log st @ [?e])"
  proof (cases "k \<le> length (cs_log st)")
    case False
    then show ?thesis by (intro exI [of _ "length (cs_log st)"]) simp
  qed (use exI [of _ k] in auto)
  with assms buffered_push [OF b, of now ty data] t q k show ?thesis
    by (auto simp: in_order_def Let_def split: phase.splits)
qed

lemma in_order_step:
  assumes ok: "in_order st"
  shows "in_order (conn_step op st)"
proof (cases op)
  case CConnect
  let ?es = "readSince (cs_cursor st) (cs_buf st)"
  have b: "buffered (cs_buf st) (cs_log st)" using ok by (simp add: in_order_def)
  have "increasing (replay_list ?es)" "\<And>e. e \<in> set (replay_list ?es) \<Longrightarrow> cs_cursor st < ev_seq e \<and> e \<in> set (cs_log st)"
    using replay_list_sound [of ?es] ring.since_increasing [OF b] ring.since_sound [OF b] by auto
  with ok CConnect show ?thesis by (auto simp: in_order_def split: phase.splits)
next
  case (CReplay b)
  show ?thesis
  proof (cases "cs_phase st")
    case (Replaying es)
    show ?thesis
    proof (cases es)
      case (Cons e es')
      have s: "in_order (send_event e (st\<lparr>cs_phase := Online\<rparr>))"
        using ok Replaying Cons by (intro in_order_send in_order_phase) (auto simp: in_order_def)
      have "in_order ((send_event e st)\<lparr>cs_phase := Replaying es'\<rparr>)"
        using s ok Replaying Cons by (auto simp: in_order_def send_event_def)
      with CReplay Replaying Cons ok show ?thesis by (simp add: in_order_phase)
    qed (use CReplay Replaying ok in \<open>simp add: in_order_phase\<close>)
  qed (use CReplay ok in simp_all)
next
  case (CTake b)
  show ?thesis
  proof (cases "\<exists>d e q. cs_phase st = Streaming (Some d) \<and> eb_queue (cs_buf st) = e # q \<and> \<not> ev_seq e \<le> cs_cursor st")
    case True
    then obtain d e q where d: "cs_phase st = Streaming (Some d)" "eb_queue (cs_buf st) = e # q" "\<not> ev_seq e \<le> cs_cursor st" by blast
    have "e \<in> set (cs_log st)" using ok d(2) by (auto simp: in_order_def) (metis in_set_dropD list.set_intros(1))
    with d ok have "in_order (send_event e (take_queue st))"
      by (intro in_order_send in_order_take) (simp_all add: take_queue_def)
    with CTake d ok show ?thesis by (simp add: in_order_phase in_order_take)
  qed (use CTake ok in \<open>auto simp: in_order_phase in_order_take split: phase.splits option.splits list.splits\<close>)
next
  case (CStray b)
  show ?thesis
  proof (cases "eb_queue (cs_buf st)")
    case (Cons e q)
    have "e \<in> set (cs_log st)" using ok Cons by (auto simp: in_order_def) (metis in_set_dropD list.set_intros(1))
    then have "in_order (send_event e (take_queue st))" if "attached st" "\<not> ev_seq e \<le> cs_cursor st"
      using that ok by (intro in_order_send in_order_take) (auto simp: take_queue_def attached_def split: phase.splits)
    with CStray Cons ok show ?thesis by (simp add: in_order_take)
  qed (use CStray ok in simp)
next
  case CStart
  with ok show ?thesis by (auto simp: in_order_phase in_order_def split: phase.splits)
next
  case (CCancel b)
  with ok show ?thesis by (auto simp: in_order_phase in_order_take split: phase.splits option.splits)
next
  case CRegenerate
  then show ?thesis by (auto intro!: in_order_new simp: buffered_new ok) (simp_all add: new_buffer_def)
next
  case CClean
  with ok show ?thesis by (auto intro!: in_order_new simp: buffered_new) (simp_all add: new_buffer_def)
next
  case (CPush now ty data)
  then show ?thesis using in_order_push [OF ok] by blast
qed (use ok in \<open>auto simp: in_order_phase in_order_def markDone_def resetForNewRound_def buffered_cong split: phase.splits\<close>)

section \<open>Lemmas: completeness\<close>

definition overwritten :: "'d conn \<Rightarrow> 'd buf_event \<Rightarrow> bool" where
  "overwritten st e \<longleftrightarrow> ev_seq e + int (eb_maxSize (cs_buf st)) < int (length (cs_log st))"

definition accounted :: "'d conn \<Rightarrow> 'd buf_event \<Rightarrow> bool" where
  "accounted st e \<longleftrightarrow> e \<in> set (cs_sent st) \<or> superseded (cs_log st) e \<or> overwritten st e"

definition still_due :: "'d conn \<Rightarrow> bool" where
  "still_due st \<longleftrightarrow> cs_cursor st < int (length (cs_log st)) \<and>
     (case cs_phase st of
        Offline \<Rightarrow> \<forall>e\<in>set (cs_log st). accounted st e \<or> cs_cursor st < ev_seq e
      | Replaying es \<Rightarrow>
          \<exists>n k. eb_queue (cs_buf st) = drop k (cs_log st) \<and> k \<le> n \<and> n \<le> length (cs_log st) \<and> cs_cursor st < int n \<and>
            (\<forall>e\<in>set es. ev_seq e < int n) \<and> (\<forall>e\<in>set (cs_log st). ev_seq e < int n \<longrightarrow> accounted st e \<or> e \<in> set es)
      | _ \<Rightarrow> \<forall>e\<in>set (cs_log st). accounted st e \<or> (e \<in> set (eb_queue (cs_buf st)) \<and> cs_cursor st < ev_seq e))"

lemma superseded_mono: "superseded es e \<Longrightarrow> set es \<subseteq> set es' \<Longrightarrow> superseded es' e"
  by (auto simp: superseded_def)

lemma accounted_mono:
  "accounted st e \<Longrightarrow> set (cs_sent st) \<subseteq> set (cs_sent st') \<Longrightarrow> cs_log st' = cs_log st @ es \<Longrightarrow>
   eb_maxSize (cs_buf st') = eb_maxSize (cs_buf st) \<Longrightarrow> accounted st' e"
  by (auto simp: accounted_def overwritten_def intro: superseded_mono)

lemma accounted_same:
  "cs_sent st' = cs_sent st \<Longrightarrow> cs_log st' = cs_log st \<Longrightarrow> eb_maxSize (cs_buf st') = eb_maxSize (cs_buf st) \<Longrightarrow>
   accounted st' e = accounted st e"
  by (simp add: accounted_def overwritten_def)

lemma strays_simps [simp]:
  "accounted (st\<lparr>cs_strays := n\<rparr>) e = accounted st e" "accounted (st\<lparr>cs_phase := p, cs_strays := n\<rparr>) e = accounted st e"
  by (rule accounted_same; simp)+

lemma still_due_strays [simp]: "still_due (st\<lparr>cs_strays := n\<rparr>) = still_due st"
  by (simp add: still_due_def split: phase.split)

lemma take_queue_simps [simp]:
  "cs_phase (take_queue st) = cs_phase st" "cs_log (take_queue st) = cs_log st" "cs_cursor (take_queue st) = cs_cursor st"
  "cs_sent (take_queue st) = cs_sent st" "eb_queue (cs_buf (take_queue st)) = tl (eb_queue (cs_buf st))"
  "eb_maxSize (cs_buf (take_queue st)) = eb_maxSize (cs_buf st)"
  by (simp_all add: take_queue_def)

lemma still_due_replayI:
  assumes "cs_phase st = Replaying es" "eb_queue (cs_buf st) = drop k (cs_log st)" "k \<le> n" "n \<le> length (cs_log st)"
    "cs_cursor st < int n" "\<And>e. e \<in> set es \<Longrightarrow> ev_seq e < int n"
    "\<And>e. e \<in> set (cs_log st) \<Longrightarrow> ev_seq e < int n \<Longrightarrow> accounted st e \<or> e \<in> set es"
  shows "still_due st"
proof -
  have "cs_cursor st < int (length (cs_log st))" using assms(4,5) by linarith
  moreover have "\<exists>n k. eb_queue (cs_buf st) = drop k (cs_log st) \<and> k \<le> n \<and> n \<le> length (cs_log st) \<and> cs_cursor st < int n \<and>
      (\<forall>e\<in>set es. ev_seq e < int n) \<and> (\<forall>e\<in>set (cs_log st). ev_seq e < int n \<longrightarrow> accounted st e \<or> e \<in> set es)"
    using assms(2-7) by blast
  ultimately show ?thesis using assms(1) by (simp add: still_due_def)
qed

lemma short_queue:
  assumes "in_order st"
  obtains k where "k \<le> length (cs_log st)" "eb_queue (cs_buf st) = drop k (cs_log st)"
proof -
  obtain k where "eb_queue (cs_buf st) = drop k (cs_log st)" using assms by (auto simp: in_order_def)
  then show ?thesis by (cases "k \<le> length (cs_log st)") (use that that [of "length (cs_log st)"] in auto)
qed

lemma due_push:
  assumes ord: "in_order st" and due: "still_due st"
  shows "still_due (conn_step (CPush now ty data) st)" (is "still_due ?st")
proof -
  let ?e = "made_event (now, ty, data) (eb_totalEmitted (cs_buf st))"
  have b: "buffered (cs_buf st) (cs_log st)" using ord by (simp add: in_order_def)
  then have t: "ev_seq ?e = int (length (cs_log st))" by (simp add: buffered_def made_event_def)
  have st: "cs_log ?st = cs_log st @ [?e]" "cs_sent ?st = cs_sent st" "cs_cursor ?st = cs_cursor st" "cs_phase ?st = cs_phase st"
    "eb_maxSize (cs_buf ?st) = eb_maxSize (cs_buf st)" "eb_queue (cs_buf ?st) = eb_queue (cs_buf st) @ [?e]"
    by (simp_all add: Let_def push_def made_event_def)
  have acc: "accounted ?st e" if "accounted st e" for e by (rule accounted_mono [OF that _ st(1,5)]) (simp add: st)
  show ?thesis
  proof (cases "cs_phase st")
    case (Replaying es)
    with due obtain n k where nk: "eb_queue (cs_buf st) = drop k (cs_log st)" "k \<le> n" "n \<le> length (cs_log st)" "cs_cursor st < int n"
      "\<forall>e\<in>set es. ev_seq e < int n" "\<forall>e\<in>set (cs_log st). ev_seq e < int n \<longrightarrow> accounted st e \<or> e \<in> set es"
      by (auto simp: still_due_def)
    show ?thesis
      by (rule still_due_replayI [of _ es k n]) (use nk Replaying t acc in \<open>auto simp: st simp del: conn_step.simps\<close>)
  qed (use due acc t in \<open>auto simp: still_due_def st simp del: conn_step.simps\<close>)
qed

lemma due_connect:
  assumes ord: "in_order st" and due: "still_due st" and off: "cs_phase st = Offline"
  shows "still_due (conn_step CConnect st)"
proof -
  let ?es = "readSince (cs_cursor st) (cs_buf st)" and ?st = "conn_step CConnect st"
  have b: "buffered (cs_buf st) (cs_log st)" using ord by (simp add: in_order_def)
  obtain k where k: "k \<le> length (cs_log st)" "eb_queue (cs_buf st) = drop k (cs_log st)" by (rule short_queue [OF ord])
  have "accounted ?st e \<or> e \<in> set (replay_list ?es)" if e: "e \<in> set (cs_log st)" for e
  proof -
    have acc: "accounted ?st e = accounted st e" using off by (intro accounted_same) simp_all
    consider "accounted st e" | "e \<in> set ?es" | "overwritten st e"
      using due off e ring.since_complete [OF b e] by (fastforce simp: still_due_def overwritten_def)
    then show ?thesis
    proof cases
      case 2
      with replay_list_complete [OF ring.since_increasing [OF b]] have "e \<in> set (replay_list ?es) \<or> superseded ?es e" by blast
      with superseded_mono [of ?es e "cs_log st"] ring.since_sound [OF b] acc show ?thesis by (auto simp: accounted_def)
    next
      case 3
      then have "accounted st e" by (simp add: accounted_def)
      with acc show ?thesis by blast
    qed (use acc in blast)
  qed
  moreover have "ev_seq e < int (length (cs_log st))" if "e \<in> set (replay_list ?es)" for e
    using that replay_list_sound(1) ring.since_sound [OF b] ring.seq_range [OF b] by blast
  ultimately show ?thesis
    by (intro still_due_replayI [of _ "replay_list ?es" k "length (cs_log st)"])
      (use due off k in \<open>auto simp: still_due_def [of st]\<close>)
qed

lemma due_replay:
  assumes ord: "in_order st" and due: "still_due st" and rep: "cs_phase st = Replaying es"
  shows "still_due (conn_step (CReplay ok) st)" "still_due (st\<lparr>cs_phase := Offline\<rparr>)"
proof -
  have b: "buffered (cs_buf st) (cs_log st)" and es: "\<And>e. e \<in> set es \<Longrightarrow> cs_cursor st < ev_seq e \<and> e \<in> set (cs_log st)"
    using ord rep by (auto simp: in_order_def)
  obtain n k where nk: "eb_queue (cs_buf st) = drop k (cs_log st)" "k \<le> n" "n \<le> length (cs_log st)" "cs_cursor st < int n"
    "\<forall>e\<in>set es. ev_seq e < int n" "\<And>e. e \<in> set (cs_log st) \<Longrightarrow> ev_seq e < int n \<Longrightarrow> accounted st e \<or> e \<in> set es"
    using due rep by (auto simp: still_due_def)
  have same: "accounted (st\<lparr>cs_phase := p\<rparr>) e = accounted st e" for p e by (rule accounted_same) simp_all
  show off: "still_due (st\<lparr>cs_phase := Offline\<rparr>)"
    using due es nk(4,6) by (fastforce simp: still_due_def same)
  show "still_due (conn_step (CReplay ok) st)"
  proof (cases es)
    case Nil
    have "e \<in> set (eb_queue (cs_buf st)) \<and> cs_cursor st < ev_seq e" if "e \<in> set (cs_log st)" "\<not> ev_seq e < int n" for e
      using that nk(1,2,4) ring.drop_by_seq [OF b that(1), of k] by auto
    with Nil nk(6) due show ?thesis by (auto simp: still_due_def rep same)
  next
    case (Cons e es')
    let ?st = "(send_event e st)\<lparr>cs_phase := Replaying es'\<rparr>"
    have acc: "accounted ?st x" if "accounted st x \<or> x = e" for x
      using that by (auto simp: accounted_def overwritten_def send_event_def)
    have "accounted ?st x \<or> x \<in> set es'" if "x \<in> set (cs_log st)" "ev_seq x < int n" for x
      using nk(6) [OF that] acc [of x] Cons by auto
    moreover have "ev_seq e < int (length (cs_log st))" "ev_seq e < int n"
      using ring.seq_range [OF b, of e] es nk(5) Cons by auto
    ultimately have "still_due ?st"
      by (intro still_due_replayI [of _ es' k n]) (use nk(1-5) Cons in \<open>auto simp: send_event_def\<close>)
    with Cons rep off show ?thesis by simp
  qed
qed

lemma due_take:
  assumes ord: "in_order st" and due: "still_due st" and s: "attached st" and q: "eb_queue (cs_buf st) = e # q"
  shows "cs_cursor st < ev_seq e \<Longrightarrow> still_due (send_event e (take_queue st))"
    and "ev_seq e \<le> cs_cursor st \<Longrightarrow> still_due (take_queue st)"
    and "still_due ((take_queue st)\<lparr>cs_phase := Offline\<rparr>)"
proof -
  have b: "buffered (cs_buf st) (cs_log st)" using ord by (simp add: in_order_def)
  obtain k where k: "e # q = drop k (cs_log st)" using ord q by (auto simp: in_order_def)
  have "increasing (e # q)" unfolding k by (rule sorted_wrt_drop [OF ring.log_increasing [OF b]])
  then have later: "x \<in> set q \<Longrightarrow> ev_seq e < ev_seq x" for x by simp
  have e: "e \<in> set (cs_log st)" using k by (metis in_set_dropD list.set_intros(1))
  have old: "accounted st x \<or> (x \<in> set (e # q) \<and> cs_cursor st < ev_seq x)" if "x \<in> set (cs_log st)" for x
    using due s q that by (auto simp: still_due_def attached_def split: phase.splits)
  have acc: "accounted (send_event e (take_queue st)) x" if "accounted st x \<or> x = e" for x
    using that by (auto simp: accounted_def overwritten_def send_event_def take_queue_def)
  have same: "accounted ((take_queue st)\<lparr>cs_phase := p\<rparr>) x = accounted st x" "accounted (take_queue st) x = accounted st x" for p x
    by (rule accounted_same; simp)+
  have "ev_seq e < int (length (cs_log st))" using ring.seq_range [OF b e] by simp
  moreover have "accounted (send_event e (take_queue st)) x \<or> (x \<in> set q \<and> ev_seq e < ev_seq x)" if "x \<in> set (cs_log st)" for x
    using old [OF that] acc [of x] later [of x] by auto
  ultimately show "still_due (send_event e (take_queue st))" if "cs_cursor st < ev_seq e"
    using that s q by (auto simp: still_due_def send_event_def take_queue_def attached_def split: phase.splits)
  have "accounted st x \<or> (x \<in> set q \<and> cs_cursor st < ev_seq x)" if "ev_seq e \<le> cs_cursor st" "x \<in> set (cs_log st)" for x
    using that old [OF that(2)] by auto
  then show "still_due (take_queue st)" if "ev_seq e \<le> cs_cursor st"
    using that s q due by (auto simp: still_due_def same attached_def split: phase.splits)
  show "still_due ((take_queue st)\<lparr>cs_phase := Offline\<rparr>)"
    using old due by (auto simp: still_due_def same)
qed

lemma due_step:
  assumes ord: "in_order st" and due: "still_due st" and keep: "keeps_events op"
  shows "still_due (conn_step op st)"
proof -
  have same: "accounted (st\<lparr>cs_phase := p\<rparr>) e = accounted st e" for p e by (rule accounted_same) simp_all
  have offline: "still_due (st\<lparr>cs_phase := Offline\<rparr>)"
  proof (cases "cs_phase st")
    case (Replaying es)
    then show ?thesis using due_replay(2) [OF ord due] by blast
  qed (use due in \<open>auto simp: still_due_def same\<close>)
  have buf: "accounted (st\<lparr>cs_buf := (cs_buf st)\<lparr>eb_done := d, eb_finalStatus := f\<rparr>\<rparr>) e = accounted st e" for d f e
    by (rule accounted_same) simp_all
  show ?thesis
  proof (cases op)
    case (CTake b)
    show ?thesis
    proof (cases "cs_phase st")
      case (Streaming d)
      show ?thesis
      proof (cases "d = None \<or> eb_queue (cs_buf st) = []")
        case True
        with Streaming CTake due show ?thesis by (auto simp: still_due_def same split: option.splits)
      next
        case False
        then obtain d' e q where q: "d = Some d'" "eb_queue (cs_buf st) = e # q" by (cases d; cases "eb_queue (cs_buf st)") auto
        with Streaming CTake due_take [OF ord due _ q(2)] show ?thesis by (simp add: attached_def)
      qed
    qed (use CTake due in simp_all)
  next
    case (CReplay b)
    then show ?thesis using due_replay(1) [OF ord due, of _ b] due by (cases "cs_phase st") simp_all
  next
    case CConnect
    then show ?thesis using due_connect [OF ord due] due by (cases "cs_phase st = Offline") simp_all
  next
    case (CStray b)
    with keep have b: "b" by simp
    show ?thesis
    proof (cases "eb_queue (cs_buf st)")
      case (Cons e q)
      with CStray b due due_take [OF ord due _ Cons] show ?thesis by auto
    qed (use CStray due in simp)
  next
    case CStrayEnd
    with due show ?thesis by simp
  next
    case CStart
    with due show ?thesis by (auto simp: still_due_def same split: phase.splits)
  next
    case (CCancel b)
    with keep due show ?thesis by (auto simp: still_due_def same split: phase.splits option.splits)
  next
    case (CPush now ty data)
    then show ?thesis using due_push [OF ord due] by blast
  next
    case CRegenerate
    with due show ?thesis by (auto simp: still_due_def)
  next
    case CDisconnect
    with offline show ?thesis by simp
  next
    case (CMarkDone s)
    with due show ?thesis by (auto simp: still_due_def markDone_def buf split: phase.splits)
  next
    case CReset
    with due show ?thesis by (auto simp: still_due_def resetForNewRound_def buf split: phase.splits)
  qed (use keep due in \<open>auto simp: still_due_def same\<close>)
qed

lemma conn_run_snoc: "conn_run (ops @ [op]) = conn_step op (conn_run ops)"
  by (simp add: conn_run_def)

lemma conn_run_in_order: "in_order (conn_run ops)"
proof (induction ops rule: rev_induct)
  case Nil
  show ?case unfolding conn_run_def by (rule in_order_new) (simp_all add: new_conn_def buffered_new, simp add: new_buffer_def)
next
  case (snoc op ops)
  then show ?case by (simp only: conn_run_snoc in_order_step)
qed

lemma conn_run_due: "list_all keeps_events ops \<Longrightarrow> still_due (conn_run ops)"
proof (induction ops rule: rev_induct)
  case Nil
  show ?case by (simp add: conn_run_def new_conn_def still_due_def)
next
  case (snoc op ops)
  then show ?case by (simp add: conn_run_snoc due_step [OF conn_run_in_order])
qed

section \<open>Properties\<close>

text \<open>
  C20. In every interleaving of the agent, the stream tasks, reconnects, cancellations and restarts, the
  events of a buffer reach the client in the order in which they were pushed, each at most once, and
  nothing else is sent; and what a reconnecting client can read again is the end of the log of
  pushed events, as far as the ring holds it.
\<close>

theorem stream_in_order:
  "increasing (cs_sent (conn_run ops)) \<and> set (cs_sent (conn_run ops)) \<subseteq> set (cs_log (conn_run ops)) \<and>
   map ev_seq (cs_log (conn_run ops)) = map int [0..<length (cs_log (conn_run ops))] \<and>
   readSince n (cs_buf (conn_run ops)) =
     filter (\<lambda>e. ev_seq e > n) (drop (length (cs_log (conn_run ops)) - eb_maxSize (cs_buf (conn_run ops))) (cs_log (conn_run ops)))"
proof -
  have "in_order (conn_run ops)" by (rule conn_run_in_order)
  then have b: "buffered (cs_buf (conn_run ops)) (cs_log (conn_run ops))"
    and s: "increasing (cs_sent (conn_run ops))" "set (cs_sent (conn_run ops)) \<subseteq> set (cs_log (conn_run ops))"
    by (auto simp: in_order_def)
  from s ring.since_holds [OF b, of n] ring.seq_holds [OF b] show ?thesis by blast
qed

text \<open>
  C23. As long as no stream task is cancelled in the middle of a send, no forgotten task takes an event whose send fails and the session is not cleaned (by a switch of the
  model or of the tools), a client that is online and has an empty queue has been sent every event pushed so far, whatever connections
  broke in between, except questions that a later question of the same kind replaced and events that the
  ring had overwritten.
\<close>

theorem stream_complete:
  assumes "list_all keeps_events ops" "cs_phase (conn_run ops) = Streaming d \<or> cs_phase (conn_run ops) = Online"
    and "eb_queue (cs_buf (conn_run ops)) = []" "e \<in> set (cs_log (conn_run ops))"
  shows "e \<in> set (cs_sent (conn_run ops)) \<or> superseded (cs_log (conn_run ops)) e \<or>
    ev_seq e + int (eb_maxSize (cs_buf (conn_run ops))) < int (length (cs_log (conn_run ops)))"
  using conn_run_due [OF assms(1)] assms(2-4) by (auto simp: still_due_def accounted_def overwritten_def)

text \<open>A connection that breaks while an event is sent, and a reconnect.\<close>

definition w_ops :: "nat conn_op list" where
  "w_ops = [CConnect, CReplay True, CStart, CPush 1 ''text.delta'' 10, CPoll, CTake False, CPush 2 ''text.delta'' 11,
     CConnect, CReplay True, CReplay True, CReplay True, CStart, CPush 3 ''done'' 12, CMarkDone ''idle'', CPoll,
     CTake True, CTake True, CTake True]"

theorem stream_complete_witness:
  "map ev_data (cs_log (conn_run w_ops)) = [10, 11, 12] \<and>
   (\<exists>e\<in>set (cs_log (conn_run w_ops)). ev_data e = 10 \<and> e \<in> set (cs_sent (conn_run w_ops)))"
proof -
  let ?e = "\<lparr>ev_type = ''text.delta'', ev_data = 10 :: nat, ev_seq = 0, ev_ts = 1\<rparr>"
  note ev = conn_run_def w_ops_def new_conn_def new_buffer_def push_def popleft_excess_drop made_event_def readSince_def replay_list_def
    send_event_def take_queue_def markDone_def getState_def Let_def
  have "list_all keeps_events w_ops" by (simp add: w_ops_def)
  moreover have "cs_phase (conn_run w_ops) = Online" "eb_queue (cs_buf (conn_run w_ops)) = []"
    by (simp_all add: ev)
  moreover have l: "map ev_data (cs_log (conn_run w_ops)) = [10, 11, 12]" "?e \<in> set (cs_log (conn_run w_ops))"
    by (simp_all add: ev)
  ultimately have "?e \<in> set (cs_sent (conn_run w_ops)) \<or> superseded (cs_log (conn_run w_ops)) ?e \<or>
    ev_seq ?e + int (eb_maxSize (cs_buf (conn_run w_ops))) < int (length (cs_log (conn_run w_ops)))"
    by (intro stream_complete) auto
  moreover have "\<not> superseded (cs_log (conn_run w_ops)) ?e" by (simp add: superseded_def)
  moreover have "eb_maxSize (cs_buf (conn_run w_ops)) = 1000" "length (cs_log (conn_run w_ops)) = 3" by (simp_all add: ev)
  ultimately show ?thesis using l by auto
qed

text \<open>
  \<open>cleanSession\<close> (a switch of the model or of the tools) leaves the cursor where it was, so the
  events of the next run are skipped until their numbers pass it.
\<close>

lemma clean_hides_events:
  assumes "cs_phase st = Online" "0 \<le> cs_cursor st"
  shows "cs_sent (fold conn_step [CClean, CPush now ty data, CStart, CPoll, CTake True] st) = []"
  using assms by (simp add: new_buffer_def push_def popleft_excess_drop getState_def take_queue_def Let_def)

text \<open>
  A message that is sent before the task of the last round has ended starts a second task.  After a reconnect the first one still takes
  events from the queue, which it cannot send; if the new client is sent a later event, the lost one is never sent again.
\<close>

definition stray_ops :: "nat conn_op list" where
  "stray_ops = [CConnect, CReplay True, CStart, CPoll, CStart, CDisconnect, CConnect, CReplay True, CStart, CPush 1 ''text.delta'' 10,
     CStray False, CPush 2 ''text.delta'' 11, CPoll, CTake True]"

lemma stray_task_loses_event:
  "map ev_data (cs_log (conn_run stray_ops)) = [10, 11] \<and> map ev_data (cs_sent (conn_run stray_ops)) = [11] \<and>
   eb_queue (cs_buf (conn_run stray_ops)) = [] \<and> readSince (cs_cursor (conn_run stray_ops)) (cs_buf (conn_run stray_ops)) = []"
  by (simp add: conn_run_def stray_ops_def new_conn_def new_buffer_def push_def popleft_excess_drop made_event_def readSince_def
      replay_list_def send_event_def take_queue_def getState_def Let_def)

end
