(* ===== verification/Runner.thy ===== *)
theory Runner
  imports EventBuffer History
begin

text \<open>
  The background runner of one session (\<open>gateway/service/AgentBackgroundRunner.py\<close>): messages that are
  submitted while a loop runs wait in a queue, the loop takes them one after the other, and its \<open>finally\<close>
  starts a new loop when a message came in at the last moment.  Every \<open>await\<close> of the loop that may
  suspend it is a step of its own, so other calls come in between.  At the end, \<open>createEphemeralRun\<close>
  of \<open>gateway/service/AgentGatewayService.py\<close>, which waits for such a run and collects its result.

  A round itself is the agent loop of another theory; here it begins, pushes events and ends.  A loop keeps the buffer it
  found when it started, also when \<open>clearBuffer\<close> has put a new one into the session since.  Exceptions that leave the loop
  (building the runtime, storing the message, updating the status) skip \<open>markDone\<close>.
\<close>

section \<open>State\<close>

text \<open>The texts among the data of an event.\<close>

type_synonym event_data = "(string \<times> utext) list"

datatype loop_phase = LStart | LRound | LEnded | LClosing

text \<open>\<open>lt_buf\<close> is the buffer that a loop has found; \<open>lt_raised\<close> says that an exception has left the loop.\<close>

record loop_task =
  lt_id :: nat
  lt_message :: utext
  lt_phase :: loop_phase
  lt_cancelled :: bool
  lt_buf :: nat
  lt_raised :: bool

text \<open>
  \<open>rn_tasks\<close> are the loops that exist, \<open>rn_task\<close> the one in \<open>state["task"]\<close>; \<open>rn_bufs\<close> are the buffers made so far, of which
  \<open>rn_cur\<close> is in \<open>state["buffer"]\<close>.  The code does not keep \<open>rn_submitted\<close> and
  \<open>rn_handled\<close>, the messages submitted and the messages a loop has taken up, nor \<open>rn_last\<close>, the buffer of the loop that ended
  last and whether no exception had left it.
\<close>

record runner =
  rn_queue :: "utext list"
  rn_running :: bool
  rn_runtime :: bool
  rn_tasks :: "loop_task list"
  rn_task :: "nat option"
  rn_next :: nat
  rn_bufs :: "event_data AgentEventBuffer list"
  rn_cur :: nat
  rn_submitted :: "utext list"
  rn_handled :: "utext list"
  rn_last :: "(nat \<times> bool) option"

definition new_runner :: runner where
  "new_runner =
     \<lparr>rn_queue = [], rn_running = False, rn_runtime = False, rn_tasks = [], rn_task = None, rn_next = 0,
      rn_bufs = [new_buffer 1000], rn_cur = 0, rn_submitted = [], rn_handled = [], rn_last = None\<rparr>"

definition rn_buf :: "runner \<Rightarrow> event_data AgentEventBuffer" where
  "rn_buf st = rn_bufs st ! rn_cur st"

definition upd_buf :: "nat \<Rightarrow> (event_data AgentEventBuffer \<Rightarrow> event_data AgentEventBuffer) \<Rightarrow> runner \<Rightarrow> runner" where
  "upd_buf b f st = st\<lparr>rn_bufs := (rn_bufs st)[b := f (rn_bufs st ! b)]\<rparr>"

section \<open>Operations\<close>

definition spawn :: "utext \<Rightarrow> runner \<Rightarrow> runner" where
  "spawn m st =
     (upd_buf (rn_cur st) resetForNewRound st)\<lparr>rn_running := True, rn_next := Suc (rn_next st),
       rn_tasks := rn_tasks st @ [\<lparr>lt_id = rn_next st, lt_message = m, lt_phase = LStart, lt_cancelled = False, lt_buf = rn_cur st, lt_raised = False\<rparr>]\<rparr>"

definition submit :: "utext \<Rightarrow> runner \<Rightarrow> runner" where
  "submit m st =
     (let st = st\<lparr>rn_submitted := rn_submitted st @ [m]\<rparr>
      in if rn_running st then st\<lparr>rn_queue := rn_queue st @ [m]\<rparr>
         else (spawn m st)\<lparr>rn_task := Some (rn_next st)\<rparr>)"

text \<open>
  A loop that has not started yet never runs its body when it is cancelled; one that waits in a round
  gets the exception there; one that waits to mark the buffer skips this; one that waits for the lock of its \<open>finally\<close> ends.
\<close>

definition cancel_run :: "runner \<Rightarrow> runner" where
  "cancel_run st =
     st\<lparr>rn_tasks := map (\<lambda>t. if Some (lt_id t) = rn_task st
                            then (if lt_phase t = LRound then t\<lparr>lt_cancelled := True\<rparr> else t\<lparr>lt_phase := LClosing, lt_raised := True\<rparr>) else t)
                     (filter (\<lambda>t. \<not> (Some (lt_id t) = rn_task st \<and> (lt_phase t = LStart \<or> lt_phase t = LClosing))) (rn_tasks st)),
       rn_queue := [], rn_running := False\<rparr>"

definition clearBuffer :: "runner \<Rightarrow> runner" where
  "clearBuffer st = st\<lparr>rn_bufs := rn_bufs st @ [new_buffer 1000], rn_cur := length (rn_bufs st)\<rparr>"

definition set_task :: "nat \<Rightarrow> (loop_task \<Rightarrow> loop_task) \<Rightarrow> runner \<Rightarrow> runner" where
  "set_task i f st = st\<lparr>rn_tasks := map (\<lambda>t. if lt_id t = i then f t else t) (rn_tasks st)\<rparr>"

definition push_to :: "nat \<Rightarrow> timestamp \<Rightarrow> string \<Rightarrow> event_data \<Rightarrow> runner \<Rightarrow> runner" where
  "push_to b now ty data st = upd_buf b (\<lambda>e. snd (push now ty data e)) st"

definition push_error :: "nat \<Rightarrow> timestamp \<Rightarrow> utext \<Rightarrow> runner \<Rightarrow> runner" where
  "push_error b now text st = push_to b now ''error'' [(''message'', text)] st"

text \<open>
  The top of the loop, which gets a runtime and stores the message: there is no runtime, or an exception leaves the loop (neither an
  error event nor \<open>markDone\<close> follows), or the round begins.
\<close>

datatype begin_result = Runtime | NoRuntime | BeginRaised

definition begin_round :: "timestamp \<Rightarrow> begin_result \<Rightarrow> nat \<Rightarrow> utext \<Rightarrow> nat \<Rightarrow> runner \<Rightarrow> runner" where
  "begin_round now r i m b st =
     (let st = st\<lparr>rn_handled := rn_handled st @ [m]\<rparr>
      in case r of
           Runtime \<Rightarrow> set_task i (\<lambda>t. t\<lparr>lt_phase := LRound, lt_message := m, lt_buf := b\<rparr>) (st\<lparr>rn_runtime := True\<rparr>)
         | NoRuntime \<Rightarrow> set_task i (\<lambda>t. t\<lparr>lt_phase := LEnded, lt_message := m, lt_buf := b\<rparr>)
                (push_error b now [26080, 27861, 21019, 24314, 32, 65, 103, 101, 110, 116, 32, 36816, 34892, 26102] st)
         | BeginRaised \<Rightarrow> set_task i (\<lambda>t. t\<lparr>lt_phase := LClosing, lt_message := m, lt_buf := b, lt_raised := True\<rparr>) st)"

datatype round_end = RoundOk begin_result | RoundFailed utext

definition end_round :: "timestamp \<Rightarrow> round_end \<Rightarrow> loop_task \<Rightarrow> runner \<Rightarrow> runner" where
  "end_round now r t st =
     (let ended = set_task (lt_id t) (\<lambda>t. t\<lparr>lt_phase := LEnded\<rparr>)
      in if lt_cancelled t then ended (push_error (lt_buf t) now ([65, 103, 101, 110, 116, 32, 20219, 21153, 34987, 21462, 28040]) st)
         else case r of
           RoundFailed text \<Rightarrow> ended (push_error (lt_buf t) now text st)
         | RoundOk next_begin \<Rightarrow>
             (case rn_queue st of
                m # q \<Rightarrow> begin_round now next_begin (lt_id t) m (lt_buf t) (st\<lparr>rn_queue := q\<rparr>)
              | [] \<Rightarrow> ended st))"

text \<open>\<open>updateStatus\<close> and \<open>markDone\<close>; \<open>stored\<close> says whether the first does not raise.\<close>

definition mark_done :: "bool \<Rightarrow> loop_task \<Rightarrow> runner \<Rightarrow> runner" where
  "mark_done stored t st =
     (if stored then set_task (lt_id t) (\<lambda>t. t\<lparr>lt_phase := LClosing\<rparr>) (upd_buf (lt_buf t) (markDone ''idle'') st)
      else set_task (lt_id t) (\<lambda>t. t\<lparr>lt_phase := LClosing, lt_raised := True\<rparr>) st)"

definition close_loop :: "loop_task \<Rightarrow> runner \<Rightarrow> runner" where
  "close_loop t st =
     (let st = st\<lparr>rn_tasks := filter (\<lambda>t'. lt_id t' \<noteq> lt_id t) (rn_tasks st), rn_running := False, rn_runtime := False,
                 rn_last := Some (lt_buf t, \<not> lt_raised t)\<rparr>
      in case rn_queue st of
           [] \<Rightarrow> st
         | m # q \<Rightarrow> spawn m (st\<lparr>rn_queue := q\<rparr>))"

section \<open>The state machine\<close>

text \<open>
  The two steps of a regeneration, \<open>RClear\<close> and \<open>RSubmit\<close>, are apart: between its test that nothing runs and each of them it
  waits.  \<open>RMarkDone\<close> has the flag of \<open>mark_done\<close>.
\<close>

datatype runner_op =
    RSubmit utext
  | RCancel
  | RClear
  | RBegin timestamp nat begin_result
  | REvent timestamp nat string event_data
  | REnd timestamp nat round_end
  | RMarkDone nat bool
  | RFinally nat
  | RTitle timestamp utext

definition find_task :: "nat \<Rightarrow> loop_phase \<Rightarrow> runner \<Rightarrow> loop_task option" where
  "find_task i p st = List.find (\<lambda>t. lt_id t = i \<and> lt_phase t = p) (rn_tasks st)"

fun runner_step :: "runner_op \<Rightarrow> runner \<Rightarrow> runner" where
  "runner_step (RSubmit m) st = submit m st"
| "runner_step RCancel st = cancel_run st"
| "runner_step RClear st = clearBuffer st"
| "runner_step (RBegin now i r) st =
     (case find_task i LStart st of Some t \<Rightarrow> begin_round now r i (lt_message t) (rn_cur st) st | None \<Rightarrow> st)"
| "runner_step (REvent now i ty data) st =
     (case find_task i LRound st of Some t \<Rightarrow> push_to (lt_buf t) now ty data st | None \<Rightarrow> st)"
| "runner_step (REnd now i r) st = (case find_task i LRound st of Some t \<Rightarrow> end_round now r t st | None \<Rightarrow> st)"
| "runner_step (RMarkDone i stored) st = (case find_task i LEnded st of Some t \<Rightarrow> mark_done stored t st | None \<Rightarrow> st)"
| "runner_step (RFinally i) st = (case find_task i LClosing st of Some t \<Rightarrow> close_loop t st | None \<Rightarrow> st)"
| "runner_step (RTitle now title) st = push_to (rn_cur st) now ''title.updated'' [(''title'', title)] st"

text \<open>Steps by which an exception leaves a loop.\<close>

fun raises :: "runner_op \<Rightarrow> bool" where
  "raises (RBegin now i r) \<longleftrightarrow> r = BeginRaised"
| "raises (REnd now i r) \<longleftrightarrow> r = RoundOk BeginRaised"
| "raises (RMarkDone i stored) \<longleftrightarrow> \<not> stored"
| "raises op \<longleftrightarrow> False"

definition runner_run :: "runner_op list \<Rightarrow> runner" where
  "runner_run ops = fold runner_step ops new_runner"

lemma runner_run_snoc: "runner_run (ops @ [op]) = runner_step op (runner_run ops)"
  by (simp add: runner_run_def)

section \<open>Lemmas\<close>

text \<open>
  Without cancellation there is at most one loop, and every message is taken up, waits in it, or is queued; \<open>r\<close> says
  whether an exception has left a loop.
\<close>

definition one_loop :: "bool \<Rightarrow> runner \<Rightarrow> bool" where
  "one_loop r st \<longleftrightarrow> length (rn_bufs st) = Suc (rn_cur st) \<and>
     (case rn_tasks st of
        [] \<Rightarrow> \<not> rn_running st \<and> rn_queue st = [] \<and> rn_submitted st = rn_handled st \<and>
          (case rn_last st of None \<Rightarrow> rn_submitted st = []
           | Some (b, marked) \<Rightarrow> b \<le> rn_cur st \<and> (if marked then eb_done (rn_bufs st ! b) else r))
      | [t] \<Rightarrow> rn_running st \<and> \<not> lt_cancelled t \<and> lt_buf t \<le> rn_cur st \<and>
          rn_submitted st = rn_handled st @ (if lt_phase t = LStart then [lt_message t] else []) @ rn_queue st \<and>
          (lt_raised t \<longrightarrow> r) \<and> (lt_phase t = LClosing \<and> \<not> lt_raised t \<longrightarrow> eb_done (rn_bufs st ! lt_buf t))
      | _ \<Rightarrow> False)"

lemma find_task_one: "rn_tasks st = [t] \<Longrightarrow> find_task i p st = (if lt_id t = i \<and> lt_phase t = p then Some t else None)"
  by (simp add: find_task_def)

lemma find_task_none: "rn_tasks st = [] \<Longrightarrow> find_task i p st = None"
  by (simp add: find_task_def)

lemma push_done [simp]: "eb_done (snd (push now ty data b)) = eb_done b"
  by (simp add: push_def Let_def)

lemma push_to_simps [simp]:
  "length (rn_bufs (push_to b now ty data st)) = length (rn_bufs st)" "rn_cur (push_to b now ty data st) = rn_cur st"
  "rn_tasks (push_to b now ty data st) = rn_tasks st" "rn_running (push_to b now ty data st) = rn_running st"
  "rn_queue (push_to b now ty data st) = rn_queue st" "rn_submitted (push_to b now ty data st) = rn_submitted st"
  "rn_handled (push_to b now ty data st) = rn_handled st" "rn_last (push_to b now ty data st) = rn_last st"
  by (simp_all add: push_to_def upd_buf_def)

lemma push_to_done [simp]: "c < length (rn_bufs st) \<Longrightarrow> eb_done (rn_bufs (push_to b now ty data st) ! c) = eb_done (rn_bufs st ! c)"
  by (cases "b = c") (simp_all add: push_to_def upd_buf_def)

lemma one_loop_push: "one_loop r st \<Longrightarrow> one_loop r (push_to b now ty data st)"
  by (auto simp: one_loop_def split: list.splits option.splits)

lemma one_loop_mono: "one_loop r st \<Longrightarrow> one_loop (r \<or> r') st"
  by (auto simp: one_loop_def split: list.splits option.splits if_splits)

lemma one_loop_idle:
  assumes "one_loop r st" "op \<noteq> RCancel" "rn_tasks st = []"
  shows "one_loop (r \<or> raises op) (runner_step op st)"
proof (cases op)
  case (RTitle now title)
  then show ?thesis using one_loop_push [OF assms(1)] by simp
qed (use assms in \<open>auto simp: one_loop_def find_task_none submit_def spawn_def upd_buf_def clearBuffer_def nth_append Let_def
      split: option.splits if_splits\<close>)

lemma one_loop_busy:
  assumes "one_loop r st" "op \<noteq> RCancel" "rn_tasks st = [t]"
  shows "one_loop (r \<or> raises op) (runner_step op st)"
proof -
  note defs = one_loop_def find_task_one [OF assms(3)] assms(3) set_task_def begin_round_def push_error_def Let_def
  show ?thesis
  proof (cases op)
    case (RTitle now title)
    then show ?thesis using one_loop_push [OF assms(1)] by simp
  next
    case (REvent now i ty data)
    then show ?thesis using one_loop_push [OF assms(1)] assms(1) by (simp add: find_task_one [OF assms(3)])
  next
    case (RBegin now i b)
    then show ?thesis using assms by (cases b) (auto simp: defs)
  next
    case (REnd now i e)
    then show ?thesis using assms by (cases e) (auto simp: defs end_round_def split: list.splits begin_result.splits)
  next
    case (RFinally i)
    then show ?thesis using assms by (auto simp: defs close_loop_def spawn_def upd_buf_def split: list.splits)
  qed (use assms in \<open>auto simp: defs submit_def mark_done_def markDone_def upd_buf_def clearBuffer_def nth_append\<close>)
qed

lemma one_loop_step:
  assumes "one_loop r st" "op \<noteq> RCancel"
  shows "one_loop (r \<or> raises op) (runner_step op st)"
proof (cases "rn_tasks st")
  case Nil
  then show ?thesis using one_loop_idle assms by blast
next
  case (Cons t ts)
  with assms(1) have "rn_tasks st = [t]" by (auto simp: one_loop_def split: list.splits)
  then show ?thesis using one_loop_busy assms by blast
qed

lemma runner_run_one_loop: "RCancel \<notin> set ops \<Longrightarrow> one_loop (list_ex raises ops) (runner_run ops)"
proof (induction ops rule: rev_induct)
  case Nil
  show ?case by (simp add: runner_run_def new_runner_def one_loop_def)
next
  case (snoc op ops)
  then show ?case using one_loop_step [of "list_ex raises ops" "runner_run ops" op] by (auto simp: runner_run_snoc)
qed

lemma same_buffer: "RClear \<notin> set ops \<Longrightarrow> rn_cur (runner_run ops) = 0"
proof (induction ops rule: rev_induct)
  case Nil
  show ?case by (simp add: runner_run_def new_runner_def)
next
  case (snoc op ops)
  have "rn_cur (runner_step op st) = rn_cur st" if "op \<noteq> RClear" for st
    using that by (cases op) (auto simp: submit_def cancel_run_def spawn_def upd_buf_def set_task_def begin_round_def end_round_def mark_done_def
        close_loop_def push_error_def Let_def split: option.splits list.splits round_end.splits begin_result.splits)
  with snoc show ?case by (auto simp: runner_run_snoc)
qed

section \<open>The result of an unattended run\<close>

text \<open>One look at the buffer: the text of the last error event, if there is one.\<close>

definition data_text :: "string \<Rightarrow> event_data \<Rightarrow> utext" where
  "data_text key data = (case map_of data key of Some t \<Rightarrow> t | None \<Rightarrow> [])"

definition note_errors :: "event_data buf_event list \<Rightarrow> utext option \<Rightarrow> utext option" where
  "note_errors events errorMessage =
     foldl (\<lambda>err e. if ev_type e = ''error'' then Some (data_text ''message'' (ev_data e)) else err) errorMessage events"

definition TIMEOUT_TEXT :: "int \<Rightarrow> utext" where
  "TIMEOUT_TEXT n = [21518, 21488, 32, 65, 103, 101, 110, 116, 32, 25191, 34892, 36229, 26102, 65288] @ uni (str_of_int n) @ [32, 31186, 65289]"

text \<open>
  The waiting loop over the moments at which it wakes up, each with the clock and the buffer then:
  the error text, whether the run is cancelled, and the moments left.  \<open>None\<close>: it still waits.
\<close>

fun ephemeral_wait ::
  "timestamp \<Rightarrow> rat \<Rightarrow> utext option \<Rightarrow> (timestamp \<times> event_data AgentEventBuffer) list \<Rightarrow> (utext option \<times> bool) option" where
  "ephemeral_wait started timeoutSeconds err [] = None"
| "ephemeral_wait started timeoutSeconds err ((now, b) # looks) =
     (let err = note_errors (readSince (-1) b) err
      in if bs_done (getState b) then Some (err, False)
         else if now - started > timeoutSeconds then Some (Some (TIMEOUT_TEXT \<lfloor>timeoutSeconds\<rfloor>), True)
         else ephemeral_wait started timeoutSeconds err looks)"

fun usplit_ws_acc :: "utext \<Rightarrow> utext \<Rightarrow> utext list" where
  "usplit_ws_acc acc [] = (if acc = [] then [] else [acc])"
| "usplit_ws_acc acc (c # cs) =
     (if uspace c then (if acc = [] then [] else [acc]) @ usplit_ws_acc [] cs else usplit_ws_acc (acc @ [c]) cs)"

definition truthy_text :: "utext option \<Rightarrow> bool" where
  "truthy_text t = (case t of None \<Rightarrow> False | Some s \<Rightarrow> s \<noteq> [])"

definition summarizeRunOutput :: "utext \<Rightarrow> utext option \<Rightarrow> utext" where
  "summarizeRunOutput fullReport errorMessage =
     (if truthy_text errorMessage then take 500 (the errorMessage) else take 500 (ujoin (uni '' '') (usplit_ws_acc [] fullReport)))"

record ephemeral_result =
  er_status :: string
  er_summary :: utext
  er_fullReport :: utext
  er_errorMessage :: "utext option"

definition ephemeral_collect :: "event_data buf_event list \<Rightarrow> utext option \<Rightarrow> ephemeral_result" where
  "ephemeral_collect events errorMessage =
     (let parts = concat (map (\<lambda>e. if ev_type e = ''text.delta'' then data_text ''content'' (ev_data e) else []) events);
          err = foldl (\<lambda>err e. if ev_type e = ''error'' \<and> \<not> truthy_text err then Some (data_text ''message'' (ev_data e)) else err)
                  errorMessage events;
          fullReport = ustrip parts
      in \<lparr>er_status = (if truthy_text err then ''error'' else ''success''), er_summary = summarizeRunOutput fullReport err,
          er_fullReport = fullReport, er_errorMessage = err\<rparr>)"

definition createEphemeralRun ::
  "timestamp \<Rightarrow> rat \<Rightarrow> (timestamp \<times> event_data AgentEventBuffer) list \<Rightarrow> event_data AgentEventBuffer \<Rightarrow> ephemeral_result option" where
  "createEphemeralRun started timeoutSeconds looks final =
     (case ephemeral_wait started timeoutSeconds None looks of
        None \<Rightarrow> None
      | Some (err, cancelled) \<Rightarrow> Some (ephemeral_collect (readSince (-1) final) err))"

text \<open>The wait ends: at the latest at the first look after the time limit.\<close>

lemma ephemeral_wait_ends:
  assumes "(now, b) \<in> set looks" "now - started > timeoutSeconds"
  shows "\<exists>err cancelled. ephemeral_wait started timeoutSeconds e looks = Some (err, cancelled)"
  using assms by (induction looks arbitrary: e) (auto simp: Let_def)

lemma ephemeral_wait_stopped: "ephemeral_wait started timeoutSeconds e looks = Some (err, True) \<Longrightarrow> truthy_text err"
  by (induction looks arbitrary: e) (auto simp: Let_def truthy_text_def TIMEOUT_TEXT_def split: if_splits)

lemma note_errors_none: "(\<And>e. e \<in> set es \<Longrightarrow> ev_type e \<noteq> ''error'') \<Longrightarrow> note_errors es err = err"
  unfolding note_errors_def by (induction es arbitrary: err) auto

lemma ephemeral_wait_clean:
  "ephemeral_wait started timeoutSeconds e looks = Some (err, False) \<Longrightarrow>
   (\<And>b x. b \<in> snd ` set looks \<Longrightarrow> x \<in> set (readSince (-1) b) \<Longrightarrow> ev_type x \<noteq> ''error'') \<Longrightarrow> err = e"
proof (induction looks arbitrary: e)
  case (Cons l looks)
  have "note_errors (readSince (-1) (snd l)) e = e" by (rule note_errors_none) (use Cons.prems(2) in auto)
  moreover have "err = e" if "ephemeral_wait started timeoutSeconds e looks = Some (err, False)"
    by (rule Cons.IH [OF that]) (use Cons.prems(2) in auto)
  ultimately show ?case using Cons.prems(1) by (cases l) (auto simp: Let_def split: if_splits)
qed simp

lemma collect_keeps_error:
  "truthy_text err \<Longrightarrow> truthy_text (foldl (\<lambda>err e. if ev_type e = ''error'' \<and> \<not> truthy_text err then Some (f e) else err) err es)"
  by (induction es arbitrary: err) auto

lemma collect_error:
  "e \<in> set es \<Longrightarrow> ev_type e = ''error'' \<Longrightarrow> f e \<noteq> [] \<Longrightarrow>
   truthy_text (foldl (\<lambda>err e. if ev_type e = ''error'' \<and> \<not> truthy_text err then Some (f e) else err) err es)"
proof (induction es arbitrary: err)
  case (Cons x es)
  then show ?case using collect_keeps_error [of "Some (f e)" f es] collect_keeps_error [of err f es]
    by (auto simp: truthy_text_def [of "Some (f e)"])
qed simp

lemma collect_no_error:
  "(\<And>e. e \<in> set es \<Longrightarrow> ev_type e \<noteq> ''error'') \<Longrightarrow>
   foldl (\<lambda>err e. if ev_type e = ''error'' \<and> P err then Some (f e) else err) err es = err"
  by (induction es arbitrary: err) auto

section \<open>Properties\<close>

text \<open>
  C28. Without cancellation, in every interleaving of submissions, regenerations (clearing the buffer and submitting) and the steps of the loop, exceptions that leave the loop
  included: there is at most one loop, the flag \<open>running\<close> says whether there is one, messages are taken up in the order in
  which they were submitted and none is left in the queue when no loop is left.  Then the buffer that the last loop worked on is marked as done, unless an
  exception left this loop before \<open>markDone\<close>, which happens only where such an exception was raised; and this buffer is the one of the session, unless it was
  replaced in the meantime.
\<close>

theorem messages_in_order:
  fixes ops :: "runner_op list"
  assumes "RCancel \<notin> set ops"
  defines "st \<equiv> runner_run ops"
  shows "length (rn_tasks st) \<le> 1 \<and> (rn_running st \<longleftrightarrow> rn_tasks st \<noteq> []) \<and> prefix (rn_handled st) (rn_submitted st) \<and>
    (rn_tasks st = [] \<longrightarrow> rn_handled st = rn_submitted st \<and>
       (rn_submitted st \<noteq> [] \<longrightarrow> (\<exists>b marked. rn_last st = Some (b, marked) \<and> (marked \<longrightarrow> eb_done (rn_bufs st ! b)) \<and>
          (\<not> list_ex raises ops \<longrightarrow> marked) \<and> (RClear \<notin> set ops \<longrightarrow> b = rn_cur st))))"
proof (cases "rn_tasks st")
  case Nil
  have inv: "one_loop (list_ex raises ops) st" "RClear \<notin> set ops \<Longrightarrow> rn_cur st = 0"
    unfolding st_def by (rule runner_run_one_loop [OF assms(1)], rule same_buffer)
  show ?thesis
  proof (cases "rn_last st")
    case (Some bm)
    then show ?thesis using inv Nil by (cases bm) (auto simp: one_loop_def split: if_splits)
  qed (use inv Nil in \<open>auto simp: one_loop_def\<close>)
next
  case (Cons t ts)
  then show ?thesis using runner_run_one_loop [OF assms(1), folded st_def] by (cases ts) (auto simp: one_loop_def)
qed

definition w_messages :: "runner_op list" where
  "w_messages = [RSubmit [1], RSubmit [2], RBegin 1 0 Runtime, REnd 2 0 (RoundFailed [3]), RSubmit [4], RMarkDone 0 True, RFinally 0,
     RBegin 3 1 Runtime, REnd 4 1 (RoundOk Runtime), REnd 5 1 (RoundOk Runtime), RMarkDone 1 True, RFinally 1]"

lemmas runner_eval = runner_run_def new_runner_def submit_def spawn_def begin_round_def end_round_def close_loop_def set_task_def
  push_error_def push_to_def upd_buf_def mark_done_def find_task_def markDone_def resetForNewRound_def new_buffer_def clearBuffer_def rn_buf_def Let_def

theorem messages_in_order_witness:
  "rn_submitted (runner_run w_messages) = [[1], [2], [4]] \<and> rn_handled (runner_run w_messages) = [[1], [2], [4]] \<and>
   eb_done (rn_buf (runner_run w_messages))"
proof -
  have s: "rn_tasks (runner_run w_messages) = []" "rn_submitted (runner_run w_messages) = [[1], [2], [4]]"
    by (simp_all add: runner_eval w_messages_def)
  have "RCancel \<notin> set w_messages" "RClear \<notin> set w_messages" "\<not> list_ex raises w_messages" by (simp_all add: w_messages_def)
  with messages_in_order [OF this(1)] s show ?thesis by (auto simp: rn_buf_def)
qed

text \<open>
  An exception while the runtime is built or the message is stored leaves the loop without an error event and without
  \<open>markDone\<close>: the agent does not run, and the stream of the client waits for ever.
\<close>

lemma raised_skips_done:
  "let st = runner_run [RSubmit [1], RBegin 1 0 BeginRaised, RFinally 0]
   in rn_tasks st = [] \<and> \<not> rn_running st \<and> rn_handled st = [[1]] \<and> eb_events (rn_buf st) = [] \<and> \<not> eb_done (rn_buf st)"
  by (simp add: runner_eval)

text \<open>
  A message that starts a loop while a regeneration waits: the loop keeps the old buffer, and the new one of the session is never marked.
\<close>

lemma regenerate_race:
  "let st = runner_run [RSubmit [1], RBegin 1 0 Runtime, RClear, RSubmit [2], REnd 2 0 (RoundOk Runtime), REnd 3 0 (RoundOk Runtime),
     RMarkDone 0 True, RFinally 0]
   in rn_tasks st = [] \<and> rn_handled st = [[1], [2]] \<and> eb_done (rn_bufs st ! 0) \<and> rn_cur st = 1 \<and> \<not> eb_done (rn_buf st)"
  by (simp add: runner_eval)

text \<open>
  After a cancellation a second loop can run beside the first, because the flag is cleared before the
  cancelled loop has ended; the end of the first then clears the flag of the second.
\<close>

lemma cancel_allows_two_rounds:
  "let st = runner_run [RSubmit [1], RBegin 1 0 Runtime, RCancel, RSubmit [2], RBegin 2 1 Runtime]
   in map lt_phase (rn_tasks st) = [LRound, LRound]"
  "let st = runner_run [RSubmit [1], RBegin 1 0 Runtime, RCancel, RSubmit [2], RBegin 2 1 Runtime, REnd 3 0 (RoundOk Runtime), RMarkDone 0 True, RFinally 0]
   in map lt_phase (rn_tasks st) = [LRound] \<and> \<not> rn_running st"
  by (simp_all add: runner_eval cancel_run_def)

text \<open>
  An unattended run returns at the latest when it is looked at after its time limit.  Its status is
  \<open>error\<close> whenever it was stopped for the time or the buffer holds an error event with a text, and
  \<open>success\<close> when there was no error event at all; the report is the text of the events the buffer still holds,
  and the summary is at most 500 characters long.
\<close>

theorem ephemeral_run_result:
  assumes "(now, b) \<in> set looks" "now - started > timeoutSeconds"
  shows "\<exists>r err stopped. createEphemeralRun started timeoutSeconds looks final = Some r \<and>
    ephemeral_wait started timeoutSeconds None looks = Some (err, stopped) \<and>
    (stopped \<longrightarrow> er_status r = ''error'') \<and>
    (\<forall>e\<in>set (readSince (-1) final). ev_type e = ''error'' \<and> data_text ''message'' (ev_data e) \<noteq> [] \<longrightarrow> er_status r = ''error'') \<and>
    (\<not> stopped \<and> (\<forall>b\<in>insert final (snd ` set looks). \<forall>e\<in>set (readSince (-1) b). ev_type e \<noteq> ''error'') \<longrightarrow> er_status r = ''success'') \<and>
    length (er_summary r) \<le> 500"
proof -
  obtain err stopped where w: "ephemeral_wait started timeoutSeconds None looks = Some (err, stopped)"
    using ephemeral_wait_ends [OF assms] by blast
  let ?es = "readSince (-1) final" and ?r = "ephemeral_collect (readSince (-1) final) err"
  have "er_status ?r = ''error''" if stopped
    using collect_keeps_error [OF ephemeral_wait_stopped] w that by (simp add: ephemeral_collect_def Let_def)
  moreover have "er_status ?r = ''error''" if "e \<in> set ?es" "ev_type e = ''error''" "data_text ''message'' (ev_data e) \<noteq> []" for e
    using collect_error [OF that(1,2), of "\<lambda>e. data_text ''message'' (ev_data e)" err] that(3) by (simp add: ephemeral_collect_def Let_def)
  moreover have "er_status ?r = ''success''"
    if "\<not> stopped" "\<forall>b\<in>insert final (snd ` set looks). \<forall>e\<in>set (readSince (-1) b). ev_type e \<noteq> ''error''"
  proof -
    have "err = None" using ephemeral_wait_clean [of started timeoutSeconds None looks err] w that by auto
    moreover have "\<not> truthy_text None" by (simp add: truthy_text_def)
    ultimately show ?thesis using that(2) by (simp add: ephemeral_collect_def Let_def collect_no_error [of ?es])
  qed
  moreover have "length (er_summary ?r) \<le> 500"
    by (simp add: ephemeral_collect_def summarizeRunOutput_def Let_def)
  ultimately show ?thesis using w by (auto simp: createEphemeralRun_def)
qed

definition w_final :: "event_data AgentEventBuffer" where
  "w_final = snd (push 2 ''error'' [(''message'', uni ''no'')] (snd (push 1 ''text.delta'' [(''content'', uni ''ok'')] (new_buffer 1000))))"

theorem ephemeral_run_result_witness:
  "\<exists>r. createEphemeralRun 0 10 [(1, new_buffer 1000), (11, w_final)] w_final = Some r \<and> er_status r = ''error''"
proof -
  have "\<lparr>ev_type = ''error'', ev_data = [(''message'', uni ''no'')], ev_seq = 1, ev_ts = 2\<rparr> \<in> set (readSince (-1) w_final)"
    by (simp add: w_final_def readSince_def push_def popleft_excess_drop new_buffer_def Let_def)
  with ephemeral_run_result [of 11 w_final "[(1, new_buffer 1000), (11, w_final)]" 10 0 w_final] show ?thesis
    by (fastforce simp: data_text_def uni_def)
qed

end
