(* ===== verification/Sessions.thy ===== *)
theory Sessions
  imports AgentLoop
begin

text \<open>
  Stored conversations: the tables of sessions and messages (\<open>gateway/dao/AgentSessionDaoOrm.py\<close>), the
  operations of users on their sessions (\<open>gateway/service/AgentSessionService.py\<close>), and what
  \<open>_runAgentLoop\<close> of \<open>gateway/service/AgentBackgroundRunner.py\<close> stores for the events of a turn.

  Columns that hold JSON texts (tool calls, a pending approval or choice) are given by the value that was
  written.  A new message gets the id after the largest one in use, as SQLite does it.  The clock is an
  argument; a turn reads it once.  Token usage, titles and the runtime of a session are not modelled.
\<close>

section \<open>Tables\<close>

datatype metadata = MToolCalls "tool_block list" | MToolName string

record pending_approval =
  pa_action_id :: string
  pa_tool_name :: string
  pa_arguments :: pydict
  pa_reason :: rule_reason
  pa_ai_reason :: pyval
  pa_call_id :: string

record pending_choice =
  pc_action_id :: string
  pc_question :: string
  pc_options :: "choice_option list"

record AgentSessionOrm =
  as_sessionId :: string
  as_userId :: int
  as_title :: utext
  as_mode :: string
  as_status :: string
  as_source :: string
  as_profileId :: "int option"
  as_toolSource :: string
  as_mcpServers :: "pyval option"
  as_safetyPolicy :: string
  as_lastError :: "utext option"
  as_pendingApproval :: "pending_approval option"
  as_pendingChoice :: "pending_choice option"
  as_createdAt :: timestamp
  as_updatedAt :: timestamp
  as_finishedAt :: "timestamp option"

record AgentMessageOrm =
  am_messageId :: int
  am_sessionId :: string
  am_role :: string
  am_content :: "utext option"
  am_toolCallId :: "string option"
  am_traceId :: "string option"
  am_roundIndex :: int
  am_metadata :: "metadata option"

record sessions =
  sd_sessions :: "AgentSessionOrm list"
  sd_messages :: "AgentMessageOrm list"

record AgentSessionCreate =
  ac_title :: utext
  ac_mode :: string
  ac_profileId :: "int option"
  ac_toolSource :: string
  ac_safetyPolicy :: string
  ac_source :: string
  ac_mcpServers :: "pyval option"

section \<open>Sessions\<close>

text \<open>\<open>None\<close>: the id is the primary key, a second row raises an exception.\<close>

definition createSession :: "timestamp \<Rightarrow> string \<Rightarrow> int \<Rightarrow> AgentSessionCreate \<Rightarrow> sessions \<Rightarrow> sessions option" where
  "createSession now sessionId userId req db =
     (if \<exists>s\<in>set (sd_sessions db). as_sessionId s = sessionId then None
      else Some (db\<lparr>sd_sessions := sd_sessions db @
        [\<lparr>as_sessionId = sessionId, as_userId = userId, as_title = ac_title req, as_mode = ac_mode req, as_status = ''idle'',
          as_source = ac_source req, as_profileId = ac_profileId req, as_toolSource = ac_toolSource req,
          as_mcpServers = (case ac_mcpServers req of Some v \<Rightarrow> if truthy v then Some v else None | None \<Rightarrow> None),
          as_safetyPolicy = ac_safetyPolicy req, as_lastError = None, as_pendingApproval = None, as_pendingChoice = None,
          as_createdAt = now, as_updatedAt = now, as_finishedAt = None\<rparr>]\<rparr>))"

definition dao_getSession :: "string \<Rightarrow> int option \<Rightarrow> sessions \<Rightarrow> AgentSessionOrm option" where
  "dao_getSession sessionId userId db =
     List.find (\<lambda>s. as_sessionId s = sessionId \<and>
       (case userId of None \<Rightarrow> True | Some u \<Rightarrow> as_userId s = u \<or> as_userId s = 0)) (sd_sessions db)"

text \<open>\<open>LIKE\<close> of SQLite: \<open>%\<close> is any text, \<open>_\<close> any character, and ASCII letters match in both cases.\<close>

definition fold_case :: "nat \<Rightarrow> nat" where
  "fold_case c = (if 65 \<le> c \<and> c \<le> 90 then c + 32 else c)"

fun sql_like :: "utext \<Rightarrow> utext \<Rightarrow> bool" where
  "sql_like [] text = (text = [])"
| "sql_like (p # ps) text =
     (if p = 37 then list_ex (sql_like ps) (suffixes text)
      else case text of [] \<Rightarrow> False | c # cs \<Rightarrow> (p = 95 \<or> fold_case p = fold_case c) \<and> sql_like ps cs)"

definition visible_sessions :: "int \<Rightarrow> string option \<Rightarrow> utext option \<Rightarrow> sessions \<Rightarrow> AgentSessionOrm list" where
  "visible_sessions userId status kw db =
     filter (\<lambda>s. (as_userId s = userId \<or> as_userId s = 0) \<and>
       (case status of Some v \<Rightarrow> v \<noteq> [] \<longrightarrow> as_status s = v | None \<Rightarrow> True) \<and>
       (case kw of Some k \<Rightarrow> k \<noteq> [] \<longrightarrow> sql_like ([37] @ k @ [37]) (as_title s) | None \<Rightarrow> True)) (sd_sessions db)"

definition dao_listSessions ::
  "int \<Rightarrow> int \<Rightarrow> nat \<Rightarrow> string option \<Rightarrow> utext option \<Rightarrow> sessions \<Rightarrow> nat \<times> AgentSessionOrm list" where
  "dao_listSessions userId page pageSize status kw db =
     (let rows = visible_sessions userId status kw db
      in (length rows, take pageSize (drop (nat (max (page - 1) 0) * pageSize) (sort_key (\<lambda>s. - as_updatedAt s) rows))))"

text \<open>\<open>UPDATE ... WHERE sessionId = ...\<close>, with the number of rows.\<close>

definition update_session ::
  "string \<Rightarrow> (AgentSessionOrm \<Rightarrow> AgentSessionOrm) \<Rightarrow> timestamp \<Rightarrow> sessions \<Rightarrow> nat \<times> sessions" where
  "update_session sessionId f now db =
     (length (filter (\<lambda>s. as_sessionId s = sessionId) (sd_sessions db)),
      db\<lparr>sd_sessions := map (\<lambda>s. if as_sessionId s = sessionId then (f s)\<lparr>as_updatedAt := now\<rparr> else s) (sd_sessions db)\<rparr>)"

definition session_updateStatus :: "string \<Rightarrow> string \<Rightarrow> utext option \<Rightarrow> bool \<Rightarrow> timestamp \<Rightarrow> sessions \<Rightarrow> nat \<times> sessions" where
  "session_updateStatus sessionId status lastError finished now db =
     update_session sessionId
       (\<lambda>s. s\<lparr>as_status := status, as_lastError := (case lastError of Some e \<Rightarrow> Some e | None \<Rightarrow> as_lastError s),
              as_finishedAt := (if finished then Some now else as_finishedAt s)\<rparr>) now db"

definition updateMode :: "string \<Rightarrow> string \<Rightarrow> timestamp \<Rightarrow> sessions \<Rightarrow> nat \<times> sessions" where
  "updateMode sessionId mode now db = update_session sessionId (\<lambda>s. s\<lparr>as_mode := mode\<rparr>) now db"

definition getSessionStatus :: "string \<Rightarrow> sessions \<Rightarrow> string option" where
  "getSessionStatus sessionId db = map_option as_status (List.find (\<lambda>s. as_sessionId s = sessionId) (sd_sessions db))"

definition updatePendingApproval :: "string \<Rightarrow> pending_approval option \<Rightarrow> timestamp \<Rightarrow> sessions \<Rightarrow> nat \<times> sessions" where
  "updatePendingApproval sessionId data now db = update_session sessionId (\<lambda>s. s\<lparr>as_pendingApproval := data\<rparr>) now db"

definition getPendingApproval :: "string \<Rightarrow> sessions \<Rightarrow> pending_approval option" where
  "getPendingApproval sessionId db = Option.bind (List.find (\<lambda>s. as_sessionId s = sessionId) (sd_sessions db)) as_pendingApproval"

definition updatePendingChoice :: "string \<Rightarrow> pending_choice option \<Rightarrow> timestamp \<Rightarrow> sessions \<Rightarrow> nat \<times> sessions" where
  "updatePendingChoice sessionId data now db = update_session sessionId (\<lambda>s. s\<lparr>as_pendingChoice := data\<rparr>) now db"

definition getPendingChoice :: "string \<Rightarrow> sessions \<Rightarrow> pending_choice option" where
  "getPendingChoice sessionId db = Option.bind (List.find (\<lambda>s. as_sessionId s = sessionId) (sd_sessions db)) as_pendingChoice"

definition updateSessionTitle :: "string \<Rightarrow> utext \<Rightarrow> timestamp \<Rightarrow> sessions \<Rightarrow> nat \<times> sessions" where
  "updateSessionTitle sessionId title now db = update_session sessionId (\<lambda>s. s\<lparr>as_title := title\<rparr>) now db"

definition dao_markRead :: "string \<Rightarrow> timestamp \<Rightarrow> sessions \<Rightarrow> bool \<times> sessions" where
  "dao_markRead sessionId now db =
     (let unread = (\<lambda>s. as_sessionId s = sessionId \<and> as_status s = ''completed_unread'')
      in (filter unread (sd_sessions db) \<noteq> [],
          db\<lparr>sd_sessions := map (\<lambda>s. if unread s then s\<lparr>as_status := ''idle'', as_updatedAt := now\<rparr> else s) (sd_sessions db)\<rparr>))"

definition dao_deleteSession :: "string \<Rightarrow> int \<Rightarrow> sessions \<Rightarrow> nat \<times> sessions" where
  "dao_deleteSession sessionId userId db =
     (if \<exists>s\<in>set (sd_sessions db). as_sessionId s = sessionId \<and> as_userId s = userId
      then (1, db\<lparr>sd_messages := filter (\<lambda>m. am_sessionId m \<noteq> sessionId) (sd_messages db),
                  sd_sessions := filter (\<lambda>s. \<not> (as_sessionId s = sessionId \<and> as_userId s = userId)) (sd_sessions db)\<rparr>)
      else (0, db))"

section \<open>Messages\<close>

abbreviation session_messages :: "string \<Rightarrow> sessions \<Rightarrow> AgentMessageOrm list" where
  "session_messages sessionId db \<equiv> filter (\<lambda>m. am_sessionId m = sessionId) (sd_messages db)"

definition getMaxRoundIndex :: "string \<Rightarrow> sessions \<Rightarrow> int" where
  "getMaxRoundIndex sessionId db =
     (case session_messages sessionId db of [] \<Rightarrow> 0 | ms \<Rightarrow> Max (set (map am_roundIndex ms)))"

definition getNextRoundIndex :: "string \<Rightarrow> sessions \<Rightarrow> int" where
  "getNextRoundIndex sessionId db =
     (case session_messages sessionId db of [] \<Rightarrow> 1 | ms \<Rightarrow> Max (set (map am_roundIndex ms)) + 1)"

definition getUserMessageForRound :: "string \<Rightarrow> int \<Rightarrow> sessions \<Rightarrow> utext option" where
  "getUserMessageForRound sessionId roundIndex db =
     (case sort_key am_messageId (filter (\<lambda>m. am_roundIndex m = roundIndex \<and> am_role m = ''user'') (session_messages sessionId db)) of
        [] \<Rightarrow> None | m # _ \<Rightarrow> am_content m)"

definition delete_messages :: "string \<Rightarrow> (AgentMessageOrm \<Rightarrow> bool) \<Rightarrow> timestamp \<Rightarrow> sessions \<Rightarrow> nat \<times> sessions" where
  "delete_messages sessionId P now db =
     (length (filter P (session_messages sessionId db)),
      snd (update_session sessionId id now (db\<lparr>sd_messages := filter (\<lambda>m. \<not> (am_sessionId m = sessionId \<and> P m)) (sd_messages db)\<rparr>)))"

definition deleteRound :: "string \<Rightarrow> int \<Rightarrow> timestamp \<Rightarrow> sessions \<Rightarrow> nat \<times> sessions" where
  "deleteRound sessionId roundIndex now db = delete_messages sessionId (\<lambda>m. am_roundIndex m = roundIndex) now db"

definition deleteMessagesFrom :: "string \<Rightarrow> int \<Rightarrow> timestamp \<Rightarrow> sessions \<Rightarrow> nat \<times> sessions" where
  "deleteMessagesFrom sessionId messageId now db = delete_messages sessionId (\<lambda>m. am_messageId m \<ge> messageId) now db"

definition next_message_id :: "sessions \<Rightarrow> int" where
  "next_message_id db = (case sd_messages db of [] \<Rightarrow> 1 | ms \<Rightarrow> Max (set (map am_messageId ms)) + 1)"

definition addMessage ::
  "string \<Rightarrow> string \<Rightarrow> utext option \<Rightarrow> string option \<Rightarrow> int \<Rightarrow> string option \<Rightarrow> metadata option \<Rightarrow> timestamp \<Rightarrow> sessions \<Rightarrow> int \<times> sessions" where
  "addMessage sessionId role content traceId roundIndex toolCallId metadata now db =
     (next_message_id db,
      snd (update_session sessionId id now (db\<lparr>sd_messages := sd_messages db @
        [\<lparr>am_messageId = next_message_id db, am_sessionId = sessionId, am_role = role, am_content = content, am_toolCallId = toolCallId,
          am_traceId = traceId, am_roundIndex = roundIndex, am_metadata = metadata\<rparr>]\<rparr>)))"

definition dao_updateToolResponse :: "string \<Rightarrow> string \<Rightarrow> utext \<Rightarrow> sessions \<Rightarrow> nat \<times> sessions" where
  "dao_updateToolResponse sessionId toolCallId newContent db =
     (let hit = (\<lambda>m. am_sessionId m = sessionId \<and> am_role m = ''tool'' \<and> am_toolCallId m = Some toolCallId)
      in (length (filter hit (sd_messages db)),
          db\<lparr>sd_messages := map (\<lambda>m. if hit m then m\<lparr>am_content := Some newContent, am_metadata := None\<rparr> else m) (sd_messages db)\<rparr>))"

definition updateMessageTrace :: "int \<Rightarrow> string \<Rightarrow> sessions \<Rightarrow> nat \<times> sessions" where
  "updateMessageTrace messageId traceId db =
     (length (filter (\<lambda>m. am_messageId m = messageId) (sd_messages db)),
      db\<lparr>sd_messages := map (\<lambda>m. if am_messageId m = messageId then m\<lparr>am_traceId := Some traceId\<rparr> else m) (sd_messages db)\<rparr>)"

definition dao_listMessages :: "string \<Rightarrow> sessions \<Rightarrow> AgentMessageOrm list" where
  "dao_listMessages sessionId db = sort_key am_roundIndex (sort_key am_messageId (session_messages sessionId db))"

definition row_calls :: "AgentMessageOrm \<Rightarrow> tool_block list" where
  "row_calls m = (case am_metadata m of Some (MToolCalls tcs) \<Rightarrow> tcs | _ \<Rightarrow> [])"

definition row_text :: "AgentMessageOrm \<Rightarrow> utext" where
  "row_text m = (case am_content m of Some t \<Rightarrow> t | None \<Rightarrow> [])"

definition row_message :: "AgentMessageOrm \<Rightarrow> History.message" where
  "row_message m =
     (if am_role m = ''assistant'' then
        (if row_text m \<noteq> [] then \<lparr>mg_role = am_role m, mg_content = Some (row_text m), mg_tool_calls = row_calls m, mg_tool_call_id = []\<rparr>
         else if row_calls m \<noteq> [] then \<lparr>mg_role = am_role m, mg_content = None, mg_tool_calls = row_calls m, mg_tool_call_id = []\<rparr>
         else \<lparr>mg_role = am_role m, mg_content = Some [], mg_tool_calls = [], mg_tool_call_id = []\<rparr>)
      else if am_role m = ''tool'' then
        \<lparr>mg_role = am_role m, mg_content = Some (row_text m), mg_tool_calls = [],
         mg_tool_call_id = (case am_toolCallId m of Some i \<Rightarrow> i | None \<Rightarrow> [])\<rparr>
      else \<lparr>mg_role = am_role m, mg_content = Some (row_text m), mg_tool_calls = [], mg_tool_call_id = []\<rparr>)"

definition getRecentConversationHistory :: "string \<Rightarrow> sessions \<Rightarrow> History.message list" where
  "getRecentConversationHistory sessionId db = map row_message (sort_key am_messageId (session_messages sessionId db))"

section \<open>What a turn stores\<close>

text \<open>
  The consumer of the event stream stops after the first \<open>DONE\<close> or \<open>ERROR\<close>.
\<close>

fun consumed :: "event list \<Rightarrow> event list" where
  "consumed [] = []"
| "consumed (e # es) = e # (case e of EvDone \<Rightarrow> [] | EvError _ \<Rightarrow> [] | _ \<Rightarrow> consumed es)"

record turn =
  tu_db :: sessions
  tu_parts :: "utext list"

definition on_db :: "(sessions \<Rightarrow> 'a \<times> sessions) \<Rightarrow> turn \<Rightarrow> turn" where
  "on_db f tu = tu\<lparr>tu_db := snd (f (tu_db tu))\<rparr>"

definition PLAN_STARTED :: utext where
  "PLAN_STARTED = [91, 35745, 21010, 24050, 25209, 20934, 65292, 24320, 22987, 25191, 34892, 93]"

definition PLAN_REFUSED :: utext where
  "PLAN_REFUSED = [91, 35745, 21010, 34987, 25298, 32477, 93]"

definition refused_text :: "utext \<Rightarrow> utext" where
  "refused_text reason = (if reason \<noteq> [] then PLAN_REFUSED @ [32] @ reason else PLAN_REFUSED)"

text \<open>The branches on the type of an event in \<open>_runAgentLoop\<close>; \<open>36229, 26102\<close> is the word for a timeout.\<close>

definition persist_event :: "timestamp \<Rightarrow> string \<Rightarrow> string option \<Rightarrow> int \<Rightarrow> event \<Rightarrow> turn \<Rightarrow> turn" where
  "persist_event now sid traceId roundIndex e tu =
     (case e of
        EvTextDelta content \<Rightarrow> tu\<lparr>tu_parts := tu_parts tu @ [content]\<rparr>
      | EvToolCalling toolCalls usage \<Rightarrow>
          if toolCalls \<noteq> [] then on_db (addMessage sid ''assistant'' None traceId roundIndex None (Some (MToolCalls toolCalls)) now) tu else tu
      | EvToolResult call_id tool_name success output \<Rightarrow>
          on_db (addMessage sid ''tool'' (Some output) traceId roundIndex (Some call_id) (Some (MToolName tool_name)) now) tu
      | EvApprovalRequired tool_name args actionId reason ai_reason call_id \<Rightarrow>
          on_db (updatePendingApproval sid (Some \<lparr>pa_action_id = actionId, pa_tool_name = tool_name, pa_arguments = args, pa_reason = reason,
                   pa_ai_reason = ai_reason, pa_call_id = call_id\<rparr>) now) (on_db (session_updateStatus sid ''waiting_approval'' None False now) tu)
      | EvApprovalResolved actionId approved reason \<Rightarrow>
          on_db (updatePendingApproval sid None now) (on_db (session_updateStatus sid ''running'' None False now) tu)
      | EvError msg \<Rightarrow>
          on_db (updatePendingApproval sid None now) (on_db (session_updateStatus sid ''error'' (Some msg) False now) tu)
      | EvChoiceRequired question options actionId \<Rightarrow>
          on_db (updatePendingChoice sid (Some \<lparr>pc_action_id = actionId, pc_question = question, pc_options = options\<rparr>) now)
            (on_db (session_updateStatus sid ''waiting_choice'' None False now) tu)
      | EvChoiceResolved actionId selection custom \<Rightarrow>
          on_db (updatePendingChoice sid None now) (on_db (session_updateStatus sid ''running'' None False now) tu)
      | EvPlanProposed plan \<Rightarrow> on_db (session_updateStatus sid ''waiting_plan'' None False now) tu
      | EvPlanApproved plan call_id \<Rightarrow>
          (let tu = on_db (session_updateStatus sid ''running'' None False now) (on_db (updateMode sid ''agent'' now) tu)
           in if call_id \<noteq> [] then on_db (dao_updateToolResponse sid call_id PLAN_STARTED) tu else tu)
      | EvPlanRejected reason call_id \<Rightarrow>
          (let tu = on_db (session_updateStatus sid ''running'' None False now) tu;
               tu = (if call_id \<noteq> [] then on_db (dao_updateToolResponse sid call_id (refused_text reason)) tu else tu)
           in if sublist [36229, 26102] reason then on_db (updateMode sid ''agent'' now) tu else tu)
      | EvDone \<Rightarrow> on_db (updatePendingApproval sid None now) tu
      | _ \<Rightarrow> tu)"

text \<open>
  One turn of \<open>_runAgentLoop\<close>: the message of the user, the events of the agent, the text of the answer.
  \<open>err\<close> is the text of an exception of the run, which ends the turn without the answer.
\<close>

definition run_turn :: "timestamp \<Rightarrow> string \<Rightarrow> string \<Rightarrow> utext \<Rightarrow> event list \<Rightarrow> utext option \<Rightarrow> sessions \<Rightarrow> sessions" where
  "run_turn now sid traceId msg events err db =
     (let roundIndex = getNextRoundIndex sid db;
          (userMessageId, db) = addMessage sid ''user'' (Some msg) None roundIndex None None now db;
          db = (if events \<noteq> [] then snd (updateMessageTrace userMessageId traceId db) else db);
          tu = fold (persist_event now sid (Some traceId) roundIndex) (consumed events) \<lparr>tu_db = db, tu_parts = []\<rparr>;
          finalText = ustrip (concat (tu_parts tu))
      in case err of
           Some text \<Rightarrow> snd (session_updateStatus sid ''error'' (Some text) False now (tu_db tu))
         | None \<Rightarrow>
             if finalText \<noteq> []
             then snd (addMessage sid ''assistant'' (Some finalText) (if events \<noteq> [] then Some traceId else None) roundIndex None None now (tu_db tu))
             else tu_db tu)"

section \<open>Operations of a user\<close>

datatype session_error = NoSession | NoProfile | BadMode | DataBaseFailure

definition AGENT_MODES :: "string list" where
  "AGENT_MODES = [''read_only'', ''plan'', ''agent'', ''break_glass'', ''executing'']"

definition getSession :: "string \<Rightarrow> int \<Rightarrow> sessions \<Rightarrow> session_error + AgentSessionOrm" where
  "getSession sid userId db = (case dao_getSession sid (Some userId) db of None \<Rightarrow> Inl NoSession | Some s \<Rightarrow> Inr s)"

definition service_createSession ::
  "timestamp \<Rightarrow> string \<Rightarrow> pyval option \<Rightarrow> int \<Rightarrow> AgentSessionCreate \<Rightarrow> sessions \<Rightarrow> (session_error + string) \<times> sessions" where
  "service_createSession now newId projectServers userId req db =
     (let resolved = (if ac_toolSource req = ''stdio'' \<and> \<not> (case ac_mcpServers req of Some v \<Rightarrow> truthy v | None \<Rightarrow> False)
                      then (case projectServers of Some v \<Rightarrow> if truthy v then req\<lparr>ac_mcpServers := Some v\<rparr> else req | None \<Rightarrow> req)
                      else req)
      in case createSession now newId userId resolved db of
           None \<Rightarrow> (Inl DataBaseFailure, db)
         | Some db' \<Rightarrow> (Inr newId, db'))"

definition listMessages :: "string \<Rightarrow> int \<Rightarrow> sessions \<Rightarrow> session_error + AgentMessageOrm list" where
  "listMessages sid userId db =
     (case dao_getSession sid (Some userId) db of None \<Rightarrow> Inl NoSession | Some s \<Rightarrow> Inr (dao_listMessages sid db))"

definition deleteSession :: "string \<Rightarrow> int \<Rightarrow> sessions \<Rightarrow> session_error option \<times> sessions" where
  "deleteSession sid userId db =
     (let (rowCount, db) = dao_deleteSession sid userId db in (if rowCount = 0 then Some NoSession else None, db))"

definition guarded_update ::
  "string \<Rightarrow> int \<Rightarrow> (AgentSessionOrm \<Rightarrow> AgentSessionOrm) \<Rightarrow> timestamp \<Rightarrow> sessions \<Rightarrow> (session_error + AgentSessionOrm) \<times> sessions" where
  "guarded_update sid userId f now db =
     (let (rowCount, db') = update_session sid f now db
      in if rowCount = 0 then (Inl NoSession, db') else (getSession sid userId db', db'))"

definition switchToolSource ::
  "string \<Rightarrow> int \<Rightarrow> string \<Rightarrow> pyval option \<Rightarrow> timestamp \<Rightarrow> sessions \<Rightarrow> (session_error + AgentSessionOrm) \<times> sessions" where
  "switchToolSource sid userId toolSource mcpServers now db =
     (case getSession sid userId db of
        Inl e \<Rightarrow> (Inl e, db)
      | Inr s \<Rightarrow>
          guarded_update sid userId
            (\<lambda>s. s\<lparr>as_toolSource := toolSource,
                   as_mcpServers := (case mcpServers of None \<Rightarrow> as_mcpServers s | Some v \<Rightarrow> if truthy v then Some v else None)\<rparr>) now db)"

definition switchModel ::
  "(int \<Rightarrow> bool) \<Rightarrow> string \<Rightarrow> int \<Rightarrow> int \<Rightarrow> timestamp \<Rightarrow> sessions \<Rightarrow> (session_error + AgentSessionOrm) \<times> sessions" where
  "switchModel active sid userId profileId now db =
     (case getSession sid userId db of
        Inl e \<Rightarrow> (Inl e, db)
      | Inr s \<Rightarrow>
          if \<not> active profileId then (Inl NoProfile, db)
          else guarded_update sid userId (\<lambda>s. s\<lparr>as_profileId := Some profileId\<rparr>) now db)"

definition switchMode :: "string \<Rightarrow> int \<Rightarrow> string \<Rightarrow> timestamp \<Rightarrow> sessions \<Rightarrow> (session_error + AgentSessionOrm) \<times> sessions" where
  "switchMode sid userId mode now db =
     (case getSession sid userId db of
        Inl e \<Rightarrow> (Inl e, db)
      | Inr s \<Rightarrow>
          if mode \<notin> set AGENT_MODES then (Inl BadMode, db)
          else guarded_update sid userId (\<lambda>s. s\<lparr>as_mode := mode\<rparr>) now db)"

definition markRead :: "string \<Rightarrow> int \<Rightarrow> timestamp \<Rightarrow> sessions \<Rightarrow> (session_error + AgentSessionOrm) \<times> sessions" where
  "markRead sid userId now db =
     (case getSession sid userId db of
        Inl e \<Rightarrow> (Inl e, db)
      | Inr s \<Rightarrow> (let (_, db) = dao_markRead sid now db in (getSession sid userId db, db)))"

datatype user_op =
    UCreate string "pyval option" AgentSessionCreate
  | UDelete string
  | UToolSource string string "pyval option"
  | UModel string int
  | UMode string string
  | UMarkRead string

fun user_step :: "(int \<Rightarrow> bool) \<Rightarrow> int \<Rightarrow> timestamp \<Rightarrow> user_op \<Rightarrow> sessions \<Rightarrow> sessions" where
  "user_step active u now (UCreate newId servers req) db = snd (service_createSession now newId servers u req db)"
| "user_step active u now (UDelete sid) db = snd (deleteSession sid u db)"
| "user_step active u now (UToolSource sid src servers) db = snd (switchToolSource sid u src servers now db)"
| "user_step active u now (UModel sid p) db = snd (switchModel active sid u p now db)"
| "user_step active u now (UMode sid mode) db = snd (switchMode sid u mode now db)"
| "user_step active u now (UMarkRead sid) db = snd (markRead sid u now db)"

text \<open>After the loop the status is \<open>idle\<close>, also when the last turn failed.\<close>

definition finish_loop :: "timestamp \<Rightarrow> string \<Rightarrow> sessions \<Rightarrow> sessions" where
  "finish_loop now sid db = snd (session_updateStatus sid ''idle'' None False now db)"

section \<open>Lemmas: the tables\<close>

definition db_ok :: "sessions \<Rightarrow> bool" where
  "db_ok db \<longleftrightarrow> sorted_wrt (<) (map am_messageId (sd_messages db)) \<and> distinct (map as_sessionId (sd_sessions db))"

lemma update_session_simps [simp]:
  "sd_messages (snd (update_session sid f now db)) = sd_messages db"
  by (simp add: update_session_def)

lemma session_ids_update:
  "(\<And>s. as_sessionId (f s) = as_sessionId s) \<Longrightarrow>
   map as_sessionId (sd_sessions (snd (update_session sid f now db))) = map as_sessionId (sd_sessions db)"
  by (simp add: update_session_def)

named_theorems session_defs

lemmas [session_defs] = session_updateStatus_def updateMode_def updatePendingApproval_def updatePendingChoice_def updateSessionTitle_def

lemma db_ok_update: "db_ok db \<Longrightarrow> (\<And>s. as_sessionId (f s) = as_sessionId s) \<Longrightarrow> db_ok (snd (update_session sid f now db))"
  by (simp add: db_ok_def session_ids_update)

lemma messages_updates [simp]:
  "sd_messages (snd (session_updateStatus sid s e fin now db)) = sd_messages db"
  "sd_messages (snd (updateMode sid m now db)) = sd_messages db"
  "sd_messages (snd (updatePendingApproval sid a now db)) = sd_messages db"
  "sd_messages (snd (updatePendingChoice sid c now db)) = sd_messages db"
  by (simp_all add: session_defs)

lemma db_ok_updates [simp]:
  "db_ok db \<Longrightarrow> db_ok (snd (session_updateStatus sid s e fin now db))"
  "db_ok db \<Longrightarrow> db_ok (snd (updateMode sid m now db))"
  "db_ok db \<Longrightarrow> db_ok (snd (updatePendingApproval sid a now db))"
  "db_ok db \<Longrightarrow> db_ok (snd (updatePendingChoice sid c now db))"
  by (simp_all add: session_defs db_ok_update)

lemma next_id_greater: "m \<in> set (sd_messages db) \<Longrightarrow> am_messageId m < next_message_id db"
proof -
  assume m: "m \<in> set (sd_messages db)"
  then have "am_messageId m \<le> Max (set (map am_messageId (sd_messages db)))" by simp
  with m show ?thesis by (auto simp: next_message_id_def split: list.splits)
qed

definition new_row :: "string \<Rightarrow> string \<Rightarrow> utext option \<Rightarrow> string option \<Rightarrow> int \<Rightarrow> string option \<Rightarrow> metadata option \<Rightarrow> sessions \<Rightarrow> AgentMessageOrm" where
  "new_row sid role content traceId r toolCallId metadata db =
     \<lparr>am_messageId = next_message_id db, am_sessionId = sid, am_role = role, am_content = content, am_toolCallId = toolCallId,
      am_traceId = traceId, am_roundIndex = r, am_metadata = metadata\<rparr>"

lemma addMessage_messages [simp]:
  "sd_messages (snd (addMessage sid role content traceId r toolCallId metadata now db)) =
   sd_messages db @ [new_row sid role content traceId r toolCallId metadata db]"
  by (simp add: addMessage_def new_row_def)

lemma db_ok_addMessage [simp]:
  "db_ok db \<Longrightarrow> db_ok (snd (addMessage sid role content traceId r toolCallId metadata now db))"
  using next_id_greater [of _ db] by (auto simp: db_ok_def sorted_wrt_append new_row_def addMessage_def session_ids_update)

lemma new_row_simps [simp]:
  "am_sessionId (new_row sid role content traceId r tcid md db) = sid" "am_roundIndex (new_row sid role content traceId r tcid md db) = r"
  "am_role (new_row sid role content traceId r tcid md db) = role" "am_content (new_row sid role content traceId r tcid md db) = content"
  "am_messageId (new_row sid role content traceId r tcid md db) = next_message_id db"
  "am_toolCallId (new_row sid role content traceId r tcid md db) = tcid" "am_metadata (new_row sid role content traceId r tcid md db) = md"
  by (simp_all add: new_row_def)

lemma map_messages_ok: "db_ok db \<Longrightarrow> (\<And>m. am_messageId (f m) = am_messageId m) \<Longrightarrow> db_ok (db\<lparr>sd_messages := map f (sd_messages db)\<rparr>)"
  by (simp add: db_ok_def comp_def)

lemma db_ok_rewrites [simp]:
  "db_ok db \<Longrightarrow> db_ok (snd (dao_updateToolResponse sid cid text db))"
  "db_ok db \<Longrightarrow> db_ok (snd (updateMessageTrace i t db))"
  by (simp_all add: dao_updateToolResponse_def updateMessageTrace_def Let_def map_messages_ok)

lemma sort_messages: "sorted_wrt (<) (map am_messageId ms) \<Longrightarrow> sort_key am_messageId (filter P ms) = filter P ms"
  by (intro sort_key_id_if_sorted sorted_filter) (simp add: strict_sorted_imp_sorted)

lemma history_rows: "db_ok db \<Longrightarrow> getRecentConversationHistory sid db = map row_message (session_messages sid db)"
  by (simp add: getRecentConversationHistory_def db_ok_def sort_messages)

section \<open>Lemmas: a turn\<close>

text \<open>The conversation a turn is meant to leave: one message for each event that speaks or acts.\<close>

definition update_answers :: "string \<Rightarrow> utext \<Rightarrow> History.message list \<Rightarrow> History.message list" where
  "update_answers cid text ms = map (\<lambda>m. if mg_role m = ''tool'' \<and> mg_tool_call_id m = cid then m\<lparr>mg_content := Some text\<rparr> else m) ms"

fun event_effect :: "event \<Rightarrow> History.message list \<Rightarrow> History.message list" where
  "event_effect (EvToolCalling tcs usage) ms =
     (if tcs \<noteq> [] then ms @ [\<lparr>mg_role = ''assistant'', mg_content = None, mg_tool_calls = tcs, mg_tool_call_id = []\<rparr>] else ms)"
| "event_effect (EvToolResult cid name ok out) ms =
     ms @ [\<lparr>mg_role = ''tool'', mg_content = Some out, mg_tool_calls = [], mg_tool_call_id = cid\<rparr>]"
| "event_effect (EvPlanApproved plan cid) ms = (if cid \<noteq> [] then update_answers cid PLAN_STARTED ms else ms)"
| "event_effect (EvPlanRejected reason cid) ms = (if cid \<noteq> [] then update_answers cid (refused_text reason) ms else ms)"
| "event_effect e ms = ms"

fun event_text :: "event \<Rightarrow> utext" where
  "event_text (EvTextDelta t) = t"
| "event_text e = []"

definition turn_effect :: "utext \<Rightarrow> event list \<Rightarrow> utext option \<Rightarrow> History.message list \<Rightarrow> History.message list" where
  "turn_effect msg events err ms =
     (let ms = fold event_effect (consumed events) (ms @ [say ''user'' msg]);
          text = ustrip (concat (map event_text (consumed events)))
      in if err = None \<and> text \<noteq> [] then ms @ [say ''assistant'' text] else ms)"

lemma row_message_simps [simp]: "mg_role (row_message m) = am_role m"
  by (simp add: row_message_def)

lemma rewritten_row:
  "am_role m = ''tool'' \<Longrightarrow> row_message (m\<lparr>am_content := Some text, am_metadata := None\<rparr>) = (row_message m)\<lparr>mg_content := Some text\<rparr>"
  by (simp add: row_message_def row_text_def)

lemma tool_row_id:
  "cid \<noteq> [] \<Longrightarrow> am_role m = ''tool'' \<Longrightarrow> mg_tool_call_id (row_message m) = cid \<longleftrightarrow> am_toolCallId m = Some cid"
  by (auto simp: row_message_def split: option.splits)

lemma updateToolResponse_rows:
  "session_messages sid' (snd (dao_updateToolResponse sid cid text db)) =
   map (\<lambda>m. if am_sessionId m = sid \<and> am_role m = ''tool'' \<and> am_toolCallId m = Some cid then m\<lparr>am_content := Some text, am_metadata := None\<rparr> else m)
     (session_messages sid' db)"
  by (auto simp: dao_updateToolResponse_def Let_def filter_map comp_def intro!: arg_cong [where f = "map _"] filter_cong)

lemma updateToolResponse_history:
  assumes "cid \<noteq> []"
  shows "map row_message (session_messages sid (snd (dao_updateToolResponse sid cid text db))) =
    update_answers cid text (map row_message (session_messages sid db))"
proof -
  have "row_message (if am_sessionId m = sid \<and> am_role m = ''tool'' \<and> am_toolCallId m = Some cid
        then m\<lparr>am_content := Some text, am_metadata := None\<rparr> else m) =
      (if mg_role (row_message m) = ''tool'' \<and> mg_tool_call_id (row_message m) = cid
       then (row_message m)\<lparr>mg_content := Some text\<rparr> else row_message m)" if "am_sessionId m = sid" for m
    using that tool_row_id [OF assms, of m] rewritten_row [of m "text"] by (cases "am_role m = ''tool''") simp_all
  then show ?thesis by (simp add: updateToolResponse_rows update_answers_def)
qed

lemma updateToolResponse_other: "sid' \<noteq> sid \<Longrightarrow> session_messages sid' (snd (dao_updateToolResponse sid cid text db)) = session_messages sid' db"
  by (auto simp: updateToolResponse_rows intro!: map_idI)

lemma tu_on_db [simp]: "tu_db (on_db f tu) = snd (f (tu_db tu))" "tu_parts (on_db f tu) = tu_parts tu"
  by (simp_all add: on_db_def)

lemma persist_event_ok: "db_ok (tu_db tu) \<Longrightarrow> db_ok (tu_db (persist_event now sid tr r e tu))"
  by (cases e) (simp_all add: persist_event_def Let_def)

lemma persist_event_effect:
  "map row_message (session_messages sid (tu_db (persist_event now sid tr r e tu))) =
     event_effect e (map row_message (session_messages sid (tu_db tu)))"
  "tu_parts (persist_event now sid tr r e tu) = tu_parts tu @ (case e of EvTextDelta t \<Rightarrow> [t] | _ \<Rightarrow> [])"
  "sid' \<noteq> sid \<Longrightarrow> session_messages sid' (tu_db (persist_event now sid tr r e tu)) = session_messages sid' (tu_db tu)"
  by (cases e; simp add: persist_event_def Let_def updateToolResponse_history updateToolResponse_other; simp add: row_message_def row_text_def row_calls_def)+

lemma persist_events_ok: "db_ok (tu_db tu) \<Longrightarrow> db_ok (tu_db (fold (persist_event now sid tr r) es tu))"
  by (induction es arbitrary: tu) (simp_all add: persist_event_ok)

lemma persist_events_effect:
  "map row_message (session_messages sid (tu_db (fold (persist_event now sid tr r) es tu))) =
     fold event_effect es (map row_message (session_messages sid (tu_db tu)))"
  by (induction es arbitrary: tu) (simp_all add: persist_event_effect(1))

lemma persist_events_text:
  "concat (tu_parts (fold (persist_event now sid tr r) es tu)) = concat (tu_parts tu) @ concat (map event_text es)"
proof (induction es arbitrary: tu)
  case (Cons e es)
  then show ?case by (cases e) (simp_all add: persist_event_effect(2))
qed simp

lemma persist_events_other:
  "sid' \<noteq> sid \<Longrightarrow> session_messages sid' (tu_db (fold (persist_event now sid tr r) es tu)) = session_messages sid' (tu_db tu)"
  by (induction es arbitrary: tu) (simp_all add: persist_event_effect(3))

lemma updateMessageTrace_rows:
  "map row_message (session_messages sid (snd (updateMessageTrace i t db))) = map row_message (session_messages sid db)"
proof -
  have "session_messages sid (snd (updateMessageTrace i t db)) =
      map (\<lambda>m. if am_messageId m = i then m\<lparr>am_traceId := Some t\<rparr> else m) (session_messages sid db)"
    by (auto simp: updateMessageTrace_def filter_map comp_def intro!: arg_cong [where f = "map _"] filter_cong)
  moreover have "row_message (if am_messageId m = i then m\<lparr>am_traceId := Some t\<rparr> else m) = row_message m" for m
    by (simp add: row_message_def row_text_def row_calls_def)
  ultimately show ?thesis by (simp add: comp_def)
qed

text \<open>The tables after the message of the user, before the events of the agent.\<close>

definition turn_start :: "timestamp \<Rightarrow> string \<Rightarrow> string \<Rightarrow> utext \<Rightarrow> event list \<Rightarrow> sessions \<Rightarrow> sessions" where
  "turn_start now sid traceId msg events db =
     (let (i, db') = addMessage sid ''user'' (Some msg) None (getNextRoundIndex sid db) None None now db
      in if events \<noteq> [] then snd (updateMessageTrace i traceId db') else db')"

lemma turn_start_ok: "db_ok db \<Longrightarrow> db_ok (turn_start now sid tr msg events db)"
  by (simp add: turn_start_def case_prod_unfold Let_def)

lemma turn_start_rows:
  "map row_message (session_messages sid' (turn_start now sid tr msg events db)) =
   map row_message (session_messages sid' db) @ (if sid' = sid then [say ''user'' msg] else [])"
  by (auto simp: turn_start_def case_prod_unfold updateMessageTrace_rows Let_def) (simp_all add: row_message_def row_text_def)

lemma run_turn_alt:
  "run_turn now sid tr msg events err db =
     (let tu = fold (persist_event now sid (Some tr) (getNextRoundIndex sid db)) (consumed events)
                 \<lparr>tu_db = turn_start now sid tr msg events db, tu_parts = []\<rparr>
      in case err of
           Some text \<Rightarrow> snd (session_updateStatus sid ''error'' (Some text) False now (tu_db tu))
         | None \<Rightarrow>
             if ustrip (concat (tu_parts tu)) \<noteq> []
             then snd (addMessage sid ''assistant'' (Some (ustrip (concat (tu_parts tu)))) (if events \<noteq> [] then Some tr else None)
                    (getNextRoundIndex sid db) None None now (tu_db tu))
             else tu_db tu)"
  by (simp add: run_turn_def turn_start_def Let_def case_prod_unfold)

lemma run_turn_ok: "db_ok db \<Longrightarrow> db_ok (run_turn now sid tr msg events err db)"
  unfolding run_turn_alt Let_def by (auto simp: persist_events_ok turn_start_ok split: option.splits)

section \<open>Lemmas: rows of a turn\<close>

text \<open>Plan events rewrite answers; those of a turn name calls of this turn.\<close>

definition rewritten_ids :: "event list \<Rightarrow> string set" where
  "rewritten_ids es = {cid. \<exists>plan reason. EvPlanApproved plan cid \<in> set es \<or> EvPlanRejected reason cid \<in> set es}"

definition row_answers :: "string \<Rightarrow> sessions \<Rightarrow> string set" where
  "row_answers sid db = {cid. \<exists>m\<in>set (session_messages sid db). am_role m = ''tool'' \<and> am_toolCallId m = Some cid}"

definition turn_rows :: "AgentMessageOrm list \<Rightarrow> int \<Rightarrow> utext \<Rightarrow> AgentMessageOrm list \<Rightarrow> bool" where
  "turn_rows base r msg rows \<longleftrightarrow>
     (\<exists>u new. rows = base @ u # new \<and> am_role u = ''user'' \<and> am_content u = Some msg \<and> am_roundIndex u = r \<and>
        (\<forall>m\<in>set new. am_roundIndex m = r \<and> am_role m \<in> {''assistant'', ''tool''}))"

lemma turn_rows_snoc:
  assumes "turn_rows base r msg rows" "am_roundIndex m = r" "am_role m \<in> {''assistant'', ''tool''}"
  shows "turn_rows base r msg (rows @ [m])"
proof -
  obtain u new where "rows = base @ u # new" "am_role u = ''user''" "am_content u = Some msg" "am_roundIndex u = r"
    "\<forall>m\<in>set new. am_roundIndex m = r \<and> am_role m \<in> {''assistant'', ''tool''}" using assms(1) by (auto simp: turn_rows_def)
  with assms(2,3) show ?thesis unfolding turn_rows_def by (intro exI [of _ u] exI [of _ "new @ [m]"]) auto
qed

lemma turn_rows_rewrite:
  assumes "turn_rows base r msg (session_messages sid db)" "\<And>m. m \<in> set base \<Longrightarrow> am_role m = ''tool'' \<Longrightarrow> am_toolCallId m \<noteq> Some cid"
  shows "turn_rows base r msg (session_messages sid (snd (dao_updateToolResponse sid cid content db)))"
proof -
  obtain u new where u: "session_messages sid db = base @ u # new" "am_role u = ''user''" "am_content u = Some msg" "am_roundIndex u = r"
    "\<forall>m\<in>set new. am_roundIndex m = r \<and> am_role m \<in> {''assistant'', ''tool''}" using assms(1) by (auto simp: turn_rows_def)
  let ?f = "\<lambda>m. if am_sessionId m = sid \<and> am_role m = ''tool'' \<and> am_toolCallId m = Some cid
        then m\<lparr>am_content := Some content, am_metadata := None\<rparr> else m"
  have "map ?f base = base" using assms(2) by (intro map_idI) auto
  then have "session_messages sid (snd (dao_updateToolResponse sid cid content db)) = base @ u # map ?f new"
    using u(1,2) by (simp add: updateToolResponse_rows)
  with u(2-5) show ?thesis unfolding turn_rows_def by (intro exI [of _ u] exI [of _ "map ?f new"]) auto
qed

lemma persist_event_rows:
  assumes "turn_rows base r msg (session_messages sid (tu_db tu))"
    "\<And>m cid. m \<in> set base \<Longrightarrow> am_role m = ''tool'' \<Longrightarrow> am_toolCallId m = Some cid \<Longrightarrow> cid \<notin> rewritten_ids [e]"
  shows "turn_rows base r msg (session_messages sid (tu_db (persist_event now sid tr r e tu)))"
proof (cases e)
  case (EvPlanApproved plan cid)
  have "m \<in> set base \<Longrightarrow> am_role m = ''tool'' \<Longrightarrow> am_toolCallId m \<noteq> Some cid" for m
    using assms(2) [of m cid] EvPlanApproved by (auto simp: rewritten_ids_def)
  with assms(1) EvPlanApproved show ?thesis by (simp add: persist_event_def Let_def turn_rows_rewrite)
next
  case (EvPlanRejected reason cid)
  have "m \<in> set base \<Longrightarrow> am_role m = ''tool'' \<Longrightarrow> am_toolCallId m \<noteq> Some cid" for m
    using assms(2) [of m cid] EvPlanRejected by (auto simp: rewritten_ids_def)
  with assms(1) EvPlanRejected show ?thesis by (simp add: persist_event_def Let_def turn_rows_rewrite)
qed (use assms(1) in \<open>simp_all add: persist_event_def turn_rows_snoc\<close>)

lemma persist_events_rows:
  "turn_rows base r msg (session_messages sid (tu_db tu)) \<Longrightarrow>
   (\<And>m cid. m \<in> set base \<Longrightarrow> am_role m = ''tool'' \<Longrightarrow> am_toolCallId m = Some cid \<Longrightarrow> cid \<notin> rewritten_ids es) \<Longrightarrow>
   turn_rows base r msg (session_messages sid (tu_db (fold (persist_event now sid tr r) es tu)))"
proof (induction es arbitrary: tu)
  case (Cons e es)
  have sub: "rewritten_ids [e] \<subseteq> rewritten_ids (e # es)" "rewritten_ids es \<subseteq> rewritten_ids (e # es)" by (auto simp: rewritten_ids_def)
  have "turn_rows base r msg (session_messages sid (tu_db (persist_event now sid tr r e tu)))"
    by (rule persist_event_rows [OF Cons.prems(1)]) (use Cons.prems(2) sub in blast)
  then have "turn_rows base r msg (session_messages sid (tu_db (fold (persist_event now sid tr r) es (persist_event now sid tr r e tu))))"
    by (rule Cons.IH) (use Cons.prems(2) sub in blast)
  then show ?case by simp
qed simp

lemma turn_start_turn_rows: "turn_rows (session_messages sid db) (getNextRoundIndex sid db) msg (session_messages sid (turn_start now sid tr msg events db))"
proof -
  let ?u = "new_row sid ''user'' (Some msg) None (getNextRoundIndex sid db) None None db"
  let ?db = "snd (addMessage sid ''user'' (Some msg) None (getNextRoundIndex sid db) None None now db)"
  have "map (\<lambda>m. if am_messageId m = next_message_id db then m\<lparr>am_traceId := Some tr\<rparr> else m) (sd_messages db) = sd_messages db"
    using next_id_greater [of _ db] by (intro map_idI) force
  then have "session_messages sid (snd (updateMessageTrace (next_message_id db) tr ?db)) = session_messages sid db @ [?u\<lparr>am_traceId := Some tr\<rparr>]"
    by (simp add: updateMessageTrace_def)
  moreover have "fst (addMessage sid ''user'' (Some msg) None (getNextRoundIndex sid db) None None now db) = next_message_id db"
    by (simp add: addMessage_def)
  ultimately show ?thesis unfolding turn_rows_def by (auto simp: turn_start_def case_prod_unfold Let_def)
qed

lemma rounds_below: "m \<in> set (session_messages sid db) \<Longrightarrow> am_roundIndex m < getNextRoundIndex sid db"
proof -
  assume m: "m \<in> set (session_messages sid db)"
  then have "am_roundIndex m \<le> Max (set (map am_roundIndex (session_messages sid db)))" by (intro Max_ge) auto
  moreover have "getNextRoundIndex sid db = Max (set (map am_roundIndex (session_messages sid db))) + 1"
    using m unfolding getNextRoundIndex_def by (cases "session_messages sid db") auto
  ultimately show ?thesis by simp
qed

lemma max_round: "session_messages sid db \<noteq> [] \<Longrightarrow> getMaxRoundIndex sid db = Max (set (map am_roundIndex (session_messages sid db)))"
  unfolding getMaxRoundIndex_def by (cases "session_messages sid db") (auto simp del: list.set set_map)

lemma run_turn_rows:
  assumes "rewritten_ids (consumed events) \<inter> row_answers sid db = {}"
  shows "turn_rows (session_messages sid db) (getNextRoundIndex sid db) msg (session_messages sid (run_turn now sid tr msg events err db))"
proof -
  let ?tu = "fold (persist_event now sid (Some tr) (getNextRoundIndex sid db)) (consumed events)
    \<lparr>tu_db = turn_start now sid tr msg events db, tu_parts = []\<rparr>"
  have "turn_rows (session_messages sid db) (getNextRoundIndex sid db) msg (session_messages sid (tu_db ?tu))"
    by (rule persist_events_rows) (use turn_start_turn_rows assms in \<open>auto simp: row_answers_def\<close>)
  then show ?thesis unfolding run_turn_alt Let_def
    by (cases err) (simp_all add: turn_rows_snoc)
qed

section \<open>Lemmas: users\<close>

lemma getSession_owner:
  assumes "getSession sid u db = Inr s0" "db_ok db" "s \<in> set (sd_sessions db)" "as_sessionId s = sid"
  shows "as_userId s = u \<or> as_userId s = 0"
proof -
  have s0: "s0 \<in> set (sd_sessions db)" "as_sessionId s0 = sid" "as_userId s0 = u \<or> as_userId s0 = 0"
    using assms(1) by (auto simp: getSession_def dao_getSession_def find_Some_iff split: option.splits)
  with assms(2-4) have "s = s0" unfolding db_ok_def by (metis distinct_map inj_onD)
  with s0 show ?thesis by simp
qed

lemma snd_guarded_update: "snd (guarded_update sid u f now db) = snd (update_session sid f now db)"
  by (simp add: guarded_update_def case_prod_unfold Let_def)

lemma update_other: "s \<in> set (sd_sessions db) \<Longrightarrow> as_sessionId s \<noteq> sid \<Longrightarrow> s \<in> set (sd_sessions (snd (update_session sid f now db)))"
  by (force simp: update_session_def)

lemma guarded_step:
  assumes "db_ok db" "s \<in> set (sd_sessions db)" "as_userId s \<noteq> u" "as_userId s \<noteq> 0" "\<And>s. as_sessionId (f s) = as_sessionId s"
    "getSession sid u db = Inr s0"
  shows "db_ok (snd (guarded_update sid u f now db)) \<and> s \<in> set (sd_sessions (snd (guarded_update sid u f now db))) \<and>
    sd_messages (snd (guarded_update sid u f now db)) = sd_messages db"
  using assms update_other [of s db sid f now] getSession_owner [OF assms(6,1,2)] by (auto simp: snd_guarded_update db_ok_update)

lemma user_step_other:
  assumes ok: "db_ok db" and s: "s \<in> set (sd_sessions db)" "as_userId s \<noteq> u" "as_userId s \<noteq> 0"
  shows "db_ok (user_step active u now op db) \<and> s \<in> set (sd_sessions (user_step active u now op db)) \<and>
    session_messages (as_sessionId s) (user_step active u now op db) = session_messages (as_sessionId s) db"
proof (cases op)
  case (UCreate newId servers req)
  with assms show ?thesis
    by (auto simp: service_createSession_def createSession_def Let_def db_ok_def split: option.splits)
next
  case (UDelete sid)
  have "as_sessionId s \<noteq> sid" if "\<exists>s\<in>set (sd_sessions db). as_sessionId s = sid \<and> as_userId s = u"
    using that ok s unfolding db_ok_def by (metis distinct_map inj_onD)
  moreover have "db_ok (db\<lparr>sd_messages := filter P (sd_messages db), sd_sessions := filter Q (sd_sessions db)\<rparr>)" for P Q
    using ok by (simp add: db_ok_def sorted_wrt_map sorted_wrt_filter distinct_map_filter)
  moreover have "session_messages (as_sessionId s) (db\<lparr>sd_messages := filter (\<lambda>m. am_sessionId m \<noteq> sid) (sd_messages db), sd_sessions := ss\<rparr>) =
      session_messages (as_sessionId s) db" if "as_sessionId s \<noteq> sid" for ss
    using that by (auto intro!: filter_cong)
  ultimately show ?thesis using UDelete ok s by (simp add: deleteSession_def dao_deleteSession_def Let_def)
next
  case (UToolSource sid src servers)
  then show ?thesis using ok s guarded_step [OF ok s] by (auto simp: switchToolSource_def split: sum.splits)
next
  case (UModel sid p)
  then show ?thesis using ok s guarded_step [OF ok s] by (auto simp: switchModel_def split: sum.splits)
next
  case (UMode sid mode)
  then show ?thesis using ok s guarded_step [OF ok s] by (auto simp: switchMode_def split: sum.splits)
next
  case (UMarkRead sid)
  show ?thesis
  proof (cases "getSession sid u db")
    case (Inr s0)
    then have "as_sessionId s \<noteq> sid" using getSession_owner [OF Inr ok s(1)] s(2,3) by blast
    moreover have "map as_sessionId (sd_sessions (snd (dao_markRead sid now db))) = map as_sessionId (sd_sessions db)"
      by (simp add: dao_markRead_def Let_def)
    moreover have "s \<in> set (sd_sessions (snd (dao_markRead sid now db)))" if "as_sessionId s \<noteq> sid"
      using s(1) that by (auto simp: dao_markRead_def Let_def image_iff intro!: bexI [of _ s])
    moreover have "sd_messages (snd (dao_markRead sid now db)) = sd_messages db" by (simp add: dao_markRead_def Let_def)
    ultimately show ?thesis using UMarkRead Inr ok by (simp add: markRead_def Let_def db_ok_def case_prod_unfold)
  qed (use UMarkRead ok s in \<open>simp add: markRead_def\<close>)
qed

definition user_run :: "(int \<Rightarrow> bool) \<Rightarrow> int \<Rightarrow> (timestamp \<times> user_op) list \<Rightarrow> sessions \<Rightarrow> sessions" where
  "user_run active u ops db = fold (\<lambda>(now, op). user_step active u now op) ops db"

section \<open>Properties\<close>

text \<open>
  C19. What the tables hold of a turn is the conversation.  The history that is read back for the next
  turn is the history before, the message of the user, then for each event of the agent, up to the
  first that ends the stream, the message it stands for, and the text of the answer unless the run failed;
  the history of every other session is unchanged.
\<close>

theorem stored_turn:
  assumes "db_ok db"
  shows "getRecentConversationHistory sid' (run_turn now sid traceId msg events err db) =
    (if sid' = sid then turn_effect msg events err (getRecentConversationHistory sid db) else getRecentConversationHistory sid' db)"
proof -
  define tu where "tu = fold (persist_event now sid (Some traceId) (getNextRoundIndex sid db)) (consumed events)
    \<lparr>tu_db = turn_start now sid traceId msg events db, tu_parts = []\<rparr>"
  have parts: "concat (tu_parts tu) = concat (map event_text (consumed events))" by (simp add: tu_def persist_events_text)
  have own: "map row_message (session_messages sid (tu_db tu)) =
      fold event_effect (consumed events) (map row_message (session_messages sid db) @ [say ''user'' msg])"
    unfolding tu_def by (simp only: persist_events_effect) (simp add: turn_start_rows)
  have other: "map row_message (session_messages sid' (tu_db tu)) = map row_message (session_messages sid' db)" if "sid' \<noteq> sid"
    unfolding tu_def using that by (simp add: persist_events_other turn_start_rows)
  have answer: "row_message (new_row sid ''assistant'' (Some t) tr r None None db') = say ''assistant'' t" if "t \<noteq> []" for t tr r db'
    using that by (simp add: row_message_def row_text_def row_calls_def)
  have "map row_message (session_messages sid' (run_turn now sid traceId msg events err db)) =
    (if sid' = sid then turn_effect msg events err (map row_message (session_messages sid db)) else map row_message (session_messages sid' db))"
    unfolding run_turn_alt tu_def [symmetric] Let_def parts turn_effect_def using own other answer by (cases err) simp_all
  then show ?thesis by (simp add: history_rows assms run_turn_ok)
qed

text \<open>
  C29. Regeneration undoes the last turn: after a turn, the largest round is its round, the message of the
  user is found in it, and deleting the round gives back the history before the turn, unless a plan event
  of the turn names a tool call that was answered in an earlier turn.
\<close>

theorem regenerate_restores:
  assumes ok: "db_ok db" and fresh: "rewritten_ids (consumed events) \<inter> row_answers sid db = {}"
  shows "let db' = run_turn now sid traceId msg events err db; r = getMaxRoundIndex sid db'
    in r = getNextRoundIndex sid db \<and> getUserMessageForRound sid r db' = Some msg \<and>
      getRecentConversationHistory sid (snd (deleteRound sid r now' db')) = getRecentConversationHistory sid db"
proof -
  let ?db = "run_turn now sid traceId msg events err db" and ?r = "getNextRoundIndex sid db"
  have ok': "db_ok ?db" by (rule run_turn_ok [OF ok])
  obtain u new where rows: "session_messages sid ?db = session_messages sid db @ u # new"
    and u: "am_role u = ''user''" "am_content u = Some msg" "am_roundIndex u = ?r"
    and new: "\<forall>m\<in>set new. am_roundIndex m = ?r \<and> am_role m \<in> {''assistant'', ''tool''}"
    using run_turn_rows [OF fresh, of msg now traceId err] unfolding turn_rows_def by blast
  have "Max (set (map am_roundIndex (session_messages sid ?db))) = ?r"
    using rounds_below [of _ sid db] u(3) new unfolding rows by (intro Max_eqI) (auto simp: less_imp_le)
  then have r: "getMaxRoundIndex sid ?db = ?r" using max_round [of sid ?db] rows by simp
  have old: "filter (\<lambda>m. am_roundIndex m = ?r \<and> P m) (session_messages sid db) = []" for P
    using rounds_below [of _ sid db] by (force simp: filter_empty_conv)
  have "filter (\<lambda>m. am_roundIndex m = ?r \<and> am_role m = ''user'') (session_messages sid ?db) = [u]"
    using old [of "\<lambda>m. am_role m = ''user''"] u new unfolding rows by (auto simp: filter_empty_conv)
  then have usr: "getUserMessageForRound sid ?r ?db = Some msg" using u(2) by (simp add: getUserMessageForRound_def)
  have "filter (\<lambda>m. am_roundIndex m \<noteq> ?r) (session_messages sid db) = session_messages sid db"
    by (rule filter_True) (use rounds_below [of _ sid db] in force)
  moreover have "filter (\<lambda>m. am_roundIndex m \<noteq> ?r) (u # new) = []" using u new by auto
  ultimately have "filter (\<lambda>m. am_roundIndex m \<noteq> ?r) (session_messages sid ?db) = session_messages sid db" unfolding rows by simp
  then have "session_messages sid (snd (deleteRound sid ?r now' ?db)) = session_messages sid db"
    by (simp add: deleteRound_def delete_messages_def conj_commute cong: conj_cong)
  moreover have "db_ok (snd (deleteRound sid ?r now' ?db))"
    using ok' by (simp add: deleteRound_def delete_messages_def db_ok_def session_ids_update sorted_wrt_map sorted_wrt_filter)
  ultimately show ?thesis using r usr by (simp add: Let_def history_rows ok)
qed

lemma lists_own:
  "dao_listSessions u page n st kw (db\<lparr>sd_sessions := filter (\<lambda>s. as_userId s = u \<or> as_userId s = 0) (sd_sessions db)\<rparr>) =
     dao_listSessions u page n st kw db"
  by (simp add: dao_listSessions_def visible_sessions_def conj_commute cong: conj_cong)

lemma listed_owner: "s \<in> set (snd (dao_listSessions u page n st kw db)) \<Longrightarrow> s \<in> set (sd_sessions db) \<and> (as_userId s = u \<or> as_userId s = 0)"
  by (auto simp: dao_listSessions_def Let_def visible_sessions_def dest!: in_set_takeD in_set_dropD)

text \<open>
  C30. Whatever a user does with sessions (creating and deleting them, switching mode, model and tools, marking them as read), the session of another user and its messages stay as
  they are, and the user is shown nothing of it afterwards: it cannot be got, nor can its messages, it is on no page of any list of sessions, and these lists with their totals are the same as if the
  sessions of others did not exist.  The sessions of user 0, which belong to the system, are no such sessions: they are shown to everybody and everybody can change them.  The
  queries of the audit log are not covered: they have no user.
\<close>

theorem other_users_untouched:
  assumes "db_ok db" "s \<in> set (sd_sessions db)" "as_userId s \<noteq> u" "as_userId s \<noteq> 0"
  shows "s \<in> set (sd_sessions (user_run active u ops db)) \<and>
    getRecentConversationHistory (as_sessionId s) (user_run active u ops db) = getRecentConversationHistory (as_sessionId s) db \<and>
    getSession (as_sessionId s) u (user_run active u ops db) = Inl NoSession \<and>
    listMessages (as_sessionId s) u (user_run active u ops db) = Inl NoSession \<and>
    as_sessionId s \<notin> as_sessionId ` set (snd (dao_listSessions u page n status kw (user_run active u ops db))) \<and>
    dao_listSessions u page n status kw (user_run active u ops db) = dao_listSessions u page n status kw
      ((user_run active u ops db)\<lparr>sd_sessions := filter (\<lambda>s. as_userId s = u \<or> as_userId s = 0) (sd_sessions (user_run active u ops db))\<rparr>)"
proof -
  have *: "db_ok (user_run active u ops db) \<and> s \<in> set (sd_sessions (user_run active u ops db)) \<and>
      session_messages (as_sessionId s) (user_run active u ops db) = session_messages (as_sessionId s) db"
    unfolding user_run_def using assms
  proof (induction ops arbitrary: db)
    case (Cons x ops)
    then show ?case using user_step_other [OF Cons.prems, of active] by (cases x) simp
  qed simp
  then have "getSession (as_sessionId s) u (user_run active u ops db) \<noteq> Inr s0" for s0
    using getSession_owner [of "as_sessionId s" u "user_run active u ops db" s0 s] assms(3,4) by blast
  then have none: "dao_getSession (as_sessionId s) (Some u) (user_run active u ops db) = None"
    by (metis getSession_def option.case_eq_if)
  have "as_sessionId s \<notin> as_sessionId ` set (snd (dao_listSessions u page n status kw (user_run active u ops db)))"
  proof
    assume "as_sessionId s \<in> as_sessionId ` set (snd (dao_listSessions u page n status kw (user_run active u ops db)))"
    then obtain s' where s': "as_sessionId s = as_sessionId s'" "s' \<in> set (snd (dao_listSessions u page n status kw (user_run active u ops db)))"
      by (rule imageE)
    note l = listed_owner [OF s'(2)]
    have "inj_on as_sessionId (set (sd_sessions (user_run active u ops db)))" using * by (simp add: db_ok_def distinct_map)
    then have "s = s'" using s'(1) * l by (blast dest: inj_onD)
    then show False using l assms(3,4) by simp
  qed
  moreover have "getSession (as_sessionId s) u (user_run active u ops db) = Inl NoSession"
    "listMessages (as_sessionId s) u (user_run active u ops db) = Inl NoSession" by (simp_all add: getSession_def listMessages_def none)
  moreover have "getRecentConversationHistory (as_sessionId s) (user_run active u ops db) = getRecentConversationHistory (as_sessionId s) db"
    using * by (simp add: history_rows assms(1))
  ultimately show ?thesis using * by (intro conjI lists_own [symmetric]) blast+
qed

section \<open>Witnesses\<close>

definition w_session :: AgentSessionOrm where
  "w_session = \<lparr>as_sessionId = ''s1'', as_userId = 1, as_title = [], as_mode = ''plan'', as_status = ''idle'', as_source = ''manual'',
     as_profileId = None, as_toolSource = ''current_mcp'', as_mcpServers = None, as_safetyPolicy = ''default'', as_lastError = None,
     as_pendingApproval = None, as_pendingChoice = None, as_createdAt = 0, as_updatedAt = 0, as_finishedAt = None\<rparr>"

definition w_row :: AgentMessageOrm where
  "w_row = \<lparr>am_messageId = 7, am_sessionId = ''s1'', am_role = ''user'', am_content = Some [5], am_toolCallId = None,
     am_traceId = None, am_roundIndex = 3, am_metadata = None\<rparr>"

definition w_db :: sessions where
  "w_db = \<lparr>sd_sessions = [w_session], sd_messages = [w_row]\<rparr>"

definition w_call :: tool_block where
  "w_call = \<lparr>tb_id = ''c1'', tb_name = ''df'', tb_arguments = ''{}''\<rparr>"

definition w_events :: "event list" where
  "w_events = [EvToolCalling [w_call] [], EvToolResult ''c1'' ''df'' True [8], EvPlanRejected [] ''c1'', EvTextDelta [97], EvDone, EvTextDelta [98]]"

lemma w_db_ok: "db_ok w_db"
  by (simp add: db_ok_def w_db_def)

theorem stored_turn_witness:
  "getRecentConversationHistory ''s1'' (run_turn 1 ''s1'' ''t'' [6] w_events None w_db) =
     [say ''user'' [5], say ''user'' [6],
      \<lparr>mg_role = ''assistant'', mg_content = None, mg_tool_calls = [w_call], mg_tool_call_id = []\<rparr>,
      \<lparr>mg_role = ''tool'', mg_content = Some PLAN_REFUSED, mg_tool_calls = [], mg_tool_call_id = ''c1''\<rparr>,
      say ''assistant'' [97]]"
proof -
  have "ustrip [97] = [97]" by (simp add: ustrip_def uspace_def rdropWhile_def)
  then show ?thesis using stored_turn [OF w_db_ok, of "''s1''" 1 "''s1''" "''t''" "[6]" w_events None]
    by (simp add: turn_effect_def w_events_def update_answers_def refused_text_def history_rows [OF w_db_ok] Let_def)
      (simp add: w_db_def w_row_def row_message_def row_text_def)
qed

theorem regenerate_restores_witness:
  "getRecentConversationHistory ''s1'' (snd (deleteRound ''s1'' 4 2 (run_turn 1 ''s1'' ''t'' [6] w_events None w_db))) =
   getRecentConversationHistory ''s1'' w_db"
proof -
  have "row_answers ''s1'' w_db = {}" by (simp add: row_answers_def w_db_def w_row_def)
  moreover have "getNextRoundIndex ''s1'' w_db = 4" by (simp add: getNextRoundIndex_def w_db_def w_row_def)
  ultimately show ?thesis
    using regenerate_restores [OF w_db_ok, of w_events "''s1''" 1 "''t''" "[6]" None 2] by (auto simp: Let_def)
qed

theorem other_users_untouched_witness:
  "w_session \<in> set (sd_sessions (user_run (\<lambda>_. True) 2 [(1, UDelete ''s1''), (2, UMode ''s1'' ''agent'')] w_db)) \<and>
   getSession ''s1'' 2 (user_run (\<lambda>_. True) 2 [(1, UDelete ''s1''), (2, UMode ''s1'' ''agent'')] w_db) = Inl NoSession"
  using other_users_untouched [OF w_db_ok, of w_session 2 "\<lambda>_. True" "[(1, UDelete ''s1''), (2, UMode ''s1'' ''agent'')]"]
  by (simp add: w_db_def w_session_def)

section \<open>Observations\<close>

text \<open>The status \<open>error\<close> of a failed turn is overwritten at once.\<close>

lemma find_updated:
  "(\<And>s. as_sessionId (g s) = as_sessionId s) \<Longrightarrow>
   List.find (\<lambda>s. as_sessionId s = sid) (map (\<lambda>s. if as_sessionId s = sid then g s else s) ss) =
   map_option g (List.find (\<lambda>s. as_sessionId s = sid) ss)"
  by (induction ss) simp_all

lemma error_status_overwritten:
  assumes "dao_getSession sid None db \<noteq> None"
  shows "getSessionStatus sid (finish_loop now sid db) = Some ''idle''"
  using assms by (auto simp: dao_getSession_def getSessionStatus_def finish_loop_def session_updateStatus_def update_session_def find_updated)

text \<open>A plan that is rejected with a reason that mentions a timeout puts the stored mode to \<open>agent\<close>.\<close>

lemma reason_switches_mode:
  "map as_mode (sd_sessions (tu_db (persist_event now ''s1'' tr r (EvPlanRejected [36229, 26102] cid) \<lparr>tu_db = w_db, tu_parts = []\<rparr>))) = [''agent'']"
  by (simp add: persist_event_def Let_def w_db_def w_session_def updateMode_def session_updateStatus_def update_session_def
      dao_updateToolResponse_def)

text \<open>A session of the system can be switched by every user.\<close>

lemma system_session_switched:
  assumes "getSession sid u db = Inr s" "as_userId s = 0" "mode \<in> set AGENT_MODES"
  shows "\<exists>s'\<in>set (sd_sessions (snd (switchMode sid u mode now db))). as_sessionId s' = sid \<and> as_mode s' = mode"
proof -
  have "s \<in> set (sd_sessions db)" "as_sessionId s = sid"
    using assms(1) by (auto simp: getSession_def dao_getSession_def find_Some_iff split: option.splits)
  then have "(s\<lparr>as_mode := mode\<rparr>)\<lparr>as_updatedAt := now\<rparr> \<in> set (sd_sessions (snd (update_session sid (\<lambda>s. s\<lparr>as_mode := mode\<rparr>) now db)))"
    by (force simp: update_session_def)
  with assms \<open>as_sessionId s = sid\<close> show ?thesis by (intro bexI) (simp_all add: switchMode_def snd_guarded_update)
qed

end
