(* ===== verification/FileTools.thy ===== *)
theory FileTools
  imports UText "HOL-Library.List_Lexorder"
begin

text \<open>
  The file tools of the agent (\<open>agent/agent_mcp/tools/filesystem.py\<close>): reading, writing, editing,
  moving, copying, deleting and listing files.

  The state is a file tree \<open>fsys\<close>: its nodes by absolute path (a path is the list of its
  components), files with their bytes, directories and symbolic links, the working directory, the
  home directories, and the size of directories and the times that \<open>stat\<close> reports.  A tool runs in
  the monad \<open>fsm\<close>: it returns a result or an exception, and the tree it leaves behind in both
  cases.  \<open>Path(p).expanduser().resolve()\<close> follows links (\<open>resolve_parts\<close>, at most 40 of them, as
  the kernel does).  Exceptions raised by the tools carry their message; those of the operating
  system carry their class and the path.  Regular expressions given by the caller are run by an
  engine that is an argument (\<open>rx\<close>); lower case is that of the ASCII letters.
\<close>

declare uni_Cons [simp]

section \<open>File trees\<close>

type_synonym path = "utext list"

datatype node = NFile bytes | NDir | NLink utext

record fsys =
  nodes :: "(path \<times> node) list"
  cwd :: path
  homes :: "(utext \<times> path) list"
  stat_meta :: "path \<Rightarrow> nat \<times> utext"

datatype pyexn = Raised string utext | OsError string path

fun exn_class :: "pyexn \<Rightarrow> string" where
  "exn_class (Raised c m) = c"
| "exn_class (OsError c p) = c"

type_synonym 'a fsm = "fsys \<Rightarrow> (pyexn + 'a) \<times> fsys"

definition fret :: "'a \<Rightarrow> 'a fsm" where
  "fret x = (\<lambda>fs. (Inr x, fs))"

definition fraise :: "pyexn \<Rightarrow> 'a fsm" where
  "fraise e = (\<lambda>fs. (Inl e, fs))"

definition fbind :: "'a fsm \<Rightarrow> ('a \<Rightarrow> 'b fsm) \<Rightarrow> 'b fsm" where
  "fbind m f = (\<lambda>fs. case m fs of (Inl e, fs') \<Rightarrow> (Inl e, fs') | (Inr x, fs') \<Rightarrow> f x fs')"

definition fthen :: "'a fsm \<Rightarrow> 'b fsm \<Rightarrow> 'b fsm" where
  "fthen m n = fbind m (\<lambda>_. n)"

definition fget :: "(fsys \<Rightarrow> 'a) \<Rightarrow> 'a fsm" where
  "fget f = (\<lambda>fs. (Inr (f fs), fs))"

definition fmod :: "(fsys \<Rightarrow> fsys) \<Rightarrow> unit fsm" where
  "fmod f = (\<lambda>fs. (Inr (), f fs))"

definition fguard :: "bool \<Rightarrow> pyexn \<Rightarrow> unit fsm" where
  "fguard b e = (if b then fret () else fraise e)"

definition fsum :: "pyexn + 'a \<Rightarrow> 'a fsm" where
  "fsum r = (\<lambda>fs. (r, fs))"

definition node_at :: "fsys \<Rightarrow> path \<Rightarrow> node option" where
  "node_at fs p = (if p = [] then Some NDir else map_of (nodes fs) p)"

definition set_node :: "path \<Rightarrow> node \<Rightarrow> fsys \<Rightarrow> fsys" where
  "set_node p n fs = fs\<lparr>nodes := AList.update p n (nodes fs)\<rparr>"

definition drop_node :: "path \<Rightarrow> fsys \<Rightarrow> fsys" where
  "drop_node p fs = fs\<lparr>nodes := AList.delete p (nodes fs)\<rparr>"

definition drop_tree :: "path \<Rightarrow> fsys \<Rightarrow> fsys" where
  "drop_tree p fs = fs\<lparr>nodes := filter (\<lambda>qn. \<not> prefix p (fst qn)) (nodes fs)\<rparr>"

definition path_exists :: "fsys \<Rightarrow> path \<Rightarrow> bool" where
  "path_exists fs p \<longleftrightarrow> node_at fs p \<noteq> None"

definition is_dir_node :: "fsys \<Rightarrow> path \<Rightarrow> bool" where
  "is_dir_node fs p \<longleftrightarrow> node_at fs p = Some NDir"

definition is_file_node :: "fsys \<Rightarrow> path \<Rightarrow> bool" where
  "is_file_node fs p \<longleftrightarrow> (case node_at fs p of Some (NFile b) \<Rightarrow> True | _ \<Rightarrow> False)"

definition file_data :: "fsys \<Rightarrow> path \<Rightarrow> bytes" where
  "file_data fs p = (case node_at fs p of Some (NFile b) \<Rightarrow> b | _ \<Rightarrow> [])"

definition child_names :: "fsys \<Rightarrow> path \<Rightarrow> utext list" where
  "child_names fs p = map (\<lambda>qn. last (fst qn))
     (filter (\<lambda>qn. prefix p (fst qn) \<and> length (fst qn) = Suc (length p)) (nodes fs))"

text \<open>\<open>str(p)\<close> of an absolute path.\<close>

definition path_text :: "path \<Rightarrow> utext" where
  "path_text p = 47 # intercalate [47] p"

subsection \<open>Resolving paths\<close>

fun usplit_on :: "nat \<Rightarrow> utext \<Rightarrow> utext list" where
  "usplit_on c [] = [[]]"
| "usplit_on c (x # xs) =
     (if x = c then [] # usplit_on c xs
      else (case usplit_on c xs of [] \<Rightarrow> [[x]] | p # ps \<Rightarrow> (x # p) # ps))"

definition upath_parts :: "utext \<Rightarrow> utext list" where
  "upath_parts s = filter (\<lambda>c. c \<noteq> [] \<and> c \<noteq> [46]) (usplit_on 47 s)"

fun resolve_parts :: "nat \<Rightarrow> fsys \<Rightarrow> path \<Rightarrow> utext list \<Rightarrow> path option" where
  "resolve_parts links fs done [] = Some done"
| "resolve_parts links fs done (c # todo) =
     (if c = [46, 46] then resolve_parts links fs (butlast done) todo
      else case node_at fs (done @ [c]) of
             Some (NLink target) \<Rightarrow>
               (case links of
                  0 \<Rightarrow> None
                | Suc l \<Rightarrow>
                    resolve_parts l fs (if prefix [47] target then [] else done) (upath_parts target @ todo))
           | _ \<Rightarrow> resolve_parts links fs (done @ [c]) todo)"

definition max_links :: nat where
  "max_links = 40"

definition real_path :: "fsys \<Rightarrow> path \<Rightarrow> path option" where
  "real_path fs p = resolve_parts max_links fs [] p"

text \<open>\<open>Path(s).expanduser().resolve()\<close>.\<close>

definition resolvePath :: "utext \<Rightarrow> path fsm" where
  "resolvePath s = (\<lambda>fs.
     let ps = upath_parts s;
         start = (if prefix [47] s then Inr ps
                  else if ps \<noteq> [] \<and> prefix [126] (hd ps) then
                    (case map_of (homes fs) (tl (hd ps)) of
                       Some h \<Rightarrow> Inr (h @ tl ps)
                     | None \<Rightarrow> Inl (Raised ''RuntimeError'' (uni ''Could not determine home directory.'')))
                  else Inr (cwd fs @ ps))
     in case start of
          Inl e \<Rightarrow> (Inl e, fs)
        | Inr q \<Rightarrow> (case real_path fs q of
                      Some p \<Rightarrow> (Inr p, fs)
                    | None \<Rightarrow> (Inl (Raised ''RuntimeError'' (uni ''Symlink loop from '' @ s)), fs)))"

subsection \<open>Operations of the operating system\<close>

definition blocked_by_file :: "fsys \<Rightarrow> path \<Rightarrow> bool" where
  "blocked_by_file fs p \<longleftrightarrow> list_ex (is_file_node fs) (prefixes (butlast p))"

definition missing_error :: "fsys \<Rightarrow> path \<Rightarrow> pyexn" where
  "missing_error fs p = OsError (if blocked_by_file fs p then ''NotADirectoryError'' else ''FileNotFoundError'') p"

text \<open>\<open>open(p, "w")\<close> and \<open>open(p, "a")\<close>: the target is a file or can be created.\<close>

definition open_target :: "path \<Rightarrow> unit fsm" where
  "open_target p = (\<lambda>fs. case node_at fs p of
       Some NDir \<Rightarrow> (Inl (OsError ''IsADirectoryError'' p), fs)
     | Some (NLink t) \<Rightarrow> (Inl (OsError ''OSError'' p), fs)
     | Some (NFile b) \<Rightarrow> (Inr (), fs)
     | None \<Rightarrow> (if is_dir_node fs (butlast p) then (Inr (), set_node p (NFile []) fs)
                 else (Inl (missing_error fs p), fs)))"

text \<open>\<open>p.write_text(content, encoding="utf-8")\<close>: opening truncates before the text is encoded.\<close>

definition write_text :: "path \<Rightarrow> utext \<Rightarrow> unit fsm" where
  "write_text p content =
     fthen (open_target p)
       (fthen (fmod (set_node p (NFile [])))
         (case encodeText content of
            None \<Rightarrow> fraise (Raised ''UnicodeEncodeError'' [])
          | Some bs \<Rightarrow> fmod (set_node p (NFile bs))))"

definition append_text :: "path \<Rightarrow> utext \<Rightarrow> unit fsm" where
  "append_text p content =
     fthen (open_target p)
       (case encodeText content of
          None \<Rightarrow> fraise (Raised ''UnicodeEncodeError'' [])
        | Some bs \<Rightarrow> fmod (\<lambda>fs. set_node p (NFile (file_data fs p @ bs)) fs))"

text \<open>\<open>p.read_text(encoding="utf-8", errors="replace")\<close> of a file.\<close>

definition text_at :: "fsys \<Rightarrow> path \<Rightarrow> utext" where
  "text_at fs p = universal_newlines (decodeReplace (file_data fs p))"

definition os_mkdir :: "path \<Rightarrow> unit fsm" where
  "os_mkdir p = (\<lambda>fs.
     if path_exists fs p then (Inl (OsError ''FileExistsError'' p), fs)
     else if is_dir_node fs (butlast p) then (Inr (), set_node p NDir fs)
     else (Inl (missing_error fs p), fs))"

text \<open>\<open>p.mkdir(parents=parents, exist_ok=exist_ok)\<close>.\<close>

function mkdir :: "bool \<Rightarrow> bool \<Rightarrow> path \<Rightarrow> unit fsm" where
  "mkdir parents exist_ok p = (\<lambda>fs.
     case os_mkdir p fs of
       (Inr x, fs') \<Rightarrow> (Inr (), fs')
     | (Inl e, fs') \<Rightarrow>
         if exn_class e = ''FileNotFoundError'' then
           (if \<not> parents \<or> p = [] then (Inl e, fs')
            else fthen (mkdir True True (butlast p)) (mkdir False exist_ok p) fs')
         else if \<not> exist_ok \<or> \<not> is_dir_node fs' p then (Inl e, fs') else (Inr (), fs'))"
  by pat_completeness auto
termination
  by (relation "measure (\<lambda>(parents, ok, p). 2 * length p + (if parents then 1 else 0))") (auto simp: neq_Nil_conv)

declare mkdir.simps [simp del]

section \<open>Reading\<close>

datatype uval = UNone | UBool bool | UInt int | UText utext

type_synonym udict = "(string \<times> uval) list"

text \<open>\<open>str(v)\<close>, \<open>bool(v)\<close> and \<open>int(v)\<close>.\<close>

fun ustr :: "uval \<Rightarrow> utext" where
  "ustr UNone = uni ''None''"
| "ustr (UBool b) = uni (if b then ''True'' else ''False'')"
| "ustr (UInt i) = uni (str_of_int i)"
| "ustr (UText t) = t"

fun ubool :: "uval \<Rightarrow> bool" where
  "ubool UNone = False"
| "ubool (UBool b) = b"
| "ubool (UInt i) = (i \<noteq> 0)"
| "ubool (UText t) = (t \<noteq> [])"

definition udigits :: "utext \<Rightarrow> nat option" where
  "udigits t = (let ps = usplit_on 95 t in
     if list_all (\<lambda>q. q \<noteq> [] \<and> list_all (\<lambda>c. 48 \<le> c \<and> c \<le> 57) q) ps
     then Some (foldl (\<lambda>n c. 10 * n + (c - 48)) 0 (concat ps)) else None)"

definition parse_int :: "utext \<Rightarrow> int option" where
  "parse_int t = (case ustrip t of
       [] \<Rightarrow> None
     | c # cs \<Rightarrow> if c = 45 then map_option (\<lambda>n. - int n) (udigits cs)
                 else if c = 43 then map_option int (udigits cs)
                 else map_option int (udigits (c # cs)))"

fun uint :: "uval \<Rightarrow> pyexn + int" where
  "uint UNone = Inl (Raised ''TypeError'' (uni ''int() argument must be a string, a bytes-like object or a real number, not NoneType''))"
| "uint (UBool b) = Inr (if b then 1 else 0)"
| "uint (UInt i) = Inr i"
| "uint (UText t) = (case parse_int t of
     Some i \<Rightarrow> Inr i
   | None \<Rightarrow> Inl (Raised ''ValueError'' (uni ''invalid literal for int() with base 10: '' @ t)))"

text \<open>\<open>d[key]\<close> and \<open>d.get(key, default)\<close>.\<close>

definition uitem :: "udict \<Rightarrow> string \<Rightarrow> pyexn + uval" where
  "uitem d k = (case map_of d k of Some v \<Rightarrow> Inr v | None \<Rightarrow> Inl (Raised ''KeyError'' (uni k)))"

definition uget :: "udict \<Rightarrow> string \<Rightarrow> uval \<Rightarrow> uval" where
  "uget d k v = (case map_of d k of Some w \<Rightarrow> w | None \<Rightarrow> v)"

datatype fresult =
    RBytes path nat nat utext bool
  | RLines path int nat int nat utext bool
  | RWrite path utext nat
  | RReplace path nat nat
  | RRange path int int int nat nat
  | RInsert path utext int nat nat
  | PReplace path nat nat
  | PRange path int int int nat
  | PInsert path utext int nat
  | PRegex path nat nat
  | RDir path bool
  | RDelete path bool
  | RTransfer path path bool

definition value_error :: "string \<Rightarrow> pyexn" where
  "value_error m = Raised ''ValueError'' (uni m)"

definition looksBinary :: "bytes \<Rightarrow> bool" where
  "looksBinary sample \<longleftrightarrow> 0 \<in> set sample"

definition ensureTextFile :: "path \<Rightarrow> unit fsm" where
  "ensureTextFile p = fbind (fget (\<lambda>fs. take 4096 (file_data fs p)))
     (\<lambda>sample. fguard (\<not> looksBinary sample) (value_error ''binary file cannot be read as text''))"

text \<open>The resolved target of a tool that reads or edits a text file.\<close>

definition require_file :: "path \<Rightarrow> unit fsm" where
  "require_file p = fbind (fget (\<lambda>fs. is_file_node fs p))
     (\<lambda>b. fguard b (Raised ''FileNotFoundError'' (path_text p)))"

definition readFileBytes :: "path \<Rightarrow> int \<Rightarrow> int \<Rightarrow> fresult fsm" where
  "readFileBytes target offset limitBytes = fget (\<lambda>fs.
     let start = nat (max 0 offset);
         limit = nat (max 1 limitBytes);
         size = length (file_data fs target);
         chunk = take (limit + 1) (drop start (file_data fs target));
         truncated = (length chunk > limit \<or> start + length chunk < size);
         chunk' = (if length chunk > limit then take limit chunk else chunk)
     in RBytes target start size (decodeReplace chunk') truncated)"

definition readFileLines :: "path \<Rightarrow> uval \<Rightarrow> uval \<Rightarrow> fresult fsm" where
  "readFileLines target lineStart lineLimit =
     fbind (fsum (uint lineStart)) (\<lambda>ls.
     fbind (fsum (if lineLimit = UNone then Inr 200 else case uint lineLimit of Inl e \<Rightarrow> Inl e | Inr n \<Rightarrow> Inr (max 1 n)))
       (\<lambda>limit. fget (\<lambda>fs.
          let start = max 1 ls;
              lines = keeplines (text_at fs target);
              total = length lines;
              start_index = min (nat (start - 1)) total;
              end_index = min (start_index + nat limit) total;
              selected = take (end_index - start_index) (drop start_index lines)
          in RLines target start (start_index + length selected) limit total (concat selected) (end_index < total))))"

definition readFile :: "utext \<Rightarrow> int \<Rightarrow> int \<Rightarrow> uval \<Rightarrow> uval \<Rightarrow> fresult fsm" where
  "readFile s offset limitBytes lineStart lineLimit =
     fbind (resolvePath s) (\<lambda>target.
     fthen (require_file target)
       (fthen (ensureTextFile target)
         (if lineStart \<noteq> UNone then readFileLines target lineStart lineLimit
          else readFileBytes target offset limitBytes)))"

section \<open>Writing\<close>

definition normalizeOption :: "string list \<Rightarrow> string \<Rightarrow> utext \<Rightarrow> utext fsm" where
  "normalizeOption allowed message s =
     (let v = ulower (ustrip s) in
      fthen (fguard (v \<in> uni ` set allowed) (value_error message)) (fret v))"

definition normalizeWriteMode :: "utext \<Rightarrow> utext fsm" where
  "normalizeWriteMode = normalizeOption [''overwrite'', ''append''] ''mode must be one of: overwrite, append''"

definition encoded_length :: "utext \<Rightarrow> nat" where
  "encoded_length s = (case encodeText s of Some b \<Rightarrow> length b | None \<Rightarrow> 0)"

definition writeFile :: "utext \<Rightarrow> utext \<Rightarrow> bool \<Rightarrow> utext \<Rightarrow> fresult fsm" where
  "writeFile s content createParents mode =
     fbind (resolvePath s) (\<lambda>target.
     fthen (if createParents then mkdir True True (butlast target) else fret ())
      (fbind (fget (\<lambda>fs. path_exists fs (butlast target))) (\<lambda>parent_exists.
       fthen (fguard parent_exists (Raised ''FileNotFoundError'' (path_text (butlast target))))
        (fbind (normalizeWriteMode mode) (\<lambda>write_mode.
         fthen (if write_mode = uni ''append'' then append_text target content else write_text target content)
          (fret (RWrite target write_mode (encoded_length content))))))))"

section \<open>Edits\<close>

definition replaceText :: "utext \<Rightarrow> utext \<Rightarrow> utext \<Rightarrow> bool \<Rightarrow> fresult fsm" where
  "replaceText s oldText newText replaceAll =
     fthen (fguard (oldText \<noteq> []) (value_error ''oldText must not be empty''))
      (fbind (resolvePath s) (\<lambda>target.
       fthen (require_file target)
        (fthen (ensureTextFile target)
         (fbind (fget (\<lambda>fs. text_at fs target)) (\<lambda>content.
          let count = count_sub oldText content in
          fthen (fguard (count \<noteq> 0) (value_error ''oldText was not found''))
           (fthen (fguard (\<not> (count > 1 \<and> \<not> replaceAll))
              (value_error ''oldText appears multiple times; set replaceAll=true to replace all matches''))
            (let updated = replace_sub oldText newText (if replaceAll then None else Some 1) content in
             fthen (write_text target updated)
               (fret (RReplace target (if replaceAll then count else 1) (encoded_length updated))))))))))"

definition textToLines :: "utext \<Rightarrow> utext list" where
  "textToLines t = (if t = [] then [] else keeplines t)"

definition replaceRange :: "utext \<Rightarrow> int \<Rightarrow> int \<Rightarrow> utext \<Rightarrow> fresult fsm" where
  "replaceRange s lineStart lineEnd newText =
     fbind (resolvePath s) (\<lambda>target.
     fthen (require_file target)
      (fthen (ensureTextFile target)
       (fbind (fget (\<lambda>fs. keeplines (text_at fs target))) (\<lambda>lines.
        let start = max 1 lineStart; end = max start lineEnd in
        fthen (fguard (\<not> (start > int (length lines) + 1)) (value_error ''lineStart is beyond the end of the file''))
         (let start_index = nat (start - 1);
              end_index = min (nat end) (length lines);
              replacement = textToLines newText;
              updated = concat (take start_index lines @ replacement @ drop end_index lines) in
          fthen (write_text target updated)
            (fret (RRange target start end (int end_index - int start_index) (length replacement)
                     (encoded_length updated))))))))"

definition normalizePosition :: "utext \<Rightarrow> utext fsm" where
  "normalizePosition = normalizeOption [''before'', ''after''] ''position must be one of: before, after''"

text \<open>\<open>text.find(needle, start)\<close>.\<close>

definition find_from :: "utext \<Rightarrow> utext \<Rightarrow> nat \<Rightarrow> nat option" where
  "find_from needle t start = map_option (\<lambda>i. i + start) (find_sub needle (drop start t))"

fun nthIndex_loop :: "nat \<Rightarrow> utext \<Rightarrow> utext \<Rightarrow> nat \<Rightarrow> nat \<Rightarrow> nat option" where
  "nthIndex_loop 0 t needle start index = Some index"
| "nthIndex_loop (Suc k) t needle start index =
     (case find_from needle t start of
        None \<Rightarrow> None
      | Some i \<Rightarrow> nthIndex_loop k t needle (i + length needle) i)"

definition nthIndex :: "utext \<Rightarrow> utext \<Rightarrow> int \<Rightarrow> nat option" where
  "nthIndex t needle occurrence = nthIndex_loop (nat occurrence) t needle 0 0"

definition insertText :: "utext \<Rightarrow> utext \<Rightarrow> utext \<Rightarrow> utext \<Rightarrow> int \<Rightarrow> fresult fsm" where
  "insertText s anchorText newText position occurrence =
     fthen (fguard (anchorText \<noteq> []) (value_error ''anchorText must not be empty''))
      (fbind (resolvePath s) (\<lambda>target.
       fthen (require_file target)
        (fthen (ensureTextFile target)
         (fbind (normalizePosition position) (\<lambda>pos.
          fbind (fget (\<lambda>fs. text_at fs target)) (\<lambda>content.
          let occurrence_index = max 1 occurrence in
          case nthIndex content anchorText occurrence_index of
            None \<Rightarrow> fraise (value_error ''anchorText occurrence was not found'')
          | Some anchor_index \<Rightarrow>
              (let insert_at = (if pos = uni ''before'' then anchor_index else anchor_index + length anchorText);
                   updated = take insert_at content @ newText @ drop insert_at content in
               fthen (write_text target updated)
                 (fret (RInsert target pos occurrence_index insert_at (encoded_length updated))))))))))"

subsection \<open>Regular expressions\<close>

text \<open>
  The flags \<open>IGNORECASE\<close>, \<open>MULTILINE\<close> and \<open>DOTALL\<close>; a compiled pattern is the list of the spans
  of its successive matches and, for a replacement template, the text that replaces a span
  (\<open>None\<close>: the pattern or the template does not compile).
\<close>

type_synonym rflags = "bool \<times> bool \<times> bool"

record rx_engine =
  rx_spans :: "utext \<Rightarrow> rflags \<Rightarrow> (utext \<Rightarrow> (nat \<times> nat) list) option"
  rx_expand :: "utext \<Rightarrow> rflags \<Rightarrow> utext \<Rightarrow> (utext \<Rightarrow> nat \<times> nat \<Rightarrow> utext) option"

fun regexFlags_loop :: "rflags \<Rightarrow> utext \<Rightarrow> pyexn + rflags" where
  "regexFlags_loop v [] = Inr v"
| "regexFlags_loop (i, m, s) (c # cs) =
     (if c = 105 then regexFlags_loop (True, m, s) cs
      else if c = 109 then regexFlags_loop (i, True, s) cs
      else if c = 115 then regexFlags_loop (i, m, True) cs
      else if c = 32 \<or> c = 44 then regexFlags_loop (i, m, s) cs
      else Inl (value_error ''flags may contain only i, m, and s''))"

definition regexFlags :: "utext \<Rightarrow> pyexn + rflags" where
  "regexFlags s = regexFlags_loop (False, False, False) (ulower s)"

fun sub_spans :: "(nat \<times> nat \<Rightarrow> utext) \<Rightarrow> nat \<Rightarrow> (nat \<times> nat) list \<Rightarrow> utext \<Rightarrow> utext" where
  "sub_spans f pos [] t = drop pos t"
| "sub_spans f pos ((a, b) # spans) t =
     take (a - pos) (drop pos t) @ f (a, b) @ sub_spans f b spans t"

text \<open>\<open>regex.subn(replacement, content, count=count)\<close>, where the count 0 means no limit.\<close>

definition subn :: "(nat \<times> nat \<Rightarrow> utext) \<Rightarrow> (nat \<times> nat) list \<Rightarrow> utext \<Rightarrow> nat \<Rightarrow> utext \<times> nat" where
  "subn f spans content count =
     (let used = (if count = 0 then spans else take count spans)
      in (sub_spans f 0 used content, length used))"

definition re_error :: pyexn where
  "re_error = Raised ''error'' []"

definition replaceRegex :: "rx_engine \<Rightarrow> utext \<Rightarrow> utext \<Rightarrow> utext \<Rightarrow> bool \<Rightarrow> utext \<Rightarrow> fresult fsm" where
  "replaceRegex rx s pattern replacement replaceAll flags =
     fthen (fguard (pattern \<noteq> []) (value_error ''pattern must not be empty''))
      (fbind (resolvePath s) (\<lambda>target.
       fthen (require_file target)
        (fthen (ensureTextFile target)
         (fbind (fsum (regexFlags flags)) (\<lambda>fl.
          case rx_spans rx pattern fl of
            None \<Rightarrow> fraise re_error
          | Some spans \<Rightarrow>
              fbind (fget (\<lambda>fs. text_at fs target)) (\<lambda>content.
              case rx_expand rx pattern fl replacement of
                None \<Rightarrow> fraise re_error
              | Some expand \<Rightarrow>
                  (case subn (expand content) (spans content) content (if replaceAll then 0 else 1) of
                     (updated, replacements) \<Rightarrow>
                       fthen (fguard (replacements \<noteq> 0) (value_error ''pattern did not match''))
                        (fthen (write_text target updated)
                          (fret (RReplace target replacements (encoded_length updated)))))))))))"

section \<open>Batches\<close>

datatype bitem = BOk fresult | BErr "utext option" pyexn

fun item_success :: "bitem \<Rightarrow> bool" where
  "item_success (BOk r) = True"
| "item_success (BErr p e) = False"

record batch =
  b_success :: bool
  b_total :: nat
  b_succeeded :: nat
  b_failed :: nat
  b_results :: "(nat \<times> utext option \<times> bitem) list"

definition batchResult :: "(nat \<times> utext option \<times> bitem) list \<Rightarrow> batch" where
  "batchResult results =
     (let succeeded = length (filter (\<lambda>(i, t, b). item_success b) results) in
      \<lparr>b_success = (succeeded = length results), b_total = length results, b_succeeded = succeeded,
       b_failed = length results - succeeded, b_results = results\<rparr>)"

text \<open>\<open>_itemError(item.get("path"), exc)\<close>.\<close>

definition itemError :: "udict \<Rightarrow> pyexn \<Rightarrow> bitem" where
  "itemError d e = BErr (case uget d ''path'' UNone of UNone \<Rightarrow> None | v \<Rightarrow> Some (ustr v)) e"

text \<open>\<open>try: ... except Exception\<close>.\<close>

definition try_item :: "udict \<Rightarrow> fresult fsm \<Rightarrow> bitem fsm" where
  "try_item d m = (\<lambda>fs. case m fs of (Inl e, fs') \<Rightarrow> (Inr (itemError d e), fs') | (Inr r, fs') \<Rightarrow> (Inr (BOk r), fs'))"

definition text_item :: "udict \<Rightarrow> string \<Rightarrow> utext fsm" where
  "text_item d k = fbind (fsum (uitem d k)) (\<lambda>v. fret (ustr v))"

definition int_item :: "udict \<Rightarrow> string \<Rightarrow> int fsm" where
  "int_item d k = fbind (fsum (uitem d k)) (\<lambda>v. fsum (uint v))"

definition write_item :: "bool \<Rightarrow> udict \<Rightarrow> fresult fsm" where
  "write_item createParents d =
     fbind (text_item d ''path'') (\<lambda>s.
       writeFile s (ustr (uget d ''content'' (UText []))) (ubool (uget d ''createParents'' (UBool createParents)))
         (ustr (uget d ''mode'' (UText (uni ''overwrite'')))))"

definition read_item :: "udict \<Rightarrow> fresult fsm" where
  "read_item d =
     fbind (text_item d ''path'') (\<lambda>s.
     fbind (fsum (uint (uget d ''offset'' (UInt 0)))) (\<lambda>offset.
     fbind (fsum (uint (uget d ''limitBytes'' (UInt 65536)))) (\<lambda>limitBytes.
       readFile s offset limitBytes (uget d ''lineStart'' UNone) (uget d ''lineLimit'' UNone))))"

fun each_item :: "(udict \<Rightarrow> fresult fsm) \<Rightarrow> nat \<Rightarrow> udict list \<Rightarrow> (nat \<times> utext option \<times> bitem) list fsm" where
  "each_item f index [] = fret []"
| "each_item f index (d # ds) =
     fbind (try_item d (f d)) (\<lambda>b.
     fbind (each_item f (Suc index) ds) (\<lambda>rest. fret ((index, None, b) # rest)))"

definition writeFiles :: "udict list \<Rightarrow> bool \<Rightarrow> batch fsm" where
  "writeFiles files createParents =
     fbind (each_item (write_item createParents) 0 files) (\<lambda>rs. fret (batchResult rs))"

definition readFiles :: "udict list \<Rightarrow> batch fsm" where
  "readFiles files = fbind (each_item read_item 0 files) (\<lambda>rs. fret (batchResult rs))"

text \<open>\<open>_textEditTarget\<close> and \<open>_previewEdit\<close>.\<close>

definition textEditTarget :: "udict \<Rightarrow> path fsm" where
  "textEditTarget d =
     fbind (text_item d ''path'') (\<lambda>s.
     fbind (resolvePath s) (\<lambda>target.
     fthen (require_file target) (fthen (ensureTextFile target) (fret target))))"

definition edit_type_error :: pyexn where
  "edit_type_error = value_error ''edit type must be one of: replaceText, replaceRange, insertText, replaceRegex''"

definition preview_replaceText :: "udict \<Rightarrow> fresult fsm" where
  "preview_replaceText d =
     fbind (textEditTarget d) (\<lambda>target.
     fbind (text_item d ''oldText'') (\<lambda>old_text.
     fthen (fguard (old_text \<noteq> []) (value_error ''oldText must not be empty''))
      (fbind (fget (\<lambda>fs. text_at fs target)) (\<lambda>content.
       let count = count_sub old_text content; everywhere = ubool (uget d ''replaceAll'' (UBool False)) in
       fthen (fguard (count \<noteq> 0) (value_error ''oldText was not found''))
        (fthen (fguard (\<not> (count > 1 \<and> \<not> everywhere))
           (value_error ''oldText appears multiple times; set replaceAll=true to replace all matches''))
         (fret (PReplace target count (if everywhere then count else 1))))))))"

definition preview_replaceRange :: "udict \<Rightarrow> fresult fsm" where
  "preview_replaceRange d =
     fbind (textEditTarget d) (\<lambda>target.
     fbind (int_item d ''lineStart'') (\<lambda>ls.
     fbind (int_item d ''lineEnd'') (\<lambda>le.
     fbind (fget (\<lambda>fs. length (keeplines (text_at fs target)))) (\<lambda>total.
     let start = max 1 ls; end = max start le in
     fthen (fguard (\<not> (start > int total + 1)) (value_error ''lineStart is beyond the end of the file''))
      (fbind (text_item d ''newText'') (\<lambda>newText.
        fret (PRange target start end (min end (int total) - (start - 1)) (length (textToLines newText)))))))))"

definition preview_insertText :: "udict \<Rightarrow> fresult fsm" where
  "preview_insertText d =
     fbind (textEditTarget d) (\<lambda>target.
     fbind (text_item d ''anchorText'') (\<lambda>anchor_text.
     fthen (fguard (anchor_text \<noteq> []) (value_error ''anchorText must not be empty''))
      (fbind (fget (\<lambda>fs. text_at fs target)) (\<lambda>content.
       fbind (fsum (uint (uget d ''occurrence'' (UInt 1)))) (\<lambda>occ.
       let occurrence = max 1 occ in
       case nthIndex content anchor_text occurrence of
         None \<Rightarrow> fraise (value_error ''anchorText occurrence was not found'')
       | Some anchor_index \<Rightarrow>
           fbind (normalizePosition (ustr (uget d ''position'' (UText (uni ''after''))))) (\<lambda>pos.
             fret (PInsert target pos occurrence
               (if pos = uni ''before'' then anchor_index else anchor_index + length anchor_text))))))))"

definition preview_replaceRegex :: "rx_engine \<Rightarrow> udict \<Rightarrow> fresult fsm" where
  "preview_replaceRegex rx d =
     fbind (textEditTarget d) (\<lambda>target.
     fbind (text_item d ''pattern'') (\<lambda>pattern.
     fthen (fguard (pattern \<noteq> []) (value_error ''pattern must not be empty''))
      (fbind (fsum (regexFlags (ustr (uget d ''flags'' (UText []))))) (\<lambda>fl.
       case rx_spans rx pattern fl of
         None \<Rightarrow> fraise re_error
       | Some spans \<Rightarrow>
           fbind (fget (\<lambda>fs. text_at fs target)) (\<lambda>content.
           let matches = length (spans content) in
           fthen (fguard (matches \<noteq> 0) (value_error ''pattern did not match''))
             (fret (PRegex target matches (if ubool (uget d ''replaceAll'' (UBool False)) then matches else 1))))))))"

definition previewEdit :: "rx_engine \<Rightarrow> utext \<Rightarrow> udict \<Rightarrow> fresult fsm" where
  "previewEdit rx edit_type d =
     (if edit_type = uni ''replaceText'' then preview_replaceText d
      else if edit_type = uni ''replaceRange'' then preview_replaceRange d
      else if edit_type = uni ''insertText'' then preview_insertText d
      else if edit_type = uni ''replaceRegex'' then preview_replaceRegex rx d
      else fraise edit_type_error)"

text \<open>One edit of a batch that is not a dry run.\<close>

definition apply_replaceText :: "udict \<Rightarrow> fresult fsm" where
  "apply_replaceText d =
     fbind (text_item d ''path'') (\<lambda>s. fbind (text_item d ''oldText'') (\<lambda>old_text.
     fbind (text_item d ''newText'') (\<lambda>new_text.
       replaceText s old_text new_text (ubool (uget d ''replaceAll'' (UBool False))))))"

definition apply_replaceRange :: "udict \<Rightarrow> fresult fsm" where
  "apply_replaceRange d =
     fbind (text_item d ''path'') (\<lambda>s. fbind (int_item d ''lineStart'') (\<lambda>ls.
     fbind (int_item d ''lineEnd'') (\<lambda>le. fbind (text_item d ''newText'') (\<lambda>new_text.
       replaceRange s ls le new_text))))"

definition apply_insertText :: "udict \<Rightarrow> fresult fsm" where
  "apply_insertText d =
     fbind (text_item d ''path'') (\<lambda>s. fbind (text_item d ''anchorText'') (\<lambda>anchor.
     fbind (text_item d ''newText'') (\<lambda>new_text.
     fbind (fsum (uint (uget d ''occurrence'' (UInt 1)))) (\<lambda>occ.
       insertText s anchor new_text (ustr (uget d ''position'' (UText (uni ''after'')))) occ))))"

definition apply_replaceRegex :: "rx_engine \<Rightarrow> udict \<Rightarrow> fresult fsm" where
  "apply_replaceRegex rx d =
     fbind (text_item d ''path'') (\<lambda>s. fbind (text_item d ''pattern'') (\<lambda>pattern.
     fbind (text_item d ''replacement'') (\<lambda>replacement.
       replaceRegex rx s pattern replacement (ubool (uget d ''replaceAll'' (UBool False)))
         (ustr (uget d ''flags'' (UText []))))))"

definition applyEdit :: "rx_engine \<Rightarrow> utext \<Rightarrow> udict \<Rightarrow> fresult fsm" where
  "applyEdit rx edit_type d =
     (if edit_type = uni ''replaceText'' then apply_replaceText d
      else if edit_type = uni ''replaceRange'' then apply_replaceRange d
      else if edit_type = uni ''insertText'' then apply_insertText d
      else if edit_type = uni ''replaceRegex'' then apply_replaceRegex rx d
      else fraise edit_type_error)"

definition edit_type_of :: "udict \<Rightarrow> utext" where
  "edit_type_of d = ustrip (ustr (uget d ''type'' (UText [])))"

fun editBatch_loop ::
  "rx_engine \<Rightarrow> bool \<Rightarrow> bool \<Rightarrow> nat \<Rightarrow> udict list \<Rightarrow> (nat \<times> utext option \<times> bitem) list fsm" where
  "editBatch_loop rx stopOnFailure dryRun index [] = fret []"
| "editBatch_loop rx stopOnFailure dryRun index (d # ds) =
     (let edit_type = edit_type_of d in
      fbind (try_item d (if dryRun then previewEdit rx edit_type d else applyEdit rx edit_type d)) (\<lambda>b.
        (let row = (index, if edit_type = [] then None else Some edit_type, b) in
         if stopOnFailure \<and> \<not> item_success b then fret [row]
         else fbind (editBatch_loop rx stopOnFailure dryRun (Suc index) ds) (\<lambda>rest. fret (row # rest)))))"

record edit_result = batch +
  er_dryRun :: bool
  er_stopOnFailure :: bool
  er_stoppedEarly :: bool

definition editBatch :: "rx_engine \<Rightarrow> udict list \<Rightarrow> bool \<Rightarrow> bool \<Rightarrow> edit_result fsm" where
  "editBatch rx edits stopOnFailure dryRun =
     fbind (editBatch_loop rx stopOnFailure dryRun 0 edits) (\<lambda>results.
       let r = batchResult results in
       fret \<lparr>b_success = b_success r, b_total = b_total r, b_succeeded = b_succeeded r, b_failed = b_failed r,
         b_results = b_results r, er_dryRun = dryRun, er_stopOnFailure = stopOnFailure,
         er_stoppedEarly = (stopOnFailure \<and> b_failed r > 0 \<and> length results < length edits)\<rparr>)"

end
