(* ===== verification/FileTree.thy ===== *)
theory FileTree
  imports FileTools
begin

text \<open>
  The directory tools of \<open>agent/agent_mcp/tools/filesystem.py\<close>: creating, deleting, moving, copying,
  listing and searching, and the diagnostics of a failed patch.  \<open>shutil.move\<close>, \<open>shutil.copytree\<close>
  and \<open>os.walk\<close> are modelled on the file tree of \<open>FileTools\<close>.  The recursion of \<open>copytree\<close> ends
  with an \<open>OSError\<close> when a path exceeds \<open>PATH_MAX\<close> (4096 bytes, so at most 2048 components).
  Programs that are run (\<open>rg\<close>, \<open>git apply\<close>) are arguments.
\<close>

section \<open>Creating and deleting\<close>

definition createDirectory :: "utext \<Rightarrow> bool \<Rightarrow> fresult fsm" where
  "createDirectory s parents =
     fbind (resolvePath s) (\<lambda>target.
     fbind (fget (\<lambda>fs. path_exists fs target)) (\<lambda>existed_before.
     fthen (mkdir parents parents target) (fret (RDir target existed_before))))"

definition rmdir :: "path \<Rightarrow> unit fsm" where
  "rmdir p = (\<lambda>fs. if p = [] \<or> child_names fs p \<noteq> [] then (Inl (OsError ''OSError'' p), fs)
                   else (Inr (), drop_node p fs))"

definition rmtree :: "path \<Rightarrow> unit fsm" where
  "rmtree p = (\<lambda>fs. if p = [] then (Inl (OsError ''OSError'' p), drop_tree p fs) else (Inr (), drop_tree p fs))"

definition deletePath :: "utext \<Rightarrow> bool \<Rightarrow> fresult fsm" where
  "deletePath s recursive =
     fbind (resolvePath s) (\<lambda>target.
     fbind (fget (\<lambda>fs. path_exists fs target)) (\<lambda>existed_before.
       if \<not> existed_before then fret (RDelete target False)
       else fbind (fget (\<lambda>fs. is_dir_node fs target)) (\<lambda>dir.
         fthen (if dir then (if recursive then rmtree target else rmdir target)
                else fmod (drop_node target))
           (fret (RDelete target existed_before)))))"

section \<open>Copying and moving\<close>

text \<open>\<open>shutil.copy2\<close> of a file.\<close>

definition copy_file :: "path \<Rightarrow> path \<Rightarrow> unit fsm" where
  "copy_file src dst = (\<lambda>fs.
     case real_path fs (if is_dir_node fs dst then dst @ [last src] else dst) of
       None \<Rightarrow> (Inl (OsError ''OSError'' dst), fs)
     | Some d \<Rightarrow>
         if d = src then (Inl (Raised ''SameFileError'' (path_text src)), fs)
         else fthen (open_target d) (fmod (set_node d (NFile (file_data fs src)))) fs)"

fun copy_names :: "(utext \<Rightarrow> unit fsm) \<Rightarrow> utext list \<Rightarrow> bool fsm" where
  "copy_names f [] = fret True"
| "copy_names f (n # ns) = (\<lambda>fs. case f n fs of (r, fs1) \<Rightarrow>
     (case copy_names f ns fs1 of
        (Inl e, fs2) \<Rightarrow> (Inl e, fs2)
      | (Inr ok, fs2) \<Rightarrow> (Inr (ok \<and> (case r of Inl e \<Rightarrow> False | Inr _ \<Rightarrow> True)), fs2)))"

definition copy_entry :: "(path \<Rightarrow> path \<Rightarrow> unit fsm) \<Rightarrow> path \<Rightarrow> path \<Rightarrow> unit fsm" where
  "copy_entry copy_dir s d = (\<lambda>fs.
     case real_path fs s of
       None \<Rightarrow> (Inl (OsError ''OSError'' s), fs)
     | Some r \<Rightarrow>
         (case node_at fs r of
            Some NDir \<Rightarrow> copy_dir s d fs
          | Some (NFile b) \<Rightarrow> copy_file r d fs
          | _ \<Rightarrow> (Inl (OsError ''FileNotFoundError'' s), fs)))"

fun copytree :: "nat \<Rightarrow> path \<Rightarrow> path \<Rightarrow> unit fsm" where
  "copytree depth src dst =
     (if depth = 0 then fraise (OsError ''OSError'' dst)
      else (\<lambda>fs. case real_path fs src of
        None \<Rightarrow> (Inl (OsError ''OSError'' src), fs)
      | Some r \<Rightarrow>
          if \<not> is_dir_node fs r then (Inl (OsError ''FileNotFoundError'' src), fs)
          else fthen (mkdir True False dst)
            (fbind (copy_names (\<lambda>n. copy_entry (copytree (depth - 1)) (src @ [n]) (dst @ [n])) (child_names fs r))
              (\<lambda>ok. fguard ok (Raised ''Error'' []))) fs))"

declare copytree.simps [simp del]

definition max_components :: nat where
  "max_components = 2048"

definition copyPath :: "utext \<Rightarrow> utext \<Rightarrow> bool \<Rightarrow> fresult fsm" where
  "copyPath source destination overwrite =
     fbind (resolvePath source) (\<lambda>src.
     fbind (resolvePath destination) (\<lambda>dest.
     fbind (fget (\<lambda>fs. (path_exists fs src, path_exists fs dest))) (\<lambda>(src_exists, existed_before).
     fthen (fguard src_exists (Raised ''FileNotFoundError'' (path_text src)))
      (fthen (fguard (\<not> (existed_before \<and> \<not> overwrite)) (Raised ''FileExistsError'' (path_text dest)))
       (fthen (mkdir True True (butlast dest))
        (fbind (fget (\<lambda>fs. is_dir_node fs src)) (\<lambda>dir.
         fthen (if dir then fthen (if existed_before then rmtree dest else fret ()) (copytree max_components src dest)
                else copy_file src dest)
          (fret (RTransfer src dest existed_before)))))))))"

definition rename_tree :: "path \<Rightarrow> path \<Rightarrow> fsys \<Rightarrow> fsys" where
  "rename_tree src dst fs =
     fs\<lparr>nodes := map (\<lambda>qn. if prefix src (fst qn) then (dst @ drop (length src) (fst qn), snd qn) else qn)
                   (filter (\<lambda>qn. \<not> prefix dst (fst qn)) (nodes fs))\<rparr>"

definition os_rename :: "path \<Rightarrow> path \<Rightarrow> unit fsm" where
  "os_rename src dst = (\<lambda>fs.
     if src = dst then (Inr (), fs)
     else if src = [] \<or> dst = [] \<or> prefix src dst then (Inl (OsError ''OSError'' src), fs)
     else if is_dir_node fs src then
       (if is_dir_node fs dst \<and> child_names fs dst \<noteq> [] then (Inl (OsError ''OSError'' src), fs)
        else if path_exists fs dst \<and> \<not> is_dir_node fs dst then (Inl (OsError ''NotADirectoryError'' src), fs)
        else if is_dir_node fs (butlast dst) then (Inr (), rename_tree src dst fs)
        else (Inl (missing_error fs dst), fs))
     else if is_dir_node fs dst then (Inl (OsError ''IsADirectoryError'' src), fs)
     else if is_dir_node fs (butlast dst) then (Inr (), rename_tree src dst fs)
     else (Inl (missing_error fs dst), fs))"

definition shutil_move :: "path \<Rightarrow> path \<Rightarrow> unit fsm" where
  "shutil_move src dst = (\<lambda>fs.
     if is_dir_node fs dst \<and> src = dst then os_rename src dst fs
     else if src = [] then (Inl (Raised ''Error'' (path_text dst)), fs)
     else
       (let real_dst = (if is_dir_node fs dst then dst @ [last src] else dst) in
        if is_dir_node fs dst \<and> path_exists fs real_dst then (Inl (Raised ''Error'' (path_text real_dst)), fs)
        else case os_rename src real_dst fs of
               (Inr (), fs') \<Rightarrow> (Inr (), fs')
             | (Inl e, fs') \<Rightarrow>
                 if is_dir_node fs src then
                   (if prefix src dst then (Inl (Raised ''Error'' (path_text src)), fs')
                    else fthen (copytree max_components src real_dst) (rmtree src) fs')
                 else fthen (copy_file src real_dst) (fmod (drop_node src)) fs'))"

definition movePath :: "utext \<Rightarrow> utext \<Rightarrow> fresult fsm" where
  "movePath source destination =
     fbind (resolvePath source) (\<lambda>src.
     fbind (resolvePath destination) (\<lambda>dest.
     fbind (fget (\<lambda>fs. (path_exists fs src, path_exists fs dest))) (\<lambda>(src_exists, existed_before).
     fthen (fguard src_exists (Raised ''FileNotFoundError'' (path_text src)))
      (fthen (mkdir True True (butlast dest))
       (fthen (shutil_move src dest) (fret (RTransfer src dest existed_before)))))))"

section \<open>Listing\<close>

record entry =
  e_path :: path
  e_abs :: path
  e_isdir :: bool
  e_size :: nat
  e_mtime :: utext

text \<open>\<open>_entry\<close>; the relative path is kept as its components.\<close>

definition entry_of :: "fsys \<Rightarrow> path \<Rightarrow> path \<Rightarrow> pyexn + entry" where
  "entry_of fs p base =
     (case real_path fs p of
        None \<Rightarrow> Inl (OsError ''OSError'' p)
      | Some r \<Rightarrow>
          (case node_at fs r of
             Some (NFile b) \<Rightarrow> Inr \<lparr>e_path = drop (length base) p, e_abs = p, e_isdir = False,
                                   e_size = length b, e_mtime = snd (stat_meta fs r)\<rparr>
           | Some NDir \<Rightarrow> Inr \<lparr>e_path = drop (length base) p, e_abs = p, e_isdir = True,
                               e_size = fst (stat_meta fs r), e_mtime = snd (stat_meta fs r)\<rparr>
           | _ \<Rightarrow> Inl (OsError ''FileNotFoundError'' p)))"

fun entries_of :: "fsys \<Rightarrow> path \<Rightarrow> path list \<Rightarrow> pyexn + entry list" where
  "entries_of fs base [] = Inr []"
| "entries_of fs base (p # ps) =
     (case entry_of fs p base of
        Inl e \<Rightarrow> Inl e
      | Inr x \<Rightarrow> (case entries_of fs base ps of Inl e \<Rightarrow> Inl e | Inr xs \<Rightarrow> Inr (x # xs)))"

definition hidden_name :: "utext \<Rightarrow> bool" where
  "hidden_name n \<longleftrightarrow> prefix [46] n"

definition leads_to_dir :: "fsys \<Rightarrow> path \<Rightarrow> bool" where
  "leads_to_dir fs p \<longleftrightarrow> (case real_path fs p of Some r \<Rightarrow> is_dir_node fs r | None \<Rightarrow> False)"

definition is_link :: "fsys \<Rightarrow> path \<Rightarrow> bool" where
  "is_link fs p \<longleftrightarrow> (case node_at fs p of Some (NLink t) \<Rightarrow> True | _ \<Rightarrow> False)"

text \<open>\<open>os.walk\<close> as \<open>_iterFiles\<close> prunes it; \<open>levels\<close> is \<open>maxDepth - depth\<close>.\<close>

fun walk :: "fsys \<Rightarrow> bool \<Rightarrow> nat \<Rightarrow> path \<Rightarrow> path list" where
  "walk fs includeHidden levels current =
     (let names = child_names fs current;
          shown = (\<lambda>n. includeHidden \<or> \<not> hidden_name n);
          dirs = (if levels = 0 then []
                  else filter (\<lambda>n. shown n \<and> leads_to_dir fs (current @ [n])) names);
          files = filter (\<lambda>n. shown n \<and> \<not> leads_to_dir fs (current @ [n])) names
      in map (\<lambda>n. current @ [n]) (sort_key ulower dirs) @ map (\<lambda>n. current @ [n]) (sort_key ulower files) @
         (if levels = 0 then []
          else concat (map (\<lambda>n. if is_link fs (current @ [n]) then []
                                 else walk fs includeHidden (levels - 1) (current @ [n])) dirs)))"

declare walk.simps [simp del]

definition iterFiles :: "fsys \<Rightarrow> path \<Rightarrow> bool \<Rightarrow> nat \<Rightarrow> bool \<Rightarrow> path list" where
  "iterFiles fs base recursive maxDepth includeHidden =
     (if \<not> recursive
      then map (\<lambda>n. base @ [n])
             (filter (\<lambda>n. includeHidden \<or> \<not> hidden_name n) (sort_key ulower (child_names fs base)))
      else walk fs includeHidden maxDepth base)"

text \<open>A relative path is compared as its text, a size as a one-element list.\<close>

definition rel_text :: "path \<Rightarrow> utext" where
  "rel_text p = (if p = [] then [46] else intercalate [47] p)"

definition sortKey :: "utext \<Rightarrow> entry \<Rightarrow> nat list" where
  "sortKey by e =
     (if by = uni ''name'' then (if e_path e = [] then [] else ulower (last (e_path e)))
      else if by = uni ''mtime'' then e_mtime e
      else if by = uni ''size'' then [e_size e]
      else ulower (rel_text (e_path e)))"

text \<open>\<open>entries.sort(key=..., reverse=descending)\<close>: stable in both directions.\<close>

definition sort_entries :: "utext \<Rightarrow> bool \<Rightarrow> entry list \<Rightarrow> entry list" where
  "sort_entries by descending es =
     (if descending then rev (sort_key (sortKey by) (rev es)) else sort_key (sortKey by) es)"

definition normalizeSortBy :: "utext \<Rightarrow> utext fsm" where
  "normalizeSortBy = normalizeOption [''path'', ''name'', ''mtime'', ''size'']
     ''sortBy must be one of: path, name, mtime, size''"

definition normalizeSortOrder :: "utext \<Rightarrow> utext fsm" where
  "normalizeSortOrder = normalizeOption [''asc'', ''desc''] ''sortOrder must be one of: asc, desc''"

record listing =
  l_path :: path
  l_entries :: "entry list"
  l_truncated :: bool
  l_sortBy :: utext
  l_descending :: bool

definition listFiles ::
  "utext \<Rightarrow> bool \<Rightarrow> int \<Rightarrow> int \<Rightarrow> bool \<Rightarrow> utext \<Rightarrow> utext \<Rightarrow> listing fsm" where
  "listFiles s recursive maxDepth limit includeHidden sortBy sortOrder =
     fbind (resolvePath s) (\<lambda>base.
     fbind (fget (\<lambda>fs. path_exists fs base)) (\<lambda>ex.
     fthen (fguard ex (Raised ''FileNotFoundError'' (path_text base)))
      (let max_depth = nat (max 0 maxDepth); max_items = nat (max 1 limit) in
       fbind (normalizeSortBy sortBy) (\<lambda>sort_by.
       fbind (normalizeSortOrder sortOrder) (\<lambda>order.
       let descending = (order = uni ''desc'') in
       fbind (fget (\<lambda>fs. is_file_node fs base)) (\<lambda>file.
         if file then
           fbind (\<lambda>fs. fsum (entries_of fs (butlast base) [base]) fs) (\<lambda>es.
             fret \<lparr>l_path = base, l_entries = es, l_truncated = False, l_sortBy = sort_by, l_descending = descending\<rparr>)
         else
           fbind (\<lambda>fs. fsum (entries_of fs base (iterFiles fs base recursive max_depth includeHidden)) fs) (\<lambda>es.
             let sorted_es = sort_entries sort_by descending es;
                 truncated = (length es > max_items) in
             fret \<lparr>l_path = base, l_entries = (if truncated then take max_items sorted_es else sorted_es),
                   l_truncated = truncated, l_sortBy = sort_by, l_descending = descending\<rparr>)))))))"

text \<open>The counts of \<open>_batchResult\<close>: success, total, succeeded, failed.\<close>

definition batch_counts :: "('a \<Rightarrow> bool) \<Rightarrow> 'a list \<Rightarrow> bool \<times> nat \<times> nat \<times> nat" where
  "batch_counts ok results =
     (let succeeded = length (filter ok results)
      in (succeeded = length results, length results, succeeded, length results - succeeded))"

datatype stat_item = SMissing path | SEntry entry | SErr path pyexn

fun stat_ok :: "stat_item \<Rightarrow> bool" where
  "stat_ok (SMissing p) = False"
| "stat_ok (SEntry x) = True"
| "stat_ok (SErr p e) = False"

fun stat_items :: "utext list \<Rightarrow> stat_item list fsm" where
  "stat_items [] = fret []"
| "stat_items (raw # raws) =
     fbind (resolvePath raw) (\<lambda>p.
     fbind (fget (\<lambda>fs. if \<not> path_exists fs p then SMissing p
                        else (case entry_of fs p (butlast p) of Inr x \<Rightarrow> SEntry x | Inl e \<Rightarrow> SErr p e))) (\<lambda>x.
     fbind (stat_items raws) (\<lambda>xs. fret (x # xs))))"

definition statPaths :: "utext list \<Rightarrow> ((bool \<times> nat \<times> nat \<times> nat) \<times> stat_item list) fsm" where
  "statPaths paths = fbind (stat_items paths) (\<lambda>rs. fret (batch_counts stat_ok rs, rs))"

section \<open>Searching\<close>

text \<open>
  \<open>fnmatch.fnmatchcase\<close>: the set of a bracket ends at the first \<open>]\<close> that is not its first member;
  a bracket that is not closed is a plain character.
\<close>

definition close_at :: "utext \<Rightarrow> nat option" where
  "close_at p =
     (let i = (if prefix [33] p then 1 else 0);
          j = (if prefix [93] (drop i p) then i + 1 else i)
      in map_option (\<lambda>k. j + k) (find_sub [93] (drop j p)))"

fun in_ranges :: "utext \<Rightarrow> nat \<Rightarrow> bool" where
  "in_ranges (a # b # d # cs) c =
     (if b = 45 then (a \<le> c \<and> c \<le> d) \<or> in_ranges cs c else c = a \<or> in_ranges (b # d # cs) c)"
| "in_ranges cs c = (c \<in> set cs)"

definition in_bracket :: "utext \<Rightarrow> nat \<Rightarrow> bool" where
  "in_bracket stuff c = (if prefix [33] stuff then \<not> in_ranges (tl stuff) c else in_ranges stuff c)"

lemma close_at_less: "close_at p = Some j \<Longrightarrow> j < length p"
  by (auto simp: close_at_def Let_def dest!: find_sub_SomeD split: if_splits)

function fnmatch :: "utext \<Rightarrow> utext \<Rightarrow> bool" where
  "fnmatch [] t = (t = [])"
| "fnmatch (c # p) t =
     (if c = 42 then fnmatch p t \<or> (case t of [] \<Rightarrow> False | x # xs \<Rightarrow> fnmatch (c # p) xs)
      else if c = 63 then (case t of [] \<Rightarrow> False | x # xs \<Rightarrow> fnmatch p xs)
      else if c = 91 \<and> close_at p \<noteq> None then
        (case t of [] \<Rightarrow> False
         | x # xs \<Rightarrow> in_bracket (take (the (close_at p)) p) x \<and> fnmatch (drop (Suc (the (close_at p))) p) xs)
      else (case t of [] \<Rightarrow> False | x # xs \<Rightarrow> x = c \<and> fnmatch p xs))"
  by pat_completeness auto
termination by (relation "measure (\<lambda>(p, t). length p + length t)") auto

declare fnmatch.simps(2) [simp del]

definition normalizeSearchFilesMode :: "utext \<Rightarrow> utext fsm" where
  "normalizeSearchFilesMode = normalizeOption [''contains'', ''glob'', ''regex'']
     ''mode must be one of: contains, glob, regex''"

definition fold_case :: "bool \<Rightarrow> utext \<Rightarrow> utext" where
  "fold_case ignoreCase t = (if ignoreCase then ulower t else t)"

text \<open>\<open>_fileNameMatches\<close>; \<open>regex\<close> tells whether the compiled pattern is found in a name.\<close>

definition fileNameMatches :: "utext \<Rightarrow> utext \<Rightarrow> utext \<Rightarrow> bool \<Rightarrow> (utext \<Rightarrow> bool) \<Rightarrow> bool" where
  "fileNameMatches name pattern mode ignoreCase regex =
     (if mode = uni ''regex'' then regex name
      else if mode = uni ''glob'' then fnmatch (fold_case ignoreCase pattern) (fold_case ignoreCase name)
      else sublist (fold_case ignoreCase pattern) (fold_case ignoreCase name))"

definition descendants :: "fsys \<Rightarrow> path \<Rightarrow> path list" where
  "descendants fs p = filter (\<lambda>q. strict_prefix p q) (map fst (nodes fs))"

text \<open>The loop over the candidates, which stops when the limit is reached.\<close>

fun collect_matches ::
  "fsys \<Rightarrow> path \<Rightarrow> (path \<Rightarrow> bool) \<Rightarrow> nat \<Rightarrow> path list \<Rightarrow> entry list \<Rightarrow> pyexn + entry list" where
  "collect_matches fs base matches max_items [] found = Inr (rev found)"
| "collect_matches fs base matches max_items (p # ps) found =
     (if \<not> matches p then collect_matches fs base matches max_items ps found
      else case entry_of fs p base of
             Inl e \<Rightarrow> Inl e
           | Inr x \<Rightarrow> if length (x # found) \<ge> max_items then Inr (rev (x # found))
                      else collect_matches fs base matches max_items ps (x # found))"

record file_matches =
  fm_path :: path
  fm_mode :: utext
  fm_matches :: "entry list"
  fm_truncated :: bool

definition searchFiles ::
  "rx_engine \<Rightarrow> utext \<Rightarrow> utext \<Rightarrow> bool \<Rightarrow> bool \<Rightarrow> utext \<Rightarrow> int \<Rightarrow> file_matches fsm" where
  "searchFiles rx pattern s recursive ignoreCase mode limit =
     fthen (fguard (pattern \<noteq> []) (value_error ''pattern must not be empty''))
      (fbind (normalizeSearchFilesMode mode) (\<lambda>search_mode.
       fbind (resolvePath s) (\<lambda>base.
       fbind (fget (\<lambda>fs. path_exists fs base)) (\<lambda>ex.
       fthen (fguard ex (Raised ''FileNotFoundError'' (path_text base)))
        (let max_items = nat (max 1 limit);
             compiled = (if search_mode = uni ''regex'' then rx_spans rx pattern (ignoreCase, False, False)
                         else Some (\<lambda>_. [])) in
         case compiled of
           None \<Rightarrow> fraise re_error
         | Some spans \<Rightarrow>
             fbind (\<lambda>fs.
               let candidates = (if is_file_node fs base then [base]
                                 else if recursive then descendants fs base
                                 else map (\<lambda>n. base @ [n]) (child_names fs base));
                   rel_base = (if is_file_node fs base then butlast base else base);
                   matches = (\<lambda>p. fileNameMatches (if p = [] then [] else last p) pattern search_mode ignoreCase
                                     (\<lambda>t. spans t \<noteq> []))
               in fsum (collect_matches fs rel_base matches max_items
                          (sort_key (\<lambda>p. ulower (path_text p)) candidates) []) fs)
             (\<lambda>found. fret \<lparr>fm_path = base, fm_mode = search_mode, fm_matches = found,
                            fm_truncated = (length found \<ge> max_items)\<rparr>))))))"

type_synonym text_match = "utext \<times> int \<times> utext"

record text_matches =
  tm_success :: bool
  tm_matches :: "text_match list"
  tm_truncated :: bool

text \<open>The lines of a file as iteration over the open file gives them, without the final newlines.\<close>

fun byte_lines_acc :: "bytes \<Rightarrow> bytes \<Rightarrow> bytes list" where
  "byte_lines_acc acc [] = (if acc = [] then [] else [rev acc])"
| "byte_lines_acc acc (b # bs) =
     (if b = 10 then rev (b # acc) # byte_lines_acc [] bs else byte_lines_acc (b # acc) bs)"

definition line_text :: "bytes \<Rightarrow> utext" where
  "line_text raw = rdropWhile (\<lambda>c. c = 10) (decodeReplace raw)"

text \<open>The lines of one file: the matches so far and whether the limit was reached.\<close>

fun scan_lines ::
  "(utext \<Rightarrow> bool) \<Rightarrow> nat \<Rightarrow> utext \<Rightarrow> int \<Rightarrow> bytes list \<Rightarrow> text_match list \<Rightarrow> text_match list \<times> bool" where
  "scan_lines matched limit item line_number [] found = (found, False)"
| "scan_lines matched limit item line_number (raw # raws) found =
     (let line = line_text raw;
          found' = (if matched line then found @ [(item, line_number, line)] else found) in
      if length found' \<ge> limit then (found', True)
      else scan_lines matched limit item (line_number + 1) raws found')"

fun scan_files ::
  "fsys \<Rightarrow> (utext \<Rightarrow> bool) \<Rightarrow> nat \<Rightarrow> path list \<Rightarrow> text_match list \<Rightarrow> text_match list \<times> bool" where
  "scan_files fs matched limit [] found = (found, False)"
| "scan_files fs matched limit (p # ps) found =
     (case real_path fs p of
        None \<Rightarrow> scan_files fs matched limit ps found
      | Some r \<Rightarrow>
          if \<not> is_file_node fs r \<or> looksBinary (take 4096 (file_data fs r))
          then scan_files fs matched limit ps found
          else (case scan_lines matched limit (path_text p) 1 (byte_lines_acc [] (file_data fs r)) found of
                  (found', full) \<Rightarrow> if full then (found', True) else scan_files fs matched limit ps found'))"

text \<open>\<open>root.rglob(pattern)\<close> for a relative pattern without \<open>**\<close>: its parts match the last components.\<close>

definition rglob :: "fsys \<Rightarrow> path \<Rightarrow> utext \<Rightarrow> path list" where
  "rglob fs base pattern =
     (let parts = upath_parts pattern in
      filter (\<lambda>q. length base + length parts \<le> length q \<and>
                  list_all2 fnmatch parts (drop (length q - length parts) q)) (descendants fs base))"

definition searchWithPython ::
  "rx_engine \<Rightarrow> utext \<Rightarrow> path \<Rightarrow> utext option \<Rightarrow> bool \<Rightarrow> bool \<Rightarrow> nat \<Rightarrow> text_matches fsm" where
  "searchWithPython rx query base glob ignoreCase useRegex limit =
     (let needle = fold_case ignoreCase query;
          compiled = (if useRegex then rx_spans rx query (ignoreCase, False, False) else Some (\<lambda>_. [])) in
      case compiled of
        None \<Rightarrow> fraise re_error
      | Some spans \<Rightarrow>
          fget (\<lambda>fs.
            let matched = (\<lambda>line. if useRegex then spans line \<noteq> [] else sublist needle (fold_case ignoreCase line));
                pattern = (case glob of None \<Rightarrow> [42] | Some g \<Rightarrow> if g = [] then [42] else g);
                paths = (if is_file_node fs base then [base] else rglob fs base pattern)
            in case scan_files fs matched limit paths [] of
                 (found, full) \<Rightarrow> \<lparr>tm_success = True, tm_matches = found, tm_truncated = full\<rparr>))"

text \<open>\<open>_parseRgLine\<close>: \<open>path:number:line\<close>.\<close>

definition parseRgLine :: "utext \<Rightarrow> text_match option" where
  "parseRgLine line =
     (case find_sub [58] line of
        None \<Rightarrow> None
      | Some first \<Rightarrow>
          (case find_from [58] line (first + 1) of
             None \<Rightarrow> None
           | Some second \<Rightarrow>
               (case parse_int (take (second - (first + 1)) (drop (first + 1) line)) of
                  None \<Rightarrow> None
                | Some n \<Rightarrow> Some (take first line, n, drop (second + 1) line))))"

fun rg_matches :: "nat \<Rightarrow> utext list \<Rightarrow> text_match list \<Rightarrow> text_match list" where
  "rg_matches limit [] found = found"
| "rg_matches limit (line # ls) found =
     (let found' = (case parseRgLine line of Some m \<Rightarrow> found @ [m] | None \<Rightarrow> found) in
      if length found' \<ge> limit then found' else rg_matches limit ls found')"

text \<open>The argument vector of \<open>rg\<close>; \<open>rg\<close> maps it to the return code and the standard output.\<close>

definition rg_command :: "utext \<Rightarrow> path \<Rightarrow> utext option \<Rightarrow> bool \<Rightarrow> bool \<Rightarrow> utext list" where
  "rg_command query base glob ignoreCase useRegex =
     map uni [''rg'', ''--line-number'', ''--no-heading'', ''--color'', ''never''] @
     (if useRegex then [] else [uni ''--fixed-strings'']) @
     (if ignoreCase then [uni ''--ignore-case''] else []) @
     (case glob of None \<Rightarrow> [] | Some g \<Rightarrow> if g = [] then [] else [uni ''--glob'', g]) @
     [query, path_text base]"

definition strip_ends :: "utext list \<Rightarrow> utext list" where
  "strip_ends ls = map (rdropWhile is_usep) ls"

definition searchWithRg ::
  "(utext list \<Rightarrow> int \<times> utext) \<Rightarrow> utext \<Rightarrow> path \<Rightarrow> utext option \<Rightarrow> bool \<Rightarrow> bool \<Rightarrow> nat \<Rightarrow> text_matches fsm" where
  "searchWithRg rg query base glob ignoreCase useRegex limit =
     (case rg (rg_command query base glob ignoreCase useRegex) of
        (code, out) \<Rightarrow>
          (let found = rg_matches limit (strip_ends (keeplines out)) [] in
           fret \<lparr>tm_success = (code = 0 \<or> code = 1), tm_matches = found, tm_truncated = (length found \<ge> limit)\<rparr>))"

definition searchText ::
  "rx_engine \<Rightarrow> (utext list \<Rightarrow> int \<times> utext) option \<Rightarrow> utext \<Rightarrow> utext \<Rightarrow> utext option \<Rightarrow> bool \<Rightarrow> bool \<Rightarrow> int
   \<Rightarrow> text_matches fsm" where
  "searchText rx rg query s glob ignoreCase useRegex limit =
     fthen (fguard (query \<noteq> []) (value_error ''query must not be empty''))
      (fbind (resolvePath s) (\<lambda>base.
       let max_items = nat (max 1 limit) in
       case rg of
         Some run_rg \<Rightarrow> searchWithRg run_rg query base glob ignoreCase useRegex max_items
       | None \<Rightarrow> searchWithPython rx query base glob ignoreCase useRegex max_items))"

datatype search_item = TOk text_matches | TErr utext pyexn

fun search_item_success :: "search_item \<Rightarrow> bool" where
  "search_item_success (TOk r) = tm_success r"
| "search_item_success (TErr q e) = False"

fun searchTexts_loop :: "(utext \<Rightarrow> text_matches fsm) \<Rightarrow> utext list \<Rightarrow> search_item list fsm" where
  "searchTexts_loop search [] = fret []"
| "searchTexts_loop search (q # qs) =
     fbind (\<lambda>fs. case search q fs of (Inl e, fs') \<Rightarrow> (Inr (TErr q e), fs') | (Inr r, fs') \<Rightarrow> (Inr (TOk r), fs')) (\<lambda>x.
     fbind (searchTexts_loop search qs) (\<lambda>xs. fret (x # xs)))"

definition searchTexts ::
  "rx_engine \<Rightarrow> (utext list \<Rightarrow> int \<times> utext) option \<Rightarrow> utext list \<Rightarrow> utext \<Rightarrow> utext option \<Rightarrow> bool \<Rightarrow> bool \<Rightarrow> int
   \<Rightarrow> ((bool \<times> nat \<times> nat \<times> nat) \<times> search_item list) fsm" where
  "searchTexts rx rg queries s glob ignoreCase useRegex limitPerQuery =
     fbind (searchTexts_loop (\<lambda>q. searchText rx rg q s glob ignoreCase useRegex limitPerQuery) queries)
       (\<lambda>rs. fret (batch_counts search_item_success rs, rs))"

section \<open>Diagnostics of a failed patch\<close>

definition usub :: "string \<Rightarrow> utext \<Rightarrow> bool" where
  "usub p t \<longleftrightarrow> sublist (uni p) t"

definition is_udigit :: "nat \<Rightarrow> bool" where
  "is_udigit c \<longleftrightarrow> 48 \<le> c \<and> c \<le> 57"

text \<open>One or more characters of a class; a literal; each gives the rest of the line.\<close>

definition skip1 :: "(nat \<Rightarrow> bool) \<Rightarrow> utext \<Rightarrow> utext option" where
  "skip1 P t = (case t of c # cs \<Rightarrow> if P c then Some (dropWhile P cs) else None | [] \<Rightarrow> None)"

definition skip_lit :: "utext \<Rightarrow> utext \<Rightarrow> utext option" where
  "skip_lit l t = (if prefix l t then Some (drop (length l) t) else None)"

definition skip_count :: "utext \<Rightarrow> utext option" where
  "skip_count t = (case Option.bind (skip_lit [44] t) (skip1 is_udigit) of Some r \<Rightarrow> Some r | None \<Rightarrow> Some t)"

text \<open>The pattern \<open>^@@\s+-\d+(?:,\d+)?\s+\+\d+(?:,\d+)?\s+@@\<close>.\<close>

definition hunk_header :: "utext \<Rightarrow> bool" where
  "hunk_header line =
     (Option.bind (skip_lit (uni ''@@'') line) (\<lambda>a. Option.bind (skip1 uspace a) (\<lambda>b.
      Option.bind (skip_lit [45] b) (\<lambda>c. Option.bind (skip1 is_udigit c) (\<lambda>d.
      Option.bind (skip_count d) (\<lambda>e. Option.bind (skip1 uspace e) (\<lambda>f.
      Option.bind (skip_lit [43] f) (\<lambda>g. Option.bind (skip1 is_udigit g) (\<lambda>h.
      Option.bind (skip_count h) (\<lambda>i. Option.bind (skip1 uspace i) (skip_lit (uni ''@@''))))))))))) \<noteq> None)"

definition countPatchHunks :: "utext \<Rightarrow> nat" where
  "countPatchHunks patch = length (filter hunk_header (keeplines patch))"

text \<open>The first match of \<open>corrupt patch at line\s+(\d+)\<close>, in upper or lower case.\<close>

definition reported_at :: "utext \<Rightarrow> nat option" where
  "reported_at t =
     Option.bind (skip_lit (uni ''corrupt patch at line'') (ulower t)) (\<lambda>a. Option.bind (skip1 uspace a) (\<lambda>b.
       udigits (takeWhile is_udigit b)))"

fun reportedPatchLine :: "utext \<Rightarrow> nat option" where
  "reportedPatchLine [] = None"
| "reportedPatchLine (c # cs) =
     (case reported_at (c # cs) of Some n \<Rightarrow> Some n | None \<Rightarrow> reportedPatchLine cs)"

record patch_diagnostics =
  pd_hasPatchHeaders :: bool
  pd_hunkCount :: nat
  pd_reportedLine :: "nat option"
  pd_likelyCause :: string
  pd_suggestedTool :: string
  pd_suggestions :: "string list"

definition formatPatchDiagnostics :: "utext \<Rightarrow> utext \<Rightarrow> patch_diagnostics" where
  "formatPatchDiagnostics patch stderr =
     (let corrupt = usub ''corrupt patch at line'' stderr;
          invalid = usub ''No valid patches in input'' stderr;
          stale = usub ''patch does not apply'' stderr;
          suggestions =
            (if corrupt then [''Use replaceRange or editBatch for small edits, or fix the hunk header line counts.''] else []) @
            (if invalid then [''Use a standard unified diff with ---/+++ file headers and @@ hunk headers.''] else []) @
            (if stale then [''Re-read the target file and regenerate the patch against current content.''] else [])
      in \<lparr>pd_hasPatchHeaders = (usub ''--- '' patch \<and> usub ''+++ '' patch),
          pd_hunkCount = countPatchHunks patch,
          pd_reportedLine = reportedPatchLine stderr,
          pd_likelyCause = (if stale then ''stale_context'' else if invalid then ''invalid_patch_format''
                            else if corrupt then ''corrupt_hunk'' else ''unknown''),
          pd_suggestedTool = (if stale then ''replaceRange'' else if invalid then ''format_unified_diff''
                              else if corrupt then ''replaceRange'' else ''applyPatch''),
          pd_suggestions = (if suggestions = [] then [''Verify file paths, hunk headers, and unchanged context lines.'']
                            else suggestions)\<rparr>)"

section \<open>Applying a patch\<close>

record patch_result =
  pr_success :: bool
  pr_cwd :: path
  pr_returnCode :: int
  pr_stdout :: utext
  pr_stderr :: utext

text \<open>\<open>try: m finally: clean\<close>, and \<open>os.unlink\<close> whose \<open>OSError\<close> is ignored.\<close>

definition ffinally :: "'a fsm \<Rightarrow> (fsys \<Rightarrow> fsys) \<Rightarrow> 'a fsm" where
  "ffinally m clean = (\<lambda>fs. case m fs of (r, fs') \<Rightarrow> (r, clean fs'))"

definition unlink_quietly :: "path \<Rightarrow> fsys \<Rightarrow> fsys" where
  "unlink_quietly p fs = (if is_dir_node fs p then fs else drop_node p fs)"

text \<open>
  \<open>git\<close> is \<open>git apply --whitespace=nowarn patch_path\<close> run in a directory: the return code and the
  two outputs, or the exception of \<open>subprocess.run\<close>, and the tree it leaves.
\<close>

definition applyPatch ::
  "(path \<Rightarrow> path \<Rightarrow> (int \<times> utext \<times> utext) fsm) \<Rightarrow> path \<Rightarrow> utext \<Rightarrow> utext \<Rightarrow> patch_result fsm" where
  "applyPatch git patch_path patch s =
     fthen (fguard (ustrip patch \<noteq> []) (value_error ''patch must not be empty''))
      (fbind (resolvePath s) (\<lambda>workdir.
       fthen (write_text patch_path patch)
        (ffinally
          (fbind (git patch_path workdir) (\<lambda>(code, out, err).
             fret \<lparr>pr_success = (code = 0), pr_cwd = workdir, pr_returnCode = code, pr_stdout = out, pr_stderr = err\<rparr>))
          (unlink_quietly patch_path))))"

end
