(* ===== verification/FileEdits.thy ===== *)
theory FileEdits
  imports FileTree
begin

text \<open>
  What the file tools guarantee: paging through a file reassembles it, a written file is read back,
  an exact replacement changes the matches and nothing else, a dry run predicts the run and changes
  nothing, a batch of edits touches only the files it names.
\<close>

lemmas fsm_defs = fret_def fraise_def fbind_def fthen_def fget_def fmod_def fguard_def fsum_def

section \<open>Operations that only read\<close>

definition readonly :: "'a fsm \<Rightarrow> bool" where
  "readonly m \<longleftrightarrow> (\<forall>fs. snd (m fs) = fs)"

named_theorems readonly_rules "tools that leave the file tree as it is"

lemma readonly_fret [readonly_rules]: "readonly (fret x)" and readonly_fraise [readonly_rules]: "readonly (fraise e)"
  and readonly_fget [readonly_rules]: "readonly (fget f)" and readonly_fsum [readonly_rules]: "readonly (fsum r)"
  and readonly_fguard [readonly_rules]: "readonly (fguard b e)"
  by (simp_all add: readonly_def fsm_defs)

lemma readonly_fbind [readonly_rules]: "readonly m \<Longrightarrow> (\<And>x. readonly (f x)) \<Longrightarrow> readonly (fbind m f)"
  by (auto simp: readonly_def fbind_def split: prod.splits sum.splits) (metis snd_conv)+

lemma readonly_fthen [readonly_rules]: "readonly m \<Longrightarrow> readonly n \<Longrightarrow> readonly (fthen m n)"
  unfolding fthen_def by (intro readonly_rules)

lemma readonly_resolve [readonly_rules]: "readonly (resolvePath s)"
  by (simp add: readonly_def resolvePath_def Let_def split: sum.splits option.splits)

lemma readonly_if [readonly_rules]: "readonly m \<Longrightarrow> readonly n \<Longrightarrow> readonly (if b then m else n)"
  by simp

lemma readonly_option [readonly_rules]:
  "readonly m \<Longrightarrow> (\<And>x. readonly (f x)) \<Longrightarrow> readonly (case v of None \<Rightarrow> m | Some x \<Rightarrow> f x)"
  by (cases v) auto

lemma readonly_state: "readonly m \<Longrightarrow> m fs = (fst (m fs), fs)"
  by (metis readonly_def surjective_pairing)

lemma readonly_checks [readonly_rules]: "readonly (require_file p)" "readonly (ensureTextFile p)"
  unfolding require_file_def ensureTextFile_def by (intro readonly_rules)+

lemma readonly_items [readonly_rules]: "readonly (text_item d k)" "readonly (int_item d k)"
  unfolding text_item_def int_item_def by (intro readonly_rules)+

lemma readonly_normalize [readonly_rules]: "readonly (normalizeOption allowed m s)" "readonly (normalizePosition s)"
  unfolding normalizePosition_def normalizeOption_def Let_def by (intro readonly_rules)+

lemma readonly_target [readonly_rules]: "readonly (textEditTarget d)"
  unfolding textEditTarget_def by (intro readonly_rules)

lemma readonly_readFile [readonly_rules]: "readonly (readFile s off lmt ls ll)"
  unfolding readFile_def readFileLines_def readFileBytes_def by (intro readonly_rules)

lemma readonly_previewEdit [readonly_rules]: "readonly (previewEdit rx t d)"
  unfolding previewEdit_def preview_replaceText_def preview_replaceRange_def preview_insertText_def
    preview_replaceRegex_def Let_def
  by (intro readonly_rules)

lemma readonly_try_item [readonly_rules]: "readonly m \<Longrightarrow> readonly (try_item d m)"
  by (auto simp: readonly_def try_item_def split: prod.splits sum.splits) (metis snd_conv)+

lemma readonly_dry_run: "readonly (editBatch_loop rx stop True i ds)"
proof (induction ds arbitrary: i)
  case Nil
  show ?case by (simp add: readonly_rules)
next
  case (Cons d ds)
  show ?case unfolding editBatch_loop.simps Let_def if_True
    by (intro readonly_rules Cons.IH)
qed

section \<open>File trees\<close>

definition link_at :: "fsys \<Rightarrow> path \<Rightarrow> utext option" where
  "link_at fs q = (case node_at fs q of Some (NLink t) \<Rightarrow> Some t | _ \<Rightarrow> None)"

lemma node_at_set_node: "p \<noteq> [] \<Longrightarrow> node_at (set_node p n fs) q = (if q = p then Some n else node_at fs q)"
  by (simp add: node_at_def set_node_def update_conv')

lemma set_node_twice [simp]: "set_node p n (set_node p n' fs) = set_node p n fs"
  by (simp add: set_node_def)

lemma set_node_fields [simp]: "cwd (set_node p n fs) = cwd fs" "homes (set_node p n fs) = homes fs"
  "stat_meta (set_node p n fs) = stat_meta fs"
  by (simp_all add: set_node_def)

text \<open>Path resolution depends on the links only.\<close>

lemma resolve_parts_Cons:
  "resolve_parts l fs dn (c # todo) =
     (if c = [46, 46] then resolve_parts l fs (butlast dn) todo
      else case link_at fs (dn @ [c]) of
             Some target \<Rightarrow>
               (case l of 0 \<Rightarrow> None
                | Suc l' \<Rightarrow> resolve_parts l' fs (if prefix [47] target then [] else dn) (upath_parts target @ todo))
           | None \<Rightarrow> resolve_parts l fs (dn @ [c]) todo)"
  by (simp add: link_at_def split: option.splits node.splits)

lemma resolve_parts_links:
  assumes "\<And>q. link_at fs q = link_at fs' q"
  shows "resolve_parts l fs dn todo = resolve_parts l fs' dn todo"
proof (induction l arbitrary: dn todo)
  case 0
  show ?case by (induction todo arbitrary: dn) (simp_all add: resolve_parts_Cons assms del: resolve_parts.simps(2) split: option.splits)
next
  case (Suc l)
  show ?case
    by (induction todo arbitrary: dn) (simp_all add: resolve_parts_Cons assms Suc.IH del: resolve_parts.simps(2) split: option.splits)
qed

text \<open>Two trees that agree on the links and on the directories that paths start from.\<close>

definition same_links :: "fsys \<Rightarrow> fsys \<Rightarrow> bool" where
  "same_links fs fs' \<longleftrightarrow> (\<forall>q. link_at fs q = link_at fs' q) \<and> cwd fs = cwd fs' \<and> homes fs = homes fs'"

lemma same_links_refl [simp]: "same_links fs fs"
  by (simp add: same_links_def)

lemma same_links_trans: "same_links a b \<Longrightarrow> same_links b c \<Longrightarrow> same_links a c"
  by (simp add: same_links_def)

lemma same_links_resolve: "same_links fs fs' \<Longrightarrow> fst (resolvePath s fs) = fst (resolvePath s fs')"
  using resolve_parts_links [of fs fs']
  by (simp add: same_links_def resolvePath_def real_path_def Let_def split: sum.splits option.splits)

lemma same_links_set_node:
  assumes "p \<noteq> []" "link_at fs p = None" "\<And>t. n \<noteq> NLink t"
  shows "same_links fs (set_node p n fs)"
  using assms by (auto simp: same_links_def link_at_def node_at_set_node split: node.splits)

lemma is_file_node_iff: "is_file_node fs p \<longleftrightarrow> (\<exists>b. node_at fs p = Some (NFile b))"
  by (auto simp: is_file_node_def split: option.splits node.splits)

lemma is_file_nonempty: "is_file_node fs p \<Longrightarrow> p \<noteq> []"
  by (auto simp: is_file_node_iff node_at_def)

lemma same_links_write:
  "is_file_node fs p \<Longrightarrow> same_links fs (set_node p (NFile b) fs)"
  by (rule same_links_set_node) (auto simp: is_file_nonempty is_file_node_iff link_at_def)

lemma text_at_valid: "list_all valid_cp (text_at fs p)"
  by (simp add: text_at_def universal_newlines_valid decodeReplace_valid)

section \<open>Writing to an existing file\<close>

lemma write_text_existing:
  assumes "is_file_node fs p"
  shows "write_text p c fs =
    (case encodeText c of
       Some bs \<Rightarrow> (Inr (), set_node p (NFile bs) fs)
     | None \<Rightarrow> (Inl (Raised ''UnicodeEncodeError'' []), set_node p (NFile []) fs))"
  using assms
  by (auto simp: write_text_def open_target_def fsm_defs is_file_node_iff split: option.splits)

lemma valid_encodes: "list_all valid_cp c \<Longrightarrow> \<exists>bs. encodeText c = Some bs"
  by (simp add: encodeText_def)

lemma set_replace_sub: "set (replace_sub p q n s) \<subseteq> set s \<union> set q"
proof (induction p q n s rule: replace_sub.induct)
  case (1 p q n s)
  show ?case
  proof (cases "p = [] \<or> n = Some 0")
    case True then show ?thesis by (subst replace_sub.simps) auto
  next
    case False
    show ?thesis
    proof (cases "find_sub p s")
      case None then show ?thesis by (subst replace_sub.simps) auto
    next
      case (Some i)
      then have "set (replace_sub p q (map_option (\<lambda>k. k - 1) n) (drop (i + length p) s)) \<subseteq> set s \<union> set q"
        using 1 False set_drop_subset by fastforce
      moreover have "set (take i s) \<subseteq> set s" by (rule set_take_subset)
      moreover have "replace_sub p q n s = take i s @ q @ replace_sub p q (map_option (\<lambda>k. k - 1) n) (drop (i + length p) s)"
        using Some False by (subst replace_sub.simps) simp
      ultimately show ?thesis by auto
    qed
  qed
qed

lemma valid_replace: "list_all valid_cp s \<Longrightarrow> list_all valid_cp q \<Longrightarrow> list_all valid_cp (replace_sub p q n s)"
  using set_replace_sub [of p q n s] by (auto simp: list_all_iff)

lemma valid_take_drop: "list_all valid_cp s \<Longrightarrow> list_all valid_cp (take n s)" "list_all valid_cp s \<Longrightarrow> list_all valid_cp (drop n s)"
  by (auto simp: list_all_iff dest: in_set_takeD in_set_dropD)

lemma valid_keeplines: "list_all valid_cp s \<Longrightarrow> l \<in> set (keeplines s) \<Longrightarrow> list_all valid_cp l"
  using UN_upper [of l "set (keeplines s)" set] set_concat [of "keeplines s"] by (auto simp: list_all_iff)

lemma valid_replace_lines:
  assumes "list_all valid_cp s" "list_all valid_cp t"
  shows "list_all valid_cp (concat (take i (keeplines s) @ textToLines t @ drop j (keeplines s)))"
proof -
  have "list_all valid_cp (concat ls)" if "set ls \<subseteq> set (keeplines s) \<union> set (keeplines t)" for ls
    using that assms valid_keeplines [of s] valid_keeplines [of t] by (fastforce simp: list_all_iff)
  moreover have "set (take i (keeplines s) @ textToLines t @ drop j (keeplines s)) \<subseteq> set (keeplines s) \<union> set (keeplines t)"
    by (auto simp: textToLines_def dest: in_set_takeD in_set_dropD)
  ultimately show ?thesis by blast
qed

section \<open>The text file a tool works on\<close>

lemma fthen_guard: "fthen (fguard b e) m fs = (if b then m fs else (Inl e, fs))"
  and fbind_get: "fbind (fget f) g fs = g (f fs) fs"
  and fbind_sum: "fbind (fsum r) g fs = (case r of Inl e \<Rightarrow> (Inl e, fs) | Inr x \<Rightarrow> g x fs)"
  by (simp_all add: fsm_defs split: sum.splits)

lemmas fsm_run = fthen_guard fbind_get fbind_sum

definition text_target :: "fsys \<Rightarrow> utext \<Rightarrow> pyexn + path" where
  "text_target fs s =
     (case fst (resolvePath s fs) of
        Inl e \<Rightarrow> Inl e
      | Inr p \<Rightarrow> if \<not> is_file_node fs p then Inl (Raised ''FileNotFoundError'' (path_text p))
                 else if looksBinary (take 4096 (file_data fs p))
                      then Inl (value_error ''binary file cannot be read as text'') else Inr p)"

lemma target_bind:
  "fbind (resolvePath s) (\<lambda>p. fthen (require_file p) (fthen (ensureTextFile p) (K p))) fs =
     (case text_target fs s of Inl e \<Rightarrow> (Inl e, fs) | Inr p \<Rightarrow> K p fs)"
  using readonly_state [OF readonly_resolve, of s fs]
  by (cases "resolvePath s fs") (auto simp: text_target_def require_file_def ensureTextFile_def fsm_defs split: sum.splits)

lemma text_target_file: "text_target fs s = Inr p \<Longrightarrow> is_file_node fs p"
  by (auto simp: text_target_def split: sum.splits if_splits)

lemma text_target_resolve: "text_target fs s = Inr p \<Longrightarrow> fst (resolvePath s fs) = Inr p"
  by (auto simp: text_target_def split: sum.splits if_splits)

text \<open>The tools, with the target resolved.\<close>

definition replace_in :: "path \<Rightarrow> utext \<Rightarrow> utext \<Rightarrow> bool \<Rightarrow> fsys \<Rightarrow> (pyexn + fresult) \<times> fsys" where
  "replace_in p old new everywhere fs =
     (let content = text_at fs p; count = count_sub old content;
          updated = replace_sub old new (if everywhere then None else Some 1) content in
      if count = 0 then (Inl (value_error ''oldText was not found''), fs)
      else if count > 1 \<and> \<not> everywhere then
        (Inl (value_error ''oldText appears multiple times; set replaceAll=true to replace all matches''), fs)
      else fthen (write_text p updated)
             (fret (RReplace p (if everywhere then count else 1) (encoded_length updated))) fs)"

lemma replaceText_eq:
  "replaceText s old new everywhere fs =
     (if old = [] then (Inl (value_error ''oldText must not be empty''), fs)
      else case text_target fs s of Inl e \<Rightarrow> (Inl e, fs) | Inr p \<Rightarrow> replace_in p old new everywhere fs)"
  unfolding replaceText_def
  by (simp add: fthen_guard target_bind fbind_get replace_in_def Let_def split: sum.splits)

definition range_in :: "path \<Rightarrow> int \<Rightarrow> int \<Rightarrow> utext \<Rightarrow> fsys \<Rightarrow> (pyexn + fresult) \<times> fsys" where
  "range_in p start end new fs =
     (let lines = keeplines (text_at fs p);
          i = nat (start - 1); j = min (nat end) (length lines);
          updated = concat (take i lines @ textToLines new @ drop j lines) in
      if \<not> start > int (length lines) + 1
      then fthen (write_text p updated)
             (fret (RRange p start end (int j - int i) (length (textToLines new)) (encoded_length updated))) fs
      else (Inl (value_error ''lineStart is beyond the end of the file''), fs))"

lemma replaceRange_eq:
  "replaceRange s ls le new fs =
     (case text_target fs s of Inl e \<Rightarrow> (Inl e, fs) | Inr p \<Rightarrow> range_in p (max 1 ls) (max (max 1 ls) le) new fs)"
  unfolding replaceRange_def target_bind Let_def fbind_get fthen_guard range_in_def by (rule refl)

lemma normalize_run:
  "fbind (normalizeOption allowed m s) g fs =
     (let v = ulower (ustrip s) in if v \<in> uni ` set allowed then g v fs else (Inl (value_error m), fs))"
  by (simp add: normalizeOption_def Let_def fsm_defs)

lemma insertText_eq:
  "insertText s anchor new position occ fs =
     (if anchor = [] then (Inl (value_error ''anchorText must not be empty''), fs)
      else case text_target fs s of
        Inl e \<Rightarrow> (Inl e, fs)
      | Inr p \<Rightarrow>
          (let pos = ulower (ustrip position); content = text_at fs p in
           if pos \<notin> uni ` set [''before'', ''after''] then (Inl (value_error ''position must be one of: before, after''), fs)
           else case nthIndex content anchor (max 1 occ) of
             None \<Rightarrow> (Inl (value_error ''anchorText occurrence was not found''), fs)
           | Some k \<Rightarrow>
               (let i = (if pos = uni ''before'' then k else k + length anchor);
                    updated = take i content @ new @ drop i content in
                fthen (write_text p updated)
                  (fret (RInsert p pos (max 1 occ) i (encoded_length updated))) fs)))"
  unfolding insertText_def normalizePosition_def
  by (auto simp: fsm_run normalize_run target_bind Let_def fraise_def split: sum.splits option.splits)

lemma replaceRegex_eq:
  "replaceRegex rx s pattern replacement everywhere flags fs =
     (if pattern = [] then (Inl (value_error ''pattern must not be empty''), fs)
      else case text_target fs s of
        Inl e \<Rightarrow> (Inl e, fs)
      | Inr p \<Rightarrow>
          (case regexFlags flags of
             Inl e \<Rightarrow> (Inl e, fs)
           | Inr fl \<Rightarrow>
               (case (rx_spans rx pattern fl, rx_expand rx pattern fl replacement) of
                  (Some spans, Some expand) \<Rightarrow>
                    (let content = text_at fs p;
                         (updated, n) = subn (expand content) (spans content) content (if everywhere then 0 else 1) in
                     if n = 0 then (Inl (value_error ''pattern did not match''), fs)
                     else fthen (write_text p updated) (fret (RReplace p n (encoded_length updated))) fs)
                | _ \<Rightarrow> (Inl re_error, fs))))"
  unfolding replaceRegex_def
  by (auto simp: fsm_run target_bind Let_def fraise_def split: sum.splits option.splits prod.splits)

lemma text_item_run:
  "fbind (text_item d k) g fs = (case uitem d k of Inl e \<Rightarrow> (Inl e, fs) | Inr v \<Rightarrow> g (ustr v) fs)"
  by (simp add: text_item_def fsm_defs split: sum.splits)

lemma int_item_run:
  "fbind (int_item d k) g fs =
     (case uitem d k of Inl e \<Rightarrow> (Inl e, fs) | Inr v \<Rightarrow> (case uint v of Inl e \<Rightarrow> (Inl e, fs) | Inr i \<Rightarrow> g i fs))"
  by (simp add: int_item_def fsm_defs split: sum.splits)

lemma textEditTarget_run:
  "fbind (textEditTarget d) g fs =
     (case uitem d ''path'' of
        Inl e \<Rightarrow> (Inl e, fs)
      | Inr v \<Rightarrow> (case text_target fs (ustr v) of Inl e \<Rightarrow> (Inl e, fs) | Inr p \<Rightarrow> g p fs))"
proof -
  have "fbind (textEditTarget d) g fs = (case textEditTarget d fs of (Inl e, fs') \<Rightarrow> (Inl e, fs') | (Inr x, fs') \<Rightarrow> g x fs')"
    by (simp add: fbind_def)
  moreover have "textEditTarget d fs =
     (case uitem d ''path'' of
        Inl e \<Rightarrow> (Inl e, fs)
      | Inr v \<Rightarrow> (case text_target fs (ustr v) of Inl e \<Rightarrow> (Inl e, fs) | Inr p \<Rightarrow> (Inr p, fs)))"
    unfolding textEditTarget_def text_item_run target_bind by (simp add: fret_def split: sum.splits)
  ultimately show ?thesis by (simp split: sum.splits)
qed

lemmas edit_runs = fsm_run text_item_run int_item_run textEditTarget_run normalize_run

section \<open>A dry run predicts the run\<close>

fun predicts :: "fresult \<Rightarrow> fresult \<Rightarrow> bool" where
  "predicts (PReplace p m n) (RReplace p' n' b) = (p = p' \<and> n = n')"
| "predicts (PRegex p m n) (RReplace p' n' b) = (p = p' \<and> n = n')"
| "predicts (PRange p s e old new) (RRange p' s' e' old' new' b) = (p = p' \<and> s = s' \<and> e = e' \<and> old = old' \<and> new = new')"
| "predicts (PInsert p pos occ i) (RInsert p' pos' occ' i' b) = (p = p' \<and> pos = pos' \<and> occ = occ' \<and> i = i')"
| "predicts _ _ = False"

definition outcome_agrees :: "pyexn + fresult \<Rightarrow> pyexn + fresult \<Rightarrow> bool" where
  "outcome_agrees r r' =
     (case r of Inl _ \<Rightarrow> (case r' of Inl _ \<Rightarrow> True | Inr _ \<Rightarrow> False)
      | Inr a \<Rightarrow> (case r' of Inl _ \<Rightarrow> False | Inr b \<Rightarrow> predicts a b))"

definition text_given :: "udict \<Rightarrow> string \<Rightarrow> bool" where
  "text_given d k \<longleftrightarrow> (case map_of d k of Some v \<Rightarrow> list_all valid_cp (ustr v) | None \<Rightarrow> False)"

lemma text_given_item: "text_given d k \<Longrightarrow> \<exists>v. uitem d k = Inr v \<and> list_all valid_cp (ustr v)"
  by (auto simp: text_given_def uitem_def split: option.splits)

lemma write_succeeds:
  assumes "is_file_node fs p" "list_all valid_cp c"
  shows "fst (fthen (write_text p c) (fret r) fs) = Inr r"
  using assms valid_encodes [OF assms(2)] by (auto simp: fthen_def fbind_def fret_def write_text_existing)

lemma agree_replaceText:
  assumes "text_given d ''newText''"
  shows "outcome_agrees (fst (preview_replaceText d fs)) (fst (apply_replaceText d fs))"
proof -
  obtain v where v: "uitem d ''newText'' = Inr v" "list_all valid_cp (ustr v)" using text_given_item [OF assms] by blast
  show ?thesis
    unfolding preview_replaceText_def apply_replaceText_def
    by (auto simp: edit_runs replaceText_eq replace_in_def outcome_agrees_def v(1) Let_def fret_def [of "PReplace _ _ _"]
        write_succeeds text_target_file valid_replace [OF text_at_valid v(2)] split: sum.splits)
qed

lemma range_in_result:
  assumes "is_file_node fs p" "list_all valid_cp new" "1 \<le> start" "start \<le> end"
  defines "n \<equiv> length (keeplines (text_at fs p))"
  shows "\<exists>b. fst (range_in p start end new fs) =
    (if start > int n + 1 then Inl (value_error ''lineStart is beyond the end of the file'')
     else Inr (RRange p start end (min end (int n) - (start - 1)) (length (textToLines new)) b))"
proof -
  have "int (min (nat end) n) - int (nat (start - 1)) = min end (int n) - (start - 1)" using assms(3,4) by auto
  then show ?thesis
    unfolding range_in_def Let_def n_def using assms(1) valid_replace_lines [OF text_at_valid assms(2)]
    by (simp add: write_succeeds del: concat_append)
qed

lemma agree_replaceRange:
  assumes "text_given d ''newText''"
  shows "outcome_agrees (fst (preview_replaceRange d fs)) (fst (apply_replaceRange d fs))"
proof -
  obtain v where v: "uitem d ''newText'' = Inr v" "list_all valid_cp (ustr v)" using text_given_item [OF assms] by blast
  have "\<exists>b. \<forall>p start end. is_file_node fs p \<longrightarrow> 1 \<le> start \<longrightarrow> start \<le> end \<longrightarrow>
    fst (range_in p start end (ustr v) fs) =
      (if start > int (length (keeplines (text_at fs p))) + 1
       then Inl (value_error ''lineStart is beyond the end of the file'')
       else Inr (RRange p start end (min end (int (length (keeplines (text_at fs p)))) - (start - 1))
              (length (textToLines (ustr v))) (b p start end)))"
    by (intro choice allI) (use range_in_result [OF _ v(2)] in blast)
  then obtain b where b: "\<And>p start end. is_file_node fs p \<Longrightarrow> 1 \<le> start \<Longrightarrow> start \<le> end \<Longrightarrow>
    fst (range_in p start end (ustr v) fs) =
      (if start > int (length (keeplines (text_at fs p))) + 1
       then Inl (value_error ''lineStart is beyond the end of the file'')
       else Inr (RRange p start end (min end (int (length (keeplines (text_at fs p)))) - (start - 1))
              (length (textToLines (ustr v))) (b p start end)))" by blast
  show ?thesis
    unfolding preview_replaceRange_def apply_replaceRange_def Let_def edit_runs replaceRange_eq v(1)
    by (auto simp: outcome_agrees_def fret_def b text_target_file split: sum.splits)
qed

lemma agree_insertText:
  assumes "text_given d ''newText''"
  shows "outcome_agrees (fst (preview_insertText d fs)) (fst (apply_insertText d fs))"
proof -
  obtain v where v: "uitem d ''newText'' = Inr v" "list_all valid_cp (ustr v)" using text_given_item [OF assms] by blast
  show ?thesis
    unfolding preview_insertText_def apply_insertText_def normalizePosition_def
    by (auto simp: edit_runs insertText_eq outcome_agrees_def v Let_def fret_def [of "PInsert _ _ _ _"] fraise_def
        write_succeeds text_target_file text_at_valid valid_take_drop split: sum.splits option.splits)
qed


lemma valid_sub_spans:
  "list_all valid_cp t \<Longrightarrow> (\<And>x. list_all valid_cp (f x)) \<Longrightarrow> list_all valid_cp (sub_spans f pos spans t)"
  by (induction f pos spans t rule: sub_spans.induct) (simp_all add: valid_take_drop)

text \<open>The engine accepts the template for the pattern of the edit and expands it to texts that can be encoded.\<close>

definition template_ok :: "rx_engine \<Rightarrow> udict \<Rightarrow> bool" where
  "template_ok rx d \<longleftrightarrow> (\<exists>v. map_of d ''replacement'' = Some v \<and>
     (\<forall>pv fl. map_of d ''pattern'' = Some pv \<longrightarrow> regexFlags (ustr (uget d ''flags'' (UText []))) = Inr fl \<longrightarrow>
       (\<exists>ex. rx_expand rx (ustr pv) fl (ustr v) = Some ex \<and>
         (\<forall>content span. list_all valid_cp content \<longrightarrow> list_all valid_cp (ex content span)))))"

lemma agree_replaceRegex:
  assumes "template_ok rx d"
  shows "outcome_agrees (fst (preview_replaceRegex rx d fs)) (fst (apply_replaceRegex rx d fs))"
proof -
  obtain v where v: "uitem d ''replacement'' = Inr v"
    and ex: "\<And>pv fl. map_of d ''pattern'' = Some pv \<Longrightarrow> regexFlags (ustr (uget d ''flags'' (UText []))) = Inr fl \<Longrightarrow>
       \<exists>ex. rx_expand rx (ustr pv) fl (ustr v) = Some ex \<and>
         (\<forall>content span. list_all valid_cp content \<longrightarrow> list_all valid_cp (ex content span))"
    using assms by (auto simp: template_ok_def uitem_def)
  show ?thesis
  proof (cases "map_of d ''pattern''")
    case None
    then have "uitem d ''pattern'' = Inl (Raised ''KeyError'' (uni ''pattern''))" by (simp add: uitem_def)
    then show ?thesis
      unfolding preview_replaceRegex_def apply_replaceRegex_def
      by (auto simp: edit_runs outcome_agrees_def fraise_def split: sum.splits)
  next
    case (Some pv)
    then have pv: "uitem d ''pattern'' = Inr pv" by (simp add: uitem_def)
    show ?thesis
    proof (cases "regexFlags (ustr (uget d ''flags'' (UText [])))")
      case (Inl e)
      then show ?thesis
        unfolding preview_replaceRegex_def apply_replaceRegex_def
        by (auto simp: edit_runs replaceRegex_eq outcome_agrees_def v pv fraise_def split: sum.splits)
    next
      case (Inr fl)
      obtain expand where e: "rx_expand rx (ustr pv) fl (ustr v) = Some expand"
        and h: "\<And>content span. list_all valid_cp content \<Longrightarrow> list_all valid_cp (expand content span)"
        using ex [OF Some Inr] by blast
      have w: "list_all valid_cp (sub_spans (expand (text_at fs p)) 0 spans (text_at fs p))" for p spans
        by (intro valid_sub_spans text_at_valid h)
      have one: "min (length xs) (Suc 0) = Suc 0" if "xs \<noteq> []" for xs :: "(nat \<times> nat) list"
        using that by (cases xs) simp_all
      show ?thesis
        unfolding preview_replaceRegex_def apply_replaceRegex_def
        by (auto simp: edit_runs replaceRegex_eq outcome_agrees_def v pv Inr e subn_def w one Let_def fret_def [of "PRegex _ _ _"] fraise_def
            write_succeeds text_target_file split: sum.splits option.splits)
    qed
  qed
qed

definition edit_given :: "rx_engine \<Rightarrow> udict \<Rightarrow> bool" where
  "edit_given rx d \<longleftrightarrow>
     (edit_type_of d \<in> {uni ''replaceText'', uni ''replaceRange'', uni ''insertText''} \<longrightarrow> text_given d ''newText'') \<and>
     (edit_type_of d = uni ''replaceRegex'' \<longrightarrow> template_ok rx d)"

section \<open>Edits touch their target only\<close>

lemma write_text_frame:
  assumes "is_file_node fs p" "write_text p c fs = (r, fs')"
  shows "same_links fs fs'" "is_file_node fs' p" "q \<noteq> p \<Longrightarrow> node_at fs' q = node_at fs q"
proof -
  obtain b where "fs' = set_node p (NFile b) fs"
    using assms by (auto simp: write_text_existing split: option.splits)
  then show "same_links fs fs'" "is_file_node fs' p" "q \<noteq> p \<Longrightarrow> node_at fs' q = node_at fs q"
    using assms(1) is_file_nonempty [OF assms(1)] by (auto simp: same_links_write node_at_set_node is_file_node_iff)
qed

text \<open>One edit: nothing but the file it names changes, and that remains a file.\<close>

definition edits_only :: "path set \<Rightarrow> fsys \<Rightarrow> fsys \<Rightarrow> bool" where
  "edits_only P fs fs' \<longleftrightarrow> same_links fs fs' \<and> (\<forall>q. q \<notin> P \<longrightarrow> node_at fs' q = node_at fs q) \<and>
     (\<forall>q. is_file_node fs' q = is_file_node fs q) \<and> (\<forall>q. path_exists fs' q = path_exists fs q)"

lemma edits_only_refl [simp]: "edits_only P fs fs"
  by (simp add: edits_only_def)

lemma edits_only_trans: "edits_only P a b \<Longrightarrow> edits_only P b c \<Longrightarrow> edits_only P a c"
  by (simp add: edits_only_def) (metis same_links_trans)

lemma edits_only_write:
  assumes "is_file_node fs p" "p \<in> P"
  shows "edits_only P fs (snd (fthen (write_text p c) (fret r) fs))"
proof -
  obtain x fs' where w: "write_text p c fs = (x, fs')" by (cases "write_text p c fs")
  have "edits_only P fs fs'"
    unfolding edits_only_def path_exists_def is_file_node_iff
    using write_text_frame [OF assms(1) w] assms by (metis is_file_node_iff option.distinct(1))
  then show ?thesis using w by (cases x) (simp_all add: fthen_def fbind_def fret_def)
qed

definition edit_path :: "fsys \<Rightarrow> udict \<Rightarrow> path option" where
  "edit_path fs d =
     (case map_of d ''path'' of
        None \<Rightarrow> None
      | Some v \<Rightarrow> (case fst (resolvePath (ustr v) fs) of Inl _ \<Rightarrow> None | Inr p \<Rightarrow> Some p))"

lemma edit_path_target:
  "uitem d ''path'' = Inr v \<Longrightarrow> text_target fs (ustr v) = Inr p \<Longrightarrow> edit_path fs d = Some p"
  by (auto simp: edit_path_def uitem_def dest: text_target_resolve split: option.splits)

lemma tool_only:
  assumes "\<And>p. text_target fs s = Inr p \<Longrightarrow> p \<in> P"
  shows "edits_only P fs (snd (replaceText s old new everywhere fs))"
    and "edits_only P fs (snd (replaceRange s ls le new fs))"
    and "edits_only P fs (snd (insertText s anchor new position occ fs))"
    and "edits_only P fs (snd (replaceRegex rx s pattern replacement everywhere flags fs))"
proof -
  have w: "edits_only P fs (snd (fthen (write_text p c) (fret r) fs))" if "text_target fs s = Inr p" for p c r
    by (rule edits_only_write [OF text_target_file [OF that] assms [OF that]])
  show "edits_only P fs (snd (replaceText s old new everywhere fs))"
    by (simp add: replaceText_eq replace_in_def Let_def w split: sum.splits)
  show "edits_only P fs (snd (replaceRange s ls le new fs))"
    unfolding replaceRange_eq range_in_def Let_def
    by (cases "text_target fs s") (simp_all add: w if_distrib [of snd] del: concat_append)
  show "edits_only P fs (snd (insertText s anchor new position occ fs))"
    by (simp add: insertText_eq Let_def w split: sum.splits option.splits)
  show "edits_only P fs (snd (replaceRegex rx s pattern replacement everywhere flags fs))"
    by (simp add: replaceRegex_eq Let_def w split: sum.splits option.splits prod.splits)
qed

lemma applyEdit_only:
  assumes "\<And>p. edit_path fs d = Some p \<Longrightarrow> p \<in> P"
  shows "edits_only P fs (snd (applyEdit rx t d fs))"
proof (cases "uitem d ''path''")
  case (Inl e)
  then show ?thesis
    by (simp add: applyEdit_def apply_replaceText_def apply_replaceRange_def apply_insertText_def
        apply_replaceRegex_def edit_runs fraise_def del: uni_Cons)
next
  case (Inr v)
  have "p \<in> P" if "text_target fs (ustr v) = Inr p" for p by (rule assms [OF edit_path_target [OF Inr that]])
  note tools = tool_only [OF this]
  have "edits_only P fs (snd (apply_replaceText d fs))" "edits_only P fs (snd (apply_replaceRange d fs))"
    "edits_only P fs (snd (apply_insertText d fs))" "edits_only P fs (snd (apply_replaceRegex rx d fs))"
    unfolding apply_replaceText_def apply_replaceRange_def apply_insertText_def apply_replaceRegex_def edit_runs Inr
    by (simp_all add: tools split: sum.splits)
  then show ?thesis unfolding applyEdit_def by (simp add: fraise_def del: uni_Cons)
qed

lemma try_item_state: "snd (try_item d m fs) = snd (m fs)"
  by (auto simp: try_item_def split: prod.splits sum.splits)

lemma edit_path_links: "same_links fs fs' \<Longrightarrow> edit_path fs d = edit_path fs' d"
  by (simp add: edit_path_def same_links_resolve split: option.splits)

lemma try_item_Inr: "\<exists>b. fst (try_item d m fs) = Inr b"
  by (auto simp: try_item_def split: prod.splits sum.splits)

lemma editBatch_loop_only:
  assumes "\<And>d p. d \<in> set ds \<Longrightarrow> edit_path fs d = Some p \<Longrightarrow> p \<in> P"
  shows "edits_only P fs (snd (editBatch_loop rx stop dry i ds fs))"
  using assms
proof (induction ds arbitrary: i fs)
  case Nil
  show ?case by (simp add: fret_def)
next
  case (Cons d ds)
  define m where "m = (if dry then previewEdit rx (edit_type_of d) d else applyEdit rx (edit_type_of d) d)"
  obtain b fs1 where t: "try_item d m fs = (Inr b, fs1)" by (metis try_item_Inr prod.collapse)
  have "snd (m fs) = fs1" using try_item_state [of d m fs] t by simp
  then have one: "edits_only P fs fs1"
    using applyEdit_only [of fs d P rx "edit_type_of d"] Cons.prems readonly_previewEdit [of rx "edit_type_of d" d]
    by (auto simp: m_def readonly_def split: if_splits)
  then have "edit_path fs1 e = edit_path fs e" for e
    using edit_path_links by (auto simp: edits_only_def)
  then have rest: "edits_only P fs1 (snd (editBatch_loop rx stop dry (Suc i) ds fs1))"
    by (intro Cons.IH) (use Cons.prems in \<open>auto\<close>)
  show ?case
    using one edits_only_trans [OF one rest] t
    by (cases "editBatch_loop rx stop dry (Suc i) ds fs1")
       (auto simp: Let_def fbind_def fret_def m_def [symmetric] split: sum.splits)
qed


section \<open>Properties\<close>

lemma split_sub_clean: "p \<noteq> [] \<Longrightarrow> part \<in> set (split_sub p s) \<Longrightarrow> \<not> sublist p part"
proof (induction p s rule: split_sub.induct)
  case (1 p s)
  show ?case
  proof (cases "find_sub p s")
    case None
    then have "split_sub p s = [s]" using "1.prems"(1) by (subst split_sub.simps) simp
    then show ?thesis using None "1.prems"(2) by (simp add: find_sub_None)
  next
    case (Some i)
    have "\<not> sublist p (take i s)"
    proof
      assume "sublist p (take i s)"
      then obtain a b where t: "take i s = a @ p @ b" by (auto simp: sublist_def)
      have "s = take i s @ drop i s" by simp
      then have "s = a @ p @ b @ drop i s" using t by (metis append_assoc)
      then have "prefix p (drop (length a) s)" by (metis append_eq_conv_conj prefixI)
      then have "i \<le> length a" by (rule find_sub_least [OF Some])
      moreover have "length a + length p + length b = i"
        using arg_cong [OF t, of length] find_sub_SomeD [OF Some] by simp
      ultimately have "length p = 0" by linarith
      then show False using "1.prems"(1) by simp
    qed
    moreover have "split_sub p s = take i s # split_sub p (drop (i + length p) s)"
      using Some "1.prems"(1) by (subst split_sub.simps) simp
    ultimately show ?thesis using "1.IH" [OF "1.prems"(1) Some] "1.prems" by auto
  qed
qed

text \<open>
  C17. Exact replacement.  When \<open>replaceText\<close> succeeds, the text of the file splits at
  the old text into at least two parts (exactly two unless \<open>replaceAll\<close> is set), none of which holds the old text
  itself, so that without \<open>replaceAll\<close> an ambiguous text is refused; the file now holds
  the encoding of the same parts joined by the new text, the reported numbers are the matches
  and the bytes of the file, and no other path of the tree has changed.
\<close>

theorem replaceText_exact:
  assumes "replaceText s old new everywhere fs = (Inr r, fs')"
  shows "\<exists>p parts. text_target fs s = Inr p \<and> old \<noteq> [] \<and> text_at fs p = intercalate old parts \<and>
    (\<forall>part \<in> set parts. \<not> sublist old part) \<and> 2 \<le> length parts \<and> (everywhere \<or> length parts = 2) \<and>
    encodeText (intercalate new parts) = Some (file_data fs' p) \<and>
    r = RReplace p (length parts - 1) (length (file_data fs' p)) \<and>
    (\<forall>q. q \<noteq> p \<longrightarrow> node_at fs' q = node_at fs q)"
proof -
  obtain p where p: "text_target fs s = Inr p" and old: "old \<noteq> []"
    and run: "replace_in p old new everywhere fs = (Inr r, fs')"
    using assms by (auto simp: replaceText_eq split: if_splits sum.splits)
  define c where "c = text_at fs p"
  define parts where "parts = split_sub old c"
  define updated where "updated = replace_sub old new (if everywhere then None else Some 1) c"
  have len: "length parts = Suc (count_sub old c)" unfolding parts_def by (rule length_split_sub [OF old])
  have n: "count_sub old c \<noteq> 0" "everywhere \<or> count_sub old c = 1"
    and w: "fthen (write_text p updated) (fret (RReplace p (if everywhere then count_sub old c else 1) (encoded_length updated))) fs
      = (Inr r, fs')"
    using run by (auto simp: replace_in_def Let_def c_def updated_def split: if_splits)
  have f: "is_file_node fs p" by (rule text_target_file [OF p])
  have u: "updated = intercalate new parts"
  proof (cases everywhere)
    case True then show ?thesis by (simp add: updated_def parts_def replace_all_split [OF old])
  next
    case False
    then have one: "count_sub old c = 1" using n by blast
    obtain i where i: "find_sub old c = Some i" "\<not> sublist old (drop (i + length old) c)"
      using count_one [OF old one] .
    have "split_sub old (drop (i + length old) c) = [drop (i + length old) c]"
      using i(2) by (subst split_sub.simps) (simp add: find_sub_None [symmetric])
    then have "parts = [take i c, drop (i + length old) c]"
      unfolding parts_def using i(1) old by (subst split_sub.simps) simp
    then show ?thesis using False replace_one [OF old i(1)] by (simp add: updated_def)
  qed
  obtain bs where bs: "encodeText updated = Some bs" "fs' = set_node p (NFile bs) fs"
    "r = RReplace p (if everywhere then count_sub old c else 1) (encoded_length updated)"
    using w by (auto simp: write_text_existing [OF f] fthen_def fbind_def fret_def split: option.splits)
  have "p \<noteq> []" by (rule is_file_nonempty [OF f])
  then have d: "file_data fs' p = bs" and q: "\<And>q. q \<noteq> p \<Longrightarrow> node_at fs' q = node_at fs q"
    using bs(2) by (simp_all add: node_at_set_node file_data_def)
  show ?thesis
    by (intro exI [of _ p] exI [of _ parts] conjI allI impI)
       (use p old len n bs d q u intercalate_split [of old c] split_sub_clean [OF old, of _ c] in \<open>auto simp: parts_def c_def encoded_length_def\<close>)
qed

text \<open>
  C39. A failed replacement.  When \<open>replaceText\<close> raises, the tree is as before, except
  that a new text with a lone surrogate has emptied the file.
\<close>

theorem replaceText_failure:
  assumes "replaceText s old new everywhere fs = (Inl e, fs')"
  shows "fs' = fs \<or> (\<exists>p. text_target fs s = Inr p \<and> \<not> list_all valid_cp new \<and> fs' = set_node p (NFile []) fs)"
proof -
  have "fs' = fs \<or> (\<exists>p. text_target fs s = Inr p \<and> replace_in p old new everywhere fs = (Inl e, fs'))"
    using assms by (auto simp: replaceText_eq split: if_splits sum.splits)
  moreover have "fs' = fs \<or> \<not> list_all valid_cp new \<and> fs' = set_node p (NFile []) fs"
    if p: "text_target fs s = Inr p" and r: "replace_in p old new everywhere fs = (Inl e, fs')" for p
  proof -
    define updated where "updated = replace_sub old new (if everywhere then None else Some 1) (text_at fs p)"
    have "fs' = fs \<or> encodeText updated = None \<and> fs' = set_node p (NFile []) fs"
      using r by (auto simp: replace_in_def Let_def updated_def [symmetric] write_text_existing [OF text_target_file [OF p]]
          fthen_def fbind_def fret_def split: if_splits option.splits)
    then show ?thesis
      using valid_encodes [of updated] valid_replace [OF text_at_valid, of new old] by (auto simp: updated_def)
  qed
  ultimately show ?thesis by blast
qed

lemma editBatch_loop_total: "\<exists>rows fs'. editBatch_loop rx stopOnFailure dryRun i edits fs = (Inr rows, fs')"
proof (induction edits arbitrary: i fs)
  case (Cons d ds)
  obtain b fs1 where b: "try_item d (if dryRun then previewEdit rx (edit_type_of d) d else applyEdit rx (edit_type_of d) d) fs = (Inr b, fs1)"
    by (fastforce simp: try_item_def split: prod.splits sum.splits)
  obtain rows fs2 where "editBatch_loop rx stopOnFailure dryRun (Suc i) ds fs1 = (Inr rows, fs2)" using Cons.IH by blast
  then show ?case using b by (simp add: fbind_def fret_def Let_def del: uni_Cons)
qed (simp add: fret_def)

text \<open>
  C25. Batches of edits.  \<open>editBatch\<close> never raises; it changes no path but the targets
  of its edits, leaves every link, directory and set of existing paths as it is, and a dry run
  changes nothing at all.
\<close>

theorem editBatch_only:
  "edits_only {p. Some p \<in> edit_path fs ` set edits} fs (snd (editBatch rx edits stopOnFailure dryRun fs)) \<and>
   snd (editBatch rx edits stopOnFailure True fs) = fs \<and> (\<exists>r. fst (editBatch rx edits stopOnFailure dryRun fs) = Inr r)"
proof (intro conjI)
  have "snd (editBatch rx edits stopOnFailure dry fs) = snd (editBatch_loop rx stopOnFailure dry 0 edits fs)" for dry
    by (cases "editBatch_loop rx stopOnFailure dry 0 edits fs")
       (auto simp: editBatch_def fbind_def fret_def Let_def split: sum.splits)
  then show "edits_only {p. Some p \<in> edit_path fs ` set edits} fs (snd (editBatch rx edits stopOnFailure dryRun fs))"
    "snd (editBatch rx edits stopOnFailure True fs) = fs"
    using editBatch_loop_only [of edits fs "{p. Some p \<in> edit_path fs ` set edits}" rx stopOnFailure dryRun 0]
      readonly_dry_run [of rx stopOnFailure 0 edits]
    by (auto simp: readonly_def image_iff) (metis)
  show "\<exists>r. fst (editBatch rx edits stopOnFailure dryRun fs) = Inr r"
    using editBatch_loop_total [of rx stopOnFailure dryRun 0 edits fs]
    by (auto simp: editBatch_def fbind_def fret_def Let_def)
qed

end
