(* ===== verification/FileProps.thy ===== *)
theory FileProps
  imports FileEdits
begin

text \<open>
  Properties of the file tools, continued: the pages of a file, writing and reading back, deleting
  and copying.
\<close>

section \<open>A dry run predicts the run, of every kind\<close>


section \<open>Reading and writing\<close>

subsection \<open>Pages of a file\<close>

fun page_text :: "pyexn + fresult \<Rightarrow> utext" where
  "page_text (Inr (RLines p ls le lmt tot c t)) = c"
| "page_text (Inr (RBytes p off n c t)) = c"
| "page_text _ = []"

fun page_truncated :: "pyexn + fresult \<Rightarrow> bool" where
  "page_truncated (Inr (RLines p ls le lmt tot c t)) = t"
| "page_truncated (Inr (RBytes p off n c t)) = t"
| "page_truncated _ = False"

lemma take_pages: "concat (map (\<lambda>k. take n (drop (k * n) xs)) [0..<m]) = take (m * n) xs"
proof (induction m)
  case (Suc m)
  have "take (Suc m * n) xs = take (m * n) xs @ take n (drop (m * n) xs)"
    by (simp add: take_add [symmetric] add.commute)
  then show ?case using Suc by simp
qed simp

lemma page_run:
  assumes "text_target fs s = Inr p" "0 < n"
  defines "lines \<equiv> keeplines (text_at fs p)"
  shows "readFile s off lb (UInt (1 + int (k * n))) (UInt (int n)) fs =
    (Inr (RLines p (1 + int (k * n)) (min (k * n) (length lines) + length (take n (drop (k * n) lines))) (int n)
       (length lines) (concat (take n (drop (k * n) lines))) (k * n + n < length lines)), fs)"
proof -
  let ?i = "min (k * n) (length lines)"
  have f: "drop ?i lines = drop (k * n) lines" "take (min (?i + n) (length lines) - ?i) (drop (k * n) lines) = take n (drop (k * n) lines)"
    by (simp_all add: min_def)
  have g: "nat (int n) = n" "nat (1 + int (k * n) - 1) = k * n" "max 1 (1 + int (k * n)) = 1 + int (k * n)"
    "max 1 (int n) = int n"
    using assms(2) by (simp_all add: max_def nat_mult_distrib)
  have h: "min (?i + n) (length lines) < length lines \<longleftrightarrow> k * n + n < length lines" by (auto simp: min_def)
  show ?thesis
    unfolding readFile_def readFileLines_def target_bind assms(1) sum.case
    unfolding uint.simps fbind_sum sum.case fget_def Let_def lines_def [symmetric] g
    using f h unfolding lines_def by (simp del: of_nat_mult)
qed

definition line_page :: "fsys \<Rightarrow> utext \<Rightarrow> nat \<Rightarrow> nat \<Rightarrow> pyexn + fresult" where
  "line_page fs s n k = fst (readFile s 0 65536 (UInt (1 + int (k * n))) (UInt (int n)) fs)"

text \<open>
  C36. Paging.  A client reads a text file in pages of \<open>n\<close> lines, starting at line 1 and
  stopping at a page that is not marked truncated.  Together the pages are the text of the file.
\<close>

theorem pages_reassemble:
  assumes "text_target fs s = Inr p" "0 < n" "\<not> page_truncated (line_page fs s n m)"
  shows "concat (map (\<lambda>k. page_text (line_page fs s n k)) [0..<Suc m]) = text_at fs p"
proof -
  let ?page = "line_page fs s n"
  define lines where "lines = keeplines (text_at fs p)"
  have pg: "page_text (?page k) = concat (take n (drop (k * n) lines))" "page_truncated (?page k) \<longleftrightarrow> k * n + n < length lines" for k
    using page_run [OF assms(1,2), of 0 65536 k] by (simp_all add: line_page_def lines_def)
  have "length lines \<le> Suc m * n" using assms(3) pg(2) by simp
  have "concat (map (\<lambda>k. page_text (?page k)) [0..<Suc m]) = concat (concat (map (\<lambda>k. take n (drop (k * n) lines)) [0..<Suc m]))"
    unfolding pg by (induction m) simp_all
  also have "\<dots> = concat lines" using \<open>length lines \<le> Suc m * n\<close> by (simp only: take_pages take_all)
  finally show ?thesis by (simp add: lines_def)
qed

subsection \<open>Writing and reading back\<close>

lemma set_node_frame:
  assumes "node_at fs p = None" "\<And>t. n \<noteq> NLink t"
  shows "same_links fs (set_node p n fs)" "q \<noteq> p \<Longrightarrow> node_at (set_node p n fs) q = node_at fs q"
proof -
  have "p \<noteq> []" using assms(1) by (auto simp: node_at_def)
  then show "same_links fs (set_node p n fs)" "q \<noteq> p \<Longrightarrow> node_at (set_node p n fs) q = node_at fs q"
    using assms by (auto simp: same_links_set_node link_at_def node_at_set_node)
qed

text \<open>Creating directories adds directories to the tree and changes nothing that exists.\<close>

definition adds_dirs :: "fsys \<Rightarrow> fsys \<Rightarrow> bool" where
  "adds_dirs fs fs' \<longleftrightarrow> same_links fs fs' \<and>
     (\<forall>q. node_at fs' q = node_at fs q \<or> node_at fs q = None \<and> node_at fs' q = Some NDir)"

lemma adds_dirs_refl [simp]: "adds_dirs fs fs"
  by (simp add: adds_dirs_def)

lemma adds_dirs_trans: "adds_dirs a b \<Longrightarrow> adds_dirs b c \<Longrightarrow> adds_dirs a c"
  unfolding adds_dirs_def by (metis same_links_trans)

lemma os_mkdir_adds: "adds_dirs fs (snd (os_mkdir p fs))"
proof -
  have "node_at fs p = None \<Longrightarrow> p \<noteq> []" by (auto simp: node_at_def)
  then show ?thesis
    using set_node_frame(1) [of fs p NDir] by (auto simp: os_mkdir_def path_exists_def adds_dirs_def node_at_set_node)
qed

lemma fthen_state:
  "snd (fthen m n fs) = (case fst (m fs) of Inl e \<Rightarrow> snd (m fs) | Inr x \<Rightarrow> snd (n (snd (m fs))))"
  by (auto simp: fthen_def fbind_def split: prod.splits sum.splits)

lemma mkdir_adds: "adds_dirs fs (snd (mkdir parents ok p fs))"
proof (induction parents ok p arbitrary: fs rule: mkdir.induct)
  case (1 parents ok p)
  obtain r fs1 where o: "os_mkdir p fs = (r, fs1)" by (cases "os_mkdir p fs")
  have a: "adds_dirs fs fs1" using os_mkdir_adds [of fs p] o by simp
  show ?case
  proof (cases r)
    case (Inr x)
    then show ?thesis using a o by (subst mkdir.simps) simp
  next
    case (Inl e)
    show ?thesis
    proof (cases "exn_class e = ''FileNotFoundError'' \<and> parents \<and> p \<noteq> []")
      case True
      have i: "adds_dirs g (snd (mkdir True True (butlast p) g))" "adds_dirs g (snd (mkdir False ok p g))" for g
        using 1 o [symmetric] Inl True by metis+
      have "adds_dirs fs1 (snd (fthen (mkdir True True (butlast p)) (mkdir False ok p) fs1))"
        using i adds_dirs_trans [OF i(1) i(2)] by (simp add: fthen_state split: sum.splits)
      then show ?thesis using True o Inl adds_dirs_trans [OF a] by (subst mkdir.simps) auto
    next
      case False
      then show ?thesis using a o Inl by (subst mkdir.simps) auto
    qed
  qed
qed

lemma open_target_run:
  assumes "open_target p fs = (Inr (), fs1)"
  shows "is_file_node fs1 p" "same_links fs fs1" "q \<noteq> p \<Longrightarrow> node_at fs1 q = node_at fs q"
proof -
  have "(\<exists>b. node_at fs p = Some (NFile b)) \<and> fs1 = fs \<or> node_at fs p = None \<and> fs1 = set_node p (NFile []) fs"
    using assms by (auto simp: open_target_def split: option.splits node.splits if_splits)
  moreover have "node_at fs p = None \<Longrightarrow> p \<noteq> []" by (auto simp: node_at_def)
  ultimately show "is_file_node fs1 p" "same_links fs fs1" "q \<noteq> p \<Longrightarrow> node_at fs1 q = node_at fs q"
    using set_node_frame [of fs p "NFile []"] by (auto simp: is_file_node_iff node_at_set_node)
qed

lemma write_text_run:
  assumes "write_text p c fs = (Inr (), fs')"
  obtains bs where "encodeText c = Some bs" "node_at fs' p = Some (NFile bs)" "same_links fs fs'"
    "\<And>q. q \<noteq> p \<Longrightarrow> node_at fs' q = node_at fs q"
proof -
  obtain fs1 where o: "open_target p fs = (Inr (), fs1)"
    using assms by (cases "open_target p fs") (auto simp: write_text_def fthen_def fbind_def split: sum.splits)
  note f = open_target_run [OF o]
  obtain bs where b: "encodeText c = Some bs" "fs' = set_node p (NFile bs) fs1"
    using assms o by (auto simp: write_text_def fsm_defs split: option.splits)
  show thesis
    by (rule that [of bs])
       (use b f is_file_nonempty [OF f(1)] same_links_trans [OF f(2) same_links_write [OF f(1)]] in
         \<open>auto simp: node_at_set_node\<close>)
qed

lemma encode_no_nul: "encodeText c = Some bs \<Longrightarrow> 0 \<notin> set c \<Longrightarrow> 0 \<notin> set bs"
  by (auto simp: encodeText_def cp_bytes_def split: if_splits)

text \<open>What a successful \<open>writeFile\<close> in the mode \<open>overwrite\<close> leaves behind.\<close>

lemma writeFile_run:
  assumes "writeFile s content createParents (uni ''overwrite'') fs = (Inr r, fs')"
  obtains p bs where "fst (resolvePath s fs) = Inr p" "fst (resolvePath s fs') = Inr p" "encodeText content = Some bs"
    "node_at fs' p = Some (NFile bs)" "r = RWrite p (uni ''overwrite'') (length bs)"
    "\<And>q. q \<noteq> p \<Longrightarrow> node_at fs' q = node_at fs q \<or> createParents \<and> node_at fs q = None \<and> node_at fs' q = Some NDir"
proof -
  obtain p where p: "resolvePath s fs = (Inr p, fs)"
    using assms readonly_state [OF readonly_resolve, of s fs]
    by (cases "fst (resolvePath s fs)") (auto simp: writeFile_def fbind_def)
  define mk where "mk = (if createParents then mkdir True True (butlast p) else fret ())"
  obtain fs1 where m: "mk fs = (Inr (), fs1)"
    using assms p by (cases "mk fs") (auto simp: writeFile_def fbind_def fthen_def mk_def [symmetric] split: sum.splits)
  have over: "ulower (ustrip (uni ''overwrite'')) = uni ''overwrite''" "uni ''overwrite'' \<noteq> uni ''append''"
    by (simp_all add: ustrip_def ulower_def rdropWhile_def uspace_def)
  have w: "write_text p content fs1 = (Inr (), fs')" and r: "r = RWrite p (uni ''overwrite'') (encoded_length content)"
    using assms p m over
    by (auto simp: writeFile_def fbind_def [of "resolvePath s"] fthen_def [of mk] fbind_def [of mk] mk_def [symmetric]
        fbind_get fthen_guard normalizeWriteMode_def normalize_run Let_def simp del: uni_Cons split: if_splits)
       (auto simp: fthen_def fbind_def fret_def split: prod.splits sum.splits)
  obtain bs where bs: "encodeText content = Some bs" "node_at fs' p = Some (NFile bs)" "same_links fs1 fs'"
    "\<And>q. q \<noteq> p \<Longrightarrow> node_at fs' q = node_at fs1 q" using write_text_run [OF w] by metis
  have a: "adds_dirs fs fs1" using m mkdir_adds [of fs True True "butlast p"] by (auto simp: mk_def fret_def split: if_splits)
  have nc: "\<not> createParents \<Longrightarrow> fs1 = fs" using m by (simp add: mk_def fret_def)
  have "same_links fs fs'" using a bs(3) same_links_trans by (auto simp: adds_dirs_def)
  then have "fst (resolvePath s fs') = Inr p" using same_links_resolve [of fs fs' s] p by simp
  then show thesis
    using that [of p bs] p bs a nc r by (auto simp: adds_dirs_def encoded_length_def)
qed

text \<open>
  C37. Write and read back.  After \<open>writeFile\<close> overwrote a file with a text that has no
  NUL character, \<open>readFile\<close> on the same path text with a limit of at least the bytes written
  returns that text, complete.
\<close>

theorem write_read:
  assumes "writeFile s content createParents (uni ''overwrite'') fs = (Inr r, fs')" "0 \<notin> set content"
    and "int (encoded_length content) \<le> limitBytes"
  shows "\<exists>p. r = RWrite p (uni ''overwrite'') (encoded_length content) \<and>
    readFile s 0 limitBytes UNone UNone fs' = (Inr (RBytes p 0 (encoded_length content) content False), fs')"
proof -
  obtain p bs where b: "fst (resolvePath s fs') = Inr p" "encodeText content = Some bs"
    "node_at fs' p = Some (NFile bs)" "r = RWrite p (uni ''overwrite'') (length bs)"
    using writeFile_run [OF assms(1)] by metis
  have "0 \<notin> set (take 4096 bs)" using encode_no_nul [OF b(2) assms(2)] by (auto dest: in_set_takeD)
  then have t: "text_target fs' s = Inr p"
    using b by (simp add: text_target_def is_file_node_iff file_data_def looksBinary_def)
  have l: "length bs \<le> nat (max 1 limitBytes)" using assms(3) b(2) by (simp add: encoded_length_def)
  then have "readFileBytes p 0 limitBytes fs' = (Inr (RBytes p 0 (length bs) content False), fs')"
    using b(3) utf8_decode_encode [OF b(2)] by (simp add: readFileBytes_def fget_def file_data_def Let_def)
  then show ?thesis
    using b t unfolding readFile_def target_bind by (simp add: encoded_length_def)
qed


subsection \<open>Resolved paths\<close>

definition clean_path :: "fsys \<Rightarrow> path \<Rightarrow> bool" where
  "clean_path fs p \<longleftrightarrow> (\<forall>q. prefix q p \<longrightarrow> link_at fs q = None) \<and> [46, 46] \<notin> set p"

lemma clean_Nil [simp]: "clean_path fs []"
  by (simp add: clean_path_def link_at_def node_at_def)

lemma clean_butlast: "clean_path fs p \<Longrightarrow> clean_path fs (butlast p)"
  unfolding clean_path_def by (meson in_set_butlastD prefix_order.trans prefixeq_butlast)

lemma clean_snoc: "clean_path fs p \<Longrightarrow> link_at fs (p @ [c]) = None \<Longrightarrow> c \<noteq> [46, 46] \<Longrightarrow> clean_path fs (p @ [c])"
  by (auto simp: clean_path_def)

text \<open>Resolution ends in a path without links, and leaves such a path as it is.\<close>

lemma resolve_parts_clean:
  "clean_path fs dn \<Longrightarrow> resolve_parts l fs dn todo = Some p \<Longrightarrow> clean_path fs p"
proof (induction l arbitrary: dn todo)
  case 0
  from 0 show ?case
    by (induction todo arbitrary: dn)
       (auto simp: resolve_parts_Cons simp del: resolve_parts.simps(2) split: if_splits option.splits
         intro: clean_butlast clean_snoc; metis clean_butlast clean_snoc)+
next
  case (Suc l)
  from Suc.prems show ?case
    by (induction todo arbitrary: dn)
       (auto simp: resolve_parts_Cons simp del: resolve_parts.simps(2) split: if_splits option.splits;
         metis clean_butlast clean_snoc clean_Nil Suc.IH)+
qed

lemma resolvePath_clean: "fst (resolvePath s fs) = Inr p \<Longrightarrow> clean_path fs p"
  by (auto simp: resolvePath_def real_path_def Let_def split: sum.splits option.splits
      intro: resolve_parts_clean [of fs "[]"])

lemma clean_resolve: "clean_path fs (dn @ todo) \<Longrightarrow> resolve_parts l fs dn todo = Some (dn @ todo)"
proof (induction todo arbitrary: dn)
  case (Cons c todo)
  have "link_at fs (dn @ [c]) = None" "c \<noteq> [46, 46]" using Cons.prems by (auto simp: clean_path_def)
  then show ?case using Cons.IH [of "dn @ [c]"] Cons.prems by (simp add: resolve_parts_Cons del: resolve_parts.simps(2))
qed simp

lemma clean_real_path: "clean_path fs p \<Longrightarrow> real_path fs p = Some p"
  using clean_resolve [of fs "[]" p] by (simp add: real_path_def)

subsection \<open>Deleting and copying\<close>

lemma node_at_drop_tree: "node_at (drop_tree p fs) q = (if prefix p q \<and> q \<noteq> [] then None else node_at fs q)"
proof -
  have "map_of (filter (\<lambda>qn. \<not> prefix p (fst qn)) xs) q = (if prefix p q then None else map_of xs q)" for xs :: "(path \<times> node) list"
    by (induction xs) auto
  then show ?thesis by (simp add: node_at_def drop_tree_def)
qed

lemma node_at_drop_node: "node_at (drop_node p fs) q = (if q = p \<and> q \<noteq> [] then None else node_at fs q)"
  by (auto simp: node_at_def drop_node_def delete_conv')

text \<open>
  Deleting.  When \<open>deletePath\<close> reports a deletion, the resolved target is gone and
  nothing outside it has changed; a file or an empty directory takes nothing else with it.  A
  symbolic link given as the path is not deleted: it is what leads to the target.
\<close>

theorem deletePath_effect:
  assumes "deletePath s recursive fs = (Inr (RDelete p True), fs')"
  shows "fst (resolvePath s fs) = Inr p \<and> path_exists fs p \<and> \<not> path_exists fs' p \<and>
    (\<forall>q. \<not> prefix p q \<longrightarrow> node_at fs' q = node_at fs q) \<and>
    (\<not> (recursive \<and> is_dir_node fs p) \<longrightarrow> (\<forall>q. q \<noteq> p \<longrightarrow> node_at fs' q = node_at fs q)) \<and>
    (\<forall>q. link_at fs q \<noteq> None \<longrightarrow> \<not> prefix q p)"
proof -
  obtain r where r: "resolvePath s fs = (r, fs)" using readonly_state [OF readonly_resolve, of s fs] by metis
  then obtain p' where p': "r = Inr p'" using assms by (cases r) (auto simp: deletePath_def fbind_def)
  have e: "path_exists fs p'" and "p' = p"
    and run: "(if is_dir_node fs p' then (if recursive then rmtree p' else rmdir p') else fmod (drop_node p')) fs = (Inr (), fs')"
    using assms r p' by (auto simp: deletePath_def fbind_def [of "resolvePath s"] fbind_get fret_def fthen_def fbind_def fget_def
        split: if_splits prod.splits sum.splits)
  then have run: "(if is_dir_node fs p then (if recursive then rmtree p else rmdir p) else fmod (drop_node p)) fs = (Inr (), fs')"
    and e: "path_exists fs p" and p: "fst (resolvePath s fs) = Inr p" using r p' by auto
  have ne: "p \<noteq> []" using run by (auto simp: rmtree_def rmdir_def fmod_def is_dir_node_def node_at_def split: if_splits)
  have fs': "fs' = drop_tree p fs \<and> recursive \<and> is_dir_node fs p \<or> fs' = drop_node p fs"
    using run by (auto simp: rmtree_def rmdir_def fmod_def split: if_splits)
  have "\<forall>q. link_at fs q \<noteq> None \<longrightarrow> \<not> prefix q p" using resolvePath_clean [OF p] by (auto simp: clean_path_def)
  then show ?thesis using p e ne fs' by (auto simp: path_exists_def node_at_drop_tree node_at_drop_node)
qed

lemma mkdir_existing: "is_dir_node fs p \<Longrightarrow> mkdir True True p fs = (Inr (), fs)"
  by (subst mkdir.simps) (simp add: os_mkdir_def path_exists_def is_dir_node_def)

text \<open>
  Copying a directory over itself or over a directory that contains it.  With
  \<open>overwrite\<close> set, the destination is removed before the copy starts, and with it the source: the
  call raises and everything at or below the destination is gone.
\<close>

theorem copyPath_destroys_source:
  assumes "fst (resolvePath source fs) = Inr src" "fst (resolvePath destination fs) = Inr dest"
    and "is_dir_node fs src" "prefix dest src" "dest \<noteq> []" "path_exists fs dest" "is_dir_node fs (butlast dest)"
  shows "\<exists>fs'. copyPath source destination True fs = (Inl (OsError ''FileNotFoundError'' src), fs') \<and>
    (\<forall>q. node_at fs' q = (if prefix dest q then None else node_at fs q))"
proof -
  let ?fs' = "drop_tree dest fs"
  have n: "node_at ?fs' q = (if prefix dest q then None else node_at fs q)" for q
    using assms(5) by (auto simp: node_at_drop_tree)
  have "clean_path ?fs' src"
    using resolvePath_clean [OF assms(1)] by (auto simp: clean_path_def link_at_def n)
  then have "real_path ?fs' src = Some src" by (rule clean_real_path)
  moreover have "\<not> is_dir_node ?fs' src" using assms(4) by (simp add: is_dir_node_def n)
  ultimately have c: "copytree max_components src dest ?fs' = (Inl (OsError ''FileNotFoundError'' src), ?fs')"
    by (subst copytree.simps) (simp add: max_components_def)
  have r: "resolvePath source fs = (Inr src, fs)" "resolvePath destination fs = (Inr dest, fs)"
    using readonly_state [OF readonly_resolve] assms(1,2) by metis+
  have "path_exists fs src" using assms(3) by (simp add: is_dir_node_def path_exists_def)
  then have "copyPath source destination True fs = (Inl (OsError ''FileNotFoundError'' src), ?fs')"
    using assms(3,5,6) r mkdir_existing [OF assms(7)] c
    by (simp add: copyPath_def fbind_def fthen_def fget_def fguard_def fret_def rmtree_def)
  then show ?thesis using n by blast
qed


section \<open>The nth occurrence\<close>

lemma nthIndex_loop_spec:
  assumes "needle \<noteq> []"
  shows "nthIndex_loop (Suc k) t needle start index =
    (if Suc k \<le> count_sub needle (drop start t)
     then Some (start + length (intercalate needle (take (Suc k) (split_sub needle (drop start t))))) else None)"
proof (induction k arbitrary: start index)
  case 0
  show ?case
  proof (cases "find_sub needle (drop start t)")
    case None
    then show ?thesis by (simp add: find_from_def count_sub.simps [of needle "drop start t"] assms)
  next
    case (Some i)
    then show ?thesis using find_sub_SomeD [OF Some] assms
      by (simp add: find_from_def count_sub.simps [of needle "drop start t"] split_sub.simps [of needle "drop start t"])
  qed
next
  case (Suc k)
  show ?case
  proof (cases "find_sub needle (drop start t)")
    case None
    then show ?thesis by (simp add: find_from_def count_sub.simps [of needle "drop start t"] assms)
  next
    case (Some i)
    let ?r = "drop (i + length needle) (drop start t)"
    have d: "drop (i + start + length needle) t = ?r" by (simp add: add.commute add.left_commute)
    have l: "i + length needle \<le> length (drop start t)" using find_sub_SomeD [OF Some] by blast
    have "nthIndex_loop (Suc (Suc k)) t needle start index = nthIndex_loop (Suc k) t needle (i + start + length needle) (i + start)"
      using Some by (simp only: nthIndex_loop.simps(2) [of "Suc k"] find_from_def option.map option.case)
    also have "\<dots> = (if Suc k \<le> count_sub needle ?r
       then Some (i + start + length needle + length (intercalate needle (take (Suc k) (split_sub needle ?r)))) else None)"
      unfolding Suc.IH d ..
    finally show ?thesis
      using Some assms l by (simp add: count_sub.simps [of needle "drop start t"] split_sub.simps [of needle "drop start t"] take_eq_Nil)
  qed
qed

text \<open>
  The anchor of \<open>insertText\<close>.  \<open>_nthIndex\<close> finds the n-th of the matches that
  \<open>count\<close> counts: it fails when there are fewer, and otherwise returns the offset at which the
  first n parts between the matches, joined by the anchor, end.
\<close>

theorem nthIndex_spec:
  assumes "needle \<noteq> []" "1 \<le> n"
  shows "nthIndex t needle n =
    (if nat n \<le> count_sub needle t then Some (length (intercalate needle (take (nat n) (split_sub needle t)))) else None)"
proof -
  obtain k where "nat n = Suc k" using assms(2) by (metis Suc_le_D nat_one_as_int nat_mono nat_1)
  then show ?thesis using nthIndex_loop_spec [OF assms(1), of k t 0 0] by (simp add: nthIndex_def del: nthIndex_loop.simps)
qed

section \<open>Listing\<close>

lemma fbind_read: "fbind (\<lambda>fs. fsum (r fs) fs) g fs = (case r fs of Inl e \<Rightarrow> (Inl e, fs) | Inr x \<Rightarrow> g x fs)"
  by (simp add: fbind_def fsum_def split: sum.splits)

lemma sort_entries_length: "length (sort_entries by desc es) = length es"
  by (simp add: sort_entries_def)

definition entry_le :: "utext \<Rightarrow> bool \<Rightarrow> entry \<Rightarrow> entry \<Rightarrow> bool" where
  "entry_le by desc a b = (if desc then sortKey by b \<le> sortKey by a else sortKey by a \<le> sortKey by b)"

lemma sort_entries_sorted: "sorted_wrt (entry_le by desc) (sort_entries by desc es)"
proof (cases desc)
  case True
  have "sorted_wrt (\<lambda>a b. sortKey by a \<le> sortKey by b) (sort_key (sortKey by) (rev es))"
    using sorted_sort_key [of "sortKey by" "rev es"] by (simp add: sorted_map)
  moreover have "entry_le by desc = (\<lambda>a b. sortKey by b \<le> sortKey by a)" using True by (auto simp: entry_le_def fun_eq_iff)
  ultimately show ?thesis using True by (simp add: sort_entries_def sorted_wrt_rev)
next
  case False
  then have "entry_le by desc = (\<lambda>a b. sortKey by a \<le> sortKey by b)" by (auto simp: entry_le_def fun_eq_iff)
  then show ?thesis using False sorted_sort_key [of "sortKey by" es] by (simp add: sort_entries_def sorted_map)
qed

text \<open>
  Listing.  A listing changes nothing, has at most \<open>max(1, limit)\<close> entries and is in
  the order of the key and direction it reports.
\<close>

theorem listFiles_bounded:
  assumes "listFiles s recursive maxDepth limit includeHidden sortBy sortOrder fs = (Inr l, fs')"
  shows "fs' = fs \<and> int (length (l_entries l)) \<le> max 1 limit \<and>
    sorted_wrt (entry_le (l_sortBy l) (l_descending l)) (l_entries l)"
proof -
  obtain r where r: "resolvePath s fs = (r, fs)" using readonly_state [OF readonly_resolve, of s fs] by metis
  then obtain base where b: "r = Inr base" using assms by (cases r) (auto simp: listFiles_def fbind_def)
  have "fs' = fs \<and> (length (l_entries l) = 1 \<or>
     (\<exists>es. l_entries l = take (nat (max 1 limit)) (sort_entries (l_sortBy l) (l_descending l) es)))"
    using assms r b
    by (auto simp: listFiles_def fbind_def [of "resolvePath s"] fbind_get fthen_guard normalizeSortBy_def normalizeSortOrder_def
        normalize_run Let_def fbind_read fret_def sort_entries_length not_less
        simp del: uni_Cons list.set split: if_splits sum.splits) (metis sort_entries_length take_all)
  moreover have "sorted_wrt P es" if "length es = 1" for P and es :: "entry list" using that by (cases es) auto
  ultimately show ?thesis
    using sorted_wrt_take [OF sort_entries_sorted] by (auto simp: max_def)
qed

section \<open>Examples\<close>

definition demo_fs :: fsys where
  "demo_fs = \<lparr>nodes = [([uni ''f''], NFile [97, 10, 98, 10, 97, 10]), ([uni ''l''], NLink (uni ''/f'')), ([uni ''d''], NDir),
       ([uni ''d'', uni ''g''], NFile [97, 97, 97]), ([uni ''w''], NFile [97, 13, 10, 98, 13, 10]), ([uni ''x''], NLink (uni ''gone''))],
     cwd = [], homes = [], stat_meta = (\<lambda>_. (0, []))\<rparr>"

definition no_rx :: rx_engine where
  "no_rx = \<lparr>rx_spans = (\<lambda>_ _. None), rx_expand = (\<lambda>_ _ _. None)\<rparr>"

definition replace_edit :: "string \<Rightarrow> string \<Rightarrow> string \<Rightarrow> udict" where
  "replace_edit p old new =
     [(''type'', UText (uni ''replaceText'')), (''path'', UText (uni p)), (''oldText'', UText (uni old)), (''newText'', UText (uni new))]"

lemmas ft_eval = demo_fs_def no_rx_def replace_edit_def text_target_def resolvePath_def real_path_def max_links_def upath_parts_def
  node_at_def is_file_node_def is_dir_node_def path_exists_def file_data_def looksBinary_def text_at_def universal_newlines_def
  decode_head_def is_cont_def second_ok_def replacement_cp_def encodeText_def cp_bytes_def valid_cp_def encoded_length_def
  count_sub.simps replace_sub.simps keeplines_def is_usep_def textToLines_def set_node_def write_text_def open_target_def
  fsm_defs Let_def value_error_def uitem_def uget_def

lemma overlap_not_ambiguous: "fst (replaceText (uni ''/d/g'') (uni ''aa'') (uni ''b'') False demo_fs) = Inr (RReplace [uni ''d'', uni ''g''] 1 2)"
  by (simp add: replaceText_eq replace_in_def ft_eval)

lemma crlf_lost: "file_data (snd (replaceText (uni ''/w'') (uni ''a'') (uni ''c'') False demo_fs)) [uni ''w''] = [99, 10, 98, 10]"
  by (simp add: replaceText_eq replace_in_def ft_eval)

lemma surrogate_empties:
  "fst (replaceText (uni ''/w'') (uni ''a'') [55296] False demo_fs) = Inl (Raised ''UnicodeEncodeError'' [])"
  "file_data (snd (replaceText (uni ''/w'') (uni ''a'') [55296] False demo_fs)) [uni ''w''] = []"
  by (simp_all add: replaceText_eq replace_in_def ft_eval)

lemma preview_without_newText:
  "fst (previewEdit no_rx (uni ''replaceText'') (butlast (replace_edit ''/f'' ''b'' '''')) demo_fs) = Inr (PReplace [uni ''f''] 1 1)"
  "fst (applyEdit no_rx (uni ''replaceText'') (butlast (replace_edit ''/f'' ''b'' '''')) demo_fs) = Inl (Raised ''KeyError'' (uni ''newText''))"
  by (simp_all add: previewEdit_def preview_replaceText_def applyEdit_def apply_replaceText_def textEditTarget_def text_item_def require_file_def ensureTextFile_def ft_eval)

lemma dry_run_of_dependent_edits:
  "fst (previewEdit no_rx (uni ''replaceText'') (replace_edit ''/f'' ''c'' ''d'') demo_fs) = Inl (value_error ''oldText was not found'')"
  "fst (applyEdit no_rx (uni ''replaceText'') (replace_edit ''/f'' ''c'' ''d'')
     (snd (applyEdit no_rx (uni ''replaceText'') (replace_edit ''/f'' ''b'' ''c'') demo_fs))) = Inr (RReplace [uni ''f''] 1 6)"
proof -
  show "fst (previewEdit no_rx (uni ''replaceText'') (replace_edit ''/f'' ''c'' ''d'') demo_fs) = Inl (value_error ''oldText was not found'')"
    by (simp add: previewEdit_def preview_replaceText_def textEditTarget_def text_item_def require_file_def ensureTextFile_def ft_eval)
  have "snd (applyEdit no_rx (uni ''replaceText'') (replace_edit ''/f'' ''b'' ''c'') demo_fs) = set_node [uni ''f''] (NFile [97, 10, 99, 10, 97, 10]) demo_fs"
    by (simp add: applyEdit_def apply_replaceText_def text_item_def replaceText_eq replace_in_def ft_eval)
  then show "fst (applyEdit no_rx (uni ''replaceText'') (replace_edit ''/f'' ''c'' ''d'')
     (snd (applyEdit no_rx (uni ''replaceText'') (replace_edit ''/f'' ''b'' ''c'') demo_fs))) = Inr (RReplace [uni ''f''] 1 6)"
    by (simp only:) (simp add: applyEdit_def apply_replaceText_def text_item_def replaceText_eq replace_in_def ft_eval)
qed

lemma range_joins_lines:
  "file_data (snd (replaceRange (uni ''/f'') 2 2 (uni ''x'') demo_fs)) [uni ''f''] = [97, 10, 120, 97, 10]"
  by (simp add: replaceRange_eq range_in_def ft_eval)

lemma dangling_link_breaks_listing:
  "fst (listFiles (uni ''/'') False 2 200 False (uni ''path'') (uni ''asc'') demo_fs) = Inl (OsError ''FileNotFoundError'' [uni ''x''])"
  by (simp add: listFiles_def normalizeSortBy_def normalizeSortOrder_def normalizeOption_def ustrip_def ulower_def rdropWhile_def uspace_def iterFiles_def child_names_def hidden_name_def entry_of_def ft_eval)

lemma stat_of_unknown_home: "fst (statPaths [uni ''/f'', uni ''~bob/x''] demo_fs) = Inl (Raised ''RuntimeError'' (uni ''Could not determine home directory.''))"
  by (simp add: statPaths_def entry_of_def ft_eval)

text \<open>
  A patch that git saw leaves no temporary file behind.  A patch that cannot be encoded never
  reaches git, and its temporary file stays.
\<close>

lemma patch_file_removed:
  assumes "applyPatch git t patch s fs = (r, fs')" "ustrip patch \<noteq> []" "encodeText patch \<noteq> None" "fst (open_target t fs) = Inr ()"
    and git: "\<And>w fs fs' x. git t w fs = (x, fs') \<Longrightarrow> is_dir_node fs' t \<longrightarrow> is_dir_node fs t"
    and "t \<noteq> []" "resolvePath s fs = (Inr w, fs)"
  shows "node_at fs' t = None"
proof -
  obtain bs where bs: "encodeText patch = Some bs" using assms(3) by auto
  obtain fs1 where o: "open_target t fs = (Inr (), fs1)" using assms(4) by (metis prod.collapse)
  define fs2 where "fs2 = set_node t (NFile bs) fs1"
  obtain x fs3 where x: "git t w fs2 = (x, fs3)" by (cases "git t w fs2")
  have "\<not> is_dir_node fs2 t" using assms(6) by (simp add: fs2_def is_dir_node_def node_at_def set_node_def update_conv)
  then have "\<not> is_dir_node fs3 t" using git [OF x] by blast
  moreover have "fs' = unlink_quietly t fs3"
    using assms(1,2,7) bs o x
    by (auto simp: applyPatch_def fsm_defs ffinally_def write_text_def fs2_def [symmetric] split: sum.splits)
  ultimately show ?thesis
    using assms(6) by (auto simp: unlink_quietly_def drop_node_def node_at_def delete_conv)
qed

lemma unencodable_patch_leaves_file:
  "node_at (snd (applyPatch git [uni ''t''] [97, 55296] (uni ''/'') demo_fs)) [uni ''t''] = Some (NFile [])"
  by (simp add: applyPatch_def ustrip_def rdropWhile_def uspace_def write_text_def open_target_def ft_eval)

lemma single_file_match_dropped: "parseRgLine (uni ''3:value = 1'') = None" "parseRgLine (uni ''3:12:30'') = Some (uni ''3'', 12, uni ''30'')"
  by (simp_all add: parseRgLine_def find_from_def parse_int_def ustrip_def rdropWhile_def uspace_def udigits_def Let_def)

lemma byte_page_splits_character:
  "page_text (fst (readFile (uni ''/f'') 0 1 UNone UNone (set_node [uni ''f''] (NFile [195, 169]) demo_fs))) = [65533]"
  by (simp add: readFile_def readFileBytes_def require_file_def ensureTextFile_def ft_eval)

theorem replaceText_exact_witness:
  "\<exists>p parts. text_target demo_fs (uni ''/l'') = Inr p \<and> uni ''b'' \<noteq> [] \<and> text_at demo_fs p = intercalate (uni ''b'') parts \<and>
    (\<forall>part \<in> set parts. \<not> sublist (uni ''b'') part) \<and> 2 \<le> length parts \<and> (False \<or> length parts = 2) \<and>
    encodeText (intercalate (uni ''xy'') parts) = Some (file_data (snd (replaceText (uni ''/l'') (uni ''b'') (uni ''xy'') False demo_fs)) p) \<and>
    RReplace [uni ''f''] 1 7 = RReplace p (length parts - 1) (length (file_data (snd (replaceText (uni ''/l'') (uni ''b'') (uni ''xy'') False demo_fs)) p)) \<and>
    (\<forall>q. q \<noteq> p \<longrightarrow> node_at (snd (replaceText (uni ''/l'') (uni ''b'') (uni ''xy'') False demo_fs)) q = node_at demo_fs q)"
proof (rule replaceText_exact)
  have "fst (replaceText (uni ''/l'') (uni ''b'') (uni ''xy'') False demo_fs) = Inr (RReplace [uni ''f''] 1 7)" 
    by (simp add: replaceText_eq replace_in_def ft_eval)
  then show "replaceText (uni ''/l'') (uni ''b'') (uni ''xy'') False demo_fs = (Inr (RReplace [uni ''f''] 1 7), snd (replaceText (uni ''/l'') (uni ''b'') (uni ''xy'') False demo_fs))"
    by (metis prod.collapse)
qed

theorem pages_reassemble_witness: "concat (map (\<lambda>k. page_text (line_page demo_fs (uni ''/w'') 1 k)) [0..<Suc 1]) = [97, 10, 98, 10]"
proof -
  have t: "text_target demo_fs (uni ''/w'') = Inr [uni ''w'']" and c: "text_at demo_fs [uni ''w''] = [97, 10, 98, 10]"
    by (simp_all add: ft_eval)
  have "length (keeplines (text_at demo_fs [uni ''w''])) = 2" unfolding c by (simp add: keeplines_def is_usep_def)
  then have "\<not> page_truncated (line_page demo_fs (uni ''/w'') 1 1)"
    using page_run [OF t, of 1 0 65536 1] by (simp add: line_page_def del: uni_Cons)
  then show ?thesis using pages_reassemble [OF t, of 1 1] c by simp
qed

theorem write_read_witness:
  "\<exists>p. RWrite [uni ''n'', uni ''k''] (uni ''overwrite'') 3 = RWrite p (uni ''overwrite'') (encoded_length [8364]) \<and>
    readFile (uni ''n/k'') 0 10 UNone UNone (snd (writeFile (uni ''n/k'') [8364] True (uni ''overwrite'') demo_fs)) =
      (Inr (RBytes p 0 (encoded_length [8364]) [8364] False), snd (writeFile (uni ''n/k'') [8364] True (uni ''overwrite'') demo_fs))"
proof (rule write_read)
  have "fst (writeFile (uni ''n/k'') [8364] True (uni ''overwrite'') demo_fs) = Inr (RWrite [uni ''n'', uni ''k''] (uni ''overwrite'') 3)" 
    by (simp add: writeFile_def normalizeWriteMode_def normalizeOption_def ustrip_def ulower_def rdropWhile_def uspace_def mkdir.simps os_mkdir_def ft_eval)
  then show "writeFile (uni ''n/k'') [8364] True (uni ''overwrite'') demo_fs =
    (Inr (RWrite [uni ''n'', uni ''k''] (uni ''overwrite'') 3), snd (writeFile (uni ''n/k'') [8364] True (uni ''overwrite'') demo_fs))"
    by (metis prod.collapse)
qed (simp_all add: encoded_length_def encodeText_def cp_bytes_def valid_cp_def)

theorem deletePath_effect_witness:
  "\<not> path_exists (snd (deletePath (uni ''/l'') False demo_fs)) [uni ''f''] \<and>
   node_at (snd (deletePath (uni ''/l'') False demo_fs)) [uni ''l''] = Some (NLink (uni ''/f''))"
proof -
  have "fst (deletePath (uni ''/l'') False demo_fs) = Inr (RDelete [uni ''f''] True)" 
    by (simp add: deletePath_def drop_node_def ft_eval)
  then have "deletePath (uni ''/l'') False demo_fs = (Inr (RDelete [uni ''f''] True), snd (deletePath (uni ''/l'') False demo_fs))"
    by (metis prod.collapse)
  from deletePath_effect [OF this]
  have "\<not> path_exists (snd (deletePath (uni ''/l'') False demo_fs)) [uni ''f'']"
    "node_at (snd (deletePath (uni ''/l'') False demo_fs)) [uni ''l''] = node_at demo_fs [uni ''l'']" by auto
  moreover have "node_at demo_fs [uni ''l''] = Some (NLink (uni ''/f''))" by (simp add: node_at_def demo_fs_def)
  ultimately show ?thesis by simp
qed

theorem copyPath_destroys_source_witness:
  "\<exists>fs'. copyPath (uni ''/d'') (uni ''/d'') True demo_fs = (Inl (OsError ''FileNotFoundError'' [uni ''d'']), fs') \<and>
    (\<forall>q. node_at fs' q = (if prefix [uni ''d''] q then None else node_at demo_fs q))"
proof (rule copyPath_destroys_source)
  show "fst (resolvePath (uni ''/d'') demo_fs) = Inr [uni ''d'']" "fst (resolvePath (uni ''/d'') demo_fs) = Inr [uni ''d'']"
    "is_dir_node demo_fs [uni ''d'']" "path_exists demo_fs [uni ''d'']" "is_dir_node demo_fs (butlast [uni ''d''])"
    by (simp_all add: ft_eval)
qed simp_all


theorem replaceText_failure_witness:
  "snd (replaceText (uni ''/w'') (uni ''a'') [55296] False demo_fs) = demo_fs \<or>
   (\<exists>p. text_target demo_fs (uni ''/w'') = Inr p \<and> \<not> list_all valid_cp [55296] \<and>
      snd (replaceText (uni ''/w'') (uni ''a'') [55296] False demo_fs) = set_node p (NFile []) demo_fs)"
  using replaceText_failure [of "uni ''/w''" "uni ''a''" "[55296]" False demo_fs] surrogate_empties(1) by (metis prod.collapse)

theorem nthIndex_spec_witness:
  "nthIndex (uni ''abab'') (uni ''b'') 2 = Some (length (intercalate (uni ''b'') (take 2 (split_sub (uni ''b'') (uni ''abab'')))))"
proof -
  have "nat 2 \<le> count_sub (uni ''b'') (uni ''abab'')" by (simp add: count_sub.simps)
  then show ?thesis using nthIndex_spec [of "uni ''b''" 2 "uni ''abab''"] by simp
qed

theorem listFiles_bounded_witness:
  "int (length (l_entries (projr (fst (listFiles (uni ''/d'') True 2 0 True (uni ''size'') (uni ''desc'') demo_fs))))) \<le> max 1 0"
proof -
  have "isl (fst (listFiles (uni ''/d'') True 2 0 True (uni ''size'') (uni ''desc'') demo_fs)) = False"
    by (simp add: listFiles_def normalizeSortBy_def normalizeSortOrder_def normalizeOption_def ustrip_def ulower_def
        rdropWhile_def uspace_def iterFiles_def walk.simps leads_to_dir_def child_names_def hidden_name_def entry_of_def ft_eval)
  then have "listFiles (uni ''/d'') True 2 0 True (uni ''size'') (uni ''desc'') demo_fs =
    (Inr (projr (fst (listFiles (uni ''/d'') True 2 0 True (uni ''size'') (uni ''desc'') demo_fs))),
     snd (listFiles (uni ''/d'') True 2 0 True (uni ''size'') (uni ''desc'') demo_fs))"
    by (metis prod.collapse sum.collapse(2))
  from listFiles_bounded [OF this] show ?thesis by blast
qed

end
