(* ===== verification/CommandTool.thy ===== *)
theory CommandTool
  imports FileTools
begin

text \<open>
  The command tool of the agent (\<open>agent/agent_mcp/tools/command.py\<close>): an argument vector or a shell
  line is run as a process with a time limit, its output is cut to a number of bytes, and a summary
  goes into a history of the last 20 results.  The process itself is an argument: it maps the
  vector, the directory, the environment and the time limit to how it ended.  The duration, which
  the clock gives, is left out.
\<close>

datatype process_end =
    Exited int bytes bytes
  | TimedOut "bytes option" "bytes option"
  | NotStarted pyexn

record command_payload =
  cp_success :: bool
  cp_command :: "utext list"
  cp_shellCommand :: "utext option"
  cp_cwd :: path
  cp_returnCode :: "int option"
  cp_stdout :: utext
  cp_stderr :: utext
  cp_truncated :: bool
  cp_stdoutBytes :: nat
  cp_stderrBytes :: nat
  cp_stdoutReturned :: nat
  cp_stderrReturned :: nat
  cp_timedOut :: bool

record command_summary =
  cs_command :: "utext list"
  cs_shellCommand :: "utext option"
  cs_cwd :: path
  cs_returnCode :: "int option"
  cs_success :: bool
  cs_timedOut :: bool
  cs_truncated :: bool
  cs_stdoutBytes :: nat
  cs_stderrBytes :: nat

text \<open>\<open>_decodeAndLimit\<close>: the text, the original bytes, the returned bytes, and whether it was cut.\<close>

definition decodeAndLimit :: "bytes \<Rightarrow> nat \<Rightarrow> utext \<times> nat \<times> nat \<times> bool" where
  "decodeAndLimit raw maxBytes =
     (let truncated = length raw > maxBytes; raw' = (if truncated then take maxBytes raw else raw)
      in (decodeReplace raw', length raw, length raw', truncated))"

definition MAX_RECENT :: nat where
  "MAX_RECENT = 20"

definition summary_of :: "command_payload \<Rightarrow> command_summary" where
  "summary_of p = \<lparr>cs_command = cp_command p, cs_shellCommand = cp_shellCommand p, cs_cwd = cp_cwd p,
     cs_returnCode = cp_returnCode p, cs_success = cp_success p, cs_timedOut = cp_timedOut p,
     cs_truncated = cp_truncated p, cs_stdoutBytes = cp_stdoutBytes p, cs_stderrBytes = cp_stderrBytes p\<rparr>"

definition recordCommandResult :: "command_payload \<Rightarrow> command_summary list \<Rightarrow> command_summary list" where
  "recordCommandResult p hist =
     (let h = hist @ [summary_of p] in if length h > MAX_RECENT then drop (length h - MAX_RECENT) h else h)"

text \<open>\<open>run_env.update(...)\<close> over the inherited environment.\<close>

definition merged_env :: "(utext \<times> utext) list \<Rightarrow> (utext \<times> utext) list option \<Rightarrow> (utext \<times> utext) list" where
  "merged_env inherited env =
     (case env of None \<Rightarrow> inherited | Some kvs \<Rightarrow> foldl (\<lambda>e kv. AList.update (fst kv) (snd kv) e) inherited kvs)"

record tool_world =
  tw_fs :: fsys
  tw_environ :: "(utext \<times> utext) list"
  tw_workspace :: utext
  tw_history :: "command_summary list"

type_synonym process_runner =
  "utext list \<Rightarrow> path \<Rightarrow> (utext \<times> utext) list \<Rightarrow> int \<Rightarrow> process_end"

definition payload_of ::
  "utext list \<Rightarrow> utext option \<Rightarrow> path \<Rightarrow> nat \<Rightarrow> int option \<Rightarrow> bool \<Rightarrow> bytes \<Rightarrow> bytes \<Rightarrow> command_payload" where
  "payload_of command shellCommand workdir output_limit code timed_out so se =
     (case decodeAndLimit so output_limit of (out, ob, orb, ot) \<Rightarrow>
      case decodeAndLimit se output_limit of (err, eb, erb, et) \<Rightarrow>
        \<lparr>cp_success = (\<not> timed_out), cp_command = command, cp_shellCommand = shellCommand, cp_cwd = workdir,
         cp_returnCode = code, cp_stdout = out, cp_stderr = err, cp_truncated = (ot \<or> et),
         cp_stdoutBytes = ob, cp_stderrBytes = eb, cp_stdoutReturned = orb, cp_stderrReturned = erb,
         cp_timedOut = timed_out\<rparr>)"

definition runProcess ::
  "process_runner \<Rightarrow> utext list \<Rightarrow> utext \<Rightarrow> int \<Rightarrow> (utext \<times> utext) list option \<Rightarrow> int \<Rightarrow> utext option \<Rightarrow> tool_world
   \<Rightarrow> (pyexn + command_payload) \<times> tool_world" where
  "runProcess proc command dir timeoutSeconds env maxOutputBytes shellCommand w =
     (case fst (resolvePath dir (tw_fs w)) of
        Inl e \<Rightarrow> (Inl e, w)
      | Inr workdir \<Rightarrow>
          (let timeout = max 1 timeoutSeconds;
               output_limit = nat (max 1 maxOutputBytes);
               finish = (\<lambda>p. (Inr p, w\<lparr>tw_history := recordCommandResult p (tw_history w)\<rparr>))
           in case proc command workdir (merged_env (tw_environ w) env) timeout of
                NotStarted e \<Rightarrow> (Inl e, w)
              | Exited code so se \<Rightarrow> finish (payload_of command shellCommand workdir output_limit (Some code) False so se)
              | TimedOut so se \<Rightarrow>
                  finish (payload_of command shellCommand workdir output_limit None True
                            (case so of None \<Rightarrow> [] | Some b \<Rightarrow> b) (case se of None \<Rightarrow> [] | Some b \<Rightarrow> b))))"

definition work_dir :: "utext option \<Rightarrow> tool_world \<Rightarrow> utext" where
  "work_dir dir w = (case dir of Some d \<Rightarrow> if d = [] then tw_workspace w else d | None \<Rightarrow> tw_workspace w)"

definition runCommand ::
  "process_runner \<Rightarrow> utext list \<Rightarrow> utext option \<Rightarrow> int \<Rightarrow> (utext \<times> utext) list option \<Rightarrow> int \<Rightarrow> tool_world
   \<Rightarrow> (pyexn + command_payload) \<times> tool_world" where
  "runCommand proc command dir timeoutSeconds env maxOutputBytes w =
     (if command = [] then (Inl (value_error ''command must not be empty''), w)
      else if \<not> list_all (\<lambda>part. part \<noteq> []) command
        then (Inl (value_error ''command must be a non-empty list of strings''), w)
      else runProcess proc command (work_dir dir w) timeoutSeconds env maxOutputBytes None w)"

definition runShellCommand ::
  "process_runner \<Rightarrow> utext \<Rightarrow> utext option \<Rightarrow> int \<Rightarrow> (utext \<times> utext) list option \<Rightarrow> int \<Rightarrow> tool_world
   \<Rightarrow> (pyexn + command_payload) \<times> tool_world" where
  "runShellCommand proc command dir timeoutSeconds env maxOutputBytes w =
     (if ustrip command = [] then (Inl (value_error ''command must not be empty''), w)
      else runProcess proc [uni ''bash'', uni ''-lc'', command] (work_dir dir w) timeoutSeconds env maxOutputBytes (Some command) w)"

text \<open>\<open>_RECENT_COMMAND_RESULTS[-max_items:]\<close>.\<close>

definition last_n :: "nat \<Rightarrow> 'a list \<Rightarrow> 'a list" where
  "last_n n xs = drop (length xs - n) xs"

definition getCommandHistory :: "int \<Rightarrow> tool_world \<Rightarrow> command_summary list" where
  "getCommandHistory limit w = last_n (nat (max 1 limit)) (tw_history w)"

section \<open>Properties\<close>

datatype command_call =
    Argv "utext list" "utext option" int "(utext \<times> utext) list option" int
  | Shell utext "utext option" int "(utext \<times> utext) list option" int

fun call_run :: "process_runner \<Rightarrow> command_call \<Rightarrow> tool_world \<Rightarrow> (pyexn + command_payload) \<times> tool_world" where
  "call_run proc (Argv c d t e m) w = runCommand proc c d t e m w"
| "call_run proc (Shell c d t e m) w = runShellCommand proc c d t e m w"

fun calls_run :: "process_runner \<Rightarrow> command_call list \<Rightarrow> tool_world \<Rightarrow> command_payload list \<times> tool_world" where
  "calls_run proc [] w = ([], w)"
| "calls_run proc (c # cs) w =
     (case call_run proc c w of
        (Inl e, w1) \<Rightarrow> calls_run proc cs w1
      | (Inr p, w1) \<Rightarrow> (case calls_run proc cs w1 of (ps, w2) \<Rightarrow> (p # ps, w2)))"

lemma last_n_snoc: "last_n n (last_n n xs @ [x]) = last_n n (xs @ [x])"
proof (cases "n \<le> length xs")
  case True
  then show ?thesis by (cases "n = 0") (simp_all add: last_n_def Suc_diff_le)
next
  case False
  then show ?thesis by (simp add: last_n_def)
qed

lemma recordCommandResult_last: "recordCommandResult p hist = last_n MAX_RECENT (hist @ [summary_of p])"
  by (simp add: recordCommandResult_def last_n_def Let_def)

lemma call_run_world:
  assumes "call_run proc c w = (r, w')"
  shows "w' = (case r of Inl e \<Rightarrow> w | Inr p \<Rightarrow> w\<lparr>tw_history := recordCommandResult p (tw_history w)\<rparr>)"
  using assms by (cases c) (auto simp: runCommand_def runShellCommand_def runProcess_def Let_def
      split: if_splits sum.splits process_end.splits)

lemma calls_run_history:
  "calls_run proc cs w = (ps, w') \<Longrightarrow> tw_history w = last_n MAX_RECENT old \<Longrightarrow>
     tw_history w' = last_n MAX_RECENT (old @ map summary_of ps)"
proof (induction cs arbitrary: w ps old)
  case Nil
  then show ?case by simp
next
  case (Cons c cs)
  obtain r w1 where r: "call_run proc c w = (r, w1)" by (cases "call_run proc c w")
  show ?case
  proof (cases r)
    case (Inl e)
    then show ?thesis using Cons r call_run_world [OF r] by simp
  next
    case (Inr p)
    obtain qs where q: "calls_run proc cs w1 = (qs, w')" "ps = p # qs"
      using Cons.prems(1) r Inr by (auto split: prod.splits)
    have "tw_history w1 = last_n MAX_RECENT (old @ [summary_of p])"
      using call_run_world [OF r] Inr Cons.prems(2) by (simp add: recordCommandResult_last last_n_snoc)
    from Cons.IH [OF q(1) this] show ?thesis using q(2) by simp
  qed
qed

text \<open>
  The command history.  Starting from an empty history, after any sequence of
  command and shell calls the history holds the summaries of the last 20 calls that produced a
  result (calls that raised leave no entry), in order.
\<close>

theorem history_is_last_twenty:
  assumes "tw_history w = []"
  shows "tw_history (snd (calls_run proc cs w)) = last_n 20 (map summary_of (fst (calls_run proc cs w)))"
  using calls_run_history [of proc cs w _ _ "[]"] assms
  by (cases "calls_run proc cs w") (simp add: last_n_def MAX_RECENT_def)

text \<open>
  Output limits.  Of each stream at most \<open>max(1, maxOutputBytes)\<close> bytes are
  returned; the result is marked truncated exactly when something was cut; what is returned is the
  decoding of a prefix of the stream, the whole of it when nothing was cut.
\<close>

theorem output_limited:
  assumes "runProcess proc command dir t env maxOutputBytes sc w = (Inr p, w')"
    and "proc command workdir (merged_env (tw_environ w) env) (max 1 t) = Exited code so se"
    and "fst (resolvePath dir (tw_fs w)) = Inr workdir"
  shows "int (cp_stdoutReturned p) \<le> max 1 maxOutputBytes \<and> int (cp_stderrReturned p) \<le> max 1 maxOutputBytes \<and>
    (cp_truncated p \<longleftrightarrow> cp_stdoutReturned p < length so \<or> cp_stderrReturned p < length se) \<and>
    cp_stdout p = decodeReplace (take (nat (max 1 maxOutputBytes)) so) \<and>
    cp_stderr p = decodeReplace (take (nat (max 1 maxOutputBytes)) se)"
proof -
  have p: "p = payload_of command sc workdir (nat (max 1 maxOutputBytes)) (Some code) False so se"
    using assms by (auto simp: runProcess_def Let_def)
  show ?thesis unfolding p payload_of_def decodeAndLimit_def Let_def by (auto simp: not_less)
qed

definition demo_world :: tool_world where
  "demo_world = \<lparr>tw_fs = \<lparr>nodes = [], cwd = [], homes = [], stat_meta = (\<lambda>_. (0, []))\<rparr>, tw_environ = [],
     tw_workspace = uni ''/'', tw_history = []\<rparr>"

definition echo :: process_runner where
  "echo = (\<lambda>command dir env t. Exited 0 (concat command) [])"

theorem history_is_last_twenty_witness:
  "tw_history (snd (calls_run echo [Argv [uni ''ls''] None 1 None 1, Argv [] None 1 None 1] demo_world)) =
     last_n 20 (map summary_of (fst (calls_run echo [Argv [uni ''ls''] None 1 None 1, Argv [] None 1 None 1] demo_world)))"
  by (rule history_is_last_twenty) (simp add: demo_world_def)

theorem output_limited_witness:
  "\<exists>p w'. runProcess echo [uni ''ls''] (uni ''/'') 5 None 1 None demo_world = (Inr p, w') \<and> cp_stdoutReturned p = 1 \<and> cp_truncated p \<and>
     int (cp_stdoutReturned p) \<le> max 1 1"
proof -
  let ?p = "payload_of [uni ''ls''] None [] 1 (Some 0) False (uni ''ls'') []"
  have r: "fst (resolvePath (uni ''/'') (tw_fs demo_world)) = Inr []"
    by (simp add: demo_world_def resolvePath_def real_path_def upath_parts_def Let_def)
  have e: "echo [uni ''ls''] [] (merged_env (tw_environ demo_world) None) (max 1 5) = Exited 0 (uni ''ls'') []"
    by (simp add: echo_def)
  obtain w' where w: "runProcess echo [uni ''ls''] (uni ''/'') 5 None 1 None demo_world = (Inr ?p, w')"
    using r e by (simp add: runProcess_def)
  have "int (cp_stdoutReturned ?p) \<le> max 1 1" using output_limited [OF w e r] by blast
  moreover have "cp_stdoutReturned ?p = 1" "cp_truncated ?p" by (simp_all add: payload_of_def decodeAndLimit_def)
  ultimately show ?thesis using w by blast
qed

end
