(* ===== verification/Gateway.thy ===== *)
theory Gateway
  imports Sessions Runner
begin

text \<open>
  The handler of a web socket connection (\<open>gateway/service/AgentGatewayService.py\<close>,
  \<open>handleWebSocket\<close>): what each message of the client does to the stored session (theory
  \<open>Sessions\<close>), to the background run (theory \<open>Runner\<close>), to the approvals the running agent waits
  for (\<open>agent/agent_core/agent_loop.py\<close>), and what is sent back.  Included are the recovery paths for
  an approval or a choice that outlived its run, regeneration and the deletion of messages.

  The state is that of one session.  \<open>gw_stream\<close> says whether a stream task exists that has not
  ended, \<open>gw_conn\<close> whether the session has an active connection, \<open>gw_known\<close> whether the runner has
  a state for the session.  The execution of a tool on a recovered approval is an argument
  (\<open>exec\<close>: \<open>Inl\<close> the text of an exception); \<open>gw_executed\<close>, which the code does not keep, is what
  was executed.  Trace records are left out.
\<close>

section \<open>Approvals of the running agent\<close>

record core =
  co_pendingApprovals :: "string list"
  co_approvalDecisions :: "(string \<times> bool \<times> utext) list"
  co_pendingPlan :: "string option"
  co_planDecision :: "(bool \<times> utext) option"
  co_pendingChoice :: "string option"
  co_choiceDecision :: "(string \<times> string) option"
  co_mode :: string

definition resolveApproval :: "string \<Rightarrow> bool \<Rightarrow> utext \<Rightarrow> core \<Rightarrow> bool \<times> core" where
  "resolveApproval actionId approved reason c =
     (if actionId \<notin> set (co_pendingApprovals c) then (False, c)
      else (True, c\<lparr>co_approvalDecisions := AList.update actionId (approved, reason) (co_approvalDecisions c)\<rparr>))"

definition approve :: "string \<Rightarrow> core \<Rightarrow> bool \<times> core" where
  "approve actionId c = resolveApproval actionId True [] c"

definition reject :: "string \<Rightarrow> utext \<Rightarrow> core \<Rightarrow> bool \<times> core" where
  "reject actionId reason c = resolveApproval actionId False reason c"

definition approvePlan :: "core \<Rightarrow> bool \<times> core" where
  "approvePlan c = (if co_pendingPlan c = None then (False, c) else (True, c\<lparr>co_planDecision := Some (True, [])\<rparr>))"

definition rejectPlan :: "utext \<Rightarrow> core \<Rightarrow> bool \<times> core" where
  "rejectPlan reason c = (if co_pendingPlan c = None then (False, c) else (True, c\<lparr>co_planDecision := Some (False, reason)\<rparr>))"

text \<open>\<open>AgentSession.resolveChoice\<close> passes on the selection and the input, not the action.\<close>

definition core_resolveChoice :: "string \<Rightarrow> string \<Rightarrow> core \<Rightarrow> bool \<times> core" where
  "core_resolveChoice selectionId customInput c =
     (if co_pendingChoice c = None then (False, c)
      else (True, c\<lparr>co_choiceDecision := Some (selectionId, customInput)\<rparr>))"

definition resolveChoice :: "string \<Rightarrow> string \<Rightarrow> string \<Rightarrow> core \<Rightarrow> bool \<times> core" where
  "resolveChoice actionId selectionId customInput c = core_resolveChoice selectionId customInput c"

section \<open>State\<close>

datatype server_event =
    SReady bool string
  | SReadyIdle
  | SCreated
  | SEvent "event_data buf_event"
  | SApprovalResume pending_approval
  | SChoiceResume pending_choice
  | SPong bool string
  | SError utext
  | SQueued
  | SModeChanged string bool
  | SBusy
  | SRegenerateStarted int
  | SMessagesDeleted int nat
  | SApprovalResolved string bool utext
  | SChoiceResolved string string string
  | SToolResult string string bool utext
  | SDone string

record gateway =
  gw_db :: sessions
  gw_runner :: runner
  gw_known :: bool
  gw_core :: core
  gw_stream :: bool
  gw_conn :: bool
  gw_lastSeq :: int
  gw_sent :: "server_event list"
  gw_executed :: "(string \<times> pydict) list"

definition send :: "server_event \<Rightarrow> gateway \<Rightarrow> gateway" where
  "send e g = g\<lparr>gw_sent := gw_sent g @ [e]\<rparr>"

definition isRunning :: "gateway \<Rightarrow> bool" where
  "isRunning g \<longleftrightarrow> gw_known g \<and> rn_running (gw_runner g)"

definition status_or_idle :: "string \<Rightarrow> sessions \<Rightarrow> string" where
  "status_or_idle sid db = (case getSessionStatus sid db of Some s \<Rightarrow> if s = [] then ''idle'' else s | None \<Rightarrow> ''idle'')"

text \<open>A call on the runtime of the session; without a runtime it fails.\<close>

definition on_runtime :: "(core \<Rightarrow> bool \<times> core) \<Rightarrow> gateway \<Rightarrow> bool \<times> gateway" where
  "on_runtime f g =
     (if gw_known g \<and> rn_runtime (gw_runner g)
      then (case f (gw_core g) of (ok, c) \<Rightarrow> (ok, g\<lparr>gw_core := c\<rparr>))
      else (False, g))"

definition ensureStreamEvents :: "gateway \<Rightarrow> gateway" where
  "ensureStreamEvents g = (if gw_stream g \<or> \<not> gw_known g then g else g\<lparr>gw_stream := True\<rparr>)"

definition runner_submit :: "utext \<Rightarrow> gateway \<Rightarrow> gateway" where
  "runner_submit m g = g\<lparr>gw_runner := submit m (gw_runner g), gw_known := True\<rparr>"

definition db_do :: "(sessions \<Rightarrow> 'a \<times> sessions) \<Rightarrow> gateway \<Rightarrow> gateway" where
  "db_do f g = g\<lparr>gw_db := snd (f (gw_db g))\<rparr>"

section \<open>Recovery\<close>

type_synonym executor = "AgentSessionOrm \<Rightarrow> string \<Rightarrow> pydict \<Rightarrow> utext + utext"

definition refusal :: "string \<Rightarrow> utext \<Rightarrow> utext" where
  "refusal tool_name reason = [91, 29992, 25143, 25298, 32477, 93, 32, 24037, 20855, 32] @ uni tool_name @ [32, 26410, 25191, 34892, 12290, 21407, 22240, 58, 32] @ reason"

text \<open>What an approved tool gives: success, output, and whether it was executed.\<close>

definition resume_execute :: "executor \<Rightarrow> string \<Rightarrow> int \<Rightarrow> pending_approval \<Rightarrow> sessions \<Rightarrow> bool \<times> utext \<times> bool" where
  "resume_execute exec sid uid p db =
     (case dao_getSession sid (Some uid) db of
        None \<Rightarrow> (False, [], False)
      | Some s \<Rightarrow> (case exec s (pa_tool_name p) (pa_arguments p) of
                     Inr out \<Rightarrow> (True, out, True)
                   | Inl msg \<Rightarrow> (False, msg, True)))"

text \<open>What follows when the tool has ended: the answer is stored, the pending approval is cleared, and the client is told.\<close>

definition resume_finish ::
  "timestamp \<Rightarrow> string \<Rightarrow> pending_approval \<Rightarrow> string \<Rightarrow> bool \<Rightarrow> utext \<Rightarrow> bool \<Rightarrow> utext \<Rightarrow> gateway \<Rightarrow> gateway" where
  "resume_finish now sid p actionId approved reason ok output g =
     (let g = db_do (addMessage sid ''tool'' (Some (take 2000 output)) None (getNextRoundIndex sid (gw_db g))
                       (Some (pa_call_id p)) (Some (MToolName (pa_tool_name p))) now) g;
          g = db_do (updatePendingApproval sid None now) g;
          g = db_do (session_updateStatus sid ''idle'' None False now) g;
          g = send (SApprovalResolved actionId approved reason) g;
          g = send (SToolResult (pa_call_id p) (pa_tool_name p) ok (take 2000 output)) g;
          g = (if approved \<and> ok then send (SReady False ''idle'') g else g)
      in send (SDone []) g)"

text \<open>The handler of an approval when nothing else happens while the tool runs.\<close>

definition handleApprovalResume ::
  "executor \<Rightarrow> timestamp \<Rightarrow> int \<Rightarrow> string \<Rightarrow> string \<Rightarrow> bool \<Rightarrow> utext \<Rightarrow> gateway \<Rightarrow> bool \<times> gateway" where
  "handleApprovalResume exec now uid sid actionId approved reason g =
     (case getPendingApproval sid (gw_db g) of
        None \<Rightarrow> (False, g)
      | Some p \<Rightarrow>
          if pa_action_id p \<noteq> actionId then (False, g)
          else
            (let (ok, output, ran) = (if approved then resume_execute exec sid uid p (gw_db g)
                                      else (False, refusal (pa_tool_name p) reason, False));
                 g = (if ran then g\<lparr>gw_executed := gw_executed g @ [(pa_tool_name p, pa_arguments p)]\<rparr> else g)
             in (True, resume_finish now sid p actionId approved reason ok output g)))"

definition choice_json :: "string \<Rightarrow> string \<Rightarrow> utext" where
  "choice_json selectionId customInput =
     uni (dumps False '', '' '': '' (PDict [(''selection_id'', PStr selectionId), (''custom_input'', PStr customInput)]))"

definition handleChoiceResume :: "timestamp \<Rightarrow> string \<Rightarrow> string \<Rightarrow> string \<Rightarrow> string \<Rightarrow> gateway \<Rightarrow> bool \<times> gateway" where
  "handleChoiceResume now sid actionId selectionId customInput g =
     (case getPendingChoice sid (gw_db g) of
        None \<Rightarrow> (False, g)
      | Some p \<Rightarrow>
          if pc_action_id p \<noteq> actionId then (False, g)
          else
            (let output = take 2000 (choice_json selectionId customInput);
                 g = db_do (addMessage sid ''tool'' (Some output) None (getNextRoundIndex sid (gw_db g)) (Some actionId)
                              (Some (MToolName ''ask_choice'')) now) g;
                 g = db_do (updatePendingChoice sid None now) g;
                 g = db_do (session_updateStatus sid ''idle'' None False now) g;
                 g = send (SChoiceResolved actionId selectionId customInput) g;
                 g = send (SToolResult actionId ''ask_choice'' True output) g;
                 g = send (SReady False ''idle'') g
             in (True, send (SDone []) g)))"

section \<open>Regeneration and deletion\<close>

definition regenerate :: "timestamp \<Rightarrow> string \<Rightarrow> utext \<Rightarrow> gateway \<Rightarrow> gateway" where
  "regenerate now sid newMessage g =
     (if isRunning g then send SBusy g
      else
        (let maxRound = getMaxRoundIndex sid (gw_db g) in
         if maxRound = 0 then send (SError [27809, 26377, 21487, 37325, 26032, 29983, 25104, 30340, 28040, 24687]) g
         else case getUserMessageForRound sid maxRound (gw_db g) of
           None \<Rightarrow> send (SError [25214, 19981, 21040, 35813, 36718, 30340, 29992, 25143, 28040, 24687]) g
         | Some userMsg \<Rightarrow>
             if userMsg = [] then send (SError [25214, 19981, 21040, 35813, 36718, 30340, 29992, 25143, 28040, 24687]) g
             else
               (let finalMessage = (if newMessage = [] then userMsg else newMessage);
                    g = send (SRegenerateStarted maxRound) g;
                    g = db_do (deleteRound sid maxRound now) g;
                    g = (if gw_known g then g\<lparr>gw_runner := clearBuffer (gw_runner g)\<rparr> else g);
                    g = g\<lparr>gw_lastSeq := -1\<rparr>;
                    g = db_do (session_updateStatus sid ''running'' None False now) g;
                    g = runner_submit finalMessage g
                in g\<lparr>gw_stream := True\<rparr>)))"

definition ws_deleteMessagesFrom :: "timestamp \<Rightarrow> string \<Rightarrow> int \<Rightarrow> gateway \<Rightarrow> gateway" where
  "ws_deleteMessagesFrom now sid messageId g =
     (if isRunning g then send SBusy g
      else send (SMessagesDeleted messageId (fst (deleteMessagesFrom sid messageId now (gw_db g))))
             (db_do (deleteMessagesFrom sid messageId now) g))"

section \<open>Messages of the client\<close>

datatype client_message =
    MPing
  | MUser utext
  | MApproval string bool utext
  | MPlan bool utext
  | MChoice string string string
  | MSwitchMode string
  | MCancel
  | MRegenerate utext
  | MDelete "int option"
  | MOther string

definition blank :: "utext \<Rightarrow> bool" where
  "blank t \<longleftrightarrow> list_all uspace t"

definition ws_user_message :: "utext \<Rightarrow> gateway \<Rightarrow> gateway" where
  "ws_user_message m g =
     (if blank m then send (SError (uni ''message '' @ [19981, 33021, 20026, 31354])) g
      else if isRunning g then send SQueued (runner_submit m g)
      else (runner_submit m g)\<lparr>gw_stream := True\<rparr>)"

definition ws_approval :: "executor \<Rightarrow> timestamp \<Rightarrow> int \<Rightarrow> string \<Rightarrow> string \<Rightarrow> bool \<Rightarrow> utext \<Rightarrow> gateway \<Rightarrow> gateway" where
  "ws_approval exec now uid sid actionId approved reason g =
     (let (ok, g) = on_runtime (if approved then approve actionId else reject actionId reason) g;
          (ok, g) = (if \<not> ok \<and> actionId \<noteq> [] then handleApprovalResume exec now uid sid actionId approved reason g else (ok, g));
          g = (if ok then g else send (SError [23457, 25209, 21160, 20316, 19981, 23384, 22312, 25110, 24050, 22788, 29702]) g)
      in ensureStreamEvents g)"

definition ws_plan :: "bool \<Rightarrow> utext \<Rightarrow> gateway \<Rightarrow> gateway" where
  "ws_plan approved reason g =
     (let (ok, g) = on_runtime (if approved then approvePlan else rejectPlan reason) g
      in if ok then ensureStreamEvents g else send (SError [26080, 24453, 23457, 25209, 30340, 35745, 21010, 25110, 35745, 21010, 24050, 22788, 29702]) g)"

definition ws_choice :: "timestamp \<Rightarrow> string \<Rightarrow> string \<Rightarrow> string \<Rightarrow> string \<Rightarrow> gateway \<Rightarrow> gateway" where
  "ws_choice now sid actionId selectionId customInput g =
     (let (ok, g) = on_runtime (resolveChoice actionId selectionId customInput) g;
          (ok, g) = (if \<not> ok \<and> actionId \<noteq> [] then handleChoiceResume now sid actionId selectionId customInput g else (ok, g))
      in if ok then ensureStreamEvents g else send (SError [26080, 24453, 22238, 22797, 30340, 36873, 25321, 39064, 25110, 24050, 22788, 29702]) g)"

definition ws_switch_mode :: "timestamp \<Rightarrow> string \<Rightarrow> string \<Rightarrow> gateway \<Rightarrow> gateway" where
  "ws_switch_mode now sid mode g =
     (if mode \<notin> set AGENT_MODES then send (SError ([19981, 25903, 25345, 30340, 27169, 24335, 58, 32] @ uni mode)) g
      else
        (let g = db_do (updateMode sid mode now) g;
             (live, g) = on_runtime (\<lambda>c. (True, c\<lparr>co_mode := mode\<rparr>)) g
         in send (SModeChanged mode live) g))"

definition ws_cancel :: "timestamp \<Rightarrow> string \<Rightarrow> gateway \<Rightarrow> gateway" where
  "ws_cancel now sid g =
     (let g = (if gw_known g then g\<lparr>gw_runner := cancel_run (gw_runner g)\<rparr> else g);
          g = db_do (session_updateStatus sid ''idle'' None False now) g;
          g = db_do (updatePendingApproval sid None now) g;
          g = g\<lparr>gw_stream := False\<rparr>
      in send (SDone ''cancelled'') g)"

fun handle_message :: "executor \<Rightarrow> timestamp \<Rightarrow> int \<Rightarrow> string \<Rightarrow> client_message \<Rightarrow> gateway \<Rightarrow> gateway" where
  "handle_message exec now uid sid MPing g = send (SPong (isRunning g) (status_or_idle sid (gw_db g))) g"
| "handle_message exec now uid sid (MUser m) g = ws_user_message m g"
| "handle_message exec now uid sid (MApproval actionId approved reason) g = ws_approval exec now uid sid actionId approved reason g"
| "handle_message exec now uid sid (MPlan approved reason) g = ws_plan approved reason g"
| "handle_message exec now uid sid (MChoice actionId selectionId customInput) g = ws_choice now sid actionId selectionId customInput g"
| "handle_message exec now uid sid (MSwitchMode mode) g = ws_switch_mode now sid mode g"
| "handle_message exec now uid sid MCancel g = ws_cancel now sid g"
| "handle_message exec now uid sid (MRegenerate m) g = regenerate now sid m g"
| "handle_message exec now uid sid (MDelete messageId) g =
     (case messageId of None \<Rightarrow> send (SError ([32570, 23569] @ uni '' messageId'')) g | Some i \<Rightarrow> ws_deleteMessagesFrom now sid i g)"
| "handle_message exec now uid sid (MOther ty) g = send (SError (([19981, 25903, 25345, 30340] @ uni '' Agent '' @ [28040, 24687, 31867, 22411, 58, 32]) @ uni ty)) g"

section \<open>Several messages at a time\<close>

text \<open>
  The handler waits for the tool of a recovered approval before it clears the pending approval, and meanwhile the messages of another
  connection and the background run go on.  \<open>WStart\<close> is the approval up to this wait, \<open>WEnd\<close> the rest of the handler
  for the \<open>i\<close>-th tool that runs, with its result; \<open>WStore\<close> is a background run that asks for an approval.
\<close>

type_synonym flight = "(pending_approval \<times> utext) list"

datatype ws_act =
    WMsg executor timestamp int client_message
  | WStart int string utext
  | WEnd timestamp nat "utext + utext"
  | WStore timestamp pending_approval

definition resume_start :: "int \<Rightarrow> string \<Rightarrow> string \<Rightarrow> utext \<Rightarrow> gateway \<times> flight \<Rightarrow> gateway \<times> flight" where
  "resume_start uid sid actionId reason st =
     (case st of (g, fl) \<Rightarrow>
        if fst (on_runtime (approve actionId) g) \<or> actionId = [] then st
        else case getPendingApproval sid (gw_db g) of
               None \<Rightarrow> st
             | Some p \<Rightarrow>
                 if pa_action_id p \<noteq> actionId \<or> dao_getSession sid (Some uid) (gw_db g) = None then st
                 else (g\<lparr>gw_executed := gw_executed g @ [(pa_tool_name p, pa_arguments p)]\<rparr>, fl @ [(p, reason)]))"

definition resume_end :: "timestamp \<Rightarrow> string \<Rightarrow> nat \<Rightarrow> utext + utext \<Rightarrow> gateway \<times> flight \<Rightarrow> gateway \<times> flight" where
  "resume_end now sid i r st =
     (case st of (g, fl) \<Rightarrow>
        if length fl \<le> i then st
        else case fl ! i of (p, reason) \<Rightarrow>
               (ensureStreamEvents (resume_finish now sid p (pa_action_id p) True reason (\<not> isl r) (case r of Inl t \<Rightarrow> t | Inr t \<Rightarrow> t) g),
                take i fl @ drop (Suc i) fl))"

fun ws_step :: "string \<Rightarrow> ws_act \<Rightarrow> gateway \<times> flight \<Rightarrow> gateway \<times> flight" where
  "ws_step sid (WMsg exec now uid msg) st = (handle_message exec now uid sid msg (fst st), snd st)"
| "ws_step sid (WStart uid actionId reason) st = resume_start uid sid actionId reason st"
| "ws_step sid (WEnd now i r) st = resume_end now sid i r st"
| "ws_step sid (WStore now p) st = (db_do (updatePendingApproval sid (Some p) now) (fst st), snd st)"

definition ws_run :: "string \<Rightarrow> ws_act list \<Rightarrow> gateway \<times> flight \<Rightarrow> gateway \<times> flight" where
  "ws_run sid acts st = fold (ws_step sid) acts st"

definition executes :: "string \<Rightarrow> ws_act \<Rightarrow> gateway \<times> flight \<Rightarrow> bool" where
  "executes sid act st \<longleftrightarrow> gw_executed (fst (ws_step sid act st)) \<noteq> gw_executed (fst st)"

text \<open>The calls that are approved one after the other: none while the tool of another one runs.\<close>

fun one_at_a_time :: "string \<Rightarrow> ws_act list \<Rightarrow> gateway \<times> flight \<Rightarrow> bool" where
  "one_at_a_time sid [] st = True"
| "one_at_a_time sid (a # acts) st \<longleftrightarrow> (executes sid a st \<longrightarrow> snd st = []) \<and> one_at_a_time sid acts (ws_step sid a st)"

fun is_store :: "ws_act \<Rightarrow> bool" where
  "is_store (WStore now p) = True"
| "is_store act = False"

fun approves :: "ws_act \<Rightarrow> int \<Rightarrow> string \<Rightarrow> bool" where
  "approves (WMsg exec now uid (MApproval a ap reason)) u action \<longleftrightarrow> ap \<and> uid = u \<and> a = action"
| "approves (WStart uid a reason) u action \<longleftrightarrow> uid = u \<and> a = action"
| "approves act u action \<longleftrightarrow> False"

section \<open>Connecting and disconnecting\<close>

text \<open>The backlog goes to the new connection; the cursor moves to the highest number sent.\<close>

definition replay_to :: "gateway \<Rightarrow> gateway" where
  "replay_to g =
     (let evs = replay_list (readSince (gw_lastSeq g) (rn_buf (gw_runner g)));
          g = fold (\<lambda>e g. (send (SEvent e) g)\<lparr>gw_lastSeq := max (gw_lastSeq g) (ev_seq e)\<rparr>) evs g
      in if eb_done (rn_buf (gw_runner g)) \<and> eb_finalStatus (rn_buf (gw_runner g)) = Some ''idle''
         then send SReadyIdle g else g)"

text \<open>\<open>None\<close>: the session is not visible to the user, the connection ends.\<close>

definition ws_connect :: "int \<Rightarrow> string \<Rightarrow> gateway \<Rightarrow> gateway option" where
  "ws_connect uid sid g =
     (if dao_getSession sid (Some uid) (gw_db g) = None then None
      else Some
        (let g = g\<lparr>gw_conn := True\<rparr>;
             g = send (SReady (isRunning g) (status_or_idle sid (gw_db g))) g;
             g = (if gw_known g then replay_to g else g);
             g = (case getPendingApproval sid (gw_db g) of Some p \<Rightarrow> send (SApprovalResume p) g | None \<Rightarrow> g)
         in (case getPendingChoice sid (gw_db g) of Some p \<Rightarrow> send (SChoiceResume p) g | None \<Rightarrow> g)))"

definition new_session_request :: "int option \<Rightarrow> AgentSessionCreate" where
  "new_session_request profile =
     \<lparr>ac_title = ([26032] @ uni '' Agent '' @ [20250, 35805]), ac_mode = ''agent'', ac_profileId = profile, ac_toolSource = ''current_mcp'',
      ac_safetyPolicy = ''default'', ac_source = ''manual'', ac_mcpServers = None\<rparr>"

text \<open>The \<open>finally\<close> of the handler.\<close>

definition ws_disconnect :: "timestamp \<Rightarrow> string \<Rightarrow> gateway \<Rightarrow> gateway" where
  "ws_disconnect now sid g =
     (let g = g\<lparr>gw_stream := False, gw_conn := False\<rparr>
      in if \<not> isRunning g \<and> getSessionStatus sid (gw_db g) = Some ''idle''
         then db_do (session_updateStatus sid ''completed_unread'' None False now) g else g)"


section \<open>Lemmas\<close>

text \<open>Rows of other sessions are the same.\<close>

definition others_same :: "string \<Rightarrow> sessions \<Rightarrow> sessions \<Rightarrow> bool" where
  "others_same sid db db' \<longleftrightarrow>
     filter (\<lambda>s. as_sessionId s \<noteq> sid) (sd_sessions db') = filter (\<lambda>s. as_sessionId s \<noteq> sid) (sd_sessions db) \<and>
     filter (\<lambda>m. am_sessionId m \<noteq> sid) (sd_messages db') = filter (\<lambda>m. am_sessionId m \<noteq> sid) (sd_messages db)"

lemma others_refl [simp]: "others_same sid db db"
  by (simp add: others_same_def)

lemma others_trans: "others_same sid a b \<Longrightarrow> others_same sid b c \<Longrightarrow> others_same sid a c"
  by (simp add: others_same_def)

named_theorems others_rules "operations that leave the rows of other sessions alone"

lemma others_update [others_rules]:
  assumes "\<And>s. as_sessionId (f s) = as_sessionId s"
  shows "others_same sid db (snd (update_session sid f now db))"
proof -
  have "filter (\<lambda>s. as_sessionId s \<noteq> sid) (map (\<lambda>s. if as_sessionId s = sid then (f s)\<lparr>as_updatedAt := now\<rparr> else s) xs) =
      filter (\<lambda>s. as_sessionId s \<noteq> sid) xs" for xs
    using assms by (induction xs) auto
  then show ?thesis by (simp add: others_same_def update_session_def)
qed

lemma others_updates [others_rules]:
  "others_same sid db (snd (session_updateStatus sid st e fin now db))"
  "others_same sid db (snd (updateMode sid m now db))"
  "others_same sid db (snd (updatePendingApproval sid a now db))"
  "others_same sid db (snd (updatePendingChoice sid c now db))"
  by (simp_all add: session_defs others_update)

lemma others_messages:
  assumes "filter (\<lambda>m. am_sessionId m \<noteq> sid) ms = filter (\<lambda>m. am_sessionId m \<noteq> sid) (sd_messages db)"
  shows "others_same sid db (snd (update_session sid id now (db\<lparr>sd_messages := ms\<rparr>)))"
proof -
  have "others_same sid db (db\<lparr>sd_messages := ms\<rparr>)" using assms by (simp add: others_same_def)
  then show ?thesis by (rule others_trans) (rule others_update, simp)
qed

lemma others_addMessage [others_rules]:
  "others_same sid db (snd (addMessage sid role content tr r tc md now db))"
  unfolding addMessage_def snd_conv by (rule others_messages) simp

lemma others_delete [others_rules]:
  "others_same sid db (snd (deleteRound sid r now db))" "others_same sid db (snd (deleteMessagesFrom sid i now db))"
  unfolding deleteRound_def deleteMessagesFrom_def delete_messages_def snd_conv
  by (rule others_messages, simp, metis)+

lemma send_simps [simp]:
  "gw_db (send e g) = gw_db g" "gw_executed (send e g) = gw_executed g" "gw_runner (send e g) = gw_runner g"
  "gw_core (send e g) = gw_core g" "gw_known (send e g) = gw_known g" "gw_stream (send e g) = gw_stream g"
  "gw_lastSeq (send e g) = gw_lastSeq g" "gw_conn (send e g) = gw_conn g"
  by (simp_all add: send_def)

lemma db_do_simps [simp]:
  "gw_db (db_do f g) = snd (f (gw_db g))" "gw_executed (db_do f g) = gw_executed g" "gw_runner (db_do f g) = gw_runner g"
  "gw_core (db_do f g) = gw_core g" "gw_known (db_do f g) = gw_known g" "gw_stream (db_do f g) = gw_stream g"
  "gw_lastSeq (db_do f g) = gw_lastSeq g" "gw_sent (db_do f g) = gw_sent g"
  by (simp_all add: db_do_def)

lemma stream_simps [simp]:
  "gw_db (ensureStreamEvents g) = gw_db g" "gw_executed (ensureStreamEvents g) = gw_executed g"
  "gw_db (runner_submit m g) = gw_db g" "gw_executed (runner_submit m g) = gw_executed g"
  by (simp_all add: ensureStreamEvents_def runner_submit_def)

lemma on_runtime_simps:
  assumes "on_runtime f g = (ok, g')"
  shows "gw_db g' = gw_db g" "gw_executed g' = gw_executed g"
  using assms by (auto simp: on_runtime_def split: if_splits prod.splits)

lemma others_resumed:
  "others_same sid db (snd (session_updateStatus sid st e fin now (snd (updatePendingApproval sid a now
     (snd (addMessage sid role content tr r tc md now db))))))"
  "others_same sid db (snd (session_updateStatus sid st e fin now (snd (updatePendingChoice sid c now
     (snd (addMessage sid role content tr r tc md now db))))))"
  by (rule others_trans [OF others_trans [OF others_addMessage others_updates(3)] others_updates(1)],
      rule others_trans [OF others_trans [OF others_addMessage others_updates(4)] others_updates(1)])

lemma others_approval: "others_same sid (gw_db g) (gw_db (snd (handleApprovalResume exec now uid sid a ap rs g)))"
  by (simp add: handleApprovalResume_def resume_finish_def Let_def others_resumed split: option.splits prod.splits)

lemma others_choice: "others_same sid (gw_db g) (gw_db (snd (handleChoiceResume now sid a sel inp g)))"
  by (simp add: handleChoiceResume_def Let_def others_resumed split: option.splits)

lemma find_session_updated:
  assumes "\<And>s. as_sessionId (f s) = as_sessionId s"
  shows "List.find (\<lambda>s. as_sessionId s = sid) (sd_sessions (snd (update_session sid f now db))) =
    map_option (\<lambda>s. (f s)\<lparr>as_updatedAt := now\<rparr>) (List.find (\<lambda>s. as_sessionId s = sid) (sd_sessions db))"
proof -
  have "List.find (\<lambda>s. as_sessionId s = sid) (map (\<lambda>s. if as_sessionId s = sid then (f s)\<lparr>as_updatedAt := now\<rparr> else s) xs) =
    map_option (\<lambda>s. (f s)\<lparr>as_updatedAt := now\<rparr>) (List.find (\<lambda>s. as_sessionId s = sid) xs)" for xs
    using assms by (induction xs) auto
  then show ?thesis by (simp add: update_session_def)
qed

lemma pending_cleared: "getPendingApproval sid (snd (updatePendingApproval sid None now db)) = None"
  by (cases "List.find (\<lambda>s. as_sessionId s = sid) (sd_sessions db)")
     (simp_all add: getPendingApproval_def updatePendingApproval_def find_session_updated)

lemma pending_status: "getPendingApproval sid (snd (session_updateStatus sid st e fin now db)) = getPendingApproval sid db"
  by (cases "List.find (\<lambda>s. as_sessionId s = sid) (sd_sessions db)")
     (simp_all add: getPendingApproval_def session_updateStatus_def find_session_updated)

lemma status_set:
  "getSessionStatus sid (snd (session_updateStatus sid st e fin now db)) = map_option (\<lambda>_. st) (getSessionStatus sid db)"
  by (simp add: getSessionStatus_def session_updateStatus_def find_session_updated option.map_comp comp_def)

lemma status_kept:
  "getSessionStatus sid (snd (updatePendingApproval sid a now db)) = getSessionStatus sid db"
  by (simp add: getSessionStatus_def updatePendingApproval_def find_session_updated option.map_comp comp_def)

lemma resume_executed:
  assumes "handleApprovalResume exec now uid sid actionId approved reason g = (ok, g')"
  shows "(gw_executed g' = gw_executed g \<or>
     (\<exists>p. approved \<and> getPendingApproval sid (gw_db g) = Some p \<and> pa_action_id p = actionId \<and>
        dao_getSession sid (Some uid) (gw_db g) \<noteq> None \<and>
        gw_executed g' = gw_executed g @ [(pa_tool_name p, pa_arguments p)] \<and> getPendingApproval sid (gw_db g') = None))"
  using assms
  by (auto simp: handleApprovalResume_def resume_execute_def resume_finish_def Let_def pending_status pending_cleared
      split: option.splits if_splits prod.splits sum.splits)

lemma only_approvals_execute:
  assumes "\<And>a ap rs. msg \<noteq> MApproval a ap rs"
  shows "gw_executed (handle_message exec now uid sid msg g) = gw_executed g"
proof (cases msg)
  case (MApproval a ap rs)
  then show ?thesis using assms by blast
next
  case (MChoice a sel inp)
  obtain ok g1 where r: "on_runtime (resolveChoice a sel inp) g = (ok, g1)" by fastforce
  have "gw_executed (snd (handleChoiceResume now sid a sel inp g1)) = gw_executed g1"
    by (simp add: handleChoiceResume_def Let_def split: option.splits)
  then show ?thesis using MChoice r on_runtime_simps [OF r]
    by (cases "handleChoiceResume now sid a sel inp g1") (simp add: ws_choice_def)
next
  case (MPlan ap rs)
  obtain ok g1 where r: "on_runtime (if ap then approvePlan else rejectPlan rs) g = (ok, g1)" by fastforce
  then show ?thesis using MPlan on_runtime_simps [OF r] by (simp add: ws_plan_def)
next
  case (MSwitchMode m)
  obtain ok g1 where r: "on_runtime (\<lambda>c. (True, c\<lparr>co_mode := m\<rparr>)) (db_do (updateMode sid m now) g) = (ok, g1)" by fastforce
  then show ?thesis using MSwitchMode on_runtime_simps [OF r] by (simp add: ws_switch_mode_def Let_def)
qed (simp_all add: ws_user_message_def ws_cancel_def regenerate_def ws_deleteMessagesFrom_def Let_def split: option.splits)

text \<open>No message of the client makes an approval pending.\<close>

lemma pending_update:
  assumes "\<And>s. as_sessionId (f s) = as_sessionId s" "\<And>s. as_pendingApproval (f s) = as_pendingApproval s"
  shows "getPendingApproval sid (snd (update_session sid f now db)) = getPendingApproval sid db"
  using assms by (cases "List.find (\<lambda>s. as_sessionId s = sid) (sd_sessions db)") (simp_all add: getPendingApproval_def find_session_updated)

lemma pending_messages [simp]: "getPendingApproval sid (db\<lparr>sd_messages := ms\<rparr>) = getPendingApproval sid db"
  by (simp add: getPendingApproval_def)

lemma pending_kept [simp]:
  "getPendingApproval sid (snd (addMessage sid role content tr r tc md now db)) = getPendingApproval sid db"
  "getPendingApproval sid (snd (updateMode sid m now db)) = getPendingApproval sid db"
  "getPendingApproval sid (snd (updatePendingChoice sid c now db)) = getPendingApproval sid db"
  "getPendingApproval sid (snd (deleteRound sid n now db)) = getPendingApproval sid db"
  "getPendingApproval sid (snd (deleteMessagesFrom sid i now db)) = getPendingApproval sid db"
  by (simp_all add: session_defs addMessage_def deleteRound_def deleteMessagesFrom_def delete_messages_def pending_update)

lemma finish_simps:
  "gw_executed (resume_finish now sid p a ap rs ok out g) = gw_executed g"
  "getPendingApproval sid (gw_db (resume_finish now sid p a ap rs ok out g)) = None"
  by (simp_all add: resume_finish_def Let_def pending_status pending_cleared)

lemma resume_pending:
  assumes "handleApprovalResume exec now uid sid a ap rs g = (ok, g')"
  shows "getPendingApproval sid (gw_db g') = None \<or> g' = g"
  using assms by (auto simp: handleApprovalResume_def finish_simps Let_def split: option.splits if_splits prod.splits)

lemma choice_pending:
  assumes "handleChoiceResume now sid a sel inp g = (ok, g')"
  shows "getPendingApproval sid (gw_db g') = getPendingApproval sid (gw_db g)"
  using assms by (auto simp: handleChoiceResume_def pending_status Let_def split: option.splits if_splits)

lemma message_pending:
  assumes "getPendingApproval sid (gw_db g) = None"
  shows "getPendingApproval sid (gw_db (handle_message exec now uid sid msg g)) = None"
proof (cases msg)
  case (MApproval a ap rs)
  obtain ok g1 where r: "on_runtime (if ap then approve a else reject a rs) g = (ok, g1)" by fastforce
  obtain ok2 g2 where h: "handleApprovalResume exec now uid sid a ap rs g1 = (ok2, g2)" by fastforce
  have "getPendingApproval sid (gw_db g1) = None" "getPendingApproval sid (gw_db g2) = None"
    using assms resume_pending [OF h] on_runtime_simps [OF r] by auto
  then show ?thesis using MApproval r h by (auto simp: ws_approval_def Let_def split: if_splits)
next
  case (MChoice a sel inp)
  obtain ok g1 where r: "on_runtime (resolveChoice a sel inp) g = (ok, g1)" by fastforce
  obtain ok2 g2 where h: "handleChoiceResume now sid a sel inp g1 = (ok2, g2)" by fastforce
  then show ?thesis using MChoice r h assms choice_pending [OF h] on_runtime_simps [OF r] by (auto simp: ws_choice_def split: if_splits)
next
  case (MPlan ap rs)
  obtain ok g1 where r: "on_runtime (if ap then approvePlan else rejectPlan rs) g = (ok, g1)" by fastforce
  then show ?thesis using MPlan assms on_runtime_simps [OF r] by (simp add: ws_plan_def)
next
  case (MSwitchMode m)
  obtain ok g1 where r: "on_runtime (\<lambda>c. (True, c\<lparr>co_mode := m\<rparr>)) (db_do (updateMode sid m now) g) = (ok, g1)" by fastforce
  then show ?thesis using MSwitchMode assms on_runtime_simps [OF r] by (simp add: ws_switch_mode_def Let_def)
qed (simp_all add: assms ws_user_message_def ws_cancel_def regenerate_def ws_deleteMessagesFrom_def pending_status pending_cleared Let_def
      split: option.splits)

subsection \<open>Executions\<close>

definition waits :: "string \<Rightarrow> gateway \<Rightarrow> bool" where
  "waits actionId g \<longleftrightarrow> gw_known g \<and> rn_runtime (gw_runner g) \<and> actionId \<in> set (co_pendingApprovals (gw_core g))"

text \<open>The message \<open>act\<close> approves the stored action \<open>p\<close> and has its call executed.\<close>

definition runs_stored :: "string \<Rightarrow> ws_act \<Rightarrow> gateway \<Rightarrow> gateway \<Rightarrow> pending_approval \<Rightarrow> bool" where
  "runs_stored sid act g g' p \<longleftrightarrow> getPendingApproval sid (gw_db g) = Some p \<and> \<not> waits (pa_action_id p) g \<and>
     (\<exists>uid. approves act uid (pa_action_id p) \<and> dao_getSession sid (Some uid) (gw_db g) \<noteq> None) \<and>
     gw_executed g' = gw_executed g @ [(pa_tool_name p, pa_arguments p)]"

lemma message_executes:
  fixes g g' :: gateway
  assumes "g' = handle_message exec now uid sid msg g" "gw_executed g' \<noteq> gw_executed g"
  shows "\<exists>p. runs_stored sid (WMsg exec now uid msg) g g' p \<and> getPendingApproval sid (gw_db g') = None"
proof -
  obtain a ap rs where m: "msg = MApproval a ap rs" using only_approvals_execute assms by metis
  obtain ok g1 where r: "on_runtime (if ap then approve a else reject a rs) g = (ok, g1)" by fastforce
  note s = on_runtime_simps [OF r]
  obtain ok2 g2 where h: "handleApprovalResume exec now uid sid a ap rs g1 = (ok2, g2)" by fastforce
  have nok: "\<not> ok" and db: "gw_db g' = gw_db g2" and ex: "gw_executed g' = gw_executed g2"
    using assms m r h s by (auto simp: ws_approval_def Let_def split: if_splits)
  obtain p where p: "ap" "getPendingApproval sid (gw_db g) = Some p" "pa_action_id p = a"
    "dao_getSession sid (Some uid) (gw_db g) \<noteq> None"
    "gw_executed g2 = gw_executed g @ [(pa_tool_name p, pa_arguments p)]" "getPendingApproval sid (gw_db g2) = None"
    using resume_executed [OF h] assms(2) ex s by auto
  have "\<not> waits a g" using r p(1) nok by (auto simp: waits_def on_runtime_def approve_def resolveApproval_def)
  then show ?thesis using m p db ex by (auto simp: runs_stored_def)
qed

lemma start_executes:
  assumes "resume_start uid sid a rs (g, fl) = (g', fl')"
  shows "(g' = g \<and> fl' = fl) \<or>
    (\<exists>p. runs_stored sid (WStart uid a rs) g g' p \<and> gw_db g' = gw_db g \<and> fl' = fl @ [(p, rs)])"
proof (cases "fst (on_runtime (approve a) g)")
  case False
  then have "\<not> waits a g" by (auto simp: waits_def on_runtime_def approve_def resolveApproval_def split: if_splits)
  then show ?thesis using assms False by (auto simp: resume_start_def runs_stored_def split: option.splits if_splits)
qed (use assms in \<open>simp add: resume_start_def\<close>)

lemma end_executes:
  assumes "resume_end now sid i r (g, fl) = (g', fl')"
  shows "(g' = g \<and> fl' = fl) \<or> (gw_executed g' = gw_executed g \<and> getPendingApproval sid (gw_db g') = None \<and> Suc (length fl') = length fl)"
  using assms by (auto simp: resume_end_def finish_simps split: if_splits prod.splits)

lemma step_executes:
  assumes "executes sid act st"
  shows "\<exists>p. runs_stored sid act (fst st) (fst (ws_step sid act st)) p"
proof (cases act)
  case (WMsg exec now uid msg)
  then show ?thesis using assms message_executes [of "fst (ws_step sid act st)" exec now uid sid msg "fst st"] by (auto simp: executes_def)
next
  case (WStart uid a rs)
  then show ?thesis using assms start_executes [of uid sid a rs "fst st" "snd st"]
    by (cases "resume_start uid sid a rs st") (auto simp: executes_def)
next
  case (WEnd now i r)
  then show ?thesis using assms end_executes [of now sid i r "fst st" "snd st"]
    by (cases "resume_end now sid i r st") (auto simp: executes_def)
qed (use assms in \<open>simp add: executes_def\<close>)

text \<open>An approval that is pending while no tool runs is worth one execution.\<close>

definition credit :: "string \<Rightarrow> gateway \<times> flight \<Rightarrow> nat" where
  "credit sid st = (if snd st = [] \<and> getPendingApproval sid (gw_db (fst st)) \<noteq> None then 1 else 0)"

definition executed :: "gateway \<times> flight \<Rightarrow> nat" where
  "executed st = length (gw_executed (fst st))"

lemma credit_step:
  assumes "executes sid act st \<longrightarrow> snd st = []" "length (snd st) \<le> 1"
  shows "executed (ws_step sid act st) + credit sid (ws_step sid act st) \<le> executed st + credit sid st + (if is_store act then 1 else 0) \<and>
    length (snd (ws_step sid act st)) \<le> 1"
proof -
  obtain g fl where st: "st = (g, fl)" by fastforce
  show ?thesis
  proof (cases act)
    case (WMsg exec now uid msg)
    let ?g = "handle_message exec now uid sid msg g"
    show ?thesis
    proof (cases "gw_executed ?g = gw_executed g")
      case True
      then show ?thesis using WMsg assms(2) message_pending [of sid g exec now uid msg]
        by (cases "getPendingApproval sid (gw_db g)") (auto simp: st executed_def credit_def)
    next
      case False
      then have "fl = []" using assms(1) WMsg by (simp add: st executes_def)
      with message_executes [OF refl False] WMsg show ?thesis by (auto simp: st executed_def credit_def runs_stored_def)
    qed
  next
    case (WStart uid a rs)
    obtain g' fl' where r: "resume_start uid sid a rs (g, fl) = (g', fl')" by fastforce
    from start_executes [OF r] show ?thesis
    proof (elim disjE exE conjE)
      fix p assume p: "runs_stored sid (WStart uid a rs) g g' p" "gw_db g' = gw_db g" "fl' = fl @ [(p, rs)]"
      then have "fl = []" using assms(1) WStart r by (simp add: st executes_def runs_stored_def)
      then show ?thesis using WStart r p by (simp add: st executed_def credit_def runs_stored_def)
    qed (use WStart r assms(2) in \<open>simp add: st\<close>)
  next
    case (WEnd now i r)
    obtain g' fl' where r: "resume_end now sid i r (g, fl) = (g', fl')" by fastforce
    from end_executes [OF r] WEnd r assms(2) show ?thesis by (auto simp: st executed_def credit_def)
  next
    case (WStore now p)
    then show ?thesis using assms(2) by (simp add: st executed_def credit_def)
  qed
qed

lemma credit_run:
  assumes "one_at_a_time sid acts st" "length (snd st) \<le> 1"
  shows "executed (ws_run sid acts st) + credit sid (ws_run sid acts st) \<le> executed st + credit sid st + length (filter is_store acts)"
  using assms
proof (induction acts arbitrary: st)
  case (Cons a acts)
  have "executes sid a st \<longrightarrow> snd st = []" using Cons.prems(1) by simp
  note step = credit_step [OF this Cons.prems(2)]
  then have "executed (ws_run sid acts (ws_step sid a st)) + credit sid (ws_run sid acts (ws_step sid a st)) \<le>
      executed (ws_step sid a st) + credit sid (ws_step sid a st) + length (filter is_store acts)"
    using Cons.IH Cons.prems(1) by simp
  moreover have "ws_run sid (a # acts) st = ws_run sid acts (ws_step sid a st)" by (simp add: ws_run_def)
  ultimately show ?case using step by (cases "is_store a") auto
qed (simp add: ws_run_def)

section \<open>Properties\<close>

text \<open>
  C18. Recovered approvals.  Messages of the client may interleave with tools that a recovered approval is still running and with background runs that ask for approvals.  A step
  executes a tool in the handler only when it approves the action that is stored as pending for the session at that moment, the live agent does not wait
  for that action, and the user sees the session; then exactly the stored call is executed.  And over any sequence of steps in which no approval
  comes in while the tool of another one still runs, there are at most as many executions as approvals were stored (one that was stored before included): a stored approval
  is executed at most once, whatever messages follow.  Without this condition it is not: \<open>second_approval_executes_again\<close>.
\<close>

theorem resume_executes_once:
  assumes "one_at_a_time sid acts (g, [])"
  shows "length (gw_executed (fst (ws_run sid acts (g, [])))) \<le> length (gw_executed g) +
      (if getPendingApproval sid (gw_db g) = None then 0 else 1) + length (filter is_store acts) \<and>
    (executes sid act st \<longrightarrow> (\<exists>p. runs_stored sid act (fst st) (fst (ws_step sid act st)) p))"
  using credit_run [OF assms] step_executes [of sid act st] by (simp add: executed_def credit_def split: if_splits)

text \<open>
  C26. Isolation.  Whatever a client sends over the connection of a session, the rows
  and the messages of every other session are what they were.
\<close>

theorem connection_isolated:
  "others_same sid (gw_db g) (gw_db (handle_message exec now uid sid msg g))"
proof (cases msg)
  case (MApproval a ap rs)
  obtain ok g1 where r: "on_runtime (if ap then approve a else reject a rs) g = (ok, g1)" by fastforce
  obtain ok2 g2 where h: "handleApprovalResume exec now uid sid a ap rs g1 = (ok2, g2)" by fastforce
  have "others_same sid (gw_db g1) (gw_db g2)" using others_approval [of sid g1 exec now uid a ap rs] h by simp
  then show ?thesis using MApproval r h on_runtime_simps [OF r] by (simp add: ws_approval_def Let_def)
next
  case (MChoice a sel inp)
  obtain ok g1 where r: "on_runtime (resolveChoice a sel inp) g = (ok, g1)" by fastforce
  obtain ok2 g2 where h: "handleChoiceResume now sid a sel inp g1 = (ok2, g2)" by fastforce
  have "others_same sid (gw_db g1) (gw_db g2)" using others_choice [of sid g1 now a sel inp] h by simp
  then show ?thesis using MChoice r h on_runtime_simps [OF r] by (simp add: ws_choice_def)
next
  case (MPlan ap rs)
  obtain ok g1 where r: "on_runtime (if ap then approvePlan else rejectPlan rs) g = (ok, g1)" by fastforce
  then show ?thesis using MPlan on_runtime_simps [OF r] by (simp add: ws_plan_def)
next
  case (MSwitchMode m)
  obtain ok g1 where r: "on_runtime (\<lambda>c. (True, c\<lparr>co_mode := m\<rparr>)) (db_do (updateMode sid m now) g) = (ok, g1)" by fastforce
  then show ?thesis using MSwitchMode on_runtime_simps [OF r] by (simp add: ws_switch_mode_def Let_def others_rules)
next
  case MCancel
  then show ?thesis
    by (simp add: ws_cancel_def Let_def others_trans [OF others_updates(1) others_updates(3)])
next
  case (MRegenerate m)
  then show ?thesis
    by (simp add: regenerate_def Let_def others_trans [OF others_delete(1) others_updates(1)] split: option.splits)
qed (simp_all add: ws_user_message_def ws_deleteMessagesFrom_def others_rules split: option.splits)

text \<open>
  Cancelling.  After \<open>cancel\<close> the session counts as not running, nothing waits in
  the queue of its runner, its status is idle and no approval is pending; a stored choice stays.
\<close>

theorem cancel_clears:
  fixes g g' :: gateway
  assumes "g' = handle_message exec now uid sid MCancel g" "gw_known g"
  shows "\<not> isRunning g' \<and> rn_queue (gw_runner g') = [] \<and> getPendingApproval sid (gw_db g') = None \<and>
    getSessionStatus sid (gw_db g') = map_option (\<lambda>_. ''idle'') (getSessionStatus sid (gw_db g)) \<and> \<not> gw_stream g' \<and>
    getPendingChoice sid (gw_db g') = getPendingChoice sid (gw_db g)"
proof -
  have "getPendingChoice sid (snd (updatePendingApproval sid None now (snd (session_updateStatus sid ''idle'' None False now db)))) =
      getPendingChoice sid db" for db
    by (cases "List.find (\<lambda>s. as_sessionId s = sid) (sd_sessions db)")
       (simp_all add: getPendingChoice_def session_updateStatus_def updatePendingApproval_def find_session_updated)
  then show ?thesis
    using assms by (simp add: ws_cancel_def Let_def isRunning_def cancel_run_def pending_cleared status_kept status_set)
qed

text \<open>
  Regeneration.  When no run is in progress and the last round has a user message,
  \<open>regenerate\<close> removes the messages of that round and no others, empties the event buffer together
  with the cursor of the client, and hands the message (the new one, if the client sent one) to the
  runner; in every other case nothing but the answer changes.
\<close>

theorem regenerate_effect:
  fixes g g' :: gateway
  assumes "g' = handle_message exec now uid sid (MRegenerate new) g"
  shows "(\<exists>m r. \<not> isRunning g \<and> r = getMaxRoundIndex sid (gw_db g) \<and> r \<noteq> 0 \<and>
      getUserMessageForRound sid r (gw_db g) = Some m \<and> m \<noteq> [] \<and>
      sd_messages (gw_db g') = filter (\<lambda>x. \<not> (am_sessionId x = sid \<and> am_roundIndex x = r)) (sd_messages (gw_db g)) \<and>
      gw_runner g' = submit (if new = [] then m else new) (if gw_known g then clearBuffer (gw_runner g) else gw_runner g) \<and>
      gw_lastSeq g' = -1 \<and> gw_stream g')
    \<or> (gw_db g' = gw_db g \<and> gw_runner g' = gw_runner g \<and> gw_core g' = gw_core g \<and> gw_lastSeq g' = gw_lastSeq g \<and>
       gw_stream g' = gw_stream g)"
  using assms
  by (auto simp: regenerate_def Let_def runner_submit_def deleteRound_def delete_messages_def split: option.splits)

text \<open>An answer to any question is taken as the answer to the question that is pending.\<close>

lemma choice_ignores_action: "resolveChoice a sel inp = resolveChoice b sel inp"
  by (simp add: resolveChoice_def fun_eq_iff)

text \<open>Opening and closing an idle session marks it unread.\<close>

lemma reading_marks_unread:
  assumes "ws_connect uid sid g = Some g'" "\<not> isRunning g" "getSessionStatus sid (gw_db g) = Some ''idle''"
  shows "getSessionStatus sid (gw_db (ws_disconnect now sid g')) = Some ''completed_unread''"
proof -
  have f: "gw_db (fold (\<lambda>e g. (send (SEvent e) g)\<lparr>gw_lastSeq := max (gw_lastSeq g) (ev_seq e)\<rparr>) evs h) = gw_db h \<and>
     gw_runner (fold (\<lambda>e g. (send (SEvent e) g)\<lparr>gw_lastSeq := max (gw_lastSeq g) (ev_seq e)\<rparr>) evs h) = gw_runner h \<and>
     gw_known (fold (\<lambda>e g. (send (SEvent e) g)\<lparr>gw_lastSeq := max (gw_lastSeq g) (ev_seq e)\<rparr>) evs h) = gw_known h" for evs h
    by (induction evs arbitrary: h) simp_all
  have rp: "gw_db (replay_to h) = gw_db h \<and> gw_runner (replay_to h) = gw_runner h \<and> gw_known (replay_to h) = gw_known h" for h
    using f by (simp add: replay_to_def Let_def)
  have "gw_db g' = gw_db g \<and> gw_runner g' = gw_runner g \<and> gw_known g' = gw_known g"
    using assms(1) by (auto simp: ws_connect_def Let_def rp split: if_splits option.splits)
  then show ?thesis using assms(2,3) by (simp add: ws_disconnect_def Let_def isRunning_def status_set)
qed

section \<open>Examples\<close>

definition w_pending :: pending_approval where
  "w_pending = \<lparr>pa_action_id = ''a1'', pa_tool_name = ''restart'', pa_arguments = [], pa_reason = BreakGlass, pa_ai_reason = PNone, pa_call_id = ''c1''\<rparr>"

definition w_gateway :: gateway where
  "w_gateway = \<lparr>gw_db = \<lparr>sd_sessions = [w_session\<lparr>as_pendingApproval := Some w_pending\<rparr>], sd_messages = [w_row]\<rparr>,
     gw_runner = new_runner, gw_known = True,
     gw_core = \<lparr>co_pendingApprovals = [], co_approvalDecisions = [], co_pendingPlan = None, co_planDecision = None,
                co_pendingChoice = None, co_choiceDecision = None, co_mode = ''agent''\<rparr>,
     gw_stream = False, gw_conn = True, gw_lastSeq = 0, gw_sent = [], gw_executed = []\<rparr>"

definition w_exec :: executor where
  "w_exec = (\<lambda>_ _ _. Inr [111, 107])"


definition w_acts :: "ws_act list" where
  "w_acts = [WStart 1 ''a1'' [], WMsg w_exec 4 1 MPing, WEnd 5 0 (Inr [111, 107]), WStart 1 ''a1'' []]"

lemmas resume_eval = ws_run_def resume_start_def resume_end_def on_runtime_def w_gateway_def new_runner_def getPendingApproval_def
  dao_getSession_def w_session_def w_pending_def

lemma w_acts_run: "gw_executed (fst (ws_run ''s1'' w_acts (w_gateway, []))) = [(''restart'', [])]"
proof -
  let ?g = "w_gateway\<lparr>gw_executed := [(''restart'', [])]\<rparr>"
  have s: "resume_start 1 ''s1'' ''a1'' [] (w_gateway, []) = (?g, [(w_pending, [])])" by (simp add: resume_eval)
  have n: "resume_start 1 ''s1'' ''a1'' [] (g, fl) = (g, fl)" if "getPendingApproval ''s1'' (gw_db g) = None" for g fl
    using that by (simp add: resume_start_def)
  show ?thesis by (simp add: ws_run_def w_acts_def s resume_end_def n finish_simps)
qed

theorem resume_executes_once_witness:
  "length (gw_executed (fst (ws_run ''s1'' w_acts (w_gateway, [])))) \<le> 1 \<and>
   (\<exists>p. runs_stored ''s1'' (WStart 1 ''a1'' []) w_gateway (fst (ws_step ''s1'' (WStart 1 ''a1'' []) (w_gateway, []))) p)"
proof -
  let ?g = "w_gateway\<lparr>gw_executed := [(''restart'', [])]\<rparr>"
  have s: "resume_start 1 ''s1'' ''a1'' [] (w_gateway, []) = (?g, [(w_pending, [])])" by (simp add: resume_eval)
  have e: "executes ''s1'' (WStart 1 ''a1'' []) (w_gateway, [])" by (simp add: executes_def s) (simp add: w_gateway_def)
  have "one_at_a_time ''s1'' w_acts (w_gateway, [])"
    by (simp add: w_acts_def executes_def s resume_end_def finish_simps)
  from resume_executes_once [OF this, of "WStart 1 ''a1'' []" "(w_gateway, [])"] e show ?thesis
    by (simp add: w_acts_def w_gateway_def getPendingApproval_def w_session_def)
qed

text \<open>A second approval of the same action while its tool still runs, from another connection, executes it again.\<close>

lemma second_approval_executes_again:
  "gw_executed (fst (ws_run ''s1'' [WStart 1 ''a1'' [], WStart 1 ''a1'' []] (w_gateway, []))) = [(''restart'', []), (''restart'', [])]"
  by (simp add: resume_eval)

theorem cancel_clears_witness:
  "\<not> isRunning (handle_message w_exec 5 1 ''s1'' MCancel w_gateway) \<and>
   getPendingApproval ''s1'' (gw_db (handle_message w_exec 5 1 ''s1'' MCancel w_gateway)) = None"
  using cancel_clears [OF refl, of w_gateway w_exec 5 1 "''s1''"] by (simp add: w_gateway_def)

theorem regenerate_effect_witness:
  "sd_messages (gw_db (handle_message w_exec 5 1 ''s1'' (MRegenerate []) w_gateway)) = []"
proof -
  let ?g = "handle_message w_exec 5 1 ''s1'' (MRegenerate []) w_gateway"
  have "gw_lastSeq ?g = -1"
    by (simp add: regenerate_def isRunning_def w_gateway_def new_runner_def getMaxRoundIndex_def getUserMessageForRound_def w_row_def
        runner_submit_def Let_def)
  then have "gw_lastSeq ?g \<noteq> gw_lastSeq w_gateway" by (simp add: w_gateway_def)
  with regenerate_effect [OF refl, where exec = w_exec and now = 5 and uid = 1 and sid = "''s1''" and new = "[]" and g = w_gateway]
  have "sd_messages (gw_db ?g) = filter (\<lambda>x. \<not> (am_sessionId x = ''s1'' \<and> am_roundIndex x = getMaxRoundIndex ''s1'' (gw_db w_gateway)))
      (sd_messages (gw_db w_gateway))" by (auto simp del: handle_message.simps)
  then show ?thesis by (simp add: w_gateway_def w_row_def getMaxRoundIndex_def del: handle_message.simps)
qed

end
