(* ===== verification/Billing.thy ===== *)
theory Billing
  imports PyPrelude
begin

text \<open>
  Prices and token usage: \<open>gateway/dao/AgentModelPricingDaoOrm.py\<close>,
  \<open>gateway/dao/AgentTokenUsageDaoOrm.py\<close> and \<open>_recordTokenUsage\<close> of
  \<open>gateway/service/AgentBackgroundRunner.py\<close>.

  A table is the list of its rows in the order of their keys, which is the order in which queries
  without \<open>ORDER BY\<close> deliver them.  Prices and costs are rational numbers: the rounding to six
  decimals is modelled, the rounding errors of binary floating point are not.
\<close>

section \<open>Prices\<close>

type_synonym price = "rat \<times> rat \<times> rat \<times> rat"

record AgentModelPricingOrm =
  mp_pricingId :: int
  mp_model :: string
  mp_inputPrice :: rat
  mp_cachedInputPrice :: rat
  mp_outputPrice :: rat
  mp_multiplier :: rat
  mp_credentialId :: "int option"
  mp_isActive :: int

record ModelPricingCreate =
  mc_model :: string
  mc_inputPrice :: rat
  mc_cachedInputPrice :: rat
  mc_outputPrice :: rat
  mc_multiplier :: rat
  mc_credentialId :: "int option"

definition DEFAULT_PRICES :: price where
  "DEFAULT_PRICES = (1, 1/10, 3, 1)"

definition row_price :: "AgentModelPricingOrm \<Rightarrow> price" where
  "row_price r = (mp_inputPrice r, mp_cachedInputPrice r, mp_outputPrice r, mp_multiplier r)"

definition fuzzy_match :: "string \<Rightarrow> AgentModelPricingOrm \<Rightarrow> bool" where
  "fuzzy_match model r \<longleftrightarrow> contains (lower model) (lower (mp_model r)) \<or> contains (lower (mp_model r)) (lower model)"

definition getPrice :: "string \<Rightarrow> int option \<Rightarrow> AgentModelPricingOrm list \<Rightarrow> price" where
  "getPrice model credentialId rows =
     (let own = (case credentialId of
                   None \<Rightarrow> None
                 | Some c \<Rightarrow> List.find (\<lambda>r. mp_model r = model \<and> mp_credentialId r = Some c \<and> mp_isActive r = 1) rows)
      in case own of
           Some r \<Rightarrow> row_price r
         | None \<Rightarrow>
             (case List.find (\<lambda>r. mp_model r = model \<and> mp_credentialId r = None \<and> mp_isActive r = 1) rows of
                Some r \<Rightarrow> row_price r
              | None \<Rightarrow>
                  (case List.find (fuzzy_match model) (filter (\<lambda>r. mp_credentialId r = None \<and> mp_isActive r = 1) rows) of
                     Some r \<Rightarrow> row_price r
                   | None \<Rightarrow> DEFAULT_PRICES)))"

definition next_pricing_id :: "AgentModelPricingOrm list \<Rightarrow> int" where
  "next_pricing_id rows = foldr (\<lambda>r m. max (mp_pricingId r) m) rows 0 + 1"

definition new_pricing :: "int \<Rightarrow> ModelPricingCreate \<Rightarrow> AgentModelPricingOrm" where
  "new_pricing i q = \<lparr>mp_pricingId = i, mp_model = mc_model q, mp_inputPrice = mc_inputPrice q,
     mp_cachedInputPrice = mc_cachedInputPrice q, mp_outputPrice = mc_outputPrice q, mp_multiplier = mc_multiplier q,
     mp_credentialId = mc_credentialId q, mp_isActive = 1\<rparr>"

definition reprice :: "ModelPricingCreate \<Rightarrow> AgentModelPricingOrm \<Rightarrow> AgentModelPricingOrm" where
  "reprice q r = r\<lparr>mp_inputPrice := mc_inputPrice q, mp_cachedInputPrice := mc_cachedInputPrice q,
     mp_outputPrice := mc_outputPrice q, mp_multiplier := mc_multiplier q\<rparr>"

text \<open>Update of the first row with a property.\<close>

fun update_first :: "('a \<Rightarrow> bool) \<Rightarrow> ('a \<Rightarrow> 'a) \<Rightarrow> 'a list \<Rightarrow> 'a list" where
  "update_first P f [] = []"
| "update_first P f (x # xs) = (if P x then f x # xs else x # update_first P f xs)"

definition same_key :: "string \<Rightarrow> int option \<Rightarrow> AgentModelPricingOrm \<Rightarrow> bool" where
  "same_key model cred r \<longleftrightarrow> mp_model r = model \<and> mp_credentialId r = cred"

definition createPricing :: "ModelPricingCreate \<Rightarrow> AgentModelPricingOrm list \<Rightarrow> int \<times> AgentModelPricingOrm list" where
  "createPricing q rows =
     (case List.find (same_key (mc_model q) (mc_credentialId q)) rows of
        Some r \<Rightarrow> (mp_pricingId r, update_first (same_key (mc_model q) (mc_credentialId q)) (reprice q) rows)
      | None \<Rightarrow> (next_pricing_id rows, rows @ [new_pricing (next_pricing_id rows) q]))"

definition getPricingById :: "int \<Rightarrow> AgentModelPricingOrm list \<Rightarrow> AgentModelPricingOrm option" where
  "getPricingById i rows = List.find (\<lambda>r. mp_pricingId r = i) rows"

record ModelPricingUpdate =
  mu_model :: "string option"
  mu_inputPrice :: "rat option"
  mu_cachedInputPrice :: "rat option"
  mu_outputPrice :: "rat option"
  mu_multiplier :: "rat option"
  mu_credentialId :: "int option"
  mu_isActive :: "int option"

definition given :: "'a option \<Rightarrow> 'a \<Rightarrow> 'a" where
  "given new old = (case new of Some v \<Rightarrow> v | None \<Rightarrow> old)"

definition apply_update :: "ModelPricingUpdate \<Rightarrow> AgentModelPricingOrm \<Rightarrow> AgentModelPricingOrm" where
  "apply_update q r = r\<lparr>mp_model := given (mu_model q) (mp_model r), mp_inputPrice := given (mu_inputPrice q) (mp_inputPrice r),
     mp_cachedInputPrice := given (mu_cachedInputPrice q) (mp_cachedInputPrice r),
     mp_outputPrice := given (mu_outputPrice q) (mp_outputPrice r), mp_multiplier := given (mu_multiplier q) (mp_multiplier r),
     mp_credentialId := (case mu_credentialId q of Some c \<Rightarrow> Some c | None \<Rightarrow> mp_credentialId r),
     mp_isActive := given (mu_isActive q) (mp_isActive r)\<rparr>"

definition nothing_given :: "ModelPricingUpdate \<Rightarrow> bool" where
  "nothing_given q \<longleftrightarrow> mu_model q = None \<and> mu_inputPrice q = None \<and> mu_cachedInputPrice q = None \<and> mu_outputPrice q = None \<and>
     mu_multiplier q = None \<and> mu_credentialId q = None \<and> mu_isActive q = None"

text \<open>The unique constraint on model and credential does not apply to rows without a credential.\<close>

definition unique_ok :: "AgentModelPricingOrm list \<Rightarrow> bool" where
  "unique_ok rows \<longleftrightarrow> distinct (map (\<lambda>r. (mp_model r, mp_credentialId r)) (filter (\<lambda>r. mp_credentialId r \<noteq> None) rows))"

text \<open>\<open>None\<close>: the constraint is violated, the session is rolled back and the exception goes on.\<close>

definition updatePricing :: "int \<Rightarrow> ModelPricingUpdate \<Rightarrow> AgentModelPricingOrm list \<Rightarrow> (nat \<times> AgentModelPricingOrm list) option" where
  "updatePricing i q rows =
     (if nothing_given q then Some (0, rows)
      else
        (let rows' = map (\<lambda>r. if mp_pricingId r = i then apply_update q r else r) rows in
         if unique_ok rows' then Some (length (filter (\<lambda>r. mp_pricingId r = i) rows), rows') else None))"

definition deletePricing :: "int \<Rightarrow> AgentModelPricingOrm list \<Rightarrow> nat \<times> AgentModelPricingOrm list" where
  "deletePricing i rows = (length (filter (\<lambda>r. mp_pricingId r = i) rows), filter (\<lambda>r. mp_pricingId r \<noteq> i) rows)"

definition SEEDS :: "(string \<times> rat \<times> rat \<times> rat) list" where
  "SEEDS = [(''deepseek-v4-flash'', 1, 2/100, 2), (''deepseek-v4-pro'', 3, 25/1000, 6), (''deepseek-chat'', 1, 2/100, 2),
     (''deepseek-reasoner'', 3, 25/1000, 6), (''qwen-plus'', 8/10, 8/100, 2), (''qwen-max'', 2, 2/10, 6),
     (''gpt-4o-mini'', 15/100, 3/100, 6/10), (''gpt-4o'', 25/10, 5/10, 10), (''claude-3-haiku'', 25/100, 25/1000, 125/100),
     (''claude-3.5-sonnet'', 3, 3/10, 15)]"

definition seed_request :: "string \<times> rat \<times> rat \<times> rat \<Rightarrow> ModelPricingCreate" where
  "seed_request s = (case s of (model, inp, cached, out) \<Rightarrow>
     \<lparr>mc_model = model, mc_inputPrice = inp, mc_cachedInputPrice = cached, mc_outputPrice = out, mc_multiplier = 1,
      mc_credentialId = None\<rparr>)"

fun seed_all :: "(string \<times> rat \<times> rat \<times> rat) list \<Rightarrow> nat \<Rightarrow> AgentModelPricingOrm list \<Rightarrow> nat \<times> AgentModelPricingOrm list" where
  "seed_all [] count rows = (count, rows)"
| "seed_all (s # ss) count rows =
     (case List.find (same_key (fst s) None) rows of
        Some r \<Rightarrow> seed_all ss count rows
      | None \<Rightarrow> seed_all ss (count + 1) (rows @ [new_pricing (next_pricing_id rows) (seed_request s)]))"

definition seedDefaultPrices :: "AgentModelPricingOrm list \<Rightarrow> nat \<times> AgentModelPricingOrm list" where
  "seedDefaultPrices rows = seed_all SEEDS 0 rows"

section \<open>Usage\<close>

record AgentTokenUsageOrm =
  tu_id :: int
  tu_sessionId :: string
  tu_model :: string
  tu_inputTokens :: int
  tu_cachedInputTokens :: int
  tu_nonCachedInputTokens :: int
  tu_outputTokens :: int
  tu_totalTokens :: int

text \<open>\<open>round(x, 6)\<close>: ties go to the even neighbour.\<close>

definition round6 :: "rat \<Rightarrow> rat" where
  "round6 x =
     (let y = x * 1000000; f = \<lfloor>y\<rfloor>; d = y - of_int f;
          n = (if d < 1/2 then f else if d > 1/2 then f + 1 else if even f then f else f + 1)
      in of_int n / 1000000)"

record cost =
  c_nonCachedInput :: rat
  c_cachedInput :: rat
  c_input :: rat
  c_output :: rat
  c_total :: rat

text \<open>\<open>_computeCost\<close> before the rounding of its results.\<close>

definition exact_cost :: "price \<Rightarrow> int \<Rightarrow> int \<Rightarrow> int \<Rightarrow> cost" where
  "exact_cost p nonCached cached output =
     (case p of (inputPrice, cachedInputPrice, outputPrice, multiplier) \<Rightarrow>
        (let ncc = of_int nonCached / 1000000 * inputPrice * multiplier;
             cc = of_int cached / 1000000 * cachedInputPrice * multiplier;
             oc = of_int output / 1000000 * outputPrice * multiplier
         in \<lparr>c_nonCachedInput = ncc, c_cachedInput = cc, c_input = ncc + cc, c_output = oc, c_total = ncc + cc + oc\<rparr>))"

definition computeCost :: "price \<Rightarrow> int \<Rightarrow> int \<Rightarrow> int \<Rightarrow> cost" where
  "computeCost p nonCached cached output =
     (let c = exact_cost p nonCached cached output
      in \<lparr>c_nonCachedInput = round6 (c_nonCachedInput c), c_cachedInput = round6 (c_cachedInput c), c_input = round6 (c_input c),
          c_output = round6 (c_output c), c_total = round6 (c_total c)\<rparr>)"

definition recordUsage :: "int \<Rightarrow> string \<Rightarrow> string \<Rightarrow> int \<Rightarrow> int \<Rightarrow> int \<Rightarrow> AgentTokenUsageOrm list \<Rightarrow> AgentTokenUsageOrm list" where
  "recordUsage i sessionId model inputTokens outputTokens cachedInputTokens rows =
     rows @ [\<lparr>tu_id = i, tu_sessionId = sessionId, tu_model = model, tu_inputTokens = inputTokens,
       tu_cachedInputTokens = cachedInputTokens, tu_nonCachedInputTokens = inputTokens - cachedInputTokens,
       tu_outputTokens = outputTokens, tu_totalTokens = inputTokens + outputTokens\<rparr>]"

text \<open>The usage report of a model call: \<open>0\<close> for a number that is missing or null.\<close>

record usage_report =
  ur_prompt_tokens :: int
  ur_input_tokens :: int
  ur_completion_tokens :: int
  ur_output_tokens :: int
  ur_cache_hit :: int
  ur_details_cached :: int

definition or_else :: "int \<Rightarrow> int \<Rightarrow> int" where
  "or_else a b = (if a \<noteq> 0 then a else b)"

definition recordTokenUsage ::
  "int \<Rightarrow> string \<Rightarrow> string option \<Rightarrow> usage_report \<Rightarrow> AgentTokenUsageOrm list \<Rightarrow> AgentTokenUsageOrm list" where
  "recordTokenUsage i sessionId profile_model u rows =
     (let inputTokens = or_else (ur_prompt_tokens u) (ur_input_tokens u);
          outputTokens = or_else (ur_completion_tokens u) (ur_output_tokens u)
      in if inputTokens = 0 \<and> outputTokens = 0 then rows
         else recordUsage i sessionId (case profile_model of Some m \<Rightarrow> m | None \<Rightarrow> ''unknown'') inputTokens outputTokens
                (or_else (ur_cache_hit u) (ur_details_cached u)) rows)"

definition session_rows :: "string \<Rightarrow> AgentTokenUsageOrm list \<Rightarrow> AgentTokenUsageOrm list" where
  "session_rows sessionId rows = filter (\<lambda>r. tu_sessionId r = sessionId) rows"

definition row_cost :: "AgentModelPricingOrm list \<Rightarrow> int option \<Rightarrow> AgentTokenUsageOrm \<Rightarrow> cost" where
  "row_cost prices credentialId r =
     computeCost (getPrice (tu_model r) credentialId prices) (tu_nonCachedInputTokens r) (tu_cachedInputTokens r) (tu_outputTokens r)"

definition getSessionUsage ::
  "AgentModelPricingOrm list \<Rightarrow> string \<Rightarrow> int option \<Rightarrow> AgentTokenUsageOrm list \<Rightarrow> (AgentTokenUsageOrm \<times> cost) list" where
  "getSessionUsage prices sessionId credentialId rows =
     map (\<lambda>r. (r, row_cost prices credentialId r)) (sort_key tu_id (session_rows sessionId rows))"

record billing =
  bl_totalInputTokens :: int
  bl_totalCachedInputTokens :: int
  bl_totalNonCachedInputTokens :: int
  bl_totalOutputTokens :: int
  bl_totalTokens :: int
  bl_totalCachedInputCost :: rat
  bl_totalNonCachedInputCost :: rat
  bl_totalInputCost :: rat
  bl_totalOutputCost :: rat
  bl_totalCost :: rat
  bl_callCount :: nat

definition total_of :: "(AgentTokenUsageOrm \<Rightarrow> int) \<Rightarrow> AgentTokenUsageOrm list \<Rightarrow> int" where
  "total_of f rows = sum_list (map f rows)"

text \<open>\<open>GROUP BY model\<close>: the cost of the sums of a model.\<close>

definition models_of :: "AgentTokenUsageOrm list \<Rightarrow> string list" where
  "models_of rows = remdups (map tu_model rows)"

definition model_cost :: "AgentModelPricingOrm list \<Rightarrow> int option \<Rightarrow> AgentTokenUsageOrm list \<Rightarrow> string \<Rightarrow> cost" where
  "model_cost prices credentialId rows model =
     (let ms = filter (\<lambda>r. tu_model r = model) rows in
      computeCost (getPrice model credentialId prices) (total_of tu_nonCachedInputTokens ms) (total_of tu_cachedInputTokens ms)
        (total_of tu_outputTokens ms))"

definition getSessionBilling ::
  "AgentModelPricingOrm list \<Rightarrow> string \<Rightarrow> int option \<Rightarrow> AgentTokenUsageOrm list \<Rightarrow> billing" where
  "getSessionBilling prices sessionId credentialId rows =
     (let rs = session_rows sessionId rows;
          costs = map (model_cost prices credentialId rs) (models_of rs);
          total_cost = (\<lambda>f. round6 (sum_list (map f costs)))
      in \<lparr>bl_totalInputTokens = total_of tu_inputTokens rs, bl_totalCachedInputTokens = total_of tu_cachedInputTokens rs,
          bl_totalNonCachedInputTokens = total_of tu_nonCachedInputTokens rs, bl_totalOutputTokens = total_of tu_outputTokens rs,
          bl_totalTokens = total_of tu_totalTokens rs, bl_totalCachedInputCost = total_cost c_cachedInput,
          bl_totalNonCachedInputCost = total_cost c_nonCachedInput, bl_totalInputCost = total_cost c_input,
          bl_totalOutputCost = total_cost c_output, bl_totalCost = total_cost c_total, bl_callCount = length rs\<rparr>)"

section \<open>Lemmas\<close>

lemma round6_error: "\<bar>round6 x - x\<bar> \<le> 1 / 2000000"
proof -
  define y where "y = x * 1000000"
  define f where "f = \<lfloor>y\<rfloor>"
  define n where "n = (if y - of_int f < 1/2 then f else if y - of_int f > 1/2 then f + 1 else if even f then f else f + 1)"
  have "of_int f \<le> y" "y < of_int f + 1" unfolding f_def by linarith+
  then have "\<bar>of_int n - y\<bar> \<le> 1 / 2" unfolding n_def by auto
  moreover have "round6 x - x = (of_int n - y) / 1000000"
    unfolding round6_def Let_def y_def [symmetric] f_def [symmetric] n_def [symmetric] by (simp add: y_def field_simps)
  then have "\<bar>round6 x - x\<bar> = \<bar>of_int n - y\<bar> / 1000000" by (simp only: abs_divide)
  moreover have "b \<le> 1 / 2000000" if "a \<le> 1 / 2" "b = a / 1000000" for a b :: rat
    using that by linarith
  ultimately show ?thesis by blast
qed

lemma round6_zero [simp]: "round6 0 = 0"
  by (simp add: round6_def)

lemma sum_error:
  fixes f g :: "'a \<Rightarrow> rat"
  assumes "\<And>x. x \<in> set xs \<Longrightarrow> \<bar>f x - g x\<bar> \<le> e"
  shows "\<bar>sum_list (map f xs) - sum_list (map g xs)\<bar> \<le> of_nat (length xs) * e"
  using assms
proof (induction xs)
  case (Cons x xs)
  have "\<bar>f x - g x\<bar> \<le> e" "\<bar>sum_list (map f xs) - sum_list (map g xs)\<bar> \<le> of_nat (length xs) * e"
    using Cons by simp_all
  then show ?case by (simp add: algebra_simps)
qed simp

text \<open>A part of the exact cost of a recorded call; the parts of a cost add up over calls and are rounded alone.\<close>

definition row_part :: "(cost \<Rightarrow> rat) \<Rightarrow> AgentModelPricingOrm list \<Rightarrow> int option \<Rightarrow> AgentTokenUsageOrm \<Rightarrow> rat" where
  "row_part f prices cred r =
     f (exact_cost (getPrice (tu_model r) cred prices) (tu_nonCachedInputTokens r) (tu_cachedInputTokens r) (tu_outputTokens r))"

definition cost_part :: "(cost \<Rightarrow> rat) \<Rightarrow> bool" where
  "cost_part f \<longleftrightarrow> (\<forall>p a a' b b' c c'. f (exact_cost p (a + a') (b + b') (c + c')) = f (exact_cost p a b c) + f (exact_cost p a' b' c')) \<and>
     (\<forall>p a b c. f (computeCost p a b c) = round6 (f (exact_cost p a b c)))"

lemma cost_parts: "cost_part c_total" "cost_part c_input" "cost_part c_output" "cost_part c_cachedInput" "cost_part c_nonCachedInput"
  by (auto simp: cost_part_def computeCost_def exact_cost_def Let_def algebra_simps add_divide_distrib split: prod.splits)

lemma exact_cost_rows:
  assumes "cost_part f" "\<And>r. r \<in> set ms \<Longrightarrow> tu_model r = model"
  shows "f (exact_cost (getPrice model cred prices) (total_of tu_nonCachedInputTokens ms) (total_of tu_cachedInputTokens ms)
    (total_of tu_outputTokens ms)) = sum_list (map (row_part f prices cred) ms)"
  using assms(2)
proof (induction ms)
  case Nil
  have "f (exact_cost p (0 + 0) (0 + 0) (0 + 0)) = f (exact_cost p 0 0 0) + f (exact_cost p 0 0 0)" for p
    using assms(1) unfolding cost_part_def by blast
  then show ?case by (simp add: total_of_def)
next
  case (Cons r ms)
  have "f (exact_cost p (a + a') (b + b') (c + c')) = f (exact_cost p a b c) + f (exact_cost p a' b' c')" for p a a' b b' c c'
    using assms(1) unfolding cost_part_def by blast
  then show ?case using Cons by (simp add: total_of_def row_part_def)
qed

lemma sum_by_group:
  fixes h :: "'a \<Rightarrow> rat"
  assumes "distinct ks" "set (map k xs) \<subseteq> set ks"
  shows "sum_list (map (\<lambda>m. sum_list (map h (filter (\<lambda>x. k x = m) xs))) ks) = sum_list (map h xs)"
  using assms(2)
proof (induction xs)
  case (Cons x xs)
  have one: "sum_list (map (\<lambda>m. if k x = m then h x else 0) ks) = h x" if "k x \<in> set ks" "distinct ks" for ks
    using that
  proof (induction ks)
    case (Cons a ks)
    have "sum_list (map (\<lambda>m. if k x = m then h x else 0) ks) = 0" if "k x \<notin> set ks" for ks
      using that by (induction ks) auto
    then show ?case using Cons by auto
  qed simp
  have "sum_list (map (\<lambda>m. sum_list (map h (filter (\<lambda>y. k y = m) (x # xs)))) ks) =
    sum_list (map (\<lambda>m. (if k x = m then h x else 0) + sum_list (map h (filter (\<lambda>y. k y = m) xs))) ks)"
    by (intro arg_cong [of _ _ sum_list] map_cong) auto
  then show ?case using Cons one [OF _ assms(1)] by (simp add: sum_list_addf)
qed simp

lemma model_cost_error:
  assumes "cost_part f"
  shows "\<bar>f (model_cost prices cred rows m) - sum_list (map (row_part f prices cred) (filter (\<lambda>r. tu_model r = m) rows))\<bar> \<le> 1 / 2000000"
proof -
  let ?ms = "filter (\<lambda>r. tu_model r = m) rows"
  have rounded: "f (computeCost p a b c) = round6 (f (exact_cost p a b c))" for p a b c
    using assms unfolding cost_part_def by blast
  have "f (model_cost prices cred rows m) = round6 (sum_list (map (row_part f prices cred) ?ms))"
    using exact_cost_rows [OF assms, of ?ms m cred prices] rounded unfolding model_cost_def Let_def by simp
  then show ?thesis using round6_error by simp
qed

lemma billed_part:
  fixes rs :: "AgentTokenUsageOrm list"
  assumes "cost_part f"
  defines "ms \<equiv> models_of rs"
  shows "\<bar>round6 (sum_list (map f (map (model_cost prices cred rs) ms))) - sum_list (map (row_part f prices cred) rs)\<bar>
     \<le> of_nat (length ms + 1) / 2000000"
proof -
  define S where "S = sum_list (map (\<lambda>m. f (model_cost prices cred rs m)) ms)"
  have g: "sum_list (map (\<lambda>m. sum_list (map (row_part f prices cred) (filter (\<lambda>r. tu_model r = m) rs))) ms) =
      sum_list (map (row_part f prices cred) rs)"
    by (rule sum_by_group) (simp_all add: ms_def models_of_def)
  have "\<bar>S - sum_list (map (row_part f prices cred) rs)\<bar> \<le> of_nat (length ms) * (1 / 2000000)"
    unfolding S_def g [symmetric] by (rule sum_error) (rule model_cost_error [OF assms(1)])
  moreover have "\<bar>round6 S - S\<bar> \<le> 1 / 2000000" by (rule round6_error)
  moreover have "of_nat (length ms + 1) / 2000000 = of_nat (length ms) * (1 / 2000000) + (1 / 2000000 :: rat)"
    by (simp add: add_divide_distrib)
  ultimately have "\<bar>round6 S - sum_list (map (row_part f prices cred) rs)\<bar> \<le> of_nat (length ms + 1) / 2000000" by linarith
  then show ?thesis by (simp add: S_def comp_def)
qed

section \<open>Properties\<close>

text \<open>
  C27. Billing.  Each of the five billed costs of a session (cached input, other input, input, output, total), which the code
  sums over models and rounds, differs from the sum of this cost over the recorded calls, each exact and at the price of
  its own model, by at most half a millionth for every model in use and half a millionth for the sum; each of the five token
  totals is the exact sum over the calls; and the calls are all counted.
\<close>

theorem billing_accuracy:
  "let b = getSessionBilling prices sid cred rows; rs = session_rows sid rows in
   list_all (\<lambda>(total, part). \<bar>total b - sum_list (map (row_part part prices cred) rs)\<bar> \<le> of_nat (length (models_of rs) + 1) / 2000000)
     [(bl_totalCost, c_total), (bl_totalInputCost, c_input), (bl_totalOutputCost, c_output),
      (bl_totalCachedInputCost, c_cachedInput), (bl_totalNonCachedInputCost, c_nonCachedInput)] \<and>
   list_all (\<lambda>(total, tokens). total b = sum_list (map tokens rs))
     [(bl_totalInputTokens, tu_inputTokens), (bl_totalCachedInputTokens, tu_cachedInputTokens),
      (bl_totalNonCachedInputTokens, tu_nonCachedInputTokens), (bl_totalOutputTokens, tu_outputTokens), (bl_totalTokens, tu_totalTokens)] \<and>
   bl_callCount b = length rs"
  using cost_parts [THEN billed_part, of prices cred "session_rows sid rows"]
  by (simp add: getSessionBilling_def Let_def total_of_def del: of_nat_add map_map)

lemma find_Some: "List.find P xs = Some x \<Longrightarrow> x \<in> set xs \<and> P x"
  by (auto simp: find_Some_iff)

lemma seed_all_present:
  "snd (seed_all ss n rows) = rows' \<Longrightarrow> (\<forall>r\<in>set rows. r \<in> set rows') \<and> (\<forall>s\<in>set ss. \<exists>r\<in>set rows'. same_key (fst s) None r)"
proof (induction ss arbitrary: n rows)
  case (Cons s ss)
  show ?case
  proof (cases "List.find (same_key (fst s) None) rows")
    case None
    have "same_key (fst s) None (new_pricing (next_pricing_id rows) (seed_request s))"
      by (cases s) (simp add: same_key_def new_pricing_def seed_request_def)
    then show ?thesis using Cons.IH [of "n + 1" "rows @ [new_pricing (next_pricing_id rows) (seed_request s)]"] Cons.prems None
      by auto
  next
    case (Some r)
    then show ?thesis using Cons.IH [of n rows] Cons.prems find_Some [OF Some] by auto
  qed
qed simp

lemma seed_all_nothing:
  "(\<And>s. s \<in> set ss \<Longrightarrow> \<exists>r\<in>set rows. same_key (fst s) None r) \<Longrightarrow> seed_all ss n rows = (n, rows)"
proof (induction ss)
  case (Cons s ss)
  have "\<exists>r\<in>set rows. same_key (fst s) None r" using Cons.prems [of s] by simp
  then have "List.find (same_key (fst s) None) rows \<noteq> None" by (auto simp: find_None_iff)
  then show ?case using Cons by auto
qed simp

text \<open>
  Seeding.  After \<open>seedDefaultPrices\<close> every official model has a global price, rows
  that existed are unchanged, and seeding again inserts nothing.
\<close>

theorem seeding_idempotent:
  "seedDefaultPrices (snd (seedDefaultPrices rows)) = (0, snd (seedDefaultPrices rows)) \<and>
   set rows \<subseteq> set (snd (seedDefaultPrices rows)) \<and>
   fst ` set SEEDS \<subseteq> mp_model ` {r \<in> set (snd (seedDefaultPrices rows)). mp_credentialId r = None}"
proof -
  have p: "\<forall>r\<in>set rows. r \<in> set (snd (seedDefaultPrices rows))"
    "\<forall>s\<in>set SEEDS. \<exists>r\<in>set (snd (seedDefaultPrices rows)). same_key (fst s) None r"
    using seed_all_present [of SEEDS 0 rows] by (simp_all add: seedDefaultPrices_def)
  then have "seedDefaultPrices (snd (seedDefaultPrices rows)) = (0, snd (seedDefaultPrices rows))"
    unfolding seedDefaultPrices_def [of "snd (seedDefaultPrices rows)"] by (intro seed_all_nothing) blast
  moreover have "fst s \<in> mp_model ` {r \<in> set (snd (seedDefaultPrices rows)). mp_credentialId r = None}" if "s \<in> set SEEDS" for s
    using p(2) that unfolding same_key_def by (metis (mono_tags, lifting) imageI mem_Collect_eq)
  ultimately show ?thesis using p(1) by blast
qed

lemma find_update_first: "List.find P (update_first P f xs) = map_option f (List.find P xs)" if "\<And>x. P x \<Longrightarrow> P (f x)"
  using that by (induction xs) auto

text \<open>
  A price that was set is the price that is charged.  After \<open>createPricing\<close> for a
  model and a credential, \<open>getPrice\<close> gives that price to this model and credential, provided that
  there was no such row or that it is active; likewise for a global price and a caller without
  a credential.
\<close>

theorem price_set_is_charged:
  assumes "\<And>r. r \<in> set rows \<Longrightarrow> same_key (mc_model q) (mc_credentialId q) r \<Longrightarrow> mp_isActive r = 1"
  shows "getPrice (mc_model q) (mc_credentialId q) (snd (createPricing q rows)) =
    (mc_inputPrice q, mc_cachedInputPrice q, mc_outputPrice q, mc_multiplier q)"
proof -
  let ?k = "same_key (mc_model q) (mc_credentialId q)"
  define rows' where "rows' = snd (createPricing q rows)"
  have f: "\<exists>r. List.find ?k rows' = Some r \<and> row_price r = (mc_inputPrice q, mc_cachedInputPrice q, mc_outputPrice q, mc_multiplier q)"
  proof (cases "List.find ?k rows")
    case None
    have "List.find ?k (rows @ [r]) = Some r" if "?k r" for r
      using None that by (induction rows) (auto split: if_splits)
    moreover have "?k (new_pricing i q)" for i by (simp add: same_key_def new_pricing_def)
    ultimately show ?thesis using None by (auto simp: rows'_def createPricing_def row_price_def new_pricing_def)
  next
    case (Some r)
    have "List.find ?k (update_first ?k (reprice q) rows) = Some (reprice q r)"
      using find_update_first [of ?k "reprice q" rows] Some by (simp add: same_key_def reprice_def)
    then show ?thesis using Some by (auto simp: rows'_def createPricing_def row_price_def reprice_def)
  qed
  have act: "mp_isActive r = 1" if "r \<in> set rows'" "?k r" for r
  proof -
    have "r \<in> set (update_first ?k (reprice q) xs) \<Longrightarrow> \<exists>x\<in>set xs. r = x \<or> r = reprice q x \<and> ?k x" for xs
      by (induction xs) (auto split: if_splits)
    then have "r \<in> set rows \<or> r = new_pricing (next_pricing_id rows) q \<or> (\<exists>x\<in>set rows. r = reprice q x \<and> ?k x)"
      using that(1) by (auto simp: rows'_def createPricing_def split: option.splits)
    then show ?thesis using assms that(2) by (auto simp: new_pricing_def reprice_def)
  qed
  have same: "List.find (\<lambda>r. mp_model r = mc_model q \<and> mp_credentialId r = mc_credentialId q \<and> mp_isActive r = 1) rows' = List.find ?k rows'"
    using act by (intro find_cong refl) (auto simp: same_key_def)
  show ?thesis
    using f same unfolding rows'_def [symmetric] by (cases "mc_credentialId q") (auto simp: getPrice_def)
qed

text \<open>Setting the price of a row that was deactivated leaves it deactivated.\<close>

lemma create_keeps_inactive:
  assumes "List.find (same_key (mc_model q) (mc_credentialId q)) rows = Some r" "mp_isActive r = 0"
  shows "\<exists>r'. List.find (same_key (mc_model q) (mc_credentialId q)) (snd (createPricing q rows)) = Some r' \<and> mp_isActive r' = 0"
  using assms find_update_first [of "same_key (mc_model q) (mc_credentialId q)" "reprice q" rows]
  by (auto simp: createPricing_def same_key_def reprice_def)

text \<open>A model whose name is part of another's is charged at the other's price.\<close>

lemma short_name_price:
  "getPrice ''gpt-4'' None [new_pricing 7 (seed_request (''gpt-4o-mini'', 15/100, 3/100, 6/10))] = (15/100, 3/100, 6/10, 1)"
  by (simp add: new_pricing_def seed_request_def getPrice_def fuzzy_match_def contains_def lower_def lower_char_def is_upper_def
      row_price_def sublist_Cons_right)

lemma negative_uncached: "map tu_nonCachedInputTokens (recordUsage 1 ''s'' ''m'' 5 1 8 []) = [-3]"
  by (simp add: recordUsage_def)

definition w_price :: ModelPricingCreate where
  "w_price = \<lparr>mc_model = ''m'', mc_inputPrice = 7, mc_cachedInputPrice = 1, mc_outputPrice = 9, mc_multiplier = 2, mc_credentialId = Some 3\<rparr>"

theorem price_set_is_charged_witness: "getPrice ''m'' (Some 3) (snd (createPricing w_price [])) = (7, 1, 9, 2)"
  using price_set_is_charged [of "[]" w_price] by (simp add: w_price_def)

end
