(* ===== verification/TextLemmas.thy ===== *)
theory TextLemmas
  imports PyPrelude
begin

text \<open>
  Lemmas on \<open>strip\<close>, \<open>splitlines\<close>, \<open>split\<close> and \<open>join\<close> that the components share: what is stripped from a
  text with a printable core, and how the lines of a text that was put together from lines come back.
\<close>

lemma strip_line:
  assumes "s \<noteq> []" "\<not> is_space (hd s)" "\<not> is_space (last s)" "list_all is_space v" "list_all is_space w"
  shows "strip (v @ s @ w) = s"
proof -
  obtain c cs where s: "s = c # cs" using assms(1) by (cases s) auto
  obtain b d where t: "s = b @ [d]" using assms(1) by (metis append_butlast_last_id)
  have "dropWhile is_space (v @ s @ w) = s @ w"
    using assms(2,4) s by (induction v) auto
  moreover have "rdropWhile is_space (s @ w) = s"
  proof -
    have "dropWhile is_space (rev w @ rev s) = rev s" using assms(3,5) t
      by (subst dropWhile_append2) (auto simp: list_all_iff)
    then show ?thesis by (simp add: rdropWhile_def)
  qed
  ultimately show ?thesis by (simp add: strip_def)
qed

lemma strip_id_iff: "s \<noteq> [] \<Longrightarrow> strip s = s \<longleftrightarrow> \<not> is_space (hd s) \<and> \<not> is_space (last s)"
proof
  assume "s \<noteq> []" "strip s = s"
  then have s: "rdropWhile is_space (dropWhile is_space s) = s" by (simp add: strip_def)
  then have "length (dropWhile is_space s) = length s"
    by (metis length_rdropWhile length_dropWhile_le le_antisym)
  then have "takeWhile is_space s = []"
    using length_append [of "takeWhile is_space s" "dropWhile is_space s"] by (simp only: takeWhile_dropWhile_id) simp
  then have d: "dropWhile is_space s = s" using takeWhile_dropWhile_id [of is_space s] by simp
  then have "dropWhile is_space (rev s) = rev s" using s by (simp add: rdropWhile_def rev_swap)
  then show "\<not> is_space (hd s) \<and> \<not> is_space (last s)"
    using hd_dropWhile [of is_space s] hd_dropWhile [of is_space "rev s"] d \<open>s \<noteq> []\<close> by (simp add: hd_rev)
next
  assume "s \<noteq> []" "\<not> is_space (hd s) \<and> \<not> is_space (last s)"
  then show "strip s = s" using strip_line [of s "[]" "[]"] by simp
qed

lemma set_strip: "set (strip s) \<subseteq> set s"
  unfolding strip_def using set_rdropWhile [of is_space "dropWhile is_space s"] set_dropWhileD [of _ is_space s] by blast

abbreviation newline :: char where "newline \<equiv> CHR 0x0A"

lemma splitlines_acc_append:
  "splitlines_acc acc (a @ newline # r) = splitlines_acc acc (a @ [newline]) @ splitlines_acc [] r"
proof (induction acc a rule: splitlines_acc.induct)
  case (1 acc)
  show ?case by (simp add: is_line_sep_def)
next
  case (2 acc x xs)
  then show ?case by (cases xs) (auto simp: is_line_sep_def)
qed

lemma splitlines_append: "splitlines (a @ newline # r) = splitlines (a @ [newline]) @ splitlines r"
  unfolding splitlines_def by (rule splitlines_acc_append)

lemma sep_13: "of_char c = (13 :: nat) \<Longrightarrow> is_line_sep c"
  by (simp add: is_line_sep_def)

lemma splitlines_acc_line: "list_all (\<lambda>c. \<not> is_line_sep c) a \<Longrightarrow> splitlines_acc acc (a @ [newline]) = [rev acc @ a]"
  by (induction a arbitrary: acc) (auto simp: is_line_sep_def dest: sep_13)

lemma splitlines_line: "list_all (\<lambda>c. \<not> is_line_sep c) a \<Longrightarrow> splitlines (a @ [newline]) = [a]"
  using splitlines_acc_line [of a "[]"] by (simp add: splitlines_def)

lemma splitlines_join:
  "ls \<noteq> [] \<Longrightarrow> list_all (list_all (\<lambda>c. \<not> is_line_sep c)) ls \<Longrightarrow> splitlines (join [newline] ls @ [newline]) = ls"
proof (induction "[newline]" ls rule: join.induct)
  case (3 x y zs)
  then show ?case using splitlines_append [of x "join [newline] (y # zs) @ [newline]"] splitlines_line [of x] by simp
qed (simp_all add: splitlines_line)

lemma splitlines_acc_clean:
  "list_all (\<lambda>c. \<not> is_line_sep c) acc \<Longrightarrow> l \<in> set (splitlines_acc acc s) \<Longrightarrow> list_all (\<lambda>c. \<not> is_line_sep c) l"
proof (induction acc s rule: splitlines_acc.induct)
  case (2 acc x xs)
  have acc: "list_all (\<lambda>c. \<not> is_line_sep c) (rev acc)" using "2.prems"(1) by simp
  consider "of_char x = (13 :: nat)" "xs = []" | y ys where "of_char x = (13 :: nat)" "xs = y # ys" "of_char y = (10 :: nat)"
    | y ys where "of_char x = (13 :: nat)" "xs = y # ys" "of_char y \<noteq> (10 :: nat)"
    | "of_char x \<noteq> (13 :: nat)" "is_line_sep x" | "of_char x \<noteq> (13 :: nat)" "\<not> is_line_sep x"
    by (cases xs) blast+
  then show ?case
    using acc "2.prems" "2.IH" by cases auto
qed (auto simp: list_all_iff split: if_splits)

lemma splitlines_clean: "l \<in> set (splitlines s) \<Longrightarrow> list_all (\<lambda>c. \<not> is_line_sep c) l"
  unfolding splitlines_def by (rule splitlines_acc_clean) simp_all

lemma split_ws_acc_words:
  "list_all (\<lambda>c. \<not> is_space c) acc \<Longrightarrow> w \<in> set (split_ws_acc acc s) \<Longrightarrow>
   w \<noteq> [] \<and> list_all (\<lambda>c. \<not> is_space c) w \<and> set w \<subseteq> set acc \<union> set s"
proof (induction acc s rule: split_ws_acc.induct)
  case (2 acc x xs)
  then show ?case by (fastforce simp: list_all_iff split: if_splits)
qed (auto simp: list_all_iff split: if_splits)

lemma split_ws_words: "w \<in> set (split_ws s) \<Longrightarrow> w \<noteq> [] \<and> list_all (\<lambda>c. \<not> is_space c) w \<and> set w \<subseteq> set s"
  unfolding split_ws_def using split_ws_acc_words [of "[]" w s] by simp

lemma split_ws_acc_nonempty: "split_ws_acc acc s = [] \<longleftrightarrow> acc = [] \<and> list_all is_space s"
  by (induction acc s rule: split_ws_acc.induct) auto

lemma split_ws_empty: "split_ws s = [] \<longleftrightarrow> list_all is_space s"
  by (simp add: split_ws_def split_ws_acc_nonempty)

lemma join_words:
  assumes "ws \<noteq> []" "\<And>w. w \<in> set ws \<Longrightarrow> w \<noteq> []"
  shows "join '' '' ws \<noteq> []" "hd (join '' '' ws) = hd (hd ws)" "last (join '' '' ws) = last (last ws)"
    "set (join '' '' ws) \<subseteq> {CHR '' ''} \<union> \<Union> (set ` set ws)"
  using assms by (induction "'' ''" ws rule: join.induct) auto

end
