(* ===== verification/Providers.thy ===== *)
theory Providers
  imports Json UText TextLemmas
begin

text \<open>
  The providers of language models, \<open>agent/llm_providers\<close>: the OpenAI and Anthropic protocols with
  their requests, replies, streams, retries and errors, the parser of server-sent events and the factory.

  The HTTP library is an argument: a post gives an \<open>http_outcome\<close>, a stream a list of lines and perhaps
  a failure after them.  JSON values of a reply can have any shape, so reading them is a computation
  that may raise (\<open>Inl\<close> the class of the exception).  Texts of replies have code points below 256;
  token counts are integers.  An object key that is compared with an integer index is an integer
  or a text.
\<close>

section \<open>Values that may have any shape\<close>

type_synonym 'a exc = "string + 'a"

definition ebind :: "('e + 'a) \<Rightarrow> ('a \<Rightarrow> 'e + 'b) \<Rightarrow> 'e + 'b" where
  "ebind m f = (case m of Inl e \<Rightarrow> Inl e | Inr x \<Rightarrow> f x)"

fun mapE :: "('a \<Rightarrow> 'e + 'b) \<Rightarrow> 'a list \<Rightarrow> 'e + 'b list" where
  "mapE f [] = Inr []"
| "mapE f (x # xs) = ebind (f x) (\<lambda>y. ebind (mapE f xs) (\<lambda>ys. Inr (y # ys)))"

fun foldE :: "('s \<Rightarrow> 'a \<Rightarrow> 'e + 's) \<Rightarrow> 's \<Rightarrow> 'a list \<Rightarrow> 'e + 's" where
  "foldE f s [] = Inr s"
| "foldE f s (x # xs) = ebind (f s x) (\<lambda>s'. foldE f s' xs)"

text \<open>\<open>v.get(k, d)\<close>, \<open>a or b\<close>, \<open>v[0]\<close>, \<open>for x in v\<close>, \<open>json.loads(v)\<close> and \<open>a + b\<close> of token counts.\<close>

definition pget :: "pyval \<Rightarrow> string \<Rightarrow> pyval \<Rightarrow> pyval exc" where
  "pget v k d = (case v of PDict kvs \<Rightarrow> Inr (dget_or kvs k d) | _ \<Rightarrow> Inl ''AttributeError'')"

definition py_or :: "pyval \<Rightarrow> pyval \<Rightarrow> pyval" where
  "py_or a b = (if truthy a then a else b)"

definition index0 :: "pyval \<Rightarrow> pyval exc" where
  "index0 v = (case v of
       PList (x # xs) \<Rightarrow> Inr x
     | PList [] \<Rightarrow> Inl ''IndexError''
     | PStr (c # cs) \<Rightarrow> Inr (PStr [c])
     | PStr [] \<Rightarrow> Inl ''IndexError''
     | PDict kvs \<Rightarrow> Inl ''KeyError''
     | _ \<Rightarrow> Inl ''TypeError'')"

definition py_items :: "pyval \<Rightarrow> pyval list exc" where
  "py_items v = (case v of
       PList xs \<Rightarrow> Inr xs
     | PDict kvs \<Rightarrow> Inr (map (\<lambda>kv. PStr (fst kv)) kvs)
     | PStr s \<Rightarrow> Inr (map (\<lambda>c. PStr [c]) s)
     | _ \<Rightarrow> Inl ''TypeError'')"

definition py_loads :: "(string \<Rightarrow> string) \<Rightarrow> pyval \<Rightarrow> pyval option exc" where
  "py_loads fr v = (case v of PStr s \<Rightarrow> Inr (loads fr s) | _ \<Rightarrow> Inl ''TypeError'')"

definition py_plus :: "pyval \<Rightarrow> pyval \<Rightarrow> pyval exc" where
  "py_plus a b = (case (a, b) of (PInt i, PInt j) \<Rightarrow> Inr (PInt (i + j)) | _ \<Rightarrow> Inl ''TypeError'')"

definition hashable :: "pyval \<Rightarrow> bool" where
  "hashable v \<longleftrightarrow> (case v of PList xs \<Rightarrow> False | PDict kvs \<Rightarrow> False | _ \<Rightarrow> True)"

fun pint :: "pyval \<Rightarrow> int option" where
  "pint (PInt i) = Some i"
| "pint v = None"

fun pstr :: "pyval \<Rightarrow> string option" where
  "pstr (PStr s) = Some s"
| "pstr v = None"

text \<open>\<open>sorted(d.keys())\<close>: keys of different kinds cannot be compared.\<close>

definition sorted_keys :: "pyval list \<Rightarrow> pyval list exc" where
  "sorted_keys ks =
     (if length ks \<le> 1 then Inr ks
      else if list_all (\<lambda>k. pint k \<noteq> None) ks then Inr (sort_key (\<lambda>k. the (pint k)) ks)
      else if list_all (\<lambda>k. pstr k \<noteq> None) ks then Inr (sort_key (\<lambda>k. the (pstr k)) ks)
      else Inl ''TypeError'')"

section \<open>Replies and errors\<close>

record model_call =
  ca_id :: pyval
  ca_name :: pyval
  ca_arguments :: pyval

record LLMResponse =
  re_content :: pyval
  re_tool_calls :: "model_call list"
  re_finish_reason :: pyval
  re_usage :: pyval

definition final_reply :: LLMResponse where
  "final_reply = \<lparr>re_content = PNone, re_tool_calls = [], re_finish_reason = PStr ''stop'', re_usage = PDict []\<rparr>"

datatype ErrorCode = TIMEOUT | LLM_CONNECTION_FAILED | LLM_RESPONSE_MALFORMED | LLM_RATE_LIMITED

record AgentError =
  ae_code :: ErrorCode
  ae_message :: utext
  ae_status :: "int option"
  ae_body :: "utext option"

datatype prov_exn = PyExn string | AgentExn AgentError

text \<open>
  What a request does: a body, an HTTP error with the text of its body (empty when it cannot be
  read), a timeout, another \<open>URLError\<close> or \<open>OSError\<close> with its text, or an exception of another class.
\<close>

datatype http_outcome =
    HBody string
  | HError int utext
  | HTimeout
  | HUnreachable utext
  | HRaise string utext

definition agent_error :: "ErrorCode \<Rightarrow> utext \<Rightarrow> AgentError" where
  "agent_error c m = \<lparr>ae_code = c, ae_message = m, ae_status = None, ae_body = None\<rparr>"

definition exn_text :: "http_outcome \<Rightarrow> utext" where
  "exn_text out = (case out of HUnreachable t \<Rightarrow> t | HRaise c t \<Rightarrow> t | _ \<Rightarrow> [])"

definition oa_wrapHttpError :: "http_outcome \<Rightarrow> AgentError" where
  "oa_wrapHttpError out = (case out of
       HError status text \<Rightarrow>
         (let detailBody = take 500 text in
          if status = 429 then
            \<lparr>ae_code = LLM_RATE_LIMITED, ae_message = (uni ''LLM API '' @ [38480, 27969] @ uni '' (429)''), ae_status = Some status, ae_body = Some detailBody\<rparr>
          else if status = 401 then
            \<lparr>ae_code = LLM_CONNECTION_FAILED, ae_message = (uni ''LLM API Key '' @ [26080, 25928, 25110, 26410, 25480, 26435] @ uni '' (401)''), ae_status = Some status, ae_body = None\<rparr>
          else
            \<lparr>ae_code = LLM_CONNECTION_FAILED,
             ae_message = (uni ''LLM API HTTP '' @ [38169, 35823, 32, 40]) @ uni (str_of_int status) @ [41] @
               (if detailBody = [] then [] else [58, 32] @ detailBody),
             ae_status = Some status, ae_body = Some detailBody\<rparr>)
     | HTimeout \<Rightarrow> agent_error TIMEOUT (uni ''LLM API '' @ [35831, 27714, 36229, 26102])
     | _ \<Rightarrow> agent_error LLM_CONNECTION_FAILED ((uni ''LLM API '' @ [36830, 25509, 22833, 36133, 58, 32]) @ exn_text out))"

definition an_wrapHttpError :: "http_outcome \<Rightarrow> AgentError" where
  "an_wrapHttpError out = (case out of
       HError status text \<Rightarrow>
         (let detail = take 500 text in
          if status = 429 then
            \<lparr>ae_code = LLM_RATE_LIMITED, ae_message = ([65, 80, 73, 32, 38480, 27969] @ uni '' (429)''), ae_status = Some status, ae_body = Some detail\<rparr>
          else if status = 401 then
            \<lparr>ae_code = LLM_CONNECTION_FAILED, ae_message = (uni ''API Key '' @ [26080, 25928] @ uni '' (401)''), ae_status = Some status, ae_body = None\<rparr>
          else
            \<lparr>ae_code = LLM_CONNECTION_FAILED, ae_message = uni ''HTTP '' @ uni (str_of_int status),
             ae_status = Some status, ae_body = Some detail\<rparr>)
     | HTimeout \<Rightarrow> agent_error TIMEOUT [65, 80, 73, 32, 35831, 27714, 36229, 26102]
     | _ \<Rightarrow> agent_error LLM_CONNECTION_FAILED ([36830, 25509, 22833, 36133, 58, 32] @ exn_text out))"

section \<open>Requests\<close>

record provider =
  pv_endpoint :: string
  pv_apiKey :: string
  pv_model :: string
  pv_maxTokens :: int
  pv_temperature :: string
  pv_retryCount :: int
  pv_retryDelay :: rat
  pv_tools :: "pyval list option"

definition setTools :: "pyval list \<Rightarrow> provider \<Rightarrow> provider" where
  "setTools tools p = p\<lparr>pv_tools := Some tools\<rparr>"

definition given_tools :: "pyval list option \<Rightarrow> pyval list" where
  "given_tools t = (case t of Some ts \<Rightarrow> ts | None \<Rightarrow> [])"

definition oa_body :: "provider \<Rightarrow> pydict list \<Rightarrow> bool \<Rightarrow> pyval" where
  "oa_body p messages stream = PDict
     ([(''model'', PStr (pv_model p))] @
      (if given_tools (pv_tools p) = [] then []
       else [(''tools'', PList (given_tools (pv_tools p))), (''tool_choice'', PStr ''auto'')]) @
      [(''messages'', PList (map PDict messages)), (''max_tokens'', PInt (pv_maxTokens p)),
       (''temperature'', PFloat (pv_temperature p)), (''stream'', PBool stream)])"

definition oa_buildBody :: "provider \<Rightarrow> pydict list \<Rightarrow> bool \<Rightarrow> string" where
  "oa_buildBody p messages stream = dumps True '', '' '': '' (oa_body p messages stream)"

definition an_convertTool :: "pyval \<Rightarrow> pyval exc" where
  "an_convertTool t =
     ebind (pget t ''function'' t) (\<lambda>fn.
     ebind (pget fn ''name'' (PStr [])) (\<lambda>name.
     ebind (pget fn ''parameters'' (PDict [(''type'', PStr ''object''), (''properties'', PDict []), (''required'', PList [])]))
       (\<lambda>input_schema.
     ebind (pget fn ''description'' (PStr [])) (\<lambda>description.
       Inr (PDict [(''name'', name), (''description'', description), (''input_schema'', input_schema)])))))"

definition an_convertTools :: "pyval list \<Rightarrow> pyval list exc" where
  "an_convertTools tools = mapE an_convertTool tools"

definition an_tool_use :: "(string \<Rightarrow> string) \<Rightarrow> pyval \<Rightarrow> pyval exc" where
  "an_tool_use fr tc =
     ebind (pget tc ''function'' (PDict [])) (\<lambda>fn.
     ebind (pget fn ''arguments'' (PStr ''{}'')) (\<lambda>args_str.
     ebind (pget tc ''id'' (PStr [])) (\<lambda>i.
     ebind (pget fn ''name'' (PStr [])) (\<lambda>n.
       (let inp = (case args_str of
                     PStr s \<Rightarrow> (case loads fr s of Some v \<Rightarrow> v | None \<Rightarrow> PDict [])
                   | v \<Rightarrow> v)
        in Inr (PDict [(''type'', PStr ''tool_use''), (''id'', i), (''name'', n), (''input'', inp)]))))))"

definition is_tool_message :: "pydict \<Rightarrow> bool" where
  "is_tool_message m \<longleftrightarrow> dget m ''role'' = PStr ''tool''"

definition an_tool_result :: "pydict \<Rightarrow> pyval" where
  "an_tool_result m = PDict [(''type'', PStr ''tool_result''), (''tool_use_id'', dget_or m ''tool_call_id'' (PStr [])),
     (''content'', dget_or m ''content'' (PStr []))]"

definition an_message :: "pyval \<Rightarrow> pyval \<Rightarrow> pydict" where
  "an_message role content = [(''role'', role), (''content'', content)]"

text \<open>A message that is not a tool answer.\<close>

definition an_convertMessage :: "(string \<Rightarrow> string) \<Rightarrow> pydict \<Rightarrow> pydict exc" where
  "an_convertMessage fr msg =
     (let role = dget_or msg ''role'' (PStr ''user''); content = py_or (dget msg ''content'') (PStr []) in
      if role = PStr ''system'' then Inr (an_message (PStr ''system'') content)
      else if role = PStr ''assistant'' \<and> truthy (dget msg ''tool_calls'') then
        ebind (py_items (dget msg ''tool_calls'')) (\<lambda>tcs.
        ebind (mapE (an_tool_use fr) tcs) (\<lambda>blocks. Inr (an_message (PStr ''assistant'') (PList blocks))))
      else Inr (an_message role content))"

lemma length_dropWhile_Suc_le [termination_simp]: "length (dropWhile P xs) < Suc (length xs)"
  using length_dropWhile_le [of P xs] by simp

fun an_convertMessages :: "(string \<Rightarrow> string) \<Rightarrow> pydict list \<Rightarrow> pydict list exc" where
  "an_convertMessages fr [] = Inr []"
| "an_convertMessages fr (msg # messages) =
     (if is_tool_message msg then
        ebind (an_convertMessages fr (dropWhile is_tool_message messages)) (\<lambda>rest.
          Inr (an_message (PStr ''user'') (PList (map an_tool_result (msg # takeWhile is_tool_message messages))) # rest))
      else
        ebind (an_convertMessage fr msg) (\<lambda>m. ebind (an_convertMessages fr messages) (\<lambda>rest. Inr (m # rest))))"

definition an_body :: "(string \<Rightarrow> string) \<Rightarrow> provider \<Rightarrow> pydict list \<Rightarrow> bool \<Rightarrow> pyval exc" where
  "an_body fr p messages stream =
     ebind (an_convertTools (given_tools (pv_tools p))) (\<lambda>tools.
     ebind (an_convertMessages fr messages) (\<lambda>ms.
       Inr (PDict
         ([(''model'', PStr (pv_model p)), (''max_tokens'', PInt (pv_maxTokens p)), (''temperature'', PFloat (pv_temperature p))] @
          (if given_tools (pv_tools p) = [] then [] else [(''tools'', PList tools)]) @
          [(''messages'', PList (map PDict ms)), (''stream'', PBool stream)]))))"

definition an_buildBody :: "(string \<Rightarrow> string) \<Rightarrow> provider \<Rightarrow> pydict list \<Rightarrow> bool \<Rightarrow> string exc" where
  "an_buildBody fr p messages stream =
     ebind (an_body fr p messages stream) (\<lambda>b. Inr (dumps True '', '' '': '' b))"

text \<open>URL and headers.\<close>

definition oa_buildRequest :: "provider \<Rightarrow> string \<times> (string \<times> string) list" where
  "oa_buildRequest p = (pv_endpoint p @ ''/chat/completions'',
     [(''Content-Type'', ''application/json''), (''Authorization'', ''Bearer '' @ pv_apiKey p)])"

definition an_buildRequest :: "provider \<Rightarrow> string \<times> (string \<times> string) list" where
  "an_buildRequest p = (pv_endpoint p @ ''/messages'',
     [(''Content-Type'', ''application/json''), (''x-api-key'', pv_apiKey p), (''anthropic-version'', ''2023-06-01'')])"

subsection \<open>Retries\<close>

text \<open>An HTTP status that is not worth another attempt.\<close>

definition fatal :: "http_outcome \<Rightarrow> bool" where
  "fatal out = (case out of HError status text \<Rightarrow> status \<noteq> 429 \<and> 400 \<le> status \<and> status < 500 | _ \<Rightarrow> False)"

text \<open>
  The attempts from number \<open>attempt\<close> on, \<open>left\<close> of them: the outcome and the pauses.  \<open>post k\<close> is
  what the attempt number \<open>k\<close> meets.
\<close>

fun retry_loop ::
  "(http_outcome \<Rightarrow> AgentError) \<Rightarrow> (nat \<Rightarrow> http_outcome) \<Rightarrow> rat \<Rightarrow> nat \<Rightarrow> nat \<Rightarrow> AgentError option
   \<Rightarrow> (prov_exn + string) \<times> rat list" where
  "retry_loop wrap post retryDelay attempt 0 lastError =
     (Inl (case lastError of Some e \<Rightarrow> AgentExn e | None \<Rightarrow> PyExn ''AssertionError''), [])"
| "retry_loop wrap post retryDelay attempt (Suc left) lastError =
     (case post attempt of
        HBody s \<Rightarrow> (Inr s, [])
      | HRaise c t \<Rightarrow> (Inl (PyExn c), [])
      | out \<Rightarrow>
          if fatal out then (Inl (AgentExn (wrap out)), [])
          else (case retry_loop wrap post retryDelay (Suc attempt) left (Some (wrap out)) of
                  (r, pauses) \<Rightarrow> (r, if left = 0 then pauses else retryDelay * 2 ^ attempt # pauses)))"

definition oa_postWithRetry :: "provider \<Rightarrow> (nat \<Rightarrow> http_outcome) \<Rightarrow> (prov_exn + string) \<times> rat list" where
  "oa_postWithRetry p post = retry_loop oa_wrapHttpError post (pv_retryDelay p) 0 (nat (pv_retryCount p + 1)) None"

definition an_postWithRetry :: "provider \<Rightarrow> (nat \<Rightarrow> http_outcome) \<Rightarrow> (prov_exn + string) \<times> rat list" where
  "an_postWithRetry p post = retry_loop an_wrapHttpError post (pv_retryDelay p) 0 (nat (pv_retryCount p + 1)) None"

section \<open>Replies\<close>

definition parsed_arguments :: "(string \<Rightarrow> string) \<Rightarrow> string \<Rightarrow> pyval" where
  "parsed_arguments fr s = (case loads fr s of Some v \<Rightarrow> v | None \<Rightarrow> PDict [])"

definition oa_call :: "(string \<Rightarrow> string) \<Rightarrow> pyval \<Rightarrow> model_call exc" where
  "oa_call fr tc =
     ebind (pget tc ''function'' (PDict [])) (\<lambda>fn.
     ebind (pget fn ''arguments'' (PStr ''{}'')) (\<lambda>a.
     ebind (py_loads fr a) (\<lambda>args.
     ebind (pget tc ''id'' (PStr [])) (\<lambda>i.
     ebind (pget fn ''name'' (PStr [])) (\<lambda>n.
       Inr \<lparr>ca_id = i, ca_name = n, ca_arguments = (case args of Some v \<Rightarrow> v | None \<Rightarrow> PDict [])\<rparr>)))))"

definition oa_reply :: "(string \<Rightarrow> string) \<Rightarrow> pyval \<Rightarrow> LLMResponse exc" where
  "oa_reply fr data =
     ebind (pget data ''choices'' (PList [PDict []])) (\<lambda>choices.
     ebind (index0 choices) (\<lambda>choice.
     ebind (pget choice ''message'' (PDict [])) (\<lambda>msg.
     ebind (pget msg ''content'' PNone) (\<lambda>content.
     ebind (pget msg ''tool_calls'' PNone) (\<lambda>raw.
     ebind (py_items (py_or raw (PList []))) (\<lambda>tcs.
     ebind (mapE (oa_call fr) tcs) (\<lambda>calls.
     ebind (pget choice ''finish_reason'' (PStr ''stop'')) (\<lambda>finish.
     ebind (pget data ''usage'' (PDict [])) (\<lambda>usage.
       Inr \<lparr>re_content = content, re_tool_calls = calls, re_finish_reason = finish, re_usage = usage\<rparr>)))))))))"

definition py_result :: "'a exc \<Rightarrow> prov_exn + 'a" where
  "py_result r = (case r of Inl e \<Rightarrow> Inl (PyExn e) | Inr x \<Rightarrow> Inr x)"

definition oa_parseResponse :: "(string \<Rightarrow> string) \<Rightarrow> string \<Rightarrow> prov_exn + LLMResponse" where
  "oa_parseResponse fr raw =
     (case loads fr raw of
        None \<Rightarrow> Inl (AgentExn (agent_error LLM_RESPONSE_MALFORMED [76, 76, 77, 32, 21709, 24212, 38750, 21512, 27861, 32, 74, 83, 79, 78]))
      | Some data \<Rightarrow> py_result (oa_reply fr data))"

definition oa_chat :: "(string \<Rightarrow> string) \<Rightarrow> provider \<Rightarrow> (string \<Rightarrow> nat \<Rightarrow> http_outcome) \<Rightarrow> pydict list \<Rightarrow> prov_exn + LLMResponse" where
  "oa_chat fr p post messages =
     ebind (fst (oa_postWithRetry p (post (oa_buildBody p messages False)))) (oa_parseResponse fr)"

text \<open>The blocks of a reply: texts and calls, in order.\<close>

fun an_blocks :: "pyval list \<Rightarrow> pyval list \<Rightarrow> model_call list \<Rightarrow> (pyval list \<times> model_call list) exc" where
  "an_blocks [] texts calls = Inr (texts, calls)"
| "an_blocks (block # blocks) texts calls =
     ebind (pget block ''type'' PNone) (\<lambda>ty.
       if ty = PStr ''text'' then
         ebind (pget block ''text'' (PStr [])) (\<lambda>t. an_blocks blocks (texts @ [t]) calls)
       else if ty = PStr ''tool_use'' then
         ebind (pget block ''id'' (PStr [])) (\<lambda>i.
         ebind (pget block ''name'' (PStr [])) (\<lambda>n.
         ebind (pget block ''input'' (PDict [])) (\<lambda>inp.
           an_blocks blocks texts (calls @ [\<lparr>ca_id = i, ca_name = n, ca_arguments = inp\<rparr>]))))
       else an_blocks blocks texts calls)"

definition an_usage :: "pyval \<Rightarrow> pyval exc" where
  "an_usage u =
     ebind (pget u ''input_tokens'' (PInt 0)) (\<lambda>inp.
     ebind (pget u ''output_tokens'' (PInt 0)) (\<lambda>out.
     ebind (py_plus inp out) (\<lambda>total.
       Inr (PDict [(''prompt_tokens'', inp), (''completion_tokens'', out), (''total_tokens'', total)]))))"

text \<open>\<open>"".join(parts)\<close>.\<close>

definition join_texts :: "pyval list \<Rightarrow> string exc" where
  "join_texts ts = (if list_all (\<lambda>t. pstr t \<noteq> None) ts then Inr (concat (map (\<lambda>t. the (pstr t)) ts)) else Inl ''TypeError'')"

definition an_reply :: "pyval \<Rightarrow> LLMResponse exc" where
  "an_reply data =
     ebind (pget data ''content'' (PList [])) (\<lambda>content.
     ebind (py_items content) (\<lambda>blocks.
     ebind (an_blocks blocks [] []) (\<lambda>(texts, calls).
     ebind (case data of
              PDict kvs \<Rightarrow> (case map_of kvs ''usage'' of Some u \<Rightarrow> an_usage u | None \<Rightarrow> Inr (PDict []))
            | _ \<Rightarrow> Inr (PDict [])) (\<lambda>usage.
     ebind (join_texts texts) (\<lambda>t.
       Inr \<lparr>re_content = (if t = [] then PNone else PStr t), re_tool_calls = calls,
            re_finish_reason = PStr (if calls \<noteq> [] then ''tool_calls'' else ''stop''), re_usage = usage\<rparr>)))))"

definition an_parseResponse :: "(string \<Rightarrow> string) \<Rightarrow> string \<Rightarrow> prov_exn + LLMResponse" where
  "an_parseResponse fr raw =
     (case loads fr raw of
        None \<Rightarrow> Inl (AgentExn (agent_error LLM_RESPONSE_MALFORMED (uni ''Anthropic '' @ [21709, 24212, 38750, 21512, 27861, 32, 74, 83, 79, 78])))
      | Some data \<Rightarrow> py_result (an_reply data))"

definition an_chat :: "(string \<Rightarrow> string) \<Rightarrow> provider \<Rightarrow> (string \<Rightarrow> nat \<Rightarrow> http_outcome) \<Rightarrow> pydict list \<Rightarrow> prov_exn + LLMResponse" where
  "an_chat fr p post messages =
     ebind (py_result (an_buildBody fr p messages False)) (\<lambda>body.
     ebind (fst (an_postWithRetry p (post body))) (an_parseResponse fr))"

section \<open>Streams of the OpenAI protocol\<close>

record call_buffer =
  te_id :: pyval
  te_name :: pyval
  te_arguments :: string

type_synonym tcbuf = "(pyval \<times> call_buffer) list"

definition new_entry :: call_buffer where
  "new_entry = \<lparr>te_id = PStr [], te_name = PStr [], te_arguments = []\<rparr>"

definition oa_add_call :: "tcbuf \<Rightarrow> pyval \<Rightarrow> tcbuf exc" where
  "oa_add_call buf rawTc =
     ebind (pget rawTc ''index'' (PInt (int (length buf)))) (\<lambda>idx.
     if \<not> hashable idx then Inl ''TypeError''
     else
       (let entry = (case map_of buf idx of Some e \<Rightarrow> e | None \<Rightarrow> new_entry) in
        ebind (pget rawTc ''id'' PNone) (\<lambda>i.
        (let entry = (if truthy i then entry\<lparr>te_id := i\<rparr> else entry) in
         ebind (pget rawTc ''function'' (PDict [])) (\<lambda>f.
         ebind (pget (py_or f (PDict [])) ''name'' PNone) (\<lambda>n.
         (let entry = (if truthy n then entry\<lparr>te_name := n\<rparr> else entry) in
          ebind (pget (py_or f (PDict [])) ''arguments'' PNone) (\<lambda>a.
            if \<not> truthy a then Inr (AList.update idx entry buf)
            else case a of
                   PStr s \<Rightarrow> Inr (AList.update idx (entry\<lparr>te_arguments := te_arguments entry @ s\<rparr>) buf)
                 | _ \<Rightarrow> Inl ''TypeError''))))))))"

text \<open>
  \<open>_parseStreamChunk\<close>: a reply to yield, or a buffer when the stream is to go on.
\<close>

definition oa_parseStreamChunk ::
  "(string \<Rightarrow> string) \<Rightarrow> string \<Rightarrow> tcbuf \<Rightarrow> (LLMResponse option \<times> tcbuf option) exc" where
  "oa_parseStreamChunk fr payload tcBuffer =
     (case loads fr payload of
        None \<Rightarrow> Inr (None, Some tcBuffer)
      | Some obj \<Rightarrow>
          ebind (pget obj ''choices'' PNone) (\<lambda>choices.
          case choices of
            PList (choice # others) \<Rightarrow>
              ebind (pget choice ''delta'' (PDict [])) (\<lambda>delta.
              ebind (pget choice ''finish_reason'' PNone) (\<lambda>reason.
              (let finish = py_or reason (PStr []) in
               ebind (pget delta ''tool_calls'' PNone) (\<lambda>rawTcList.
               case rawTcList of
                 PList (tc # tcs) \<Rightarrow> ebind (foldE oa_add_call tcBuffer (tc # tcs)) (\<lambda>buf. Inr (None, Some buf))
               | _ \<Rightarrow>
                   ebind (pget delta ''content'' PNone) (\<lambda>content.
                   ebind (pget obj ''usage'' (PDict [])) (\<lambda>usage.
                     if truthy content then
                       Inr (Some \<lparr>re_content = content, re_tool_calls = [], re_finish_reason = finish, re_usage = usage\<rparr>, None)
                     else if truthy finish then
                       Inr (Some \<lparr>re_content = PNone, re_tool_calls = [], re_finish_reason = finish, re_usage = usage\<rparr>, None)
                     else Inr (None, Some tcBuffer)))))))
          | _ \<Rightarrow> Inr (None, Some tcBuffer)))"

definition oa_stream_call :: "(string \<Rightarrow> string) \<Rightarrow> tcbuf \<Rightarrow> pyval \<Rightarrow> model_call" where
  "oa_stream_call fr buf idx =
     (case map_of buf idx of
        Some t \<Rightarrow> \<lparr>ca_id = te_id t, ca_name = te_name t, ca_arguments = parsed_arguments fr (te_arguments t)\<rparr>
      | None \<Rightarrow> \<lparr>ca_id = PNone, ca_name = PNone, ca_arguments = PDict []\<rparr>)"

definition oa_stream_calls :: "(string \<Rightarrow> string) \<Rightarrow> tcbuf \<Rightarrow> model_call list exc" where
  "oa_stream_calls fr buf = ebind (sorted_keys (map fst buf)) (\<lambda>ks. Inr (map (oa_stream_call fr buf) ks))"

text \<open>What the reading thread puts into the queue before its end mark.\<close>

datatype queue_item = QItem string | QExc http_outcome

definition queue_end :: "http_outcome option \<Rightarrow> queue_item list" where
  "queue_end fin = (case fin of None \<Rightarrow> [] | Some out \<Rightarrow> [QExc out])"

fun oa_runner :: "string list \<Rightarrow> http_outcome option \<Rightarrow> queue_item list" where
  "oa_runner [] fin = queue_end fin"
| "oa_runner (rawLine # rawLines) fin =
     (let line = strip rawLine in
      if line = [] \<or> \<not> startswith line ''data:'' then oa_runner rawLines fin
      else
        (let payload = strip (drop (length ''data:'') line) in
         if payload = ''[DONE]'' then [] else QItem payload # oa_runner rawLines fin))"

definition yields :: "LLMResponse \<Rightarrow> LLMResponse list \<times> prov_exn option \<Rightarrow> LLMResponse list \<times> prov_exn option" where
  "yields r out = (r # fst out, snd out)"

fun oa_consume :: "(string \<Rightarrow> string) \<Rightarrow> tcbuf \<Rightarrow> queue_item list \<Rightarrow> LLMResponse list \<times> prov_exn option" where
  "oa_consume fr tcBuffer [] = ([final_reply], None)"
| "oa_consume fr tcBuffer (QExc out # q) = ([], Some (AgentExn (oa_wrapHttpError out)))"
| "oa_consume fr tcBuffer (QItem payload # q) =
     (case oa_parseStreamChunk fr payload tcBuffer of
        Inl e \<Rightarrow> ([], Some (PyExn e))
      | Inr (parsed, Some tcPartial) \<Rightarrow> oa_consume fr tcPartial q
      | Inr (None, None) \<Rightarrow> oa_consume fr tcBuffer q
      | Inr (Some r, None) \<Rightarrow>
          if re_finish_reason r = PStr ''tool_calls'' \<and> tcBuffer \<noteq> [] then
            (case oa_stream_calls fr tcBuffer of
               Inl e \<Rightarrow> ([], Some (PyExn e))
             | Inr calls \<Rightarrow> yields (r\<lparr>re_tool_calls := calls\<rparr>) (oa_consume fr [] q))
          else yields r (oa_consume fr tcBuffer q))"

definition oa_chatStream :: "(string \<Rightarrow> string) \<Rightarrow> string list \<Rightarrow> http_outcome option \<Rightarrow> LLMResponse list \<times> prov_exn option" where
  "oa_chatStream fr rawLines fin = oa_consume fr [] (oa_runner rawLines fin)"

section \<open>Streams of the Anthropic protocol\<close>

fun an_runner :: "string \<Rightarrow> string list \<Rightarrow> http_outcome option \<Rightarrow> queue_item list" where
  "an_runner buf [] fin = queue_end fin"
| "an_runner buf (line # rawLines) fin =
     (let buf = (if startswith line ''event:'' \<or> startswith line ''data:'' then buf @ line else buf) in
      if strip line = [] \<and> buf \<noteq> [] then QItem (strip buf) # an_runner [] rawLines fin
      else an_runner buf rawLines fin)"

text \<open>The data of a block: that of its last data line.\<close>

definition an_data :: "string \<Rightarrow> string" where
  "an_data buf =
     (let datas = filter (\<lambda>l. startswith l ''data:'') (map strip (split_on (CHR 0x0A) buf))
      in if datas = [] then [] else strip (drop (length ''data:'') (last datas)))"

definition an_parseStreamEvent :: "(string \<Rightarrow> string) \<Rightarrow> string \<Rightarrow> LLMResponse option exc" where
  "an_parseStreamEvent fr buf =
     (if an_data buf = [] then Inr None
      else case loads fr (an_data buf) of
        None \<Rightarrow> Inr None
      | Some obj \<Rightarrow>
          ebind (pget obj ''type'' (PStr [])) (\<lambda>etype.
          if etype = PStr ''content_block_delta'' then
            ebind (pget obj ''delta'' (PDict [])) (\<lambda>delta.
            ebind (pget delta ''type'' PNone) (\<lambda>dtype.
            if dtype = PStr ''text_delta'' then
              ebind (pget delta ''text'' (PStr [])) (\<lambda>t.
                Inr (Some \<lparr>re_content = t, re_tool_calls = [], re_finish_reason = PStr [], re_usage = PDict []\<rparr>))
            else Inr None))
          else if etype = PStr ''content_block_start'' then
            ebind (pget obj ''content_block'' (PDict [])) (\<lambda>cb.
            ebind (pget cb ''type'' PNone) (\<lambda>ctype.
            if ctype = PStr ''tool_use'' then
              ebind (pget cb ''id'' (PStr [])) (\<lambda>i.
              ebind (pget cb ''name'' (PStr [])) (\<lambda>n.
              ebind (pget cb ''input'' (PDict [])) (\<lambda>inp.
                Inr (Some \<lparr>re_content = PNone, re_tool_calls = [\<lparr>ca_id = i, ca_name = n, ca_arguments = inp\<rparr>],
                           re_finish_reason = PStr [], re_usage = PDict []\<rparr>))))
            else Inr None))
          else if etype = PStr ''message_delta'' then
            ebind (pget obj ''delta'' (PDict [])) (\<lambda>d.
            ebind (pget obj ''usage'' (PDict [])) (\<lambda>u.
            ebind (if truthy u then an_usage u else Inr (PDict [])) (\<lambda>usage.
            ebind (pget d ''stop_reason'' (PStr ''stop'')) (\<lambda>reason.
              Inr (Some \<lparr>re_content = PNone, re_tool_calls = [], re_finish_reason = reason, re_usage = usage\<rparr>)))))
          else Inr None))"

fun an_consume :: "(string \<Rightarrow> string) \<Rightarrow> queue_item list \<Rightarrow> LLMResponse list \<times> prov_exn option" where
  "an_consume fr [] = ([final_reply], None)"
| "an_consume fr (QExc out # q) = ([], Some (AgentExn (an_wrapHttpError out)))"
| "an_consume fr (QItem buf # q) =
     (case an_parseStreamEvent fr buf of
        Inl e \<Rightarrow> ([], Some (PyExn e))
      | Inr None \<Rightarrow> an_consume fr q
      | Inr (Some r) \<Rightarrow> yields r (an_consume fr q))"

definition an_chatStream :: "(string \<Rightarrow> string) \<Rightarrow> string list \<Rightarrow> http_outcome option \<Rightarrow> LLMResponse list \<times> prov_exn option" where
  "an_chatStream fr rawLines fin = an_consume fr (an_runner [] rawLines fin)"

section \<open>The parser of server-sent events\<close>

record sse_event =
  sv_delta :: pyval
  sv_finish :: pyval
  sv_usage :: pyval

definition sse_event_of :: "pyval \<Rightarrow> sse_event exc" where
  "sse_event_of obj =
     ebind (pget obj ''choices'' (PList [PDict []])) (\<lambda>choices.
     ebind (index0 choices) (\<lambda>choice.
     ebind (pget choice ''delta'' (PDict [])) (\<lambda>delta.
     ebind (pget choice ''finish_reason'' PNone) (\<lambda>reason.
     ebind (pget obj ''usage'' PNone) (\<lambda>usage.
       Inr \<lparr>sv_delta = delta, sv_finish = py_or reason (PStr []), sv_usage = usage\<rparr>)))))"

fun parseSseStream :: "(string \<Rightarrow> string) \<Rightarrow> string list \<Rightarrow> sse_event list exc" where
  "parseSseStream fr [] = Inr []"
| "parseSseStream fr (raw # lines) =
     (let line = strip raw in
      if \<not> startswith line ''data: '' then parseSseStream fr lines
      else
        (let payload = drop 6 line in
         if payload = ''[DONE]'' then Inr []
         else case loads fr payload of
                None \<Rightarrow> parseSseStream fr lines
              | Some obj \<Rightarrow> ebind (sse_event_of obj) (\<lambda>ev. ebind (parseSseStream fr lines) (\<lambda>evs. Inr (ev # evs)))))"

text \<open>\<open>"k" in v\<close> and \<open>v[k]\<close> of a value that should be a dict.\<close>

definition phas :: "pyval \<Rightarrow> string \<Rightarrow> pyval option exc" where
  "phas v k = (case v of
       PDict kvs \<Rightarrow> Inr (map_of kvs k)
     | PList xs \<Rightarrow> if PStr k \<in> set xs then Inl ''TypeError'' else Inr None
     | PStr s \<Rightarrow> if contains s k then Inl ''TypeError'' else Inr None
     | _ \<Rightarrow> Inl ''TypeError'')"

definition merge_call :: "tcbuf \<Rightarrow> pyval \<Rightarrow> tcbuf exc" where
  "merge_call buf tc =
     ebind (pget tc ''index'' (PInt 0)) (\<lambda>idx.
     if \<not> hashable idx then Inl ''TypeError''
     else
       (let entry = (case map_of buf idx of Some e \<Rightarrow> e | None \<Rightarrow> new_entry) in
        ebind (pget tc ''id'' PNone) (\<lambda>i.
        (let entry = (if truthy i then entry\<lparr>te_id := i\<rparr> else entry) in
         ebind (phas tc ''function'') (\<lambda>f.
         case f of
           None \<Rightarrow> Inr (AList.update idx entry buf)
         | Some fn \<Rightarrow>
             ebind (phas fn ''name'') (\<lambda>n.
             (let entry = (case n of Some v \<Rightarrow> if truthy v then entry\<lparr>te_name := v\<rparr> else entry | None \<Rightarrow> entry) in
              ebind (phas fn ''arguments'') (\<lambda>a.
              case a of
                None \<Rightarrow> Inr (AList.update idx entry buf)
              | Some (PStr s) \<Rightarrow> Inr (AList.update idx (entry\<lparr>te_arguments := te_arguments entry @ s\<rparr>) buf)
              | Some v \<Rightarrow> Inl ''TypeError''))))))))"

record merge_state =
  me_parts :: "pyval list"
  me_calls :: tcbuf
  me_finish :: pyval
  me_usage :: pyval

definition merge_event :: "merge_state \<Rightarrow> sse_event \<Rightarrow> merge_state exc" where
  "merge_event st ev =
     ebind (phas (sv_delta ev) ''content'') (\<lambda>content.
     (let st = (case content of Some c \<Rightarrow> if truthy c then st\<lparr>me_parts := me_parts st @ [c]\<rparr> else st | None \<Rightarrow> st) in
      ebind (pget (sv_delta ev) ''tool_calls'' (PList [])) (\<lambda>raw.
      ebind (py_items raw) (\<lambda>tcs.
      ebind (foldE merge_call (me_calls st) tcs) (\<lambda>buf.
        Inr (st\<lparr>me_calls := buf,
                me_finish := (if truthy (sv_finish ev) then sv_finish ev else me_finish st),
                me_usage := (if truthy (sv_usage ev) then sv_usage ev else me_usage st)\<rparr>))))))"

definition merged_call :: "(string \<Rightarrow> string) \<Rightarrow> call_buffer \<Rightarrow> model_call" where
  "merged_call fr t =
     \<lparr>ca_id = te_id t, ca_name = te_name t,
      ca_arguments = (if te_arguments t = [] then PDict []
                      else case loads fr (te_arguments t) of Some v \<Rightarrow> v | None \<Rightarrow> PDict [(''_raw'', PStr (te_arguments t))])\<rparr>"

definition mergeSseDeltas :: "(string \<Rightarrow> string) \<Rightarrow> sse_event list \<Rightarrow> LLMResponse exc" where
  "mergeSseDeltas fr events =
     ebind (foldE merge_event \<lparr>me_parts = [], me_calls = [], me_finish = PStr ''stop'', me_usage = PDict []\<rparr> events) (\<lambda>st.
     ebind (join_texts (me_parts st)) (\<lambda>t.
     ebind (sorted_keys (map fst (me_calls st))) (\<lambda>ks.
       Inr \<lparr>re_content = (if t = [] then PNone else PStr t),
            re_tool_calls = map (merged_call fr) (filter (\<lambda>e. truthy (te_id e) \<and> truthy (te_name e))
                              (List.map_filter (map_of (me_calls st)) ks)),
            re_finish_reason = me_finish st, re_usage = me_usage st\<rparr>)))"

section \<open>The factory\<close>

record AgentConfig =
  ag_llm_provider :: string
  ag_llm_endpoint :: string
  ag_llm_model :: string
  ag_llm_api_key :: string
  ag_llm_max_tokens :: int
  ag_llm_temperature :: string
  ag_llm_retry_count :: int
  ag_llm_retry_delay :: rat

datatype created = MockProvider | AnthropicProvider provider | OpenAIProvider provider

definition PROVIDER_DEFAULTS :: "(string \<times> string \<times> string) list" where
  "PROVIDER_DEFAULTS =
     [(''deepseek'', ''https://api.deepseek.com/anthropic'', ''deepseek-v4-pro''),
      (''qwen'', ''https://dashscope.aliyuncs.com/compatible-mode/v1'', ''qwen-plus''),
      (''openai_compat'', [], ''deepseek-chat'')]"

definition new_provider :: "AgentConfig \<Rightarrow> string \<Rightarrow> string \<Rightarrow> provider" where
  "new_provider c endpoint model =
     \<lparr>pv_endpoint = rstrip_chars ''/'' endpoint, pv_apiKey = ag_llm_api_key c, pv_model = model,
      pv_maxTokens = ag_llm_max_tokens c, pv_temperature = ag_llm_temperature c,
      pv_retryCount = ag_llm_retry_count c, pv_retryDelay = ag_llm_retry_delay c, pv_tools = None\<rparr>"

definition createProvider :: "AgentConfig \<Rightarrow> created exc" where
  "createProvider c =
     (let providerType = lower (if ag_llm_provider c = [] then ''openai_compat'' else ag_llm_provider c) in
      if providerType = ''mock'' \<or> ag_llm_api_key c = [] then Inr MockProvider
      else
        (let (d_endpoint, d_model) = (case map_of PROVIDER_DEFAULTS providerType of Some d \<Rightarrow> d | None \<Rightarrow> ([], ''deepseek-chat''));
             endpoint = (if ag_llm_endpoint c = [] then d_endpoint else ag_llm_endpoint c);
             model = (if ag_llm_model c = [] then d_model else ag_llm_model c) in
         if endpoint = [] then Inl ''ValueError''
         else if contains endpoint ''/anthropic'' then Inr (AnthropicProvider (new_provider c endpoint model))
         else Inr (OpenAIProvider (new_provider c endpoint model))))"

section \<open>Lemmas\<close>

lemma ebind_simps [simp]: "ebind (Inr x) f = f x" "ebind (Inl e) f = Inl e"
  by (simp_all add: ebind_def)

lemma ebind_Inr_iff: "ebind m f = Inr y \<longleftrightarrow> (\<exists>x. m = Inr x \<and> f x = Inr y)"
  by (simp add: ebind_def split: sum.splits)

lemma pget_dict [simp]: "pget (PDict kvs) k d = Inr (dget_or kvs k d)"
  by (simp add: pget_def)

lemma mapE_Inr: "(\<And>x. x \<in> set xs \<Longrightarrow> f x = Inr (g x)) \<Longrightarrow> mapE f xs = Inr (map g xs)"
  by (induction xs) auto

lemma mapE_InrD: "mapE f xs = Inr ys \<Longrightarrow> list_all2 (\<lambda>x y. f x = Inr y) xs ys"
  by (induction xs arbitrary: ys) (auto simp: ebind_Inr_iff)

lemma foldE_Inr: "(\<And>s x. x \<in> set xs \<Longrightarrow> f s x = Inr (g s x)) \<Longrightarrow> foldE f s xs = Inr (foldl g s xs)"
  by (induction xs arbitrary: s) auto

subsection \<open>Fragments of tool calls\<close>

record fragment =
  fg_index :: nat
  fg_id :: string
  fg_name :: string
  fg_arguments :: string

abbreviation fg_key :: "fragment \<Rightarrow> pyval" where
  "fg_key f \<equiv> PInt (int (fg_index f))"

definition frag_val :: "fragment \<Rightarrow> pyval" where
  "frag_val f = PDict [(''index'', fg_key f), (''id'', PStr (fg_id f)),
     (''function'', PDict [(''name'', PStr (fg_name f)), (''arguments'', PStr (fg_arguments f))])]"

definition extend :: "call_buffer \<Rightarrow> fragment \<Rightarrow> call_buffer" where
  "extend e f = \<lparr>te_id = (if fg_id f = [] then te_id e else PStr (fg_id f)),
     te_name = (if fg_name f = [] then te_name e else PStr (fg_name f)), te_arguments = te_arguments e @ fg_arguments f\<rparr>"

definition add_fragment :: "tcbuf \<Rightarrow> fragment \<Rightarrow> tcbuf" where
  "add_fragment buf f = AList.update (fg_key f) (extend (case map_of buf (fg_key f) of Some e \<Rightarrow> e | None \<Rightarrow> new_entry) f) buf"

lemma oa_add_call_fragment: "oa_add_call buf (frag_val f) = Inr (add_fragment buf f)"
proof -
  obtain e where "(case map_of buf (fg_key f) of Some e \<Rightarrow> e | None \<Rightarrow> new_entry) = e" by blast
  then show ?thesis
    by (cases e) (simp add: oa_add_call_def frag_val_def dget_or_def hashable_def Let_def py_or_def add_fragment_def extend_def)
qed

lemma fragments_added: "foldE oa_add_call buf (map frag_val fs) = Inr (foldl add_fragment buf fs)"
  by (induction fs arbitrary: buf) (simp_all add: oa_add_call_fragment)

lemma map_of_fragments:
  "map_of (foldl add_fragment [] fs) k =
     (if \<exists>f\<in>set fs. fg_key f = k then Some (foldl extend new_entry (filter (\<lambda>f. fg_key f = k) fs)) else None)"
proof (induction fs rule: rev_induct)
  case (snoc f fs)
  then show ?case by (auto simp: add_fragment_def update_conv)
qed simp

lemma fragment_keys:
  "set (map fst (foldl add_fragment [] fs)) = fg_key ` set fs" "distinct (map fst (foldl add_fragment [] fs))"
proof (induction fs rule: rev_induct)
  case (snoc f fs)
  { case 1 show ?case using snoc(1) by (auto simp: add_fragment_def update_keys) }
  { case 2 show ?case using snoc(2) by (simp add: add_fragment_def distinct_update) }
qed simp_all

text \<open>The last text that is not empty.\<close>

definition last_text :: "string list \<Rightarrow> string" where
  "last_text ts = (let us = filter (\<lambda>t. t \<noteq> []) ts in if us = [] then [] else last us)"

lemma last_text_snoc: "last_text (ts @ [t]) = (if t = [] then last_text ts else t)"
  by (simp add: last_text_def Let_def)

lemma extend_fragments:
  "foldl extend new_entry fs = \<lparr>te_id = PStr (last_text (map fg_id fs)), te_name = PStr (last_text (map fg_name fs)),
     te_arguments = concat (map fg_arguments fs)\<rparr>"
  by (induction fs rule: rev_induct) (simp_all add: new_entry_def extend_def last_text_snoc, simp add: last_text_def)

lemma sorted_int_keys:
  assumes "distinct ks" "set ks = (\<lambda>i. PInt (int i)) ` {0..<n}"
  shows "sorted_keys ks = Inr (map (\<lambda>i. PInt (int i)) [0..<n])"
proof -
  let ?v = "\<lambda>k. the (pint k)"
  have len: "length ks = n" using assms card_image [of "\<lambda>i. PInt (int i)" "{0..<n}"] by (simp add: distinct_card [symmetric] inj_on_def)
  have "distinct (map ?v ks)" using assms by (auto simp: distinct_map inj_on_def)
  have "sort_key ?v ks = map (\<lambda>i. PInt (int i)) [0..<n]"
  proof -
    have "map ?v (sort_key ?v ks) = map int [0..<n]"
    proof (rule sorted_distinct_set_unique)
      show "distinct (map ?v (sort_key ?v ks))" using \<open>distinct (map ?v ks)\<close> by (simp add: distinct_map)
      show "set (map ?v (sort_key ?v ks)) = set (map int [0..<n])" using assms(2) by (auto simp: image_image)
      show "sorted (map int [0..<n])" by (simp add: sorted_map)
    qed (simp_all add: distinct_map)
    moreover have "map (\<lambda>i. PInt i) (map ?v (sort_key ?v ks)) = sort_key ?v ks"
    proof -
      have "map (\<lambda>k. PInt (?v k)) (sort_key ?v ks) = map (\<lambda>k. k) (sort_key ?v ks)"
        using assms(2) by (intro map_cong) auto
      then show ?thesis by (simp add: comp_def)
    qed
    ultimately show ?thesis by (metis (no_types, lifting) map_map comp_apply map_eq_conv)
  qed
  moreover have "ks = map (\<lambda>i. PInt (int i)) [0..<n]" if "n \<le> 1"
    using assms len that by (cases ks) (auto simp: le_Suc_eq)
  moreover have "list_all (\<lambda>k. pint k \<noteq> None) ks" using assms(2) by (auto simp: list_all_iff)
  ultimately show ?thesis using len by (auto simp: sorted_keys_def)
qed

subsection \<open>A stream and the reply it is cut from\<close>

text \<open>What a delta of a stream holds: a text, or fragments of tool calls.\<close>

datatype part = Text string | Calls "fragment list"

definition choice_val :: "pyval \<Rightarrow> pyval \<Rightarrow> pyval" where
  "choice_val delta finish = PDict [(''choices'', PList [PDict [(''delta'', delta), (''finish_reason'', finish)]])]"

fun part_val :: "part \<Rightarrow> pyval" where
  "part_val (Text t) = choice_val (PDict [(''content'', PStr t)]) PNone"
| "part_val (Calls fs) = choice_val (PDict [(''tool_calls'', PList (map frag_val fs))]) PNone"

definition data_line :: "pyval \<Rightarrow> string" where
  "data_line v = ''data: '' @ dumps True '', '' '': '' v @ [CHR 0x0A]"

fun part_text :: "part \<Rightarrow> string" where
  "part_text (Text t) = t"
| "part_text (Calls fs) = []"

fun part_fragments :: "part \<Rightarrow> fragment list" where
  "part_fragments (Text t) = []"
| "part_fragments (Calls fs) = fs"

definition part_ok :: "part \<Rightarrow> bool" where
  "part_ok p \<longleftrightarrow> (case p of Text t \<Rightarrow> t \<noteq> [] | Calls fs \<Rightarrow> fs \<noteq> [])"

definition stream_lines :: "part list \<Rightarrow> string list" where
  "stream_lines parts = map (\<lambda>p. data_line (part_val p)) parts @ [data_line (choice_val (PDict []) (PStr ''tool_calls'')), ''data: [DONE]'']"

text \<open>A call as the model means it, and the complete reply with texts and calls.\<close>

record whole_call =
  wc_id :: string
  wc_name :: string
  wc_arguments :: string

definition whole_val :: "whole_call \<Rightarrow> pyval" where
  "whole_val c = PDict [(''id'', PStr (wc_id c)), (''function'', PDict [(''name'', PStr (wc_name c)), (''arguments'', PStr (wc_arguments c))])]"

definition reply_val :: "string \<Rightarrow> whole_call list \<Rightarrow> pyval" where
  "reply_val t cs = PDict [(''choices'', PList [PDict [(''message'', PDict [(''content'', PStr t), (''tool_calls'', PList (map whole_val cs))]),
     (''finish_reason'', PStr ''tool_calls'')]])]"

definition whole_call_of :: "(string \<Rightarrow> string) \<Rightarrow> whole_call \<Rightarrow> model_call" where
  "whole_call_of fr c = \<lparr>ca_id = PStr (wc_id c), ca_name = PStr (wc_name c), ca_arguments = parsed_arguments fr (wc_arguments c)\<rparr>"

text \<open>The fragments are pieces of the calls: for every call the pieces of its arguments in order, its id and its name.\<close>

definition cut_from :: "fragment list \<Rightarrow> whole_call list \<Rightarrow> bool" where
  "cut_from fs cs \<longleftrightarrow> list_all (\<lambda>f. fg_index f < length cs) fs \<and>
     list_all (\<lambda>i. let gs = filter (\<lambda>f. fg_index f = i) fs; c = cs ! i in
        gs \<noteq> [] \<and> last_text (map fg_id gs) = wc_id c \<and> last_text (map fg_name gs) = wc_name c \<and>
        concat (map fg_arguments gs) = wc_arguments c) [0..<length cs]"

lemma strip_data_line:
  "strip (data_line (PDict kvs)) = ''data: '' @ dumps True '', '' '': '' (PDict kvs)"
  "strip (drop (length ''data:'') (''data: '' @ dumps True '', '' '': '' (PDict kvs))) = dumps True '', '' '': '' (PDict kvs)"
proof -
  let ?d = "dumps True '', '' '': '' (PDict kvs)"
  have d: "hd ?d = CHR ''{''" "last ?d = CHR ''}''" "?d \<noteq> []" by simp_all
  have sp: "\<not> is_space CHR ''d''" "\<not> is_space CHR ''{''" "\<not> is_space CHR ''}''" "is_space CHR '' ''" "is_space CHR 0x0A"
    by (simp_all add: is_space_def char_code_def)
  show "strip (data_line (PDict kvs)) = ''data: '' @ ?d"
    using strip_line [of "''data: '' @ ?d" "[]" "[CHR 0x0A]"] d sp by (simp add: data_line_def)
  show "strip (drop (length ''data:'') (''data: '' @ ?d)) = ?d"
    using strip_line [of ?d "'' ''" "[]"] d sp by simp
qed

lemma runner_data_line:
  "oa_runner (data_line (PDict kvs) # ls) fin = QItem (dumps True '', '' '': '' (PDict kvs)) # oa_runner ls fin"
  using strip_data_line [of kvs] by (simp add: Let_def startswith_def)

lemma wf_part_val: "wf_json fr (part_val p)" "wf_json fr (choice_val (PDict []) (PStr r))"
  by (cases p) (auto simp: choice_val_def frag_val_def list_all_iff)

lemma loads_default [simp]: "wf_json fr v \<Longrightarrow> loads fr (dumps True '', '' '': '' v) = Some v"
  by (rule loads_dumps) simp_all

definition text_reply :: "string \<Rightarrow> LLMResponse" where
  "text_reply t = \<lparr>re_content = PStr t, re_tool_calls = [], re_finish_reason = PStr [], re_usage = PDict []\<rparr>"

lemma consume_text:
  assumes "t \<noteq> []"
  shows "oa_consume fr buf (QItem (dumps True '', '' '': '' (part_val (Text t))) # q) = yields (text_reply t) (oa_consume fr buf q)"
  using assms loads_default [OF wf_part_val(1), of fr "Text t"]
  by (simp add: oa_parseStreamChunk_def choice_val_def dget_or_def py_or_def text_reply_def del: loads_default)

lemma consume_calls:
  assumes "fs \<noteq> []"
  shows "oa_consume fr buf (QItem (dumps True '', '' '': '' (part_val (Calls fs))) # q) = oa_consume fr (foldl add_fragment buf fs) q"
proof -
  obtain g gs where "fs = g # gs" using assms by (cases fs) auto
  then show ?thesis
    using loads_default [OF wf_part_val(1), of fr "Calls fs"] fragments_added [of buf fs]
    by (simp add: oa_parseStreamChunk_def choice_val_def dget_or_def py_or_def del: loads_default foldl.simps foldE.simps)
qed

lemma consume_parts:
  assumes "list_all part_ok parts"
  shows "oa_consume fr buf (map (\<lambda>p. QItem (dumps True '', '' '': '' (part_val p))) parts @ q) =
    (case oa_consume fr (foldl add_fragment buf (concat (map part_fragments parts))) q of
       (rs, e) \<Rightarrow> (map text_reply (filter (\<lambda>t. t \<noteq> []) (map part_text parts)) @ rs, e))"
  using assms
proof (induction parts arbitrary: buf)
  case (Cons p parts)
  show ?case
  proof (cases p)
    case (Text t)
    then show ?thesis
      using Cons consume_text [of t] by (simp add: part_ok_def yields_def split: prod.splits del: part_val.simps oa_consume.simps)
  next
    case (Calls fs)
    then show ?thesis
      using Cons consume_calls [of fs] by (simp add: part_ok_def split: prod.splits del: part_val.simps oa_consume.simps)
  qed
qed simp

lemma runner_stream:
  "oa_runner (stream_lines parts) fin =
     map (\<lambda>p. QItem (dumps True '', '' '': '' (part_val p))) parts @ [QItem (dumps True '', '' '': '' (choice_val (PDict []) (PStr ''tool_calls'')))]"
proof -
  have d: "\<exists>kvs. part_val p = PDict kvs" for p by (cases p) (simp_all add: choice_val_def)
  have l: "oa_runner (data_line (part_val p) # ls) fin = QItem (dumps True '', '' '': '' (part_val p)) # oa_runner ls fin" for p ls
    using d [of p] runner_data_line by metis
  have e: "oa_runner [data_line (choice_val (PDict []) (PStr ''tool_calls'')), ''data: [DONE]''] fin =
     [QItem (dumps True '', '' '': '' (choice_val (PDict []) (PStr ''tool_calls'')))]"
    unfolding choice_val_def runner_data_line
    by (simp add: strip_def rdropWhile_def is_space_def char_code_def startswith_def Let_def)
  show ?thesis unfolding stream_lines_def
    by (induction parts) (simp_all only: list.map append.simps e l)
qed

lemma cut_calls:
  assumes "cut_from fs cs"
  shows "oa_stream_calls fr (foldl add_fragment [] fs) = Inr (map (whole_call_of fr) cs)"
proof -
  let ?b = "foldl add_fragment [] fs"
  have idx: "fg_index ` set fs = {0..<length cs}"
  proof
    show "fg_index ` set fs \<subseteq> {0..<length cs}" using assms by (auto simp: cut_from_def list_all_iff)
    show "{0..<length cs} \<subseteq> fg_index ` set fs"
    proof
      fix i assume "i \<in> {0..<length cs}"
      then have "filter (\<lambda>f. fg_index f = i) fs \<noteq> []" using assms by (simp add: cut_from_def list_all_iff Let_def)
      then show "i \<in> fg_index ` set fs" by (auto simp: filter_empty_conv)
    qed
  qed
  have "set (map fst ?b) = (\<lambda>i. PInt (int i)) ` {0..<length cs}"
    unfolding fragment_keys idx [symmetric] by (simp add: image_image)
  then have k: "sorted_keys (map fst ?b) = Inr (map (\<lambda>i. PInt (int i)) [0..<length cs])"
    by (rule sorted_int_keys [OF fragment_keys(2)])
  have "oa_stream_call fr ?b (PInt (int i)) = whole_call_of fr (cs ! i)" if "i < length cs" for i
  proof -
    have "\<exists>f\<in>set fs. fg_index f = i" using idx that by (metis atLeastLessThan_iff imageE zero_le)
    then show ?thesis
      using assms that
      by (simp add: oa_stream_call_def map_of_fragments extend_fragments whole_call_of_def cut_from_def list_all_iff Let_def)
  qed
  then show ?thesis
    unfolding oa_stream_calls_def k by (auto intro!: nth_equalityI)
qed

lemma chat_whole: "oa_parseResponse fr (dumps True '', '' '': '' (reply_val t cs)) =
  Inr \<lparr>re_content = PStr t, re_tool_calls = map (whole_call_of fr) cs, re_finish_reason = PStr ''tool_calls'', re_usage = PDict []\<rparr>"
proof -
  have "oa_call fr (whole_val c) = Inr (whole_call_of fr c)" for c
    by (simp add: oa_call_def whole_val_def dget_or_def py_loads_def whole_call_of_def parsed_arguments_def)
  then have m: "mapE (oa_call fr) (map whole_val cs) = Inr (map (whole_call_of fr) cs)"
    by (induction cs) simp_all
  have "wf_json fr (reply_val t cs)" by (auto simp: reply_val_def whole_val_def list_all_iff)
  then have l: "loads fr (dumps True '', '' '': '' (reply_val t cs)) = Some (reply_val t cs)" by (rule loads_default)
  have i: "py_items (py_or (PList xs) (PList [])) = Inr xs" for xs by (simp add: py_items_def py_or_def)
  show ?thesis
    unfolding oa_parseResponse_def l by (simp add: oa_reply_def reply_val_def dget_or_def index0_def i m py_result_def)
qed

subsection \<open>Retries\<close>

text \<open>An outcome that ends the attempts, and the result it gives.\<close>

definition decides :: "http_outcome \<Rightarrow> bool" where
  "decides out \<longleftrightarrow> (case out of HBody s \<Rightarrow> True | HRaise c t \<Rightarrow> True | _ \<Rightarrow> fatal out)"

definition decision :: "(http_outcome \<Rightarrow> AgentError) \<Rightarrow> http_outcome \<Rightarrow> prov_exn + string" where
  "decision wrap out = (case out of HBody s \<Rightarrow> Inr s | HRaise c t \<Rightarrow> Inl (PyExn c) | _ \<Rightarrow> Inl (AgentExn (wrap out)))"

lemma retry_loop_Suc:
  "retry_loop wrap post delay k (Suc left) e =
     (if decides (post k) then (decision wrap (post k), [])
      else case retry_loop wrap post delay (Suc k) left (Some (wrap (post k))) of
             (r, pauses) \<Rightarrow> (r, if left = 0 then pauses else delay * 2 ^ k # pauses))"
  by (cases "post k") (auto simp: decides_def decision_def fatal_def)

declare retry_loop.simps(2) [simp del]

lemma retry_loop_spec:
  "\<exists>k\<le>n. (\<forall>j<k. \<not> decides (post (i + j))) \<and> (decides (post (i + k)) \<or> k = n) \<and>
     retry_loop wrap post delay i (Suc n) e = (decision wrap (post (i + k)), map (\<lambda>j. delay * 2 ^ (i + j)) [0..<k])"
proof (induction n arbitrary: i e)
  case 0
  show ?case
    by (rule exI [of _ 0]) (cases "post i"; auto simp: retry_loop_Suc decides_def decision_def)
next
  case (Suc n)
  show ?case
  proof (cases "decides (post i)")
    case True
    then show ?thesis by (intro exI [of _ 0]) (simp add: retry_loop_Suc)
  next
    case False
    obtain k where k: "k \<le> n" "\<forall>j<k. \<not> decides (post (Suc i + j))" "decides (post (Suc i + k)) \<or> k = n"
      "retry_loop wrap post delay (Suc i) (Suc n) (Some (wrap (post i))) =
        (decision wrap (post (Suc i + k)), map (\<lambda>j. delay * 2 ^ (Suc i + j)) [0..<k])"
      using Suc by blast
    have "\<forall>j<Suc k. \<not> decides (post (i + j))" using False k(2) by (metis add_Suc_right add_Suc less_Suc_eq_0_disj add_0_right)
    moreover have "map (\<lambda>j. delay * 2 ^ (i + j)) [0..<Suc k] = delay * 2 ^ i # map (\<lambda>j. delay * 2 ^ (Suc i + j)) [0..<k]"
      by (simp add: upt_conv_Cons map_Suc_upt [symmetric] del: upt_Suc)
    ultimately show ?thesis
      using False k by (intro exI [of _ "Suc k"]) (simp add: retry_loop_Suc [of _ _ _ i "Suc n"] del: upt_Suc)
  qed
qed

text \<open>
  The contract of the two error mappings, and what it means for a request that was given up.
\<close>

locale error_mapping =
  fixes wrap :: "http_outcome \<Rightarrow> AgentError"
  assumes limited: "ae_code (wrap (HError s t)) = (if s = 429 then LLM_RATE_LIMITED else LLM_CONNECTION_FAILED)"
    and timed_out: "ae_code (wrap HTimeout) = TIMEOUT"
    and unreachable: "ae_code (wrap (HUnreachable t)) = LLM_CONNECTION_FAILED"
    and no_key: "s = 401 \<Longrightarrow> ae_body (wrap (HError s t)) = None"
    and short_body: "ae_body (wrap (HError s t)) = Some b \<Longrightarrow> length b \<le> 500"
begin

lemma given_up:
  assumes "decision wrap out = Inl (AgentExn e)"
  shows "(ae_code e = LLM_RATE_LIMITED \<longleftrightarrow> (\<exists>t. out = HError 429 t)) \<and> (ae_code e = TIMEOUT \<longleftrightarrow> out = HTimeout)"
  using assms limited timed_out unreachable by (cases out) (auto simp: decision_def split: if_splits)

lemma retries:
  assumes "retry_loop wrap post delay 0 (nat (int n + 1)) None = (r, pauses)"
  shows "\<exists>k\<le>n. (\<forall>j<k. \<not> decides (post j)) \<and> (decides (post k) \<or> k = n) \<and> r = decision wrap (post k) \<and>
    pauses = map (\<lambda>j. delay * 2 ^ j) [0..<k] \<and>
    (\<forall>e. r = Inl (AgentExn e) \<longrightarrow> (ae_code e = LLM_RATE_LIMITED \<longleftrightarrow> (\<exists>t. post k = HError 429 t)) \<and> (ae_code e = TIMEOUT \<longleftrightarrow> post k = HTimeout))"
proof -
  have "nat (int n + 1) = Suc n" by simp
  then show ?thesis using assms retry_loop_spec [of n post 0 wrap delay None] given_up by auto
qed

end

interpretation oa: error_mapping oa_wrapHttpError
  by unfold_locales (auto simp: oa_wrapHttpError_def agent_error_def Let_def split: if_splits)

interpretation an: error_mapping an_wrapHttpError
  by unfold_locales (auto simp: an_wrapHttpError_def agent_error_def Let_def split: if_splits)

subsection \<open>Messages for Anthropic\<close>

text \<open>The tool results and the tool uses of a converted message, and the calls of a message of the agent.\<close>

definition block_field :: "string \<Rightarrow> pyval \<Rightarrow> pyval" where
  "block_field k b = (case b of PDict d \<Rightarrow> dget d k | _ \<Rightarrow> PNone)"

definition blocks_of :: "string \<Rightarrow> pydict \<Rightarrow> pyval list" where
  "blocks_of role m = (if dget m ''role'' = PStr role then (case dget m ''content'' of PList bs \<Rightarrow> bs | _ \<Rightarrow> []) else [])"

definition results_of :: "pydict \<Rightarrow> (pyval \<times> pyval) list" where
  "results_of m = map (\<lambda>b. (block_field ''tool_use_id'' b, block_field ''content'' b)) (blocks_of ''user'' m)"

definition use_fields :: "pyval \<Rightarrow> pyval \<times> pyval \<times> pyval" where
  "use_fields b = (block_field ''id'' b, block_field ''name'' b, block_field ''input'' b)"

definition uses_of :: "pydict \<Rightarrow> (pyval \<times> pyval \<times> pyval) list" where
  "uses_of m = map use_fields (blocks_of ''assistant'' m)"

text \<open>The id, the name and the arguments of a call; arguments written as a JSON text are read.\<close>

definition field_or :: "string \<Rightarrow> pyval \<Rightarrow> pyval \<Rightarrow> pyval" where
  "field_or k d v = (case v of PDict kvs \<Rightarrow> dget_or kvs k d | _ \<Rightarrow> PNone)"

definition call_fields :: "(string \<Rightarrow> string) \<Rightarrow> pyval \<Rightarrow> pyval \<times> pyval \<times> pyval" where
  "call_fields fr tc =
     (let fn = field_or ''function'' (PDict []) tc in
      (field_or ''id'' (PStr []) tc, field_or ''name'' (PStr []) fn,
       (case field_or ''arguments'' (PStr ''{}'') fn of PStr s \<Rightarrow> parsed_arguments fr s | v \<Rightarrow> v)))"

definition calls_of :: "(string \<Rightarrow> string) \<Rightarrow> pydict \<Rightarrow> (pyval \<times> pyval \<times> pyval) list" where
  "calls_of fr m =
     (if dget m ''role'' = PStr ''assistant'' then (case dget m ''tool_calls'' of PList tcs \<Rightarrow> map (call_fields fr) tcs | _ \<Rightarrow> []) else [])"

text \<open>A message whose content is no list of blocks.\<close>

definition plain :: "pydict \<Rightarrow> bool" where
  "plain m \<longleftrightarrow> (case dget m ''content'' of PList bs \<Rightarrow> bs = [] | _ \<Rightarrow> True)"

lemma an_message_get [simp]:
  "dget (an_message r c) ''role'' = r" "dget (an_message r c) ''content'' = c"
  by (simp_all add: an_message_def dget_or_def)

lemma tool_use_fields: "an_tool_use fr tc = Inr b \<Longrightarrow> use_fields b = call_fields fr tc"
  by (auto simp: an_tool_use_def pget_def ebind_Inr_iff use_fields_def call_fields_def field_or_def block_field_def dget_or_def
      parsed_arguments_def Let_def split: pyval.splits)

lemma tool_uses_fields: "mapE (an_tool_use fr) tcs = Inr bs \<Longrightarrow> map use_fields bs = map (call_fields fr) tcs"
  by (induction tcs arbitrary: bs) (auto simp: ebind_Inr_iff tool_use_fields)

lemma text_uses_fail: "mapE (an_tool_use fr) (map (\<lambda>x. PStr (g x)) xs) = Inr bs \<Longrightarrow> xs = []"
  by (cases xs) (auto simp: ebind_Inr_iff an_tool_use_def pget_def)

lemma convertMessage_uses:
  assumes "an_convertMessage fr m = Inr m'" "\<not> is_tool_message m" "plain m"
  shows "uses_of m' = calls_of fr m \<and> results_of m' = [] \<and> blocks_of ''user'' m' = []"
proof (cases "dget m ''role'' = PStr ''assistant'' \<and> truthy (dget m ''tool_calls'')")
  case True
  then have "dget_or m ''role'' (PStr ''user'') = PStr ''assistant''" by (auto simp: dget_or_def split: option.splits)
  with True assms(1) obtain tcs bs where t: "py_items (dget m ''tool_calls'') = Inr tcs" "mapE (an_tool_use fr) tcs = Inr bs"
    "m' = an_message (PStr ''assistant'') (PList bs)"
    by (auto simp: an_convertMessage_def ebind_Inr_iff Let_def)
  have "dget m ''tool_calls'' = PList tcs"
    using t(1,2) True text_uses_fail [of fr fst] text_uses_fail [of fr "\<lambda>c. [c]"]
    by (cases "dget m ''tool_calls''") (auto simp: py_items_def)
  then show ?thesis
    using t True tool_uses_fields [OF t(2)] by (simp add: uses_of_def blocks_of_def calls_of_def results_of_def)
next
  case False
  have "calls_of fr m = []" using False by (auto simp: calls_of_def split: pyval.splits)
  moreover have "m' = an_message (dget_or m ''role'' (PStr ''user'')) (py_or (dget m ''content'') (PStr [])) \<or>
      m' = an_message (PStr ''system'') (py_or (dget m ''content'') (PStr []))"
    using False assms(1) by (auto simp: an_convertMessage_def Let_def dget_or_def split: if_splits option.splits)
  moreover have "py_or (dget m ''content'') (PStr []) \<noteq> PList bs" for bs
    using assms(3) by (auto simp: py_or_def plain_def)
  then have "(case py_or (dget m ''content'') (PStr []) of PList bs \<Rightarrow> bs | _ \<Rightarrow> []) = []"
    by (cases "py_or (dget m ''content'') (PStr [])") auto
  ultimately show ?thesis by (auto simp: uses_of_def results_of_def blocks_of_def)
qed

definition answer_of :: "pydict \<Rightarrow> pyval \<times> pyval" where
  "answer_of m = (dget_or m ''tool_call_id'' (PStr []), dget_or m ''content'' (PStr []))"

lemma tool_results: "map (\<lambda>b. (block_field ''tool_use_id'' b, block_field ''content'' b)) (map an_tool_result ms) = map answer_of ms"
  by (simp add: an_tool_result_def block_field_def answer_of_def dget_or_def)

lemma tool_calls_none: "is_tool_message m \<Longrightarrow> calls_of fr m = []"
  by (simp add: calls_of_def is_tool_message_def)

text \<open>No two neighbours hold tool results.\<close>

definition apart :: "pydict list \<Rightarrow> bool" where
  "apart out \<longleftrightarrow> successively (\<lambda>a b. blocks_of ''user'' a = [] \<or> blocks_of ''user'' b = []) out"

lemma conversion_run:
  assumes "an_convertMessages fr ms = Inr out" "list_all (\<lambda>m. is_tool_message m \<or> plain m) ms"
  shows "concat (map results_of out) = map answer_of (filter is_tool_message ms) \<and>
    concat (map uses_of out) = concat (map (calls_of fr) ms) \<and> apart out \<and>
    (out \<noteq> [] \<longrightarrow> \<not> is_tool_message (hd ms) \<longrightarrow> blocks_of ''user'' (hd out) = [])"
  using assms
proof (induction fr ms arbitrary: out rule: an_convertMessages.induct)
  case (2 fr m ms)
  show ?case
  proof (cases "is_tool_message m")
    case True
    let ?rest = "dropWhile is_tool_message ms"
    obtain rest where r: "an_convertMessages fr ?rest = Inr rest"
      "out = an_message (PStr ''user'') (PList (map an_tool_result (m # takeWhile is_tool_message ms))) # rest"
      using True "2.prems"(1) by (auto simp: ebind_Inr_iff)
    have "list_all (\<lambda>m. is_tool_message m \<or> plain m) ?rest" using "2.prems"(2) by (auto simp: list_all_iff dest: set_dropWhileD)
    from 2(1) [OF True r(1) this] have IH: "concat (map results_of rest) = map answer_of (filter is_tool_message ?rest)"
      "concat (map uses_of rest) = concat (map (calls_of fr) ?rest)" "apart rest"
      "rest \<noteq> [] \<longrightarrow> \<not> is_tool_message (hd ?rest) \<longrightarrow> blocks_of ''user'' (hd rest) = []" by blast+
    have ms: "ms = takeWhile is_tool_message ms @ ?rest" by simp
    have f: "filter is_tool_message ms = takeWhile is_tool_message ms @ filter is_tool_message ?rest"
      by (subst ms, subst filter_append) (auto simp: filter_id_conv dest: set_takeWhileD)
    have c: "concat (map (calls_of fr) ms) = concat (map (calls_of fr) ?rest)"
      by (subst ms, subst map_append) (auto simp: tool_calls_none dest: set_takeWhileD)
    have "rest \<noteq> [] \<longrightarrow> blocks_of ''user'' (hd rest) = []"
    proof
      assume "rest \<noteq> []"
      then have "?rest \<noteq> []" using r(1) by (metis an_convertMessages.simps(1) sum.inject(2))
      then show "blocks_of ''user'' (hd rest) = []" using IH \<open>rest \<noteq> []\<close> hd_dropWhile by blast
    qed
    then have "apart out" using IH unfolding r(2) by (cases rest) (auto simp: apart_def)
    moreover have "results_of (hd out) = map answer_of (m # takeWhile is_tool_message ms)" "uses_of (hd out) = []"
      unfolding r(2) using tool_results [of "m # takeWhile is_tool_message ms"] by (simp_all add: results_of_def uses_of_def blocks_of_def)
    ultimately show ?thesis using True IH f c tool_calls_none [OF True] unfolding r(2) by simp
  next
    case False
    obtain m' rest where r: "an_convertMessage fr m = Inr m'" "an_convertMessages fr ms = Inr rest" "out = m' # rest"
      using False "2.prems"(1) by (auto simp: ebind_Inr_iff)
    have "plain m" "list_all (\<lambda>m. is_tool_message m \<or> plain m) ms" using "2.prems"(2) False by simp_all
    then have c: "uses_of m' = calls_of fr m \<and> results_of m' = [] \<and> blocks_of ''user'' m' = []"
      and IH: "concat (map results_of rest) = map answer_of (filter is_tool_message ms)"
      "concat (map uses_of rest) = concat (map (calls_of fr) ms)" "apart rest"
      using convertMessage_uses [OF r(1) False] 2(2) [OF False r(2)] by blast+
    have "apart out" using IH c unfolding r(3) by (cases rest) (auto simp: apart_def)
    then show ?thesis using False IH c unfolding r(3) by simp
  qed
qed (simp add: apart_def)

section \<open>Properties\<close>

text \<open>
  C21. Streams of the OpenAI protocol.  A reply with at least one tool call is cut into deltas, each with a piece of text or with
  fragments of calls (fragments of different calls may be mixed, a call may be cut anywhere in its arguments), and a
  last chunk of its own has the finish reason \<open>tool_calls\<close>.  Then the stream gives the agent the same texts and the same calls, with
  the same arguments, as the complete reply.  Other streams lose calls: \<open>finish_with_calls_lost\<close>, \<open>unfinished_calls_lost\<close>
  and, for Anthropic, \<open>streamed_arguments_dropped\<close>.
\<close>

theorem stream_equals_chat:
  assumes "list_all part_ok parts" "cut_from (concat (map part_fragments parts)) cs" "cs \<noteq> []"
  shows "\<exists>rs r. oa_chatStream fr (stream_lines parts) fin = (rs, None) \<and>
    oa_parseResponse fr (dumps True '', '' '': '' (reply_val (concat (map part_text parts)) cs)) = Inr r \<and>
    concat (map re_tool_calls rs) = re_tool_calls r \<and>
    PStr (concat (map (\<lambda>x. case re_content x of PStr t \<Rightarrow> t | _ \<Rightarrow> []) rs)) = re_content r"
proof -
  let ?b = "foldl add_fragment [] (concat (map part_fragments parts))"
  let ?texts = "filter (\<lambda>t. t \<noteq> []) (map part_text parts)"
  let ?closing = "\<lparr>re_content = PNone, re_tool_calls = map (whole_call_of fr) cs, re_finish_reason = PStr ''tool_calls'', re_usage = PDict []\<rparr>"
  have b: "?b \<noteq> []" using cut_calls [OF assms(2), of fr] assms(3) by (auto simp: oa_stream_calls_def sorted_keys_def)
  have "oa_consume fr ?b [QItem (dumps True '', '' '': '' (choice_val (PDict []) (PStr ''tool_calls'')))] = ([?closing, final_reply], None)"
    using b cut_calls [OF assms(2), of fr] loads_default [OF wf_part_val(2), of fr "''tool_calls''"]
    by (simp add: oa_parseStreamChunk_def choice_val_def dget_or_def py_or_def yields_def del: loads_default)
  then have s: "oa_chatStream fr (stream_lines parts) fin = (map text_reply ?texts @ [?closing, final_reply], None)"
    unfolding oa_chatStream_def runner_stream consume_parts [OF assms(1)] by simp
  have "concat ?texts = concat (map part_text parts)" by (induction parts) auto
  moreover have "concat (map (\<lambda>x. case re_content x of PStr t \<Rightarrow> t | _ \<Rightarrow> []) (map text_reply ts)) = concat ts"
    "concat (map re_tool_calls (map text_reply ts)) = []" for ts
    by (induction ts) (simp_all add: text_reply_def)
  ultimately show ?thesis unfolding s chat_whole by (simp add: final_reply_def text_reply_def)
qed

text \<open>
  C40. Retries.  A request is tried at most \<open>retryCount + 1\<close> times: the attempts go on until one gives a
  body, a client error other than 429 or an exception of another kind; the pauses between them
  double; and when the last one fails too, its error is raised, as a rate limit exactly for a
  429 and as a timeout exactly for a timeout.
\<close>

theorem retries_bounded:
  assumes "pv_retryCount p = int n" "oa_postWithRetry p post = (r, pauses)"
  shows "\<exists>k\<le>n. (\<forall>j<k. \<not> decides (post j)) \<and> (decides (post k) \<or> k = n) \<and> r = decision oa_wrapHttpError (post k) \<and>
    pauses = map (\<lambda>j. pv_retryDelay p * 2 ^ j) [0..<k] \<and>
    (\<forall>e. r = Inl (AgentExn e) \<longrightarrow> (ae_code e = LLM_RATE_LIMITED \<longleftrightarrow> (\<exists>t. post k = HError 429 t)) \<and> (ae_code e = TIMEOUT \<longleftrightarrow> post k = HTimeout))"
  using oa.retries [of post "pv_retryDelay p" n r pauses] assms by (simp add: oa_postWithRetry_def)

text \<open>
  C22. Messages for Anthropic.  In a conversation whose messages have no lists of blocks as content, as the agent's have,
  the converted messages have the tool answers of the original ones, each with the id of its call and its content and in the same order;
  the same tool calls in the same order, each with its id, its name and its arguments (a JSON text is read, one that is no JSON
  gives \<open>{}\<close>); and all answers of a round in one message: messages with answers are never neighbours.
\<close>

theorem conversion_keeps_answers:
  assumes "an_convertMessages fr ms = Inr out" "list_all (\<lambda>m. is_tool_message m \<or> plain m) ms"
  shows "concat (map results_of out) = map answer_of (filter is_tool_message ms) \<and>
    concat (map uses_of out) = concat (map (calls_of fr) ms) \<and> apart out"
  using conversion_run [OF assms] by blast

text \<open>The request of the OpenAI protocol reaches the server as it was built.\<close>

lemma body_delivered: "wf_json fr (oa_body p messages stream) \<Longrightarrow> loads fr (oa_buildBody p messages stream) = Some (oa_body p messages stream)"
  by (simp add: oa_buildBody_def)

text \<open>The Anthropic stream reads the start of a tool call only: what follows as \<open>input_json_delta\<close> is dropped.\<close>

lemma streamed_arguments_dropped:
  "an_data b \<noteq> [] \<Longrightarrow> loads fr (an_data b) = Some (PDict [(''type'', PStr ''content_block_delta''),
     (''delta'', PDict [(''type'', PStr ''input_json_delta''), (''partial_json'', PStr s)])]) \<Longrightarrow>
   an_consume fr (QItem b # q) = an_consume fr q"
  by (simp add: an_parseStreamEvent_def dget_or_def)

text \<open>The text of an assistant message that also calls tools is not sent to Anthropic.\<close>

lemma text_beside_calls_lost:
  "an_convertMessage fr [(''role'', PStr ''assistant''), (''content'', PStr t), (''tool_calls'', PList [PDict [(''id'', PStr ''c'')]])] =
   Inr (an_message (PStr ''assistant'') (PList [PDict [(''type'', PStr ''tool_use''), (''id'', PStr ''c''), (''name'', PStr []),
     (''input'', parsed_arguments fr ''{}'')]]))"
  by (simp add: an_convertMessage_def dget_or_def py_items_def an_tool_use_def Let_def parsed_arguments_def)

text \<open>Calls that come with their finish reason in one chunk never reach the agent, nor do calls of a stream that ends with \<open>stop\<close>.\<close>

lemma finish_with_calls_lost:
  "oa_parseStreamChunk fr (dumps True '', '' '': '' (choice_val (PDict [(''tool_calls'', PList [frag_val f])]) (PStr ''tool_calls''))) [] =
   Inr (None, Some (add_fragment [] f))"
proof -
  have "wf_json fr (choice_val (PDict [(''tool_calls'', PList [frag_val f])]) (PStr ''tool_calls''))"
    by (simp add: choice_val_def frag_val_def)
  from loads_default [OF this] show ?thesis
    by (simp add: oa_parseStreamChunk_def choice_val_def dget_or_def oa_add_call_fragment del: loads_default)
qed

lemma unfinished_calls_lost: "oa_consume fr buf [] = ([final_reply], None)"
  by simp

subsection \<open>Witnesses\<close>

definition w_parts :: "part list" where
  "w_parts = [Text ''ok'', Calls [\<lparr>fg_index = 1, fg_id = ''b'', fg_name = ''g'', fg_arguments = []\<rparr>],
     Calls [\<lparr>fg_index = 0, fg_id = ''a'', fg_name = ''f'', fg_arguments = ''{''\<rparr>, \<lparr>fg_index = 1, fg_id = [], fg_name = [], fg_arguments = ''{}''\<rparr>],
     Calls [\<lparr>fg_index = 0, fg_id = [], fg_name = [], fg_arguments = ''}''\<rparr>]]"

definition w_calls :: "whole_call list" where
  "w_calls = [\<lparr>wc_id = ''a'', wc_name = ''f'', wc_arguments = ''{}''\<rparr>, \<lparr>wc_id = ''b'', wc_name = ''g'', wc_arguments = ''{}''\<rparr>]"

theorem stream_equals_chat_witness:
  "\<exists>rs r. oa_chatStream (\<lambda>s. s) (stream_lines w_parts) None = (rs, None) \<and>
    oa_parseResponse (\<lambda>s. s) (dumps True '', '' '': '' (reply_val (concat (map part_text w_parts)) w_calls)) = Inr r \<and>
    concat (map re_tool_calls rs) = re_tool_calls r \<and>
    PStr (concat (map (\<lambda>x. case re_content x of PStr t \<Rightarrow> t | _ \<Rightarrow> []) rs)) = re_content r"
  by (rule stream_equals_chat)
     (simp_all add: w_parts_def w_calls_def part_ok_def cut_from_def last_text_def Let_def upt_rec)

definition w_provider :: provider where
  "w_provider = \<lparr>pv_endpoint = ''e'', pv_apiKey = ''k'', pv_model = ''m'', pv_maxTokens = 1, pv_temperature = ''0.7'',
     pv_retryCount = 2, pv_retryDelay = 1, pv_tools = None\<rparr>"

definition w_post :: "nat \<Rightarrow> http_outcome" where
  "w_post j = (if j = 0 then HTimeout else if j = 1 then HError 503 [] else HError 429 [])"

theorem retries_bounded_witness:
  "\<exists>k\<le>2. (\<forall>j<k. \<not> decides (w_post j)) \<and> (decides (w_post k) \<or> k = 2) \<and>
    Inl (AgentExn (oa_wrapHttpError (HError 429 []))) = decision oa_wrapHttpError (w_post k) \<and>
    [1, 2] = map (\<lambda>j. 1 * 2 ^ j :: rat) [0..<k]"
proof -
  have r: "retry_loop oa_wrapHttpError w_post 1 0 (Suc (Suc (Suc 0))) None = (Inl (AgentExn (oa_wrapHttpError (HError 429 []))), [1, 2])"
    by (simp add: retry_loop_Suc decides_def fatal_def w_post_def)
  have n: "nat (pv_retryCount w_provider + 1) = Suc (Suc (Suc 0))" "pv_retryDelay w_provider = 1" "pv_retryCount w_provider = int 2"
    by (simp_all add: w_provider_def)
  have "oa_postWithRetry w_provider w_post = (Inl (AgentExn (oa_wrapHttpError (HError 429 []))), [1, 2])"
    unfolding oa_postWithRetry_def n(1,2) by (rule r)
  from retries_bounded [OF n(3) this, unfolded n(2)] show ?thesis by metis
qed

definition w_call :: "string \<Rightarrow> string \<Rightarrow> pyval \<Rightarrow> pyval" where
  "w_call i n a = PDict [(''id'', PStr i), (''function'', PDict [(''name'', PStr n), (''arguments'', a)])]"

definition w_messages :: "pydict list" where
  "w_messages = [[(''role'', PStr ''assistant''), (''tool_calls'', PList [w_call ''a'' ''f'' (PStr ''{}''), w_call ''b'' ''g'' (PDict [(''x'', PNone)])])],
     [(''role'', PStr ''tool''), (''tool_call_id'', PStr ''a''), (''content'', PStr ''x'')],
     [(''role'', PStr ''tool''), (''tool_call_id'', PStr ''b''), (''content'', PStr ''y'')]]"

lemma w_calls_fields:
  "concat (map (calls_of (\<lambda>s. s)) w_messages) =
     [(PStr ''a'', PStr ''f'', PDict []), (PStr ''b'', PStr ''g'', PDict [(''x'', PNone)])]"
  by code_simp

theorem conversion_keeps_answers_witness:
  "\<exists>out. an_convertMessages (\<lambda>s. s) w_messages = Inr out \<and>
     concat (map results_of out) = [(PStr ''a'', PStr ''x''), (PStr ''b'', PStr ''y'')] \<and>
     concat (map uses_of out) = [(PStr ''a'', PStr ''f'', PDict []), (PStr ''b'', PStr ''g'', PDict [(''x'', PNone)])] \<and> apart out"
proof -
  have "\<exists>out. an_convertMessages (\<lambda>s. s) w_messages = Inr out"
    by (simp add: w_messages_def w_call_def is_tool_message_def dget_or_def an_convertMessage_def py_items_def an_tool_use_def pget_def Let_def)
  then obtain out where o: "an_convertMessages (\<lambda>s. s) w_messages = Inr out" ..
  have "map answer_of (filter is_tool_message w_messages) = [(PStr ''a'', PStr ''x''), (PStr ''b'', PStr ''y'')]"
    "list_all (\<lambda>m. is_tool_message m \<or> plain m) w_messages"
    by (simp_all add: w_messages_def is_tool_message_def answer_of_def plain_def dget_or_def)
  then show ?thesis using conversion_keeps_answers [OF o] o w_calls_fields by auto
qed

end
