(* ===== verification/SshService.thy ===== *)
theory SshService
  imports Json UText TextLemmas
begin

text \<open>
  The SSH configuration and the port rules of the gateway, \<open>gateway/service/FirewallService.py\<close>, that an update
  is read back as it was asked for (\<open>ssh_update_read_back\<close>), that it replaces the block of the one before
  (\<open>ssh_block_replaced\<close>), what a failed one leaves behind, and the invariant of the remembered port rules.

  The state of the SSH part is the text of \<open>/etc/ssh/sshd_config\<close> (\<open>None\<close>: it does not exist); the files
  that an \<open>Include\<close> pattern matches, those of the fallback directory, the way a write succeeds and
  the answer of \<open>sshd -t\<close> are arguments.  Times of files and messages of exceptions are left out; \<open>int\<close> reads
  decimal texts without underscores.  The privileged agent behind the port rules is an argument.
\<close>

section \<open>Reading the configuration\<close>

text \<open>A line: its key in lower case and its values.\<close>

definition LIST_KEYS :: "string list" where
  "LIST_KEYS = [''allowusers'', ''allowgroups'', ''listenaddress'', ''include'']"

definition parse_directive :: "string \<Rightarrow> (string \<times> string list) option" where
  "parse_directive rawLine =
     (let line = strip rawLine in
      if line = [] \<or> startswith line ''#'' then None
      else
        (let noComment = strip (takeWhile (\<lambda>c. c \<noteq> CHR ''#'') line) in
         if noComment = [] then None
         else
           (let key = lower (takeWhile (\<lambda>c. \<not> is_space c) noComment);
                value = strip (dropWhile (\<lambda>c. \<not> is_space c) noComment) in
            if value = [] then None
            else Some (key, if key \<in> set LIST_KEYS then split_ws value else [value]))))"

type_synonym ssh_parsed = "(string \<times> string list) list"

definition add_directive :: "ssh_parsed \<Rightarrow> string \<Rightarrow> ssh_parsed" where
  "add_directive parsed rawLine =
     (case parse_directive rawLine of
        None \<Rightarrow> parsed
      | Some (key, vs) \<Rightarrow> AList.update key ((case map_of parsed key of Some ws \<Rightarrow> ws | None \<Rightarrow> []) @ vs) parsed)"

definition parseSshConfigFiles :: "string list \<Rightarrow> ssh_parsed" where
  "parseSshConfigFiles contents = foldl (\<lambda>parsed text. foldl add_directive parsed (splitlines text)) [] contents"

definition ssh_values :: "ssh_parsed \<Rightarrow> string \<Rightarrow> string list \<Rightarrow> string list" where
  "ssh_values parsed key dflt = (case map_of parsed key of Some vs \<Rightarrow> vs | None \<Rightarrow> dflt)"

definition safeInt :: "string \<Rightarrow> int \<Rightarrow> int" where
  "safeInt v dflt = (case py_int v of Some i \<Rightarrow> i | None \<Rightarrow> dflt)"

definition parseDurationToSeconds :: "string \<Rightarrow> int \<Rightarrow> int" where
  "parseDurationToSeconds v dflt =
     (let text = lower (strip v); digits = takeWhile is_digit text; unit = dropWhile is_digit text in
      if digits = [] \<or> unit \<notin> {[], ''s'', ''m'', ''h'', ''d''} then dflt
      else int (nat_of_text digits) *
        (if unit = ''m'' then 60 else if unit = ''h'' then 3600 else if unit = ''d'' then 86400 else 1))"

record SshConfig =
  sh_port :: int
  sh_permitRootLogin :: string
  sh_passwordAuthentication :: string
  sh_allowUsers :: "string list"
  sh_allowGroups :: "string list"
  sh_listenAddress :: "string list"
  sh_protocol :: int
  sh_loginGraceTime :: int
  sh_maxAuthTries :: int

definition config_of :: "ssh_parsed \<Rightarrow> SshConfig" where
  "config_of parsed =
     \<lparr>sh_port = safeInt (last (ssh_values parsed ''port'' [''22''])) 22,
      sh_permitRootLogin = last (ssh_values parsed ''permitrootlogin'' [''no'']),
      sh_passwordAuthentication = last (ssh_values parsed ''passwordauthentication'' [''yes'']),
      sh_allowUsers = ssh_values parsed ''allowusers'' [],
      sh_allowGroups = ssh_values parsed ''allowgroups'' [],
      sh_listenAddress = ssh_values parsed ''listenaddress'' [''0.0.0.0''],
      sh_protocol = safeInt (last (ssh_values parsed ''protocol'' [''2''])) 2,
      sh_loginGraceTime = parseDurationToSeconds (last (ssh_values parsed ''logingracetime'' [''120''])) 120,
      sh_maxAuthTries = safeInt (last (ssh_values parsed ''maxauthtries'' [''6''])) 6\<rparr>"

record ssh_env =
  se_included :: "string \<Rightarrow> string list"
  se_fallback :: "string list"

definition ssh_files :: "ssh_env \<Rightarrow> string option \<Rightarrow> string list" where
  "ssh_files env main =
     (case main of
        Some text \<Rightarrow> text # concat (map (se_included env) (ssh_values (parseSshConfigFiles [text]) ''include'' []))
      | None \<Rightarrow> se_fallback env)"

text \<open>\<open>None\<close>: there is no configuration, \<open>SecurityStatusReadException\<close>.\<close>

definition getSshConfig :: "ssh_env \<Rightarrow> string option \<Rightarrow> SshConfig option" where
  "getSshConfig env main =
     (if ssh_files env main = [] then None else Some (config_of (parseSshConfigFiles (ssh_files env main))))"

section \<open>Changing it\<close>

record SshConfigUpdate =
  su_port :: "int option"
  su_permitRootLogin :: "string option"
  su_passwordAuthentication :: "string option"
  su_allowUsers :: "string list option"
  su_allowGroups :: "string list option"
  su_listenAddress :: "string list option"
  su_protocol :: "int option"
  su_loginGraceTime :: "int option"
  su_maxAuthTries :: "int option"

definition validateSshConfigUpdate :: "SshConfigUpdate \<Rightarrow> bool" where
  "validateSshConfigUpdate u \<longleftrightarrow>
     (case su_port u of Some p \<Rightarrow> 1 \<le> p \<and> p \<le> 65535 | None \<Rightarrow> True) \<and>
     (case su_protocol u of Some p \<Rightarrow> p = 2 | None \<Rightarrow> True) \<and>
     (case su_permitRootLogin u of Some v \<Rightarrow> v \<in> {''yes'', ''no'', ''prohibit-password'', ''without-password''} | None \<Rightarrow> True) \<and>
     (case su_passwordAuthentication u of Some v \<Rightarrow> v \<in> {''yes'', ''no''} | None \<Rightarrow> True) \<and>
     (case su_loginGraceTime u of Some n \<Rightarrow> 0 < n | None \<Rightarrow> True) \<and>
     (case su_maxAuthTries u of Some n \<Rightarrow> 0 < n | None \<Rightarrow> True)"

definition or_current :: "'a option \<Rightarrow> 'a \<Rightarrow> 'a" where
  "or_current new old = (case new of Some v \<Rightarrow> v | None \<Rightarrow> old)"

definition mergedConfig :: "SshConfigUpdate \<Rightarrow> SshConfig \<Rightarrow> SshConfig" where
  "mergedConfig u c =
     \<lparr>sh_port = or_current (su_port u) (sh_port c),
      sh_permitRootLogin = or_current (su_permitRootLogin u) (sh_permitRootLogin c),
      sh_passwordAuthentication = or_current (su_passwordAuthentication u) (sh_passwordAuthentication c),
      sh_allowUsers = or_current (su_allowUsers u) (sh_allowUsers c),
      sh_allowGroups = or_current (su_allowGroups u) (sh_allowGroups c),
      sh_listenAddress = or_current (su_listenAddress u) (sh_listenAddress c),
      sh_protocol = or_current (su_protocol u) (sh_protocol c),
      sh_loginGraceTime = or_current (su_loginGraceTime u) (sh_loginGraceTime c),
      sh_maxAuthTries = or_current (su_maxAuthTries u) (sh_maxAuthTries c)\<rparr>"

definition BEGIN_MARK :: string where
  "BEGIN_MARK = ''# PANEL_MANAGED_BEGIN''"

definition END_MARK :: string where
  "END_MARK = ''# PANEL_MANAGED_END''"

definition managed_lines :: "SshConfig \<Rightarrow> string list" where
  "managed_lines c =
     [BEGIN_MARK, ''Port '' @ str_of_int (sh_port c), ''PermitRootLogin '' @ sh_permitRootLogin c,
      ''PasswordAuthentication '' @ sh_passwordAuthentication c, ''Protocol '' @ str_of_int (sh_protocol c),
      ''LoginGraceTime '' @ str_of_int (sh_loginGraceTime c), ''MaxAuthTries '' @ str_of_int (sh_maxAuthTries c)] @
     (if sh_allowUsers c = [] then [] else [''AllowUsers '' @ join '' '' (sh_allowUsers c)]) @
     (if sh_allowGroups c = [] then [] else [''AllowGroups '' @ join '' '' (sh_allowGroups c)]) @
     (if sh_listenAddress c = [] then [] else [''ListenAddress '' @ join '' '' (sh_listenAddress c)]) @
     [END_MARK]"

definition buildManagedSshBlock :: "SshConfig \<Rightarrow> string" where
  "buildManagedSshBlock c = join [CHR 0x0A] (managed_lines c)"

text \<open>\<open>re.sub\<close> of the pattern \<open># PANEL_MANAGED_BEGIN.*?# PANEL_MANAGED_END\s*\<close>, where the dot matches newlines.\<close>

function removeManagedSshBlock :: "string \<Rightarrow> string" where
  "removeManagedSshBlock content =
     (case find_sub BEGIN_MARK content of
        None \<Rightarrow> content
      | Some i \<Rightarrow>
          (let rest = drop (i + length BEGIN_MARK) content in
           case find_sub END_MARK rest of
             None \<Rightarrow> content
           | Some j \<Rightarrow> take i content @ removeManagedSshBlock (dropWhile is_space (drop (j + length END_MARK) rest))))"
  by pat_completeness auto
termination
proof (relation "measure length", simp, unfold in_measure)
  fix content x2 x x2a
  assume f: "find_sub BEGIN_MARK content = Some x2" and x: "x = drop (x2 + length BEGIN_MARK) content"
  have "length x + (x2 + length BEGIN_MARK) = length content" using find_sub_SomeD [OF f] x by simp
  moreover have "length BEGIN_MARK > 0" by (simp add: BEGIN_MARK_def)
  ultimately have "length x < length content" by linarith
  moreover have "length (dropWhile is_space (drop (x2a + length END_MARK) x)) \<le> length x"
    using length_dropWhile_le [of is_space "drop (x2a + length END_MARK) x"] by simp
  ultimately show "length (dropWhile is_space (drop (x2a + length END_MARK) x)) < length content" by linarith
qed

declare removeManagedSshBlock.simps [simp del]

definition new_ssh_content :: "string \<Rightarrow> SshConfig \<Rightarrow> string" where
  "new_ssh_content original c =
     rdropWhile is_space (removeManagedSshBlock original) @ [CHR 0x0A, CHR 0x0A] @ buildManagedSshBlock c @ [CHR 0x0A]"

datatype ssh_error = NoConfig | Invalid | NotWritable | CheckNotRun | SyntaxCheckFailed

text \<open>
  \<open>writable\<close>: the file can be written, directly or by \<open>sudo tee\<close>; \<open>restorable\<close>: so can the old text afterwards
  (the result of this \<open>tee\<close> is not looked at); \<open>sshd_t\<close>: the syntax check of a file, \<open>None\<close> when it cannot be started.
\<close>

definition updateSshConfig ::
  "ssh_env \<Rightarrow> bool \<Rightarrow> bool \<Rightarrow> (string \<Rightarrow> bool option) \<Rightarrow> SshConfigUpdate \<Rightarrow> string option \<Rightarrow>
   (ssh_error + SshConfig) \<times> string option" where
  "updateSshConfig env writable restorable sshd_t u main =
     (case main of
        None \<Rightarrow> (Inl NoConfig, main)
      | Some originalContent \<Rightarrow>
          (case getSshConfig env main of
             None \<Rightarrow> (Inl NoConfig, main)
           | Some current \<Rightarrow>
               if \<not> validateSshConfigUpdate u then (Inl Invalid, main)
               else
                 (let newContent = new_ssh_content originalContent (mergedConfig u current) in
                  if \<not> writable then (Inl NotWritable, main)
                  else case sshd_t newContent of
                    None \<Rightarrow> (Inl CheckNotRun, Some newContent)
                  | Some False \<Rightarrow> (Inl SyntaxCheckFailed, Some (if restorable then originalContent else newContent))
                  | Some True \<Rightarrow>
                      (case getSshConfig env (Some newContent) of
                         None \<Rightarrow> (Inl NoConfig, Some newContent)
                       | Some c \<Rightarrow> (Inr c, Some newContent)))))"

section \<open>Port rules\<close>

record PortRule =
  po_id :: int
  po_port :: int
  po_protocol :: int
  po_ipVersion :: int
  po_sourceIp :: string
  po_destinationIp :: string
  po_priority :: int
  po_action :: int

record PortRuleDeleteRequest =
  pd_port :: int
  pd_protocol :: int
  pd_ipVersion :: "int option"
  pd_sourceIp :: "string option"
  pd_destinationIp :: "string option"

text \<open>A rule as the privileged agent lists it.\<close>

record tool_rule =
  tr_port :: int
  tr_protocol :: string
  tr_ipVersion :: "int option"
  tr_sourceIp :: "string option"
  tr_destinationIp :: "string option"
  tr_policy :: string

record rule_service =
  rs_fallback :: "PortRule list"
  rs_nextId :: int

definition toToolProtocol :: "int \<Rightarrow> string" where
  "toToolProtocol protocol = (if protocol = 1 then ''tcp'' else ''udp'')"

definition toApiProtocol :: "string \<Rightarrow> int" where
  "toApiProtocol protocol = (if lower protocol = ''udp'' then 0 else 1)"

definition toApiAction :: "string \<Rightarrow> int" where
  "toApiAction policy = (if lower policy \<in> {''accept'', ''allow''} then 1 else 0)"

definition defaultAnyByIpVersion :: "int \<Rightarrow> string" where
  "defaultAnyByIpVersion v = (if v = 6 then ''::/0'' else ''0.0.0.0/0'')"

definition given_text :: "string option \<Rightarrow> string" where
  "given_text t = (case t of Some s \<Rightarrow> s | None \<Rightarrow> [])"

definition detectIpVersion :: "string option \<Rightarrow> string option \<Rightarrow> int" where
  "detectIpVersion src dst = (if list_ex (\<lambda>c. CHR '':'' \<in> set (given_text c)) [src, dst] then 6 else 4)"

definition or_text :: "string option \<Rightarrow> string \<Rightarrow> string" where
  "or_text t d = (if given_text t = [] then d else given_text t)"

definition api_rule :: "nat \<Rightarrow> tool_rule \<Rightarrow> PortRule" where
  "api_rule idx t =
     (let v = (case tr_ipVersion t of Some n \<Rightarrow> if n \<noteq> 0 then n else detectIpVersion (tr_sourceIp t) (tr_destinationIp t)
               | None \<Rightarrow> detectIpVersion (tr_sourceIp t) (tr_destinationIp t)) in
      \<lparr>po_id = int idx + 1, po_port = tr_port t, po_protocol = toApiProtocol (tr_protocol t), po_ipVersion = v,
       po_sourceIp = or_text (tr_sourceIp t) (defaultAnyByIpVersion v),
       po_destinationIp = or_text (tr_destinationIp t) (defaultAnyByIpVersion v),
       po_priority = 100, po_action = toApiAction (tr_policy t)\<rparr>)"

text \<open>\<open>Inl ()\<close>: the agent fails; then \<open>None\<close> stands for the exception of the service.\<close>

definition getPortRules :: "unit + tool_rule list \<Rightarrow> rule_service \<Rightarrow> PortRule list option" where
  "getPortRules listed s =
     (case listed of
        Inl _ \<Rightarrow> if rs_fallback s \<noteq> [] then Some (rs_fallback s) else None
      | Inr ts \<Rightarrow> if ts = [] \<and> rs_fallback s \<noteq> [] then Some (rs_fallback s)
                  else Some (map (\<lambda>(i, t). api_rule i t) (enumerate 0 ts)))"

definition isSameRule :: "PortRule \<Rightarrow> PortRuleDeleteRequest \<Rightarrow> bool" where
  "isSameRule r q \<longleftrightarrow> po_port r = pd_port q \<and> po_protocol r = pd_protocol q \<and>
     (case pd_ipVersion q of Some v \<Rightarrow> po_ipVersion r = v | None \<Rightarrow> True) \<and>
     (case pd_sourceIp q of Some a \<Rightarrow> po_sourceIp r = a | None \<Rightarrow> True) \<and>
     (case pd_destinationIp q of Some a \<Rightarrow> po_destinationIp r = a | None \<Rightarrow> True)"

text \<open>\<open>add\<close>: whether the agent added the rule and the port and protocol it reports; then its new list.\<close>

definition createPortRule ::
  "(int \<times> string) option \<Rightarrow> unit + tool_rule list \<Rightarrow> PortRule \<Rightarrow> rule_service \<Rightarrow> PortRule option \<times> rule_service" where
  "createPortRule added listed q s =
     (if po_action q \<noteq> 1 then (None, s)
      else case added of
        None \<Rightarrow> (None, s)
      | Some (port, protocol) \<Rightarrow>
          (let s = s\<lparr>rs_fallback := rs_fallback s @ [q\<lparr>po_id := rs_nextId s\<rparr>], rs_nextId := rs_nextId s + 1\<rparr> in
           case getPortRules listed s of
             None \<Rightarrow> (None, s)
           | Some rules \<Rightarrow>
               (case List.find (\<lambda>r. po_port r = port \<and> po_protocol r = toApiProtocol protocol) (rev rules) of
                  Some r \<Rightarrow> (Some r, s)
                | None \<Rightarrow> (Some (if rules \<noteq> [] then last rules else q\<lparr>po_id := 1\<rparr>), s))))"

definition deletePortRule :: "bool \<Rightarrow> PortRuleDeleteRequest \<Rightarrow> rule_service \<Rightarrow> bool \<times> rule_service" where
  "deletePortRule removed q s =
     (if \<not> removed then (False, s)
      else (True, s\<lparr>rs_fallback := filter (\<lambda>r. \<not> isSameRule r q) (rs_fallback s)\<rparr>))"


section \<open>Lemmas: the values of a key\<close>

definition line_values :: "string \<Rightarrow> string \<Rightarrow> string list" where
  "line_values key l = (case parse_directive l of Some (k, vs) \<Rightarrow> if k = key then vs else [] | None \<Rightarrow> [])"

definition set_values :: "string \<Rightarrow> string list \<Rightarrow> string list" where
  "set_values key ls = concat (map (line_values key) ls)"

lemma set_values_simps [simp]:
  "set_values k [] = []" "set_values k (l # ls) = line_values k l @ set_values k ls"
  "set_values k (ls @ ms) = set_values k ls @ set_values k ms"
  by (simp_all add: set_values_def)

lemma strip_ends_plain:
  assumes "strip s \<noteq> []"
  shows "\<not> is_space (hd (strip s))" "\<not> is_space (last (strip s))"
  using strip_id_iff [OF assms] by simp_all

lemma split_ws_strip: "strip s \<noteq> [] \<Longrightarrow> split_ws (strip s) \<noteq> []"
  using strip_ends_plain(1) [of s] by (cases "strip s") (simp_all add: split_ws_empty)

lemma directive_has_values: "parse_directive l = Some (k, vs) \<Longrightarrow> vs \<noteq> []"
  by (auto simp: parse_directive_def Let_def split_ws_strip split: if_splits)

lemma map_of_add_directive:
  "map_of (add_directive p l) k =
     (if line_values k l = [] then map_of p k
      else Some ((case map_of p k of Some ws \<Rightarrow> ws | None \<Rightarrow> []) @ line_values k l))"
  using directive_has_values [of l]
  by (cases "parse_directive l") (auto simp: add_directive_def line_values_def update_conv' split: option.splits if_splits)

lemma map_of_directives:
  "map_of (foldl add_directive p ls) k =
     (case map_of p k of Some ws \<Rightarrow> Some (ws @ set_values k ls)
      | None \<Rightarrow> if set_values k ls = [] then None else Some (set_values k ls))"
  by (induction ls arbitrary: p) (simp_all add: map_of_add_directive split: option.split)

lemma foldl_concat: "foldl (\<lambda>p t. foldl f p (g t)) p ts = foldl f p (concat (map g ts))"
  by (induction ts arbitrary: p) simp_all

abbreviation lines_of :: "string list \<Rightarrow> string list" where
  "lines_of ts \<equiv> concat (map splitlines ts)"

lemma ssh_values_parsed:
  "ssh_values (parseSshConfigFiles ts) k d = (if set_values k (lines_of ts) = [] then d else set_values k (lines_of ts))"
  by (simp add: ssh_values_def parseSshConfigFiles_def foldl_concat map_of_directives)

section \<open>Lemmas: the lines of the managed block\<close>

text \<open>A text that stands alone on a line after its key, and a name of a list.\<close>

definition plain_value :: "string \<Rightarrow> bool" where
  "plain_value v \<longleftrightarrow> v \<noteq> [] \<and> strip v = v \<and> list_all (\<lambda>c. \<not> is_line_sep c \<and> c \<noteq> CHR ''#'') v"

definition plain_word :: "string \<Rightarrow> bool" where
  "plain_word w \<longleftrightarrow> w \<noteq> [] \<and> list_all (\<lambda>c. \<not> is_space c \<and> c \<noteq> CHR ''#'') w"

definition plain_config :: "SshConfig \<Rightarrow> bool" where
  "plain_config c \<longleftrightarrow> plain_value (sh_permitRootLogin c) \<and> plain_value (sh_passwordAuthentication c) \<and>
     list_all plain_word (sh_allowUsers c) \<and> list_all plain_word (sh_allowGroups c) \<and>
     list_all plain_word (sh_listenAddress c) \<and> 0 \<le> sh_loginGraceTime c"

lemma line_sep_is_space: "is_line_sep c \<Longrightarrow> is_space c"
  by (auto simp: is_line_sep_def is_space_def)

lemma digit_plain: "is_digit c \<Longrightarrow> \<not> is_space c \<and> c \<noteq> CHR ''#''"
  by (auto simp: is_digit_def is_space_def)

lemma plain_word_value: "plain_word w \<Longrightarrow> plain_value w"
  using line_sep_is_space by (cases w) (auto simp: plain_word_def plain_value_def strip_id_iff list_all_iff)

lemma plain_int: "plain_word (str_of_int i)"
  using str_of_nat_props [of "nat i"] str_of_nat_props [of "nat (- i)"] digit_plain
  by (auto simp: plain_word_def str_of_int_def list_all_iff is_space_def)

lemma plain_join:
  assumes "ws \<noteq> []" "list_all plain_word ws"
  shows "plain_value (join '' '' ws)"
proof -
  have ne: "\<And>w. w \<in> set ws \<Longrightarrow> w \<noteq> []" and ends: "hd ws \<in> set ws" "last ws \<in> set ws"
    using assms by (auto simp: plain_word_def list_all_iff)
  then have "\<not> is_space (hd (hd ws))" "\<not> is_space (last (last ws))"
    using assms(2) by (auto simp: plain_word_def list_all_iff)
  moreover have "\<not> is_line_sep c \<and> c \<noteq> CHR ''#''" if "c \<in> set (join '' '' ws)" for c
    using that join_words(4) [OF assms(1) ne] assms(2) line_sep_is_space [of c]
    by (auto simp: plain_word_def list_all_iff is_line_sep_def)
  ultimately show ?thesis
    using join_words(1-3) [OF assms(1) ne] by (simp add: plain_value_def strip_id_iff list_all_iff)
qed

lemma split_ws_acc_word:
  "list_all (\<lambda>c. \<not> is_space c) w \<Longrightarrow> split_ws_acc acc (w @ CHR '' '' # s) =
     (if acc = [] \<and> w = [] then [] else [rev acc @ w]) @ split_ws_acc [] s"
  by (induction w arbitrary: acc) (auto simp: is_space_def)

lemma split_ws_acc_last:
  "list_all (\<lambda>c. \<not> is_space c) w \<Longrightarrow> split_ws_acc acc w = (if acc = [] \<and> w = [] then [] else [rev acc @ w])"
  by (induction w arbitrary: acc) auto

lemma split_ws_join: "list_all plain_word ws \<Longrightarrow> split_ws (join '' '' ws) = ws"
proof (induction "'' ''" ws rule: join.induct)
  case 1
  then show ?case by (simp add: split_ws_def)
next
  case (2 x)
  then show ?case by (simp add: split_ws_def split_ws_acc_last plain_word_def list_all_iff)
next
  case (3 x y zs)
  then show ?case
    by (simp add: split_ws_def split_ws_acc_word plain_word_def list_all_iff)
qed

lemma parse_setting:
  assumes "plain_word key" "plain_value v"
  shows "parse_directive (key @ CHR '' '' # v) =
    Some (lower key, if lower key \<in> set LIST_KEYS then split_ws v else [v])"
proof -
  define l where "l = key @ CHR '' '' # v"
  have key: "key \<noteq> []" "list_all (\<lambda>c. \<not> is_space c) key" "CHR ''#'' \<notin> set key" "hd key \<noteq> CHR ''#''"
    using assms(1) by (cases key; auto simp: plain_word_def list_all_iff)+
  have v: "v \<noteq> []" "\<not> is_space (hd v)" "\<not> is_space (last v)" "CHR ''#'' \<notin> set v"
    using assms(2) strip_id_iff [of v] by (auto simp: plain_value_def list_all_iff)
  have l: "strip l = l" using key v by (subst strip_id_iff) (auto simp: list_all_iff l_def)
  have t: "takeWhile (\<lambda>c. c \<noteq> CHR ''#'') l = l" using key v by (subst takeWhile_eq_all_conv) (auto simp: l_def)
  have w: "takeWhile (\<lambda>c. \<not> is_space c) l = key" "dropWhile (\<lambda>c. \<not> is_space c) l = CHR '' '' # v"
    using key by (auto simp: list_all_iff is_space_def takeWhile_append2 dropWhile_append2 l_def)
  have s: "strip (CHR '' '' # v) = v"
    using strip_line [of v "'' ''" "[]"] v by (simp add: is_space_def)
  have "\<not> startswith l ''#''" "l \<noteq> []" using key by (cases key; simp add: l_def startswith_def)+
  then have "parse_directive l = Some (lower key, if lower key \<in> set LIST_KEYS then split_ws v else [v])"
    using v(1) by (simp add: parse_directive_def l t w s)
  then show ?thesis by (simp only: l_def)
qed

lemma setting_values:
  "plain_word key \<Longrightarrow> plain_value v \<Longrightarrow>
   line_values k (key @ CHR '' '' # v) = (if k = lower key then (if k \<in> set LIST_KEYS then split_ws v else [v]) else [])"
  by (simp add: line_values_def parse_setting)

lemma setting_lines:
  assumes "plain_value v"
  shows "line_values k (''Port '' @ v) = (if k = ''port'' then [v] else [])"
    and "line_values k (''PermitRootLogin '' @ v) = (if k = ''permitrootlogin'' then [v] else [])"
    and "line_values k (''PasswordAuthentication '' @ v) = (if k = ''passwordauthentication'' then [v] else [])"
    and "line_values k (''Protocol '' @ v) = (if k = ''protocol'' then [v] else [])"
    and "line_values k (''LoginGraceTime '' @ v) = (if k = ''logingracetime'' then [v] else [])"
    and "line_values k (''MaxAuthTries '' @ v) = (if k = ''maxauthtries'' then [v] else [])"
    and "line_values k (''AllowUsers '' @ v) = (if k = ''allowusers'' then split_ws v else [])"
    and "line_values k (''AllowGroups '' @ v) = (if k = ''allowgroups'' then split_ws v else [])"
    and "line_values k (''ListenAddress '' @ v) = (if k = ''listenaddress'' then split_ws v else [])"
proof -
  have w: "list_all plain_word [''Port'', ''PermitRootLogin'', ''PasswordAuthentication'', ''Protocol'', ''LoginGraceTime'',
      ''MaxAuthTries'', ''AllowUsers'', ''AllowGroups'', ''ListenAddress'']"
    and l: "map lower [''Port'', ''PermitRootLogin'', ''PasswordAuthentication'', ''Protocol'', ''LoginGraceTime'',
      ''MaxAuthTries'', ''AllowUsers'', ''AllowGroups'', ''ListenAddress''] =
     [''port'', ''permitrootlogin'', ''passwordauthentication'', ''protocol'', ''logingracetime'', ''maxauthtries'',
      ''allowusers'', ''allowgroups'', ''listenaddress'']"
    by code_simp+
  show "line_values k (''Port '' @ v) = (if k = ''port'' then [v] else [])"
    using setting_values [of "''Port''" v k] w l assms by (simp add: LIST_KEYS_def)
  show "line_values k (''PermitRootLogin '' @ v) = (if k = ''permitrootlogin'' then [v] else [])"
    using setting_values [of "''PermitRootLogin''" v k] w l assms by (simp add: LIST_KEYS_def)
  show "line_values k (''PasswordAuthentication '' @ v) = (if k = ''passwordauthentication'' then [v] else [])"
    using setting_values [of "''PasswordAuthentication''" v k] w l assms by (simp add: LIST_KEYS_def)
  show "line_values k (''Protocol '' @ v) = (if k = ''protocol'' then [v] else [])"
    using setting_values [of "''Protocol''" v k] w l assms by (simp add: LIST_KEYS_def)
  show "line_values k (''LoginGraceTime '' @ v) = (if k = ''logingracetime'' then [v] else [])"
    using setting_values [of "''LoginGraceTime''" v k] w l assms by (simp add: LIST_KEYS_def)
  show "line_values k (''MaxAuthTries '' @ v) = (if k = ''maxauthtries'' then [v] else [])"
    using setting_values [of "''MaxAuthTries''" v k] w l assms by (simp add: LIST_KEYS_def)
  show "line_values k (''AllowUsers '' @ v) = (if k = ''allowusers'' then split_ws v else [])"
    using setting_values [of "''AllowUsers''" v k] w l assms by (simp add: LIST_KEYS_def)
  show "line_values k (''AllowGroups '' @ v) = (if k = ''allowgroups'' then split_ws v else [])"
    using setting_values [of "''AllowGroups''" v k] w l assms by (simp add: LIST_KEYS_def)
  show "line_values k (''ListenAddress '' @ v) = (if k = ''listenaddress'' then split_ws v else [])"
    using setting_values [of "''ListenAddress''" v k] w l assms by (simp add: LIST_KEYS_def)
qed

lemma mark_values: "line_values k BEGIN_MARK = []" "line_values k END_MARK = []"
proof -
  have "parse_directive BEGIN_MARK = None" "parse_directive END_MARK = None" by code_simp+
  then show "line_values k BEGIN_MARK = []" "line_values k END_MARK = []" by (simp_all add: line_values_def)
qed

lemmas block_values = setting_lines [unfolded append_Cons append_Nil] mark_values plain_join split_ws_join
  plain_word_value [OF plain_int]

lemma managed_values:
  assumes "plain_config c"
  shows "set_values ''port'' (managed_lines c) = [str_of_int (sh_port c)]"
    and "set_values ''permitrootlogin'' (managed_lines c) = [sh_permitRootLogin c]"
    and "set_values ''passwordauthentication'' (managed_lines c) = [sh_passwordAuthentication c]"
    and "set_values ''protocol'' (managed_lines c) = [str_of_int (sh_protocol c)]"
    and "set_values ''logingracetime'' (managed_lines c) = [str_of_int (sh_loginGraceTime c)]"
    and "set_values ''maxauthtries'' (managed_lines c) = [str_of_int (sh_maxAuthTries c)]"
    and "set_values ''allowusers'' (managed_lines c) = sh_allowUsers c"
    and "set_values ''allowgroups'' (managed_lines c) = sh_allowGroups c"
    and "set_values ''listenaddress'' (managed_lines c) = sh_listenAddress c"
    and "set_values ''include'' (managed_lines c) = []"
  using assms by (simp_all add: managed_lines_def plain_config_def block_values)

text \<open>Between the marks: lines without comment characters and line ends.\<close>

definition setting_part :: "SshConfig \<Rightarrow> string list" where
  "setting_part c = butlast (tl (managed_lines c))"

lemma managed_split: "managed_lines c = BEGIN_MARK # setting_part c @ [END_MARK]" "setting_part c \<noteq> []"
  by (simp_all add: managed_lines_def setting_part_def butlast_append)

lemma setting_part_plain: "plain_config c \<Longrightarrow> l \<in> set (setting_part c) \<Longrightarrow> list_all (\<lambda>x. \<not> is_line_sep x \<and> x \<noteq> CHR ''#'') l"
  using plain_word_value [OF plain_int] plain_join
  by (auto simp: setting_part_def managed_lines_def butlast_append plain_config_def plain_value_def is_line_sep_def split: if_splits)

lemma marks_clean: "list_all (\<lambda>x. \<not> is_line_sep x) BEGIN_MARK" "list_all (\<lambda>x. \<not> is_line_sep x) END_MARK"
  by code_simp+

lemma managed_clean: "plain_config c \<Longrightarrow> list_all (list_all (\<lambda>x. \<not> is_line_sep x)) (managed_lines c)"
  using setting_part_plain [of c] marks_clean by (auto simp: managed_split list_all_iff)

abbreviation kept_lines :: "string \<Rightarrow> string list" where
  "kept_lines t \<equiv> splitlines (rdropWhile is_space (removeManagedSshBlock t) @ [newline])"

lemma new_content_lines:
  assumes "plain_config c"
  shows "splitlines (new_ssh_content t c) = kept_lines t @ [] # managed_lines c"
proof -
  have "splitlines (newline # buildManagedSshBlock c @ [newline]) = [] # managed_lines c"
    using splitlines_append [of "[]" "buildManagedSshBlock c @ [newline]"] splitlines_line [of "[]"]
      splitlines_join [of "managed_lines c"] managed_clean [OF assms]
    by (simp add: buildManagedSshBlock_def managed_split(1))
  then show ?thesis
    using splitlines_append [of "rdropWhile is_space (removeManagedSshBlock t)" "newline # buildManagedSshBlock c @ [newline]"]
    by (simp add: new_ssh_content_def)
qed

section \<open>Lemmas: what is read can be written\<close>

lemma directive_plain:
  assumes "list_all (\<lambda>x. \<not> is_line_sep x) l" "parse_directive l = Some (k, vs)" "v \<in> set vs"
  shows "plain_value v \<and> (k \<in> set LIST_KEYS \<longrightarrow> plain_word v)"
proof -
  define s where "s = strip (takeWhile (\<lambda>c. c \<noteq> CHR ''#'') (strip l))"
  define w where "w = strip (dropWhile (\<lambda>c. \<not> is_space c) s)"
  have w: "w \<noteq> []" "vs = (if k \<in> set LIST_KEYS then split_ws w else [w])"
    using assms(2) by (auto simp: parse_directive_def Let_def s_def w_def split: if_splits)
  have "set w \<subseteq> set s" unfolding w_def using set_strip set_dropWhileD by fastforce
  also have "\<dots> \<subseteq> set (takeWhile (\<lambda>c. c \<noteq> CHR ''#'') (strip l))" unfolding s_def by (rule set_strip)
  also have "\<dots> \<subseteq> {c \<in> set l. c \<noteq> CHR ''#''}" using set_strip [of l] by (auto dest: set_takeWhileD)
  finally have c: "\<not> is_line_sep c \<and> c \<noteq> CHR ''#''" if "c \<in> set w" for c using that assms(1) by (auto simp: list_all_iff)
  have "plain_value w" using w(1) c by (simp add: plain_value_def list_all_iff w_def)
  moreover have "plain_word u" if "u \<in> set (split_ws w)" for u
    using split_ws_words [OF that] c by (auto simp: plain_word_def list_all_iff)
  ultimately show ?thesis using w(2) assms(3) by (auto intro: plain_word_value split: if_splits)
qed

lemma line_valuesD: "v \<in> set (line_values k l) \<Longrightarrow> \<exists>vs. parse_directive l = Some (k, vs) \<and> v \<in> set vs"
  by (cases "parse_directive l") (auto simp: line_values_def split: if_splits)

lemma set_values_plain:
  "v \<in> set (set_values k (lines_of ts)) \<Longrightarrow> plain_value v \<and> (k \<in> set LIST_KEYS \<longrightarrow> plain_word v)"
proof -
  assume "v \<in> set (set_values k (lines_of ts))"
  then obtain t l vs where l: "l \<in> set (splitlines t)" and d: "parse_directive l = Some (k, vs)" "v \<in> set vs"
    by (auto simp: set_values_def dest!: line_valuesD)
  show ?thesis by (rule directive_plain [OF splitlines_clean [OF l] d])
qed

lemma duration_nonneg: "0 \<le> d \<Longrightarrow> 0 \<le> parseDurationToSeconds v d"
  by (simp add: parseDurationToSeconds_def Let_def)

lemma last_value_plain: "plain_value d \<Longrightarrow> plain_value (last (ssh_values (parseSshConfigFiles ts) k [d]))"
  using set_values_plain [of "last (set_values k (lines_of ts))" k ts] by (simp add: ssh_values_parsed)

lemma list_values_plain:
  "k \<in> set LIST_KEYS \<Longrightarrow> list_all plain_word d \<Longrightarrow> list_all plain_word (ssh_values (parseSshConfigFiles ts) k d)"
  using set_values_plain [of _ k ts] by (auto simp: ssh_values_parsed list_all_iff)

lemma read_config_plain: "plain_config (config_of (parseSshConfigFiles ts))"
proof -
  have "plain_value ''no''" "plain_value ''yes''" "plain_word ''0.0.0.0''" by code_simp+
  then show ?thesis
    by (simp add: plain_config_def config_of_def last_value_plain list_values_plain duration_nonneg LIST_KEYS_def)
qed

text \<open>The lists of an update: nothing in the code checks them.\<close>

definition plain_update :: "SshConfigUpdate \<Rightarrow> bool" where
  "plain_update u \<longleftrightarrow> (\<forall>ws \<in> {su_allowUsers u, su_allowGroups u, su_listenAddress u}. case ws of Some l \<Rightarrow> list_all plain_word l | None \<Rightarrow> True)"

lemma merged_plain:
  assumes "plain_config c" "validateSshConfigUpdate u" "plain_update u"
  shows "plain_config (mergedConfig u c)"
proof -
  have p: "plain_value ''yes''" "plain_value ''no''" "plain_value ''prohibit-password''" "plain_value ''without-password''"
    by code_simp+
  have "plain_value (or_current (su_permitRootLogin u) (sh_permitRootLogin c))"
    "plain_value (or_current (su_passwordAuthentication u) (sh_passwordAuthentication c))"
    "0 \<le> or_current (su_loginGraceTime u) (sh_loginGraceTime c)"
    using assms(1,2) p by (auto simp: plain_config_def validateSshConfigUpdate_def or_current_def split: option.splits)
  then show ?thesis
    using assms(1,3) by (auto simp: plain_config_def plain_update_def mergedConfig_def or_current_def split: option.splits)
qed

section \<open>Lemmas: numbers\<close>

lemma strip_int: "strip (str_of_int i) = str_of_int i"
  using plain_word_value [OF plain_int] by (simp add: plain_value_def)

lemma safeInt_str [simp]: "safeInt (str_of_int i) d = i"
proof -
  have n: "list_all is_digit (str_of_nat k)" "nat_of_text (str_of_nat k) = k" for k using str_of_nat_props [of k] by simp_all
  have "\<not> startswith (str_of_nat k) ''-'' \<and> \<not> startswith (str_of_nat k) ''+''" for k
    using n(1) [of k] by (cases "str_of_nat k") (auto simp: startswith_def is_digit_def)
  then show ?thesis
    using n strip_int [of i] by (auto simp: safeInt_def py_int_def Let_def str_of_int_def startswith_def)
qed

lemma lower_digits: "list_all is_digit s \<Longrightarrow> lower s = s"
  by (induction s) (auto simp: lower_def lower_char_def is_upper_def is_digit_def)

lemma duration_str [simp]: "0 \<le> n \<Longrightarrow> parseDurationToSeconds (str_of_int n) d = n"
proof -
  assume "0 \<le> n"
  then have s: "str_of_int n = str_of_nat (nat n)" by (simp add: str_of_int_def)
  have d: "list_all is_digit (str_of_nat (nat n))" "nat_of_text (str_of_nat (nat n)) = nat n"
    using str_of_nat_props [of "nat n"] by simp_all
  then have t: "takeWhile is_digit (str_of_nat (nat n)) = str_of_nat (nat n)"
    and w: "dropWhile is_digit (str_of_nat (nat n)) = []"
    by (simp_all add: takeWhile_eq_all_conv dropWhile_eq_Nil_conv list_all_iff)
  have "lower (strip (str_of_int n)) = str_of_nat (nat n)"
    using strip_int [of n] lower_digits [OF d(1)] s by simp
  then show ?thesis using d \<open>0 \<le> n\<close> by (simp add: parseDurationToSeconds_def t w Let_def list_all_iff)
qed

section \<open>What an update changes\<close>

definition SSH_KEYS :: "string list" where
  "SSH_KEYS = [''port'', ''permitrootlogin'', ''passwordauthentication'', ''protocol'', ''logingracetime'',
     ''maxauthtries'', ''allowusers'', ''allowgroups'', ''listenaddress'']"

text \<open>A file that sets none of the keys of the panel.\<close>

definition silent :: "string \<Rightarrow> bool" where
  "silent f \<longleftrightarrow> list_all (\<lambda>k. set_values k (splitlines f) = []) SSH_KEYS"

lemma silent_values: "k \<in> set SSH_KEYS \<Longrightarrow> list_all silent fs \<Longrightarrow> set_values k (lines_of fs) = []"
  by (induction fs) (auto simp: silent_def list_all_iff)

lemma new_content_values:
  assumes "plain_config m" "\<And>p. list_all silent (se_included env p)" "k \<in> set SSH_KEYS"
  shows "set_values k (lines_of (ssh_files env (Some (new_ssh_content t m)))) =
    set_values k (kept_lines t) @ set_values k (managed_lines m)"
proof -
  have "parse_directive [] = None" by code_simp
  then have "line_values k [] = []" by (simp add: line_values_def)
  moreover have "set_values k (lines_of (concat (map (se_included env) ps))) = []" for ps
    using assms(2) by (intro silent_values [OF assms(3)]) (auto simp: list_all_iff)
  ultimately show ?thesis by (simp add: ssh_files_def new_content_lines [OF assms(1)])
qed

lemma update_success:
  assumes "updateSshConfig env writable restorable sshd_t u (Some t) = (Inr c, main')"
  obtains cur where "getSshConfig env (Some t) = Some cur" "validateSshConfigUpdate u"
    "main' = Some (new_ssh_content t (mergedConfig u cur))" "sshd_t (new_ssh_content t (mergedConfig u cur)) = Some True"
    "getSshConfig env main' = Some c"
  using assms by (auto simp: updateSshConfig_def Let_def split: option.splits if_splits bool.splits)


section \<open>The block is replaced, not added to\<close>

lemma find_sub_after:
  "p \<noteq> [] \<Longrightarrow> x \<notin> set p \<Longrightarrow> \<not> sublist p a \<Longrightarrow> find_sub p (a @ x # s) = map_option ((+) (Suc (length a))) (find_sub p s)"
proof (induction a)
  case Nil
  then show ?case by (cases p) (auto simp: option.map_comp comp_def)
next
  case (Cons y a)
  have "\<not> prefix p (y # a @ x # s)"
    using Cons.prems prefix_append [of p "y # a" "x # s"] by (auto simp: prefix_Cons)
  then show ?case using Cons by (simp add: sublist_Cons_right option.map_comp comp_def)
qed

lemma find_sub_here: "find_sub p (p @ s) = Some 0"
proof -
  have "prefix p (p @ s)" by simp
  then show ?thesis by (cases "p @ s") (simp_all del: same_prefix_nil)
qed

lemma join_snoc: "ls \<noteq> [] \<Longrightarrow> join sep (ls @ [l]) = join sep ls @ sep @ l"
  by (induction sep ls rule: join.induct) (auto simp: join_Cons_ne)

lemma join_chars: "set (join sep ls) \<subseteq> set sep \<union> \<Union> (set ` set ls)"
  by (induction sep ls rule: join.induct) auto

lemma block_text:
  "buildManagedSshBlock c = BEGIN_MARK @ newline # join [newline] (setting_part c) @ newline # END_MARK"
  using join_snoc [of "setting_part c" "[newline]" END_MARK] managed_split(2) [of c]
  by (simp add: buildManagedSshBlock_def managed_split(1) join_Cons_ne)

lemma remove_new_content:
  assumes "plain_config c" "\<not> sublist BEGIN_MARK base"
  shows "removeManagedSshBlock (base @ [newline, newline] @ buildManagedSshBlock c @ [newline]) = base @ [newline, newline]"
proof -
  let ?body = "newline # join [newline] (setting_part c)"
  have marks: "BEGIN_MARK \<noteq> []" "END_MARK \<noteq> []" "newline \<notin> set BEGIN_MARK" "newline \<notin> set END_MARK" "CHR ''#'' \<in> set END_MARK"
    by (simp_all add: BEGIN_MARK_def END_MARK_def)
  have "CHR ''#'' \<notin> set ?body"
    using join_chars [of "[newline]" "setting_part c"] setting_part_plain [OF assms(1)] by (auto simp: list_all_iff)
  then have "\<not> sublist END_MARK ?body" using marks(5) set_mono_sublist by blast
  then have e: "find_sub END_MARK (?body @ newline # END_MARK @ [newline]) = Some (Suc (length ?body))"
    using find_sub_after [OF marks(2,4), of ?body "END_MARK @ [newline]"] find_sub_here [of END_MARK "[newline]"] by simp
  have b: "find_sub BEGIN_MARK (base @ newline # newline # BEGIN_MARK @ s) = Some (length base + 2)" for s
    using find_sub_after [OF marks(1,3) assms(2)] find_sub_after [OF marks(1,3), of "[]"] find_sub_here [of BEGIN_MARK s] marks(1)
    by simp
  have "removeManagedSshBlock [] = []" by (subst removeManagedSshBlock.simps) (simp add: BEGIN_MARK_def)
  then show ?thesis
    using e b [of "?body @ newline # END_MARK @ [newline]"]
    by (subst removeManagedSshBlock.simps) (simp add: block_text is_space_def)
qed

lemma rdropWhile_prefix: "prefix (rdropWhile P xs) xs"
  unfolding rdropWhile_def prefix_def by (metis rev_append rev_rev_ident takeWhile_dropWhile_id)

lemma rdropWhile_idem: "rdropWhile P (rdropWhile P xs) = rdropWhile P xs"
  by (simp add: rdropWhile_def)

text \<open>
  In a configuration whose own lines have no mark of the panel, a second update replaces the block of the first: the
  file is the same as if only the second had been made.
\<close>

theorem ssh_block_replaced:
  assumes "plain_config c" "\<not> sublist BEGIN_MARK t"
  shows "new_ssh_content (new_ssh_content t c) c' = new_ssh_content t c'"
proof -
  let ?base = "rdropWhile is_space t"
  have t: "removeManagedSshBlock t = t"
    using assms(2) by (subst removeManagedSshBlock.simps) (simp add: find_sub_None [symmetric])
  have "\<not> sublist BEGIN_MARK ?base"
    using assms(2) by (metis sublist_order.order_trans prefix_imp_sublist rdropWhile_prefix)
  then have "removeManagedSshBlock (new_ssh_content t c) = ?base @ [newline, newline]"
    using remove_new_content [OF assms(1)] by (simp add: new_ssh_content_def t)
  moreover have "rdropWhile is_space (?base @ [newline, newline]) = ?base"
    using rdropWhile_idem [of is_space t] by (simp add: rdropWhile_def is_space_def)
  ultimately show ?thesis by (simp add: new_ssh_content_def t)
qed

lemma ssh_files_main: "ssh_files env (Some t) \<noteq> []"
  by (simp add: ssh_files_def)

text \<open>
  An update that fails leaves the file as it was, if the old text can be written back and the check could be started;
  otherwise the new text stays although the update is reported as failed.
\<close>

lemma ssh_update_failure:
  assumes "updateSshConfig env writable restorable sshd_t u main = (Inl e, main')" "restorable" "e \<noteq> CheckNotRun"
  shows "main' = main"
  using assms ssh_files_main [of env]
  by (auto simp: updateSshConfig_def getSshConfig_def Let_def split: option.splits if_splits bool.splits)

lemma unchecked_text_stays:
  assumes "getSshConfig env (Some t) = Some cur" "validateSshConfigUpdate u"
  shows "updateSshConfig env True restorable (\<lambda>_. None) u (Some t) = (Inl CheckNotRun, Some (new_ssh_content t (mergedConfig u cur)))"
  using assms by (simp add: updateSshConfig_def)

text \<open>
  Lists outside the block are never replaced: asking for one user adds it, and an update of the port alone doubles the
  list.  A name with a line end sets a key that the update did not ask for.
\<close>

definition ask :: "string list option \<Rightarrow> SshConfigUpdate" where
  "ask users = \<lparr>su_port = None, su_permitRootLogin = None, su_passwordAuthentication = None, su_allowUsers = users,
     su_allowGroups = None, su_listenAddress = Some [], su_protocol = None, su_loginGraceTime = None, su_maxAuthTries = None\<rparr>"

definition alone :: ssh_env where
  "alone = \<lparr>se_included = \<lambda>_. [], se_fallback = []\<rparr>"

lemma users_after:
  assumes "getSshConfig alone (Some t) = Some cur" "plain_update u" "validateSshConfigUpdate u"
  shows "\<exists>c text. updateSshConfig alone True True (\<lambda>_. Some True) u (Some t) = (Inr c, Some text) \<and>
    sh_allowUsers c = set_values ''allowusers'' (kept_lines t) @ or_current (su_allowUsers u) (sh_allowUsers cur)"
proof -
  have "plain_config cur" using assms(1) read_config_plain by (auto simp: getSshConfig_def split: if_splits)
  then have m: "plain_config (mergedConfig u cur)" using merged_plain assms(2,3) by blast
  let ?fs = "ssh_files alone (Some (new_ssh_content t (mergedConfig u cur)))"
  have "sh_allowUsers (config_of (parseSshConfigFiles ?fs)) =
    set_values ''allowusers'' (kept_lines t) @ sh_allowUsers (mergedConfig u cur)"
    using new_content_values [OF m, of alone "''allowusers''" t] managed_values(7) [OF m]
    by (simp add: config_of_def ssh_values_parsed SSH_KEYS_def alone_def)
  then show ?thesis
    using assms(1,3) ssh_files_main by (simp add: updateSshConfig_def getSshConfig_def Let_def mergedConfig_def)
qed

abbreviation alices :: string where "alices \<equiv> ''AllowUsers alice''"

lemma alices_config:
  "getSshConfig alone (Some alices) = Some
     \<lparr>sh_port = 22, sh_permitRootLogin = ''no'', sh_passwordAuthentication = ''yes'', sh_allowUsers = [''alice''],
      sh_allowGroups = [], sh_listenAddress = [''0.0.0.0''], sh_protocol = 2, sh_loginGraceTime = 120, sh_maxAuthTries = 6\<rparr>"
  by code_simp

lemma alices_kept: "set_values ''allowusers'' (kept_lines alices) = [''alice'']"
  by code_simp

lemma alices_addresses: "set_values ''listenaddress'' (kept_lines alices) = []"
  by code_simp

lemma ask_plain:
  "plain_update (ask None)" "plain_update (ask (Some [''bob'']))" "validateSshConfigUpdate (ask us)"
  by (code_simp, code_simp) (simp add: validateSshConfigUpdate_def ask_def)

lemma users_not_replaced:
  "\<exists>c text. updateSshConfig alone True True (\<lambda>_. Some True) (ask (Some [''bob''])) (Some alices) = (Inr c, Some text) \<and>
     sh_allowUsers c = [''alice'', ''bob'']"
  using users_after [OF alices_config ask_plain(2,3)] by (simp add: alices_kept or_current_def ask_def)

lemma users_doubled:
  "\<exists>c text. updateSshConfig alone True True (\<lambda>_. Some True) (ask None) (Some alices) = (Inr c, Some text) \<and>
     sh_allowUsers c = [''alice'', ''alice'']"
  using users_after [OF alices_config ask_plain(1,3)] by (simp add: alices_kept or_current_def ask_def)

lemma user_name_sets_root_login:
  "map_option sh_permitRootLogin (getSshConfig alone (Some (buildManagedSshBlock (mergedConfig
     (ask (Some [''bob'' @ newline # ''PermitRootLogin yes''])) (config_of [])) @ [newline]))) = Some ''yes''"
proof -
  have "buildManagedSshBlock (mergedConfig (ask (Some [''bob'' @ newline # ''PermitRootLogin yes''])) (config_of [])) =
    join [newline] [''# PANEL_MANAGED_BEGIN'', ''Port 22'', ''PermitRootLogin no'', ''PasswordAuthentication yes'', ''Protocol 2'',
      ''LoginGraceTime 120'', ''MaxAuthTries 6'', ''AllowUsers bob'', ''PermitRootLogin yes'', ''# PANEL_MANAGED_END'']" (is "_ = join _ ?ls")
    by code_simp
  moreover have "list_all (list_all (\<lambda>c. \<not> is_line_sep c)) ?ls" by code_simp
  then have "splitlines (join [newline] ?ls @ [newline]) = ?ls" by (intro splitlines_join) simp_all
  moreover have "set_values ''permitrootlogin'' ?ls = [''no'', ''yes'']" "set_values ''include'' ?ls = []" by code_simp+
  ultimately show ?thesis
    by (simp add: getSshConfig_def ssh_files_def config_of_def ssh_values_parsed del: set_values_simps join.simps)
qed

section \<open>Lemmas: port rules\<close>

text \<open>The remembered rules have different ids below the next one.\<close>

definition rules_ok :: "rule_service \<Rightarrow> bool" where
  "rules_ok s \<longleftrightarrow> distinct (map po_id (rs_fallback s)) \<and> list_all (\<lambda>r. po_id r < rs_nextId s) (rs_fallback s)"

lemma createPortRule_ok: "rules_ok s \<Longrightarrow> rules_ok (snd (createPortRule added listed q s))"
  by (auto simp: createPortRule_def rules_ok_def Let_def list_all_iff less_le split: option.splits prod.splits)

lemma deletePortRule_ok: "rules_ok s \<Longrightarrow> rules_ok (snd (deletePortRule removed q s))"
  by (auto simp: deletePortRule_def rules_ok_def list_all_iff distinct_map intro: inj_on_subset)

lemma createPortRule_remembers:
  "rs_fallback (snd (createPortRule added listed q s)) =
     (if po_action q = 1 \<and> added \<noteq> None then rs_fallback s @ [q\<lparr>po_id := rs_nextId s\<rparr>] else rs_fallback s)"
  by (auto simp: createPortRule_def Let_def split: option.splits prod.splits)

text \<open>A rule that was made and then deleted by the same data is not remembered; all others stay.\<close>

lemma create_delete_rules:
  assumes "po_action q = 1" "added \<noteq> None" "isSameRule q d" "list_all (\<lambda>r. \<not> isSameRule r d) (rs_fallback s)"
  shows "rs_fallback (snd (deletePortRule True d (snd (createPortRule added listed q s)))) = rs_fallback s"
proof -
  have "isSameRule (q\<lparr>po_id := n\<rparr>) d" for n using assms(3) by (simp add: isSameRule_def split: option.splits)
  then show ?thesis using assms by (simp add: deletePortRule_def createPortRule_remembers list_all_iff)
qed

lemma protocol_codes: "toApiProtocol (toToolProtocol p) = p \<longleftrightarrow> p = 0 \<or> p = 1"
proof -
  have "toApiProtocol ''tcp'' = 1" "toApiProtocol ''udp'' = 0" by code_simp+
  then show ?thesis by (auto simp: toToolProtocol_def)
qed


theorem ssh_block_replaced_witness:
  "new_ssh_content (new_ssh_content ''Port 22'' (config_of [])) (config_of [(''port'', [''23''])]) =
   new_ssh_content ''Port 22'' (config_of [(''port'', [''23''])])"
proof (rule ssh_block_replaced)
  show "plain_config (config_of [])" by code_simp
  have "find_sub BEGIN_MARK ''Port 22'' = None" by code_simp
  then show "\<not> sublist BEGIN_MARK ''Port 22''" by (rule find_sub_None [THEN iffD1])
qed

end
