(* ===== verification/Spec2Isabelle.thy ===== *)
theory Spec2Isabelle
  imports RiskScorer Injection History TraceLog StructuredLLM PrivLegacy ToolAuth Auth Runner Sessions
    FileProps CommandTool Gateway Billing Providers SshService
begin

text \<open>
  A verification library for the backend of the Nereus DoorLoong Magic Panel: a server panel whose
  language-model agent administers the machine.  A run of the agent passes through these parts.

  \<^item> The \<^bold>\<open>agent loop\<close> (\<open>agent/agent_core/agent_loop.py\<close>) asks the model, executes its tool calls,
    waits for approvals, plans and choices of a person, and stops at limits.
  \<^item> Every tool call is judged by the \<^bold>\<open>safety rules\<close> (\<open>agent/safety\<close>); input is searched for prompt
    injection, output for the canary token; a run without a person is bounded by a
    pre-authorization policy.
  \<^item> The \<^bold>\<open>history\<close> is compressed to a token budget, and each step is written to a hash-chained
    \<^bold>\<open>trace log\<close>.
  \<^item> \<^bold>\<open>Scheduled tasks\<close> and inspections start runs of the agent; their policy, and the tool calls it does
    not cover, are approved by an administrator through an elevation code.
  \<^item> The \<^bold>\<open>gateway\<close> lets users in, keeps their sessions, runs the agent in the background and streams its
    events to the web client.
  \<^item> What needs root goes to the \<^bold>\<open>privileged agent\<close> (\<open>privileged_agent\<close>): a request is signed by
    the \<^bold>\<open>elevation service\<close> (\<open>gateway/service/elevation_service.py\<close>) for a code that an administrator
    approved, sent over a socket and executed after a chain of guards.
  \<^item> The processes of the backend talk over the \<^bold>\<open>internal RPC\<close> (\<open>internal_rpc\<close>).
\<close>

section \<open>Theories\<close>

text \<open>
  Foundations:
  \<^item> \<open>PyPrelude\<close>: texts, dicts, JSON values and the part of Python's \<open>str\<close> and \<open>dict\<close> that is used.
  \<^item> \<open>Utf8\<close>, \<open>Json\<close>: encoding, \<open>json.dumps\<close> and \<open>json.loads\<close>, the canonical text of
    \<open>privileged_agent/crypto.py\<close>; parsing is the inverse of printing.
  \<^item> \<open>Regex\<close>: Python's backtracking matcher, so that the patterns of the source are terms.
  \<^item> \<open>Machine\<close>: the operating system under the root process, with a log of its effects.
  \<^item> \<open>Replay\<close>: the interface of the two socket servers.  Locale \<open>nonce_guard\<close> is a store of nonces,
    \<open>replay_guard\<close> adds the freshness of time stamps; both are interpreted in \<open>InternalRpc\<close> on
    \<open>check_and_store\<close> and in \<open>PrivServer\<close> on \<open>priv_check_nonce\<close>, and the theorems that no request is
    admitted twice rest on these interpretations.

  The agent:
  \<^item> \<open>Safety\<close> (\<open>rule_engine.py\<close>, \<open>policy.py\<close>, \<open>router.py\<close>), \<open>RiskScorer\<close> (\<open>risk_scorer.py\<close>): exact
    conditions of the verdicts, monotonicity, and the only profile that is blocked.
  \<^item> \<open>Injection\<close> (\<open>injection_detector.py\<close>, \<open>canary.py\<close>), \<open>StructuredLLM\<close> (\<open>llm_structured.py\<close>,
    \<open>llm_classifier.py\<close>): leaks are detected, the classifier only says what a checked reply says.
  \<^item> \<open>History\<close> (\<open>compressor.py\<close>), \<open>TraceLog\<close> (\<open>trace_log\<close>): calls and answers stay together;
    the rows of a session form a hash chain, from which rows are missing where an insert failed, and changing them needs a collision.
  \<^item> \<open>PlanSchema\<close> (\<open>plan_schema.py\<close>), \<open>Preauth\<close> (the pre-authorization of \<open>agent_loop.py\<close>), \<open>AgentLoop\<close>
    (the loop itself) and \<open>AgentLoopProps\<close>: only authorized tools run, every call is answered in
    order, the output given to the model is bounded, and a run ends.  While the loop waits, other tasks may
    decide, cancel or switch the mode; an approval that is waited for outlives such a switch.

  The root side and the gateway:
  \<^item> \<open>Validator\<close> (\<open>validator.py\<close>), \<open>RateLimit\<close>, \<open>PrivServer\<close> (signed requests of \<open>server.py\<close>),
    \<open>PrivLegacy\<close> (its unsigned requests and the connection), \<open>Firewall\<close> (\<open>firewall_adapter.py\<close>):
    what is executed is the plan of a validated request, the limiter bounds every window, file actions stay in
    their directories.  Unsigned requests need neither signature nor nonce (\<open>unsigned_requests_execute\<close>).
  \<^item> \<open>InternalRpc\<close> (\<open>internal_rpc\<close>): dispatch, end-to-end delivery, no replay.
  \<^item> \<open>Elevation\<close> (\<open>elevation_service.py\<close>): the state machine of codes and tokens, the budget of a
    token, and the composition with the privileged agent: for signed requests root only runs what was approved.
  \<^item> \<open>ScheduledTask\<close> (\<open>ScheduledTaskService.py\<close>, its tables and the scheduler): tasks with a policy
    run only after their approval, as long as no waiting task is paused or resumed.
  \<^item> \<open>ToolAuth\<close> (\<open>ToolAuthorizationService.py\<close>, \<open>InspectionService.py\<close>, \<open>AdminController.py\<close>) joins the requests of
    unattended runs, the elevation codes, the tasks and the endpoints of the administrator in one
    state machine: which approval a run goes back to, what an approved request allows, now and in later
    runs, and that a failed approval leaves no token.
  \<^item> \<open>Auth\<close> (\<open>JWTTokenTool.py\<close>, \<open>UserService.py\<close>, \<open>GlobalInterceptor.py\<close>): endpoints are reached only after
    a login, and a logout ends the refresh token.
  \<^item> \<open>EventBuffer\<close> (\<open>AgentEventBuffer.py\<close> and the streaming of \<open>AgentGatewayService.py\<close>): locale \<open>event_log\<close> is
    the contract of the buffer, interpreted on the ring as \<open>ring\<close>; events arrive in order and once, with any number of
    stream tasks, and completely as far as the ring reaches where no operation that loses events comes in.
  \<^item> \<open>Runner\<close> (\<open>AgentBackgroundRunner.py\<close>, \<open>createEphemeralRun\<close>): messages of a session are handled one by
    one and in order, also when exceptions end a loop; an unattended run returns and reports its errors.
  \<^item> \<open>Sessions\<close> (\<open>AgentSessionDaoOrm.py\<close>, \<open>AgentSessionService.py\<close>, the persistence of the runner): the
    stored history refines the conversation, regeneration undoes a turn, users do not touch the sessions
    of others.
  \<^item> \<open>Gateway\<close> (\<open>handleWebSocket\<close> of \<open>AgentGatewayService.py\<close>, the decisions of \<open>agent_loop.py\<close> and \<open>session.py\<close>)
    joins \<open>Runner\<close>, \<open>Sessions\<close> and \<open>EventBuffer\<close> under the messages of the client: an approval after a
    reconnect executes exactly the stored call, and once unless it is approved again while its tool still runs (\<open>ws_step\<close> has
    the interleavings); a connection changes its own session only, and regeneration replaces the last round.
  \<^item> \<open>Billing\<close> (\<open>AgentModelPricingDaoOrm.py\<close>, \<open>AgentTokenUsageDaoOrm.py\<close>): prices and token usage; how far a
    bill is from the exact cost, and which price is charged.
  \<^item> \<open>SshService\<close> (\<open>FirewallService.py\<close>): the SSH configuration file and the port rules;
    an update of the configuration is read back as asked, replaces the block of the one before, and a refused one is undone.

  The models and the tools of the agent:
  \<^item> \<open>TextLemmas\<close>: shared lemmas on stripping, splitting and joining texts.
  \<^item> \<open>Providers\<close> (\<open>agent/llm_providers\<close>): requests, replies, streams and retries of the OpenAI and Anthropic protocols.
    Locale \<open>error_mapping\<close> is the contract of their error mappings, interpreted as \<open>oa\<close> and \<open>an\<close>.  A stream gives
    the same calls as the complete reply, the conversion for Anthropic keeps calls and answers, and
    the retries are bounded.
  \<^item> \<open>UText\<close>: texts of all code points, UTF-8 with replacement, universal newlines, \<open>splitlines\<close>,
    \<open>count\<close>, \<open>replace\<close> and \<open>find\<close>.
  \<^item> \<open>FileTools\<close> and \<open>FileTree\<close> (\<open>agent/agent_mcp/tools/filesystem.py\<close>) over a tree of files, directories
    and links: reading, writing, editing and batches; directories, copies, searches and patches.
    \<open>FileEdits\<close> and \<open>FileProps\<close> hold their lemmas and properties: what an edit changes and what it leaves,
    that a dry run predicts the run, that pages and writes read back, and what deleting and copying do.
  \<^item> \<open>CommandTool\<close> (\<open>command.py\<close>): the limits of outputs and the history of the last 20 commands.
\<close>

section \<open>Parameters and bounds\<close>

text \<open>
  Code outside the repository is an argument: Ed25519 and SHA-256, \<open>datetime.fromisoformat\<close>, the
  coercions of pydantic, \<open>ipaddress\<close>, the JWT library, the cron library, the reading of float texts, the system calls
  (\<open>os\<close>), subprocesses (\<open>proc\<close>, \<open>rg\<close>, \<open>git\<close>), HTTP requests (\<open>post\<close>), the regular expressions a user gives to the file tools (\<open>rx\<close>),
  the model and the tools behind the dispatcher (\<open>env\<close>).  The hypotheses on them are what they
  document: verification accepts a signature made with the key, a forged signature is not accepted
  (\<open>root_runs_only_approved\<close>, \<open>authenticated_requests\<close>), time stamps are read back, clocks do not go back or advance.
  Collisions of a hash are a disjunct of a conclusion, never excluded by a hypothesis.

  Clock readings and random values are arguments of the operation that draws them.  Waiting points
  (approvals, plans, choices in the loop; the agent inside \<open>runTask\<close>) are explicit, with the calls other
  tasks make in between.

  Loops: the iterations of \<open>Star\<close> in \<open>Regex\<close> are bounded by the text, which \<open>star_iter_enough\<close> shows
  to be enough; the loop of the agent is a while loop with an \<open>option\<close> result, and that it
  returns is proved for a limit on the rounds and for a limit on the time; the other loops are
  structural recursion or have a termination measure.
\<close>

section \<open>Limits of the model\<close>

text \<open>
  \<^item> Texts of requests, tools and tables have code points below 256, conversation texts all of them;
    case conversion is that of ASCII.
  \<^item> Prices and costs are rational numbers, not floats.
  \<^item> The file tree has no permissions, devices or file locks; a path follows at most 40 links, as the kernel
    does, and a tree that is copied is at most \<open>max_components\<close> deep; \<open>**\<close> in a glob is not modelled.
  \<^item> Texts of exceptions and messages for people are constants or left out where nothing reads them.
  \<^item> The order of rows that a query leaves open is the order of insertion.
  \<^item> Data of trace records inside the loop, cancellation of tasks and limits of CPython (recursion,
    memory, digits of integers) are left out.
\<close>

section \<open>Not modelled\<close>

text \<open>
  The other controllers of FastAPI, the file, terminal, container, database and web-site services of the
  gateway and the tool functions below \<open>utils/toolFunction\<close> and \<open>ndlmpanel_agent\<close> are calls of libraries and of
  the system with little logic of their own.  Of the modelled parts: socket set-up, file permissions, key
  files, threads and signals, loading of policy and prompt files, display texts of the trace timeline,
  several clients of one session at the same time (but for approvals and regenerations that overlap), stream tasks that read a buffer the
  session has replaced, the elevation and title events of the web socket.
\<close>

end
